(* ===== verification/Prelude.thy ===== *)
theory Prelude
  imports Main "HOL-Library.AList" "HOL-Library.Product_Lexorder" "HOL-Library.Option_ord"
begin

text \<open>
  What every component shares: the exceptions of the program and the sum type that carries
  them, Python's insertion-ordered dictionaries as association lists, \<open>max(key=)\<close> and
  stable sorting, decimal printing of integers, and the named collections of the development.
\<close>

named_theorems bundle_simps \<open>component-wise facts on bundles\<close>
named_theorems wf_intros \<open>introduction rules for well-formedness invariants\<close>
named_theorems frame_simps \<open>what an operation leaves unchanged\<close>

subsection \<open>Exceptions as values\<close>

text \<open>One constructor per exception class the modelled code raises.\<close>

datatype py_error =
    NegativeBundleError
  | NotAParty
  | CannotAfford string
  | KeyError string
  | AttributeError
  | AssertionError
  | TypeError
  | NoSnapshot
  | RunIdChanged
  | RequestIdConflictError
  | WireFormatError
  | UnknownEnumValue
  | UnknownServerMessageError
  | UninitializedMessageError
  | MessageTooLargeError
  | UnknownStrategyError string
  | ValueError string
  | ZeroDivisionError
  | IndexError
  | OverflowError

type_synonym 'a result = "py_error + 'a"

definition bindE :: "'a result \<Rightarrow> ('a \<Rightarrow> 'b result) \<Rightarrow> 'b result" where
  "bindE m f = (case m of Inl e \<Rightarrow> Inl e | Inr x \<Rightarrow> f x)"

lemma bindE_simps [simp]:
  "bindE (Inl e) f = Inl e"
  "bindE (Inr x) f = f x"
  by (simp_all add: bindE_def)

lemma bindE_Inr_iff: "bindE m f = Inr y \<longleftrightarrow> (\<exists>x. m = Inr x \<and> f x = Inr y)"
  by (cases m) auto

lemma bindE_InrE:
  assumes "bindE m f = Inr y"
  obtains x where "m = Inr x" and "f x = Inr y"
  using assms by (auto simp: bindE_Inr_iff)

lemma bindE_cong [fundef_cong]:
  "m = m' \<Longrightarrow> (\<And>x. m' = Inr x \<Longrightarrow> f x = f' x) \<Longrightarrow> bindE m f = bindE m' f'"
  by (cases m') auto

text \<open>A list of steps that stops at the first exception, as a generator expression does.\<close>

fun mapE :: "('a \<Rightarrow> 'b result) \<Rightarrow> 'a list \<Rightarrow> 'b list result" where
  "mapE f [] = Inr []"
| "mapE f (x # xs) = bindE (f x) (\<lambda>y. bindE (mapE f xs) (\<lambda>ys. Inr (y # ys)))"

lemma mapE_Inr: "(\<And>x. x \<in> set xs \<Longrightarrow> f x = Inr (g x)) \<Longrightarrow> mapE f xs = Inr (map g xs)"
  by (induction xs) auto

lemma mapE_map_id:
  "(\<And>x. x \<in> set xs \<Longrightarrow> f (g x) = Inr x) \<Longrightarrow> mapE f (map g xs) = Inr xs"
  by (induction xs) auto

lemma mapE_length: "mapE f xs = Inr ys \<Longrightarrow> length ys = length xs"
  by (induction xs arbitrary: ys) (auto elim!: bindE_InrE)

lemma mapE_total: "(\<And>x. x \<in> set xs \<Longrightarrow> \<exists>y. f x = Inr y) \<Longrightarrow> \<exists>ys. mapE f xs = Inr ys"
  by (induction xs) fastforce+

fun foldE :: "('a \<Rightarrow> 's \<Rightarrow> 's result) \<Rightarrow> 'a list \<Rightarrow> 's \<Rightarrow> 's result" where
  "foldE f [] s = Inr s"
| "foldE f (x # xs) s = bindE (f x s) (foldE f xs)"

subsection \<open>Insertion-ordered dictionaries\<close>

text \<open>
  A Python \<open>dict\<close> is an association list: \<^const>\<open>AList.update\<close> overwrites in place or
  appends, exactly the order in which a \<open>dict\<close> iterates; \<^const>\<open>AList.delete\<close> is
  \<open>pop\<close>; \<^const>\<open>map_of\<close> is \<open>get\<close>.
\<close>

type_synonym ('k, 'v) pydict = "('k \<times> 'v) list"

abbreviation dict_get :: "('k, 'v) pydict \<Rightarrow> 'k \<Rightarrow> 'v option" where
  "dict_get \<equiv> map_of"

abbreviation dict_set :: "'k \<Rightarrow> 'v \<Rightarrow> ('k, 'v) pydict \<Rightarrow> ('k, 'v) pydict" where
  "dict_set \<equiv> AList.update"

abbreviation dict_pop :: "'k \<Rightarrow> ('k, 'v) pydict \<Rightarrow> ('k, 'v) pydict" where
  "dict_pop \<equiv> AList.delete"

abbreviation dict_keys :: "('k, 'v) pydict \<Rightarrow> 'k list" where
  "dict_keys d \<equiv> map fst d"

abbreviation dict_values :: "('k, 'v) pydict \<Rightarrow> 'v list" where
  "dict_values d \<equiv> map snd d"

definition dict_get_or :: "'v \<Rightarrow> ('k, 'v) pydict \<Rightarrow> 'k \<Rightarrow> 'v" where
  "dict_get_or dflt d k = (case dict_get d k of None \<Rightarrow> dflt | Some v \<Rightarrow> v)"

text \<open>\<open>counts[k] = counts.get(k, 0) + 1\<close>.\<close>

definition count_key :: "(string, int) pydict \<Rightarrow> string \<Rightarrow> (string, int) pydict" where
  "count_key t k = dict_set k (dict_get_or 0 t k + 1) t"

definition dict_ok :: "('k, 'v) pydict \<Rightarrow> bool" where
  "dict_ok d \<longleftrightarrow> distinct (dict_keys d)"

lemma dict_get_set: "dict_get (dict_set k v d) k' = (if k' = k then Some v else dict_get d k')"
  by (simp add: update_conv)

lemma dict_get_pop: "dict_get (dict_pop k d) k' = (if k' = k then None else dict_get d k')"
  by (simp add: delete_conv)

lemma dict_ok_Nil [simp]: "dict_ok []"
  by (simp add: dict_ok_def)

lemma dict_ok_set [simp, wf_intros]: "dict_ok d \<Longrightarrow> dict_ok (dict_set k v d)"
  by (simp add: dict_ok_def distinct_update)

lemma dict_ok_pop [simp, wf_intros]: "dict_ok d \<Longrightarrow> dict_ok (dict_pop k d)"
  by (simp add: dict_ok_def distinct_delete)

lemma dict_mem_get: "dict_ok d \<Longrightarrow> (k, v) \<in> set d \<longleftrightarrow> dict_get d k = Some v"
  by (simp add: dict_ok_def map_of_eq_Some_iff)

lemma dict_get_or_set:
  "dict_get_or z (dict_set k v d) k' = (if k' = k then v else dict_get_or z d k')"
  by (simp add: dict_get_or_def dict_get_set)

text \<open>
  The mapping interface the components program against: what a lookup returns after a store or
  a removal, and that neither breaks the representation.
\<close>

locale py_mapping =
  fixes get :: "'d \<Rightarrow> 'k \<Rightarrow> 'v option"
    and put :: "'k \<Rightarrow> 'v \<Rightarrow> 'd \<Rightarrow> 'd"
    and drop_key :: "'k \<Rightarrow> 'd \<Rightarrow> 'd"
    and ok :: "'d \<Rightarrow> bool"
  assumes get_put: "get (put k v d) k' = (if k' = k then Some v else get d k')"
    and get_drop: "get (drop_key k d) k' = (if k' = k then None else get d k')"
    and ok_put: "ok d \<Longrightarrow> ok (put k v d)"
    and ok_drop: "ok d \<Longrightarrow> ok (drop_key k d)"
begin

text \<open>A loop that stores one key per item: the last item with the key wins.\<close>

lemma get_fold_put:
  "get (fold (\<lambda>x d. put (kf x) (vf x) d) xs d) k =
     (case find (\<lambda>x. kf x = k) (rev xs) of None \<Rightarrow> get d k | Some x \<Rightarrow> Some (vf x))"
  by (induction xs arbitrary: d rule: rev_induct) (auto simp: get_put)

lemma ok_fold_put: "ok d \<Longrightarrow> ok (fold (\<lambda>x d. put (kf x) (vf x) d) xs d)"
  by (induction xs arbitrary: d) (auto simp: ok_put)

lemma get_fold_drop:
  "get (fold drop_key ks d) k = (if k \<in> set ks then None else get d k)"
  by (induction ks arbitrary: d) (auto simp: get_drop)

end

interpretation pyd: py_mapping dict_get dict_set dict_pop dict_ok
  by unfold_locales (simp_all add: dict_get_set dict_get_pop)

subsection \<open>Selection and sorting\<close>

text \<open>Python's \<open>max(xs, key=k)\<close> and \<open>min(xs, key=k)\<close> keep the first extremal element.\<close>

definition py_max :: "('a \<Rightarrow> 'b::linorder) \<Rightarrow> 'a list \<Rightarrow> 'a option" where
  "py_max k xs = (case xs of [] \<Rightarrow> None
     | x # ys \<Rightarrow> Some (fold (\<lambda>y m. if k m < k y then y else m) ys x))"

definition py_min :: "('a \<Rightarrow> 'b::linorder) \<Rightarrow> 'a list \<Rightarrow> 'a option" where
  "py_min k xs = (case xs of [] \<Rightarrow> None
     | x # ys \<Rightarrow> Some (fold (\<lambda>y m. if k y < k m then y else m) ys x))"

lemma fold_max_in: "fold (\<lambda>y m. if k m < k y then y else m) ys x \<in> insert x (set ys)"
  by (induction ys arbitrary: x) auto

lemma fold_min_in: "fold (\<lambda>y m. if k y < k m then y else m) ys x \<in> insert x (set ys)"
  by (induction ys arbitrary: x) auto

lemma fold_max_ge:
  fixes k :: "'a \<Rightarrow> 'b::linorder"
  shows "z \<in> insert x (set ys) \<Longrightarrow> k z \<le> k (fold (\<lambda>y m. if k m < k y then y else m) ys x)"
proof (induction ys arbitrary: x z)
  case Nil
  then show ?case by simp
next
  case (Cons y ys)
  let ?m = "if k x < k y then y else x"
  have base: "k ?m \<le> k (fold (\<lambda>y m. if k m < k y then y else m) ys ?m)"
    by (rule Cons.IH) simp
  from Cons.prems consider "z \<in> set ys" | "z = x \<or> z = y" by auto
  then show ?case
  proof cases
    case 1
    then have "k z \<le> k (fold (\<lambda>y m. if k m < k y then y else m) ys ?m)"
      by (intro Cons.IH) simp
    then show ?thesis by simp
  next
    case 2
    then have "k z \<le> k ?m" by auto
    with base show ?thesis by simp
  qed
qed

lemma py_max_None [simp]: "py_max k xs = None \<longleftrightarrow> xs = []"
  by (simp add: py_max_def split: list.splits)

lemma py_min_None [simp]: "py_min k xs = None \<longleftrightarrow> xs = []"
  by (simp add: py_min_def split: list.splits)

lemma py_max_in: "py_max k xs = Some x \<Longrightarrow> x \<in> set xs"
proof (cases xs)
  case (Cons y ys)
  assume "py_max k xs = Some x"
  with Cons have "x = fold (\<lambda>y m. if k m < k y then y else m) ys y"
    by (simp add: py_max_def)
  with fold_max_in [of k ys y] Cons show ?thesis by simp
qed (simp add: py_max_def)

lemma py_min_in: "py_min k xs = Some x \<Longrightarrow> x \<in> set xs"
proof (cases xs)
  case (Cons y ys)
  assume "py_min k xs = Some x"
  with Cons have "x = fold (\<lambda>y m. if k y < k m then y else m) ys y"
    by (simp add: py_min_def)
  with fold_min_in [of k ys y] Cons show ?thesis by simp
qed (simp add: py_min_def)

lemma py_max_ge:
  assumes "py_max k xs = Some x" and "y \<in> set xs"
  shows "k y \<le> k x"
proof (cases xs)
  case (Cons z zs)
  with assms have "x = fold (\<lambda>y m. if k m < k y then y else m) zs z"
    and "y \<in> insert z (set zs)"
    by (auto simp: py_max_def)
  then show ?thesis by (simp add: fold_max_ge)
qed (use assms in simp)

subsection \<open>Decimal printing\<close>

text \<open>\<open>str(n)\<close> of a Python integer, used by the f-strings of the program.\<close>

fun digits_of :: "nat \<Rightarrow> string" where
  "digits_of n = (if n < 10 then [char_of (48 + n)]
                  else digits_of (n div 10) @ [char_of (48 + n mod 10)])"

declare digits_of.simps [simp del]

definition show_int :: "int \<Rightarrow> string" where
  "show_int i = (if i < 0 then ''-'' @ digits_of (nat (- i)) else digits_of (nat i))"

definition undigits :: "string \<Rightarrow> nat" where
  "undigits s = foldl (\<lambda>a c. a * 10 + (of_char c - 48)) 0 s"

lemma of_char_digit: "d < 10 \<Longrightarrow> of_char (char_of (48 + d :: nat) :: char) = (48 + d :: nat)"
  by simp

lemma undigits_digits_of [simp]: "undigits (digits_of n) = n"
proof (induction n rule: digits_of.induct)
  case (1 n)
  show ?case
  proof (cases "n < 10")
    case True
    then show ?thesis by (subst digits_of.simps) (simp add: undigits_def)
  next
    case False
    with "1.IH" have "undigits (digits_of (n div 10)) = n div 10" by simp
    moreover have "n mod 10 < 10" by simp
    ultimately show ?thesis using False
      by (subst digits_of.simps) (simp add: undigits_def)
  qed
qed

lemma digits_of_inj: "digits_of m = digits_of n \<longleftrightarrow> m = n"
  by (metis undigits_digits_of)

lemma digits_of_range: "c \<in> set (digits_of n) \<Longrightarrow> \<exists>d<10. c = char_of (48 + d :: nat)"
proof (induction n rule: digits_of.induct)
  case (1 n)
  show ?case
  proof (cases "n < 10")
    case True
    with "1.prems" show ?thesis by (subst (asm) digits_of.simps) auto
  next
    case False
    with "1.prems" have "c \<in> set (digits_of (n div 10)) \<or> c = char_of (48 + n mod 10)"
      by (subst (asm) digits_of.simps) auto
    then show ?thesis using "1.IH" False by (auto intro: exI [of _ "n mod 10"])
  qed
qed

lemma digits_of_not_Nil [simp]: "digits_of n \<noteq> []"
  by (subst digits_of.simps) simp

end
