(* ===== verification/Types.thy ===== *)
theory Types
  imports Prelude "HOL-Library.Multiset"
begin

text \<open>
  \<open>bazaar_client/domain/types.py\<close>: the immutable values the whole program exchanges. Integers
  are Python's, so \<open>int\<close>; the three quantities of a \<open>Bundle\<close> are \<open>nat\<close>, because
  \<open>__post_init__\<close> refuses every bundle with a negative one: each operation that could build
  such a bundle returns \<open>Inl NegativeBundleError\<close> instead. Frozen dataclasses of several
  fields are records, with a prefix where two classes share a field name.
\<close>

subsection \<open>Enumerations\<close>

datatype resource = WATER | FOOD | COMPONENTS
datatype phase = READY | RUNNING | PAUSED | FINISHED | ABORTED
datatype offer_status = OPEN | ACCEPTED | WITHDRAWN | EXPIRED | RUN_ENDED
datatype publication_status = PUB_ACTIVE | PUB_REPLACED | PUB_WITHDRAWN | PUB_EXPIRED | PUB_RUN_ENDED
datatype result_code =
    RES_OK | REQUEST_ID_CONFLICT | RUN_NOT_RUNNING | RATE_LIMITED | INVALID_ARGUMENT | NOT_FOUND
  | RES_EXPIRED | NOT_OPEN | LIMIT_REACHED | INSUFFICIENT_RESOURCES | STATION_FAILED
datatype control_code =
    BAD_MESSAGE | REQUEST_CAPACITY_EXCEEDED | UNSUPPORTED_VERSION | RUN_MISMATCH
  | INVALID_AUTHENTICATION | SESSION_FENCED

text \<open>The values of the \<open>IntEnum\<close> classes, their inverses (\<open>Resource(n)\<close> raises on an
  unknown number) and the names the f-strings print.\<close>

fun resource_int :: "resource \<Rightarrow> int" where
  "resource_int WATER = 1" | "resource_int FOOD = 2" | "resource_int COMPONENTS = 3"

fun resource_name :: "resource \<Rightarrow> string" where
  "resource_name WATER = ''WATER''" | "resource_name FOOD = ''FOOD''"
| "resource_name COMPONENTS = ''COMPONENTS''"

fun result_code_name :: "result_code \<Rightarrow> string" where
  "result_code_name RES_OK = ''OK''"
| "result_code_name REQUEST_ID_CONFLICT = ''REQUEST_ID_CONFLICT''"
| "result_code_name RUN_NOT_RUNNING = ''RUN_NOT_RUNNING''"
| "result_code_name RATE_LIMITED = ''RATE_LIMITED''"
| "result_code_name INVALID_ARGUMENT = ''INVALID_ARGUMENT''"
| "result_code_name NOT_FOUND = ''NOT_FOUND''"
| "result_code_name RES_EXPIRED = ''EXPIRED''"
| "result_code_name NOT_OPEN = ''NOT_OPEN''"
| "result_code_name LIMIT_REACHED = ''LIMIT_REACHED''"
| "result_code_name INSUFFICIENT_RESOURCES = ''INSUFFICIENT_RESOURCES''"
| "result_code_name STATION_FAILED = ''STATION_FAILED''"

fun phase_int :: "phase \<Rightarrow> int" where
  "phase_int READY = 1" | "phase_int RUNNING = 2" | "phase_int PAUSED = 3"
| "phase_int FINISHED = 4" | "phase_int ABORTED = 5"

fun phase_name :: "phase \<Rightarrow> string" where
  "phase_name READY = ''READY''" | "phase_name RUNNING = ''RUNNING''"
| "phase_name PAUSED = ''PAUSED''" | "phase_name FINISHED = ''FINISHED''"
| "phase_name ABORTED = ''ABORTED''"

fun offer_status_int :: "offer_status \<Rightarrow> int" where
  "offer_status_int OPEN = 1" | "offer_status_int ACCEPTED = 2" | "offer_status_int WITHDRAWN = 3"
| "offer_status_int EXPIRED = 4" | "offer_status_int RUN_ENDED = 5"

fun publication_status_int :: "publication_status \<Rightarrow> int" where
  "publication_status_int PUB_ACTIVE = 1" | "publication_status_int PUB_REPLACED = 2"
| "publication_status_int PUB_WITHDRAWN = 3" | "publication_status_int PUB_EXPIRED = 4"
| "publication_status_int PUB_RUN_ENDED = 5"

fun result_code_int :: "result_code \<Rightarrow> int" where
  "result_code_int RES_OK = 1" | "result_code_int REQUEST_ID_CONFLICT = 2"
| "result_code_int RUN_NOT_RUNNING = 3" | "result_code_int RATE_LIMITED = 4"
| "result_code_int INVALID_ARGUMENT = 5" | "result_code_int NOT_FOUND = 6"
| "result_code_int RES_EXPIRED = 7" | "result_code_int NOT_OPEN = 8"
| "result_code_int LIMIT_REACHED = 9" | "result_code_int INSUFFICIENT_RESOURCES = 10"
| "result_code_int STATION_FAILED = 11"

fun control_code_int :: "control_code \<Rightarrow> int" where
  "control_code_int BAD_MESSAGE = 1" | "control_code_int REQUEST_CAPACITY_EXCEEDED = 2"
| "control_code_int UNSUPPORTED_VERSION = 3" | "control_code_int RUN_MISMATCH = 4"
| "control_code_int INVALID_AUTHENTICATION = 5" | "control_code_int SESSION_FENCED = 6"

text \<open>\<open>for resource in Resource\<close> runs in definition order.\<close>

definition resources :: "resource list" where
  "resources = [WATER, FOOD, COMPONENTS]"

lemma set_resources [simp]: "set resources = UNIV"
  by (auto simp: resources_def) (metis resource.exhaust)

lemma in_resources [simp]: "r \<in> set resources"
  by simp

lemma distinct_resources [simp]: "distinct resources"
  by (simp add: resources_def)

lemma UNIV_resource: "(UNIV :: resource set) = {WATER, FOOD, COMPONENTS}"
  by (auto intro: resource.exhaust)

lemma all_resource: "(\<forall>r. P r) \<longleftrightarrow> P WATER \<and> P FOOD \<and> P COMPONENTS"
  by (metis resource.exhaust)

text \<open>\<open>IntEnum\<close> members compare as their numbers, and \<open>min(..., key=(..., r))\<close> relies on it.\<close>

instantiation resource :: linorder
begin

definition less_eq_resource :: "resource \<Rightarrow> resource \<Rightarrow> bool" where
  "less_eq_resource a b \<longleftrightarrow> resource_int a \<le> resource_int b"

definition less_resource :: "resource \<Rightarrow> resource \<Rightarrow> bool" where
  "less_resource a b \<longleftrightarrow> resource_int a < resource_int b"

instance
proof
  fix x y :: resource
  show "x \<le> y \<Longrightarrow> y \<le> x \<Longrightarrow> x = y"
    by (cases x; cases y) (simp_all add: less_eq_resource_def)
qed (auto simp: less_eq_resource_def less_resource_def)

end

subsection \<open>Bundles\<close>

datatype Bundle = Bundle (water: nat) (food: nat) (components: nat)

fun get :: "Bundle \<Rightarrow> resource \<Rightarrow> nat" where
  "get b WATER = water b"
| "get b FOOD = food b"
| "get b COMPONENTS = components b"

lemma get_Bundle [simp]:
  "get (Bundle w f c) r = (case r of WATER \<Rightarrow> w | FOOD \<Rightarrow> f | COMPONENTS \<Rightarrow> c)"
  by (cases r) simp_all

lemma get_selectors: "water b = get b WATER" "food b = get b FOOD" "components b = get b COMPONENTS"
  by simp_all

declare get.simps [simp del]

lemma bundle_eqI: "(\<And>r. get a r = get b r) \<Longrightarrow> a = b"
  by (metis Bundle.expand get.simps)

lemma bundle_eq_iff: "a = b \<longleftrightarrow> (\<forall>r. get a r = get b r)"
  using bundle_eqI by blast

text \<open>The constructor with its check, over the integers the code computes with.\<close>

definition bundle_new :: "int \<Rightarrow> int \<Rightarrow> int \<Rightarrow> Bundle result" where
  "bundle_new w f c = (if w < 0 \<or> f < 0 \<or> c < 0 then Inl NegativeBundleError
                       else Inr (Bundle (nat w) (nat f) (nat c)))"

text \<open>\<open>Bundle(*(f(r) for r in Resource))\<close>.\<close>

definition bundle_of :: "(resource \<Rightarrow> int) \<Rightarrow> Bundle result" where
  "bundle_of f = bundle_new (f WATER) (f FOOD) (f COMPONENTS)"

definition zero_bundle :: Bundle where
  "zero_bundle = Bundle 0 0 0"

definition single :: "resource \<Rightarrow> int \<Rightarrow> Bundle result" where
  "single resource quantity = bundle_of (\<lambda>r. if r = resource then quantity else 0)"

definition bundle_add :: "Bundle \<Rightarrow> Bundle \<Rightarrow> Bundle" where
  "bundle_add a b = Bundle (get a WATER + get b WATER) (get a FOOD + get b FOOD)
                           (get a COMPONENTS + get b COMPONENTS)"

definition bundle_sub :: "Bundle \<Rightarrow> Bundle \<Rightarrow> Bundle result" where
  "bundle_sub a b = bundle_of (\<lambda>r. int (get a r) - int (get b r))"

definition saturating_sub :: "Bundle \<Rightarrow> Bundle \<Rightarrow> Bundle" where
  "saturating_sub a b = Bundle (nat (max 0 (int (get a WATER) - int (get b WATER))))
                               (nat (max 0 (int (get a FOOD) - int (get b FOOD))))
                               (nat (max 0 (int (get a COMPONENTS) - int (get b COMPONENTS))))"

definition scale :: "Bundle \<Rightarrow> int \<Rightarrow> Bundle result" where
  "scale b factor = bundle_of (\<lambda>r. int (get b r) * factor)"

definition dominates :: "Bundle \<Rightarrow> Bundle \<Rightarrow> bool" where
  "dominates a b \<longleftrightarrow> list_all (\<lambda>r. get a r \<ge> get b r) resources"

definition is_zero :: "Bundle \<Rightarrow> bool" where
  "is_zero b \<longleftrightarrow> list_all (\<lambda>r. get b r = 0) resources"

definition total :: "Bundle \<Rightarrow> nat" where
  "total b = sum_list (map (get b) resources)"

text \<open>Bundles are an ordered cancellative monoid whose difference is \<open>saturating_sub\<close>, so the
  library's algebra and order automation applies to them.\<close>

instantiation Bundle :: "{zero, plus, minus, ord}"
begin

definition zero_bundle_inst: "(0 :: Bundle) = zero_bundle"
definition plus_bundle_inst: "a + b = bundle_add a b" for a b :: Bundle
definition minus_bundle_inst: "a - b = saturating_sub a b" for a b :: Bundle
definition less_eq_bundle_inst: "a \<le> b \<longleftrightarrow> dominates b a" for a b :: Bundle
definition less_bundle_inst: "a < b \<longleftrightarrow> dominates b a \<and> \<not> dominates a b" for a b :: Bundle

instance ..

end

lemma get_zero [simp, bundle_simps]: "get 0 r = 0"
  by (cases r) (simp_all add: zero_bundle_inst zero_bundle_def)

lemma get_plus [simp, bundle_simps]: "get (a + b) r = get a r + get b r"
  by (cases r) (simp_all add: plus_bundle_inst bundle_add_def)

lemma get_minus [simp, bundle_simps]: "get (a - b) r = get a r - get b r"
  by (cases r) (simp_all add: minus_bundle_inst saturating_sub_def)

lemma bundle_le_iff [bundle_simps]: "a \<le> b \<longleftrightarrow> (\<forall>r. get a r \<le> get b r)"
  by (simp add: less_eq_bundle_inst dominates_def list_all_iff)

lemma get_mono: "a \<le> b \<Longrightarrow> get a r \<le> get b r"
  by (simp add: bundle_le_iff)

instance Bundle :: ordered_cancel_comm_monoid_diff
proof
  fix a b c :: Bundle
  show "a + b + c = a + (b + c)" by (rule bundle_eqI) simp
  show "a + b = b + a" by (rule bundle_eqI) simp
  show "0 + a = a" by (rule bundle_eqI) simp
  show "a + b - a = b" by (rule bundle_eqI) simp
  show "a - b - c = a - (b + c)" by (rule bundle_eqI) simp
  show "(a < b) = (a \<le> b \<and> \<not> b \<le> a)" by (simp add: less_bundle_inst less_eq_bundle_inst)
  show "a \<le> a" by (simp add: bundle_le_iff)
  show "a \<le> b \<Longrightarrow> b \<le> c \<Longrightarrow> a \<le> c" by (auto simp: bundle_le_iff intro: le_trans)
  show "a \<le> b \<Longrightarrow> b \<le> a \<Longrightarrow> a = b" by (auto simp: bundle_le_iff intro!: bundle_eqI le_antisym)
  show "a \<le> b \<Longrightarrow> c + a \<le> c + b" by (simp add: bundle_le_iff)
  show "(a \<le> b) = (\<exists>c. b = a + c)"
  proof
    assume "a \<le> b"
    then have "b = a + (b - a)" by (intro bundle_eqI) (simp add: bundle_le_iff)
    then show "\<exists>c. b = a + c" ..
  qed (auto simp: bundle_le_iff)
  show "0 - a = 0" by (rule bundle_eqI) simp
  show "c + a \<le> c + b \<Longrightarrow> a \<le> b" by (simp add: bundle_le_iff)
qed

lemma bundle_folds:
  "zero_bundle = 0" "bundle_add a b = a + b" "saturating_sub a b = a - b" "dominates a b \<longleftrightarrow> b \<le> a"
  by (simp_all add: zero_bundle_inst plus_bundle_inst minus_bundle_inst less_eq_bundle_inst)

lemma is_zero_iff [simp]: "is_zero b \<longleftrightarrow> b = 0"
  by (auto simp: is_zero_def list_all_iff intro: bundle_eqI)

lemma total_alt: "total b = get b WATER + get b FOOD + get b COMPONENTS"
  by (simp add: total_def resources_def)

lemma total_add [simp]: "total (a + b) = total a + total b"
  by (simp add: total_alt)

lemma total_zero [simp]: "total 0 = 0"
  by (simp add: total_alt)

lemma total_0_iff [simp]: "total b = 0 \<longleftrightarrow> b = 0"
  by (simp add: total_alt bundle_eq_iff all_resource)

lemma total_mono: "a \<le> b \<Longrightarrow> total a \<le> total b"
  by (simp add: total_alt bundle_le_iff add_mono)

lemma get_le_total: "get b r \<le> total b"
  by (cases r) (simp_all add: total_alt)

lemma bundle_of_nonneg:
  "(\<And>r. 0 \<le> f r) \<Longrightarrow> bundle_of f = Inr (Bundle (nat (f WATER)) (nat (f FOOD)) (nat (f COMPONENTS)))"
  by (simp add: bundle_of_def bundle_new_def not_less)

lemma bundle_of_Inr_iff:
  "bundle_of f = Inr b \<longleftrightarrow> (\<forall>r. 0 \<le> f r \<and> int (get b r) = f r)"
  by (auto simp: bundle_of_def bundle_new_def all_resource bundle_eq_iff)

lemma bundle_of_Inl_iff: "bundle_of f = Inl e \<longleftrightarrow> e = NegativeBundleError \<and> (\<exists>r. f r < 0)"
  by (auto simp: bundle_of_def bundle_new_def) (metis resource.exhaust)+

lemma bundle_of_InrE:
  assumes "bundle_of f = Inr b"
  shows "0 \<le> f r" and "int (get b r) = f r"
  using assms by (simp_all add: bundle_of_Inr_iff)

lemma single_Inr_iff:
  "single q n = Inr b \<longleftrightarrow> 0 \<le> n \<and> (\<forall>r. int (get b r) = (if r = q then n else 0))"
  by (auto simp: single_def bundle_of_Inr_iff)

lemma single_nonneg: "0 \<le> n \<Longrightarrow> \<exists>b. single q n = Inr b"
  by (simp add: single_def bundle_of_nonneg)

lemma get_single: "single q n = Inr b \<Longrightarrow> get b r = (if r = q then nat n else 0)"
  by (auto simp: single_Inr_iff split: if_splits)

lemma total_single: "single q n = Inr b \<Longrightarrow> total b = nat n"
  by (cases q) (simp_all add: total_alt get_single)

lemma bundle_sub_Inr: "b \<le> a \<Longrightarrow> bundle_sub a b = Inr (a - b)"
  by (simp add: bundle_sub_def bundle_of_Inr_iff bundle_le_iff of_nat_diff)

lemma bundle_sub_Inr_iff: "bundle_sub a b = Inr c \<longleftrightarrow> b \<le> a \<and> c = a - b"
proof -
  have "bundle_sub a b = Inr c \<longleftrightarrow> (\<forall>r. get b r \<le> get a r \<and> int (get c r) = int (get a r) - int (get b r))"
    by (simp add: bundle_sub_def bundle_of_Inr_iff)
  also have "\<dots> \<longleftrightarrow> b \<le> a \<and> c = a - b"
    by (auto simp: bundle_le_iff bundle_eq_iff)
       (metis of_nat_diff of_nat_eq_iff)+
  finally show ?thesis .
qed

lemma bundle_sub_Inl_iff: "bundle_sub a b = Inl e \<longleftrightarrow> e = NegativeBundleError \<and> \<not> b \<le> a"
  by (auto simp: bundle_sub_def bundle_of_Inl_iff bundle_le_iff not_le)

subsection \<open>Rules, stations, offers, trades, advertisements\<close>

record rules =
  rules_version :: string
  duration_ticks :: int
  tick_duration_ms :: int
  resource_order :: "resource list"
  max_health :: int
  shortage_damage_per_unit :: int
  recovery_per_fully_supplied_tick :: int
  max_publication_ttl_ticks :: int
  max_offer_ttl_ticks :: int
  new_commands_per_station_per_tick :: int
  max_request_records_per_station :: int
  max_open_outgoing_offers :: int
  max_command_bytes :: int

record station_observation =
  obs_station_id :: string
  inventory :: Bundle
  health :: int
  failed_once :: bool
  first_failure_tick :: "int option"
  last_production :: Bundle
  last_unmet_upkeep :: Bundle
  fully_supplied_ticks :: int
  shortage_ticks :: int
  current_shortage_streak :: int
  longest_shortage_streak :: int
  produced_total :: Bundle
  consumed_total :: Bundle
  unmet_total :: Bundle
  imported_total :: Bundle
  exported_total :: Bundle
  upkeep_per_tick :: Bundle
  specialty :: resource

record directory_entry =
  dir_station_id :: string
  display_name :: string

record offer =
  offer_id :: string
  proposer_id :: string
  recipient_id :: string
  give :: Bundle
  receive :: Bundle
  created_tick :: int
  created_version :: int
  expires_tick :: int
  offer_status :: offer_status
  closed_tick :: "int option"
  offer_transaction_id :: "string option"

record transaction =
  transaction_id :: string
  txn_offer_id :: string
  txn_proposer_id :: string
  txn_recipient_id :: string
  txn_give :: Bundle
  txn_receive :: Bundle
  settled_tick :: int
  settled_version :: int

record advertisement =
  advertisement_id :: string
  ad_station_id :: string
  selling :: "resource set"
  seeking :: "resource set"
  ad_created_tick :: int
  ad_expires_tick :: int
  ad_created_version :: int
  ad_status :: publication_status

record command_result =
  request_id :: string
  ok :: bool
  code :: result_code
  processed_tick :: int
  processed_version :: int
  object_id :: "string option"
  res_transaction_id :: "string option"
  retry_after_tick :: "int option"

record protocol_error_event =
  err_run_id :: "string option"
  err_request_id :: "string option"
  err_code :: control_code
  close_session :: bool

record readiness_ack =
  ack_run_id :: string
  ack_ready :: bool
  ack_snapshot_sequence :: int

record player_outcome =
  collective_success :: "bool option"
  self_failed :: bool
  aborted :: bool

record snapshot =
  run_id :: string
  snapshot_sequence :: int
  world_version :: int
  snap_tick :: int
  snap_phase :: phase
  self_station_id :: string
  snap_rules :: rules
  directory :: "directory_entry list"
  me :: station_observation
  offers :: "offer list"
  advertisements :: "advertisement list"
  transactions :: "transaction list"
  request_results :: "command_result list"
  outcome :: "player_outcome option"

datatype server_event =
    SnapshotEvent snapshot
  | ResultEvent command_result
  | ProtocolErrorEvent protocol_error_event
  | ReadinessEvent readiness_ack

subsection \<open>Offers: deadlines and perspective\<close>

definition is_expired_at :: "offer \<Rightarrow> int \<Rightarrow> bool" where
  "is_expired_at o' tick \<longleftrightarrow> tick \<ge> expires_tick o'"

definition is_open_at :: "offer \<Rightarrow> int \<Rightarrow> bool" where
  "is_open_at o' tick \<longleftrightarrow> offer_status o' = OPEN \<and> \<not> is_expired_at o' tick"

definition what_station_pays :: "offer \<Rightarrow> string \<Rightarrow> Bundle result" where
  "what_station_pays o' station_id =
     (if station_id = proposer_id o' then Inr (give o')
      else if station_id = recipient_id o' then Inr (receive o')
      else Inl NotAParty)"

definition what_station_receives :: "offer \<Rightarrow> string \<Rightarrow> Bundle result" where
  "what_station_receives o' station_id =
     (if station_id = proposer_id o' then Inr (receive o')
      else if station_id = recipient_id o' then Inr (give o')
      else Inl NotAParty)"

definition is_gift_to :: "offer \<Rightarrow> string \<Rightarrow> bool" where
  "is_gift_to o' station_id \<longleftrightarrow> station_id = recipient_id o' \<and> is_zero (receive o')"

definition ad_is_expired_at :: "advertisement \<Rightarrow> int \<Rightarrow> bool" where
  "ad_is_expired_at ad tick \<longleftrightarrow> tick \<ge> ad_expires_tick ad"

definition incoming_open_offers :: "snapshot \<Rightarrow> offer list" where
  "incoming_open_offers s =
     filter (\<lambda>o'. recipient_id o' = self_station_id s \<and> is_open_at o' (snap_tick s)) (offers s)"

definition outgoing_open_offers :: "snapshot \<Rightarrow> offer list" where
  "outgoing_open_offers s =
     filter (\<lambda>o'. proposer_id o' = self_station_id s \<and> is_open_at o' (snap_tick s)) (offers s)"

definition own_advertisement :: "snapshot \<Rightarrow> advertisement option" where
  "own_advertisement s =
     find (\<lambda>ad. ad_station_id ad = self_station_id s \<and> ad_status ad = PUB_ACTIVE) (advertisements s)"

lemma incoming_open_offersD:
  "o' \<in> set (incoming_open_offers s) \<Longrightarrow>
     o' \<in> set (offers s) \<and> recipient_id o' = self_station_id s \<and> is_open_at o' (snap_tick s)"
  by (simp add: incoming_open_offers_def)

lemma outgoing_open_offersD:
  "o' \<in> set (outgoing_open_offers s) \<Longrightarrow>
     o' \<in> set (offers s) \<and> proposer_id o' = self_station_id s \<and> is_open_at o' (snap_tick s)"
  by (simp add: outgoing_open_offers_def)

lemma is_open_at_antimono: "is_open_at o' t \<Longrightarrow> s \<le> t \<Longrightarrow> is_open_at o' s"
  by (auto simp: is_open_at_def is_expired_at_def)

lemma party_pays:
  "what_station_pays o' sid = Inr c \<longleftrightarrow>
     (sid = proposer_id o' \<and> c = give o') \<or> (sid \<noteq> proposer_id o' \<and> sid = recipient_id o' \<and> c = receive o')"
  by (auto simp: what_station_pays_def)

lemma recipient_pays: "sid = recipient_id o' \<Longrightarrow> \<exists>c. what_station_pays o' sid = Inr c"
  by (simp add: what_station_pays_def)

lemma recipient_receives: "sid = recipient_id o' \<Longrightarrow> \<exists>c. what_station_receives o' sid = Inr c"
  by (simp add: what_station_receives_def)

lemma party_balance:
  "what_station_pays o' sid = Inr c \<Longrightarrow> what_station_receives o' sid = Inr g \<Longrightarrow>
     c + g = give o' + receive o'"
  by (auto simp: what_station_pays_def what_station_receives_def add.commute split: if_splits)

subsection \<open>Frozen sets of resources\<close>

text \<open>The iteration order of a \<open>frozenset\<close> of \<open>IntEnum\<close> members 1, 2, 3 is their numeric order
  (an \<open>int\<close> hashes to itself).\<close>

definition in_order :: "resource set \<Rightarrow> resource list" where
  "in_order s = filter (\<lambda>r. r \<in> s) resources"

lemma set_in_order [simp]: "set (in_order s) = s"
  by (simp add: in_order_def)

lemma distinct_in_order [simp]: "distinct (in_order s)"
  by (simp add: in_order_def)

end
