(* ===== verification/Demo.thy ===== *)
theory Demo
  imports Types
begin

text \<open>
  Concrete states, in the shape of \<open>tests/fixtures/factories.py\<close>, on which the development's
  theorems are applied: they show that the hypotheses can hold together and what the definitions
  compute there.
\<close>

definition demo_rules :: rules where
  "demo_rules = \<lparr>rules_version = ''classroom-1'', duration_ticks = 120, tick_duration_ms = 5000,
     resource_order = resources, max_health = 100, shortage_damage_per_unit = 5,
     recovery_per_fully_supplied_tick = 5, max_publication_ttl_ticks = 10, max_offer_ttl_ticks = 10,
     new_commands_per_station_per_tick = 4, max_request_records_per_station = 5,
     max_open_outgoing_offers = 8, max_command_bytes = 16384\<rparr>"

definition demo_station :: "Bundle \<Rightarrow> station_observation" where
  "demo_station inven = \<lparr>obs_station_id = ''P01'', inventory = inven, health = 100, failed_once = False,
     first_failure_tick = None, last_production = zero_bundle, last_unmet_upkeep = zero_bundle,
     fully_supplied_ticks = 0, shortage_ticks = 0, current_shortage_streak = 0,
     longest_shortage_streak = 0, produced_total = zero_bundle, consumed_total = zero_bundle,
     unmet_total = zero_bundle, imported_total = zero_bundle, exported_total = zero_bundle,
     upkeep_per_tick = Bundle 1 1 1, specialty = WATER\<rparr>"

definition demo_offer :: "string \<Rightarrow> string \<Rightarrow> string \<Rightarrow> Bundle \<Rightarrow> Bundle \<Rightarrow> offer" where
  "demo_offer oid p r g w = \<lparr>offer_id = oid, proposer_id = p, recipient_id = r, give = g, receive = w,
     created_tick = 8, created_version = 5, expires_tick = 14, offer_status = OPEN,
     closed_tick = None, offer_transaction_id = None\<rparr>"

definition demo_ad :: "string \<Rightarrow> resource set \<Rightarrow> resource set \<Rightarrow> advertisement" where
  "demo_ad sid sell seek = \<lparr>advertisement_id = ''ad-'' @ sid, ad_station_id = sid, selling = sell,
     seeking = seek, ad_created_tick = 8, ad_expires_tick = 16, ad_created_version = 3,
     ad_status = PUB_ACTIVE\<rparr>"

definition demo_snapshot :: "rules \<Rightarrow> Bundle \<Rightarrow> offer list \<Rightarrow> advertisement list \<Rightarrow> snapshot" where
  "demo_snapshot rs inven os ads = \<lparr>run_id = ''run-1'', snapshot_sequence = 7, world_version = 40,
     snap_tick = 10, snap_phase = RUNNING, self_station_id = ''P01'', snap_rules = rs,
     directory = [\<lparr>dir_station_id = ''P01'', display_name = ''Alpha''\<rparr>,
                  \<lparr>dir_station_id = ''P02'', display_name = ''Beta''\<rparr>],
     me = demo_station inven, offers = os, advertisements = ads, transactions = [],
     request_results = [], outcome = None\<rparr>"

lemmas demo_defs = demo_rules_def demo_station_def demo_offer_def demo_ad_def demo_snapshot_def

text \<open>A trading tick: short of food and components, one incoming offer of food for water.\<close>

definition demo_tick :: snapshot where
  "demo_tick = demo_snapshot demo_rules (Bundle 60 8 18)
     [demo_offer ''offer-1'' ''P02'' ''P01'' (Bundle 0 3 0) (Bundle 4 0 0)]
     [demo_ad ''P02'' {FOOD} {WATER}]"

text \<open>Stock above the cap and room for a single open offer.\<close>

definition demo_rich :: snapshot where
  "demo_rich = demo_snapshot (demo_rules\<lparr>max_open_outgoing_offers := 1\<rparr>) (Bundle 130 8 18) []
     [demo_ad ''P02'' {FOOD} {WATER}]"

end
