(* ===== verification/Lifecycle.thy ===== *)
theory Lifecycle
  imports Demo
begin

text \<open>
  \<open>bazaar_client/connection/lifecycle.py\<close>: the connection as a state machine. A connection
  reads its first snapshot, declares readiness for it, waits for the matching confirmation and
  only then trades, while the phase is RUNNING. The step relation \<open>lc_run\<close> records the inputs of
  a whole session, newest first, so the properties can speak of what happened on this connection.
\<close>

datatype session_state = DISCONNECTED | AWAITING_FIRST_STATE | AWAITING_READINESS | ACTIVE | CLOSED

datatype directive =
    SendReady string int
  | Reconnect string
  | Abort string "control_code option"

definition FATAL_CONTROL_CODES :: "control_code set" where
  "FATAL_CONTROL_CODES = {UNSUPPORTED_VERSION, RUN_MISMATCH, INVALID_AUTHENTICATION}"

definition TRADING_PHASES :: "phase set" where
  "TRADING_PHASES = {RUNNING}"

definition TERMINAL_PHASES :: "phase set" where
  "TERMINAL_PHASES = {FINISHED, ABORTED}"

record lifecycle =
  lc_state :: session_state
  lc_run_id :: "string option"
  lc_phase :: "phase option"
  lc_ready_sequence :: "int option"
  lc_last_sequence :: int

definition lifecycle_init :: lifecycle where
  "lifecycle_init = \<lparr>lc_state = DISCONNECTED, lc_run_id = None, lc_phase = None,
     lc_ready_sequence = None, lc_last_sequence = 0\<rparr>"

definition can_send_trading_commands :: "lifecycle \<Rightarrow> bool" where
  "can_send_trading_commands l \<longleftrightarrow>
     lc_state l = ACTIVE \<and> (case lc_phase l of None \<Rightarrow> False | Some p \<Rightarrow> p \<in> TRADING_PHASES)"

definition can_send_control_messages :: "lifecycle \<Rightarrow> bool" where
  "can_send_control_messages l \<longleftrightarrow> lc_state l \<in> {AWAITING_FIRST_STATE, AWAITING_READINESS, ACTIVE}"

definition on_connected :: "lifecycle \<Rightarrow> lifecycle" where
  "on_connected l = l\<lparr>lc_state := AWAITING_FIRST_STATE, lc_ready_sequence := None, lc_last_sequence := 0\<rparr>"

definition on_disconnected :: "lifecycle \<Rightarrow> lifecycle" where
  "on_disconnected l = (if lc_state l \<noteq> CLOSED then l\<lparr>lc_state := DISCONNECTED\<rparr> else l)"

definition lifecycle_reset :: "lifecycle \<Rightarrow> lifecycle" where
  "lifecycle_reset l = l\<lparr>lc_state := DISCONNECTED, lc_phase := None, lc_ready_sequence := None, lc_last_sequence := 0\<rparr>"

fun control_code_name :: "control_code \<Rightarrow> string" where
  "control_code_name BAD_MESSAGE = ''BAD_MESSAGE''"
| "control_code_name REQUEST_CAPACITY_EXCEEDED = ''REQUEST_CAPACITY_EXCEEDED''"
| "control_code_name UNSUPPORTED_VERSION = ''UNSUPPORTED_VERSION''"
| "control_code_name RUN_MISMATCH = ''RUN_MISMATCH''"
| "control_code_name INVALID_AUTHENTICATION = ''INVALID_AUTHENTICATION''"
| "control_code_name SESSION_FENCED = ''SESSION_FENCED''"

text \<open>\<open>f"{x}"\<close> of an optional value.\<close>

definition show_opt :: "('a \<Rightarrow> string) \<Rightarrow> 'a option \<Rightarrow> string" where
  "show_opt f x = (case x of None \<Rightarrow> ''None'' | Some y \<Rightarrow> f y)"

definition on_snapshot :: "snapshot \<Rightarrow> lifecycle \<Rightarrow> (directive option \<times> lifecycle) result" where
  "on_snapshot s l =
     (if lc_run_id l \<noteq> None \<and> Some (run_id s) \<noteq> lc_run_id l then Inl RunIdChanged
      else if snapshot_sequence s \<le> lc_last_sequence l then Inr (None, l)
      else let l = l\<lparr>lc_run_id := Some (run_id s), lc_phase := Some (snap_phase s),
                     lc_last_sequence := max (lc_last_sequence l) (snapshot_sequence s)\<rparr>
        in if lc_state l = AWAITING_FIRST_STATE
           then Inr (Some (SendReady (run_id s) (snapshot_sequence s)),
                     l\<lparr>lc_state := AWAITING_READINESS, lc_ready_sequence := Some (snapshot_sequence s)\<rparr>)
           else Inr (None, l))"

definition on_readiness :: "readiness_ack \<Rightarrow> lifecycle \<Rightarrow> directive option \<times> lifecycle" where
  "on_readiness ack l =
     (if lc_state l \<noteq> AWAITING_READINESS then (None, l)
      else if Some (ack_run_id ack) \<noteq> lc_run_id l
      then (Some (Abort (''readiness for run '' @ ack_run_id ack @ '', expected ''
              @ show_opt id (lc_run_id l)) None), l)
      else if Some (ack_snapshot_sequence ack) \<noteq> lc_ready_sequence l
      then (Some (Abort (''readiness acknowledged sequence '' @ show_int (ack_snapshot_sequence ack)
              @ '', declared '' @ show_opt show_int (lc_ready_sequence l)) None), l)
      else if \<not> ack_ready ack then (None, l)
      else (None, l\<lparr>lc_state := ACTIVE\<rparr>))"

definition on_protocol_error :: "protocol_error_event \<Rightarrow> lifecycle \<Rightarrow> directive option \<times> lifecycle" where
  "on_protocol_error ev l =
     (if err_code ev \<in> FATAL_CONTROL_CODES
      then (Some (Abort (''fatal control error '' @ control_code_name (err_code ev)) (Some (err_code ev))),
            l\<lparr>lc_state := CLOSED\<rparr>)
      else if close_session ev
      then (Some (Reconnect (''server closed session after '' @ control_code_name (err_code ev))),
            l\<lparr>lc_state := DISCONNECTED\<rparr>)
      else (None, l))"

fun on_event :: "server_event \<Rightarrow> lifecycle \<Rightarrow> (directive option \<times> lifecycle) result" where
  "on_event (SnapshotEvent s) l = on_snapshot s l"
| "on_event (ReadinessEvent a) l = Inr (on_readiness a l)"
| "on_event (ProtocolErrorEvent ev) l = Inr (on_protocol_error ev l)"
| "on_event (ResultEvent r) l = Inr (None, l)"

lemmas lc_ops = on_connected_def on_disconnected_def lifecycle_reset_def on_snapshot_def
  on_readiness_def on_protocol_error_def

subsection \<open>Sessions\<close>

datatype lc_input = Connected | Disconnected | Reset | Event server_event

inductive lc_run :: "lc_input list \<Rightarrow> lifecycle \<Rightarrow> bool" where
  lc_init: "lc_run [] lifecycle_init"
| lc_connected: "lc_run tr l \<Longrightarrow> lc_run (Connected # tr) (on_connected l)"
| lc_disconnected: "lc_run tr l \<Longrightarrow> lc_run (Disconnected # tr) (on_disconnected l)"
| lc_reset: "lc_run tr l \<Longrightarrow> lc_run (Reset # tr) (lifecycle_reset l)"
| lc_event: "lc_run tr l \<Longrightarrow> on_event ev l = Inr (d, l') \<Longrightarrow> lc_run (Event ev # tr) l'"
| lc_refused: "lc_run tr l \<Longrightarrow> on_event ev l = Inl e \<Longrightarrow> lc_run (Event ev # tr) l"

text \<open>The inputs since the last connect.\<close>

definition connection :: "lc_input list \<Rightarrow> lc_input list" where
  "connection tr = takeWhile (\<lambda>i. i \<noteq> Connected \<and> i \<noteq> Reset) tr"

lemma connection_simps [simp]:
  "connection (Connected # tr) = []" "connection (Reset # tr) = []"
  "connection (Disconnected # tr) = Disconnected # connection tr"
  "connection (Event ev # tr) = Event ev # connection tr"
  by (simp_all add: connection_def)

definition declared :: "lc_input list \<Rightarrow> lifecycle \<Rightarrow> bool" where
  "declared seg l \<longleftrightarrow> (\<exists>s. Event (SnapshotEvent s) \<in> set seg
     \<and> lc_run_id l = Some (run_id s) \<and> lc_ready_sequence l = Some (snapshot_sequence s))"

definition confirmed :: "lc_input list \<Rightarrow> lifecycle \<Rightarrow> bool" where
  "confirmed seg l \<longleftrightarrow> (\<exists>a. Event (ReadinessEvent a) \<in> set seg \<and> ack_ready a
     \<and> lc_run_id l = Some (ack_run_id a) \<and> lc_ready_sequence l = Some (ack_snapshot_sequence a))"

definition lc_ok :: "lc_input list \<Rightarrow> lifecycle \<Rightarrow> bool" where
  "lc_ok tr l \<longleftrightarrow>
     (lc_state l = AWAITING_READINESS \<longrightarrow> declared (connection tr) l)
     \<and> (lc_state l = ACTIVE \<longrightarrow> declared (connection tr) l \<and> confirmed (connection tr) l)
     \<and> (lc_state l = AWAITING_FIRST_STATE \<longrightarrow> lc_last_sequence l = 0)"

lemma declared_mono: "declared seg l \<Longrightarrow> lc_run_id l' = lc_run_id l \<Longrightarrow>
    lc_ready_sequence l' = lc_ready_sequence l \<Longrightarrow> declared (i # seg) l'"
  by (auto simp: declared_def)

lemma confirmed_mono: "confirmed seg l \<Longrightarrow> lc_run_id l' = lc_run_id l \<Longrightarrow>
    lc_ready_sequence l' = lc_ready_sequence l \<Longrightarrow> confirmed (i # seg) l'"
  by (auto simp: confirmed_def)

lemma lc_ok_snapshot:
  assumes "lc_ok tr l" and "on_snapshot s l = Inr (d, l')"
  shows "lc_ok (Event (SnapshotEvent s) # tr) l'"
proof (cases "snapshot_sequence s \<le> lc_last_sequence l")
  case True
  with assms have "l' = l" by (simp add: on_snapshot_def split: if_splits)
  with assms(1) show ?thesis by (auto simp: lc_ok_def intro: declared_mono confirmed_mono)
next
  case False
  with assms have rid: "lc_run_id l \<noteq> None \<Longrightarrow> lc_run_id l = Some (run_id s)"
    by (auto simp: on_snapshot_def split: if_splits)
  show ?thesis
  proof (cases "lc_state l = AWAITING_FIRST_STATE")
    case True
    with False assms(2) have "l' = l\<lparr>lc_run_id := Some (run_id s), lc_phase := Some (snap_phase s),
        lc_last_sequence := max (lc_last_sequence l) (snapshot_sequence s),
        lc_state := AWAITING_READINESS, lc_ready_sequence := Some (snapshot_sequence s)\<rparr>"
      by (auto simp: on_snapshot_def Let_def split: if_splits)
    then show ?thesis by (auto simp: lc_ok_def declared_def)
  next
    case other: False
    with False assms(2) have l': "l' = l\<lparr>lc_run_id := Some (run_id s), lc_phase := Some (snap_phase s),
        lc_last_sequence := max (lc_last_sequence l) (snapshot_sequence s)\<rparr>"
      by (auto simp: on_snapshot_def Let_def split: if_splits)
    have "declared (connection tr) l \<Longrightarrow> declared (i # connection tr) l'"
      and "confirmed (connection tr) l \<Longrightarrow> confirmed (i # connection tr) l'" for i
      using rid by (auto simp: declared_def confirmed_def l')
    with assms(1) other show ?thesis by (simp add: lc_ok_def l')
  qed
qed

lemma lc_ok_readiness:
  assumes "lc_ok tr l" and "on_readiness a l = (d, l')"
  shows "lc_ok (Event (ReadinessEvent a) # tr) l'"
proof (cases "l' = l")
  case True
  with assms(1) show ?thesis by (auto simp: lc_ok_def intro: declared_mono confirmed_mono)
next
  case False
  with assms(2) have "l' = l\<lparr>lc_state := ACTIVE\<rparr>" "lc_state l = AWAITING_READINESS"
    and a: "lc_run_id l = Some (ack_run_id a)" "lc_ready_sequence l = Some (ack_snapshot_sequence a)" "ack_ready a"
    by (auto simp: on_readiness_def split: if_splits)
  with assms(1) show ?thesis by (auto simp: lc_ok_def confirmed_def intro: declared_mono)
qed

lemma lc_ok_error:
  assumes "lc_ok tr l" and "on_protocol_error ev l = (d, l')"
  shows "lc_ok (Event (ProtocolErrorEvent ev) # tr) l'"
  using assms
  by (auto simp: on_protocol_error_def lc_ok_def intro: declared_mono confirmed_mono split: if_splits)

lemma lc_run_ok: "lc_run tr l \<Longrightarrow> lc_ok tr l"
proof (induction rule: lc_run.induct)
  case (lc_event tr l ev d l')
  then show ?case
  proof (cases ev)
    case (ResultEvent r)
    with lc_event have "l' = l" by simp
    with lc_event ResultEvent show ?thesis by (auto simp: lc_ok_def intro: declared_mono confirmed_mono)
  qed (auto intro: lc_ok_snapshot lc_ok_readiness lc_ok_error)
qed (auto simp: lc_ok_def lc_ops lifecycle_init_def intro: declared_mono confirmed_mono)

lemma on_event_run_id:
  assumes "on_event ev l = Inr (d, l')" and "lc_run_id l = Some r"
  shows "lc_run_id l' = Some r"
  using assms by (cases ev) (auto simp: lc_ops Let_def split: if_splits)

text \<open>A control error that closed this connection keeps it closed until the next connect.\<close>

definition closing :: "lc_input \<Rightarrow> bool" where
  "closing i \<longleftrightarrow> (\<exists>ev. i = Event (ProtocolErrorEvent ev) \<and> (err_code ev \<in> FATAL_CONTROL_CODES \<or> close_session ev))"

lemma on_event_stays_down:
  "on_event ev l = Inr (d, l') \<Longrightarrow> lc_state l \<in> {CLOSED, DISCONNECTED} \<Longrightarrow> lc_state l' \<in> {CLOSED, DISCONNECTED}"
  by (cases ev) (auto simp: lc_ops Let_def split: if_splits)

lemma lc_run_closed:
  "lc_run tr l \<Longrightarrow> \<exists>i \<in> set (connection tr). closing i \<Longrightarrow> lc_state l \<in> {CLOSED, DISCONNECTED}"
proof (induction rule: lc_run.induct)
  case (lc_event tr l ev d l')
  show ?case
  proof (cases "closing (Event ev)")
    case True
    with lc_event.hyps(2) show ?thesis
      by (auto simp: closing_def on_protocol_error_def split: if_splits)
  next
    case False
    with lc_event.IH lc_event.prems have "lc_state l \<in> {CLOSED, DISCONNECTED}" by auto
    with lc_event.hyps(2) show ?thesis by (rule on_event_stays_down)
  qed
next
  case (lc_refused tr l ev e)
  have "\<not> closing (Event ev)" using lc_refused.hyps(2) by (auto simp: closing_def)
  with lc_refused.IH lc_refused.prems show ?case by auto
qed (auto simp: on_disconnected_def connection_def closing_def)

subsection \<open>A concrete session\<close>

definition demo_ack :: readiness_ack where
  "demo_ack = \<lparr>ack_run_id = ''run-1'', ack_ready = True, ack_snapshot_sequence = 7\<rparr>"

definition demo_session :: "lc_input list" where
  "demo_session = [Event (ReadinessEvent demo_ack), Event (SnapshotEvent demo_tick), Connected]"

definition demo_active :: lifecycle where
  "demo_active = \<lparr>lc_state = ACTIVE, lc_run_id = Some ''run-1'', lc_phase = Some RUNNING,
     lc_ready_sequence = Some 7, lc_last_sequence = 7\<rparr>"

lemma demo_session_run: "lc_run demo_session demo_active"
proof -
  let ?l = "demo_active\<lparr>lc_state := AWAITING_READINESS\<rparr>"
  have s: "on_event (SnapshotEvent demo_tick) (on_connected lifecycle_init) = Inr (Some (SendReady ''run-1'' 7), ?l)"
    by (simp add: lc_ops lifecycle_init_def demo_active_def demo_tick_def demo_defs)
  have a: "on_event (ReadinessEvent demo_ack) ?l = Inr (None, demo_active)"
    by (simp add: lc_ops demo_active_def demo_ack_def)
  show ?thesis unfolding demo_session_def
    by (rule lc_event [OF lc_event [OF lc_connected [OF lc_init] s] a])
qed

subsection \<open>Properties\<close>

text \<open>
  C9: trading is possible only after a completed handshake. In every session, whenever trading
  commands may be sent, this very connection has delivered a snapshot, whose readiness was
  declared, and an affirmative acknowledgement for the same run and the same sequence number,
  and the latest phase is RUNNING.
\<close>

theorem trading_needs_handshake:
  assumes "lc_run tr l" and "can_send_trading_commands l"
  shows "lc_phase l = Some RUNNING
    \<and> (\<exists>s a. Event (SnapshotEvent s) \<in> set (connection tr) \<and> Event (ReadinessEvent a) \<in> set (connection tr)
          \<and> ack_ready a \<and> ack_run_id a = run_id s \<and> ack_snapshot_sequence a = snapshot_sequence s)"
  using lc_run_ok [OF assms(1)] assms(2)
  by (auto simp: lc_ok_def can_send_trading_commands_def declared_def confirmed_def TRADING_PHASES_def
      split: option.splits)

theorem trading_needs_handshake_witness:
  "can_send_trading_commands demo_active
   \<and> (\<exists>s a. Event (SnapshotEvent s) \<in> set (connection demo_session)
       \<and> Event (ReadinessEvent a) \<in> set (connection demo_session) \<and> ack_snapshot_sequence a = snapshot_sequence s)"
proof -
  have "can_send_trading_commands demo_active"
    by (simp add: can_send_trading_commands_def demo_active_def TRADING_PHASES_def)
  with trading_needs_handshake [OF demo_session_run this] show ?thesis by blast
qed

text \<open>
  the run a session is bound to never changes. Once a snapshot fixed the run id, every
  later event either keeps it or is refused with \<open>RunIdChanged\<close>, and a snapshot of another run
  is always refused.
\<close>

theorem run_id_never_changes:
  assumes "lc_run_id l = Some r"
  shows "(\<forall>l' d. on_event ev l = Inr (d, l') \<longrightarrow> lc_run_id l' = Some r)
    \<and> (\<forall>s. run_id s \<noteq> r \<longrightarrow> on_event (SnapshotEvent s) l = Inl RunIdChanged)
    \<and> lc_run_id (on_connected l) = Some r \<and> lc_run_id (on_disconnected l) = Some r
    \<and> lc_run_id (lifecycle_reset l) = Some r"
  using assms on_event_run_id [of ev l _ _ r] by (auto simp: lc_ops)

theorem run_id_never_changes_witness:
  "on_event (SnapshotEvent (demo_tick\<lparr>run_id := ''run-2''\<rparr>)) demo_active = Inl RunIdChanged"
proof -
  have "lc_run_id demo_active = Some ''run-1''" by (simp add: demo_active_def)
  from run_id_never_changes [OF this] show ?thesis by simp
qed

text \<open>
  a control error ends trading on its connection. After a fatal code, or any code that
  closes the session, no snapshot, acknowledgement or result re-enables trading: only a new
  connection with its own handshake can.
\<close>

theorem control_error_ends_trading:
  assumes "lc_run tr l" and "Event (ProtocolErrorEvent ev) \<in> set (connection tr)"
    and "err_code ev \<in> FATAL_CONTROL_CODES \<or> close_session ev"
  shows "\<not> can_send_trading_commands l"
proof -
  have "\<exists>i \<in> set (connection tr). closing i"
    using assms(2,3) by (intro bexI [OF _ assms(2)]) (simp add: closing_def)
  from lc_run_closed [OF assms(1) this] show ?thesis by (auto simp: can_send_trading_commands_def)
qed

theorem control_error_ends_trading_witness:
  "\<exists>l. lc_run (Event (ReadinessEvent demo_ack) # Event (ProtocolErrorEvent
        \<lparr>err_run_id = None, err_request_id = None, err_code = SESSION_FENCED, close_session = True\<rparr>)
      # demo_session) l \<and> \<not> can_send_trading_commands l"
proof -
  let ?ev = "\<lparr>err_run_id = None, err_request_id = None, err_code = SESSION_FENCED, close_session = True\<rparr>"
  have e: "\<exists>d. on_event (ProtocolErrorEvent ?ev) demo_active = Inr (d, demo_active\<lparr>lc_state := DISCONNECTED\<rparr>)"
    by (simp add: lc_ops FATAL_CONTROL_CODES_def)
  have a: "on_event (ReadinessEvent demo_ack) (demo_active\<lparr>lc_state := DISCONNECTED\<rparr>)
      = Inr (None, demo_active\<lparr>lc_state := DISCONNECTED\<rparr>)" by (simp add: lc_ops)
  from e obtain d where "on_event (ProtocolErrorEvent ?ev) demo_active = Inr (d, demo_active\<lparr>lc_state := DISCONNECTED\<rparr>)" ..
  from lc_event [OF lc_event [OF demo_session_run this] a] have run:
    "lc_run (Event (ReadinessEvent demo_ack) # Event (ProtocolErrorEvent ?ev) # demo_session) (demo_active\<lparr>lc_state := DISCONNECTED\<rparr>)" .
  from control_error_ends_trading [OF run, of ?ev] run show ?thesis by auto
qed

end
