(* ===== verification/Requests.thy ===== *)
theory Requests
  imports Prelude "HOL-Library.Char_ord"
begin

text \<open>
  \<open>bazaar_client/connection/requests.py\<close>: identifiers of commands. The regular expressions are
  written out as predicates on characters; \<open>sha256\<close> is library code and stands as the
  parameter \<open>sha256_hex\<close> of \<open>body_fingerprint\<close>.
\<close>

definition id_char :: "char \<Rightarrow> bool" where
  "id_char c \<longleftrightarrow> (CHR ''A'' \<le> c \<and> c \<le> CHR ''Z'') \<or> (CHR ''a'' \<le> c \<and> c \<le> CHR ''z'')
     \<or> (CHR ''0'' \<le> c \<and> c \<le> CHR ''9'') \<or> c = CHR ''_'' \<or> c = CHR ''-''"

text \<open>\<open>^[A-Za-z0-9_-]{1,64}$\<close> under \<open>re.match\<close>: the dollar also matches before a final newline.\<close>

definition id_core :: "string \<Rightarrow> bool" where
  "id_core s \<longleftrightarrow> 1 \<le> length s \<and> length s \<le> 64 \<and> list_all id_char s"

definition is_valid_request_id :: "string \<Rightarrow> bool" where
  "is_valid_request_id s \<longleftrightarrow> id_core s \<or> (s \<noteq> [] \<and> last s = CHR 0x0A \<and> id_core (butlast s))"

definition body_fingerprint :: "('p \<Rightarrow> string) \<Rightarrow> 'p \<Rightarrow> string" where
  "body_fingerprint sha256_hex payload = take 16 (sha256_hex payload)"

subsection \<open>Generating ids\<close>

definition sanitize :: "string \<Rightarrow> string" where
  "sanitize s = filter id_char s"

fun py_join :: "string \<Rightarrow> string list \<Rightarrow> string" where
  "py_join sep [] = []"
| "py_join sep [x] = x"
| "py_join sep (x # y # ys) = x @ sep @ py_join sep (y # ys)"

record id_generator =
  gen_station_id :: string
  gen_prefix :: string
  gen_counter :: nat

definition id_generator_init :: "string \<Rightarrow> string \<Rightarrow> id_generator" where
  "id_generator_init station_id prefix =
     \<lparr>gen_station_id = (if sanitize station_id = [] then ''sta'' else sanitize station_id),
      gen_prefix = sanitize prefix, gen_counter = 1\<rparr>"

definition full_id :: "string \<Rightarrow> id_generator \<Rightarrow> string" where
  "full_id kd g =
     (let kd = (if sanitize kd = [] then ''cmd'' else sanitize kd)
      in py_join ''-'' (filter (\<lambda>p. p \<noteq> [])
           [gen_prefix g, kd, gen_station_id g, show_int (int (gen_counter g))]))"

definition next_id :: "string \<Rightarrow> id_generator \<Rightarrow> (string \<times> id_generator) result" where
  "next_id kd g =
     (let request_id = take 64 (full_id kd g)
      in if is_valid_request_id request_id
         then Inr (request_id, g\<lparr>gen_counter := gen_counter g + 1\<rparr>)
         else Inl AssertionError)"

definition gen_ok :: "id_generator \<Rightarrow> bool" where
  "gen_ok g \<longleftrightarrow> gen_station_id g \<noteq> [] \<and> list_all id_char (gen_station_id g) \<and> list_all id_char (gen_prefix g)"

lemma gen_ok_init [wf_intros]: "gen_ok (id_generator_init station_id prefix)"
proof -
  have "list_all id_char ''sta''" by code_simp
  then show ?thesis by (simp add: gen_ok_def id_generator_init_def sanitize_def list_all_iff)
qed

lemma digit_id_char: "d < 10 \<Longrightarrow> id_char (char_of (48 + d :: nat))"
proof -
  have "list_all (\<lambda>d. id_char (char_of (48 + d :: nat))) [0..<10]" by code_simp
  then show "d < 10 \<Longrightarrow> id_char (char_of (48 + d :: nat))" by (simp only: list_all_iff set_upt) simp
qed

lemma digit_not_dash: "d < 10 \<Longrightarrow> char_of (48 + d :: nat) \<noteq> CHR ''-''"
proof -
  have "list_all (\<lambda>d. char_of (48 + d :: nat) \<noteq> CHR ''-'') [0..<10]" by code_simp
  then show "d < 10 \<Longrightarrow> char_of (48 + d :: nat) \<noteq> CHR ''-''" by (simp only: list_all_iff set_upt) simp
qed

lemma show_int_nat: "show_int (int n) = digits_of n"
  by (simp add: show_int_def)

lemma digits_id_chars: "list_all id_char (digits_of n)" "CHR ''-'' \<notin> set (digits_of n)"
  using digits_of_range digit_id_char digit_not_dash by (fastforce simp: list_all_iff)+

lemma py_join_chars:
  "list_all P sep \<Longrightarrow> list_all (list_all P) xs \<Longrightarrow> list_all P (py_join sep xs)"
  by (induction sep xs rule: py_join.induct) auto

lemma py_join_snoc: "xs \<noteq> [] \<Longrightarrow> py_join sep (xs @ [y]) = py_join sep xs @ sep @ y"
  by (induction sep xs rule: py_join.induct) auto

lemma full_id_split:
  assumes "gen_ok g"
  shows "\<exists>stem. full_id kd g = stem @ ''-'' @ digits_of (gen_counter g) \<and> list_all id_char stem"
proof -
  let ?kd = "if sanitize kd = [] then ''cmd'' else sanitize kd"
  let ?xs = "filter (\<lambda>p. p \<noteq> []) [gen_prefix g, ?kd, gen_station_id g]"
  have kd: "?kd \<noteq> []" "list_all id_char ?kd"
  proof -
    have "list_all id_char ''cmd''" by code_simp
    then show "list_all id_char ?kd" by (simp add: sanitize_def list_all_iff)
  qed simp
  have "full_id kd g = py_join ''-'' (?xs @ [digits_of (gen_counter g)])"
    by (simp add: full_id_def Let_def show_int_nat)
  also have "\<dots> = py_join ''-'' ?xs @ ''-'' @ digits_of (gen_counter g)"
    using kd by (intro py_join_snoc) auto
  finally have "full_id kd g = py_join ''-'' ?xs @ ''-'' @ digits_of (gen_counter g)" .
  moreover have "list_all id_char (py_join ''-'' ?xs)"
  proof (rule py_join_chars)
    show "list_all id_char ''-''" by code_simp
    show "list_all (list_all id_char) ?xs" using assms kd by (auto simp: gen_ok_def)
  qed
  ultimately show ?thesis by blast
qed

lemma full_id_chars: "gen_ok g \<Longrightarrow> list_all id_char (full_id kd g)"
proof -
  assume "gen_ok g"
  then obtain stem where "full_id kd g = stem @ ''-'' @ digits_of (gen_counter g)" "list_all id_char stem"
    using full_id_split by blast
  moreover have "list_all id_char ''-''" by code_simp
  ultimately show ?thesis using digits_id_chars by simp
qed

lemma next_id_total:
  assumes "gen_ok g"
  shows "next_id kd g = Inr (take 64 (full_id kd g), g\<lparr>gen_counter := gen_counter g + 1\<rparr>)"
    and "id_core (take 64 (full_id kd g))"
proof -
  have "full_id kd g \<noteq> []" using full_id_split [OF assms, of kd] by auto
  then show "id_core (take 64 (full_id kd g))"
    using full_id_chars [OF assms, of kd]
    by (auto simp: id_core_def list_all_iff Suc_le_eq dest: in_set_takeD)
  then show "next_id kd g = Inr (take 64 (full_id kd g), g\<lparr>gen_counter := gen_counter g + 1\<rparr>)"
    by (simp add: next_id_def is_valid_request_id_def)
qed

text \<open>Ids that were not cut end in the counter, so they differ whatever their kinds.\<close>

lemma full_id_inj:
  assumes "gen_ok g" "gen_ok h" and "full_id kd g = full_id kd' h"
  shows "gen_counter g = gen_counter h"
proof -
  have *: "takeWhile (\<lambda>c. c \<noteq> CHR ''-'') (rev (full_id k i)) = rev (digits_of (gen_counter i))"
    if ok: "gen_ok i" for k i
  proof -
    obtain stem where stem: "full_id k i = stem @ ''-'' @ digits_of (gen_counter i)"
      using full_id_split [OF ok, of k] by blast
    have "takeWhile (\<lambda>c. c \<noteq> CHR ''-'') (rev ds @ CHR ''-'' # rest) = rev ds"
      if "CHR ''-'' \<notin> set ds" for ds rest
      using that by (subst takeWhile_append2) auto
    from this [OF digits_id_chars(2)] show ?thesis by (simp add: stem)
  qed
  have "rev (digits_of (gen_counter g)) = rev (digits_of (gen_counter h))"
    using * [OF assms(1), of kd] * [OF assms(2), of kd'] assms(3) by simp
  then show ?thesis by (simp add: digits_of_inj)
qed

subsection \<open>Pending requests\<close>

record pending_request =
  pr_request_id :: string
  pr_fingerprint :: string
  pr_kind :: string
  pr_sent_tick :: int

record pending_tracker =
  pt_sent :: "(string, pending_request) pydict"
  pt_open :: "string set"

definition pending_init :: pending_tracker where
  "pending_init = \<lparr>pt_sent = [], pt_open = {}\<rparr>"

definition pending_register ::
  "string \<Rightarrow> string \<Rightarrow> string \<Rightarrow> int \<Rightarrow> pending_tracker \<Rightarrow> pending_tracker result" where
  "pending_register rid fingerprint kd sent_tick t =
     (if (case dict_get (pt_sent t) rid of None \<Rightarrow> False | Some p \<Rightarrow> pr_fingerprint p \<noteq> fingerprint)
      then Inl RequestIdConflictError
      else Inr (t\<lparr>pt_sent := dict_set rid \<lparr>pr_request_id = rid, pr_fingerprint = fingerprint,
                                           pr_kind = kd, pr_sent_tick = sent_tick\<rparr> (pt_sent t),
                  pt_open := insert rid (pt_open t)\<rparr>))"

definition is_exact_retry :: "string \<Rightarrow> string \<Rightarrow> pending_tracker \<Rightarrow> bool" where
  "is_exact_retry rid fingerprint t =
     (case dict_get (pt_sent t) rid of None \<Rightarrow> False | Some p \<Rightarrow> pr_fingerprint p = fingerprint)"

definition pending_resolve :: "string \<Rightarrow> pending_tracker \<Rightarrow> pending_request option \<times> pending_tracker" where
  "pending_resolve rid t = (dict_get (pt_sent t) rid, t\<lparr>pt_open := pt_open t - {rid}\<rparr>)"

definition is_outstanding :: "string \<Rightarrow> pending_tracker \<Rightarrow> bool" where
  "is_outstanding rid t \<longleftrightarrow> rid \<in> pt_open t"

text \<open>A history of registrations and resolutions, newest last.\<close>

datatype pending_op = Register string string string int | Resolve string

fun pending_step :: "pending_op \<Rightarrow> pending_tracker \<Rightarrow> pending_tracker result" where
  "pending_step (Register rid f kd n) t = pending_register rid f kd n t"
| "pending_step (Resolve rid) t = Inr (snd (pending_resolve rid t))"

lemma pending_step_sent:
  assumes "pending_step x t = Inr t'" and "dict_get (pt_sent t) rid = Some p"
  shows "\<exists>q. dict_get (pt_sent t') rid = Some q \<and> pr_fingerprint q = pr_fingerprint p"
  using assms
  by (cases x) (auto simp: pending_register_def pending_resolve_def dict_get_set split: if_splits option.splits)

lemma foldE_pending_sent:
  "foldE pending_step xs t = Inr t' \<Longrightarrow> dict_get (pt_sent t) rid = Some p \<Longrightarrow>
     \<exists>q. dict_get (pt_sent t') rid = Some q \<and> pr_fingerprint q = pr_fingerprint p"
proof (induction xs arbitrary: t p)
  case (Cons x xs)
  then obtain t1 where t1: "pending_step x t = Inr t1" "foldE pending_step xs t1 = Inr t'"
    by (auto elim!: bindE_InrE)
  from pending_step_sent [OF t1(1) Cons.prems(2)] Cons.IH [OF t1(2)] show ?case by metis
qed auto

lemma pending_step_open:
  assumes "pending_step x t = Inr t'" and "\<And>r. r \<in> pt_open t \<Longrightarrow> dict_get (pt_sent t) r \<noteq> None"
    and "r \<in> pt_open t'"
  shows "dict_get (pt_sent t') r \<noteq> None"
  using assms
  by (cases x) (auto simp: pending_register_def pending_resolve_def dict_get_set split: if_splits)

subsection \<open>Properties\<close>

text \<open>
  C33: every generated id is acceptable to the server (1 to 64 letters, digits, underscores or
  dashes), so the generator's assertion never fails, whatever the station id, prefix and kind.
\<close>

theorem request_ids_valid:
  "\<exists>rid g'. next_id kd ((id_generator_init station_id prefix)\<lparr>gen_counter := n\<rparr>) = Inr (rid, g') \<and> id_core rid"
proof -
  have "gen_ok ((id_generator_init station_id prefix)\<lparr>gen_counter := n\<rparr>)"
    using gen_ok_init [of station_id prefix] by (simp add: gen_ok_def)
  from next_id_total [OF this, of kd] show ?thesis by auto
qed

text \<open>
  ids of one generator are fresh as long as they fit: two ids drawn at different counts are
  different, whatever the kinds, when neither had to be cut to 64 characters.
\<close>

theorem request_ids_fresh:
  assumes "gen_ok g" and "gen_counter g \<noteq> n"
    and "length (full_id kd g) \<le> 64" "length (full_id kd' (g\<lparr>gen_counter := n\<rparr>)) \<le> 64"
    and "next_id kd g = Inr (a, g1)" "next_id kd' (g\<lparr>gen_counter := n\<rparr>) = Inr (b, g2)"
  shows "a \<noteq> b"
proof -
  have h: "gen_ok (g\<lparr>gen_counter := n\<rparr>)" using assms(1) by (simp add: gen_ok_def)
  have "a = full_id kd g" "b = full_id kd' (g\<lparr>gen_counter := n\<rparr>)"
    using next_id_total(1) [OF assms(1), of kd] next_id_total(1) [OF h, of kd'] assms(3-6) by auto
  with full_id_inj [OF assms(1) h, of kd kd'] assms(2) show ?thesis by auto
qed

theorem request_ids_fresh_witness:
  "\<exists>a b g1 g2. next_id ''offer'' (id_generator_init ''P01'' ''x'') = Inr (a, g1)
     \<and> next_id ''accept'' ((id_generator_init ''P01'' ''x'')\<lparr>gen_counter := 2\<rparr>) = Inr (b, g2) \<and> a \<noteq> b"
proof -
  let ?g = "id_generator_init ''P01'' ''x''"
  have n: "gen_counter ?g \<noteq> 2" "length (full_id ''offer'' ?g) \<le> 64" "length (full_id ''accept'' (?g\<lparr>gen_counter := 2\<rparr>)) \<le> 64"
    by code_simp+
  have h: "gen_ok (?g\<lparr>gen_counter := 2\<rparr>)" using gen_ok_init by (simp add: gen_ok_def)
  show ?thesis
    using request_ids_fresh [OF gen_ok_init n next_id_total(1) [OF gen_ok_init] next_id_total(1) [OF h]]
      next_id_total(1) [OF gen_ok_init] next_id_total(1) [OF h] by blast
qed

text \<open>With a station id long enough to be cut, the counter is lost and two commands share an id.\<close>

lemma long_station_id_repeats_ids:
  "let g = id_generator_init (replicate 64 CHR ''a'') ''''
   in map_sum id fst (next_id ''offer'' g) = map_sum id fst (next_id ''offer'' (g\<lparr>gen_counter := 2\<rparr>))"
  by code_simp

text \<open>
  An id keeps its content. Once a request id was registered with a fingerprint, no later
  registration or resolution changes it, and registering other content under it is refused.
\<close>

theorem request_id_content_fixed:
  assumes "pending_register rid f kd n t = Inr t1" and "foldE pending_step xs t1 = Inr t2"
  shows "is_exact_retry rid f t2 \<and> (f' \<noteq> f \<longrightarrow> pending_register rid f' kd' n' t2 = Inl RequestIdConflictError)"
proof -
  have "dict_get (pt_sent t1) rid = Some \<lparr>pr_request_id = rid, pr_fingerprint = f, pr_kind = kd, pr_sent_tick = n\<rparr>"
    using assms(1) by (auto simp: pending_register_def dict_get_set split: if_splits)
  from foldE_pending_sent [OF assms(2) this] show ?thesis
    by (auto simp: is_exact_retry_def pending_register_def)
qed

theorem request_id_content_fixed_witness:
  "\<exists>t1 t2. pending_register ''r-1'' ''aa'' ''offer'' 3 pending_init = Inr t1
     \<and> foldE pending_step [Resolve ''r-1'', Register ''r-2'' ''bb'' ''accept'' 4] t1 = Inr t2
     \<and> pending_register ''r-1'' ''bb'' ''offer'' 5 t2 = Inl RequestIdConflictError"
proof -
  obtain t1 where t1: "pending_register ''r-1'' ''aa'' ''offer'' 3 pending_init = Inr t1"
    by (simp add: pending_register_def pending_init_def)
  moreover obtain t2 where t2: "foldE pending_step [Resolve ''r-1'', Register ''r-2'' ''bb'' ''accept'' 4] t1 = Inr t2"
    using t1 by (auto simp: pending_register_def pending_resolve_def pending_init_def)
  ultimately show ?thesis
    using request_id_content_fixed [OF t1 t2, of "''bb''" "''offer''" 5] by auto
qed

end
