(* ===== verification/Throttle.thy ===== *)
theory Throttle
  imports Prelude
begin

text \<open>
  \<open>bazaar_client/connection/throttle.py\<close>: the client's own count of commands per tick. The
  interface \<open>quota\<close> says what any such allowance promises; the server's command counts
  (\<open>Economy\<close>) are its second provider.
\<close>

text \<open>A client that asks \<open>n\<close> times and uses the allowance whenever some is left: how often it
  was granted, and the final state.\<close>

fun ask :: "('s \<Rightarrow> nat) \<Rightarrow> ('s \<Rightarrow> 's) \<Rightarrow> nat \<Rightarrow> 's \<Rightarrow> nat \<times> 's" where
  "ask left use_one 0 s = (0, s)"
| "ask left use_one (Suc n) s =
     (if 0 < left s then (case ask left use_one n (use_one s) of (k, s') \<Rightarrow> (k + 1, s'))
      else ask left use_one n s)"

locale quota =
  fixes left :: "'s \<Rightarrow> nat"
    and allowance :: "'s \<Rightarrow> nat"
    and use_one :: "'s \<Rightarrow> 's"
    and wf :: "'s \<Rightarrow> bool"
  assumes left_le: "wf s \<Longrightarrow> left s \<le> allowance s"
    and left_use: "wf s \<Longrightarrow> 0 < left s \<Longrightarrow> left (use_one s) = left s - 1"
    and allowance_use: "allowance (use_one s) = allowance s"
    and wf_use: "wf s \<Longrightarrow> wf (use_one s)"
begin

lemma ask_granted:
  "wf s \<Longrightarrow> fst (ask left use_one n s) = min n (left s)
     \<and> left (snd (ask left use_one n s)) = left s - min n (left s) \<and> wf (snd (ask left use_one n s))
     \<and> allowance (snd (ask left use_one n s)) = allowance s"
proof (induction n arbitrary: s)
  case (Suc n)
  show ?case
  proof (cases "0 < left s")
    case True
    with Suc.IH [OF wf_use [OF Suc.prems]] left_use [OF Suc.prems] show ?thesis
      by (auto simp: allowance_use split: prod.splits)
  next
    case False
    with Suc.IH [OF Suc.prems] show ?thesis by simp
  qed
qed simp

lemma ask_bounded: "wf s \<Longrightarrow> fst (ask left use_one n s) \<le> allowance s"
  using ask_granted [of s n] left_le [of s] by simp

end

record throttle =
  th_limit :: int
  th_tick :: int
  th_sent :: int
  th_blocked_until :: int

definition throttle_init :: "int \<Rightarrow> throttle" where
  "throttle_init limit_per_tick = \<lparr>th_limit = limit_per_tick, th_tick = 0, th_sent = 0, th_blocked_until = 0\<rparr>"

definition update_limit :: "int \<Rightarrow> throttle \<Rightarrow> throttle" where
  "update_limit limit_per_tick t = t\<lparr>th_limit := limit_per_tick\<rparr>"

definition roll_to :: "int \<Rightarrow> throttle \<Rightarrow> throttle" where
  "roll_to tick t = (if tick \<noteq> th_tick t then t\<lparr>th_tick := tick, th_sent := 0\<rparr> else t)"

definition remaining :: "int \<Rightarrow> throttle \<Rightarrow> int \<times> throttle" where
  "remaining tick t =
     (let t = roll_to tick t
      in if tick < th_blocked_until t then (0, t) else (max 0 (th_limit t - th_sent t), t))"

definition record_sent :: "int \<Rightarrow> int \<Rightarrow> throttle \<Rightarrow> throttle" where
  "record_sent tick count t = (let t = roll_to tick t in t\<lparr>th_sent := th_sent t + count\<rparr>)"

definition throttle_block_until :: "int option \<Rightarrow> throttle \<Rightarrow> throttle" where
  "throttle_block_until tick t = (case tick of None \<Rightarrow> t
     | Some n \<Rightarrow> t\<lparr>th_blocked_until := max (th_blocked_until t) n\<rparr>)"

definition throttle_left :: "int \<Rightarrow> throttle \<Rightarrow> nat" where
  "throttle_left tick t = nat (fst (remaining tick t))"

definition throttle_ok :: "throttle \<Rightarrow> bool" where
  "throttle_ok t \<longleftrightarrow> 0 \<le> th_sent t"

lemma remaining_nonneg: "0 \<le> fst (remaining tick t)"
  by (simp add: remaining_def Let_def)

lemma remaining_blocked: "tick < th_blocked_until t \<Longrightarrow> fst (remaining tick t) = 0"
  by (simp add: remaining_def Let_def roll_to_def)

lemma remaining_new_tick:
  "th_tick t \<noteq> tick \<Longrightarrow> th_blocked_until t \<le> tick \<Longrightarrow> fst (remaining tick t) = max 0 (th_limit t)"
  by (simp add: remaining_def Let_def roll_to_def)

lemma remaining_after_sent:
  "0 < fst (remaining tick t) \<Longrightarrow> fst (remaining tick (record_sent tick 1 t)) = fst (remaining tick t) - 1"
  by (auto simp: remaining_def record_sent_def roll_to_def Let_def split: if_splits)

lemma block_until_honoured:
  "tick < n \<Longrightarrow> fst (remaining tick (throttle_block_until (Some n) t)) = 0"
  by (simp add: throttle_block_until_def remaining_blocked)

lemma block_until_keeps_later:
  "th_blocked_until t \<le> th_blocked_until (throttle_block_until n t)"
  by (simp add: throttle_block_until_def split: option.splits)

lemma throttle_ok_steps [wf_intros]:
  "throttle_ok (throttle_init n)" "throttle_ok t \<Longrightarrow> throttle_ok (update_limit n t)"
  "throttle_ok t \<Longrightarrow> throttle_ok (snd (remaining tick t))"
  "throttle_ok t \<Longrightarrow> 0 \<le> count \<Longrightarrow> throttle_ok (record_sent tick count t)"
  "throttle_ok t \<Longrightarrow> throttle_ok (throttle_block_until b t)"
  by (auto simp: throttle_ok_def throttle_init_def update_limit_def remaining_def record_sent_def
      roll_to_def throttle_block_until_def Let_def split: option.splits)

interpretation th: quota "throttle_left tick" "\<lambda>t. nat (th_limit t)" "record_sent tick 1" throttle_ok for tick
proof
  fix s
  show "throttle_ok s \<Longrightarrow> throttle_left tick s \<le> nat (th_limit s)"
    by (auto simp: throttle_left_def remaining_def roll_to_def throttle_ok_def Let_def)
  show "throttle_left tick (record_sent tick 1 s) = throttle_left tick s - 1" if "0 < throttle_left tick s"
    using remaining_after_sent [of tick s] that by (simp add: throttle_left_def nat_diff_distrib)
  show "nat (th_limit (record_sent tick 1 s)) = nat (th_limit s)"
    by (simp add: record_sent_def roll_to_def Let_def)
  show "throttle_ok s \<Longrightarrow> throttle_ok (record_sent tick 1 s)"
    by (rule throttle_ok_steps) simp_all
qed

text \<open>
  a client that checks \<open>remaining\<close> before every command sends at most the limit in a tick,
  however often it tries, and exactly what was left; while the server's retry-after block is
  pending it sends nothing.
\<close>

theorem throttle_bounds_sends:
  assumes "throttle_ok t"
  shows "fst (ask (throttle_left tick) (record_sent tick 1) n t) = min n (throttle_left tick t)
    \<and> fst (ask (throttle_left tick) (record_sent tick 1) n t) \<le> nat (th_limit t)
    \<and> (tick < th_blocked_until t \<longrightarrow> fst (ask (throttle_left tick) (record_sent tick 1) n t) = 0)"
  using th.ask_granted [OF assms, of tick n] th.ask_bounded [OF assms, of tick n]
    remaining_blocked [of tick t] by (simp add: throttle_left_def)

theorem throttle_bounds_sends_witness:
  "fst (ask (throttle_left 9) (record_sent 9 1) 7 (throttle_init 4)) = 4
   \<and> fst (ask (throttle_left 9) (record_sent 9 1) 7 (throttle_block_until (Some 11) (throttle_init 4))) = 0"
proof -
  have "throttle_left 9 (throttle_init 4) = 4" "9 < th_blocked_until (throttle_block_until (Some 11) (throttle_init 4))"
    by code_simp+
  with throttle_bounds_sends [OF throttle_ok_steps(1), of 9 7 4]
    throttle_bounds_sends [OF throttle_ok_steps(5) [OF throttle_ok_steps(1)], of 9 7 "Some 11" 4]
  show ?thesis by simp
qed

end
