(* ===== verification/World_Model.thy ===== *)
theory World_Model
  imports Types
begin

text \<open>
  \<open>bazaar_client/world/model.py\<close>: the authoritative view. A snapshot replaces the previous
  view wholesale, and \<open>snapshot_sequence\<close> decides which of two is newer. The interface
  \<open>newest_view\<close> states what every holder of a view promises; the session's own latest
  snapshot is a second provider of it.
\<close>

record world_model =
  wm_snapshot :: "snapshot option"
  last_sequence :: int
  applied :: int
  ignored :: int

definition world_model_init :: world_model where
  "world_model_init = \<lparr>wm_snapshot = None, last_sequence = 0, applied = 0, ignored = 0\<rparr>"

definition apply_snapshot :: "snapshot \<Rightarrow> world_model \<Rightarrow> bool \<times> world_model" where
  "apply_snapshot s w =
     (if wm_snapshot w \<noteq> None \<and> snapshot_sequence s \<le> last_sequence w
      then (False, w\<lparr>ignored := ignored w + 1\<rparr>)
      else (True, w\<lparr>wm_snapshot := Some s, last_sequence := snapshot_sequence s,
                    applied := applied w + 1\<rparr>))"

definition world_reset_for_new_connection :: "world_model \<Rightarrow> world_model" where
  "world_reset_for_new_connection w = w\<lparr>wm_snapshot := None, last_sequence := 0\<rparr>"

definition require :: "world_model \<Rightarrow> snapshot result" where
  "require w = (case wm_snapshot w of None \<Rightarrow> Inl NoSnapshot | Some s \<Rightarrow> Inr s)"

definition world_tick :: "world_model \<Rightarrow> int result" where
  "world_tick w = bindE (require w) (\<lambda>s. Inr (snap_tick s))"

definition world_phase :: "world_model \<Rightarrow> phase result" where
  "world_phase w = bindE (require w) (\<lambda>s. Inr (snap_phase s))"

definition transaction_ids :: "world_model \<Rightarrow> string set result" where
  "transaction_ids w = bindE (require w) (\<lambda>s. Inr (set (map transaction_id (transactions s))))"

definition world_ok :: "world_model \<Rightarrow> bool" where
  "world_ok w \<longleftrightarrow> (case wm_snapshot w of None \<Rightarrow> last_sequence w = 0
                   | Some s \<Rightarrow> last_sequence w = snapshot_sequence s)"

subsection \<open>The newest-view interface\<close>

definition newer :: "snapshot option \<Rightarrow> snapshot \<Rightarrow> snapshot" where
  "newer v s = (case v of None \<Rightarrow> s
                | Some t \<Rightarrow> if snapshot_sequence s \<le> snapshot_sequence t then t else s)"

locale newest_view =
  fixes view :: "'w \<Rightarrow> snapshot option"
    and feed :: "snapshot \<Rightarrow> 'w \<Rightarrow> 'w"
    and wf :: "'w \<Rightarrow> bool"
  assumes view_feed: "wf w \<Longrightarrow> view (feed s w) = Some (newer (view w) s)"
    and wf_feed: "wf w \<Longrightarrow> wf (feed s w)"
begin

lemma wf_feeds: "wf w \<Longrightarrow> wf (fold feed ss w)"
  by (induction ss arbitrary: w) (auto simp: wf_feed)

text \<open>Whatever order and repetition the snapshots arrive in, the view is the first of the
  highest sequence among them and the view before.\<close>

lemma view_feeds:
  "wf w \<Longrightarrow> view (fold feed ss w) =
     py_max snapshot_sequence ((case view w of None \<Rightarrow> [] | Some v \<Rightarrow> [v]) @ ss)"
proof (induction ss arbitrary: w)
  case Nil
  then show ?case by (auto simp: py_max_def split: option.splits)
next
  case (Cons s ss)
  show ?case
    by (auto simp: Cons.IH [OF wf_feed [OF Cons.prems]] view_feed [OF Cons.prems] newer_def
        py_max_def not_le split: option.splits)
qed

lemma view_ge:
  assumes "wf w" and "s \<in> set ss"
  shows "\<exists>v. view (fold feed ss w) = Some v \<and> snapshot_sequence s \<le> snapshot_sequence v"
proof -
  let ?xs = "(case view w of None \<Rightarrow> [] | Some v \<Rightarrow> [v]) @ ss"
  from assms(2) have s: "s \<in> set ?xs" by simp
  then have "?xs \<noteq> []" by (metis list.set(1) empty_iff)
  then obtain v where v: "py_max snapshot_sequence ?xs = Some v"
    by (metis not_None_eq py_max_None)
  with py_max_ge [OF v s] show ?thesis by (simp add: view_feeds [OF assms(1)])
qed

lemma view_never_back:
  assumes "wf w" and "view w = Some v"
  shows "\<exists>v'. view (feed s w) = Some v' \<and> snapshot_sequence v \<le> snapshot_sequence v'"
  using assms by (auto simp: view_feed newer_def)

lemma duplicate_ignored:
  assumes "wf w" and "view w = Some v" and "snapshot_sequence s \<le> snapshot_sequence v"
  shows "view (feed s w) = Some v"
  using assms by (auto simp: view_feed newer_def)

end

lemma world_ok_init [wf_intros]: "world_ok world_model_init"
  by (simp add: world_ok_def world_model_init_def)

lemma world_ok_apply [wf_intros]: "world_ok w \<Longrightarrow> world_ok (snd (apply_snapshot s w))"
  by (auto simp: world_ok_def apply_snapshot_def split: option.splits)

lemma world_ok_reset [wf_intros]: "world_ok (world_reset_for_new_connection w)"
  by (simp add: world_ok_def world_reset_for_new_connection_def)

lemma wm_snapshot_apply:
  "world_ok w \<Longrightarrow> wm_snapshot (snd (apply_snapshot s w)) = Some (newer (wm_snapshot w) s)"
  by (auto simp: world_ok_def apply_snapshot_def newer_def split: option.splits)

interpretation wm: newest_view wm_snapshot "\<lambda>s w. snd (apply_snapshot s w)" world_ok
  by unfold_locales (simp_all add: wm_snapshot_apply world_ok_apply)

lemma apply_counts: "applied (snd (apply_snapshot s w)) + ignored (snd (apply_snapshot s w))
    = applied w + ignored w + 1"
  by (simp add: apply_snapshot_def)

end
