(* ===== verification/Messages.thy ===== *)
theory Messages
  imports Types "HOL-Library.Word"
begin

text \<open>
  \<open>bazaar-protobuf-starter-linux/bazaar.proto\<close>: the proto2 messages as records. A field that carries presence is an
  option; reading an absent one gives its default, as the generated classes do. A \<open>uint64\<close>
  is a 64-bit word and assigning a Python integer out of its range raises \<open>ValueError\<close>; an
  enum field holds its number; a \<open>oneof\<close> holds at most one arm. \<open>FindInitializationErrors\<close>
  is a predicate per message: every required field present, recursively.
\<close>

type_synonym u64 = "64 word"

definition u64 :: "int \<Rightarrow> u64 result" where
  "u64 i = (if 0 \<le> i \<and> i < 2 ^ 64 then Inr (word_of_int i) else Inl (ValueError ''out of range''))"

definition u64_ok :: "int \<Rightarrow> bool" where
  "u64_ok i \<longleftrightarrow> 0 \<le> i \<and> i < 2 ^ 64"

named_theorems wire_simps \<open>evaluation of message fields\<close>

lemma u64_Inr: "u64 i = Inr w \<longleftrightarrow> u64_ok i \<and> w = word_of_int i"
  by (auto simp: u64_def u64_ok_def)

lemma u64_ok_Inr [wire_simps]: "u64_ok i \<Longrightarrow> u64 i = Inr (word_of_int i)"
  by (simp add: u64_Inr)

lemma u64_uint: "u64_ok i \<Longrightarrow> uint (word_of_int i :: u64) = i"
  by (simp add: u64_ok_def uint_word_of_int take_bit_int_eq_self)

lemma u64_read [wire_simps]: "u64 i = Inr w \<Longrightarrow> uint w = i"
  by (auto simp: u64_Inr u64_uint)

text \<open>Reading a field, and whether a required one is there.\<close>

definition field :: "'a \<Rightarrow> 'a option \<Rightarrow> 'a" where
  "field dflt x = (case x of None \<Rightarrow> dflt | Some v \<Rightarrow> v)"

definition present :: "('a \<Rightarrow> bool) \<Rightarrow> 'a option \<Rightarrow> bool" where
  "present p x = (case x of None \<Rightarrow> False | Some v \<Rightarrow> p v)"

abbreviation set_field :: "'a option \<Rightarrow> bool" where
  "set_field \<equiv> present (\<lambda>_. True)"

lemma field_simps' [simp]: "field d None = d" "field d (Some v) = v"
  by (simp_all add: field_def)

lemma present_simps [simp]: "present p None = False" "present p (Some v) = p v"
  by (simp_all add: present_def)

abbreviation word_field :: "u64 option \<Rightarrow> int" where
  "word_field x \<equiv> uint (field 0 x)"

text \<open>The first number of every enum of the schema is 1: the default of an absent enum field.\<close>

abbreviation enum_field :: "int option \<Rightarrow> int" where
  "enum_field x \<equiv> field 1 x"

text \<open>\<open>oneof kind\<close> of the nullable wrappers, as \<open>WhichOneof\<close> reports it.\<close>

datatype 'a nullable = NoArm | NullArm bool | ValueArm 'a

record bundle_msg =
  bm_water :: "u64 option"
  bm_food :: "u64 option"
  bm_components :: "u64 option"

definition bundle_msg_new :: bundle_msg where
  "bundle_msg_new = \<lparr>bm_water = None, bm_food = None, bm_components = None\<rparr>"

definition bundle_inited :: "bundle_msg \<Rightarrow> bool" where
  "bundle_inited m \<longleftrightarrow> set_field (bm_water m) \<and> set_field (bm_food m) \<and> set_field (bm_components m)"

text \<open>\<open>ListResource\<close> has one repeated field and no required one.\<close>

type_synonym list_resource_msg = "int list"

record rules_msg =
  rm_rules_version :: "string option"
  rm_duration_ticks :: "u64 option"
  rm_tick_duration_ms :: "u64 option"
  rm_resource_order :: "list_resource_msg option"
  rm_max_health :: "u64 option"
  rm_shortage_damage_per_unit :: "u64 option"
  rm_recovery_per_fully_supplied_tick :: "u64 option"
  rm_max_publication_ttl_ticks :: "u64 option"
  rm_max_offer_ttl_ticks :: "u64 option"
  rm_new_commands_per_station_per_tick :: "u64 option"
  rm_max_request_records_per_station :: "u64 option"
  rm_max_open_outgoing_offers :: "u64 option"
  rm_max_command_bytes :: "u64 option"

definition rules_msg_new :: rules_msg where
  "rules_msg_new = \<lparr>rm_rules_version = None, rm_duration_ticks = None, rm_tick_duration_ms = None,
     rm_resource_order = None, rm_max_health = None, rm_shortage_damage_per_unit = None,
     rm_recovery_per_fully_supplied_tick = None, rm_max_publication_ttl_ticks = None,
     rm_max_offer_ttl_ticks = None, rm_new_commands_per_station_per_tick = None,
     rm_max_request_records_per_station = None, rm_max_open_outgoing_offers = None,
     rm_max_command_bytes = None\<rparr>"

definition rules_inited :: "rules_msg \<Rightarrow> bool" where
  "rules_inited m \<longleftrightarrow> set_field (rm_rules_version m) \<and> set_field (rm_duration_ticks m)
     \<and> set_field (rm_tick_duration_ms m) \<and> set_field (rm_resource_order m) \<and> set_field (rm_max_health m)
     \<and> set_field (rm_shortage_damage_per_unit m) \<and> set_field (rm_recovery_per_fully_supplied_tick m)
     \<and> set_field (rm_max_publication_ttl_ticks m) \<and> set_field (rm_max_offer_ttl_ticks m)
     \<and> set_field (rm_new_commands_per_station_per_tick m) \<and> set_field (rm_max_request_records_per_station m)
     \<and> set_field (rm_max_open_outgoing_offers m) \<and> set_field (rm_max_command_bytes m)"

record observation_msg =
  sm_station_id :: "string option"
  sm_inventory :: "bundle_msg option"
  sm_health :: "u64 option"
  sm_failed_once :: "bool option"
  sm_first_failure_tick :: "u64 nullable option"
  sm_last_production :: "bundle_msg option"
  sm_last_unmet_upkeep :: "bundle_msg option"
  sm_fully_supplied_ticks :: "u64 option"
  sm_shortage_ticks :: "u64 option"
  sm_current_shortage_streak :: "u64 option"
  sm_longest_shortage_streak :: "u64 option"
  sm_produced_total :: "bundle_msg option"
  sm_consumed_total :: "bundle_msg option"
  sm_unmet_total :: "bundle_msg option"
  sm_imported_total :: "bundle_msg option"
  sm_exported_total :: "bundle_msg option"
  sm_upkeep_per_tick :: "bundle_msg option"
  sm_specialty :: "int option"

definition observation_msg_new :: observation_msg where
  "observation_msg_new = \<lparr>sm_station_id = None, sm_inventory = None, sm_health = None,
     sm_failed_once = None, sm_first_failure_tick = None, sm_last_production = None,
     sm_last_unmet_upkeep = None, sm_fully_supplied_ticks = None, sm_shortage_ticks = None,
     sm_current_shortage_streak = None, sm_longest_shortage_streak = None, sm_produced_total = None,
     sm_consumed_total = None, sm_unmet_total = None, sm_imported_total = None,
     sm_exported_total = None, sm_upkeep_per_tick = None, sm_specialty = None\<rparr>"

definition observation_inited :: "observation_msg \<Rightarrow> bool" where
  "observation_inited m \<longleftrightarrow> set_field (sm_station_id m) \<and> present bundle_inited (sm_inventory m)
     \<and> set_field (sm_health m) \<and> set_field (sm_failed_once m) \<and> set_field (sm_first_failure_tick m)
     \<and> present bundle_inited (sm_last_production m) \<and> present bundle_inited (sm_last_unmet_upkeep m)
     \<and> set_field (sm_fully_supplied_ticks m) \<and> set_field (sm_shortage_ticks m)
     \<and> set_field (sm_current_shortage_streak m) \<and> set_field (sm_longest_shortage_streak m)
     \<and> present bundle_inited (sm_produced_total m) \<and> present bundle_inited (sm_consumed_total m)
     \<and> present bundle_inited (sm_unmet_total m) \<and> present bundle_inited (sm_imported_total m)
     \<and> present bundle_inited (sm_exported_total m) \<and> present bundle_inited (sm_upkeep_per_tick m)
     \<and> set_field (sm_specialty m)"

record directory_msg =
  dm_station_id :: "string option"
  dm_display_name :: "string option"

definition directory_inited :: "directory_msg \<Rightarrow> bool" where
  "directory_inited m \<longleftrightarrow> set_field (dm_station_id m) \<and> set_field (dm_display_name m)"

record offer_msg =
  om_offer_id :: "string option"
  om_proposer_id :: "string option"
  om_recipient_id :: "string option"
  om_give :: "bundle_msg option"
  om_receive :: "bundle_msg option"
  om_created_tick :: "u64 option"
  om_created_version :: "u64 option"
  om_expires_tick :: "u64 option"
  om_status :: "int option"
  om_closed_tick :: "u64 nullable option"
  om_transaction_id :: "string nullable option"

definition offer_inited :: "offer_msg \<Rightarrow> bool" where
  "offer_inited m \<longleftrightarrow> set_field (om_offer_id m) \<and> set_field (om_proposer_id m) \<and> set_field (om_recipient_id m)
     \<and> present bundle_inited (om_give m) \<and> present bundle_inited (om_receive m)
     \<and> set_field (om_created_tick m) \<and> set_field (om_created_version m) \<and> set_field (om_expires_tick m)
     \<and> set_field (om_status m) \<and> set_field (om_closed_tick m) \<and> set_field (om_transaction_id m)"

record transaction_msg =
  tm_transaction_id :: "string option"
  tm_offer_id :: "string option"
  tm_proposer_id :: "string option"
  tm_recipient_id :: "string option"
  tm_give :: "bundle_msg option"
  tm_receive :: "bundle_msg option"
  tm_settled_tick :: "u64 option"
  tm_settled_version :: "u64 option"

definition transaction_inited :: "transaction_msg \<Rightarrow> bool" where
  "transaction_inited m \<longleftrightarrow> set_field (tm_transaction_id m) \<and> set_field (tm_offer_id m)
     \<and> set_field (tm_proposer_id m) \<and> set_field (tm_recipient_id m) \<and> present bundle_inited (tm_give m)
     \<and> present bundle_inited (tm_receive m) \<and> set_field (tm_settled_tick m) \<and> set_field (tm_settled_version m)"

record advertisement_msg =
  am_advertisement_id :: "string option"
  am_station_id :: "string option"
  am_selling :: "list_resource_msg option"
  am_seeking :: "list_resource_msg option"
  am_created_tick :: "u64 option"
  am_expires_tick :: "u64 option"
  am_created_version :: "u64 option"
  am_status :: "int option"

definition advertisement_inited :: "advertisement_msg \<Rightarrow> bool" where
  "advertisement_inited m \<longleftrightarrow> set_field (am_advertisement_id m) \<and> set_field (am_station_id m)
     \<and> set_field (am_selling m) \<and> set_field (am_seeking m) \<and> set_field (am_created_tick m)
     \<and> set_field (am_expires_tick m) \<and> set_field (am_created_version m) \<and> set_field (am_status m)"

record result_msg =
  xm_type :: "int option"
  xm_protocol_version :: "string option"
  xm_run_id :: "string option"
  xm_request_id :: "string option"
  xm_ok :: "bool option"
  xm_code :: "int option"
  xm_processed_tick :: "u64 option"
  xm_processed_version :: "u64 option"
  xm_object_id :: "string nullable option"
  xm_transaction_id :: "string nullable option"
  xm_retry_after_tick :: "u64 nullable option"

definition result_inited :: "result_msg \<Rightarrow> bool" where
  "result_inited m \<longleftrightarrow> set_field (xm_type m) \<and> set_field (xm_protocol_version m) \<and> set_field (xm_run_id m)
     \<and> set_field (xm_request_id m) \<and> set_field (xm_ok m) \<and> set_field (xm_code m)
     \<and> set_field (xm_processed_tick m) \<and> set_field (xm_processed_version m) \<and> set_field (xm_object_id m)
     \<and> set_field (xm_transaction_id m) \<and> set_field (xm_retry_after_tick m)"

record protocol_error_msg =
  em_type :: "int option"
  em_protocol_version :: "string option"
  em_run_id :: "string nullable option"
  em_request_id :: "string nullable option"
  em_code :: "int option"
  em_close_session :: "bool option"

definition protocol_error_inited :: "protocol_error_msg \<Rightarrow> bool" where
  "protocol_error_inited m \<longleftrightarrow> set_field (em_type m) \<and> set_field (em_protocol_version m)
     \<and> set_field (em_run_id m) \<and> set_field (em_request_id m) \<and> set_field (em_code m) \<and> set_field (em_close_session m)"

record readiness_msg =
  ym_type :: "int option"
  ym_protocol_version :: "string option"
  ym_run_id :: "string option"
  ym_ready :: "bool option"
  ym_snapshot_sequence :: "u64 option"

definition readiness_inited :: "readiness_msg \<Rightarrow> bool" where
  "readiness_inited m \<longleftrightarrow> set_field (ym_type m) \<and> set_field (ym_protocol_version m) \<and> set_field (ym_run_id m)
     \<and> set_field (ym_ready m) \<and> set_field (ym_snapshot_sequence m)"

record outcome_msg =
  pm_collective_success :: "bool nullable option"
  pm_self_failed :: "bool option"
  pm_aborted :: "bool option"

definition outcome_inited :: "outcome_msg \<Rightarrow> bool" where
  "outcome_inited m \<longleftrightarrow> set_field (pm_collective_success m) \<and> set_field (pm_self_failed m) \<and> set_field (pm_aborted m)"

definition nullable_outcome_inited :: "outcome_msg nullable \<Rightarrow> bool" where
  "nullable_outcome_inited m = (case m of ValueArm p \<Rightarrow> outcome_inited p | _ \<Rightarrow> True)"

record state_msg =
  zm_type :: "int option"
  zm_protocol_version :: "string option"
  zm_run_id :: "string option"
  zm_snapshot_sequence :: "u64 option"
  zm_world_version :: "u64 option"
  zm_tick :: "u64 option"
  zm_phase :: "int option"
  zm_self_station_id :: "string option"
  zm_rules :: "rules_msg option"
  zm_directory :: "directory_msg list option"
  zm_self :: "observation_msg option"
  zm_offers :: "offer_msg list option"
  zm_advertisements :: "advertisement_msg list option"
  zm_transactions :: "transaction_msg list option"
  zm_request_results :: "result_msg list option"
  zm_outcome :: "outcome_msg nullable option"

definition state_inited :: "state_msg \<Rightarrow> bool" where
  "state_inited m \<longleftrightarrow> set_field (zm_type m) \<and> set_field (zm_protocol_version m) \<and> set_field (zm_run_id m)
     \<and> set_field (zm_snapshot_sequence m) \<and> set_field (zm_world_version m) \<and> set_field (zm_tick m)
     \<and> set_field (zm_phase m) \<and> set_field (zm_self_station_id m) \<and> present rules_inited (zm_rules m)
     \<and> present (list_all directory_inited) (zm_directory m) \<and> present observation_inited (zm_self m)
     \<and> present (list_all offer_inited) (zm_offers m)
     \<and> present (list_all advertisement_inited) (zm_advertisements m)
     \<and> present (list_all transaction_inited) (zm_transactions m)
     \<and> present (list_all result_inited) (zm_request_results m)
     \<and> present nullable_outcome_inited (zm_outcome m)"

datatype server_message =
    NoServerArm
  | StateArm state_msg
  | ResultArm result_msg
  | ProtocolErrorArm protocol_error_msg
  | ReadinessArm readiness_msg

subsection \<open>Client messages\<close>

text \<open>The four command messages share their head: type, protocol version, run, request.\<close>

record 'b command_msg =
  cm_type :: "int option"
  cm_protocol_version :: "string option"
  cm_run_id :: "string option"
  cm_request_id :: "string option"
  cm_body :: "'b option"

record advertise_body =
  ab_selling :: "list_resource_msg option"
  ab_seeking :: "list_resource_msg option"
  ab_expires_tick :: "u64 option"

record offer_body =
  ob_recipient_id :: "string option"
  ob_give :: "bundle_msg option"
  ob_receive :: "bundle_msg option"
  ob_expires_tick :: "u64 option"

record accept_body =
  cb_offer_id :: "string option"

record withdraw_body =
  wb_object_id :: "string option"

record sync_msg =
  nm_type :: "int option"
  nm_protocol_version :: "string option"
  nm_run_id :: "string option"

record ready_msg =
  gm_type :: "int option"
  gm_protocol_version :: "string option"
  gm_run_id :: "string option"
  gm_ready :: "bool option"
  gm_snapshot_sequence :: "u64 option"

datatype client_message =
    NoClientArm
  | AdvertiseArm "advertise_body command_msg"
  | OfferArm "offer_body command_msg"
  | AcceptArm "accept_body command_msg"
  | WithdrawArm "withdraw_body command_msg"
  | SyncArm sync_msg
  | ReadyArm ready_msg

definition command_inited :: "('b \<Rightarrow> bool) \<Rightarrow> 'b command_msg \<Rightarrow> bool" where
  "command_inited body m \<longleftrightarrow> set_field (cm_type m) \<and> set_field (cm_protocol_version m)
     \<and> set_field (cm_run_id m) \<and> set_field (cm_request_id m) \<and> present body (cm_body m)"

definition advertise_body_inited :: "advertise_body \<Rightarrow> bool" where
  "advertise_body_inited b \<longleftrightarrow> set_field (ab_selling b) \<and> set_field (ab_seeking b) \<and> set_field (ab_expires_tick b)"

definition offer_body_inited :: "offer_body \<Rightarrow> bool" where
  "offer_body_inited b \<longleftrightarrow> set_field (ob_recipient_id b) \<and> present bundle_inited (ob_give b)
     \<and> present bundle_inited (ob_receive b) \<and> set_field (ob_expires_tick b)"

text \<open>\<open>FindInitializationErrors\<close> of a \<open>ClientMessage\<close> returns the empty list; without an arm
  nothing is required.\<close>

fun client_inited :: "client_message \<Rightarrow> bool" where
  "client_inited NoClientArm = True"
| "client_inited (AdvertiseArm m) = command_inited advertise_body_inited m"
| "client_inited (OfferArm m) = command_inited offer_body_inited m"
| "client_inited (AcceptArm m) = command_inited (\<lambda>b. set_field (cb_offer_id b)) m"
| "client_inited (WithdrawArm m) = command_inited (\<lambda>b. set_field (wb_object_id b)) m"
| "client_inited (SyncArm m) \<longleftrightarrow> set_field (nm_type m) \<and> set_field (nm_protocol_version m) \<and> set_field (nm_run_id m)"
| "client_inited (ReadyArm m) \<longleftrightarrow> set_field (gm_type m) \<and> set_field (gm_protocol_version m)
     \<and> set_field (gm_run_id m) \<and> set_field (gm_ready m) \<and> set_field (gm_snapshot_sequence m)"

lemmas inited_defs = bundle_inited_def rules_inited_def observation_inited_def directory_inited_def
  offer_inited_def transaction_inited_def advertisement_inited_def result_inited_def
  protocol_error_inited_def readiness_inited_def outcome_inited_def nullable_outcome_inited_def
  state_inited_def command_inited_def advertise_body_inited_def offer_body_inited_def

end
