(* ===== verification/Mappers.thy ===== *)
theory Mappers
  imports Messages
begin

text \<open>
  \<open>bazaar_client/domain/mappers.py\<close>: domain values to protobuf messages and back.
  Building a message raises \<open>ValueError\<close> when an integer does not fit a \<open>uint64\<close>; reading
  one raises on an unknown enum number or a nullable wrapper without exactly one arm. The
  interface \<open>wire_format\<close> states what each pair promises; every message interprets it.
\<close>

definition PROTOCOL_VERSION :: string where
  "PROTOCOL_VERSION = ''2.0''"

text \<open>\<open>Resource(n)\<close>, \<open>Phase(n)\<close>, ...: calling an \<open>IntEnum\<close> class with a number.\<close>

definition enum_value :: "('e \<Rightarrow> int) \<Rightarrow> 'e list \<Rightarrow> int \<Rightarrow> 'e result" where
  "enum_value num members n = (case find (\<lambda>x. num x = n) members of None \<Rightarrow> Inl UnknownEnumValue | Some x \<Rightarrow> Inr x)"

definition phases :: "phase list" where
  "phases = [READY, RUNNING, PAUSED, FINISHED, ABORTED]"

definition offer_statuses :: "offer_status list" where
  "offer_statuses = [OPEN, ACCEPTED, WITHDRAWN, EXPIRED, RUN_ENDED]"

definition publication_statuses :: "publication_status list" where
  "publication_statuses = [PUB_ACTIVE, PUB_REPLACED, PUB_WITHDRAWN, PUB_EXPIRED, PUB_RUN_ENDED]"

definition result_codes :: "result_code list" where
  "result_codes = [RES_OK, REQUEST_ID_CONFLICT, RUN_NOT_RUNNING, RATE_LIMITED, INVALID_ARGUMENT, NOT_FOUND,
     RES_EXPIRED, NOT_OPEN, LIMIT_REACHED, INSUFFICIENT_RESOURCES, STATION_FAILED]"

definition control_codes :: "control_code list" where
  "control_codes = [BAD_MESSAGE, REQUEST_CAPACITY_EXCEEDED, UNSUPPORTED_VERSION, RUN_MISMATCH,
     INVALID_AUTHENTICATION, SESSION_FENCED]"

lemma enum_value_inverse [wire_simps]:
  "enum_value resource_int resources (resource_int r) = Inr r"
  "enum_value phase_int phases (phase_int p) = Inr p"
  "enum_value offer_status_int offer_statuses (offer_status_int s) = Inr s"
  "enum_value publication_status_int publication_statuses (publication_status_int q) = Inr q"
  "enum_value result_code_int result_codes (result_code_int c) = Inr c"
  "enum_value control_code_int control_codes (control_code_int d) = Inr d"
proof -
  show "enum_value resource_int resources (resource_int r) = Inr r"
    by (cases r) (simp_all add: enum_value_def resources_def)
  show "enum_value phase_int phases (phase_int p) = Inr p"
    by (cases p) (simp_all add: enum_value_def phases_def)
  show "enum_value offer_status_int offer_statuses (offer_status_int s) = Inr s"
    by (cases s) (simp_all add: enum_value_def offer_statuses_def)
  show "enum_value publication_status_int publication_statuses (publication_status_int q) = Inr q"
    by (cases q) (simp_all add: enum_value_def publication_statuses_def)
  show "enum_value result_code_int result_codes (result_code_int c) = Inr c"
    by (cases c) (simp_all add: enum_value_def result_codes_def)
  show "enum_value control_code_int control_codes (control_code_int d) = Inr d"
    by (cases d) (simp_all add: enum_value_def control_codes_def)
qed

subsection \<open>What a message format promises\<close>

locale wire_format =
  fixes to_pb :: "'a \<Rightarrow> 'm result"
    and from_pb :: "'m \<Rightarrow> 'a result"
    and inited :: "'m \<Rightarrow> bool"
    and fits :: "'a \<Rightarrow> bool"
  assumes encodes: "fits x \<Longrightarrow> \<exists>m. to_pb x = Inr m"
    and decodes: "fits x \<Longrightarrow> to_pb x = Inr m \<Longrightarrow> from_pb m = Inr x"
    and complete: "to_pb x = Inr m \<Longrightarrow> inited m"
begin

lemma roundtrip: "fits x \<Longrightarrow> \<exists>m. to_pb x = Inr m \<and> from_pb m = Inr x \<and> inited m"
  using encodes decodes complete by blast

lemma no_collision: "fits x \<Longrightarrow> fits y \<Longrightarrow> to_pb x = to_pb y \<Longrightarrow> x = y"
  by (metis Inr_inject decodes encodes)

lemma list_encodes: "list_all fits xs \<Longrightarrow> \<exists>ms. mapE to_pb xs = Inr ms"
  by (induction xs) (auto dest: encodes)

lemma list_decodes: "list_all fits xs \<Longrightarrow> mapE to_pb xs = Inr ms \<Longrightarrow> mapE from_pb ms = Inr xs"
  by (induction xs arbitrary: ms) (auto elim!: bindE_InrE dest: decodes)

lemma list_complete: "mapE to_pb xs = Inr ms \<Longrightarrow> list_all inited ms"
  by (induction xs arbitrary: ms) (auto elim!: bindE_InrE dest: complete)

end

subsection \<open>Scalars and wrappers\<close>

definition bundle_from_pb :: "bundle_msg \<Rightarrow> Bundle" where
  "bundle_from_pb m = Bundle (unat (field 0 (bm_water m))) (unat (field 0 (bm_food m))) (unat (field 0 (bm_components m)))"

definition bundle_to_pb :: "Bundle \<Rightarrow> bundle_msg result" where
  "bundle_to_pb b =
     bindE (u64 (int (get b WATER))) (\<lambda>w.
     bindE (u64 (int (get b FOOD))) (\<lambda>f.
     bindE (u64 (int (get b COMPONENTS))) (\<lambda>c.
     Inr \<lparr>bm_water = Some w, bm_food = Some f, bm_components = Some c\<rparr>)))"

definition bundle_fits :: "Bundle \<Rightarrow> bool" where
  "bundle_fits b \<longleftrightarrow> list_all (\<lambda>r. u64_ok (int (get b r))) resources"

definition resource_list_from_pb :: "list_resource_msg \<Rightarrow> resource set result" where
  "resource_list_from_pb items = bindE (mapE (enum_value resource_int resources) items) (\<lambda>rs. Inr (set rs))"

definition resource_list_to_pb :: "resource list \<Rightarrow> list_resource_msg" where
  "resource_list_to_pb rs = sort (map resource_int rs)"

text \<open>The same wrapper logic for strings, unsigned integers, booleans and outcomes; \<open>rd\<close> reads the
  selected value.\<close>

definition nullable_from_pb :: "('m \<Rightarrow> 'a result) \<Rightarrow> 'm nullable \<Rightarrow> 'a option result" where
  "nullable_from_pb rd pb = (case pb of
       ValueArm v \<Rightarrow> bindE (rd v) (\<lambda>x. Inr (Some x))
     | NullArm n \<Rightarrow> if \<not> n then Inl WireFormatError else Inr None
     | NoArm \<Rightarrow> Inl WireFormatError)"

definition nullable_str_from_pb :: "string nullable \<Rightarrow> string option result" where
  "nullable_str_from_pb = nullable_from_pb Inr"

definition nullable_uint_from_pb :: "u64 nullable \<Rightarrow> int option result" where
  "nullable_uint_from_pb = nullable_from_pb (\<lambda>w. Inr (uint w))"

definition nullable_bool_from_pb :: "bool nullable \<Rightarrow> bool option result" where
  "nullable_bool_from_pb = nullable_from_pb Inr"

definition nullable_str_to_pb :: "string option \<Rightarrow> string nullable" where
  "nullable_str_to_pb v = (case v of None \<Rightarrow> NullArm True | Some x \<Rightarrow> ValueArm x)"

definition nullable_uint_to_pb :: "int option \<Rightarrow> u64 nullable result" where
  "nullable_uint_to_pb v = (case v of None \<Rightarrow> Inr (NullArm True) | Some x \<Rightarrow> bindE (u64 x) (\<lambda>w. Inr (ValueArm w)))"

definition nullable_bool_to_pb :: "bool option \<Rightarrow> bool nullable" where
  "nullable_bool_to_pb v = (case v of None \<Rightarrow> NullArm True | Some x \<Rightarrow> ValueArm x)"

lemma nullable_inverse [wire_simps]:
  "nullable_str_from_pb (nullable_str_to_pb s) = Inr s"
  "nullable_bool_from_pb (nullable_bool_to_pb b) = Inr b"
  by (simp_all add: nullable_str_from_pb_def nullable_str_to_pb_def nullable_bool_from_pb_def
      nullable_bool_to_pb_def nullable_from_pb_def split: option.splits)

lemma nullable_uint_Inr [wire_simps]:
  "nullable_uint_to_pb v = Inr m \<longleftrightarrow> pred_option u64_ok v
     \<and> m = (case v of None \<Rightarrow> NullArm True | Some x \<Rightarrow> ValueArm (word_of_int x))"
  by (cases v) (auto simp: nullable_uint_to_pb_def bindE_Inr_iff u64_Inr)

lemma nullable_uint_read [wire_simps]:
  "pred_option u64_ok v \<Longrightarrow>
     nullable_uint_from_pb (case v of None \<Rightarrow> NullArm True | Some x \<Rightarrow> ValueArm (word_of_int x)) = Inr v"
  by (cases v) (simp_all add: nullable_uint_from_pb_def nullable_from_pb_def u64_uint)

definition bundle_msg_of :: "Bundle \<Rightarrow> bundle_msg" where
  "bundle_msg_of b = \<lparr>bm_water = Some (word_of_nat (get b WATER)), bm_food = Some (word_of_nat (get b FOOD)),
     bm_components = Some (word_of_nat (get b COMPONENTS))\<rparr>"

lemma bundle_Inr [wire_simps]: "bundle_to_pb b = Inr m \<longleftrightarrow> bundle_fits b \<and> m = bundle_msg_of b"
  by (auto simp: bundle_to_pb_def bundle_msg_of_def bundle_fits_def resources_def bindE_Inr_iff u64_Inr)

lemma u64_unat: "u64_ok (int n) \<Longrightarrow> unat (word_of_nat n :: u64) = n"
proof -
  assume "u64_ok (int n)"
  then have "nat (int n) < nat (2 ^ 64)" unfolding u64_ok_def by (intro nat_mono_iff [THEN iffD2]) auto
  then have "n < 2 ^ 64" by (simp only: nat_int nat_power_eq nat_numeral zero_le_numeral)
  then show ?thesis by (simp add: unsigned_of_nat take_bit_nat_eq_self)
qed

lemma bundle_read [wire_simps]: "bundle_fits b \<Longrightarrow> bundle_from_pb (bundle_msg_of b) = b"
  by (simp add: bundle_from_pb_def bundle_msg_of_def bundle_fits_def resources_def bundle_eq_iff u64_unat
      split: resource.split)

lemma bundle_inited_msg [wire_simps]: "bundle_inited (bundle_msg_of b)"
  by (simp add: bundle_inited_def bundle_msg_of_def)

interpretation bundle_wire: wire_format bundle_to_pb "\<lambda>m. Inr (bundle_from_pb m)" bundle_inited bundle_fits
  by unfold_locales (auto simp: wire_simps)

lemma mapE_resources: "mapE (enum_value resource_int resources) (map resource_int rs) = Inr rs"
  by (induction rs) (simp_all add: enum_value_inverse)

lemma in_order_sorted: "sorted (map resource_int (in_order s))"
  by (auto simp: in_order_def resources_def)

lemma resource_list_read [wire_simps]:
  "resource_list_from_pb (resource_list_to_pb (in_order s)) = Inr s"
  by (simp add: resource_list_from_pb_def resource_list_to_pb_def sorted_sort_id in_order_sorted mapE_resources)

subsection \<open>Rules and stations\<close>

definition rules_from_pb :: "rules_msg \<Rightarrow> rules result" where
  "rules_from_pb m =
     bindE (mapE (enum_value resource_int resources) (field [] (rm_resource_order m))) (\<lambda>order.
     Inr \<lparr>rules_version = field [] (rm_rules_version m), duration_ticks = word_field (rm_duration_ticks m),
        tick_duration_ms = word_field (rm_tick_duration_ms m), resource_order = order,
        max_health = word_field (rm_max_health m), shortage_damage_per_unit = word_field (rm_shortage_damage_per_unit m),
        recovery_per_fully_supplied_tick = word_field (rm_recovery_per_fully_supplied_tick m), max_publication_ttl_ticks = word_field (rm_max_publication_ttl_ticks m),
        max_offer_ttl_ticks = word_field (rm_max_offer_ttl_ticks m), new_commands_per_station_per_tick = word_field (rm_new_commands_per_station_per_tick m),
        max_request_records_per_station = word_field (rm_max_request_records_per_station m), max_open_outgoing_offers = word_field (rm_max_open_outgoing_offers m),
        max_command_bytes = word_field (rm_max_command_bytes m)\<rparr>)"

definition rules_to_pb :: "rules \<Rightarrow> rules_msg result" where
  "rules_to_pb rs =
     bindE (u64 (duration_ticks rs)) (\<lambda>w0.
     bindE (u64 (tick_duration_ms rs)) (\<lambda>w1.
     bindE (u64 (max_health rs)) (\<lambda>w2.
     bindE (u64 (shortage_damage_per_unit rs)) (\<lambda>w3.
     bindE (u64 (recovery_per_fully_supplied_tick rs)) (\<lambda>w4.
     bindE (u64 (max_publication_ttl_ticks rs)) (\<lambda>w5.
     bindE (u64 (max_offer_ttl_ticks rs)) (\<lambda>w6.
     bindE (u64 (new_commands_per_station_per_tick rs)) (\<lambda>w7.
     bindE (u64 (max_request_records_per_station rs)) (\<lambda>w8.
     bindE (u64 (max_open_outgoing_offers rs)) (\<lambda>w9.
     bindE (u64 (max_command_bytes rs)) (\<lambda>w10.
     Inr \<lparr>rm_rules_version = Some (rules_version rs), rm_duration_ticks = Some w0,
        rm_tick_duration_ms = Some w1, rm_resource_order = Some (resource_list_to_pb (resource_order rs)),
        rm_max_health = Some w2, rm_shortage_damage_per_unit = Some w3,
        rm_recovery_per_fully_supplied_tick = Some w4, rm_max_publication_ttl_ticks = Some w5,
        rm_max_offer_ttl_ticks = Some w6, rm_new_commands_per_station_per_tick = Some w7,
        rm_max_request_records_per_station = Some w8, rm_max_open_outgoing_offers = Some w9,
        rm_max_command_bytes = Some w10\<rparr>)))))))))))"

definition rules_fit :: "rules \<Rightarrow> bool" where
  "rules_fit rs \<longleftrightarrow> sorted (map resource_int (resource_order rs))
     \<and> u64_ok (duration_ticks rs) \<and> u64_ok (tick_duration_ms rs)
     \<and> u64_ok (max_health rs) \<and> u64_ok (shortage_damage_per_unit rs)
     \<and> u64_ok (recovery_per_fully_supplied_tick rs) \<and> u64_ok (max_publication_ttl_ticks rs)
     \<and> u64_ok (max_offer_ttl_ticks rs) \<and> u64_ok (new_commands_per_station_per_tick rs)
     \<and> u64_ok (max_request_records_per_station rs) \<and> u64_ok (max_open_outgoing_offers rs)
     \<and> u64_ok (max_command_bytes rs)"

definition station_observation_from_pb :: "observation_msg \<Rightarrow> station_observation result" where
  "station_observation_from_pb m =
     bindE (nullable_uint_from_pb (field NoArm (sm_first_failure_tick m))) (\<lambda>failure.
     bindE (enum_value resource_int resources (enum_field (sm_specialty m))) (\<lambda>spec.
     Inr \<lparr>obs_station_id = field [] (sm_station_id m),
        inventory = bundle_from_pb (field bundle_msg_new (sm_inventory m)),
        health = word_field (sm_health m),
        failed_once = field False (sm_failed_once m),
        first_failure_tick = failure,
        last_production = bundle_from_pb (field bundle_msg_new (sm_last_production m)),
        last_unmet_upkeep = bundle_from_pb (field bundle_msg_new (sm_last_unmet_upkeep m)),
        fully_supplied_ticks = word_field (sm_fully_supplied_ticks m),
        shortage_ticks = word_field (sm_shortage_ticks m),
        current_shortage_streak = word_field (sm_current_shortage_streak m),
        longest_shortage_streak = word_field (sm_longest_shortage_streak m),
        produced_total = bundle_from_pb (field bundle_msg_new (sm_produced_total m)),
        consumed_total = bundle_from_pb (field bundle_msg_new (sm_consumed_total m)),
        unmet_total = bundle_from_pb (field bundle_msg_new (sm_unmet_total m)),
        imported_total = bundle_from_pb (field bundle_msg_new (sm_imported_total m)),
        exported_total = bundle_from_pb (field bundle_msg_new (sm_exported_total m)),
        upkeep_per_tick = bundle_from_pb (field bundle_msg_new (sm_upkeep_per_tick m)),
        specialty = spec\<rparr>))"

definition station_observation_to_pb :: "station_observation \<Rightarrow> observation_msg result" where
  "station_observation_to_pb x =
     bindE (u64 (health x)) (\<lambda>w0.
     bindE (u64 (fully_supplied_ticks x)) (\<lambda>w1.
     bindE (u64 (shortage_ticks x)) (\<lambda>w2.
     bindE (u64 (current_shortage_streak x)) (\<lambda>w3.
     bindE (u64 (longest_shortage_streak x)) (\<lambda>w4.
     bindE (bundle_to_pb (inventory x)) (\<lambda>b0.
     bindE (nullable_uint_to_pb (first_failure_tick x)) (\<lambda>failure.
     bindE (bundle_to_pb (last_production x)) (\<lambda>b1.
     bindE (bundle_to_pb (last_unmet_upkeep x)) (\<lambda>b2.
     bindE (bundle_to_pb (produced_total x)) (\<lambda>b3.
     bindE (bundle_to_pb (consumed_total x)) (\<lambda>b4.
     bindE (bundle_to_pb (unmet_total x)) (\<lambda>b5.
     bindE (bundle_to_pb (imported_total x)) (\<lambda>b6.
     bindE (bundle_to_pb (exported_total x)) (\<lambda>b7.
     bindE (bundle_to_pb (upkeep_per_tick x)) (\<lambda>b8.
     Inr \<lparr>sm_station_id = Some (obs_station_id x), sm_inventory = Some b0,
        sm_health = Some w0, sm_failed_once = Some (failed_once x),
        sm_first_failure_tick = Some failure, sm_last_production = Some b1,
        sm_last_unmet_upkeep = Some b2, sm_fully_supplied_ticks = Some w1,
        sm_shortage_ticks = Some w2, sm_current_shortage_streak = Some w3,
        sm_longest_shortage_streak = Some w4, sm_produced_total = Some b3,
        sm_consumed_total = Some b4, sm_unmet_total = Some b5,
        sm_imported_total = Some b6, sm_exported_total = Some b7,
        sm_upkeep_per_tick = Some b8, sm_specialty = Some (resource_int (specialty x))\<rparr>)))))))))))))))"

definition observation_fits :: "station_observation \<Rightarrow> bool" where
  "observation_fits x \<longleftrightarrow> u64_ok (health x) \<and> u64_ok (fully_supplied_ticks x)
     \<and> u64_ok (shortage_ticks x) \<and> u64_ok (current_shortage_streak x)
     \<and> u64_ok (longest_shortage_streak x)
     \<and> pred_option u64_ok (first_failure_tick x)
     \<and> bundle_fits (inventory x)
     \<and> bundle_fits (last_production x)
     \<and> bundle_fits (last_unmet_upkeep x)
     \<and> bundle_fits (produced_total x)
     \<and> bundle_fits (consumed_total x)
     \<and> bundle_fits (unmet_total x)
     \<and> bundle_fits (imported_total x)
     \<and> bundle_fits (exported_total x)
     \<and> bundle_fits (upkeep_per_tick x)"

definition directory_entry_from_pb :: "directory_msg \<Rightarrow> directory_entry" where
  "directory_entry_from_pb m =
     \<lparr>dir_station_id = field [] (dm_station_id m), display_name = field [] (dm_display_name m)\<rparr>"

definition directory_entry_to_pb :: "directory_entry \<Rightarrow> directory_msg" where
  "directory_entry_to_pb e = \<lparr>dm_station_id = Some (dir_station_id e), dm_display_name = Some (display_name e)\<rparr>"

subsection \<open>Offers, transactions, advertisements\<close>

definition offer_from_pb :: "offer_msg \<Rightarrow> offer result" where
  "offer_from_pb m =
     bindE (enum_value offer_status_int offer_statuses (enum_field (om_status m))) (\<lambda>status.
     bindE (nullable_uint_from_pb (field NoArm (om_closed_tick m))) (\<lambda>closed.
     bindE (nullable_str_from_pb (field NoArm (om_transaction_id m))) (\<lambda>txn.
     Inr \<lparr>offer_id = field [] (om_offer_id m), proposer_id = field [] (om_proposer_id m),
        recipient_id = field [] (om_recipient_id m),
        give = bundle_from_pb (field bundle_msg_new (om_give m)),
        receive = bundle_from_pb (field bundle_msg_new (om_receive m)),
        created_tick = word_field (om_created_tick m), created_version = word_field (om_created_version m),
        expires_tick = word_field (om_expires_tick m), offer_status = status, closed_tick = closed,
        offer_transaction_id = txn\<rparr>)))"

definition offer_to_pb :: "offer \<Rightarrow> offer_msg result" where
  "offer_to_pb x =
     bindE (u64 (created_tick x)) (\<lambda>w0.
     bindE (u64 (created_version x)) (\<lambda>w1.
     bindE (u64 (expires_tick x)) (\<lambda>w2.
     bindE (bundle_to_pb (give x)) (\<lambda>g.
     bindE (bundle_to_pb (receive x)) (\<lambda>r.
     bindE (nullable_uint_to_pb (closed_tick x)) (\<lambda>closed.
     Inr \<lparr>om_offer_id = Some (offer_id x), om_proposer_id = Some (proposer_id x),
        om_recipient_id = Some (recipient_id x), om_give = Some g, om_receive = Some r,
        om_created_tick = Some w0, om_created_version = Some w1, om_expires_tick = Some w2,
        om_status = Some (offer_status_int (offer_status x)), om_closed_tick = Some closed,
        om_transaction_id = Some (nullable_str_to_pb (offer_transaction_id x))\<rparr>))))))"

definition offer_fits :: "offer \<Rightarrow> bool" where
  "offer_fits x \<longleftrightarrow> u64_ok (created_tick x) \<and> u64_ok (created_version x) \<and> u64_ok (expires_tick x)
     \<and> bundle_fits (give x) \<and> bundle_fits (receive x) \<and> pred_option u64_ok (closed_tick x)"

definition transaction_from_pb :: "transaction_msg \<Rightarrow> transaction" where
  "transaction_from_pb m =
     \<lparr>transaction_id = field [] (tm_transaction_id m), txn_offer_id = field [] (tm_offer_id m),
      txn_proposer_id = field [] (tm_proposer_id m), txn_recipient_id = field [] (tm_recipient_id m),
      txn_give = bundle_from_pb (field bundle_msg_new (tm_give m)),
      txn_receive = bundle_from_pb (field bundle_msg_new (tm_receive m)),
      settled_tick = word_field (tm_settled_tick m), settled_version = word_field (tm_settled_version m)\<rparr>"

definition transaction_to_pb :: "transaction \<Rightarrow> transaction_msg result" where
  "transaction_to_pb x =
     bindE (u64 (settled_tick x)) (\<lambda>w0.
     bindE (u64 (settled_version x)) (\<lambda>w1.
     bindE (bundle_to_pb (txn_give x)) (\<lambda>g.
     bindE (bundle_to_pb (txn_receive x)) (\<lambda>r.
     Inr \<lparr>tm_transaction_id = Some (transaction_id x), tm_offer_id = Some (txn_offer_id x),
        tm_proposer_id = Some (txn_proposer_id x), tm_recipient_id = Some (txn_recipient_id x),
        tm_give = Some g, tm_receive = Some r, tm_settled_tick = Some w0, tm_settled_version = Some w1\<rparr>))))"

definition transaction_fits :: "transaction \<Rightarrow> bool" where
  "transaction_fits x \<longleftrightarrow> u64_ok (settled_tick x) \<and> u64_ok (settled_version x)
     \<and> bundle_fits (txn_give x) \<and> bundle_fits (txn_receive x)"

definition advertisement_from_pb :: "advertisement_msg \<Rightarrow> advertisement result" where
  "advertisement_from_pb m =
     bindE (resource_list_from_pb (field [] (am_selling m))) (\<lambda>sell.
     bindE (resource_list_from_pb (field [] (am_seeking m))) (\<lambda>seek.
     bindE (enum_value publication_status_int publication_statuses (enum_field (am_status m))) (\<lambda>status.
     Inr \<lparr>advertisement_id = field [] (am_advertisement_id m), ad_station_id = field [] (am_station_id m),
        selling = sell, seeking = seek, ad_created_tick = word_field (am_created_tick m),
        ad_expires_tick = word_field (am_expires_tick m),
        ad_created_version = word_field (am_created_version m), ad_status = status\<rparr>)))"

definition advertisement_to_pb :: "advertisement \<Rightarrow> advertisement_msg result" where
  "advertisement_to_pb x =
     bindE (u64 (ad_created_tick x)) (\<lambda>w0.
     bindE (u64 (ad_expires_tick x)) (\<lambda>w1.
     bindE (u64 (ad_created_version x)) (\<lambda>w2.
     Inr \<lparr>am_advertisement_id = Some (advertisement_id x), am_station_id = Some (ad_station_id x),
        am_selling = Some (resource_list_to_pb (in_order (selling x))),
        am_seeking = Some (resource_list_to_pb (in_order (seeking x))),
        am_created_tick = Some w0, am_expires_tick = Some w1, am_created_version = Some w2,
        am_status = Some (publication_status_int (ad_status x))\<rparr>)))"

definition advertisement_fits :: "advertisement \<Rightarrow> bool" where
  "advertisement_fits x \<longleftrightarrow> u64_ok (ad_created_tick x) \<and> u64_ok (ad_expires_tick x) \<and> u64_ok (ad_created_version x)"

subsection \<open>Results, errors, readiness, outcomes\<close>

definition result_from_pb :: "result_msg \<Rightarrow> command_result result" where
  "result_from_pb m =
     bindE (enum_value result_code_int result_codes (enum_field (xm_code m))) (\<lambda>c.
     bindE (nullable_str_from_pb (field NoArm (xm_object_id m))) (\<lambda>oid.
     bindE (nullable_str_from_pb (field NoArm (xm_transaction_id m))) (\<lambda>txn.
     bindE (nullable_uint_from_pb (field NoArm (xm_retry_after_tick m))) (\<lambda>retry.
     Inr \<lparr>request_id = field [] (xm_request_id m), ok = field False (xm_ok m), code = c,
        processed_tick = word_field (xm_processed_tick m),
        processed_version = word_field (xm_processed_version m), object_id = oid,
        res_transaction_id = txn, retry_after_tick = retry\<rparr>))))"

definition result_to_pb :: "string \<Rightarrow> command_result \<Rightarrow> result_msg result" where
  "result_to_pb rid x =
     bindE (u64 (processed_tick x)) (\<lambda>w0.
     bindE (u64 (processed_version x)) (\<lambda>w1.
     bindE (nullable_uint_to_pb (retry_after_tick x)) (\<lambda>retry.
     Inr \<lparr>xm_type = Some 1, xm_protocol_version = Some PROTOCOL_VERSION, xm_run_id = Some rid,
        xm_request_id = Some (request_id x), xm_ok = Some (ok x),
        xm_code = Some (result_code_int (code x)), xm_processed_tick = Some w0,
        xm_processed_version = Some w1, xm_object_id = Some (nullable_str_to_pb (object_id x)),
        xm_transaction_id = Some (nullable_str_to_pb (res_transaction_id x)),
        xm_retry_after_tick = Some retry\<rparr>)))"

definition result_fits :: "command_result \<Rightarrow> bool" where
  "result_fits x \<longleftrightarrow> u64_ok (processed_tick x) \<and> u64_ok (processed_version x) \<and> pred_option u64_ok (retry_after_tick x)"

definition protocol_error_from_pb :: "protocol_error_msg \<Rightarrow> protocol_error_event result" where
  "protocol_error_from_pb m =
     bindE (nullable_str_from_pb (field NoArm (em_run_id m))) (\<lambda>rid.
     bindE (nullable_str_from_pb (field NoArm (em_request_id m))) (\<lambda>req.
     bindE (enum_value control_code_int control_codes (enum_field (em_code m))) (\<lambda>c.
     Inr \<lparr>err_run_id = rid, err_request_id = req, err_code = c,
        close_session = field False (em_close_session m)\<rparr>)))"

definition protocol_error_to_pb :: "protocol_error_event \<Rightarrow> protocol_error_msg" where
  "protocol_error_to_pb x =
     \<lparr>em_type = Some 1, em_protocol_version = Some PROTOCOL_VERSION,
      em_run_id = Some (nullable_str_to_pb (err_run_id x)),
      em_request_id = Some (nullable_str_to_pb (err_request_id x)),
      em_code = Some (control_code_int (err_code x)), em_close_session = Some (close_session x)\<rparr>"

definition readiness_from_pb :: "readiness_msg \<Rightarrow> readiness_ack" where
  "readiness_from_pb m =
     \<lparr>ack_run_id = field [] (ym_run_id m), ack_ready = field False (ym_ready m),
      ack_snapshot_sequence = word_field (ym_snapshot_sequence m)\<rparr>"

definition readiness_to_pb :: "readiness_ack \<Rightarrow> readiness_msg result" where
  "readiness_to_pb x =
     bindE (u64 (ack_snapshot_sequence x)) (\<lambda>w.
     Inr \<lparr>ym_type = Some 1, ym_protocol_version = Some PROTOCOL_VERSION, ym_run_id = Some (ack_run_id x),
        ym_ready = Some (ack_ready x), ym_snapshot_sequence = Some w\<rparr>)"

definition player_outcome_from_pb :: "outcome_msg \<Rightarrow> player_outcome result" where
  "player_outcome_from_pb m =
     bindE (nullable_bool_from_pb (field NoArm (pm_collective_success m))) (\<lambda>c.
     Inr \<lparr>collective_success = c, self_failed = field False (pm_self_failed m),
        aborted = field False (pm_aborted m)\<rparr>)"

definition player_outcome_to_pb :: "player_outcome \<Rightarrow> outcome_msg" where
  "player_outcome_to_pb x =
     \<lparr>pm_collective_success = Some (nullable_bool_to_pb (collective_success x)),
      pm_self_failed = Some (self_failed x), pm_aborted = Some (aborted x)\<rparr>"

definition nullable_outcome_from_pb :: "outcome_msg nullable \<Rightarrow> player_outcome option result" where
  "nullable_outcome_from_pb = nullable_from_pb player_outcome_from_pb"

definition nullable_outcome_to_pb :: "player_outcome option \<Rightarrow> outcome_msg nullable" where
  "nullable_outcome_to_pb v = (case v of None \<Rightarrow> NullArm True | Some x \<Rightarrow> ValueArm (player_outcome_to_pb x))"

subsection \<open>Snapshots\<close>

definition snapshot_from_pb :: "state_msg \<Rightarrow> snapshot result" where
  "snapshot_from_pb m =
     bindE (enum_value phase_int phases (enum_field (zm_phase m))) (\<lambda>p.
     bindE (rules_from_pb (field rules_msg_new (zm_rules m))) (\<lambda>rs.
     bindE (station_observation_from_pb (field observation_msg_new (zm_self m))) (\<lambda>x.
     bindE (mapE offer_from_pb (field [] (zm_offers m))) (\<lambda>os.
     bindE (mapE advertisement_from_pb (field [] (zm_advertisements m))) (\<lambda>ads.
     bindE (mapE result_from_pb (field [] (zm_request_results m))) (\<lambda>results.
     bindE (nullable_outcome_from_pb (field NoArm (zm_outcome m))) (\<lambda>out.
     Inr \<lparr>run_id = field [] (zm_run_id m), snapshot_sequence = word_field (zm_snapshot_sequence m),
        world_version = word_field (zm_world_version m), snap_tick = word_field (zm_tick m),
        snap_phase = p, self_station_id = field [] (zm_self_station_id m), snap_rules = rs,
        directory = map directory_entry_from_pb (field [] (zm_directory m)), me = x, offers = os,
        advertisements = ads, transactions = map transaction_from_pb (field [] (zm_transactions m)),
        request_results = results, outcome = out\<rparr>)))))))"

definition snapshot_to_pb :: "snapshot \<Rightarrow> state_msg result" where
  "snapshot_to_pb s =
     bindE (u64 (snapshot_sequence s)) (\<lambda>w0.
     bindE (u64 (world_version s)) (\<lambda>w1.
     bindE (u64 (snap_tick s)) (\<lambda>w2.
     bindE (rules_to_pb (snap_rules s)) (\<lambda>rs.
     bindE (station_observation_to_pb (me s)) (\<lambda>x.
     bindE (mapE offer_to_pb (offers s)) (\<lambda>os.
     bindE (mapE advertisement_to_pb (advertisements s)) (\<lambda>ads.
     bindE (mapE transaction_to_pb (transactions s)) (\<lambda>ts.
     bindE (mapE (result_to_pb (run_id s)) (request_results s)) (\<lambda>results.
     Inr \<lparr>zm_type = Some 1, zm_protocol_version = Some PROTOCOL_VERSION, zm_run_id = Some (run_id s),
        zm_snapshot_sequence = Some w0, zm_world_version = Some w1, zm_tick = Some w2,
        zm_phase = Some (phase_int (snap_phase s)), zm_self_station_id = Some (self_station_id s),
        zm_rules = Some rs, zm_directory = Some (map directory_entry_to_pb (directory s)),
        zm_self = Some x, zm_offers = Some os, zm_advertisements = Some ads, zm_transactions = Some ts,
        zm_request_results = Some results, zm_outcome = Some (nullable_outcome_to_pb (outcome s))\<rparr>)))))))))"

definition snapshot_fits :: "snapshot \<Rightarrow> bool" where
  "snapshot_fits s \<longleftrightarrow> u64_ok (snapshot_sequence s) \<and> u64_ok (world_version s) \<and> u64_ok (snap_tick s)
     \<and> rules_fit (snap_rules s) \<and> observation_fits (me s) \<and> list_all offer_fits (offers s)
     \<and> list_all advertisement_fits (advertisements s) \<and> list_all transaction_fits (transactions s)
     \<and> list_all result_fits (request_results s)"


subsection \<open>Every message is a wire format\<close>

lemmas wire_ok = u64_Inr u64_uint bundle_Inr bundle_read bundle_inited_msg nullable_uint_Inr
  nullable_uint_read nullable_inverse enum_value_inverse resource_list_read

interpretation rules_wire: wire_format rules_to_pb rules_from_pb rules_inited rules_fit
proof
  fix x m
  show "rules_fit x \<Longrightarrow> \<exists>m. rules_to_pb x = Inr m"
    by (simp add: rules_to_pb_def rules_fit_def bindE_Inr_iff wire_ok)
  show "rules_fit x \<Longrightarrow> rules_to_pb x = Inr m \<Longrightarrow> rules_from_pb m = Inr x"
    by (auto simp: rules_to_pb_def rules_fit_def rules_from_pb_def resource_list_to_pb_def sorted_sort_id mapE_resources bindE_Inr_iff wire_ok)
  show "rules_to_pb x = Inr m \<Longrightarrow> rules_inited m"
    by (auto simp: rules_to_pb_def rules_fit_def rules_inited_def bindE_Inr_iff wire_ok)
qed

interpretation observation_wire: wire_format station_observation_to_pb station_observation_from_pb observation_inited observation_fits
proof
  fix x m
  show "observation_fits x \<Longrightarrow> \<exists>m. station_observation_to_pb x = Inr m"
    by (simp add: station_observation_to_pb_def observation_fits_def bindE_Inr_iff wire_ok)
  show "observation_fits x \<Longrightarrow> station_observation_to_pb x = Inr m \<Longrightarrow> station_observation_from_pb m = Inr x"
    by (auto simp: station_observation_to_pb_def observation_fits_def station_observation_from_pb_def bindE_Inr_iff wire_ok)
  show "station_observation_to_pb x = Inr m \<Longrightarrow> observation_inited m"
    by (auto simp: station_observation_to_pb_def observation_fits_def observation_inited_def bindE_Inr_iff wire_ok)
qed

interpretation directory_wire: wire_format "\<lambda>x. Inr (directory_entry_to_pb x)" "\<lambda>m. Inr (directory_entry_from_pb m)"
    directory_inited "\<lambda>_. True"
  by unfold_locales (auto simp: directory_entry_to_pb_def directory_entry_from_pb_def directory_inited_def)

interpretation offer_wire: wire_format offer_to_pb offer_from_pb offer_inited offer_fits
proof
  fix x m
  show "offer_fits x \<Longrightarrow> \<exists>m. offer_to_pb x = Inr m"
    by (simp add: offer_to_pb_def offer_fits_def bindE_Inr_iff wire_ok)
  show "offer_fits x \<Longrightarrow> offer_to_pb x = Inr m \<Longrightarrow> offer_from_pb m = Inr x"
    by (auto simp: offer_to_pb_def offer_fits_def offer_from_pb_def bindE_Inr_iff wire_ok)
  show "offer_to_pb x = Inr m \<Longrightarrow> offer_inited m"
    by (auto simp: offer_to_pb_def offer_fits_def offer_inited_def bindE_Inr_iff wire_ok)
qed

interpretation transaction_wire: wire_format transaction_to_pb "\<lambda>m. Inr (transaction_from_pb m)" transaction_inited transaction_fits
proof
  fix x m
  show "transaction_fits x \<Longrightarrow> \<exists>m. transaction_to_pb x = Inr m"
    by (simp add: transaction_to_pb_def transaction_fits_def bindE_Inr_iff wire_ok)
  show "transaction_fits x \<Longrightarrow> transaction_to_pb x = Inr m \<Longrightarrow> Inr (transaction_from_pb m) = Inr x"
    by (auto simp: transaction_to_pb_def transaction_fits_def transaction_from_pb_def bindE_Inr_iff wire_ok)
  show "transaction_to_pb x = Inr m \<Longrightarrow> transaction_inited m"
    by (auto simp: transaction_to_pb_def transaction_inited_def bindE_Inr_iff wire_ok)
qed

interpretation advertisement_wire: wire_format advertisement_to_pb advertisement_from_pb advertisement_inited advertisement_fits
proof
  fix x m
  show "advertisement_fits x \<Longrightarrow> \<exists>m. advertisement_to_pb x = Inr m"
    by (simp add: advertisement_to_pb_def advertisement_fits_def bindE_Inr_iff wire_ok)
  show "advertisement_fits x \<Longrightarrow> advertisement_to_pb x = Inr m \<Longrightarrow> advertisement_from_pb m = Inr x"
    by (auto simp: advertisement_to_pb_def advertisement_fits_def advertisement_from_pb_def bindE_Inr_iff wire_ok)
  show "advertisement_to_pb x = Inr m \<Longrightarrow> advertisement_inited m"
    by (auto simp: advertisement_to_pb_def advertisement_fits_def advertisement_inited_def bindE_Inr_iff wire_ok)
qed

interpretation result_wire: wire_format "result_to_pb rid" result_from_pb result_inited result_fits for rid
proof
  fix x m
  show "result_fits x \<Longrightarrow> \<exists>m. result_to_pb rid x = Inr m"
    by (simp add: result_to_pb_def result_fits_def bindE_Inr_iff wire_ok)
  show "result_fits x \<Longrightarrow> result_to_pb rid x = Inr m \<Longrightarrow> result_from_pb m = Inr x"
    by (auto simp: result_to_pb_def result_fits_def result_from_pb_def bindE_Inr_iff wire_ok)
  show "result_to_pb rid x = Inr m \<Longrightarrow> result_inited m"
    by (auto simp: result_to_pb_def result_fits_def result_inited_def bindE_Inr_iff wire_ok)
qed

interpretation error_wire: wire_format "\<lambda>x. Inr (protocol_error_to_pb x)" protocol_error_from_pb protocol_error_inited "\<lambda>_. True"
  by unfold_locales (auto simp: protocol_error_to_pb_def protocol_error_from_pb_def protocol_error_inited_def wire_ok)

definition readiness_fits :: "readiness_ack \<Rightarrow> bool" where
  "readiness_fits x \<longleftrightarrow> u64_ok (ack_snapshot_sequence x)"

interpretation readiness_wire: wire_format readiness_to_pb "\<lambda>m. Inr (readiness_from_pb m)" readiness_inited readiness_fits
  by unfold_locales (auto simp: readiness_to_pb_def readiness_from_pb_def readiness_inited_def readiness_fits_def
      bindE_Inr_iff wire_ok)

interpretation outcome_wire: wire_format "\<lambda>x. Inr (player_outcome_to_pb x)" player_outcome_from_pb outcome_inited "\<lambda>_. True"
  by unfold_locales (auto simp: player_outcome_to_pb_def player_outcome_from_pb_def outcome_inited_def wire_ok)

interpretation nullable_outcome_wire: wire_format "\<lambda>x. Inr (nullable_outcome_to_pb x)" nullable_outcome_from_pb
    nullable_outcome_inited "\<lambda>_. True"
  by unfold_locales (auto simp: nullable_outcome_to_pb_def nullable_outcome_from_pb_def nullable_from_pb_def
      nullable_outcome_inited_def outcome_wire.decodes outcome_wire.complete split: option.splits)

text \<open>A whole snapshot: its lists travel message by message.\<close>

lemma snapshot_encodes: "snapshot_fits s \<Longrightarrow> \<exists>m. snapshot_to_pb s = Inr m"
  using rules_wire.encodes [of "snap_rules s"] observation_wire.encodes [of "me s"]
    offer_wire.list_encodes [of "offers s"] advertisement_wire.list_encodes [of "advertisements s"]
    transaction_wire.list_encodes [of "transactions s"] result_wire.list_encodes [of "request_results s" "run_id s"]
  by (auto simp: snapshot_to_pb_def snapshot_fits_def u64_ok_Inr)

lemma mapE_total_Inr: "mapE (\<lambda>x. Inr (f x)) xs = Inr ys \<longleftrightarrow> ys = map f xs"
  by (induction xs arbitrary: ys) (auto simp: bindE_Inr_iff)

lemma snapshot_decodes:
  assumes "snapshot_fits s" and "snapshot_to_pb s = Inr m"
  shows "snapshot_from_pb m = Inr s"
proof -
  note f = assms(1) [unfolded snapshot_fits_def]
  from assms(2) obtain rs x os ads ts results where
      parts: "rules_to_pb (snap_rules s) = Inr rs" "station_observation_to_pb (me s) = Inr x"
        "mapE offer_to_pb (offers s) = Inr os" "mapE advertisement_to_pb (advertisements s) = Inr ads"
        "mapE transaction_to_pb (transactions s) = Inr ts" "mapE (result_to_pb (run_id s)) (request_results s) = Inr results"
    and m: "m = \<lparr>zm_type = Some 1, zm_protocol_version = Some PROTOCOL_VERSION, zm_run_id = Some (run_id s),
        zm_snapshot_sequence = Some (word_of_int (snapshot_sequence s)),
        zm_world_version = Some (word_of_int (world_version s)), zm_tick = Some (word_of_int (snap_tick s)),
        zm_phase = Some (phase_int (snap_phase s)), zm_self_station_id = Some (self_station_id s),
        zm_rules = Some rs, zm_directory = Some (map directory_entry_to_pb (directory s)),
        zm_self = Some x, zm_offers = Some os, zm_advertisements = Some ads, zm_transactions = Some ts,
        zm_request_results = Some results, zm_outcome = Some (nullable_outcome_to_pb (outcome s))\<rparr>"
    by (auto simp: snapshot_to_pb_def bindE_Inr_iff u64_Inr)
  have "rules_from_pb rs = Inr (snap_rules s)" "station_observation_from_pb x = Inr (me s)"
    "mapE offer_from_pb os = Inr (offers s)" "mapE advertisement_from_pb ads = Inr (advertisements s)"
    "mapE result_from_pb results = Inr (request_results s)"
    using f parts rules_wire.decodes observation_wire.decodes offer_wire.list_decodes
      advertisement_wire.list_decodes result_wire.list_decodes by blast+
  moreover have "map transaction_from_pb ts = transactions s"
    using transaction_wire.list_decodes [OF _ parts(5)] f by (auto simp: mapE_total_Inr)
  moreover have "map directory_entry_from_pb (map directory_entry_to_pb (directory s)) = directory s"
    by (rule map_idI [THEN trans [OF map_map]]) (simp add: directory_entry_to_pb_def directory_entry_from_pb_def)
  ultimately show ?thesis
    using f nullable_outcome_wire.decodes [of "outcome s"]
    by (simp add: m snapshot_from_pb_def enum_value_inverse u64_uint del: map_map)
qed

lemma snapshot_inited:
  assumes "snapshot_to_pb s = Inr m"
  shows "state_inited m"
proof -
  have d: "list_all directory_inited (map directory_entry_to_pb xs)" for xs
    by (induction xs) (simp_all add: directory_entry_to_pb_def directory_inited_def)
  show ?thesis
    using assms d nullable_outcome_wire.complete [of "outcome s"]
    by (auto simp: snapshot_to_pb_def state_inited_def bindE_Inr_iff rules_wire.complete observation_wire.complete
        offer_wire.list_complete advertisement_wire.list_complete transaction_wire.list_complete result_wire.list_complete)
qed

interpretation snapshot_wire: wire_format snapshot_to_pb snapshot_from_pb state_inited snapshot_fits
  by unfold_locales (rule snapshot_encodes snapshot_decodes snapshot_inited; assumption)+

end
