(* ===== verification/Actions.thy ===== *)
theory Actions
  imports Types
begin

text \<open>\<open>bazaar_client/execution/actions.py\<close>: the actions a decision chooses, independent of the
  wire, and the dictionaries the log describes them with.\<close>

datatype action =
    AdvertiseAction "resource set" "resource set" int
  | OfferAction string Bundle Bundle int
  | AcceptAction string
  | WithdrawAction string
  | SyncAction

fun kind :: "action \<Rightarrow> string" where
  "kind (AdvertiseAction _ _ _) = ''advertise''"
| "kind (OfferAction _ _ _ _) = ''offer''"
| "kind (AcceptAction _) = ''accept''"
| "kind (WithdrawAction _) = ''withdraw''"
| "kind SyncAction = ''sync''"

fun is_gift :: "action \<Rightarrow> bool" where
  "is_gift (OfferAction _ _ receive' _) = is_zero receive'"
| "is_gift _ = False"

fun is_offer_action :: "action \<Rightarrow> bool" where
  "is_offer_action (OfferAction _ _ _ _) = True"
| "is_offer_action _ = False"

definition trading_action :: "action \<Rightarrow> bool" where
  "trading_action a \<longleftrightarrow> a \<noteq> SyncAction"

text \<open>\<open>describe()\<close>: the JSON-ready dictionary of an action.\<close>

datatype json_value = JStr string | JInt int | JBool bool | JStrs "string list" | JBundle "(string \<times> int) list"

definition as_dict :: "Bundle \<Rightarrow> (string \<times> int) list" where
  "as_dict b = [(''water'', int (get b WATER)), (''food'', int (get b FOOD)),
                (''components'', int (get b COMPONENTS))]"

text \<open>\<open>sorted(r.name for r in s)\<close>: alphabetical order of the names.\<close>

definition sorted_names :: "resource set \<Rightarrow> string list" where
  "sorted_names s = map resource_name (filter (\<lambda>r. r \<in> s) [COMPONENTS, FOOD, WATER])"

fun describe :: "action \<Rightarrow> (string \<times> json_value) list" where
  "describe (AdvertiseAction sell seek expires) =
     [(''selling'', JStrs (sorted_names sell)), (''seeking'', JStrs (sorted_names seek)),
      (''expires_tick'', JInt expires)]"
| "describe (OfferAction recipient g r expires) =
     [(''recipient_id'', JStr recipient), (''give'', JBundle (as_dict g)),
      (''receive'', JBundle (as_dict r)), (''expires_tick'', JInt expires),
      (''is_gift'', JBool (is_zero r))]"
| "describe (AcceptAction oid) = [(''offer_id'', JStr oid)]"
| "describe (WithdrawAction oid) = [(''object_id'', JStr oid)]"
| "describe SyncAction = []"

lemma as_dict_inj: "as_dict a = as_dict b \<Longrightarrow> a = b"
  by (auto simp: as_dict_def bundle_eq_iff all_resource)

lemma sorted_names_inj:
  assumes "sorted_names a = sorted_names b"
  shows "a = b"
proof -
  have names: "set (sorted_names s) = resource_name ` s" for s
  proof -
    have "set [COMPONENTS, FOOD, WATER] = UNIV" by (simp add: UNIV_resource insert_commute)
    then have "set (filter (\<lambda>r. r \<in> s) [COMPONENTS, FOOD, WATER]) = s"
      by (simp only: set_filter) simp
    then show ?thesis by (simp only: sorted_names_def set_map)
  qed
  have "inj resource_name"
  proof (rule injI)
    fix x y show "resource_name x = resource_name y \<Longrightarrow> x = y" by (cases x; cases y) simp_all
  qed
  moreover from assms have "resource_name ` a = resource_name ` b" by (simp flip: names)
  ultimately show ?thesis by (simp add: inj_image_eq_iff)
qed

end
