(* ===== verification/Wire.thy ===== *)
theory Wire
  imports Mappers Actions Demo
begin

text \<open>
  Commands and events as bytes: the \<open>build_*\<close> functions of \<open>domain/mappers.py\<close>,
  \<open>Executor.build\<close>, \<open>codec/wire.py\<close> on the client's side and \<open>bazaar_sim/codec.py\<close> on the
  server's. Protobuf's own \<open>SerializeToString\<close> and \<open>ParseFromString\<close> are the parameters
  \<open>ser\<close> and \<open>parse\<close>, the hash of a command body the parameter \<open>digest\<close>.
\<close>

type_synonym bytes = "8 word list"

subsection \<open>Building commands\<close>

text \<open>\<open>msg.arm.type = ...; msg.arm.protocol_version = ...; msg.arm.run_id; msg.arm.request_id; body\<close>.\<close>

definition command_head :: "string \<Rightarrow> string \<Rightarrow> 'b \<Rightarrow> 'b command_msg" where
  "command_head rid req body = \<lparr>cm_type = Some 1, cm_protocol_version = Some PROTOCOL_VERSION,
     cm_run_id = Some rid, cm_request_id = Some req, cm_body = Some body\<rparr>"

definition build_advertise :: "string \<Rightarrow> string \<Rightarrow> resource list \<Rightarrow> resource list \<Rightarrow> int \<Rightarrow> client_message result" where
  "build_advertise rid req sell seek expires =
     bindE (u64 expires) (\<lambda>x.
     Inr (AdvertiseArm (command_head rid req
       \<lparr>ab_selling = Some (resource_list_to_pb sell), ab_seeking = Some (resource_list_to_pb seek),
        ab_expires_tick = Some x\<rparr>)))"

definition build_offer :: "string \<Rightarrow> string \<Rightarrow> string \<Rightarrow> Bundle \<Rightarrow> Bundle \<Rightarrow> int \<Rightarrow> client_message result" where
  "build_offer rid req recipient g w expires =
     bindE (u64 expires) (\<lambda>x.
     bindE (bundle_to_pb g) (\<lambda>gm.
     bindE (bundle_to_pb w) (\<lambda>wm.
     Inr (OfferArm (command_head rid req
       \<lparr>ob_recipient_id = Some recipient, ob_give = Some gm, ob_receive = Some wm,
        ob_expires_tick = Some x\<rparr>)))))"

definition build_accept :: "string \<Rightarrow> string \<Rightarrow> string \<Rightarrow> client_message" where
  "build_accept rid req oid = AcceptArm (command_head rid req \<lparr>cb_offer_id = Some oid\<rparr>)"

definition build_withdraw :: "string \<Rightarrow> string \<Rightarrow> string \<Rightarrow> client_message" where
  "build_withdraw rid req oid = WithdrawArm (command_head rid req \<lparr>wb_object_id = Some oid\<rparr>)"

definition build_sync :: "string \<Rightarrow> client_message" where
  "build_sync rid = SyncArm \<lparr>nm_type = Some 1, nm_protocol_version = Some PROTOCOL_VERSION, nm_run_id = Some rid\<rparr>"

definition build_ready :: "string \<Rightarrow> bool \<Rightarrow> int \<Rightarrow> client_message result" where
  "build_ready rid rdy sq =
     bindE (u64 sq) (\<lambda>x.
     Inr (ReadyArm \<lparr>gm_type = Some 1, gm_protocol_version = Some PROTOCOL_VERSION, gm_run_id = Some rid,
       gm_ready = Some rdy, gm_snapshot_sequence = Some x\<rparr>))"

text \<open>\<open>Executor.build\<close>: the message of an action; a sync is not a command.\<close>

fun build_action :: "action \<Rightarrow> string \<Rightarrow> string \<Rightarrow> client_message result" where
  "build_action (AdvertiseAction sell seek expires) rid req =
     build_advertise rid req (in_order sell) (in_order seek) expires"
| "build_action (OfferAction recipient g w expires) rid req = build_offer rid req recipient g w expires"
| "build_action (AcceptAction oid) rid req = Inr (build_accept rid req oid)"
| "build_action (WithdrawAction oid) rid req = Inr (build_withdraw rid req oid)"
| "build_action SyncAction rid req = Inl TypeError"

subsection \<open>The client's codec\<close>

definition encode_client_message :: "(client_message \<Rightarrow> bytes) \<Rightarrow> client_message \<Rightarrow> int option \<Rightarrow> bytes result" where
  "encode_client_message ser m max_bytes =
     (if \<not> client_inited m then Inl UninitializedMessageError
      else if m = NoClientArm then Inl UninitializedMessageError
      else let payload = ser m in
        case max_bytes of
          None \<Rightarrow> Inr payload
        | Some n \<Rightarrow> if int (length payload) > n then Inl MessageTooLargeError else Inr payload)"

fun dispatch_server_message :: "server_message \<Rightarrow> server_event result" where
  "dispatch_server_message (StateArm m) = bindE (snapshot_from_pb m) (\<lambda>s. Inr (SnapshotEvent s))"
| "dispatch_server_message (ResultArm m) = bindE (result_from_pb m) (\<lambda>r. Inr (ResultEvent r))"
| "dispatch_server_message (ProtocolErrorArm m) = bindE (protocol_error_from_pb m) (\<lambda>e. Inr (ProtocolErrorEvent e))"
| "dispatch_server_message (ReadinessArm m) = Inr (ReadinessEvent (readiness_from_pb m))"
| "dispatch_server_message NoServerArm = Inl UnknownServerMessageError"

definition decode_server_message :: "(bytes \<Rightarrow> server_message result) \<Rightarrow> bytes \<Rightarrow> server_event result" where
  "decode_server_message parse payload = bindE (parse payload) dispatch_server_message"

subsection \<open>The simulator's codec\<close>

datatype bad_message = BadMessage (bad_request_id: "string option")

record client_command =
  cc_kind :: string
  cc_protocol_version :: string
  cc_run_id :: string
  cc_request_id :: "string option"
  cc_action :: "action option"
  cc_ready :: "bool option"
  cc_snapshot_sequence :: "int option"
  cc_fingerprint :: string

text \<open>The nested \<open>body.body\<close> of a command, as the hash sees it.\<close>

datatype client_body =
    AdvertiseBody advertise_body
  | OfferBody offer_body
  | AcceptBody accept_body
  | WithdrawBody withdraw_body

definition advertise_body_new :: advertise_body where
  "advertise_body_new = \<lparr>ab_selling = None, ab_seeking = None, ab_expires_tick = None\<rparr>"

definition offer_body_new :: offer_body where
  "offer_body_new = \<lparr>ob_recipient_id = None, ob_give = None, ob_receive = None, ob_expires_tick = None\<rparr>"

definition resources_or_bad :: "list_resource_msg \<Rightarrow> bad_message + resource set" where
  "resources_or_bad items = (case resource_list_from_pb items of Inl _ \<Rightarrow> Inl (BadMessage None) | Inr s \<Rightarrow> Inr s)"

definition plain_command :: "string \<Rightarrow> string option \<Rightarrow> string option \<Rightarrow> client_command" where
  "plain_command knd version rid = \<lparr>cc_kind = knd, cc_protocol_version = field [] version,
     cc_run_id = field [] rid, cc_request_id = None, cc_action = None, cc_ready = None,
     cc_snapshot_sequence = None, cc_fingerprint = []\<rparr>"

definition action_command :: "string \<Rightarrow> 'b command_msg \<Rightarrow> action \<Rightarrow> string \<Rightarrow> client_command" where
  "action_command knd m a fp = (plain_command knd (cm_protocol_version m) (cm_run_id m))
     \<lparr>cc_request_id := Some (field [] (cm_request_id m)), cc_action := Some a, cc_fingerprint := fp\<rparr>"

text \<open>The request id reported with a bad message: only the four command arms have one.\<close>

fun arm_request_id :: "client_message \<Rightarrow> string option" where
  "arm_request_id (AdvertiseArm m) = Some (field [] (cm_request_id m))"
| "arm_request_id (OfferArm m) = Some (field [] (cm_request_id m))"
| "arm_request_id (AcceptArm m) = Some (field [] (cm_request_id m))"
| "arm_request_id (WithdrawArm m) = Some (field [] (cm_request_id m))"
| "arm_request_id _ = None"

fun client_command_of :: "(client_body \<Rightarrow> string) \<Rightarrow> client_message \<Rightarrow> bad_message + client_command" where
  "client_command_of digest (ReadyArm m) =
     Inr ((plain_command ''ready'' (gm_protocol_version m) (gm_run_id m))
       \<lparr>cc_ready := Some (field False (gm_ready m)),
        cc_snapshot_sequence := Some (word_field (gm_snapshot_sequence m))\<rparr>)"
| "client_command_of digest (SyncArm m) = Inr (plain_command ''sync'' (nm_protocol_version m) (nm_run_id m))"
| "client_command_of digest (AdvertiseArm m) =
     (let b = field advertise_body_new (cm_body m) in
      case resources_or_bad (field [] (ab_selling b)) of
        Inl e \<Rightarrow> Inl e
      | Inr sell \<Rightarrow>
          (case resources_or_bad (field [] (ab_seeking b)) of
             Inl e \<Rightarrow> Inl e
           | Inr seek \<Rightarrow> Inr (action_command ''advertise'' m
               (AdvertiseAction sell seek (word_field (ab_expires_tick b))) (digest (AdvertiseBody b)))))"
| "client_command_of digest (OfferArm m) =
     (let b = field offer_body_new (cm_body m) in
      Inr (action_command ''offer'' m
        (OfferAction (field [] (ob_recipient_id b)) (bundle_from_pb (field bundle_msg_new (ob_give b)))
           (bundle_from_pb (field bundle_msg_new (ob_receive b))) (word_field (ob_expires_tick b)))
        (digest (OfferBody b))))"
| "client_command_of digest (AcceptArm m) =
     (let b = field \<lparr>cb_offer_id = None\<rparr> (cm_body m) in
      Inr (action_command ''accept'' m (AcceptAction (field [] (cb_offer_id b))) (digest (AcceptBody b))))"
| "client_command_of digest (WithdrawArm m) =
     (let b = field \<lparr>wb_object_id = None\<rparr> (cm_body m) in
      Inr (action_command ''withdraw'' m (WithdrawAction (field [] (wb_object_id b))) (digest (WithdrawBody b))))"
| "client_command_of digest NoClientArm = Inl (BadMessage None)"

definition decode_client_message ::
  "(bytes \<Rightarrow> client_message option) \<Rightarrow> (client_body \<Rightarrow> string) \<Rightarrow> bytes \<Rightarrow> bad_message + client_command" where
  "decode_client_message parse digest payload =
     (case parse payload of
        None \<Rightarrow> Inl (BadMessage None)
      | Some m \<Rightarrow>
          if m = NoClientArm then Inl (BadMessage None)
          else if \<not> client_inited m then Inl (BadMessage (arm_request_id m))
          else client_command_of digest m)"

definition encode_state :: "(server_message \<Rightarrow> bytes) \<Rightarrow> snapshot \<Rightarrow> bytes result" where
  "encode_state ser s = bindE (snapshot_to_pb s) (\<lambda>m. Inr (ser (StateArm m)))"

definition encode_result :: "(server_message \<Rightarrow> bytes) \<Rightarrow> command_result \<Rightarrow> string \<Rightarrow> bytes result" where
  "encode_result ser r rid = bindE (result_to_pb rid r) (\<lambda>m. Inr (ser (ResultArm m)))"

definition encode_readiness :: "(server_message \<Rightarrow> bytes) \<Rightarrow> readiness_ack \<Rightarrow> bytes result" where
  "encode_readiness ser a = bindE (readiness_to_pb a) (\<lambda>m. Inr (ser (ReadinessArm m)))"

definition encode_protocol_error ::
  "(server_message \<Rightarrow> bytes) \<Rightarrow> control_code \<Rightarrow> string option \<Rightarrow> string option \<Rightarrow> bool \<Rightarrow> bytes" where
  "encode_protocol_error ser c rid req close =
     ser (ProtocolErrorArm (protocol_error_to_pb
       \<lparr>err_run_id = rid, err_request_id = req, err_code = c, close_session = close\<rparr>))"

subsection \<open>Commands arrive\<close>

text \<open>What fits the wire, and what the server should see of an action.\<close>

fun action_fits :: "action \<Rightarrow> bool" where
  "action_fits (AdvertiseAction sell seek expires) = u64_ok expires"
| "action_fits (OfferAction recipient g w expires) \<longleftrightarrow> u64_ok expires \<and> bundle_fits g \<and> bundle_fits w"
| "action_fits (AcceptAction oid) = True"
| "action_fits (WithdrawAction oid) = True"
| "action_fits SyncAction = False"

definition delivered :: "action \<Rightarrow> string \<Rightarrow> string \<Rightarrow> client_command \<Rightarrow> bool" where
  "delivered a rid req c \<longleftrightarrow> cc_kind c = kind a \<and> cc_protocol_version c = PROTOCOL_VERSION
     \<and> cc_run_id c = rid \<and> cc_request_id c = Some req \<and> cc_action c = Some a"

lemma build_action_total: "action_fits a \<Longrightarrow> \<exists>m. build_action a rid req = Inr m"
  by (cases a) (auto simp: build_advertise_def build_offer_def bindE_Inr_iff wire_ok)

lemma build_action_inited: "build_action a rid req = Inr m \<Longrightarrow> client_inited m \<and> m \<noteq> NoClientArm"
  by (cases a) (auto simp: build_advertise_def build_offer_def build_accept_def build_withdraw_def
      command_head_def command_inited_def advertise_body_inited_def offer_body_inited_def bindE_Inr_iff wire_ok)

lemma build_action_delivered:
  "build_action a rid req = Inr m \<Longrightarrow> \<exists>c. client_command_of digest m = Inr c \<and> delivered a rid req c"
  by (cases a) (auto simp: build_advertise_def build_offer_def build_accept_def build_withdraw_def
      command_head_def delivered_def action_command_def plain_command_def resources_or_bad_def
      resource_list_read bindE_Inr_iff wire_ok)

lemma encode_Inr_iff: "encode_client_message ser m mb = Inr p \<longleftrightarrow> client_inited m \<and> m \<noteq> NoClientArm \<and> p = ser m
     \<and> (\<forall>n. mb = Some n \<longrightarrow> int (length p) \<le> n)"
  by (auto simp: encode_client_message_def Let_def split: option.splits if_splits)


text \<open>
  C17: a command arrives as it was decided. Every action that fits the wire is built into a complete
  message, passes the size check when it is small enough, and the server decodes it to the same
  action of the same kind, under the same run and request id and the current protocol version.
  Hypothesis on protobuf: parsing the bytes of that message gives it back.
\<close>

theorem commands_arrive:
  assumes "action_fits a"
    and "\<forall>m. build_action a rid req = Inr m \<longrightarrow> parse (ser m) = Some m \<and> int (length (ser m)) \<le> n"
  shows "\<exists>m p c. build_action a rid req = Inr m \<and> encode_client_message ser m (Some n) = Inr p
    \<and> decode_client_message parse digest p = Inr c \<and> delivered a rid req c"
proof -
  obtain m where m: "build_action a rid req = Inr m" using build_action_total [OF assms(1)] by blast
  note i = build_action_inited [OF m]
  obtain c where c: "client_command_of digest m = Inr c" "delivered a rid req c"
    using build_action_delivered [OF m] by blast
  have "encode_client_message ser m (Some n) = Inr (ser m)"
    using assms(2) m i by (simp add: encode_client_message_def)
  moreover have "decode_client_message parse digest (ser m) = Inr c"
    using assms(2) m i c(1) by (simp add: decode_client_message_def)
  ultimately show ?thesis using m c(2) by blast
qed

text \<open>A format for the one message of an example: its bytes, and what they parse to.\<close>

definition demo_offer_message :: client_message where
  "demo_offer_message = OfferArm (command_head ''run-1'' ''req-1''
     \<lparr>ob_recipient_id = Some ''P02'', ob_give = Some (bundle_msg_of (Bundle 4 0 0)),
      ob_receive = Some (bundle_msg_of (Bundle 0 3 0)), ob_expires_tick = Some 14\<rparr>)"

definition demo_ser :: "client_message \<Rightarrow> bytes" where
  "demo_ser m = (if m = demo_offer_message then [8, 1] else [])"

definition demo_parse :: "bytes \<Rightarrow> client_message option" where
  "demo_parse p = (if p = [8, 1] then Some demo_offer_message else if p = [] then Some NoClientArm else None)"

lemma demo_offer_built:
  "build_action (OfferAction ''P02'' (Bundle 4 0 0) (Bundle 0 3 0) 14) ''run-1'' ''req-1'' = Inr demo_offer_message"
  by (simp add: build_offer_def demo_offer_message_def u64_def bindE_Inr_iff bundle_Inr bundle_fits_def
      resources_def u64_ok_def)

theorem commands_arrive_witness:
  "\<exists>c. decode_client_message demo_parse (\<lambda>_. ''h'') (demo_ser demo_offer_message) = Inr c
     \<and> cc_action c = Some (OfferAction ''P02'' (Bundle 4 0 0) (Bundle 0 3 0) 14) \<and> cc_request_id c = Some ''req-1''"
proof -
  let ?a = "OfferAction ''P02'' (Bundle 4 0 0) (Bundle 0 3 0) 14"
  have "action_fits ?a" by (simp add: bundle_fits_def resources_def u64_ok_def)
  moreover have "\<forall>m. build_action ?a ''run-1'' ''req-1'' = Inr m
      \<longrightarrow> demo_parse (demo_ser m) = Some m \<and> int (length (demo_ser m)) \<le> 16384"
    by (auto simp only: demo_offer_built sum.inject) (simp_all add: demo_ser_def demo_parse_def)
  ultimately obtain m p c where "build_action ?a ''run-1'' ''req-1'' = Inr m"
      "encode_client_message demo_ser m (Some 16384) = Inr p"
      "decode_client_message demo_parse (\<lambda>_. ''h'') p = Inr c" "delivered ?a ''run-1'' ''req-1'' c"
    using commands_arrive [of ?a "''run-1''" "''req-1''" demo_parse demo_ser 16384 "\<lambda>_. ''h''"] by blast
  then show ?thesis unfolding demo_offer_built by (auto simp: encode_Inr_iff delivered_def)
qed

text \<open>
  C16: a snapshot arrives as the server took it. Every snapshot whose integers fit 64 bits and whose
  resource order is sorted is encoded, and the client decodes exactly the same snapshot.
  Hypothesis on protobuf: parsing the bytes of that state gives it back.
\<close>

theorem snapshots_arrive:
  assumes "snapshot_fits s"
    and "\<forall>m. snapshot_to_pb s = Inr m \<longrightarrow> parse (ser (StateArm m)) = Inr (StateArm m)"
  shows "\<exists>p. encode_state ser s = Inr p \<and> decode_server_message parse p = Inr (SnapshotEvent s)"
proof -
  obtain m where m: "snapshot_to_pb s = Inr m" "snapshot_from_pb m = Inr s"
    using snapshot_wire.roundtrip [OF assms(1)] by blast
  with assms(2) show ?thesis by (simp add: encode_state_def decode_server_message_def)
qed

theorem snapshots_arrive_witness:
  "\<exists>p. encode_state (\<lambda>m. [1]) demo_tick = Inr p
     \<and> decode_server_message (\<lambda>_. bindE (snapshot_to_pb demo_tick) (\<lambda>m. Inr (StateArm m))) p
         = Inr (SnapshotEvent demo_tick)"
  by (rule snapshots_arrive)
     (auto simp: snapshot_fits_def rules_fit_def observation_fits_def offer_fits_def advertisement_fits_def u64_ok_def
       bundle_fits_def resources_def zero_bundle_def demo_tick_def demo_defs)

text \<open>
  what a decoded result can be. A result decodes only when each nullable wrapper selects exactly
  one arm (and the null arm says true) and a code that is present is one of the enumeration; a
  missing code is read as OK.
\<close>

definition one_arm :: "'a nullable option \<Rightarrow> bool" where
  "one_arm x \<longleftrightarrow> x = Some (NullArm True) \<or> (\<exists>v. x = Some (ValueArm v))"

lemma nullable_from_one_arm: "nullable_from_pb rd (field NoArm x) = Inr v \<Longrightarrow> one_arm x"
  by (cases x) (auto simp: nullable_from_pb_def one_arm_def split: nullable.splits if_splits)

lemma enum_value_Inr: "enum_value num xs n = Inr x \<Longrightarrow> num x = n \<and> x \<in> set xs"
  by (auto simp: enum_value_def find_Some_iff split: option.splits)

theorem decoded_results_well_formed:
  assumes "result_from_pb m = Inr r"
  shows "one_arm (xm_object_id m) \<and> one_arm (xm_transaction_id m) \<and> one_arm (xm_retry_after_tick m)
    \<and> (case xm_code m of Some n \<Rightarrow> result_code_int (code r) = n | None \<Rightarrow> code r = RES_OK)"
proof -
  have ok1: "result_code_int c = 1 \<Longrightarrow> c = RES_OK" for c by (cases c) simp_all
  show ?thesis
    using assms
    by (auto simp: result_from_pb_def bindE_Inr_iff nullable_str_from_pb_def nullable_uint_from_pb_def
        split: option.splits dest!: enum_value_Inr dest: nullable_from_one_arm intro: ok1)
qed

definition codeless_result :: result_msg where
  "codeless_result = \<lparr>xm_type = Some 1, xm_protocol_version = Some PROTOCOL_VERSION, xm_run_id = Some ''run-1'',
     xm_request_id = Some ''req-1'', xm_ok = Some False, xm_code = None, xm_processed_tick = Some 3,
     xm_processed_version = Some 9, xm_object_id = Some (NullArm True), xm_transaction_id = Some (NullArm True),
     xm_retry_after_tick = Some (ValueArm 4)\<rparr>"

theorem decoded_results_well_formed_witness:
  "\<exists>r. result_from_pb codeless_result = Inr r \<and> \<not> ok r \<and> code r = RES_OK"
proof -
  have "case result_from_pb codeless_result of Inr r \<Rightarrow> \<not> ok r | Inl _ \<Rightarrow> False" by code_simp
  then obtain r where r: "result_from_pb codeless_result = Inr r" "\<not> ok r" by (auto split: sum.splits)
  from decoded_results_well_formed [OF r(1)] have "code r = RES_OK" by (simp add: codeless_result_def)
  with r show ?thesis by blast
qed

end
