(* ===== verification/Session.thy ===== *)
theory Session
  imports Lifecycle Requests Throttle World_Model Wire
begin

text \<open>
  \<open>bazaar_client/app.py\<close> with the parts of \<open>connection/ws_client.py\<close> it drives: one session,
  its receive task, its pump task and the callers that await an answer. A coroutine is cut at
  its awaits: every definition is what one task does between two of them, and \<open>session_step\<close> lets
  the event loop take them in any order. A future is an entry of \<open>ss_futures\<close>, addressed by its
  position; its \<open>purpose\<close> records what it was created for and is read by no operation.
  The socket library is a parameter: \<open>up\<close> says whether a write succeeds. Log output is left out.
\<close>

definition SNAPSHOT_HISTORY :: nat where
  "SNAPSHOT_HISTORY = 128"

datatype session_error =
    SessionClosedError string
  | CommandBlockedError string
  | SessionAbortedError string "control_code option"
  | TimeoutError
  | NotConnectedError
  | ConnectionLost
  | Raised py_error

record session_outcome =
  so_request_id :: string
  so_result :: "command_result option"
  so_error :: "protocol_error_event option"

definition so_ok :: "session_outcome \<Rightarrow> bool" where
  "so_ok x = (case so_result x of None \<Rightarrow> False | Some r \<Rightarrow> ok r)"

definition so_code_name :: "session_outcome \<Rightarrow> string" where
  "so_code_name x = (case so_result x of
     Some r \<Rightarrow> result_code_name (code r)
   | None \<Rightarrow> (case so_error x of Some ev \<Rightarrow> control_code_name (err_code ev) | None \<Rightarrow> ''NO_ANSWER''))"

datatype answer =
    SnapshotAnswer snapshot
  | OutcomeAnswer session_outcome
  | ReadinessAnswer readiness_ack

datatype future = Pending | Resolved answer | Failed session_error | Cancelled

datatype purpose = ForSnapshot int | ForCommand string | ForReadiness

datatype queue_item = ClosedSentinel | Undecodable py_error | Received server_event

record session =
  ss_connected :: bool
  ss_receiving :: bool
  ss_pumping :: bool
  ss_frames :: "bytes list"
  ss_lifecycle :: lifecycle
  ss_tracker :: pending_tracker
  ss_throttle :: throttle
  ss_ids :: "id_generator option"
  ss_queue :: "queue_item list"
  ss_latest :: "snapshot option"
  ss_by_sequence :: "(int, snapshot) pydict"
  ss_received_at :: "(int, int) pydict"
  ss_snapshot_waiters :: "(int \<times> nat) list"
  ss_command_waiters :: "(string, nat) pydict"
  ss_readiness :: "readiness_ack option"
  ss_readiness_waiter :: "nat option"
  ss_closed :: bool
  ss_abort_reason :: "string option"
  ss_abort_code :: "control_code option"
  ss_reconnect_wanted :: bool
  ss_futures :: "(purpose \<times> future) list"

definition session_init :: "throttle option \<Rightarrow> session" where
  "session_init th = \<lparr>ss_connected = False, ss_receiving = False, ss_pumping = False, ss_frames = [],
     ss_lifecycle = lifecycle_init, ss_tracker = pending_init,
     ss_throttle = (case th of None \<Rightarrow> throttle_init 1 | Some t \<Rightarrow> t), ss_ids = None, ss_queue = [],
     ss_latest = None, ss_by_sequence = [], ss_received_at = [], ss_snapshot_waiters = [],
     ss_command_waiters = [], ss_readiness = None, ss_readiness_waiter = None, ss_closed = False,
     ss_abort_reason = None, ss_abort_code = None, ss_reconnect_wanted = False, ss_futures = []\<rparr>"

definition session_run_id :: "session \<Rightarrow> session_error + string" where
  "session_run_id ss = (case lc_run_id (ss_lifecycle ss) of
     None \<Rightarrow> Inl (SessionClosedError ''run id is unknown until the first state arrives'')
   | Some r \<Rightarrow> Inr r)"

definition session_request_ids :: "session \<Rightarrow> session_error + id_generator" where
  "session_request_ids ss = (case ss_ids ss of
     None \<Rightarrow> Inl (SessionClosedError ''request ids need the station id from the first state'')
   | Some g \<Rightarrow> Inr g)"

subsection \<open>Futures\<close>

definition future_done :: "session \<Rightarrow> nat \<Rightarrow> bool" where
  "future_done ss n = (snd (ss_futures ss ! n) \<noteq> Pending)"

definition create_future :: "purpose \<Rightarrow> session \<Rightarrow> nat \<times> session" where
  "create_future p ss = (length (ss_futures ss), ss\<lparr>ss_futures := ss_futures ss @ [(p, Pending)]\<rparr>)"

text \<open>\<open>if not future.done(): future.set_result(...)\<close>, and the same with \<open>set_exception\<close>.\<close>

definition settle_future :: "future \<Rightarrow> nat \<Rightarrow> session \<Rightarrow> session" where
  "settle_future v n ss = (if future_done ss n then ss
     else ss\<lparr>ss_futures := (ss_futures ss)[n := (fst (ss_futures ss ! n), v)]\<rparr>)"

text \<open>\<open>await asyncio.wait_for(future, timeout)\<close>, once it is over: a future still pending then has
  timed out and is cancelled.\<close>

definition awaited :: "nat \<Rightarrow> session \<Rightarrow> (session_error + answer) \<times> session" where
  "awaited n ss = (case snd (ss_futures ss ! n) of
     Resolved a \<Rightarrow> (Inr a, ss)
   | Failed e \<Rightarrow> (Inl e, ss)
   | _ \<Rightarrow> (Inl TimeoutError, settle_future Cancelled n ss))"

definition fail_all_waiters :: "session_error \<Rightarrow> session \<Rightarrow> session" where
  "fail_all_waiters e ss =
     (let ss = fold (\<lambda>(_, n). settle_future (Failed e) n) (ss_snapshot_waiters ss) ss;
          ss = ss\<lparr>ss_snapshot_waiters := []\<rparr>;
          ss = fold (settle_future (Failed e)) (dict_values (ss_command_waiters ss)) ss;
          ss = ss\<lparr>ss_command_waiters := []\<rparr>
      in case ss_readiness_waiter ss of None \<Rightarrow> ss | Some n \<Rightarrow> settle_future (Failed e) n ss)"

subsection \<open>The connection\<close>

definition send_payload :: "bool \<Rightarrow> bytes \<Rightarrow> session \<Rightarrow> (session_error + bytes) \<times> session" where
  "send_payload up payload ss =
     (if \<not> ss_connected ss then (Inl NotConnectedError, ss)
      else if \<not> up then (Inl ConnectionLost, ss)
      else (Inr payload, ss\<lparr>ss_frames := ss_frames ss @ [payload]\<rparr>))"

definition send_message :: "(client_message \<Rightarrow> bytes) \<Rightarrow> bool \<Rightarrow> client_message \<Rightarrow> session \<Rightarrow>
    (session_error + bytes) \<times> session" where
  "send_message ser up m ss = (case encode_client_message ser m None of
     Inl e \<Rightarrow> (Inl (Raised e), ss)
   | Inr payload \<Rightarrow> send_payload up payload ss)"

definition connection_close :: "session \<Rightarrow> session" where
  "connection_close ss = ss\<lparr>ss_connected := False\<rparr>"

datatype frame = TextFrame string | BinaryFrame bytes

definition receive_frame :: "(bytes \<Rightarrow> server_message result) \<Rightarrow> frame \<Rightarrow> session \<Rightarrow> session" where
  "receive_frame parse raw ss = (case raw of
     TextFrame _ \<Rightarrow> ss
   | BinaryFrame payload \<Rightarrow> ss\<lparr>ss_queue := ss_queue ss @
       [case decode_server_message parse payload of Inl e \<Rightarrow> Undecodable e | Inr ev \<Rightarrow> Received ev]\<rparr>)"

definition receive_end :: "session \<Rightarrow> session" where
  "receive_end ss = ss\<lparr>ss_receiving := False, ss_queue := ss_queue ss @ [ClosedSentinel]\<rparr>"

definition session_start :: "session_error option \<Rightarrow> session \<Rightarrow> (session_error + unit) \<times> session" where
  "session_start refusal ss =
     (let ss = ss\<lparr>ss_readiness := None, ss_by_sequence := [], ss_received_at := []\<rparr>
      in case refusal of
        Some e \<Rightarrow> (Inl e, ss)
      | None \<Rightarrow> (Inr (), ss\<lparr>ss_connected := True, ss_lifecycle := on_connected (ss_lifecycle ss),
                            ss_receiving := True, ss_pumping := True\<rparr>))"

definition session_stop :: "session \<Rightarrow> session" where
  "session_stop ss = fail_all_waiters (SessionClosedError ''session stopped'')
     (connection_close (ss\<lparr>ss_pumping := False, ss_receiving := False\<rparr>))"

subsection \<open>Event routing\<close>

definition session_on_result :: "command_result \<Rightarrow> session \<Rightarrow> session" where
  "session_on_result r ss =
     (let ss = ss\<lparr>ss_tracker := snd (pending_resolve (request_id r) (ss_tracker ss))\<rparr>;
          ss = (if code r = RATE_LIMITED
                then ss\<lparr>ss_throttle := throttle_block_until (retry_after_tick r) (ss_throttle ss)\<rparr> else ss)
      in case dict_get (ss_command_waiters ss) (request_id r) of
           None \<Rightarrow> ss
         | Some n \<Rightarrow> settle_future
             (Resolved (OutcomeAnswer \<lparr>so_request_id = request_id r, so_result = Some r, so_error = None\<rparr>)) n
             (ss\<lparr>ss_command_waiters := dict_pop (request_id r) (ss_command_waiters ss)\<rparr>))"

definition session_on_protocol_error :: "protocol_error_event \<Rightarrow> session \<Rightarrow> session" where
  "session_on_protocol_error ev ss = (case err_request_id ev of
     None \<Rightarrow> ss
   | Some rid \<Rightarrow>
       let ss = ss\<lparr>ss_tracker := snd (pending_resolve rid (ss_tracker ss))\<rparr>
       in case dict_get (ss_command_waiters ss) rid of
            None \<Rightarrow> ss
          | Some n \<Rightarrow> settle_future
              (Resolved (OutcomeAnswer \<lparr>so_request_id = rid, so_result = None, so_error = Some ev\<rparr>)) n
              (ss\<lparr>ss_command_waiters := dict_pop rid (ss_command_waiters ss)\<rparr>))"

definition resolve_readiness :: "readiness_ack \<Rightarrow> session \<Rightarrow> session" where
  "resolve_readiness ack ss =
     (let ss = ss\<lparr>ss_readiness := Some ack\<rparr>
      in case ss_readiness_waiter ss of
           None \<Rightarrow> ss
         | Some n \<Rightarrow> settle_future (Resolved (ReadinessAnswer ack)) n ss)"

text \<open>\<open>sorted(self._by_sequence)[:-SNAPSHOT_HISTORY]\<close>, when more are held.\<close>

definition trim_history :: "session \<Rightarrow> session" where
  "trim_history ss =
     (if length (ss_by_sequence ss) > SNAPSHOT_HISTORY
      then fold (\<lambda>stale ss. ss\<lparr>ss_by_sequence := dict_pop stale (ss_by_sequence ss),
                               ss_received_at := dict_pop stale (ss_received_at ss)\<rparr>)
             (take (length (ss_by_sequence ss) - SNAPSHOT_HISTORY) (sort (dict_keys (ss_by_sequence ss)))) ss
      else ss)"

fun serve_waiters :: "snapshot \<Rightarrow> (int \<times> nat) list \<Rightarrow> session \<Rightarrow> (int \<times> nat) list \<times> session" where
  "serve_waiters s [] ss = ([], ss)"
| "serve_waiters s ((target, n) # ws) ss =
     (if target \<le> snapshot_sequence s \<and> \<not> future_done ss n
      then serve_waiters s ws (settle_future (Resolved (SnapshotAnswer s)) n ss)
      else if \<not> future_done ss n
      then (case serve_waiters s ws ss of (still_waiting, ss) \<Rightarrow> ((target, n) # still_waiting, ss))
      else serve_waiters s ws ss)"

text \<open>\<open>now\<close> is the reading of \<open>time.perf_counter()\<close>, \<open>uuid\<close> the text of \<open>uuid4().hex\<close>.\<close>

definition store_snapshot :: "int \<Rightarrow> string \<Rightarrow> snapshot \<Rightarrow> session \<Rightarrow> session" where
  "store_snapshot now uuid s ss =
     (let ss = ss\<lparr>ss_latest := Some s,
                  ss_by_sequence := dict_set (snapshot_sequence s) s (ss_by_sequence ss),
                  ss_received_at := dict_set (snapshot_sequence s) now (ss_received_at ss)\<rparr>;
          ss = trim_history ss;
          ss = ss\<lparr>ss_throttle := update_limit (new_commands_per_station_per_tick (snap_rules s)) (ss_throttle ss)\<rparr>
      in if ss_ids ss = None
         then ss\<lparr>ss_ids := Some (id_generator_init (self_station_id s) (take 12 uuid))\<rparr> else ss)"

definition session_on_snapshot :: "int \<Rightarrow> string \<Rightarrow> snapshot \<Rightarrow> session \<Rightarrow> session" where
  "session_on_snapshot now uuid s ss =
     (if (case ss_latest ss of None \<Rightarrow> False | Some v \<Rightarrow> snapshot_sequence s \<le> snapshot_sequence v) then ss
      else
        let ss = store_snapshot now uuid s ss
        in case serve_waiters s (ss_snapshot_waiters ss) ss of (still_waiting, ss) \<Rightarrow>
             fold session_on_result (request_results s) (ss\<lparr>ss_snapshot_waiters := still_waiting\<rparr>))"

fun session_route :: "int \<Rightarrow> string \<Rightarrow> server_event \<Rightarrow> session \<Rightarrow> session" where
  "session_route now uuid (SnapshotEvent s) ss = session_on_snapshot now uuid s ss"
| "session_route now uuid (ResultEvent r) ss = session_on_result r ss"
| "session_route now uuid (ReadinessEvent a) ss = resolve_readiness a ss"
| "session_route now uuid (ProtocolErrorEvent ev) ss = session_on_protocol_error ev ss"

fun apply_directive :: "(client_message \<Rightarrow> bytes) \<Rightarrow> bool \<Rightarrow> directive \<Rightarrow> session \<Rightarrow>
    (session_error + unit) \<times> session" where
  "apply_directive ser up (SendReady rid sq) ss = (case build_ready rid True sq of
     Inl e \<Rightarrow> (Inl (Raised e), ss)
   | Inr m \<Rightarrow> (case send_message ser up m ss of
       (Inl e, ss) \<Rightarrow> (Inl e, ss) | (Inr _, ss) \<Rightarrow> (Inr (), ss)))"
| "apply_directive ser up (Abort reason c) ss =
     (Inr (), fail_all_waiters (SessionAbortedError reason c)
        (ss\<lparr>ss_abort_reason := Some reason, ss_abort_code := c\<rparr>))"
| "apply_directive ser up (Reconnect reason) ss =
     (Inr (), connection_close (fail_all_waiters (SessionClosedError reason)
        (ss\<lparr>ss_reconnect_wanted := True\<rparr>)))"

definition follow_directive :: "(client_message \<Rightarrow> bytes) \<Rightarrow> bool \<Rightarrow> directive option \<Rightarrow> session \<Rightarrow> session" where
  "follow_directive ser up directive ss = (case directive of
     None \<Rightarrow> ss
   | Some d \<Rightarrow> (case apply_directive ser up d ss of
       (Inl _, ss) \<Rightarrow> ss\<lparr>ss_pumping := False\<rparr>
     | (Inr _, ss) \<Rightarrow> ss))"

text \<open>One turn of \<open>_consume_events\<close>: the pump task ends on the sentinel, on an event the lifecycle
  rejects, and on an exception of \<open>_apply\<close>.\<close>

definition consume_event :: "(client_message \<Rightarrow> bytes) \<Rightarrow> bool \<Rightarrow> int \<Rightarrow> string \<Rightarrow> session \<Rightarrow> session" where
  "consume_event ser up now uuid ss = (case ss_queue ss of
     [] \<Rightarrow> ss
   | item # q \<Rightarrow>
       let ss = ss\<lparr>ss_queue := q\<rparr>
       in case item of
         ClosedSentinel \<Rightarrow> fail_all_waiters (SessionClosedError ''connection closed'')
           (ss\<lparr>ss_closed := True, ss_lifecycle := on_disconnected (ss_lifecycle ss), ss_pumping := False\<rparr>)
       | Undecodable e \<Rightarrow> ss
       | Received ev \<Rightarrow> (case on_event ev (ss_lifecycle ss) of
           Inl e \<Rightarrow> fail_all_waiters (Raised e) (ss\<lparr>ss_pumping := False\<rparr>)
         | Inr (directive, l) \<Rightarrow>
             follow_directive ser up directive (session_route now uuid ev (ss\<lparr>ss_lifecycle := l\<rparr>))))"

subsection \<open>Waiting\<close>

text \<open>\<open>wait_for_snapshot\<close> up to its await, and what its \<open>finally\<close> does.\<close>

definition wait_for_snapshot :: "int \<Rightarrow> session \<Rightarrow> (snapshot + nat) \<times> session" where
  "wait_for_snapshot min_sequence ss =
     (case (case ss_latest ss of None \<Rightarrow> None
            | Some v \<Rightarrow> if min_sequence \<le> snapshot_sequence v then Some v else None) of
        Some v \<Rightarrow> (Inl v, ss)
      | None \<Rightarrow> (case create_future (ForSnapshot min_sequence) ss of (n, ss) \<Rightarrow>
          (Inr n, ss\<lparr>ss_snapshot_waiters := ss_snapshot_waiters ss @ [(min_sequence, n)]\<rparr>)))"

definition wait_for_snapshot_over :: "nat \<Rightarrow> session \<Rightarrow> (session_error + answer) \<times> session" where
  "wait_for_snapshot_over n ss = (case awaited n ss of (r, ss) \<Rightarrow>
     (r, ss\<lparr>ss_snapshot_waiters := filter (\<lambda>(_, m). m \<noteq> n) (ss_snapshot_waiters ss)\<rparr>))"

text \<open>\<open>wait_for_result_snapshot\<close>: the snapshot that confirms the result, or the sequence to wait for next.\<close>

definition confirming_snapshot :: "command_result \<Rightarrow> snapshot \<Rightarrow> int + snapshot" where
  "confirming_snapshot r s = (if r \<in> set (request_results s) then Inr s else Inl (snapshot_sequence s + 1))"

text \<open>\<open>wait_for_sequence\<close> around its wait for the newest snapshot.\<close>

definition held_sequence :: "int \<Rightarrow> session \<Rightarrow> session_error + snapshot" where
  "held_sequence sq ss = (case dict_get (ss_by_sequence ss) sq of
     None \<Rightarrow> Inl (SessionClosedError (''snapshot '' @ show_int sq @ '' was never delivered''))
   | Some s \<Rightarrow> Inr s)"

definition wait_for_readiness :: "session \<Rightarrow> (readiness_ack + nat) \<times> session" where
  "wait_for_readiness ss = (case ss_readiness ss of
     Some a \<Rightarrow> (Inl a, ss)
   | None \<Rightarrow> (case create_future ForReadiness ss of (n, ss) \<Rightarrow>
       (Inr n, ss\<lparr>ss_readiness_waiter := Some n\<rparr>)))"

definition send_sync :: "(client_message \<Rightarrow> bytes) \<Rightarrow> bool \<Rightarrow> session \<Rightarrow> (session_error + bytes) \<times> session" where
  "send_sync ser up ss = (case session_run_id ss of
     Inl e \<Rightarrow> (Inl e, ss)
   | Inr rid \<Rightarrow> send_message ser up (build_sync rid) ss)"

subsection \<open>Sending a command\<close>

definition trading_eligible :: "session \<Rightarrow> snapshot \<Rightarrow> bool" where
  "trading_eligible ss s \<longleftrightarrow> can_send_trading_commands (ss_lifecycle ss) \<and> \<not> failed_once (me s)
     \<and> snap_tick s < duration_ticks (snap_rules s)"

definition remaining_command_budget :: "session \<Rightarrow> int \<times> session" where
  "remaining_command_budget ss = (case ss_latest ss of
     None \<Rightarrow> (0, ss)
   | Some s \<Rightarrow> if \<not> trading_eligible ss s then (0, ss)
     else (case remaining (snap_tick s) (ss_throttle ss) of (k, t) \<Rightarrow> (k, ss\<lparr>ss_throttle := t\<rparr>)))"

record sending =
  sd_request_id :: string
  sd_payload :: bytes
  sd_fingerprint :: string
  sd_retry :: bool
  sd_future :: nat

definition blocked :: "string \<Rightarrow> session_error + 'a" where
  "blocked reason = Inl (CommandBlockedError reason)"

text \<open>\<open>send_command\<close> up to the transmission: lines 397 to 423.\<close>

definition send_begin :: "(client_message \<Rightarrow> bytes) \<Rightarrow> (bytes \<Rightarrow> string) \<Rightarrow> client_message \<Rightarrow> string \<Rightarrow> string \<Rightarrow>
    session \<Rightarrow> (session_error + sending) \<times> session" where
  "send_begin ser digest m knd rid ss =
     (case encode_client_message ser m (map_option (max_command_bytes \<circ> snap_rules) (ss_latest ss)) of
        Inl e \<Rightarrow> (Inl (Raised e), ss)
      | Inr payload \<Rightarrow>
          let fp = body_fingerprint digest payload;
              retry = is_exact_retry rid fp (ss_tracker ss)
          in if dict_get (ss_command_waiters ss) rid \<noteq> None
             then (blocked ''this request already has a pending send'', ss)
             else case ss_latest ss of
               None \<Rightarrow> (blocked ''trading is not eligible'', ss)
             | Some s \<Rightarrow>
                 if \<not> trading_eligible ss s then (blocked ''trading is not eligible'', ss)
                 else (case (if retry then (1, ss) else remaining_command_budget ss) of (left, ss) \<Rightarrow>
                   if left \<le> 0 then (blocked (''this tick'' @ [CHR 0x27] @ ''s command budget is exhausted''), ss)
                   else (case pending_register rid fp knd (snap_tick s) (ss_tracker ss) of
                       Inl e \<Rightarrow> (Inl (Raised e), ss)
                     | Inr t \<Rightarrow> (case create_future (ForCommand rid) (ss\<lparr>ss_tracker := t\<rparr>) of (n, ss) \<Rightarrow>
                         let ss = ss\<lparr>ss_command_waiters := dict_set rid n (ss_command_waiters ss)\<rparr>;
                             ss = (if retry then ss
                                   else ss\<lparr>ss_throttle := record_sent (snap_tick s) 1 (ss_throttle ss)\<rparr>)
                         in (Inr \<lparr>sd_request_id = rid, sd_payload = payload, sd_fingerprint = fp,
                                  sd_retry = retry, sd_future = n\<rparr>, ss)))))"

text \<open>The transmission, and the end of the call: its answer, or the timeout.\<close>

definition send_transmit :: "bool \<Rightarrow> sending \<Rightarrow> session \<Rightarrow> (session_error + bytes) \<times> session" where
  "send_transmit up c ss = (case send_payload up (sd_payload c) ss of
     (Inl e, ss) \<Rightarrow> (Inl e, ss\<lparr>ss_command_waiters := dict_pop (sd_request_id c) (ss_command_waiters ss)\<rparr>)
   | (Inr p, ss) \<Rightarrow> (Inr p, ss))"

definition send_over :: "sending \<Rightarrow> session \<Rightarrow> (session_error + answer) \<times> session" where
  "send_over c ss = (case awaited (sd_future c) ss of (r, ss) \<Rightarrow>
     (r, ss\<lparr>ss_command_waiters := dict_pop (sd_request_id c) (ss_command_waiters ss)\<rparr>))"

subsection \<open>The event loop\<close>

text \<open>
  A session with the commands its callers have under way, in the order they were begun, and the
  snapshots the pump took from the queue and the lifecycle let through, oldest first.
\<close>

datatype send_stage = Charged | Transmitted | Ended "session_error + answer"

record desk =
  dk_session :: session
  dk_sends :: "(sending \<times> send_stage) list"
  dk_seen :: "snapshot list"

definition taken_snapshot :: "session \<Rightarrow> snapshot list" where
  "taken_snapshot ss = (case ss_queue ss of
     Received (SnapshotEvent s) # _ \<Rightarrow>
       (case on_event (SnapshotEvent s) (ss_lifecycle ss) of Inl _ \<Rightarrow> [] | Inr _ \<Rightarrow> [s])
   | _ \<Rightarrow> [])"

definition awaitable :: "purpose \<Rightarrow> nat \<Rightarrow> session \<Rightarrow> bool" where
  "awaitable p n ss \<longleftrightarrow> n < length (ss_futures ss) \<and> fst (ss_futures ss ! n) = p"

inductive session_reach ::
  "(client_message \<Rightarrow> bytes) \<Rightarrow> (bytes \<Rightarrow> server_message result) \<Rightarrow> (bytes \<Rightarrow> string) \<Rightarrow> desk \<Rightarrow> bool"
  for ser parse digest where
  reach_start: "session_start None (session_init th) = (Inr (), ss) \<Longrightarrow>
     session_reach ser parse digest \<lparr>dk_session = ss, dk_sends = [], dk_seen = []\<rparr>"
| reach_frame: "session_reach ser parse digest d \<Longrightarrow> ss_receiving (dk_session d) \<Longrightarrow>
     session_reach ser parse digest (d\<lparr>dk_session := receive_frame parse raw (dk_session d)\<rparr>)"
| reach_end: "session_reach ser parse digest d \<Longrightarrow> ss_receiving (dk_session d) \<Longrightarrow>
     session_reach ser parse digest (d\<lparr>dk_session := receive_end (dk_session d)\<rparr>)"
| reach_pump: "session_reach ser parse digest d \<Longrightarrow> ss_pumping (dk_session d) \<Longrightarrow>
     session_reach ser parse digest (d\<lparr>dk_session := consume_event ser up now uuid (dk_session d),
        dk_seen := dk_seen d @ taken_snapshot (dk_session d)\<rparr>)"
| reach_wait: "session_reach ser parse digest d \<Longrightarrow> wait_for_snapshot k (dk_session d) = (r, ss) \<Longrightarrow>
     session_reach ser parse digest (d\<lparr>dk_session := ss\<rparr>)"
| reach_wait_over: "session_reach ser parse digest d \<Longrightarrow> awaitable (ForSnapshot k) n (dk_session d) \<Longrightarrow>
     wait_for_snapshot_over n (dk_session d) = (a, ss) \<Longrightarrow>
     session_reach ser parse digest (d\<lparr>dk_session := ss\<rparr>)"
| reach_ready: "session_reach ser parse digest d \<Longrightarrow> wait_for_readiness (dk_session d) = (q, ss) \<Longrightarrow>
     session_reach ser parse digest (d\<lparr>dk_session := ss\<rparr>)"
| reach_ready_over: "session_reach ser parse digest d \<Longrightarrow> awaitable ForReadiness n (dk_session d) \<Longrightarrow>
     awaited n (dk_session d) = (a, ss) \<Longrightarrow>
     session_reach ser parse digest (d\<lparr>dk_session := ss\<rparr>)"
| reach_sync: "session_reach ser parse digest d \<Longrightarrow> send_sync ser up (dk_session d) = (b, ss) \<Longrightarrow>
     session_reach ser parse digest (d\<lparr>dk_session := ss\<rparr>)"
| reach_budget: "session_reach ser parse digest d \<Longrightarrow> remaining_command_budget (dk_session d) = (k, ss) \<Longrightarrow>
     session_reach ser parse digest (d\<lparr>dk_session := ss\<rparr>)"
| reach_refused: "session_reach ser parse digest d \<Longrightarrow>
     send_begin ser digest m knd rid (dk_session d) = (Inl e, ss) \<Longrightarrow>
     session_reach ser parse digest (d\<lparr>dk_session := ss\<rparr>)"
| reach_begun: "session_reach ser parse digest d \<Longrightarrow>
     send_begin ser digest m knd rid (dk_session d) = (Inr c, ss) \<Longrightarrow>
     session_reach ser parse digest (d\<lparr>dk_session := ss, dk_sends := dk_sends d @ [(c, Charged)]\<rparr>)"
| reach_transmit: "session_reach ser parse digest d \<Longrightarrow> i < length (dk_sends d) \<Longrightarrow>
     dk_sends d ! i = (c, Charged) \<Longrightarrow> send_transmit up c (dk_session d) = (x, ss) \<Longrightarrow>
     session_reach ser parse digest (d\<lparr>dk_session := ss, dk_sends := (dk_sends d)[i :=
        (c, case x of Inl e \<Rightarrow> Ended (Inl e) | Inr _ \<Rightarrow> Transmitted)]\<rparr>)"
| reach_answer: "session_reach ser parse digest d \<Longrightarrow> i < length (dk_sends d) \<Longrightarrow>
     dk_sends d ! i = (c, Transmitted) \<Longrightarrow> send_over c (dk_session d) = (a, ss) \<Longrightarrow>
     session_reach ser parse digest (d\<lparr>dk_session := ss, dk_sends := (dk_sends d)[i := (c, Ended a)]\<rparr>)"
| reach_stop: "session_reach ser parse digest d \<Longrightarrow>
     session_reach ser parse digest (d\<lparr>dk_session := session_stop (dk_session d)\<rparr>)"

end
