(* ===== verification/Session_Inv.thy ===== *)
theory Session_Inv
  imports Session
begin

text \<open>
  What every reachable session keeps: the newest snapshots in \<open>history_ok\<close>, the waiters and what
  their futures hold in \<open>futures_ok\<close>, the commands under way in \<open>sends_ok\<close>. Each invariant has one
  lemma per operation, and \<open>consume_event_induct\<close> composes them for a turn of the pump.
\<close>

subsection \<open>Futures\<close>

definition settle_list :: "future \<Rightarrow> nat \<Rightarrow> (purpose \<times> future) list \<Rightarrow> (purpose \<times> future) list" where
  "settle_list v n fs = (if snd (fs ! n) \<noteq> Pending then fs else fs[n := (fst (fs ! n), v)])"

lemma settle_future_alt: "settle_future v n ss = ss\<lparr>ss_futures := settle_list v n (ss_futures ss)\<rparr>"
  by (simp add: settle_future_def settle_list_def future_done_def)

lemma fold_settle: "fold (settle_future v) ns ss = ss\<lparr>ss_futures := fold (settle_list v) ns (ss_futures ss)\<rparr>"
  by (induction ns arbitrary: ss) (simp_all add: settle_future_alt)

lemma settle_list_length [simp]: "length (settle_list v n fs) = length fs"
  by (simp add: settle_list_def)

lemma settle_list_purposes [simp]: "map fst (settle_list v n fs) = map fst fs"
  by (cases "n < length fs")
     (simp_all add: settle_list_def map_update list_update_beyond list_update_same_conv [THEN iffD2])

lemma fold_settle_purposes [simp]: "map fst (fold (settle_list v) ns fs) = map fst fs"
  by (induction ns arbitrary: fs) simp_all

lemma settle_list_done:
  "v \<noteq> Pending \<Longrightarrow> m < length fs \<Longrightarrow>
     snd (settle_list v n fs ! m) \<noteq> Pending \<longleftrightarrow> snd (fs ! m) \<noteq> Pending \<or> m = n"
  by (cases "n < length fs") (auto simp: settle_list_def nth_list_update)

lemma fold_settle_length [simp]: "length (fold (settle_list v) ns fs) = length fs"
  by (induction ns arbitrary: fs) simp_all

lemma fold_settle_done:
  "v \<noteq> Pending \<Longrightarrow> m < length fs \<Longrightarrow>
     snd (fold (settle_list v) ns fs ! m) \<noteq> Pending \<longleftrightarrow> snd (fs ! m) \<noteq> Pending \<or> m \<in> set ns"
proof (induction ns arbitrary: fs)
  case (Cons n ns)
  with settle_list_done [OF Cons.prems, of n] show ?case by (simp del: not_not) blast
qed simp

lemma fold_case_prod_snd: "fold (\<lambda>(_, n). f n) xs = fold f (map snd xs)"
  by (simp add: fold_map comp_def case_prod_beta')

lemma fail_all_alt: "fail_all_waiters e ss = ss\<lparr>ss_snapshot_waiters := [], ss_command_waiters := [],
    ss_futures := fold (settle_list (Failed e)) (map snd (ss_snapshot_waiters ss) @ dict_values (ss_command_waiters ss)
       @ (case ss_readiness_waiter ss of None \<Rightarrow> [] | Some n \<Rightarrow> [n])) (ss_futures ss)\<rparr>"
  unfolding fail_all_waiters_def fold_case_prod_snd Let_def
  by (auto simp: fold_settle settle_future_alt split: option.splits)

text \<open>What a future may hold, by its purpose.\<close>

definition outcome_of :: "string \<Rightarrow> session_outcome \<Rightarrow> bool" where
  "outcome_of rid x \<longleftrightarrow> so_request_id x = rid \<and>
     ((\<exists>r. so_result x = Some r \<and> so_error x = None \<and> request_id r = rid)
      \<or> (\<exists>ev. so_result x = None \<and> so_error x = Some ev \<and> err_request_id ev = Some rid))"

fun holds :: "purpose \<times> future \<Rightarrow> bool" where
  "holds (ForSnapshot k, Resolved a) \<longleftrightarrow> (\<exists>s. a = SnapshotAnswer s \<and> k \<le> snapshot_sequence s)"
| "holds (ForCommand rid, Resolved a) \<longleftrightarrow> (\<exists>x. a = OutcomeAnswer x \<and> outcome_of rid x)"
| "holds (ForReadiness, Resolved a) \<longleftrightarrow> (\<exists>k. a = ReadinessAnswer k)"
| "holds _ \<longleftrightarrow> True"

abbreviation purposes :: "session \<Rightarrow> purpose list" where
  "purposes ss \<equiv> map fst (ss_futures ss)"

definition asked :: "purpose list \<Rightarrow> nat \<Rightarrow> purpose \<Rightarrow> bool" where
  "asked ps n p \<longleftrightarrow> n < length ps \<and> ps ! n = p"

lemma asked_snoc: "asked ps n p \<Longrightarrow> asked (ps @ qs) n p"
  by (simp add: asked_def nth_append)

lemma asked_new: "asked (ps @ [p]) (length ps) p"
  by (simp add: asked_def)

definition waiters_ok :: "session \<Rightarrow> bool" where
  "waiters_ok ss \<longleftrightarrow>
     (\<forall>(k, n) \<in> set (ss_snapshot_waiters ss). asked (purposes ss) n (ForSnapshot k))
     \<and> (\<forall>(rid, n) \<in> set (ss_command_waiters ss). asked (purposes ss) n (ForCommand rid))
     \<and> (case ss_readiness_waiter ss of None \<Rightarrow> True | Some n \<Rightarrow> asked (purposes ss) n ForReadiness)"

definition futures_ok :: "session \<Rightarrow> bool" where
  "futures_ok ss \<longleftrightarrow> waiters_ok ss \<and> list_all holds (ss_futures ss)"

lemma holds_settle:
  assumes "list_all holds fs" and "n < length fs \<Longrightarrow> holds (fst (fs ! n), v)"
  shows "list_all holds (settle_list v n fs)"
proof (cases "n < length fs")
  case True
  with assms show ?thesis
    by (auto simp: settle_list_def list_all_iff dest!: set_update_subset_insert [THEN subsetD])
qed (use assms in \<open>simp add: settle_list_def list_update_beyond\<close>)

lemma holds_unresolved [simp]: "holds (p, Failed e)" "holds (p, Cancelled)" "holds (p, Pending)"
  by (cases p; simp)+

lemma holds_fold_fail: "list_all holds fs \<Longrightarrow> list_all holds (fold (settle_list (Failed e)) ns fs)"
  by (induction ns arbitrary: fs) (simp_all add: holds_settle)

text \<open>Only waiters are removed and only futures settled: everything that depends on the waiters
  and purposes alone carries over.\<close>

lemma waiters_ok_shrink:
  assumes "waiters_ok ss" and "purposes ss' = purposes ss"
    and "set (ss_snapshot_waiters ss') \<subseteq> set (ss_snapshot_waiters ss)"
    and "set (ss_command_waiters ss') \<subseteq> set (ss_command_waiters ss)"
    and "ss_readiness_waiter ss' = ss_readiness_waiter ss"
  shows "waiters_ok ss'"
  using assms(1,3,4) unfolding waiters_ok_def assms(2,5) by blast

lemma dict_pop_subset: "set (dict_pop k d) \<subseteq> set d"
  by (auto simp: AList.delete_eq)

lemma futures_ok_fail_all [wf_intros]: "futures_ok ss \<Longrightarrow> futures_ok (fail_all_waiters e ss)"
  unfolding futures_ok_def fail_all_alt
  by (auto intro: holds_fold_fail simp: waiters_ok_def cong: option.case_cong)

text \<open>Answering the command registered under an id: what a result and a protocol error share.\<close>

definition answer_command :: "string \<Rightarrow> session_outcome \<Rightarrow> session \<Rightarrow> session" where
  "answer_command rid x ss = (case dict_get (ss_command_waiters ss) rid of
     None \<Rightarrow> ss
   | Some n \<Rightarrow> settle_future (Resolved (OutcomeAnswer x)) n
       (ss\<lparr>ss_command_waiters := dict_pop rid (ss_command_waiters ss)\<rparr>))"

definition note_result :: "command_result \<Rightarrow> session \<Rightarrow> session" where
  "note_result r ss =
     ss\<lparr>ss_tracker := snd (pending_resolve (request_id r) (ss_tracker ss)),
        ss_throttle := (if code r = RATE_LIMITED
           then throttle_block_until (retry_after_tick r) (ss_throttle ss) else ss_throttle ss)\<rparr>"

lemma session_on_result_alt: "session_on_result r ss = answer_command (request_id r)
    \<lparr>so_request_id = request_id r, so_result = Some r, so_error = None\<rparr> (note_result r ss)"
  by (simp add: session_on_result_def answer_command_def note_result_def Let_def cong: option.case_cong)

lemma session_on_protocol_error_alt: "session_on_protocol_error ev ss = (case err_request_id ev of
     None \<Rightarrow> ss
   | Some rid \<Rightarrow> answer_command rid \<lparr>so_request_id = rid, so_result = None, so_error = Some ev\<rparr>
       (ss\<lparr>ss_tracker := snd (pending_resolve rid (ss_tracker ss))\<rparr>))"
  by (simp add: session_on_protocol_error_def answer_command_def Let_def split: option.splits)

lemma futures_ok_carry:
  "futures_ok ss \<Longrightarrow> ss_futures ss' = ss_futures ss \<Longrightarrow> ss_snapshot_waiters ss' = ss_snapshot_waiters ss \<Longrightarrow>
   ss_command_waiters ss' = ss_command_waiters ss \<Longrightarrow> ss_readiness_waiter ss' = ss_readiness_waiter ss \<Longrightarrow>
   futures_ok ss'"
  by (simp add: futures_ok_def waiters_ok_def cong: option.case_cong)

lemma asked_nth: "asked (map fst fs) n p \<Longrightarrow> n < length fs \<and> fst (fs ! n) = p"
  by (auto simp: asked_def)

lemma futures_ok_settle:
  assumes "futures_ok ss" and "asked (purposes ss) n p" and "holds (p, v)"
  shows "futures_ok (settle_future v n ss)"
  using assms asked_nth [OF assms(2)] unfolding futures_ok_def settle_future_alt
  by (auto intro!: holds_settle elim!: waiters_ok_shrink)

lemma futures_ok_answer [wf_intros]:
  assumes "futures_ok ss" and "outcome_of rid x"
  shows "futures_ok (answer_command rid x ss)"
proof (cases "dict_get (ss_command_waiters ss) rid")
  case (Some n)
  let ?ss = "ss\<lparr>ss_command_waiters := dict_pop rid (ss_command_waiters ss)\<rparr>"
  from assms(1) have "futures_ok ?ss"
    unfolding futures_ok_def by (auto elim!: waiters_ok_shrink dest: dict_pop_subset [THEN subsetD])
  moreover from map_of_SomeD [OF Some] assms(1) have "asked (purposes ?ss) n (ForCommand rid)"
    by (auto simp: futures_ok_def waiters_ok_def)
  ultimately show ?thesis using Some assms(2)
    by (simp add: answer_command_def futures_ok_settle)
qed (use assms in \<open>simp add: answer_command_def\<close>)

lemma outcome_of_simps [simp]:
  "outcome_of rid \<lparr>so_request_id = rid', so_result = Some r, so_error = None\<rparr> \<longleftrightarrow> rid' = rid \<and> request_id r = rid"
  "outcome_of rid \<lparr>so_request_id = rid', so_result = None, so_error = Some ev\<rparr> \<longleftrightarrow>
     rid' = rid \<and> err_request_id ev = Some rid"
  by (auto simp: outcome_of_def)

lemma futures_ok_result [wf_intros]: "futures_ok ss \<Longrightarrow> futures_ok (session_on_result r ss)"
  unfolding session_on_result_alt
  by (rule futures_ok_answer, erule futures_ok_carry) (simp_all add: note_result_def)

lemma futures_ok_error [wf_intros]:
  assumes "futures_ok ss"
  shows "futures_ok (session_on_protocol_error ev ss)"
proof (cases "err_request_id ev")
  case (Some rid)
  show ?thesis unfolding session_on_protocol_error_alt Some option.case
    by (rule futures_ok_answer, rule futures_ok_carry [OF assms]) (simp_all add: Some)
qed (use assms in \<open>simp add: session_on_protocol_error_alt\<close>)

lemma futures_ok_readiness [wf_intros]:
  assumes "futures_ok ss"
  shows "futures_ok (resolve_readiness a ss)"
proof (cases "ss_readiness_waiter ss")
  case None
  with futures_ok_carry [OF assms, of "ss\<lparr>ss_readiness := Some a\<rparr>"] show ?thesis
    by (simp add: resolve_readiness_def)
next
  case (Some n)
  have "futures_ok (ss\<lparr>ss_readiness := Some a\<rparr>)" by (rule futures_ok_carry [OF assms]) simp_all
  moreover from assms Some have "asked (purposes (ss\<lparr>ss_readiness := Some a\<rparr>)) n ForReadiness"
    by (simp add: futures_ok_def waiters_ok_def)
  ultimately show ?thesis using Some
    by (simp add: resolve_readiness_def Let_def futures_ok_settle)
qed

text \<open>Serving the waiters settles futures only, and drops a waiter only once its future is done.\<close>

lemma serve_waiters_shape:
  assumes "serve_waiters s ws ss = (still, ss')"
  shows "\<exists>fs. ss' = ss\<lparr>ss_futures := fs\<rparr> \<and> map fst fs = purposes ss \<and> set still \<subseteq> set ws
     \<and> (\<forall>n<length fs. snd (ss_futures ss ! n) \<noteq> Pending \<longrightarrow> snd (fs ! n) \<noteq> Pending)
     \<and> (\<forall>(k, n)\<in>set ws. n < length fs \<longrightarrow> (k, n) \<in> set still \<or> snd (fs ! n) \<noteq> Pending)"
  using assms
proof (induction s ws ss arbitrary: still ss' rule: serve_waiters.induct)
  case (2 s target n ws ss)
  consider (serve) "target \<le> snapshot_sequence s" "\<not> future_done ss n"
    | (wait) "\<not> target \<le> snapshot_sequence s" "\<not> future_done ss n" | (gone) "future_done ss n" by blast
  then show ?case
  proof cases
    case serve
    let ?v = "Resolved (SnapshotAnswer s)"
    let ?fs = "settle_list ?v n (ss_futures ss)"
    from serve "2.prems" have run: "serve_waiters s ws (settle_future ?v n ss) = (still, ss')" by simp
    obtain fs where fs: "ss' = (settle_future ?v n ss)\<lparr>ss_futures := fs\<rparr>"
        "map fst fs = purposes ss" "set still \<subseteq> set ws"
        "\<forall>m<length fs. snd (?fs ! m) \<noteq> Pending \<longrightarrow> snd (fs ! m) \<noteq> Pending"
        "\<forall>(k, m)\<in>set ws. m < length fs \<longrightarrow> (k, m) \<in> set still \<or> snd (fs ! m) \<noteq> Pending"
      using "2.IH"(1) [OF _ run] serve by (auto simp: settle_future_alt)
    have "\<forall>m<length fs. snd (ss_futures ss ! m) \<noteq> Pending \<or> m = n \<longrightarrow> snd (fs ! m) \<noteq> Pending"
      using fs(4) settle_list_done [of ?v _ "ss_futures ss" n] map_eq_imp_length_eq [OF fs(2)] by auto
    with fs show ?thesis by (intro exI [of _ fs]) (auto simp: settle_future_alt)
  next
    case wait
    from "2.prems" wait obtain st where st: "serve_waiters s ws ss = (st, ss')" "still = (target, n) # st"
      by (auto split: prod.splits)
    from "2.IH"(2) [OF _ _ st(1)] wait obtain fs where "ss' = ss\<lparr>ss_futures := fs\<rparr>"
        "map fst fs = purposes ss" "set st \<subseteq> set ws"
        "\<forall>m<length fs. snd (ss_futures ss ! m) \<noteq> Pending \<longrightarrow> snd (fs ! m) \<noteq> Pending"
        "\<forall>(k, m)\<in>set ws. m < length fs \<longrightarrow> (k, m) \<in> set st \<or> snd (fs ! m) \<noteq> Pending"
      by auto
    with st(2) show ?thesis by (intro exI [of _ fs]) auto
  next
    case gone
    with "2.prems" have run: "serve_waiters s ws ss = (still, ss')" by simp
    from "2.IH"(3) [OF _ _ run] gone obtain fs where "ss' = ss\<lparr>ss_futures := fs\<rparr>"
        "map fst fs = purposes ss" "set still \<subseteq> set ws"
        "\<forall>m<length fs. snd (ss_futures ss ! m) \<noteq> Pending \<longrightarrow> snd (fs ! m) \<noteq> Pending"
        "\<forall>(k, m)\<in>set ws. m < length fs \<longrightarrow> (k, m) \<in> set still \<or> snd (fs ! m) \<noteq> Pending"
      by auto
    with gone show ?thesis by (intro exI [of _ fs]) (auto simp: future_done_def)
  qed
qed (auto intro!: exI [of _ "ss_futures _"])

lemma serve_waiters_holds:
  assumes "serve_waiters s ws ss = (still, ss')" and "list_all holds (ss_futures ss)"
    and "\<forall>(k, n) \<in> set ws. asked (purposes ss) n (ForSnapshot k)"
  shows "list_all holds (ss_futures ss')"
  using assms
proof (induction s ws ss arbitrary: still ss' rule: serve_waiters.induct)
  case (2 s target n ws ss)
  have *: "list_all holds (settle_list (Resolved (SnapshotAnswer s)) n (ss_futures ss))"
    if "target \<le> snapshot_sequence s"
    using "2.prems"(2,3) that by (auto intro!: holds_settle dest: asked_nth)
  consider (serve) "target \<le> snapshot_sequence s" "\<not> future_done ss n"
    | (wait) "\<not> target \<le> snapshot_sequence s" "\<not> future_done ss n" | (gone) "future_done ss n" by blast
  then show ?case
  proof cases
    case serve
    with "2.IH"(1) [of still ss'] "2.prems" * show ?thesis by (auto simp: settle_future_alt)
  next
    case wait
    with "2.IH"(2) "2.prems" show ?thesis by (auto split: prod.splits)
  next
    case gone
    with "2.IH"(3) [of still ss'] "2.prems" show ?thesis by auto
  qed
qed simp

lemma trim_history_alt: "\<exists>ks. trim_history ss =
    ss\<lparr>ss_by_sequence := fold dict_pop ks (ss_by_sequence ss), ss_received_at := fold dict_pop ks (ss_received_at ss)\<rparr>
    \<and> ks = (if length (ss_by_sequence ss) > SNAPSHOT_HISTORY
            then take (length (ss_by_sequence ss) - SNAPSHOT_HISTORY) (sort (dict_keys (ss_by_sequence ss))) else [])"
proof -
  have "fold (\<lambda>stale ss. ss\<lparr>ss_by_sequence := dict_pop stale (ss_by_sequence ss),
          ss_received_at := dict_pop stale (ss_received_at ss)\<rparr>) ks ss =
        ss\<lparr>ss_by_sequence := fold dict_pop ks (ss_by_sequence ss), ss_received_at := fold dict_pop ks (ss_received_at ss)\<rparr>"
    for ks and ss :: session
    by (induction ks arbitrary: ss) simp_all
  then show ?thesis by (simp add: trim_history_def)
qed

lemma store_snapshot_frame [simp]:
  "ss_futures (store_snapshot now uuid s ss) = ss_futures ss"
  "ss_snapshot_waiters (store_snapshot now uuid s ss) = ss_snapshot_waiters ss"
  "ss_command_waiters (store_snapshot now uuid s ss) = ss_command_waiters ss"
  "ss_readiness_waiter (store_snapshot now uuid s ss) = ss_readiness_waiter ss"
  "ss_tracker (store_snapshot now uuid s ss) = ss_tracker ss"
  "ss_queue (store_snapshot now uuid s ss) = ss_queue ss"
  "ss_pumping (store_snapshot now uuid s ss) = ss_pumping ss"
  "ss_connected (store_snapshot now uuid s ss) = ss_connected ss"
  "ss_lifecycle (store_snapshot now uuid s ss) = ss_lifecycle ss"
proof -
  let ?s1 = "ss\<lparr>ss_latest := Some s,
                  ss_by_sequence := dict_set (snapshot_sequence s) s (ss_by_sequence ss),
                  ss_received_at := dict_set (snapshot_sequence s) now (ss_received_at ss)\<rparr>"
  obtain b r where t: "trim_history ?s1 = ?s1\<lparr>ss_by_sequence := b, ss_received_at := r\<rparr>"
    using trim_history_alt [of ?s1] by blast
  note d = store_snapshot_def Let_def t
  show "ss_futures (store_snapshot now uuid s ss) = ss_futures ss" by (simp add: d)
  show "ss_snapshot_waiters (store_snapshot now uuid s ss) = ss_snapshot_waiters ss" by (simp add: d)
  show "ss_command_waiters (store_snapshot now uuid s ss) = ss_command_waiters ss" by (simp add: d)
  show "ss_readiness_waiter (store_snapshot now uuid s ss) = ss_readiness_waiter ss" by (simp add: d)
  show "ss_tracker (store_snapshot now uuid s ss) = ss_tracker ss" by (simp add: d)
  show "ss_queue (store_snapshot now uuid s ss) = ss_queue ss" by (simp add: d)
  show "ss_pumping (store_snapshot now uuid s ss) = ss_pumping ss" by (simp add: d)
  show "ss_connected (store_snapshot now uuid s ss) = ss_connected ss" by (simp add: d)
  show "ss_lifecycle (store_snapshot now uuid s ss) = ss_lifecycle ss" by (simp add: d)
qed

lemma futures_ok_results [wf_intros]: "futures_ok ss \<Longrightarrow> futures_ok (fold session_on_result rs ss)"
  by (induction rs arbitrary: ss) (simp_all add: futures_ok_result)

lemma futures_ok_snapshot [wf_intros]:
  assumes "futures_ok ss"
  shows "futures_ok (session_on_snapshot now uuid s ss)"
proof -
  let ?s1 = "store_snapshot now uuid s ss"
  obtain still s2 where sv: "serve_waiters s (ss_snapshot_waiters ?s1) ?s1 = (still, s2)"
    by (cases "serve_waiters s (ss_snapshot_waiters ?s1) ?s1") auto
  from serve_waiters_shape [OF sv] obtain fs where fs: "s2 = ?s1\<lparr>ss_futures := fs\<rparr>"
    "map fst fs = purposes ?s1" "set still \<subseteq> set (ss_snapshot_waiters ?s1)" by blast
  have "futures_ok ?s1" by (rule futures_ok_carry [OF assms]) simp_all
  then have "list_all holds (ss_futures s2)" and w: "waiters_ok ?s1"
    using serve_waiters_holds [OF sv] by (simp_all add: futures_ok_def waiters_ok_def)
  moreover have "waiters_ok (s2\<lparr>ss_snapshot_waiters := still\<rparr>)"
    by (rule waiters_ok_shrink [OF w]) (use fs in simp_all)
  ultimately have "futures_ok (s2\<lparr>ss_snapshot_waiters := still\<rparr>)" by (simp add: futures_ok_def)
  with assms sv show ?thesis
    by (simp add: session_on_snapshot_def Let_def futures_ok_results)
qed

subsection \<open>The held snapshots\<close>

text \<open>The snapshots that each raised the sequence seen so far, oldest first.\<close>

definition accepted :: "snapshot list \<Rightarrow> snapshot list" where
  "accepted seen = fold (\<lambda>s acc. if acc = [] \<or> snapshot_sequence (last acc) < snapshot_sequence s
     then acc @ [s] else acc) seen []"

lemma accepted_simps [simp]:
  "accepted [] = []"
  "accepted (seen @ [s]) = (if accepted seen = [] \<or> snapshot_sequence (last (accepted seen)) < snapshot_sequence s
     then accepted seen @ [s] else accepted seen)"
  by (simp_all add: accepted_def)

lemma sorted_wrt_last: "sorted_wrt (<) (xs :: int list) \<Longrightarrow> x \<in> set xs \<Longrightarrow> x \<le> last xs"
  by (induction xs) (auto intro: order_less_imp_le)

lemma accepted_sorted: "sorted_wrt (<) (map snapshot_sequence (accepted seen))"
proof (induction seen rule: rev_induct)
  case (snoc s seen)
  show ?case
  proof (cases "accepted seen = []")
    case False
    then have "last (map snapshot_sequence (accepted seen)) = snapshot_sequence (last (accepted seen))"
      by (simp add: last_map)
    with snoc sorted_wrt_last [OF snoc] show ?thesis
      by (auto simp: sorted_wrt_append intro: le_less_trans)
  qed simp
qed simp

definition newest :: "'a list \<Rightarrow> 'a list" where
  "newest xs = drop (length xs - SNAPSHOT_HISTORY) xs"

lemma newest_snoc: "newest (xs @ [x]) =
    (let ys = newest xs @ [x] in if length ys > SNAPSHOT_HISTORY then drop 1 ys else ys)"
proof (cases "length xs < SNAPSHOT_HISTORY")
  case False
  then have "Suc (length xs) - SNAPSHOT_HISTORY = Suc (length xs - SNAPSHOT_HISTORY)" by simp
  with False show ?thesis by (simp add: newest_def Let_def)
qed (simp add: newest_def Let_def)

lemma newest_length: "length (newest xs) = min (length xs) SNAPSHOT_HISTORY"
  by (auto simp: newest_def)

lemma newest_map: "newest (map f xs) = map f (newest xs)"
  by (simp add: newest_def drop_map)

lemma newest_sorted: "sorted_wrt P xs \<Longrightarrow> sorted_wrt P (newest xs)"
  by (simp add: newest_def sorted_wrt_drop)

lemma newest_subset: "set (newest xs) \<subseteq> set xs"
  by (simp add: newest_def set_drop_subset)

lemma pop_first_keys: "distinct (dict_keys d) \<Longrightarrow> fold dict_pop (take k (dict_keys d)) d = drop k d"
proof (induction d arbitrary: k)
  case (Cons x d)
  then show ?case by (cases k; cases x) (auto simp: delete_id)
qed simp

lemma dict_set_fresh: "k \<notin> set (dict_keys d) \<Longrightarrow> dict_set k v d = d @ [(k, v)]"
  by (induction d) auto

definition history_ok :: "snapshot list \<Rightarrow> session \<Rightarrow> bool" where
  "history_ok seen ss \<longleftrightarrow>
     ss_latest ss = (if accepted seen = [] then None else Some (last (accepted seen)))
     \<and> ss_by_sequence ss = map (\<lambda>s. (snapshot_sequence s, s)) (newest (accepted seen))
     \<and> dict_keys (ss_received_at ss) = map snapshot_sequence (newest (accepted seen))"

lemma history_ok_carry:
  "history_ok seen ss \<Longrightarrow> ss_latest ss' = ss_latest ss \<Longrightarrow> ss_by_sequence ss' = ss_by_sequence ss \<Longrightarrow>
   ss_received_at ss' = ss_received_at ss \<Longrightarrow> history_ok seen ss'"
  by (simp add: history_ok_def)

text \<open>Storing one more keeps the newest \<open>SNAPSHOT_HISTORY\<close> of a dictionary with increasing keys.\<close>

lemma trim_sorted:
  assumes "sorted_wrt (<) (map snapshot_sequence acc)"
    and "b = map (\<lambda>s. (snapshot_sequence s, s)) acc" and "dict_keys r = map snapshot_sequence acc"
    and "length acc \<le> Suc SNAPSHOT_HISTORY"
  shows "let ss' = trim_history (ss\<lparr>ss_latest := l, ss_by_sequence := b, ss_received_at := r\<rparr>)
     in ss_latest ss' = l \<and> ss_by_sequence ss' = drop (length acc - SNAPSHOT_HISTORY) b
        \<and> ss_received_at ss' = drop (length acc - SNAPSHOT_HISTORY) r"
proof -
  let ?s = "ss\<lparr>ss_latest := l, ss_by_sequence := b, ss_received_at := r\<rparr>"
  have keys: "dict_keys b = map snapshot_sequence acc" using assms(2) by simp
  have srt: "sorted (dict_keys b)" and dis: "distinct (dict_keys b)"
    unfolding keys using assms(1) by (simp_all add: strict_sorted_iff)
  have len: "length b = length acc" using assms(2) by simp
  obtain ks where ks: "trim_history ?s = ?s\<lparr>ss_by_sequence := fold dict_pop ks b, ss_received_at := fold dict_pop ks r\<rparr>"
    "ks = (if length b > SNAPSHOT_HISTORY then take (length b - SNAPSHOT_HISTORY) (sort (dict_keys b)) else [])"
    using trim_history_alt [of ?s] by simp
  then have "ks = take (length acc - SNAPSHOT_HISTORY) (dict_keys b)"
    using srt by (simp add: sort_key_id_if_sorted len)
  moreover have "dict_keys r = dict_keys b" using keys assms(3) by simp
  ultimately show ?thesis using ks(1) pop_first_keys [OF dis] pop_first_keys [of r] dis
    by (simp add: Let_def)
qed

lemma store_history:
  assumes "history_ok seen ss"
    and "case ss_latest ss of None \<Rightarrow> True | Some v \<Rightarrow> snapshot_sequence v < snapshot_sequence s"
  shows "history_ok (seen @ [s]) (store_snapshot now uuid s ss)"
proof -
  let ?acc = "accepted seen" and ?q = "snapshot_sequence s"
  let ?K = "newest ?acc"
  have acc: "accepted (seen @ [s]) = ?acc @ [s]"
    using assms by (auto simp: history_ok_def split: if_splits)
  have srt: "sorted_wrt (<) (map snapshot_sequence (?acc @ [s]))"
    using accepted_sorted [of "seen @ [s]"] unfolding acc .
  then have fresh: "?q \<notin> snapshot_sequence ` set ?acc" by (auto simp: sorted_wrt_append)
  have fresh': "?q \<notin> snapshot_sequence ` set ?K"
    by (rule contra_subsetD [OF image_mono [OF newest_subset] fresh])
  let ?b = "dict_set ?q s (ss_by_sequence ss)" and ?r = "dict_set ?q now (ss_received_at ss)"
  have held: "ss_by_sequence ss = map (\<lambda>s. (snapshot_sequence s, s)) ?K"
      "dict_keys (ss_received_at ss) = map snapshot_sequence ?K"
    using assms(1) by (simp_all add: history_ok_def)
  have "dict_set ?q s (ss_by_sequence ss) = ss_by_sequence ss @ [(?q, s)]"
    by (rule dict_set_fresh) (use fresh' in \<open>simp add: held comp_def\<close>)
  then have b: "?b = map (\<lambda>s. (snapshot_sequence s, s)) (?K @ [s])" by (simp add: held)
  have "dict_set ?q now (ss_received_at ss) = ss_received_at ss @ [(?q, now)]"
    by (rule dict_set_fresh) (use fresh' in \<open>simp add: held\<close>)
  then have r: "dict_keys ?r = map snapshot_sequence (?K @ [s])" by (simp add: held)
  have K: "sorted_wrt (<) (map snapshot_sequence (?K @ [s]))" "length (?K @ [s]) \<le> Suc SNAPSHOT_HISTORY"
    using srt newest_subset [of ?acc] newest_sorted [of "(<)" "map snapshot_sequence ?acc"]
    by (auto simp: sorted_wrt_append newest_map newest_length)
  let ?t = "trim_history (ss\<lparr>ss_latest := Some s, ss_by_sequence := ?b, ss_received_at := ?r\<rparr>)"
  have t: "ss_latest ?t = Some s"
    "ss_by_sequence ?t = drop (length (?K @ [s]) - SNAPSHOT_HISTORY) ?b"
    "ss_received_at ?t = drop (length (?K @ [s]) - SNAPSHOT_HISTORY) ?r"
    using trim_sorted [OF K(1) b r K(2), of "Some s" ss] by (simp_all add: Let_def)
  have n: "newest (?acc @ [s]) = drop (length (?K @ [s]) - SNAPSHOT_HISTORY) (?K @ [s])"
  proof (cases "length (?K @ [s]) > SNAPSHOT_HISTORY")
    case True
    with K(2) have "length (?K @ [s]) - SNAPSHOT_HISTORY = 1" by simp
    with True show ?thesis unfolding newest_snoc Let_def by metis
  next
    case False
    then show ?thesis by (simp only: newest_snoc Let_def if_False) (simp add: not_less)
  qed
  have "ss_by_sequence ?t = map (\<lambda>s. (snapshot_sequence s, s)) (newest (?acc @ [s]))"
    by (simp only: t(2) n) (simp only: b drop_map)
  moreover have "dict_keys (ss_received_at ?t) = map snapshot_sequence (newest (?acc @ [s]))"
    by (simp only: t(3) n drop_map [symmetric] r)
  ultimately have "history_ok (seen @ [s]) ?t"
    unfolding history_ok_def acc using t(1) by simp
  then show ?thesis by (rule history_ok_carry) (simp_all add: store_snapshot_def Let_def)
qed

subsection \<open>What the operations leave alone\<close>

lemma answer_command_frame [simp]:
  "ss_latest (answer_command rid x ss) = ss_latest ss"
  "ss_by_sequence (answer_command rid x ss) = ss_by_sequence ss"
  "ss_received_at (answer_command rid x ss) = ss_received_at ss"
  "ss_queue (answer_command rid x ss) = ss_queue ss"
  "ss_pumping (answer_command rid x ss) = ss_pumping ss"
  "ss_connected (answer_command rid x ss) = ss_connected ss"
  "ss_lifecycle (answer_command rid x ss) = ss_lifecycle ss"
  "ss_readiness_waiter (answer_command rid x ss) = ss_readiness_waiter ss"
  "ss_tracker (answer_command rid x ss) = ss_tracker ss"
  "ss_snapshot_waiters (answer_command rid x ss) = ss_snapshot_waiters ss"
  by (simp_all add: answer_command_def settle_future_alt split: option.splits)

lemma session_on_result_frame [simp]:
  "ss_latest (session_on_result r ss) = ss_latest ss"
  "ss_by_sequence (session_on_result r ss) = ss_by_sequence ss"
  "ss_received_at (session_on_result r ss) = ss_received_at ss"
  "ss_queue (session_on_result r ss) = ss_queue ss"
  "ss_pumping (session_on_result r ss) = ss_pumping ss"
  "ss_connected (session_on_result r ss) = ss_connected ss"
  "ss_lifecycle (session_on_result r ss) = ss_lifecycle ss"
  "ss_readiness_waiter (session_on_result r ss) = ss_readiness_waiter ss"
  "ss_snapshot_waiters (session_on_result r ss) = ss_snapshot_waiters ss"
  by (simp_all add: session_on_result_alt note_result_def)

lemma session_on_results_frame [simp]:
  "ss_latest (fold session_on_result rs ss) = ss_latest ss"
  "ss_by_sequence (fold session_on_result rs ss) = ss_by_sequence ss"
  "ss_received_at (fold session_on_result rs ss) = ss_received_at ss"
  "ss_queue (fold session_on_result rs ss) = ss_queue ss"
  "ss_pumping (fold session_on_result rs ss) = ss_pumping ss"
  "ss_connected (fold session_on_result rs ss) = ss_connected ss"
  "ss_lifecycle (fold session_on_result rs ss) = ss_lifecycle ss"
  "ss_readiness_waiter (fold session_on_result rs ss) = ss_readiness_waiter ss"
  "ss_snapshot_waiters (fold session_on_result rs ss) = ss_snapshot_waiters ss"
  by (induction rs arbitrary: ss) simp_all

lemma protocol_error_frame [simp]:
  "ss_latest (session_on_protocol_error ev ss) = ss_latest ss"
  "ss_by_sequence (session_on_protocol_error ev ss) = ss_by_sequence ss"
  "ss_received_at (session_on_protocol_error ev ss) = ss_received_at ss"
  "ss_queue (session_on_protocol_error ev ss) = ss_queue ss"
  "ss_pumping (session_on_protocol_error ev ss) = ss_pumping ss"
  "ss_connected (session_on_protocol_error ev ss) = ss_connected ss"
  "ss_lifecycle (session_on_protocol_error ev ss) = ss_lifecycle ss"
  "ss_readiness_waiter (session_on_protocol_error ev ss) = ss_readiness_waiter ss"
  "ss_snapshot_waiters (session_on_protocol_error ev ss) = ss_snapshot_waiters ss"
  by (simp_all add: session_on_protocol_error_alt split: option.splits)

lemma resolve_readiness_frame [simp]:
  "ss_latest (resolve_readiness a ss) = ss_latest ss"
  "ss_by_sequence (resolve_readiness a ss) = ss_by_sequence ss"
  "ss_received_at (resolve_readiness a ss) = ss_received_at ss"
  "ss_queue (resolve_readiness a ss) = ss_queue ss"
  "ss_pumping (resolve_readiness a ss) = ss_pumping ss"
  "ss_connected (resolve_readiness a ss) = ss_connected ss"
  "ss_lifecycle (resolve_readiness a ss) = ss_lifecycle ss"
  "ss_readiness_waiter (resolve_readiness a ss) = ss_readiness_waiter ss"
  "ss_tracker (resolve_readiness a ss) = ss_tracker ss"
  "ss_snapshot_waiters (resolve_readiness a ss) = ss_snapshot_waiters ss"
  "ss_command_waiters (resolve_readiness a ss) = ss_command_waiters ss"
  by (simp_all add: resolve_readiness_def settle_future_alt Let_def split: option.splits)

lemma fail_all_frame [simp]:
  "ss_latest (fail_all_waiters e ss) = ss_latest ss"
  "ss_by_sequence (fail_all_waiters e ss) = ss_by_sequence ss"
  "ss_received_at (fail_all_waiters e ss) = ss_received_at ss"
  "ss_queue (fail_all_waiters e ss) = ss_queue ss"
  "ss_pumping (fail_all_waiters e ss) = ss_pumping ss"
  "ss_connected (fail_all_waiters e ss) = ss_connected ss"
  "ss_lifecycle (fail_all_waiters e ss) = ss_lifecycle ss"
  "ss_readiness_waiter (fail_all_waiters e ss) = ss_readiness_waiter ss"
  "ss_tracker (fail_all_waiters e ss) = ss_tracker ss"
  by (simp_all add: fail_all_alt)

lemma on_snapshot_shape:
  assumes "\<not> (case ss_latest ss of None \<Rightarrow> False | Some v \<Rightarrow> snapshot_sequence s \<le> snapshot_sequence v)"
  obtains still fs where "session_on_snapshot now uuid s ss = fold session_on_result (request_results s)
       ((store_snapshot now uuid s ss)\<lparr>ss_futures := fs, ss_snapshot_waiters := still\<rparr>)"
    and "map fst fs = purposes ss"
    and "\<forall>n<length fs. snd (ss_futures ss ! n) \<noteq> Pending \<longrightarrow> snd (fs ! n) \<noteq> Pending"
    and "\<forall>(k, n)\<in>set (ss_snapshot_waiters ss). n < length fs \<longrightarrow> (k, n) \<in> set still \<or> snd (fs ! n) \<noteq> Pending"
proof -
  let ?s1 = "store_snapshot now uuid s ss"
  obtain still s2 where sv: "serve_waiters s (ss_snapshot_waiters ?s1) ?s1 = (still, s2)"
    by (cases "serve_waiters s (ss_snapshot_waiters ?s1) ?s1") auto
  from serve_waiters_shape [OF sv] obtain fs where fs: "s2 = ?s1\<lparr>ss_futures := fs\<rparr>"
    "map fst fs = purposes ss"
    "\<forall>n<length fs. snd (ss_futures ss ! n) \<noteq> Pending \<longrightarrow> snd (fs ! n) \<noteq> Pending"
    "\<forall>(k, n)\<in>set (ss_snapshot_waiters ss). n < length fs \<longrightarrow> (k, n) \<in> set still \<or> snd (fs ! n) \<noteq> Pending"
    by auto
  moreover from assms sv fs(1) have "session_on_snapshot now uuid s ss = fold session_on_result (request_results s)
       (?s1\<lparr>ss_futures := fs, ss_snapshot_waiters := still\<rparr>)"
    by (simp add: session_on_snapshot_def Let_def)
  ultimately show thesis by (rule_tac that)
qed

lemma on_snapshot_ignored:
  "(case ss_latest ss of None \<Rightarrow> False | Some v \<Rightarrow> snapshot_sequence s \<le> snapshot_sequence v) \<Longrightarrow>
     session_on_snapshot now uuid s ss = ss"
  by (simp add: session_on_snapshot_def)

lemma on_snapshot_frame [simp]:
  "ss_queue (session_on_snapshot now uuid s ss) = ss_queue ss"
  "ss_pumping (session_on_snapshot now uuid s ss) = ss_pumping ss"
  "ss_connected (session_on_snapshot now uuid s ss) = ss_connected ss"
  "ss_lifecycle (session_on_snapshot now uuid s ss) = ss_lifecycle ss"
  "ss_readiness_waiter (session_on_snapshot now uuid s ss) = ss_readiness_waiter ss"
proof -
  let ?skip = "case ss_latest ss of None \<Rightarrow> False | Some v \<Rightarrow> snapshot_sequence s \<le> snapshot_sequence v"
  have "session_on_snapshot now uuid s ss = ss \<or>
      (\<exists>still fs. session_on_snapshot now uuid s ss = fold session_on_result (request_results s)
         ((store_snapshot now uuid s ss)\<lparr>ss_futures := fs, ss_snapshot_waiters := still\<rparr>))"
  proof (cases ?skip)
    case False
    then obtain still fs where "session_on_snapshot now uuid s ss = fold session_on_result (request_results s)
         ((store_snapshot now uuid s ss)\<lparr>ss_futures := fs, ss_snapshot_waiters := still\<rparr>)"
      by (rule on_snapshot_shape)
    then show ?thesis by blast
  qed (simp add: on_snapshot_ignored)
  then show "ss_queue (session_on_snapshot now uuid s ss) = ss_queue ss"
    "ss_pumping (session_on_snapshot now uuid s ss) = ss_pumping ss"
    "ss_connected (session_on_snapshot now uuid s ss) = ss_connected ss"
    "ss_lifecycle (session_on_snapshot now uuid s ss) = ss_lifecycle ss"
    "ss_readiness_waiter (session_on_snapshot now uuid s ss) = ss_readiness_waiter ss"
    by auto
qed

lemma on_snapshot_history:
  assumes "history_ok seen ss"
  shows "history_ok (seen @ [s]) (session_on_snapshot now uuid s ss)"
proof (cases "case ss_latest ss of None \<Rightarrow> False | Some v \<Rightarrow> snapshot_sequence s \<le> snapshot_sequence v")
  case True
  with assms have "accepted (seen @ [s]) = accepted seen"
    by (auto simp: history_ok_def split: if_splits)
  with assms show ?thesis by (simp only: on_snapshot_ignored [OF True] history_ok_def)
next
  case False
  obtain still fs where shape: "session_on_snapshot now uuid s ss = fold session_on_result (request_results s)
       ((store_snapshot now uuid s ss)\<lparr>ss_futures := fs, ss_snapshot_waiters := still\<rparr>)"
    by (rule on_snapshot_shape [OF False])
  have "history_ok (seen @ [s]) (store_snapshot now uuid s ss)"
    by (rule store_history [OF assms]) (use False in \<open>auto split: option.splits\<close>)
  then show ?thesis by (rule history_ok_carry) (simp_all add: shape)
qed

lemma send_message_shape: "send_message ser up m ss = (r, ss') \<Longrightarrow> \<exists>f. ss' = ss\<lparr>ss_frames := f\<rparr>"
  by (auto simp: send_message_def send_payload_def split: sum.splits if_splits intro: exI [of _ "ss_frames ss"])

lemma follow_directive_cases:
  obtains (send) f b where "follow_directive ser up d ss = ss\<lparr>ss_frames := f, ss_pumping := b\<rparr>"
  | (abort) e reason c where "follow_directive ser up d ss = fail_all_waiters e (ss\<lparr>ss_abort_reason := reason, ss_abort_code := c\<rparr>)"
  | (reconnect) e where "follow_directive ser up d ss = connection_close (fail_all_waiters e (ss\<lparr>ss_reconnect_wanted := True\<rparr>))"
proof (cases d)
  case None
  then show thesis by (intro send [of "ss_pumping ss" "ss_frames ss"]) (simp add: follow_directive_def)
next
  case (Some dir)
  show thesis
  proof (cases dir)
    case (SendReady rid sq)
    obtain r ss' where r: "apply_directive ser up dir ss = (r, ss')" by (cases "apply_directive ser up dir ss")
    have same: "\<exists>f. x = x\<lparr>ss_frames := f\<rparr>" for x :: session
      by (rule exI [of _ "ss_frames x"]) simp
    from r SendReady have "\<exists>f. ss' = ss\<lparr>ss_frames := f\<rparr>"
      by (auto split: sum.splits prod.splits dest!: send_message_shape intro: same)
    then obtain f where "ss' = ss\<lparr>ss_frames := f\<rparr>" ..
    with r Some show thesis
      by (cases r) (auto simp: follow_directive_def intro: send [of False f] send [of "ss_pumping ss" f])
  next
    case (Reconnect reason)
    with Some show thesis by (intro reconnect) (simp add: follow_directive_def)
  next
    case (Abort reason c)
    with Some show thesis by (intro abort) (simp add: follow_directive_def)
  qed
qed

lemma store_snapshot_latest: "ss_latest (store_snapshot now uuid s ss) = Some s"
proof -
  let ?s1 = "ss\<lparr>ss_latest := Some s,
                  ss_by_sequence := dict_set (snapshot_sequence s) s (ss_by_sequence ss),
                  ss_received_at := dict_set (snapshot_sequence s) now (ss_received_at ss)\<rparr>"
  obtain b r where "trim_history ?s1 = ?s1\<lparr>ss_by_sequence := b, ss_received_at := r\<rparr>"
    using trim_history_alt [of ?s1] by blast
  then show ?thesis by (simp add: store_snapshot_def Let_def)
qed

text \<open>The second provider of the newest-view interface: the session's own latest snapshot.\<close>

lemma on_snapshot_latest: "ss_latest (session_on_snapshot now uuid s ss) = Some (newer (ss_latest ss) s)"
proof (cases "case ss_latest ss of None \<Rightarrow> False | Some v \<Rightarrow> snapshot_sequence s \<le> snapshot_sequence v")
  case True
  then show ?thesis by (auto simp: on_snapshot_ignored newer_def split: option.splits)
next
  case False
  obtain still fs where shape: "session_on_snapshot now uuid s ss = fold session_on_result (request_results s)
       ((store_snapshot now uuid s ss)\<lparr>ss_futures := fs, ss_snapshot_waiters := still\<rparr>)"
    by (rule on_snapshot_shape [OF False])
  with False show ?thesis by (auto simp: store_snapshot_latest newer_def split: option.splits)
qed

interpretation session_view: newest_view ss_latest "session_on_snapshot now uuid" "\<lambda>_. True"
  by unfold_locales (simp_all add: on_snapshot_latest)

text \<open>One turn of the pump, by what it does to the session.\<close>

lemma consume_event_cases:
  obtains (idle) "ss_queue ss = []" "consume_event ser up now uuid ss = ss" "taken_snapshot ss = []"
  | (closed) q where "ss_queue ss = ClosedSentinel # q" "taken_snapshot ss = []"
      "consume_event ser up now uuid ss = fail_all_waiters (SessionClosedError ''connection closed'')
         (ss\<lparr>ss_queue := q, ss_closed := True, ss_lifecycle := on_disconnected (ss_lifecycle ss), ss_pumping := False\<rparr>)"
  | (garbled) e q where "ss_queue ss = Undecodable e # q" "taken_snapshot ss = []"
      "consume_event ser up now uuid ss = ss\<lparr>ss_queue := q\<rparr>"
  | (rejected) ev e q where "ss_queue ss = Received ev # q" "taken_snapshot ss = []"
      "consume_event ser up now uuid ss = fail_all_waiters (Raised e) (ss\<lparr>ss_queue := q, ss_pumping := False\<rparr>)"
  | (routed) ev d l q where "ss_queue ss = Received ev # q" "on_event ev (ss_lifecycle ss) = Inr (d, l)"
      "taken_snapshot ss = (case ev of SnapshotEvent s \<Rightarrow> [s] | _ \<Rightarrow> [])"
      "consume_event ser up now uuid ss =
         follow_directive ser up d (session_route now uuid ev (ss\<lparr>ss_queue := q, ss_lifecycle := l\<rparr>))"
proof (cases "ss_queue ss")
  case (Cons item q)
  show thesis
  proof (cases item)
    case (Received ev)
    show thesis
    proof (cases "on_event ev (ss_lifecycle ss)")
      case (Inl e)
      show thesis
        by (rule rejected, use Cons Received Inl in \<open>simp_all add: consume_event_def taken_snapshot_def\<close>)
           (cases ev; simp)
    next
      case (Inr dl)
      obtain d l where "dl = (d, l)" by (cases dl)
      with Inr Cons Received show thesis
        by (intro routed, simp_all add: consume_event_def taken_snapshot_def) (cases ev; simp)
    qed
  next
    case ClosedSentinel
    show thesis
      by (rule closed) (use Cons ClosedSentinel in \<open>simp_all add: consume_event_def taken_snapshot_def\<close>)
  next
    case (Undecodable e)
    show thesis
      by (rule garbled) (use Cons Undecodable in \<open>simp_all add: consume_event_def taken_snapshot_def\<close>)
  qed
next
  case Nil
  show thesis by (rule idle) (use Nil in \<open>simp_all add: consume_event_def taken_snapshot_def\<close>)
qed

lemma route_futures: "futures_ok ss \<Longrightarrow> futures_ok (session_route now uuid ev ss)"
  by (cases ev) (simp_all add: wf_intros)

lemma route_history:
  "history_ok seen ss \<Longrightarrow> history_ok (seen @ (case ev of SnapshotEvent s \<Rightarrow> [s] | _ \<Rightarrow> [])) (session_route now uuid ev ss)"
  by (cases ev) (simp_all add: on_snapshot_history, (erule history_ok_carry, simp_all)+)

lemma connection_close_frame [simp]: "connection_close ss = ss\<lparr>ss_connected := False\<rparr>"
  by (simp add: connection_close_def)

lemma follow_futures:
  assumes "futures_ok ss"
  shows "futures_ok (follow_directive ser up d ss)"
proof (cases ser up d ss rule: follow_directive_cases)
  case (send f b)
  show ?thesis unfolding send by (rule futures_ok_carry [OF assms]) simp_all
next
  case (abort e reason c)
  show ?thesis unfolding abort by (intro futures_ok_fail_all futures_ok_carry [OF assms]) simp_all
next
  case (reconnect e)
  have "futures_ok (fail_all_waiters e (ss\<lparr>ss_reconnect_wanted := True\<rparr>))"
    by (intro futures_ok_fail_all futures_ok_carry [OF assms]) simp_all
  then show ?thesis unfolding reconnect by (rule futures_ok_carry) simp_all
qed

lemma follow_history:
  assumes "history_ok seen ss"
  shows "history_ok seen (follow_directive ser up d ss)"
  by (cases ser up d ss rule: follow_directive_cases) (simp_all add: history_ok_carry [OF assms])

lemma consume_futures: "futures_ok ss \<Longrightarrow> futures_ok (consume_event ser up now uuid ss)"
proof (cases ss rule: consume_event_cases [where ser = ser and up = up and now = now and uuid = uuid])
  case (routed ev d l q)
  assume ok: "futures_ok ss"
  let ?r = "session_route now uuid ev (ss\<lparr>ss_queue := q, ss_lifecycle := l\<rparr>)"
  have r: "futures_ok ?r" by (rule route_futures, rule futures_ok_carry [OF ok]) simp_all
  show ?thesis unfolding routed(4) by (rule follow_futures [OF r])
next
  case closed
  assume "futures_ok ss"
  then show ?thesis unfolding closed by (intro futures_ok_fail_all) (erule futures_ok_carry, simp_all)
next
  case rejected
  assume "futures_ok ss"
  then show ?thesis unfolding rejected by (intro futures_ok_fail_all) (erule futures_ok_carry, simp_all)
next
  case garbled
  assume "futures_ok ss"
  then show ?thesis unfolding garbled by (erule_tac futures_ok_carry) simp_all
qed simp

lemma consume_history:
  "history_ok seen ss \<Longrightarrow> history_ok (seen @ taken_snapshot ss) (consume_event ser up now uuid ss)"
proof (cases ss rule: consume_event_cases [where ser = ser and up = up and now = now and uuid = uuid])
  case (routed ev d l q)
  assume ok: "history_ok seen ss"
  let ?r = "session_route now uuid ev (ss\<lparr>ss_queue := q, ss_lifecycle := l\<rparr>)"
  have r: "history_ok (seen @ taken_snapshot ss) ?r"
    unfolding routed by (rule route_history, rule history_ok_carry [OF ok]) simp_all
  show ?thesis unfolding routed(4) by (rule follow_history [OF r])
next
  case closed
  assume "history_ok seen ss"
  then show ?thesis unfolding closed append_Nil2 by (rule history_ok_carry) simp_all
next
  case rejected
  assume "history_ok seen ss"
  then show ?thesis unfolding rejected append_Nil2 by (rule history_ok_carry) simp_all
next
  case garbled
  assume "history_ok seen ss"
  then show ?thesis unfolding garbled append_Nil2 by (rule history_ok_carry) simp_all
qed simp

subsection \<open>Registered commands\<close>

abbreviation sent :: "session \<Rightarrow> (string, pending_request) pydict" where
  "sent ss \<equiv> pt_sent (ss_tracker ss)"

text \<open>What one turn of the pump keeps for the commands: ids registered, purposes of the futures, and
  that no id has two waiters.\<close>

definition keeps :: "session \<Rightarrow> session \<Rightarrow> bool" where
  "keeps ss ss' \<longleftrightarrow> sent ss' = sent ss \<and> purposes ss' = purposes ss
     \<and> (dict_ok (ss_command_waiters ss) \<longrightarrow> dict_ok (ss_command_waiters ss'))"

lemma keeps_trans: "keeps a b \<Longrightarrow> keeps b c \<Longrightarrow> keeps a c"
  by (simp add: keeps_def)

lemma keeps_answer: "keeps ss (answer_command rid x ss)"
  by (simp add: keeps_def answer_command_def settle_future_alt split: option.splits)

lemma keeps_fail_all: "keeps ss (fail_all_waiters e ss)"
  by (simp add: keeps_def fail_all_alt)

lemma keeps_same: "sent ss' = sent ss \<Longrightarrow> ss_futures ss' = ss_futures ss \<Longrightarrow>
    ss_command_waiters ss' = ss_command_waiters ss \<Longrightarrow> keeps ss ss'"
  by (simp add: keeps_def)

lemma keeps_result: "keeps ss (session_on_result r ss)"
  unfolding session_on_result_alt
  by (rule keeps_trans [OF keeps_same keeps_answer]) (simp_all add: note_result_def pending_resolve_def)

lemma keeps_results: "keeps ss (fold session_on_result rs ss)"
proof (induction rs arbitrary: ss)
  case (Cons r rs)
  show ?case using keeps_trans [OF keeps_result Cons.IH] by simp
qed (simp add: keeps_def)

lemma keeps_error: "keeps ss (session_on_protocol_error ev ss)"
proof (cases "err_request_id ev")
  case (Some rid)
  show ?thesis unfolding session_on_protocol_error_alt Some option.case
    by (rule keeps_trans [OF keeps_same keeps_answer]) (simp_all add: pending_resolve_def)
qed (simp add: session_on_protocol_error_alt keeps_def)

lemma keeps_readiness: "keeps ss (resolve_readiness a ss)"
  by (simp add: keeps_def resolve_readiness_def settle_future_alt Let_def split: option.splits)

lemma keeps_snapshot: "keeps ss (session_on_snapshot now uuid s ss)"
proof (cases "case ss_latest ss of None \<Rightarrow> False | Some v \<Rightarrow> snapshot_sequence s \<le> snapshot_sequence v")
  case False
  obtain still fs where shape: "session_on_snapshot now uuid s ss = fold session_on_result (request_results s)
       ((store_snapshot now uuid s ss)\<lparr>ss_futures := fs, ss_snapshot_waiters := still\<rparr>)"
    and fs: "map fst fs = purposes ss"
    by (rule on_snapshot_shape [OF False])
  show ?thesis unfolding shape
    by (rule keeps_trans [OF _ keeps_results]) (simp add: keeps_def fs)
qed (simp add: on_snapshot_ignored keeps_def)

lemma keeps_route: "keeps ss (session_route now uuid ev ss)"
  by (cases ev) (simp_all add: keeps_snapshot keeps_result keeps_readiness keeps_error)

lemma keeps_follow: "keeps ss (follow_directive ser up d ss)"
proof (cases ser up d ss rule: follow_directive_cases)
  case (abort e reason c)
  show ?thesis unfolding abort by (rule keeps_trans [OF keeps_same keeps_fail_all]) simp_all
next
  case (reconnect e)
  have "keeps ss (fail_all_waiters e (ss\<lparr>ss_reconnect_wanted := True\<rparr>))"
    by (rule keeps_trans [OF keeps_same keeps_fail_all]) simp_all
  then show ?thesis unfolding reconnect by (rule keeps_trans) (simp add: keeps_def)
qed (simp add: keeps_def)

lemma keeps_consume: "keeps ss (consume_event ser up now uuid ss)"
proof (cases ss rule: consume_event_cases [where ser = ser and up = up and now = now and uuid = uuid])
  case (routed ev d l q)
  have "keeps ss (session_route now uuid ev (ss\<lparr>ss_queue := q, ss_lifecycle := l\<rparr>))"
    by (rule keeps_trans [OF keeps_same keeps_route]) simp_all
  then show ?thesis unfolding routed(4) by (rule keeps_trans [OF _ keeps_follow])
next
  case closed
  show ?thesis unfolding closed by (rule keeps_trans [OF keeps_same keeps_fail_all]) simp_all
next
  case rejected
  show ?thesis unfolding rejected by (rule keeps_trans [OF keeps_same keeps_fail_all]) simp_all
qed (simp_all add: keeps_def)

text \<open>A successful \<open>send_begin\<close>, taken apart.\<close>

lemma send_begin_Inr:
  assumes "send_begin ser digest m knd rid ss = (Inr c, ss')"
  obtains s t where
    "encode_client_message ser m (Some (max_command_bytes (snap_rules s))) = Inr (sd_payload c)"
    "sd_request_id c = rid" "sd_fingerprint c = body_fingerprint digest (sd_payload c)"
    "sd_retry c = is_exact_retry rid (sd_fingerprint c) (ss_tracker ss)"
    "dict_get (ss_command_waiters ss) rid = None" "ss_latest ss = Some s" "trading_eligible ss s"
    "\<not> sd_retry c \<longrightarrow> 0 < fst (remaining (snap_tick s) (ss_throttle ss))"
    "pending_register rid (sd_fingerprint c) knd (snap_tick s) (ss_tracker ss) = Inr t"
    "sd_future c = length (ss_futures ss)"
    "ss' = ss\<lparr>ss_tracker := t, ss_futures := ss_futures ss @ [(ForCommand rid, Pending)],
       ss_command_waiters := dict_set rid (length (ss_futures ss)) (ss_command_waiters ss),
       ss_throttle := (if sd_retry c then ss_throttle ss
         else record_sent (snap_tick s) 1 (snd (remaining (snap_tick s) (ss_throttle ss))))\<rparr>"
proof -
  from assms obtain payload where p:
    "encode_client_message ser m (map_option (max_command_bytes \<circ> snap_rules) (ss_latest ss)) = Inr payload"
    by (auto simp: send_begin_def split: sum.splits)
  from assms p obtain s where s: "ss_latest ss = Some s" "trading_eligible ss s"
      "dict_get (ss_command_waiters ss) rid = None"
    by (auto simp: send_begin_def blocked_def Let_def split: if_splits option.splits prod.splits)
  let ?fp = "body_fingerprint digest payload"
  show thesis
  proof (cases "is_exact_retry rid ?fp (ss_tracker ss)")
    case True
    with assms p s show thesis
      by (auto simp: send_begin_def blocked_def Let_def create_future_def split: sum.splits intro!: that)
  next
    case False
    obtain k th where r: "remaining (snap_tick s) (ss_throttle ss) = (k, th)"
      by (cases "remaining (snap_tick s) (ss_throttle ss)")
    from False assms p s r show thesis
      by (auto simp: send_begin_def blocked_def Let_def create_future_def remaining_command_budget_def
          split: sum.splits if_splits intro!: that)
  qed
qed

lemma send_begin_Inl:
  assumes "send_begin ser digest m knd rid ss = (Inl e, ss')"
  shows "\<exists>th. ss' = ss\<lparr>ss_throttle := th\<rparr>"
proof -
  have same: "\<exists>th. x = x\<lparr>ss_throttle := th\<rparr>" for x :: session
    by (rule exI [of _ "ss_throttle x"]) simp
  show ?thesis
    using assms same
    by (auto simp: send_begin_def blocked_def Let_def create_future_def remaining_command_budget_def
        split: sum.splits if_splits option.splits prod.splits)
qed

text \<open>
  The commands begun so far against the tracker: the tracker knows exactly their ids, each with the
  fingerprint it was begun with, a command is a retry exactly when its id was begun before, and
  each waits on a future of its own request.
\<close>

definition retry_marks :: "sending list \<Rightarrow> bool" where
  "retry_marks cs \<longleftrightarrow> (\<forall>i<length cs. sd_retry (cs ! i) \<longleftrightarrow> sd_request_id (cs ! i) \<in> sd_request_id ` set (take i cs))"

lemma retry_marks_snoc: "retry_marks (cs @ [c]) \<longleftrightarrow>
    retry_marks cs \<and> (sd_retry c \<longleftrightarrow> sd_request_id c \<in> sd_request_id ` set cs)"
  by (auto simp: retry_marks_def nth_append less_Suc_eq)

definition begun_ok :: "(bytes \<Rightarrow> string) \<Rightarrow> sending list \<Rightarrow> session \<Rightarrow> bool" where
  "begun_ok digest cs ss \<longleftrightarrow>
     (\<forall>rid. dict_get (sent ss) rid \<noteq> None \<longrightarrow> rid \<in> sd_request_id ` set cs)
     \<and> (\<forall>c \<in> set cs. (\<exists>p. dict_get (sent ss) (sd_request_id c) = Some p \<and> pr_fingerprint p = sd_fingerprint c)
          \<and> sd_fingerprint c = body_fingerprint digest (sd_payload c)
          \<and> asked (purposes ss) (sd_future c) (ForCommand (sd_request_id c)))
     \<and> retry_marks cs"

lemma begun_ok_carry: "begun_ok digest cs ss \<Longrightarrow> sent ss' = sent ss \<Longrightarrow> purposes ss' = purposes ss @ qs \<Longrightarrow>
    begun_ok digest cs ss'"
  by (auto simp: begun_ok_def asked_snoc)

lemma begun_ok_kept: "begun_ok digest cs ss \<Longrightarrow> keeps ss ss' \<Longrightarrow> begun_ok digest cs ss'"
  by (auto simp: keeps_def elim!: begun_ok_carry [where qs = "[]"])

lemma pending_register_Inr:
  assumes "pending_register rid f knd n tr = Inr t"
  shows "pt_sent t = dict_set rid \<lparr>pr_request_id = rid, pr_fingerprint = f, pr_kind = knd, pr_sent_tick = n\<rparr> (pt_sent tr)"
    and "dict_get (pt_sent tr) rid = Some q \<Longrightarrow> pr_fingerprint q = f"
  using assms by (auto simp: pending_register_def split: if_splits)

lemma begun_ok_begin:
  assumes "begun_ok digest cs ss" and "send_begin ser digest m knd rid ss = (Inr c, ss')"
  shows "begun_ok digest (cs @ [c]) ss'"
proof -
  obtain s :: snapshot and t where b: "sd_request_id c = rid"
      "sd_fingerprint c = body_fingerprint digest (sd_payload c)"
      "sd_retry c = is_exact_retry rid (sd_fingerprint c) (ss_tracker ss)"
      "pending_register rid (sd_fingerprint c) knd (snap_tick s) (ss_tracker ss) = Inr t"
      "sd_future c = length (ss_futures ss)"
    and ss': "ss' = ss\<lparr>ss_tracker := t, ss_futures := ss_futures ss @ [(ForCommand rid, Pending)],
       ss_command_waiters := dict_set rid (length (ss_futures ss)) (ss_command_waiters ss),
       ss_throttle := (if sd_retry c then ss_throttle ss
         else record_sent (snap_tick s) 1 (snd (remaining (snap_tick s) (ss_throttle ss))))\<rparr>"
    by (rule send_begin_Inr [OF assms(2)]) (rule that; assumption)
  have ps: "purposes ss' = purposes ss @ [ForCommand rid]" and tr: "ss_tracker ss' = t"
    by (simp_all add: ss')
  let ?p = "\<lparr>pr_request_id = rid, pr_fingerprint = sd_fingerprint c, pr_kind = knd, pr_sent_tick = snap_tick s\<rparr>"
  note t = pending_register_Inr(1) [OF b(4)] and old = pending_register_Inr(2) [OF b(4)]
  have retry: "sd_retry c \<longleftrightarrow> rid \<in> sd_request_id ` set cs"
    using assms(1) old b(3) by (fastforce simp: begun_ok_def is_exact_retry_def split: option.splits)
  have fp: "sd_fingerprint c' = sd_fingerprint c" if "c' \<in> set cs" "sd_request_id c' = rid" for c'
    using assms(1) old that by (fastforce simp: begun_ok_def)
  have futs: "asked (purposes ss') (sd_future c') (ForCommand (sd_request_id c'))" if "c' \<in> set cs" for c'
    using assms(1) that by (simp add: begun_ok_def ps asked_snoc)
  have fut: "asked (purposes ss') (sd_future c) (ForCommand rid)"
    using asked_new [of "purposes ss" "ForCommand rid"] by (simp add: ps b(5))
  show ?thesis
    using assms(1) b(1,2) t fp fut futs retry
    by (auto simp: begun_ok_def tr dict_get_set retry_marks_snoc)
qed

subsection \<open>Reachable sessions\<close>

definition desk_ok :: "(bytes \<Rightarrow> string) \<Rightarrow> desk \<Rightarrow> bool" where
  "desk_ok digest d \<longleftrightarrow> history_ok (dk_seen d) (dk_session d) \<and> futures_ok (dk_session d)
     \<and> dict_ok (ss_command_waiters (dk_session d)) \<and> begun_ok digest (map fst (dk_sends d)) (dk_session d)"

lemma desk_okI:
  assumes "desk_ok digest d" and "history_ok (dk_seen d) ss" and "futures_ok ss"
    and "dict_ok (ss_command_waiters ss)" and "begun_ok digest (map fst (dk_sends d)) ss"
  shows "desk_ok digest (d\<lparr>dk_session := ss\<rparr>)"
  using assms by (simp add: desk_ok_def)

text \<open>An operation that leaves all of it alone.\<close>

lemma desk_ok_same:
  assumes "desk_ok digest d" and "ss_latest ss = ss_latest (dk_session d)"
    and "ss_by_sequence ss = ss_by_sequence (dk_session d)" "ss_received_at ss = ss_received_at (dk_session d)"
    and "ss_futures ss = ss_futures (dk_session d)" "ss_snapshot_waiters ss = ss_snapshot_waiters (dk_session d)"
    and "ss_command_waiters ss = ss_command_waiters (dk_session d)"
    and "ss_readiness_waiter ss = ss_readiness_waiter (dk_session d)" "ss_tracker ss = ss_tracker (dk_session d)"
  shows "desk_ok digest (d\<lparr>dk_session := ss\<rparr>)"
proof -
  note ok = assms(1) [unfolded desk_ok_def]
  show ?thesis
  proof (rule desk_okI [OF assms(1)])
    show "history_ok (dk_seen d) ss"
      by (rule history_ok_carry [OF conjunct1 [OF ok]]) (simp_all add: assms)
    show "futures_ok ss" by (rule futures_ok_carry [of "dk_session d"]) (simp_all add: ok assms)
    show "dict_ok (ss_command_waiters ss)" by (simp add: ok assms)
    show "begun_ok digest (map fst (dk_sends d)) ss"
      by (rule begun_ok_carry [where ss = "dk_session d" and qs = "[]"]) (simp_all add: ok assms)
  qed
qed

lemma futures_ok_cancel: "futures_ok ss \<Longrightarrow> futures_ok (settle_future Cancelled n ss)"
  unfolding futures_ok_def settle_future_alt by (auto intro!: holds_settle elim!: waiters_ok_shrink)

lemma awaited_shape:
  assumes "awaited n ss = (a, ss')"
  shows "\<exists>fs. ss' = ss\<lparr>ss_futures := fs\<rparr> \<and> map fst fs = purposes ss \<and> (futures_ok ss \<longrightarrow> futures_ok ss')"
proof (cases "ss' = ss")
  case True
  then show ?thesis by (intro exI [of _ "ss_futures ss"]) simp
next
  case False
  with assms have "ss' = settle_future Cancelled n ss"
    by (auto simp: awaited_def split: future.splits)
  then show ?thesis using futures_ok_cancel [of ss n] by (auto simp: settle_future_alt)
qed

lemma dict_set_mem: "(k', v') \<in> set (dict_set k v d) \<Longrightarrow> (k' = k \<and> v' = v) \<or> (k', v') \<in> set d"
  by (induction d) (auto split: if_splits)

text \<open>Adding one pending future, with or without its waiter; removing waiters.\<close>

lemma futures_ok_new:
  assumes "futures_ok ss" and "ss_futures ss' = ss_futures ss @ [(p, Pending)]"
    and "ss_snapshot_waiters ss' = ss_snapshot_waiters ss \<or>
         (\<exists>k. p = ForSnapshot k \<and> ss_snapshot_waiters ss' = ss_snapshot_waiters ss @ [(k, length (ss_futures ss))])"
    and "ss_command_waiters ss' = ss_command_waiters ss \<or>
         (\<exists>rid. p = ForCommand rid \<and> ss_command_waiters ss' = dict_set rid (length (ss_futures ss)) (ss_command_waiters ss))"
    and "ss_readiness_waiter ss' = ss_readiness_waiter ss \<or>
         (p = ForReadiness \<and> ss_readiness_waiter ss' = Some (length (ss_futures ss)))"
  shows "futures_ok ss'"
proof -
  have ps: "purposes ss' = purposes ss @ [p]" by (simp add: assms(2))
  have new: "asked (purposes ss') (length (ss_futures ss)) p"
    using asked_new [of "purposes ss" p] by (simp add: ps)
  have old: "asked (purposes ss) n q \<Longrightarrow> asked (purposes ss') n q" for n q
    by (simp add: ps asked_snoc)
  have ok: "\<forall>(k, n) \<in> set (ss_snapshot_waiters ss). asked (purposes ss) n (ForSnapshot k)"
    "\<forall>(rid, n) \<in> set (ss_command_waiters ss). asked (purposes ss) n (ForCommand rid)"
    "case ss_readiness_waiter ss of None \<Rightarrow> True | Some n \<Rightarrow> asked (purposes ss) n ForReadiness"
    "list_all holds (ss_futures ss)"
    using assms(1) by (simp_all add: futures_ok_def waiters_ok_def)
  have old1: "(k, n) \<in> set (ss_snapshot_waiters ss) \<Longrightarrow> asked (purposes ss') n (ForSnapshot k)" for k n
    using ok(1) by (auto intro: old)
  have old2: "(rid, n) \<in> set (ss_command_waiters ss) \<Longrightarrow> asked (purposes ss') n (ForCommand rid)" for rid n
    using ok(2) by (auto intro: old)
  have "\<forall>(k, n) \<in> set (ss_snapshot_waiters ss'). asked (purposes ss') n (ForSnapshot k)"
    using assms(3) new by (auto simp: old1)
  moreover have "\<forall>(rid, n) \<in> set (ss_command_waiters ss'). asked (purposes ss') n (ForCommand rid)"
    using assms(4) new by (auto simp: old2 dest!: dict_set_mem)
  moreover have "case ss_readiness_waiter ss' of None \<Rightarrow> True | Some n \<Rightarrow> asked (purposes ss') n ForReadiness"
    using assms(5) ok(3) new by (auto simp: old split: option.splits)
  ultimately show ?thesis using ok(4) by (simp add: futures_ok_def waiters_ok_def assms(2))
qed

lemma desk_ok_changed:
  assumes "desk_ok digest d" and "ss_latest ss = ss_latest (dk_session d)"
    and "ss_by_sequence ss = ss_by_sequence (dk_session d)" "ss_received_at ss = ss_received_at (dk_session d)"
    and "futures_ok ss" and "dict_ok (ss_command_waiters ss)"
    and "sent ss = sent (dk_session d)" and "purposes ss = purposes (dk_session d) @ qs"
  shows "desk_ok digest (d\<lparr>dk_session := ss\<rparr>)"
proof (rule desk_okI [OF assms(1)])
  note ok = assms(1) [unfolded desk_ok_def]
  show "history_ok (dk_seen d) ss"
    by (rule history_ok_carry [OF conjunct1 [OF ok]]) (simp_all add: assms)
  show "begun_ok digest (map fst (dk_sends d)) ss"
    by (rule begun_ok_carry [where ss = "dk_session d" and qs = qs]) (simp_all add: ok assms)
qed (fact assms)+

lemma desk_ok_sends:
  "desk_ok digest d \<Longrightarrow> map fst cs = map fst (dk_sends d) \<Longrightarrow> desk_ok digest (d\<lparr>dk_sends := cs\<rparr>)"
  by (simp add: desk_ok_def)

lemma desk_ok_wait:
  assumes ok: "desk_ok digest d" and w: "wait_for_snapshot k (dk_session d) = (r, ss)"
  shows "desk_ok digest (d\<lparr>dk_session := ss\<rparr>)"
proof (cases r)
  case (Inl v)
  with w have "ss = dk_session d"
    by (auto simp: wait_for_snapshot_def create_future_def split: option.splits if_splits prod.splits)
  with ok show ?thesis by simp
next
  case (Inr n)
  let ?s = "dk_session d"
  from w Inr have ss: "ss = ?s\<lparr>ss_futures := ss_futures ?s @ [(ForSnapshot k, Pending)],
      ss_snapshot_waiters := ss_snapshot_waiters ?s @ [(k, length (ss_futures ?s))]\<rparr>"
    by (auto simp: wait_for_snapshot_def create_future_def split: option.splits if_splits prod.splits)
  have "futures_ok ?s" using ok by (simp add: desk_ok_def)
  then have "futures_ok ss" by (rule futures_ok_new [where p = "ForSnapshot k"]) (simp_all add: ss)
  then show ?thesis
    by (rule_tac desk_ok_changed [OF ok, where qs = "[ForSnapshot k]"])
       (use ok in \<open>simp_all add: ss desk_ok_def\<close>)
qed

lemma desk_ok_readiness:
  assumes ok: "desk_ok digest d" and w: "wait_for_readiness (dk_session d) = (r, ss)"
  shows "desk_ok digest (d\<lparr>dk_session := ss\<rparr>)"
proof (cases r)
  case (Inl v)
  with w have "ss = dk_session d"
    by (auto simp: wait_for_readiness_def create_future_def split: option.splits prod.splits)
  with ok show ?thesis by simp
next
  case (Inr n)
  let ?s = "dk_session d"
  from w Inr have ss: "ss = ?s\<lparr>ss_futures := ss_futures ?s @ [(ForReadiness, Pending)],
      ss_readiness_waiter := Some (length (ss_futures ?s))\<rparr>"
    by (auto simp: wait_for_readiness_def create_future_def split: option.splits prod.splits)
  have "futures_ok ?s" using ok by (simp add: desk_ok_def)
  then have "futures_ok ss" by (rule futures_ok_new [where p = ForReadiness]) (simp_all add: ss)
  then show ?thesis
    by (rule_tac desk_ok_changed [OF ok, where qs = "[ForReadiness]"])
       (use ok in \<open>simp_all add: ss desk_ok_def\<close>)
qed

lemma futures_ok_dropped:
  assumes "futures_ok ss" and "ss_futures ss' = ss_futures ss" "ss_readiness_waiter ss' = ss_readiness_waiter ss"
    and "set (ss_snapshot_waiters ss') \<subseteq> set (ss_snapshot_waiters ss)"
    and "set (ss_command_waiters ss') \<subseteq> set (ss_command_waiters ss)"
  shows "futures_ok ss'"
  using assms waiters_ok_shrink [of ss ss'] by (simp add: futures_ok_def)

lemma desk_ok_awaited:
  assumes ok: "desk_ok digest d" and a: "awaited n (dk_session d) = (a, s1)"
    and ss: "ss = s1\<lparr>ss_snapshot_waiters := sw, ss_command_waiters := cw\<rparr>"
    and w: "set sw \<subseteq> set (ss_snapshot_waiters (dk_session d))" "set cw \<subseteq> set (ss_command_waiters (dk_session d))" "dict_ok cw"
  shows "desk_ok digest (d\<lparr>dk_session := ss\<rparr>)"
proof -
  let ?s = "dk_session d"
  obtain fs where s1: "s1 = ?s\<lparr>ss_futures := fs\<rparr>" "map fst fs = purposes ?s" "futures_ok s1"
    using awaited_shape [OF a] ok by (auto simp: desk_ok_def)
  have "futures_ok ss" by (rule futures_ok_dropped [OF s1(3)]) (use w in \<open>simp_all add: ss s1(1)\<close>)
  then show ?thesis
    by (rule_tac desk_ok_changed [OF ok, where qs = "[]"]) (simp_all add: ss s1(1,2) w)
qed

lemma desk_ok_begin:
  assumes ok: "desk_ok digest d" and b: "send_begin ser digest m knd rid (dk_session d) = (Inr c, ss)"
  shows "desk_ok digest (d\<lparr>dk_session := ss, dk_sends := dk_sends d @ [(c, Charged)]\<rparr>)"
proof -
  let ?s = "dk_session d"
  have inv: "history_ok (dk_seen d) ?s" "futures_ok ?s" "dict_ok (ss_command_waiters ?s)"
      "begun_ok digest (map fst (dk_sends d)) ?s"
    using ok by (simp_all add: desk_ok_def)
  obtain t th where ss: "ss = ?s\<lparr>ss_tracker := t, ss_futures := ss_futures ?s @ [(ForCommand rid, Pending)],
       ss_command_waiters := dict_set rid (length (ss_futures ?s)) (ss_command_waiters ?s), ss_throttle := th\<rparr>"
    by (rule send_begin_Inr [OF b]) (rule that; assumption)
  have "history_ok (dk_seen d) ss" by (rule history_ok_carry [OF inv(1)]) (simp_all add: ss)
  moreover have "futures_ok ss"
    by (rule futures_ok_new [OF inv(2), where p = "ForCommand rid"]) (simp_all add: ss)
  moreover have "dict_ok (ss_command_waiters ss)" using inv(3) by (simp add: ss)
  moreover have "begun_ok digest (map fst (dk_sends d @ [(c, Charged)])) ss"
    using begun_ok_begin [OF inv(4) b] by simp
  ultimately show ?thesis by (simp add: desk_ok_def)
qed

lemma desk_ok_stop:
  assumes ok: "desk_ok digest d"
  shows "desk_ok digest (d\<lparr>dk_session := session_stop (dk_session d)\<rparr>)"
proof (rule desk_okI [OF ok])
  let ?s = "dk_session d"
  let ?t = "?s\<lparr>ss_pumping := False, ss_receiving := False, ss_connected := False\<rparr>"
  have stop: "session_stop ?s = fail_all_waiters (SessionClosedError ''session stopped'') ?t"
    by (simp add: session_stop_def)
  have inv: "history_ok (dk_seen d) ?s" "futures_ok ?s" "dict_ok (ss_command_waiters ?s)"
      "begun_ok digest (map fst (dk_sends d)) ?s"
    using ok by (simp_all add: desk_ok_def)
  show "history_ok (dk_seen d) (session_stop ?s)"
    unfolding stop by (rule history_ok_carry [OF inv(1)]) simp_all
  show "futures_ok (session_stop ?s)"
    unfolding stop by (rule futures_ok_fail_all, rule futures_ok_carry [OF inv(2)]) simp_all
  have "keeps ?s (session_stop ?s)"
    unfolding stop by (rule keeps_trans [OF keeps_same keeps_fail_all]) simp_all
  with inv(3,4) show "dict_ok (ss_command_waiters (session_stop ?s))"
    and "begun_ok digest (map fst (dk_sends d)) (session_stop ?s)"
    by (auto simp: keeps_def intro: begun_ok_kept [of digest _ ?s])
qed

lemma desk_ok_pump:
  assumes ok: "desk_ok digest d"
  shows "desk_ok digest (d\<lparr>dk_session := consume_event ser up now uuid (dk_session d),
     dk_seen := dk_seen d @ taken_snapshot (dk_session d)\<rparr>)"
  using ok keeps_consume [of "dk_session d" ser up now uuid]
  by (auto simp: desk_ok_def consume_history consume_futures keeps_def intro: begun_ok_kept [OF _ keeps_consume])

lemma transmit_shape:
  assumes "send_transmit up c ss = (x, ss')"
  shows "ss' = ss\<lparr>ss_command_waiters := dict_pop (sd_request_id c) (ss_command_waiters ss)\<rparr>
     \<or> ss' = ss\<lparr>ss_frames := ss_frames ss @ [sd_payload c]\<rparr>"
  using assms by (auto simp: send_transmit_def send_payload_def split: if_splits)

theorem session_reach_ok: "session_reach ser parse digest d \<Longrightarrow> desk_ok digest d"
proof (induction rule: session_reach.induct)
  case (reach_start th ss)
  then have "ss = (session_init th)\<lparr>ss_connected := True, ss_lifecycle := on_connected lifecycle_init,
      ss_receiving := True, ss_pumping := True\<rparr>"
    by (auto simp: session_start_def session_init_def)
  then show ?case
    by (simp add: desk_ok_def session_init_def history_ok_def futures_ok_def waiters_ok_def begun_ok_def
        retry_marks_def pending_init_def newest_def)
next
  case (reach_frame d raw)
  show ?case
    by (rule desk_ok_same [OF reach_frame.IH]) (simp_all add: receive_frame_def split: frame.splits)
next
  case (reach_end d)
  show ?case by (rule desk_ok_same [OF reach_end.IH]) (simp_all add: receive_end_def)
next
  case reach_pump
  then show ?case by (intro desk_ok_pump)
next
  case reach_wait
  then show ?case by (intro desk_ok_wait)
next
  case (reach_wait_over d k n a ss)
  from reach_wait_over.hyps(3) obtain s1 where "awaited n (dk_session d) = (a, s1)"
    and "ss = s1\<lparr>ss_snapshot_waiters := filter (\<lambda>(_, m). m \<noteq> n) (ss_snapshot_waiters s1)\<rparr>"
    by (auto simp: wait_for_snapshot_over_def split: prod.splits)
  moreover obtain fs where "s1 = (dk_session d)\<lparr>ss_futures := fs\<rparr>"
    using awaited_shape [OF calculation(1)] by blast
  ultimately show ?case using reach_wait_over.IH
    by (intro desk_ok_awaited [where n = n and a = a and ?s1.0 = s1 and cw = "ss_command_waiters s1"]) (auto simp: desk_ok_def)
next
  case reach_ready
  then show ?case by (intro desk_ok_readiness)
next
  case (reach_ready_over d n a ss)
  obtain fs where "ss = (dk_session d)\<lparr>ss_futures := fs\<rparr>"
    using awaited_shape [OF reach_ready_over.hyps(3)] by blast
  then show ?case using reach_ready_over.IH
    by (intro desk_ok_awaited [where n = n and a = a and ?s1.0 = ss and sw = "ss_snapshot_waiters ss" and cw = "ss_command_waiters ss"])
       (auto simp: desk_ok_def reach_ready_over.hyps)
next
  case (reach_sync d up b ss)
  show ?case
    using desk_ok_same [OF reach_sync.IH] reach_sync.hyps(2)
    by (auto simp: send_sync_def split: sum.splits dest!: send_message_shape)
next
  case (reach_budget d k ss)
  show ?case
    using desk_ok_same [OF reach_budget.IH] reach_budget.hyps(2)
    by (auto simp: remaining_command_budget_def split: option.splits if_splits prod.splits)
next
  case (reach_refused d m knd rid e ss)
  obtain th where "ss = (dk_session d)\<lparr>ss_throttle := th\<rparr>"
    using send_begin_Inl [OF reach_refused.hyps(2)] by blast
  then show ?case using desk_ok_same [OF reach_refused.IH] by simp
next
  case reach_begun
  then show ?case by (intro desk_ok_begin)
next
  case (reach_transmit d i c up x ss)
  have ok: "futures_ok (dk_session d)" "dict_ok (ss_command_waiters (dk_session d))"
    using reach_transmit.IH by (simp_all add: desk_ok_def)
  from transmit_shape [OF reach_transmit.hyps(4)] have "desk_ok digest (d\<lparr>dk_session := ss\<rparr>)"
  proof
    assume ss: "ss = (dk_session d)\<lparr>ss_command_waiters := dict_pop (sd_request_id c) (ss_command_waiters (dk_session d))\<rparr>"
    have "futures_ok ss" by (rule futures_ok_dropped [OF ok(1)]) (simp_all add: ss dict_pop_subset)
    then show ?thesis
      by (rule_tac desk_ok_changed [OF reach_transmit.IH, where qs = "[]"]) (use ok(2) in \<open>simp_all add: ss\<close>)
  next
    assume ss: "ss = (dk_session d)\<lparr>ss_frames := ss_frames (dk_session d) @ [sd_payload c]\<rparr>"
    show ?thesis by (rule desk_ok_same [OF reach_transmit.IH]) (simp_all add: ss)
  qed
  from desk_ok_sends [OF this, of "(dk_sends d)[i := (c, case x of Inl e \<Rightarrow> Ended (Inl e) | Inr _ \<Rightarrow> Transmitted)]"]
  show ?case using reach_transmit.hyps(2,3) by (simp add: map_update list_update_same_conv [THEN iffD2])
next
  case (reach_answer d i c a ss)
  from reach_answer.hyps(4) obtain s1 where aw: "awaited (sd_future c) (dk_session d) = (a, s1)"
    and "ss = s1\<lparr>ss_command_waiters := dict_pop (sd_request_id c) (ss_command_waiters s1)\<rparr>"
    by (auto simp: send_over_def split: prod.splits)
  moreover obtain fs where s1: "s1 = (dk_session d)\<lparr>ss_futures := fs\<rparr>"
    using awaited_shape [OF aw] by blast
  ultimately have "desk_ok digest (d\<lparr>dk_session := ss\<rparr>)" using reach_answer.IH
    by (intro desk_ok_awaited [where n = "sd_future c" and a = a and ?s1.0 = s1 and sw = "ss_snapshot_waiters s1"
          and cw = "dict_pop (sd_request_id c) (ss_command_waiters s1)"])
       (auto simp: desk_ok_def dest!: dict_pop_subset [THEN subsetD])
  from desk_ok_sends [OF this, of "(dk_sends d)[i := (c, Ended a)]"] show ?case
    using reach_answer.hyps(2,3) by (simp add: map_update list_update_same_conv [THEN iffD2])
next
  case reach_stop
  then show ?case by (intro desk_ok_stop)
qed

end
