(* ===== verification/Commitments.thy ===== *)
theory Commitments
  imports Types
begin

text \<open>
  \<open>bazaar_client/world/commitments.py\<close>: what is already promised. The server holds no escrow,
  so the client sums the give side of its open offers (read from each snapshot) and of the
  offers in flight (sent, not yet confirmed), and treats only the rest of the inventory as
  available.
\<close>

record commitment_tracker =
  inflight :: "(string, Bundle) pydict"

definition tracker_init :: commitment_tracker where
  "tracker_init = \<lparr>inflight = []\<rparr>"

definition register_inflight :: "string \<Rightarrow> Bundle \<Rightarrow> commitment_tracker \<Rightarrow> commitment_tracker" where
  "register_inflight rid g t = t\<lparr>inflight := dict_set rid g (inflight t)\<rparr>"

definition resolve_inflight :: "string \<Rightarrow> commitment_tracker \<Rightarrow> commitment_tracker" where
  "resolve_inflight rid t = t\<lparr>inflight := dict_pop rid (inflight t)\<rparr>"

definition clear_inflight :: "commitment_tracker \<Rightarrow> commitment_tracker" where
  "clear_inflight t = t\<lparr>inflight := []\<rparr>"

definition inflight_count :: "commitment_tracker \<Rightarrow> nat" where
  "inflight_count t = length (inflight t)"

definition inflight_total :: "commitment_tracker \<Rightarrow> Bundle" where
  "inflight_total t = fold (\<lambda>g tot. bundle_add tot g) (dict_values (inflight t)) zero_bundle"

definition outstanding_confirmed_give :: "snapshot \<Rightarrow> Bundle" where
  "outstanding_confirmed_give s =
     fold (\<lambda>o' tot.
        if proposer_id o' \<noteq> self_station_id s then tot
        else if offer_status o' \<noteq> OPEN then tot
        else if is_expired_at o' (snap_tick s) then tot
        else bundle_add tot (give o')) (offers s) zero_bundle"

definition available_to_commit :: "commitment_tracker \<Rightarrow> snapshot \<Rightarrow> Bundle" where
  "available_to_commit t s =
     (let committed = outstanding_confirmed_give s
      in saturating_sub (saturating_sub (inventory (me s)) committed) (inflight_total t))"

definition can_afford :: "commitment_tracker \<Rightarrow> snapshot \<Rightarrow> Bundle \<Rightarrow> bool" where
  "can_afford t s cost \<longleftrightarrow> dominates (available_to_commit t s) cost"

subsection \<open>Sums\<close>

lemma fold_bundle_add: "fold (\<lambda>g tot. bundle_add tot g) gs acc = acc + sum_list gs"
  by (induction gs arbitrary: acc) (simp_all add: bundle_folds ac_simps)

lemma inflight_total_sum: "inflight_total t = sum_list (dict_values (inflight t))"
  unfolding inflight_total_def fold_bundle_add by (simp add: bundle_folds)

lemma outstanding_sum: "outstanding_confirmed_give s = sum_list (map give (outgoing_open_offers s))"
proof -
  have "fold (\<lambda>o' tot.
        if proposer_id o' \<noteq> sid then tot
        else if offer_status o' \<noteq> OPEN then tot
        else if is_expired_at o' t then tot
        else bundle_add tot (give o')) os acc =
      acc + sum_list (map give (filter (\<lambda>o'. proposer_id o' = sid \<and> is_open_at o' t) os))" for sid t os acc
    by (induction os arbitrary: acc) (auto simp: bundle_folds is_open_at_def ac_simps)
  then show ?thesis
    by (simp add: outstanding_confirmed_give_def outgoing_open_offers_def bundle_folds)
qed

text \<open>Everything promised at a moment.\<close>

definition promised :: "commitment_tracker \<Rightarrow> snapshot \<Rightarrow> Bundle" where
  "promised t s = outstanding_confirmed_give s + inflight_total t"

lemma available_alt: "available_to_commit t s = inventory (me s) - promised t s"
  by (simp add: available_to_commit_def promised_def bundle_folds Let_def diff_diff_eq)

lemma available_le_inventory: "available_to_commit t s \<le> inventory (me s)"
  by (simp add: available_alt bundle_le_iff)

lemma can_afford_iff: "can_afford t s cost \<longleftrightarrow> cost \<le> available_to_commit t s"
  by (simp add: can_afford_def bundle_folds)

lemma sum_values_set_fresh:
  "k \<notin> set (dict_keys d) \<Longrightarrow> sum_list (dict_values (dict_set k v d)) = sum_list (dict_values d) + v"
  for v :: Bundle
  by (induction d) (auto simp: ac_simps)

lemma sum_values_pop:
  "dict_ok d \<Longrightarrow> dict_get d k = Some v \<Longrightarrow>
     sum_list (dict_values (dict_pop k d)) + v = sum_list (dict_values d)"
  for v :: Bundle
proof (induction d)
  case Nil
  then show ?case by simp
next
  case (Cons p d)
  show ?case
  proof (cases "fst p = k")
    case True
    with Cons.prems have "k \<notin> set (dict_keys d)" by (auto simp: dict_ok_def)
    then have "dict_pop k d = d" by (simp add: delete_notin_dom)
    with True Cons.prems show ?thesis by (auto simp: AList.delete_eq ac_simps)
  next
    case False
    with Cons.prems have "dict_ok d" "dict_get d k = Some v"
      by (auto simp: dict_ok_def)
    from Cons.IH [OF this] False show ?thesis by (auto simp: AList.delete_eq ac_simps)
  qed
qed

lemma dict_pop_notin: "k \<notin> set (dict_keys d) \<Longrightarrow> dict_pop k d = d"
  by (simp add: delete_notin_dom)

end
