(* ===== verification/Floats.thy ===== *)
theory Floats
  imports Complex_Main "HOL-Library.Log_Nat" Prelude
begin

text \<open>
  Python floats. The policy computes prices, weights and scores in IEEE-754 binary64, and
  decides with the rounded results (\<open>1.2\<close> is not six fifths), so the model rounds where
  the machine rounds: a float is the rational it denotes, and every literal, conversion from
  \<open>int\<close> and arithmetic operation is followed by \<open>fl\<close>, round-to-nearest-even to a
  53-bit significand. The exponent is unbounded: overflow to infinity, the \<open>OverflowError\<close> of
  a conversion above \<open>2 ^ 1024\<close> and subnormal results are outside the model (quantities and
  ratios of the program are nowhere near either end).
\<close>

subsection \<open>Rounding to an integer, ties to even\<close>

definition round_half_even :: "rat \<Rightarrow> int" where
  "round_half_even x =
     (let f = \<lfloor>x\<rfloor>; d = x - of_int f
      in if d < 1 / 2 then f else if 1 / 2 < d then f + 1 else if even f then f else f + 1)"

lemma round_half_even_of_int [simp]: "round_half_even (of_int n) = n"
  by (simp add: round_half_even_def)

lemma round_half_even_bounds: "\<lfloor>x\<rfloor> \<le> round_half_even x \<and> round_half_even x \<le> \<lfloor>x\<rfloor> + 1"
  by (simp add: round_half_even_def Let_def)

lemma round_half_even_mono:
  assumes "x \<le> y"
  shows "round_half_even x \<le> round_half_even y"
proof (cases "\<lfloor>x\<rfloor> = \<lfloor>y\<rfloor>")
  case True
  with assms show ?thesis by (simp add: round_half_even_def Let_def)
next
  case False
  with assms have "\<lfloor>x\<rfloor> + 1 \<le> \<lfloor>y\<rfloor>"
    using floor_mono [OF assms] by linarith
  with round_half_even_bounds [of x] round_half_even_bounds [of y] show ?thesis by linarith
qed

subsection \<open>The binary exponent\<close>

definition binexp :: "rat \<Rightarrow> int" where
  "binexp x = (let (n, d) = quotient_of x; k = bitlen n - bitlen d
               in if 2 powi k \<le> x then k else k - 1)"

lemma powi_bitlen_bounds:
  assumes "0 < n"
  shows "(2::rat) powi (bitlen n - 1) \<le> of_int n" and "of_int n < (2::rat) powi (bitlen n)"
proof -
  from bitlen_bounds [OF assms]
  have b: "2 ^ nat (bitlen n - 1) \<le> n" "n < 2 ^ nat (bitlen n)" by auto
  have pos: "0 < bitlen n"
  proof -
    have "0 \<le> bitlen n" by (simp add: bitlen_def)
    moreover have "bitlen n \<noteq> 0" using b(2) assms by auto
    ultimately show ?thesis by simp
  qed
  have "(of_int (2 ^ nat (bitlen n - 1)) :: rat) \<le> of_int n"
    and "(of_int n :: rat) < of_int (2 ^ nat (bitlen n))"
    using b by (simp_all only: of_int_le_iff of_int_less_iff)
  then show "(2::rat) powi (bitlen n - 1) \<le> of_int n" and "of_int n < (2::rat) powi (bitlen n)"
    using pos by (simp_all add: power_int_def)
qed

lemma powi_le_iff: "(2::rat) powi a \<le> 2 powi b \<longleftrightarrow> a \<le> b"
  using power_int_increasing [of a b "2::rat"] power_int_strict_increasing [of b a "2::rat"]
  by (cases "a \<le> b") (auto simp: not_le)

lemma powi_less_iff: "(2::rat) powi a < 2 powi b \<longleftrightarrow> a < b"
  by (simp add: powi_le_iff flip: not_le)

lemma powi_pos [simp]: "0 < (2::rat) powi a"
  by (simp add: zero_less_power_int)

lemma powi_plus: "(2::rat) powi (a + b) = 2 powi a * 2 powi b"
  by (simp add: power_int_add)

lemma binexp_bounds:
  assumes "0 < x"
  shows "2 powi binexp x \<le> x" and "x < 2 powi (binexp x + 1)"
proof -
  obtain n d where q: "quotient_of x = (n, d)" by (cases "quotient_of x")
  then have d: "0 < d" and x: "x = of_int n / of_int d"
    by (auto simp: quotient_of_denom_pos quotient_of_div)
  with assms have n: "0 < n" by (simp add: zero_less_divide_iff)
  note nb = powi_bitlen_bounds [OF n] and db = powi_bitlen_bounds [OF d]
  let ?k = "bitlen n - bitlen d"
  have e1: "2 powi (?k + 1) * 2 powi (bitlen d - 1) = (2::rat) powi bitlen n"
    by (simp flip: powi_plus)
  have e2: "2 powi (?k - 1) * 2 powi bitlen d = (2::rat) powi (bitlen n - 1)"
    by (simp flip: powi_plus)
  have dq: "(0::rat) < of_int d" using d by simp
  have up: "x < 2 powi (?k + 1)"
  proof -
    have "2 powi (?k + 1) * 2 powi (bitlen d - 1) \<le> 2 powi (?k + 1) * (of_int d :: rat)"
      by (rule mult_left_mono) (use db in auto)
    with nb have "of_int n < 2 powi (?k + 1) * (of_int d :: rat)" using e1 by simp
    then show ?thesis using dq by (simp add: x divide_less_eq)
  qed
  have lo: "2 powi (?k - 1) \<le> x"
  proof -
    have "2 powi (?k - 1) * (of_int d :: rat) \<le> 2 powi (?k - 1) * 2 powi bitlen d"
      by (rule mult_left_mono) (use db in auto)
    with nb have "2 powi (?k - 1) * (of_int d :: rat) \<le> of_int n" using e2 by simp
    then show ?thesis using dq by (simp add: x le_divide_eq)
  qed
  from up lo show "2 powi binexp x \<le> x" and "x < 2 powi (binexp x + 1)"
    by (auto simp: binexp_def q Let_def)
qed

lemma binexp_mono:
  assumes "0 < x" and "x \<le> y"
  shows "binexp x \<le> binexp y"
proof -
  from binexp_bounds [of x] binexp_bounds [of y] assms
  have "(2::rat) powi binexp x < 2 powi (binexp y + 1)" by linarith
  then have "binexp x < binexp y + 1" by (simp only: powi_less_iff)
  then show ?thesis by simp
qed

lemma binexp_le:
  assumes "0 < x" and "x < 2 powi k"
  shows "binexp x < k"
proof -
  from binexp_bounds(1) [OF assms(1)] assms(2) have "(2::rat) powi binexp x < 2 powi k" by linarith
  then show ?thesis by (simp only: powi_less_iff)
qed

subsection \<open>Rounding to binary64\<close>

definition fl :: "rat \<Rightarrow> rat" where
  "fl x = (if x = 0 then 0
           else let e = binexp \<bar>x\<bar> in of_int (round_half_even (x * 2 powi (52 - e))) * 2 powi (e - 52))"

definition fadd :: "rat \<Rightarrow> rat \<Rightarrow> rat" where "fadd x y = fl (x + y)"
definition fsub :: "rat \<Rightarrow> rat \<Rightarrow> rat" where "fsub x y = fl (x - y)"
definition fmul :: "rat \<Rightarrow> rat \<Rightarrow> rat" where "fmul x y = fl (x * y)"
definition fdiv :: "rat \<Rightarrow> rat \<Rightarrow> rat" where "fdiv x y = fl (x / y)"
definition fpow :: "rat \<Rightarrow> nat \<Rightarrow> rat" where "fpow x n = fl (x ^ n)"
definition fint :: "int \<Rightarrow> rat" where "fint n = fl (of_int n)"

lemma fl_0 [simp]: "fl 0 = 0"
  by (simp add: fl_def)

lemma fl_pos_eq: "0 < x \<Longrightarrow>
    fl x = of_int (round_half_even (x * 2 powi (52 - binexp x))) * 2 powi (binexp x - 52)"
  by (simp add: fl_def Let_def)

lemma scaled_bounds:
  assumes "0 < x"
  shows "2 powi 52 \<le> x * 2 powi (52 - binexp x)" and "x * 2 powi (52 - binexp x) < 2 powi 53"
proof -
  have "2 powi binexp x * 2 powi (52 - binexp x) \<le> x * (2::rat) powi (52 - binexp x)"
    by (rule mult_right_mono [OF binexp_bounds(1) [OF assms]]) simp
  then show "2 powi 52 \<le> x * 2 powi (52 - binexp x)" by (simp flip: powi_plus)
  have "x * 2 powi (52 - binexp x) < 2 powi (binexp x + 1) * (2::rat) powi (52 - binexp x)"
    by (rule mult_strict_right_mono [OF binexp_bounds(2) [OF assms]]) simp
  then show "x * 2 powi (52 - binexp x) < 2 powi 53" by (simp flip: powi_plus)
qed

lemma significand_bounds:
  assumes "0 < x"
  shows "2 ^ 52 \<le> round_half_even (x * 2 powi (52 - binexp x))"
    and "round_half_even (x * 2 powi (52 - binexp x)) \<le> 2 ^ 53"
proof -
  let ?y = "x * 2 powi (52 - binexp x)"
  have p: "(2::rat) powi 52 = of_int (2 ^ 52)" "(2::rat) powi 53 = of_int (2 ^ 53)" by simp_all
  from scaled_bounds [OF assms] have "of_int (2 ^ 52) \<le> ?y" "?y \<le> of_int (2 ^ 53)"
    unfolding p by linarith+
  from this [THEN round_half_even_mono]
  show "2 ^ 52 \<le> round_half_even ?y" and "round_half_even ?y \<le> 2 ^ 53"
    by (simp_all only: round_half_even_of_int)
qed

lemma fl_binade:
  assumes "0 < x"
  shows "2 powi binexp x \<le> fl x" and "fl x \<le> 2 powi (binexp x + 1)"
proof -
  let ?m = "round_half_even (x * 2 powi (52 - binexp x))"
  from significand_bounds [OF assms]
  have "(of_int (2 ^ 52) :: rat) \<le> of_int ?m" "(of_int ?m :: rat) \<le> of_int (2 ^ 53)"
    by (simp_all only: of_int_le_iff)
  then have m: "(2::rat) powi 52 \<le> of_int ?m" "(of_int ?m :: rat) \<le> 2 powi 53" by simp_all
  have "2 powi 52 * 2 powi (binexp x - 52) \<le> of_int ?m * (2::rat) powi (binexp x - 52)"
    by (rule mult_right_mono [OF m(1)]) simp
  moreover have "2 powi 52 * 2 powi (binexp x - 52) = (2::rat) powi binexp x"
    by (simp only: powi_plus [symmetric]) simp
  ultimately show "2 powi binexp x \<le> fl x" by (simp only: fl_pos_eq [OF assms])
  have "of_int ?m * 2 powi (binexp x - 52) \<le> 2 powi 53 * (2::rat) powi (binexp x - 52)"
    by (rule mult_right_mono [OF m(2)]) simp
  moreover have "2 powi 53 * 2 powi (binexp x - 52) = (2::rat) powi (binexp x + 1)"
    by (simp only: powi_plus [symmetric]) (simp add: add.commute)
  ultimately show "fl x \<le> 2 powi (binexp x + 1)" by (simp only: fl_pos_eq [OF assms])
qed

lemma fl_pos: "0 < x \<Longrightarrow> 0 < fl x"
  using fl_binade(1) [of x] powi_pos [of "binexp x"] by linarith

lemma fl_nonneg: "0 \<le> x \<Longrightarrow> 0 \<le> fl x"
  using fl_pos [of x] by (cases "x = 0") auto

text \<open>Rounding is monotone.\<close>

lemma fl_mono:
  assumes "0 \<le> x" and "x \<le> y"
  shows "fl x \<le> fl y"
proof (cases "x = 0")
  case True
  with assms show ?thesis by (simp add: fl_nonneg)
next
  case False
  with assms have x: "0 < x" and y: "0 < y" by auto
  show ?thesis
  proof (cases "binexp x = binexp y")
    case True
    from assms(2) have "x * 2 powi (52 - binexp y) \<le> y * 2 powi (52 - binexp y)"
      by (intro mult_right_mono) auto
    then have "round_half_even (x * 2 powi (52 - binexp y)) \<le> round_half_even (y * 2 powi (52 - binexp y))"
      by (rule round_half_even_mono)
    then have "of_int (round_half_even (x * 2 powi (52 - binexp y))) * 2 powi (binexp y - 52)
        \<le> of_int (round_half_even (y * 2 powi (52 - binexp y))) * (2::rat) powi (binexp y - 52)"
      by (intro mult_right_mono) simp_all
    then show ?thesis by (simp add: fl_pos_eq x y True)
  next
    case False
    with binexp_mono [OF x assms(2)] have "binexp x + 1 \<le> binexp y" by simp
    then have "(2::rat) powi (binexp x + 1) \<le> 2 powi binexp y" by (simp only: powi_le_iff)
    with fl_binade(2) [OF x] fl_binade(1) [OF y] show ?thesis by linarith
  qed
qed

text \<open>A rational with a significand of at most 53 bits is its own float.\<close>

lemma fl_exact:
  assumes x: "x = of_int m * 2 powi k" and m: "0 < m" "m < 2 ^ 53"
  shows "fl x = x"
proof -
  have pos: "0 < x" using m by (simp add: x)
  have "(of_int m :: rat) < of_int (2 ^ 53)" using m by (simp only: of_int_less_iff)
  then have "of_int m * 2 powi k < 2 powi 53 * (2::rat) powi k"
    by (intro mult_strict_right_mono) simp_all
  then have "x < 2 powi (53 + k)" by (simp add: x powi_plus)
  then have le: "binexp x \<le> 52 + k" using binexp_le [OF pos, of "53 + k"] by simp
  define j where "j = nat (52 + k - binexp x)"
  have "x * 2 powi (52 - binexp x) = of_int m * 2 powi (k + (52 - binexp x))"
    by (simp add: x powi_plus)
  also have "k + (52 - binexp x) = int j" using le by (simp add: j_def)
  also have "of_int m * (2::rat) powi int j = of_int (m * 2 ^ j)" by simp
  finally have s: "x * 2 powi (52 - binexp x) = of_int (m * 2 ^ j)" .
  have "fl x = of_int (m * 2 ^ j) * 2 powi (binexp x - 52)"
    using s by (simp only: fl_pos_eq [OF pos] round_half_even_of_int)
  also have "\<dots> = x * 2 powi (52 - binexp x) * 2 powi (binexp x - 52)" by (simp only: s)
  also have "\<dots> = x" by (simp add: mult.assoc flip: powi_plus)
  finally show ?thesis .
qed

lemma fl_of_int: "0 \<le> n \<Longrightarrow> n < 2 ^ 53 \<Longrightarrow> fl (of_int n) = of_int n"
  by (cases "n = 0") (auto intro!: fl_exact [of _ n 0])

lemma fint_exact: "0 \<le> n \<Longrightarrow> n < 2 ^ 53 \<Longrightarrow> fint n = of_int n"
  by (simp add: fint_def fl_of_int)

lemma fint_nonneg: "0 \<le> n \<Longrightarrow> 0 \<le> fint n"
  by (simp add: fint_def fl_nonneg)

text \<open>Rounding never crosses an integer below \<open>2 ^ 53\<close>.\<close>

lemma fl_ge_int:
  assumes "of_int n \<le> x" and "0 \<le> n" and "n < 2 ^ 53"
  shows "of_int n \<le> fl x"
  using fl_mono [of "of_int n" x] fl_of_int [OF assms(2,3)] assms by simp

lemma fl_le_int:
  assumes "x \<le> of_int n" and "0 \<le> x" and "0 \<le> n" and "n < 2 ^ 53"
  shows "fl x \<le> of_int n"
  using fl_mono [of x "of_int n"] fl_of_int [OF assms(3,4)] assms by simp

lemma floor_fl_ge: "of_int n \<le> x \<Longrightarrow> 0 \<le> n \<Longrightarrow> n < 2 ^ 53 \<Longrightarrow> n \<le> \<lfloor>fl x\<rfloor>"
  using fl_ge_int [of n x] by (simp add: le_floor_iff)

lemma floor_fl_le: "x \<le> of_int n \<Longrightarrow> 0 \<le> x \<Longrightarrow> 0 \<le> n \<Longrightarrow> n < 2 ^ 53 \<Longrightarrow> \<lfloor>fl x\<rfloor> \<le> n"
  using fl_le_int [of x n] by (simp add: floor_le_iff)

lemma fl_le_double:
  assumes "0 \<le> x"
  shows "fl x \<le> 2 * x"
proof (cases "x = 0")
  case False
  with assms have x: "0 < x" by simp
  have "fl x \<le> 2 powi (binexp x + 1)" by (rule fl_binade(2) [OF x])
  also have "\<dots> = 2 * 2 powi binexp x" by (simp add: powi_plus)
  also have "\<dots> \<le> 2 * x" using binexp_bounds(1) [OF x] by simp
  finally show ?thesis .
qed simp

text \<open>A short cut for evaluation: a dyadic rational that fits in the significand is a float.\<close>

definition fl_round :: "rat \<Rightarrow> rat" where
  "fl_round x = (let e = binexp \<bar>x\<bar> in of_int (round_half_even (x * 2 powi (52 - e))) * 2 powi (e - 52))"

lemma fl_code [code]:
  "fl x = (if x = 0 then 0
           else let (n, d) = quotient_of x
                in if 0 < n \<and> n < 2 ^ 53 \<and> d = 2 ^ nat (bitlen d - 1) then x else fl_round x)"
proof -
  obtain n d where q: "quotient_of x = (n, d)" by (cases "quotient_of x")
  have "fl x = x" if "0 < n" "n < 2 ^ 53" "d = 2 ^ k" for k
  proof -
    have "x = of_int n * 2 powi (- int k)"
      using quotient_of_div [OF q] that(3) by (simp add: power_int_minus field_simps)
    then show ?thesis using that(1,2) by (intro fl_exact)
  qed
  from this [of "nat (bitlen d - 1)"]
  have "fl x = x" if "0 < n \<and> n < 2 ^ 53 \<and> d = 2 ^ nat (bitlen d - 1)" using that by blast
  moreover have "fl x = (if x = 0 then 0 else fl_round x)" by (simp add: fl_def fl_round_def)
  ultimately show ?thesis by (auto simp: q)
qed

subsection \<open>\<open>sum()\<close> of floats\<close>

text \<open>Since Python 3.12 (the version the project's CI runs) \<open>sum\<close> carries a Neumaier
  compensation: the running sum and the low-order parts lost so far.\<close>

definition cs_add :: "rat \<Rightarrow> rat \<times> rat \<Rightarrow> rat \<times> rat" where
  "cs_add x acc = (case acc of (hi, lo) \<Rightarrow>
     let t = fadd hi x
     in (t, if \<bar>x\<bar> \<le> \<bar>hi\<bar> then fadd lo (fadd (fsub hi t) x) else fadd lo (fadd (fsub x t) hi)))"

definition py_fsum :: "rat list \<Rightarrow> rat" where
  "py_fsum xs = (case xs of [] \<Rightarrow> 0
     | x # ys \<Rightarrow> (case fold cs_add ys (x, 0) of (hi, lo) \<Rightarrow> if lo = 0 then hi else fadd hi lo))"

end
