(* ===== verification/Counterparties.thy ===== *)
theory Counterparties
  imports Types Floats
begin

text \<open>
  \<open>bazaar_client/world/counterparties.py\<close>: what public advertisements and our own trades tell
  about the other planets. The model is a dictionary of per-station statistics plus the set of
  our offers already counted; \<open>update\<close> folds one snapshot in, and calling it again with the
  same snapshot must not count anything twice.
\<close>

record counterparty_stats =
  cp_station_id :: string
  cp_display_name :: string
  cp_selling :: "resource set"
  cp_seeking :: "resource set"
  seeking_streak :: "(resource, int) pydict"
  last_ad_tick :: int
  offers_sent_to :: int
  offers_accepted_by :: int
  station_failed :: bool
  supplied :: "resource set"
  ever_active :: bool
  consecutive_expired :: int
  last_expired_tick :: int
  size_limit :: "int option"

definition new_stats :: "string \<Rightarrow> counterparty_stats" where
  "new_stats sid = \<lparr>cp_station_id = sid, cp_display_name = '''', cp_selling = {}, cp_seeking = {},
     seeking_streak = [], last_ad_tick = -1, offers_sent_to = 0, offers_accepted_by = 0,
     station_failed = False, supplied = {}, ever_active = False, consecutive_expired = 0,
     last_expired_tick = -1, size_limit = None\<rparr>"

definition neutral_accept_rate :: rat where
  "neutral_accept_rate = 1 / 2"

definition accept_rate :: "counterparty_stats \<Rightarrow> rat" where
  "accept_rate s = (if offers_sent_to s = 0 then neutral_accept_rate
                    else fdiv (of_int (offers_accepted_by s)) (of_int (offers_sent_to s)))"

record counterparty_model =
  cp_stations :: "(string, counterparty_stats) pydict"
  counted_offers :: "string set"

definition counterparty_init :: counterparty_model where
  "counterparty_init = \<lparr>cp_stations = [], counted_offers = {}\<rparr>"

definition stations_of :: "counterparty_model \<Rightarrow> counterparty_stats list" where
  "stations_of m = filter (\<lambda>s. \<not> station_failed s) (dict_values (cp_stations m))"

definition get_station :: "counterparty_model \<Rightarrow> string \<Rightarrow> counterparty_stats option" where
  "get_station m sid = dict_get (cp_stations m) sid"

definition mark_failed :: "string \<Rightarrow> counterparty_model \<Rightarrow> counterparty_model" where
  "mark_failed sid m = (case get_station m sid of None \<Rightarrow> m
     | Some s \<Rightarrow> m\<lparr>cp_stations := dict_set sid (s\<lparr>station_failed := True\<rparr>) (cp_stations m)\<rparr>)"

text \<open>\<open>setdefault(sid, CounterpartyStats(sid))\<close> followed by a mutation of the object.\<close>

definition with_stats ::
  "string \<Rightarrow> (counterparty_stats \<Rightarrow> counterparty_stats) \<Rightarrow>
     (string, counterparty_stats) pydict \<Rightarrow> (string, counterparty_stats) pydict" where
  "with_stats sid f st = dict_set sid (f (dict_get_or (new_stats sid) st sid)) st"

subsection \<open>The four parts of an update\<close>

definition update_directory ::
  "snapshot \<Rightarrow> (string, counterparty_stats) pydict \<Rightarrow> (string, counterparty_stats) pydict" where
  "update_directory s st =
     fold (\<lambda>entry st.
        if dir_station_id entry = self_station_id s then st
        else with_stats (dir_station_id entry) (\<lambda>x. x\<lparr>cp_display_name := display_name entry\<rparr>) st)
      (directory s) st"

definition active_ads :: "snapshot \<Rightarrow> (string, resource set \<times> resource set) pydict" where
  "active_ads s =
     fold (\<lambda>ad act.
        if ad_station_id ad = self_station_id s then act
        else if ad_status ad \<noteq> PUB_ACTIVE then act
        else if ad_is_expired_at ad (snap_tick s) then act
        else dict_set (ad_station_id ad) (selling ad, seeking ad) act)
      (advertisements s) []"

definition bump_streaks :: "resource set \<Rightarrow> (resource, int) pydict \<Rightarrow> (resource, int) pydict" where
  "bump_streaks seek streak =
     fold (\<lambda>r d. dict_set r (dict_get_or 0 d r + 1) d) (in_order seek) streak"

definition keep_sought :: "resource set \<Rightarrow> (resource, int) pydict \<Rightarrow> (resource, int) pydict" where
  "keep_sought seek streak =
     fold (\<lambda>r d. if r \<notin> seek then dict_pop r d else d) (dict_keys streak) streak"

definition note_ad :: "int \<Rightarrow> resource set \<Rightarrow> resource set \<Rightarrow> counterparty_stats \<Rightarrow> counterparty_stats" where
  "note_ad tick sell seek x =
     (let is_new_tick = tick > last_ad_tick x;
          streak = (if is_new_tick then bump_streaks seek (seeking_streak x) else seeking_streak x)
      in x\<lparr>cp_selling := sell, cp_seeking := seek, seeking_streak := keep_sought seek streak,
           last_ad_tick := tick, ever_active := True\<rparr>)"

definition clear_ad :: "counterparty_stats \<Rightarrow> counterparty_stats" where
  "clear_ad x = x\<lparr>cp_selling := {}, cp_seeking := {}, seeking_streak := []\<rparr>"

definition update_advertisements ::
  "snapshot \<Rightarrow> (string, counterparty_stats) pydict \<Rightarrow> (string, counterparty_stats) pydict" where
  "update_advertisements s st =
     (let active = active_ads s;
          st1 = fold (\<lambda>(sid, sell, seek) st. with_stats sid (note_ad (snap_tick s) sell seek) st)
                  active st
      in map (\<lambda>(sid, x). (sid, if sid \<notin> set (dict_keys active) then clear_ad x else x)) st1)"

text \<open>One settled offer of ours, judged by its recipient.\<close>

definition note_outcome :: "offer \<Rightarrow> counterparty_stats \<Rightarrow> counterparty_stats" where
  "note_outcome o' x =
     (let x = x\<lparr>offers_sent_to := offers_sent_to x + 1\<rparr>;
          asked = int (total (receive o'))
      in if offer_status o' = ACCEPTED then
           x\<lparr>offers_accepted_by := offers_accepted_by x + 1, consecutive_expired := 0,
             size_limit := map_option (\<lambda>n. n * 2) (size_limit x)\<rparr>
         else
           x\<lparr>consecutive_expired := consecutive_expired x + 1,
             last_expired_tick := max (last_expired_tick x)
               (case closed_tick o' of Some t \<Rightarrow> t | None \<Rightarrow> expires_tick o'),
             size_limit := (if asked \<noteq> 0 then Some (max 1 (asked div 2)) else size_limit x)\<rparr>)"

definition recipient_decided :: "offer_status set" where
  "recipient_decided = {ACCEPTED, EXPIRED}"

definition update_offer_history :: "snapshot \<Rightarrow> counterparty_model \<Rightarrow> counterparty_model" where
  "update_offer_history s m =
     fold (\<lambda>o' m.
        if recipient_id o' = self_station_id s then
          m\<lparr>cp_stations := with_stats (proposer_id o') (\<lambda>x. x\<lparr>ever_active := True\<rparr>) (cp_stations m)\<rparr>
        else if proposer_id o' \<noteq> self_station_id s then m
        else if offer_status o' \<notin> recipient_decided \<or> offer_id o' \<in> counted_offers m then m
        else m\<lparr>counted_offers := insert (offer_id o') (counted_offers m),
               cp_stations := with_stats (recipient_id o') (note_outcome o') (cp_stations m)\<rparr>)
      (offers s) m"

definition update_supply ::
  "snapshot \<Rightarrow> (string, counterparty_stats) pydict \<Rightarrow> (string, counterparty_stats) pydict" where
  "update_supply s st =
     fold (\<lambda>txn st.
        let note = (\<lambda>partner received. with_stats partner
              (\<lambda>x. x\<lparr>ever_active := True, supplied := supplied x \<union> set (filter (\<lambda>r. get received r > 0) resources)\<rparr>) st)
        in if self_station_id s = txn_recipient_id txn then note (txn_proposer_id txn) (txn_give txn)
           else if self_station_id s = txn_proposer_id txn then note (txn_recipient_id txn) (txn_receive txn)
           else st)
      (transactions s) st"

definition cp_update :: "snapshot \<Rightarrow> counterparty_model \<Rightarrow> counterparty_model" where
  "cp_update s m =
     (let m1 = m\<lparr>cp_stations := update_directory s (cp_stations m)\<rparr>;
          m2 = m1\<lparr>cp_stations := update_advertisements s (cp_stations m1)\<rparr>;
          m3 = update_offer_history s m2
      in m3\<lparr>cp_stations := update_supply s (cp_stations m3)\<rparr>)"

subsection \<open>Invariant\<close>

definition streak_ok :: "resource set \<Rightarrow> (resource, int) pydict \<Rightarrow> bool" where
  "streak_ok seek d \<longleftrightarrow> dict_ok d \<and> (\<forall>(r, n) \<in> set d. r \<in> seek \<and> 1 \<le> n)"

definition stats_ok :: "string \<Rightarrow> counterparty_stats \<Rightarrow> bool" where
  "stats_ok sid x \<longleftrightarrow> cp_station_id x = sid \<and> 0 \<le> offers_accepted_by x
     \<and> offers_accepted_by x \<le> offers_sent_to x \<and> 0 \<le> consecutive_expired x
     \<and> (\<forall>n. size_limit x = Some n \<longrightarrow> 1 \<le> n) \<and> streak_ok (cp_seeking x) (seeking_streak x)"

definition stations_ok :: "(string, counterparty_stats) pydict \<Rightarrow> bool" where
  "stations_ok st \<longleftrightarrow> dict_ok st \<and> (\<forall>(sid, x) \<in> set st. stats_ok sid x)"

definition sent_total :: "(string, counterparty_stats) pydict \<Rightarrow> int" where
  "sent_total st = sum_list (map (offers_sent_to \<circ> snd) st)"

text \<open>Each counted offer is in exactly one station's tally.\<close>

definition cp_ok :: "counterparty_model \<Rightarrow> bool" where
  "cp_ok m \<longleftrightarrow> stations_ok (cp_stations m) \<and> finite (counted_offers m)
     \<and> sent_total (cp_stations m) = int (card (counted_offers m))"

lemma new_stats_ok [simp, wf_intros]: "stats_ok sid (new_stats sid)"
  by (simp add: stats_ok_def new_stats_def streak_ok_def)

lemma stations_ok_get: "stations_ok st \<Longrightarrow> dict_get st sid = Some x \<Longrightarrow> stats_ok sid x"
  by (auto simp: stations_ok_def dest: map_of_SomeD)

lemma stations_ok_default: "stations_ok st \<Longrightarrow> stats_ok sid (dict_get_or (new_stats sid) st sid)"
  by (auto simp: dict_get_or_def intro: stations_ok_get split: option.splits)

lemma set_dict_set: "dict_ok d \<Longrightarrow> set (dict_set k v d) = {(k', v'). dict_get (dict_set k v d) k' = Some v'}"
  using dict_mem_get [OF dict_ok_set [of d k v]] by auto

lemma stations_ok_set:
  assumes "stations_ok st" and "stats_ok sid x"
  shows "stations_ok (dict_set sid x st)"
proof -
  have ok: "dict_ok st" using assms(1) by (simp add: stations_ok_def)
  moreover have "stats_ok k y" if "(k, y) \<in> set (dict_set sid x st)" for k y
  proof -
    have "dict_get (dict_set sid x st) k = Some y"
      using that dict_mem_get [OF dict_ok_set [OF ok]] by blast
    then show ?thesis using assms stations_ok_get by (auto simp: dict_get_set split: if_splits)
  qed
  ultimately show ?thesis by (auto simp: stations_ok_def)
qed

lemma stations_ok_with:
  assumes "stations_ok st" and "\<And>x. stats_ok sid x \<Longrightarrow> stats_ok sid (f x)"
  shows "stations_ok (with_stats sid f st)"
  unfolding with_stats_def
  by (rule stations_ok_set [OF assms(1)]) (rule assms(2) [OF stations_ok_default [OF assms(1)]])

lemma dict_sum_set:
  fixes g :: "'v \<Rightarrow> int"
  assumes "dict_ok d"
  shows "sum_list (map (g \<circ> snd) (dict_set k v d)) =
    sum_list (map (g \<circ> snd) d) + g v - (case dict_get d k of None \<Rightarrow> 0 | Some u \<Rightarrow> g u)"
  using assms
proof (induction d)
  case Nil
  then show ?case by simp
next
  case (Cons p d)
  then show ?case by (cases p) (auto simp: dict_ok_def dict_get_set)
qed

lemma sent_total_with:
  assumes "dict_ok st" and "\<And>x. offers_sent_to (f x) = offers_sent_to x + n"
  shows "sent_total (with_stats sid f st) = sent_total st + n"
proof -
  have "offers_sent_to (new_stats sid) = 0" by (simp add: new_stats_def)
  then show ?thesis using assms
    by (simp add: sent_total_def with_stats_def dict_sum_set dict_get_or_def split: option.splits)
qed

subsection \<open>Streaks\<close>

lemma bump_streaks_get:
  "dict_get (bump_streaks seek d) r = (if r \<in> seek then Some (dict_get_or 0 d r + 1) else dict_get d r)"
proof -
  have "dict_get (fold (\<lambda>r d. dict_set r (dict_get_or 0 d r + 1) d) rs d) r =
      (if r \<in> set rs then Some (dict_get_or 0 d r + 1) else dict_get d r)" if "distinct rs" for rs
    using that by (induction rs arbitrary: d) (auto simp: dict_get_set dict_get_or_set)
  then show ?thesis by (simp add: bump_streaks_def)
qed

lemma bump_streaks_dict_ok: "dict_ok d \<Longrightarrow> dict_ok (bump_streaks seek d)"
  unfolding bump_streaks_def
  by (rule fold_invariant [where Q = "\<lambda>_. True"]) auto

lemma keep_sought_get:
  "dict_get (keep_sought seek d) r = (if r \<in> seek then dict_get d r else None)"
proof -
  have "dict_get (fold (\<lambda>r d. if r \<notin> seek then dict_pop r d else d) rs d) r =
      (if r \<in> set rs \<and> r \<notin> seek then None else dict_get d r)" for rs
    by (induction rs arbitrary: d) (auto simp: dict_get_pop)
  moreover have "r \<notin> set (dict_keys d) \<Longrightarrow> dict_get d r = None"
    by (simp add: map_of_eq_None_iff)
  ultimately show ?thesis by (simp add: keep_sought_def)
qed

lemma keep_sought_dict_ok: "dict_ok d \<Longrightarrow> dict_ok (keep_sought seek d)"
  unfolding keep_sought_def
  by (rule fold_invariant [where Q = "\<lambda>_. True"]) auto

lemma streak_ok_iff:
  "dict_ok d \<Longrightarrow> streak_ok seek d \<longleftrightarrow> (\<forall>r n. dict_get d r = Some n \<longrightarrow> r \<in> seek \<and> 1 \<le> n)"
  by (auto simp: streak_ok_def dict_mem_get)

lemma note_ad_stats_ok:
  assumes "stats_ok sid x"
  shows "stats_ok sid (note_ad t sell seek x)"
proof -
  define d where "d = seeking_streak x"
  have d: "dict_ok d" "\<And>r n. dict_get d r = Some n \<Longrightarrow> 1 \<le> n"
    using assms streak_ok_iff [of d] by (auto simp: stats_ok_def streak_ok_def d_def)
  have get0: "0 \<le> dict_get_or 0 d r" for r
    using d(2) by (force simp: dict_get_or_def split: option.splits)
  have "streak_ok seek (keep_sought seek d)" "streak_ok seek (keep_sought seek (bump_streaks seek d))"
    using d get0
    by (auto simp: streak_ok_iff keep_sought_dict_ok bump_streaks_dict_ok keep_sought_get
        bump_streaks_get split: if_splits)
  then show ?thesis using assms by (simp add: stats_ok_def note_ad_def Let_def d_def)
qed

lemma clear_ad_stats_ok: "stats_ok sid x \<Longrightarrow> stats_ok sid (clear_ad x)"
  by (simp add: stats_ok_def clear_ad_def streak_ok_def)

lemma note_outcome_stats_ok: "stats_ok sid x \<Longrightarrow> stats_ok sid (note_outcome o' x)"
  by (auto simp: stats_ok_def note_outcome_def Let_def)

subsection \<open>Every update keeps the invariant\<close>

definition keeps :: "int \<Rightarrow> (string, counterparty_stats) pydict \<Rightarrow> bool" where
  "keeps n st \<longleftrightarrow> stations_ok st \<and> sent_total st = n"

lemma keeps_with:
  assumes "keeps n st" and "\<And>x. stats_ok sid x \<Longrightarrow> stats_ok sid (f x)"
    and "\<And>x. offers_sent_to (f x) = offers_sent_to x + k"
  shows "keeps (n + k) (with_stats sid f st)"
  using assms stations_ok_with [of st sid f] sent_total_with [of st f k sid]
  by (simp add: keeps_def stations_ok_def)

lemmas keeps_same = keeps_with [where k = 0, simplified]

lemma stats_ok_fields [simp]:
  "stats_ok sid (x\<lparr>ever_active := b\<rparr>) = stats_ok sid x"
  "stats_ok sid (x\<lparr>supplied := rs\<rparr>) = stats_ok sid x"
  "stats_ok sid (x\<lparr>cp_display_name := nm\<rparr>) = stats_ok sid x"
  "stats_ok sid (x\<lparr>station_failed := b\<rparr>) = stats_ok sid x"
  by (simp_all add: stats_ok_def)

lemma update_directory_keeps: "keeps n st \<Longrightarrow> keeps n (update_directory s st)"
  unfolding update_directory_def
  by (rule fold_invariant [where Q = "\<lambda>_. True"]) (auto intro!: keeps_same)

lemma update_supply_keeps: "keeps n st \<Longrightarrow> keeps n (update_supply s st)"
  unfolding update_supply_def Let_def
  by (rule fold_invariant [where Q = "\<lambda>_. True"]) (auto intro!: keeps_same)

lemma update_advertisements_keeps:
  assumes "keeps n st"
  shows "keeps n (update_advertisements s st)"
proof -
  let ?f = "\<lambda>(sid, sell, seek) st. with_stats sid (note_ad (snap_tick s) sell seek) st"
  have "keeps n (fold ?f (active_ads s) st)"
    by (rule fold_invariant [where Q = "\<lambda>_. True"])
       (use assms in \<open>auto intro!: keeps_same note_ad_stats_ok simp: note_ad_def Let_def\<close>)
  moreover have "map (fst \<circ> (\<lambda>(sid, x). (sid, g sid x))) d = dict_keys d"
    for g :: "string \<Rightarrow> counterparty_stats \<Rightarrow> counterparty_stats" and d
    by (induction d) auto
  moreover have "sent_total (map (\<lambda>(sid, x). (sid, if P sid then clear_ad x else x)) d) = sent_total d" for P d
    by (induction d) (auto simp: sent_total_def clear_ad_def)
  ultimately show ?thesis
    by (auto simp: keeps_def update_advertisements_def Let_def stations_ok_def dict_ok_def
        clear_ad_stats_ok simp del: map_eq_conv)
qed

lemma cp_ok_keeps: "cp_ok m \<longleftrightarrow> finite (counted_offers m) \<and> keeps (int (card (counted_offers m))) (cp_stations m)"
  by (auto simp: cp_ok_def keeps_def)

lemma note_outcome_sent: "offers_sent_to (note_outcome o' x) = offers_sent_to x + 1"
  by (simp add: note_outcome_def Let_def)

lemma update_offer_history_ok: "cp_ok m \<Longrightarrow> cp_ok (update_offer_history s m)"
  unfolding update_offer_history_def
proof (rule fold_invariant [where Q = "\<lambda>_. True"], goal_cases)
  case (3 o' m)
  then have fin: "finite (counted_offers m)"
    and k: "keeps (int (card (counted_offers m))) (cp_stations m)" by (simp_all add: cp_ok_keeps)
  have "keeps (int (card (counted_offers m)))
      (with_stats (proposer_id o') (\<lambda>x. x\<lparr>ever_active := True\<rparr>) (cp_stations m))"
    by (rule keeps_same [OF k]) simp_all
  moreover have "keeps (int (card (counted_offers m)) + 1)
      (with_stats (recipient_id o') (note_outcome o') (cp_stations m))"
    by (rule keeps_with [OF k]) (simp_all add: note_outcome_stats_ok note_outcome_sent)
  ultimately show ?case using 3 fin by (simp add: cp_ok_keeps add.commute)
qed simp_all

lemma cp_ok_init [wf_intros]: "cp_ok counterparty_init"
  by (simp add: cp_ok_def counterparty_init_def stations_ok_def sent_total_def)

lemma cp_ok_update [wf_intros]: "cp_ok m \<Longrightarrow> cp_ok (cp_update s m)"
proof -
  define m2 where "m2 = m\<lparr>cp_stations := update_advertisements s (update_directory s (cp_stations m))\<rparr>"
  assume "cp_ok m"
  then have "cp_ok m2"
    by (simp add: cp_ok_keeps m2_def update_directory_keeps update_advertisements_keeps)
  then have "cp_ok (update_offer_history s m2)" by (rule update_offer_history_ok)
  then show ?thesis
    by (simp add: cp_ok_keeps cp_update_def Let_def m2_def update_supply_keeps)
qed

lemma cp_ok_mark_failed [wf_intros]:
  assumes "cp_ok m"
  shows "cp_ok (mark_failed sid m)"
proof (cases "get_station m sid")
  case (Some x)
  then have "dict_set sid (x\<lparr>station_failed := True\<rparr>) (cp_stations m)
      = with_stats sid (\<lambda>x. x\<lparr>station_failed := True\<rparr>) (cp_stations m)"
    by (simp add: with_stats_def dict_get_or_def get_station_def)
  with assms Some show ?thesis
    by (auto simp: cp_ok_keeps mark_failed_def intro!: keeps_same)
qed (use assms in \<open>simp add: mark_failed_def\<close>)

lemma accept_rate_bounds:
  assumes "stats_ok sid x" and "offers_sent_to x < 2 ^ 53"
  shows "0 \<le> accept_rate x \<and> accept_rate x \<le> 1"
proof -
  let ?a = "rat_of_int (offers_accepted_by x)" and ?n = "rat_of_int (offers_sent_to x)"
  have r: "0 \<le> ?a / ?n" "?a / ?n \<le> of_int 1" if "offers_sent_to x \<noteq> 0"
    using assms that by (auto simp: stats_ok_def divide_le_eq)
  show ?thesis
    using fl_nonneg [OF r(1)] fl_le_int [OF r(2,1)]
    by (auto simp: accept_rate_def neutral_accept_rate_def fdiv_def)
qed

end
