(* ===== verification/Memory.thy ===== *)
theory Memory
  imports Counterparties
begin

text \<open>
  \<open>bazaar_client/policy/memory.py\<close>: what the policy carries between decisions. The two
  \<open>deque(maxlen=8)\<close> windows are lists that drop their oldest element; \<open>observe\<close> folds a
  snapshot into the estimates.
\<close>

record policy_memory =
  mem_run_id :: "string option"
  counterparties :: counterparty_model
  round_trips :: "int list"
  productions :: "int list"
  blocked_until_tick :: int
  altruism_log :: "(string \<times> resource, int) pydict"
  stored_reserve :: Bundle
  measured_transactions :: "string set"
  last_tick_seen :: int

definition memory_init :: policy_memory where
  "memory_init = \<lparr>mem_run_id = None, counterparties = counterparty_init, round_trips = [],
     productions = [], blocked_until_tick = 0, altruism_log = [], stored_reserve = zero_bundle,
     measured_transactions = {}, last_tick_seen = -1\<rparr>"

definition window_size :: nat where
  "window_size = 8"

definition push_bounded :: "'a \<Rightarrow> 'a list \<Rightarrow> 'a list" where
  "push_bounded x xs = (let ys = xs @ [x] in drop (length ys - window_size) ys)"

definition created_ticks :: "snapshot \<Rightarrow> (string, int) pydict" where
  "created_ticks s = fold (\<lambda>o' d. dict_set (offer_id o') (created_tick o') d) (offers s) []"

definition measure_round_trips :: "snapshot \<Rightarrow> policy_memory \<Rightarrow> policy_memory" where
  "measure_round_trips s m =
     (let created = created_ticks s in
      fold (\<lambda>txn m.
        if txn_proposer_id txn \<noteq> self_station_id s then m
        else if transaction_id txn \<in> measured_transactions m then m
        else case dict_get created (txn_offer_id txn) of
            None \<Rightarrow> m
          | Some t \<Rightarrow> m\<lparr>measured_transactions := insert (transaction_id txn) (measured_transactions m),
                        round_trips := push_bounded (max 0 (settled_tick txn - t)) (round_trips m)\<rparr>)
      (transactions s) m)"

definition measure_production :: "snapshot \<Rightarrow> policy_memory \<Rightarrow> policy_memory" where
  "measure_production s m =
     (if snap_tick s = last_tick_seen m \<or> snap_tick s = 0 then m
      else m\<lparr>last_tick_seen := snap_tick s,
             productions := push_bounded (int (get (last_production (me s)) (specialty (me s))))
                              (productions m)\<rparr>)"

definition observe :: "snapshot \<Rightarrow> policy_memory \<Rightarrow> policy_memory" where
  "observe s m =
     (let m1 = m\<lparr>counterparties := cp_update s (counterparties m)\<rparr>;
          m2 = measure_round_trips s m1
      in measure_production s m2)"

text \<open>\<open>statistics.median\<close>: the middle value, or the float mean of the two middle ones.\<close>

definition median :: "int list \<Rightarrow> rat" where
  "median xs = (let d = sort xs; n = length xs; i = n div 2
                in if odd n then of_int (d ! i) else fdiv (of_int (d ! (i - 1) + d ! i)) 2)"

definition median_round_trip :: "policy_memory \<Rightarrow> int option" where
  "median_round_trip m =
     (if length (round_trips m) < 3 then None else Some (round_half_even (median (round_trips m))))"

definition min_recent_production :: "policy_memory \<Rightarrow> int option" where
  "min_recent_production m = py_min id (productions m)"

definition record_gift :: "string \<Rightarrow> resource \<Rightarrow> int \<Rightarrow> policy_memory \<Rightarrow> policy_memory" where
  "record_gift sid r tick m = m\<lparr>altruism_log := dict_set (sid, r) tick (altruism_log m)\<rparr>"

definition ticks_since_gift :: "policy_memory \<Rightarrow> string \<Rightarrow> resource \<Rightarrow> int \<Rightarrow> int" where
  "ticks_since_gift m sid r tick =
     (case dict_get (altruism_log m) (sid, r) of Some t \<Rightarrow> tick - t | None \<Rightarrow> 10 ^ 6)"

definition block_until :: "int option \<Rightarrow> policy_memory \<Rightarrow> policy_memory" where
  "block_until tick m = (case tick of None \<Rightarrow> m
     | Some t \<Rightarrow> m\<lparr>blocked_until_tick := max (blocked_until_tick m) t\<rparr>)"

subsection \<open>The windows stay bounded and hold what was measured\<close>

lemma length_push_bounded: "length (push_bounded x xs) = min window_size (length xs + 1)"
  by (auto simp: push_bounded_def Let_def)

lemma set_push_bounded: "set (push_bounded x xs) \<subseteq> insert x (set xs)"
  using set_drop_subset [of _ "xs @ [x]"] by (fastforce simp: push_bounded_def Let_def)

definition window_ok :: "int list \<Rightarrow> bool" where
  "window_ok xs \<longleftrightarrow> length xs \<le> window_size \<and> (\<forall>n \<in> set xs. 0 \<le> n)"

definition memory_ok :: "policy_memory \<Rightarrow> bool" where
  "memory_ok m \<longleftrightarrow> cp_ok (counterparties m) \<and> window_ok (round_trips m) \<and> window_ok (productions m)"

lemma window_ok_push: "window_ok xs \<Longrightarrow> 0 \<le> x \<Longrightarrow> window_ok (push_bounded x xs)"
  using set_push_bounded [of x xs] length_push_bounded [of x xs] by (auto simp: window_ok_def)

lemma memory_ok_init [wf_intros]: "memory_ok memory_init"
  by (simp add: memory_ok_def memory_init_def cp_ok_init window_ok_def)

lemma measure_round_trips_ok: "memory_ok m \<Longrightarrow> memory_ok (measure_round_trips s m)"
  unfolding measure_round_trips_def Let_def
  by (rule fold_invariant [where Q = "\<lambda>_. True"])
     (auto simp: memory_ok_def intro: window_ok_push split: option.splits)

lemma measure_production_ok: "memory_ok m \<Longrightarrow> memory_ok (measure_production s m)"
  by (auto simp: measure_production_def memory_ok_def intro: window_ok_push)

lemma memory_ok_observe [wf_intros]: "memory_ok m \<Longrightarrow> memory_ok (observe s m)"
  unfolding observe_def Let_def
  by (intro measure_production_ok measure_round_trips_ok) (simp add: memory_ok_def cp_ok_update)

lemma measure_round_trips_frame [frame_simps]:
  "counterparties (measure_round_trips s m) = counterparties m"
  "blocked_until_tick (measure_round_trips s m) = blocked_until_tick m"
  "altruism_log (measure_round_trips s m) = altruism_log m"
  "stored_reserve (measure_round_trips s m) = stored_reserve m"
  unfolding measure_round_trips_def Let_def
  by (rule fold_invariant [where Q = "\<lambda>_. True" and P = "\<lambda>m'. _ m' = _ m"];
      simp split: option.splits)+

lemma observe_frame [frame_simps]:
  "blocked_until_tick (observe s m) = blocked_until_tick m"
  "altruism_log (observe s m) = altruism_log m"
  "stored_reserve (observe s m) = stored_reserve m"
  "counterparties (observe s m) = cp_update s (counterparties m)"
  by (simp_all add: observe_def Let_def measure_production_def frame_simps)

lemma gift_cooldown: "ticks_since_gift (record_gift sid r t m) sid r tick = tick - t"
  by (simp add: ticks_since_gift_def record_gift_def dict_get_set)

lemma block_until_ge: "blocked_until_tick m \<le> blocked_until_tick (block_until t m)"
  by (simp add: block_until_def split: option.splits)

end
