(* ===== verification/Reserves.thy ===== *)
theory Reserves
  imports Memory
begin

text \<open>
  \<open>bazaar_client/policy/reserves.py\<close>: how much the policy refuses to trade away. The reserve of
  a resource is an upkeep buffer plus stored surplus, capped at 15; the urgency tiers, the
  production payment guard, the import ceilings and the end-game floor are all functions of the
  uncommitted stock.
\<close>

datatype urgency = NONE | WATCH | CRITICAL

fun urgency_int :: "urgency \<Rightarrow> int" where
  "urgency_int NONE = 0" | "urgency_int WATCH = 1" | "urgency_int CRITICAL = 2"

instantiation urgency :: linorder
begin

definition less_eq_urgency :: "urgency \<Rightarrow> urgency \<Rightarrow> bool" where
  "less_eq_urgency a b \<longleftrightarrow> urgency_int a \<le> urgency_int b"

definition less_urgency :: "urgency \<Rightarrow> urgency \<Rightarrow> bool" where
  "less_urgency a b \<longleftrightarrow> urgency_int a < urgency_int b"

instance
proof
  fix x y :: urgency
  show "x \<le> y \<Longrightarrow> y \<le> x \<Longrightarrow> x = y"
    by (cases x; cases y) (simp_all add: less_eq_urgency_def)
qed (auto simp: less_eq_urgency_def less_urgency_def)

end

subsection \<open>Constants\<close>

definition MIN_SAFETY_TICKS :: int where "MIN_SAFETY_TICKS = 3"
definition MAX_SAFETY_TICKS :: int where "MAX_SAFETY_TICKS = 10"
definition LOW_HEALTH_EXTRA_TICKS :: int where "LOW_HEALTH_EXTRA_TICKS = 2"
definition PRODUCTION_VARIANCE_EXTRA_TICKS :: int where "PRODUCTION_VARIANCE_EXTRA_TICKS = 1"
definition WATCH_STOCK :: int where "WATCH_STOCK = 20"
definition CRITICAL_STOCK :: int where "CRITICAL_STOCK = 10"
definition PRODUCTION_NORMAL_TICKS :: int where "PRODUCTION_NORMAL_TICKS = 25"
definition PRODUCTION_STOP_TICKS :: int where "PRODUCTION_STOP_TICKS = 10"
definition STORAGE_THRESHOLD :: int where "STORAGE_THRESHOLD = 32"
definition MAX_RESERVE_UNITS :: int where "MAX_RESERVE_UNITS = 15"
definition BALANCE_GAP :: int where "BALANCE_GAP = 10"
definition IMPORT_CEILING_FLOOR :: int where "IMPORT_CEILING_FLOOR = 2 * WATCH_STOCK"
definition END_GAME_TICKS :: int where "END_GAME_TICKS = 10"
definition STOCK_CAP :: int where "STOCK_CAP = 100"

lemmas reserve_consts = MIN_SAFETY_TICKS_def MAX_SAFETY_TICKS_def LOW_HEALTH_EXTRA_TICKS_def
  PRODUCTION_VARIANCE_EXTRA_TICKS_def WATCH_STOCK_def CRITICAL_STOCK_def PRODUCTION_NORMAL_TICKS_def
  PRODUCTION_STOP_TICKS_def STORAGE_THRESHOLD_def MAX_RESERVE_UNITS_def BALANCE_GAP_def
  IMPORT_CEILING_FLOOR_def END_GAME_TICKS_def STOCK_CAP_def

abbreviation qty :: "Bundle \<Rightarrow> resource \<Rightarrow> int" where
  "qty b r \<equiv> int (get b r)"

subsection \<open>The reserve\<close>

definition safety_ticks :: "resource \<Rightarrow> rules \<Rightarrow> station_observation \<Rightarrow> policy_memory \<Rightarrow> int" where
  "safety_ticks r rs station m =
     (let base = (case median_round_trip m of None \<Rightarrow> MIN_SAFETY_TICKS
                  | Some observed \<Rightarrow> max MIN_SAFETY_TICKS (observed + 1));
          base = (if health station < max_health rs div 2 then base + LOW_HEALTH_EXTRA_TICKS else base);
          base = (if r = specialty station
                  then (case min_recent_production m of
                          Some lowest \<Rightarrow> if lowest < qty (upkeep_per_tick station) r
                                         then base + PRODUCTION_VARIANCE_EXTRA_TICKS else base
                        | None \<Rightarrow> base)
                  else base)
      in min base MAX_SAFETY_TICKS)"

definition reserve_base :: "resource \<Rightarrow> rules \<Rightarrow> station_observation \<Rightarrow> policy_memory \<Rightarrow> int" where
  "reserve_base r rs station m =
     min MAX_RESERVE_UNITS (qty (upkeep_per_tick station) r * safety_ticks r rs station m)"

definition reserve_saved :: "resource \<Rightarrow> rules \<Rightarrow> station_observation \<Rightarrow> policy_memory \<Rightarrow> Bundle \<Rightarrow> int" where
  "reserve_saved r rs station m available =
     (let base = reserve_base r rs station m;
          hv = qty available r;
          saved = min (min (qty (stored_reserve m) r) hv) (MAX_RESERVE_UNITS - base);
          excess = max 0 (hv - saved - STORAGE_THRESHOLD)
      in min (MAX_RESERVE_UNITS - base) (saved + excess))"

definition compute_reserve ::
  "rules \<Rightarrow> station_observation \<Rightarrow> policy_memory \<Rightarrow> Bundle option \<Rightarrow> (Bundle \<times> policy_memory) result" where
  "compute_reserve rs station m available =
     (let available = (case available of None \<Rightarrow> inventory station | Some a \<Rightarrow> a);
          saved = (\<lambda>r. reserve_saved r rs station m available)
      in bindE (bundle_of saved) (\<lambda>stored.
         bindE (bundle_of (\<lambda>r. reserve_base r rs station m + saved r)) (\<lambda>reserve.
         Inr (reserve, m\<lparr>stored_reserve := stored\<rparr>))))"

definition compute_urgency :: "Bundle \<Rightarrow> Bundle \<Rightarrow> Bundle \<Rightarrow> resource \<Rightarrow> urgency" where
  "compute_urgency available upkeep reserve r =
     (let hv = qty available r
      in if hv < max CRITICAL_STOCK (qty upkeep r) then CRITICAL
         else if hv < max WATCH_STOCK (qty reserve r) then WATCH
         else NONE)"

definition surplus_above_reserve :: "Bundle \<Rightarrow> Bundle \<Rightarrow> Bundle" where
  "surplus_above_reserve available reserve = saturating_sub available reserve"

definition deficit_below_reserve :: "Bundle \<Rightarrow> Bundle \<Rightarrow> Bundle" where
  "deficit_below_reserve available reserve = saturating_sub reserve available"

subsection \<open>Production guard, import ceilings, excess\<close>

definition in_end_game :: "int option \<Rightarrow> bool" where
  "in_end_game ticks_left = (case ticks_left of None \<Rightarrow> False | Some t \<Rightarrow> t \<le> END_GAME_TICKS)"

definition specialty_floor :: "station_observation \<Rightarrow> int option \<Rightarrow> int" where
  "specialty_floor station ticks_left =
     (let upkeep = qty (upkeep_per_tick station) (specialty station)
      in case ticks_left of
           Some t \<Rightarrow> if in_end_game ticks_left then min PRODUCTION_NORMAL_TICKS (t + 1) * upkeep
                     else PRODUCTION_NORMAL_TICKS * upkeep
         | None \<Rightarrow> PRODUCTION_NORMAL_TICKS * upkeep)"

definition production_payment_limit ::
  "Bundle \<Rightarrow> station_observation \<Rightarrow> int option \<Rightarrow> rat option" where
  "production_payment_limit available station ticks_left =
     (let upkeep = qty (upkeep_per_tick station) (specialty station);
          stock = qty available (specialty station)
      in if in_end_game ticks_left then
           (if stock < specialty_floor station ticks_left then Some 0 else None)
         else if stock < PRODUCTION_STOP_TICKS * upkeep then Some 0
         else if stock < PRODUCTION_NORMAL_TICKS * upkeep then Some (1 / 2)
         else None)"

definition import_resources :: "resource option \<Rightarrow> resource list" where
  "import_resources spec = filter (\<lambda>r. Some r \<noteq> spec) resources"

definition import_ceiling :: "resource \<Rightarrow> Bundle \<Rightarrow> resource option \<Rightarrow> int option" where
  "import_ceiling r available spec =
     (let others = map (qty available) (filter (\<lambda>q. q \<noteq> r) (import_resources spec))
      in case others of
           [] \<Rightarrow> None
         | x # xs \<Rightarrow> if Some r = spec then None
                     else Some (max IMPORT_CEILING_FLOOR (fold min xs x + BALANCE_GAP)))"

definition over_ceiling :: "resource \<Rightarrow> Bundle \<Rightarrow> resource option \<Rightarrow> bool" where
  "over_ceiling r available spec =
     (case import_ceiling r available spec of None \<Rightarrow> False | Some c \<Rightarrow> qty available r > c)"

definition scarcest_import :: "Bundle \<Rightarrow> resource option \<Rightarrow> resource option" where
  "scarcest_import available spec = py_min (\<lambda>r. (get available r, r)) (import_resources spec)"

definition excess_over_cap :: "Bundle \<Rightarrow> Bundle result" where
  "excess_over_cap available = bundle_of (\<lambda>r. max 0 (qty available r - STOCK_CAP))"

definition comfortably_supplied :: "Bundle \<Rightarrow> bool" where
  "comfortably_supplied available \<longleftrightarrow> list_all (\<lambda>r. qty available r > 30) resources"

subsection \<open>Bounds of the reserve\<close>

lemma safety_ticks_bounds: "MIN_SAFETY_TICKS \<le> safety_ticks r rs station m \<and> safety_ticks r rs station m \<le> MAX_SAFETY_TICKS"
  by (auto simp: safety_ticks_def Let_def reserve_consts max_def split: option.splits)

lemma reserve_base_bounds:
  "min MAX_RESERVE_UNITS (MIN_SAFETY_TICKS * qty (upkeep_per_tick station) r) \<le> reserve_base r rs station m"
  "0 \<le> reserve_base r rs station m" "reserve_base r rs station m \<le> MAX_RESERVE_UNITS"
proof -
  let ?u = "qty (upkeep_per_tick station) r" and ?t = "safety_ticks r rs station m"
  have t: "3 \<le> ?t" using safety_ticks_bounds [of r rs station m] by (simp add: reserve_consts)
  have "?u * 3 \<le> ?u * ?t" by (rule mult_left_mono [OF t]) simp
  then have u: "3 * ?u \<le> ?u * ?t" by simp
  then show "min MAX_RESERVE_UNITS (MIN_SAFETY_TICKS * ?u) \<le> reserve_base r rs station m"
    by (simp add: reserve_base_def reserve_consts)
  have "0 \<le> ?u * ?t" using t by simp
  then show "0 \<le> reserve_base r rs station m" "reserve_base r rs station m \<le> MAX_RESERVE_UNITS"
    by (simp_all add: reserve_base_def reserve_consts)
qed

lemma reserve_saved_bounds:
  "0 \<le> reserve_saved r rs station m available"
  "reserve_saved r rs station m available \<le> MAX_RESERVE_UNITS - reserve_base r rs station m"
  using reserve_base_bounds [where r = r and rs = rs and station = station and m = m]
  by (simp_all add: reserve_saved_def Let_def reserve_consts)

text \<open>The two bundles built are never negative, so the reserve is always computed.\<close>

lemma compute_reserve_total:
  "\<exists>reserve stored. compute_reserve rs station m available = Inr (reserve, m\<lparr>stored_reserve := stored\<rparr>)
     \<and> (\<forall>r. qty reserve r = reserve_base r rs station m
            + reserve_saved r rs station m (case available of None \<Rightarrow> inventory station | Some a \<Rightarrow> a))"
proof -
  let ?a = "case available of None \<Rightarrow> inventory station | Some a \<Rightarrow> a"
  let ?s = "\<lambda>r. reserve_saved r rs station m ?a"
  obtain stored where stored: "bundle_of ?s = Inr stored"
    using bundle_of_nonneg [of ?s] reserve_saved_bounds(1) by blast
  obtain reserve where reserve: "bundle_of (\<lambda>r. reserve_base r rs station m + ?s r) = Inr reserve"
    using bundle_of_nonneg [of "\<lambda>r. reserve_base r rs station m + ?s r"]
      add_nonneg_nonneg [OF reserve_base_bounds(2) reserve_saved_bounds(1)] by blast
  have "compute_reserve rs station m available = Inr (reserve, m\<lparr>stored_reserve := stored\<rparr>)"
    by (simp add: compute_reserve_def Let_def stored reserve)
  moreover have "\<forall>r. qty reserve r = reserve_base r rs station m + ?s r"
    using bundle_of_InrE(2) [OF reserve] by blast
  ultimately show ?thesis by blast
qed

lemma compute_reserve_bounds:
  assumes "compute_reserve rs station m available = Inr (reserve, m')"
  shows "qty reserve r \<le> MAX_RESERVE_UNITS"
    and "min MAX_RESERVE_UNITS (MIN_SAFETY_TICKS * qty (upkeep_per_tick station) r) \<le> qty reserve r"
    and "m' = m\<lparr>stored_reserve := stored_reserve m'\<rparr>"
proof -
  from compute_reserve_total [of rs station m available] assms obtain stored where
    "m' = m\<lparr>stored_reserve := stored\<rparr>" and
    "qty reserve r = reserve_base r rs station m
       + reserve_saved r rs station m (case available of None \<Rightarrow> inventory station | Some a \<Rightarrow> a)"
    by auto
  then show "qty reserve r \<le> MAX_RESERVE_UNITS"
    and "min MAX_RESERVE_UNITS (MIN_SAFETY_TICKS * qty (upkeep_per_tick station) r) \<le> qty reserve r"
    and "m' = m\<lparr>stored_reserve := stored_reserve m'\<rparr>"
    using reserve_saved_bounds [where r = r and rs = rs and station = station and m = m
        and available = "case available of None \<Rightarrow> inventory station | Some a \<Rightarrow> a"]
      reserve_base_bounds [where r = r and rs = rs and station = station and m = m]
    by simp_all
qed

lemma surplus_le: "surplus_above_reserve available reserve \<le> available"
  by (simp add: surplus_above_reserve_def bundle_folds bundle_le_iff)

lemma surplus_deficit_balance:
  "available + deficit_below_reserve available reserve = reserve + surplus_above_reserve available reserve"
  by (rule bundle_eqI)
     (simp add: surplus_above_reserve_def deficit_below_reserve_def bundle_folds)

lemma excess_over_cap_total: "\<exists>e. excess_over_cap available = Inr e \<and> e \<le> available"
proof -
  obtain e where e: "excess_over_cap available = Inr e"
    using bundle_of_nonneg [of "\<lambda>r. max 0 (qty available r - STOCK_CAP)"]
    by (auto simp: excess_over_cap_def)
  have "get e r \<le> get available r" for r
    using bundle_of_InrE(2) [OF e [unfolded excess_over_cap_def], of r]
    by (simp add: reserve_consts)
  with e show ?thesis by (auto simp: bundle_le_iff)
qed

lemma compute_urgency_NONE_iff:
  "compute_urgency available upkeep reserve r = NONE \<longleftrightarrow>
     max CRITICAL_STOCK (qty upkeep r) \<le> qty available r \<and> max WATCH_STOCK (qty reserve r) \<le> qty available r"
  by (auto simp: compute_urgency_def Let_def)

text \<open>Less stock never lowers an urgency.\<close>

lemma compute_urgency_antimono:
  assumes "get a r \<le> get b r"
  shows "compute_urgency b upkeep reserve r \<le> compute_urgency a upkeep reserve r"
  using assms by (auto simp: compute_urgency_def Let_def less_eq_urgency_def)

end
