(* ===== verification/Pricing.thy ===== *)
theory Pricing
  imports Reserves
begin

text \<open>
  \<open>bazaar_client/policy/pricing.py\<close>: what to ask for and what to pay. A price is the ratio of
  the two sides of an offer, and it depends only on the uncommitted stock of the wanted
  resource (or on the urgency tier where the stock is not given). \<open>CannotAfford\<close> is the
  constructor of the same name.
\<close>

definition BASE_RATIO :: rat where "BASE_RATIO = 1"
definition MAX_PREMIUM_RATIO :: rat where "MAX_PREMIUM_RATIO = 8"
definition MAX_TRADE_SIZE :: int where "MAX_TRADE_SIZE = 4"
definition MAX_BULK_TRADE_SIZE :: int where "MAX_BULK_TRADE_SIZE = 12"
definition SPARE_PER_BULK_UNIT :: int where "SPARE_PER_BULK_UNIT = 4"
definition END_GAME_RATIO :: rat where "END_GAME_RATIO = 2"

lemmas pricing_consts = BASE_RATIO_def MAX_PREMIUM_RATIO_def MAX_TRADE_SIZE_def
  MAX_BULK_TRADE_SIZE_def SPARE_PER_BULK_UNIT_def END_GAME_RATIO_def

definition premium_for :: "urgency \<Rightarrow> int option \<Rightarrow> rat" where
  "premium_for u stock = (case stock of
     None \<Rightarrow> (case u of NONE \<Rightarrow> BASE_RATIO | WATCH \<Rightarrow> fl (6 / 5) | CRITICAL \<Rightarrow> 2)
   | Some n \<Rightarrow>
       if n \<ge> 20 then BASE_RATIO
       else if n \<ge> 15 then fl (6 / 5)
       else if n \<ge> 10 then 3 / 2
       else if n \<ge> 7 then fadd 2 (fmul (1 / 4) (fint (9 - n)))
       else min (fmul (5 / 2) (fpow (5 / 4) (nat (7 - max 0 n)))) MAX_PREMIUM_RATIO)"

definition trade_size :: "int \<Rightarrow> int" where
  "trade_size spare = max MAX_TRADE_SIZE (min MAX_BULK_TRADE_SIZE (spare div SPARE_PER_BULK_UNIT))"

definition desired_quantity :: "int \<Rightarrow> int option \<Rightarrow> int \<Rightarrow> int" where
  "desired_quantity deficit stock sz =
     (let cap = (case stock of Some n \<Rightarrow> if 15 \<le> n \<and> n < 20 then 5 else MAX_TRADE_SIZE
                 | None \<Rightarrow> MAX_TRADE_SIZE);
          cap = (case stock of None \<Rightarrow> max cap sz | Some n \<Rightarrow> if n \<ge> 20 then max cap sz else cap)
      in max 1 (min deficit cap))"

definition priced_give_quantity :: "int \<Rightarrow> urgency \<Rightarrow> int option \<Rightarrow> int" where
  "priced_give_quantity want_qty u stock =
     (let priced = \<lfloor>fadd (fmul (fint want_qty) (premium_for u stock)) (1 / 2)\<rfloor>;
          capped = \<lfloor>fmul (fint want_qty) MAX_PREMIUM_RATIO\<rfloor>
      in max want_qty (min priced capped))"

definition pay_for :: "resource \<Rightarrow> int \<Rightarrow> resource \<Rightarrow> int \<Rightarrow> (Bundle \<times> Bundle) result" where
  "pay_for give_resource give_qty want want_qty =
     bindE (single give_resource give_qty) (\<lambda>g.
     bindE (single want want_qty) (\<lambda>w. Inr (g, w)))"

definition compute_terms ::
  "resource \<Rightarrow> int \<Rightarrow> resource \<Rightarrow> Bundle \<Rightarrow> urgency \<Rightarrow> rat option \<Rightarrow> int option \<Rightarrow> bool \<Rightarrow>
     (Bundle \<times> Bundle) result" where
  "compute_terms want want_qty give_resource available u max_payment_ratio stock end_game =
     (if want = give_resource
      then Inl (CannotAfford ''cannot put the same resource on both sides of an offer'')
      else if want_qty \<le> 0 then Inl (CannotAfford ''nothing to ask for'')
      else let affordable = qty available give_resource in
        if affordable \<le> 0
        then Inl (CannotAfford (''no '' @ resource_name give_resource @ '' available to offer''))
        else case max_payment_ratio of
          Some ratio \<Rightarrow>
            (let give_qty = min affordable \<lfloor>fmul (fint want_qty) ratio\<rfloor>
             in if give_qty \<le> 0
                then Inl (CannotAfford ''production supply guard prevents paid trade'')
                else pay_for give_resource give_qty want want_qty)
        | None \<Rightarrow>
            if end_game then
              (let want_qty = max 1 (min want_qty \<lfloor>fdiv (fint affordable) END_GAME_RATIO\<rfloor>);
                   give_qty = min affordable \<lceil>fmul (fint want_qty) END_GAME_RATIO\<rceil>
               in pay_for give_resource give_qty want want_qty)
            else
              (let give_qty = priced_give_quantity want_qty u stock
               in if give_qty > affordable then
                    (let give_qty = affordable;
                         want_qty = max 1 \<lfloor>fdiv (fint give_qty) (premium_for u stock)\<rfloor>;
                         give_qty = min give_qty (priced_give_quantity want_qty u stock)
                     in pay_for give_resource give_qty want want_qty)
                  else pay_for give_resource give_qty want want_qty))"

subsection \<open>The premium\<close>

lemma fpow_quarters:
  "fpow (5 / 4) 1 = 5 / 4" "fpow (5 / 4) 2 = 25 / 16" "fpow (5 / 4) 3 = 125 / 64"
  "fpow (5 / 4) 4 = 625 / 256" "fpow (5 / 4) 5 = 3125 / 1024" "fpow (5 / 4) 6 = 15625 / 4096"
  "fpow (5 / 4) 7 = 78125 / 16384"
  by code_simp+

lemma low_stock_prices:
  "fmul (5 / 2) (5 / 4) = 25 / 8" "fmul (5 / 2) (25 / 16) = 125 / 32"
  "fmul (5 / 2) (125 / 64) = 625 / 128" "fmul (5 / 2) (625 / 256) = 3125 / 512"
  "fmul (5 / 2) (3125 / 1024) = 15625 / 2048" "fmul (5 / 2) (15625 / 4096) = 78125 / 8192"
  "fmul (5 / 2) (78125 / 16384) = 390625 / 32768"
  "fadd 2 (fmul (1 / 4) (fint 2)) = 5 / 2" "fadd 2 (fmul (1 / 4) (fint 1)) = 9 / 4"
  "fadd 2 (fmul (1 / 4) (fint 0)) = 2"
  by code_simp+

lemma fl_six_fifths: "1 < fl (6 / 5)" "fl (6 / 5) < 3 / 2"
  by code_simp+

text \<open>The tiers, with every float operation evaluated: all of them but \<open>1.2\<close> are exact.\<close>

lemma premium_tiers:
  "premium_for u (Some n) =
     (if n \<ge> 20 then 1 else if n \<ge> 15 then fl (6 / 5) else if n \<ge> 10 then 3 / 2
      else if n = 9 then 2 else if n = 8 then 9 / 4 else if n = 7 then 5 / 2
      else if n = 6 then 25 / 8 else if n = 5 then 125 / 32 else if n = 4 then 625 / 128
      else if n = 3 then 3125 / 512 else if n = 2 then 15625 / 2048 else 8)"
proof -
  consider "n \<ge> 10" | "n = 9" | "n = 8" | "n = 7" | "n = 6" | "n = 5" | "n = 4" | "n = 3"
    | "n = 2" | "n = 1" | "n \<le> 0" by linarith
  then show ?thesis
    by cases (simp_all add: premium_for_def pricing_consts fpow_quarters low_stock_prices
        fpow_quarters(1) [unfolded One_nat_def] max_def)
qed

lemma premium_for_bounds: "1 \<le> premium_for u stock" "premium_for u stock \<le> 8"
proof -
  have "1 \<le> premium_for u stock \<and> premium_for u stock \<le> 8"
  proof (cases stock)
    case None
    then show ?thesis
      using fl_six_fifths by (auto simp: premium_for_def pricing_consts split: urgency.splits)
  next
    case (Some n)
    then show ?thesis using fl_six_fifths by (simp add: premium_tiers)
  qed
  then show "1 \<le> premium_for u stock" "premium_for u stock \<le> 8" by auto
qed

lemma premium_for_antimono:
  assumes "m \<le> n"
  shows "premium_for u (Some n) \<le> premium_for v (Some m)"
  using assms fl_six_fifths by (simp add: premium_tiers)

subsection \<open>Quantities\<close>

lemma trade_size_bounds: "4 \<le> trade_size n" "trade_size n \<le> 12"
  by (simp_all add: trade_size_def pricing_consts)

lemma desired_quantity_bounds:
  "1 \<le> desired_quantity d stock sz" "sz \<le> 12 \<Longrightarrow> desired_quantity d stock sz \<le> 12"
  "1 \<le> d \<Longrightarrow> desired_quantity d stock sz \<le> d"
  by (auto simp: desired_quantity_def Let_def pricing_consts split: option.splits)

lemma fmul_premium_nonneg: "0 \<le> n \<Longrightarrow> 0 \<le> fmul (fint n) (premium_for u stock)"
  unfolding fmul_def using premium_for_bounds(1) [of u stock]
  by (intro fl_nonneg mult_nonneg_nonneg fint_nonneg) auto

lemma priced_ge: "want_qty \<le> priced_give_quantity want_qty u stock"
  by (simp add: priced_give_quantity_def Let_def)

lemma priced_le:
  assumes "0 \<le> n" and "n < 2 ^ 50"
  shows "priced_give_quantity n u stock \<le> 8 * n"
proof -
  have "fmul (fint n) MAX_PREMIUM_RATIO = fl (of_int (8 * n))"
    using assms by (simp add: fmul_def pricing_consts fint_exact mult.commute)
  also have "\<dots> = of_int (8 * n)" by (rule fl_of_int) (use assms in simp_all)
  finally have "\<lfloor>fmul (fint n) MAX_PREMIUM_RATIO\<rfloor> = 8 * n" by (simp only: floor_of_int)
  with assms show ?thesis by (simp add: priced_give_quantity_def Let_def)
qed

lemma priced_parity:
  assumes "0 \<le> n" and "n < 2 ^ 50" and "20 \<le> s"
  shows "priced_give_quantity n u (Some s) = n"
proof -
  have "fmul (fint n) (premium_for u (Some s)) = of_int n"
    using assms fl_of_int [of n] by (simp add: premium_tiers fmul_def fint_exact)
  then have "fadd (fmul (fint n) (premium_for u (Some s))) (1 / 2) = fl (of_int (2 * n + 1) * 2 powi (-1))"
    by (simp add: fadd_def field_simps power_int_def)
  also have "\<dots> = of_int (2 * n + 1) * 2 powi (-1)"
    using assms by (intro fl_exact [OF refl]) auto
  also have "\<dots> = of_int n + 1 / 2" by (simp add: power_int_def field_simps)
  finally have "\<lfloor>fadd (fmul (fint n) (premium_for u (Some s))) (1 / 2)\<rfloor> = n" by linarith
  with priced_ge [of n u "Some s"] show ?thesis by (simp add: priced_give_quantity_def Let_def)
qed

text \<open>Scarcer stock never lowers what we pay.\<close>

lemma priced_antimono:
  assumes "m \<le> s" and "0 \<le> n"
  shows "priced_give_quantity n u (Some s) \<le> priced_give_quantity n v (Some m)"
proof -
  have "fint n * premium_for u (Some s) \<le> fint n * premium_for v (Some m)"
    using premium_for_antimono [OF assms(1)] fint_nonneg [OF assms(2)] by (rule mult_left_mono)
  then have "fmul (fint n) (premium_for u (Some s)) \<le> fmul (fint n) (premium_for v (Some m))"
    using fint_nonneg [OF assms(2)] premium_for_bounds(1) [of u "Some s"]
    unfolding fmul_def by (intro fl_mono) auto
  then have "fadd (fmul (fint n) (premium_for u (Some s))) (1 / 2)
      \<le> fadd (fmul (fint n) (premium_for v (Some m))) (1 / 2)"
    using fmul_premium_nonneg [OF assms(2), of u "Some s"] unfolding fadd_def by (intro fl_mono) auto
  then have "\<lfloor>fadd (fmul (fint n) (premium_for u (Some s))) (1 / 2)\<rfloor>
      \<le> \<lfloor>fadd (fmul (fint n) (premium_for v (Some m))) (1 / 2)\<rfloor>" by (rule floor_mono)
  then show ?thesis by (simp add: priced_give_quantity_def Let_def)
qed

subsection \<open>Terms\<close>

lemma pay_for_Inr:
  "0 \<le> g \<Longrightarrow> 0 \<le> w \<Longrightarrow> \<exists>gb wb. pay_for gr g wr w = Inr (gb, wb)
     \<and> single gr g = Inr gb \<and> single wr w = Inr wb"
  using single_nonneg [of g gr] single_nonneg [of w wr] by (auto simp: pay_for_def)

text \<open>Either there is nothing to pay with, or both sides of the offer are built; no other
  exception escapes.\<close>

lemma compute_terms_cases:
  "(\<exists>why. compute_terms want n gr av u ratio stock eg = Inl (CannotAfford why))
   \<or> (\<exists>g w. compute_terms want n gr av u ratio stock eg = Inr (g, w))"
proof -
  have c: "0 \<le> \<lceil>fmul (fint k) END_GAME_RATIO\<rceil>" if "1 \<le> k" for k
    using fl_nonneg [of "fint k * 2"] fint_nonneg [of k] that
    by (simp add: fmul_def pricing_consts le_ceiling_iff less_le_trans)
  have q: "0 \<le> priced_give_quantity k u stock" if "1 \<le> k" for k
    using priced_ge [of k u stock] that by linarith
  have P: "\<exists>gb wb. pay_for gr g wr w = Inr (gb, wb)" if "0 \<le> g" "0 \<le> w" for g w wr
    using pay_for_Inr [OF that] by blast
  show ?thesis
    unfolding compute_terms_def Let_def
    by (auto split: option.splits intro!: disjI2 P simp: not_le
        simp del: zero_le_floor zero_le_ceiling less_ceiling_iff
        intro: c [OF max.cobounded1] q [OF max.cobounded1] q order.strict_implies_order)
qed

lemma half_exact:
  assumes "0 \<le> a" "a < 2 ^ 50"
  shows "fl (of_int a + 1 / 2) = of_int a + 1 / 2"
proof -
  have "of_int a + 1 / 2 = (of_int (2 * a + 1) * 2 powi (-1) :: rat)"
    by (simp add: power_int_def field_simps)
  moreover have "fl (of_int (2 * a + 1) * 2 powi (-1)) = of_int (2 * a + 1) * 2 powi (-1)"
    using assms by (intro fl_exact [OF refl]) auto
  ultimately show ?thesis by metis
qed

text \<open>Scaling an unaffordable trade down never asks for more than was wanted.\<close>

lemma scale_down_le:
  assumes n: "1 \<le> n" "n < 2 ^ 46" and a: "0 \<le> a" "a < priced_give_quantity n u stock"
  shows "max 1 \<lfloor>fdiv (fint a) (premium_for u stock)\<rfloor> \<le> n"
proof -
  let ?p = "premium_for u stock"
  have p: "1 \<le> ?p" by (rule premium_for_bounds)
  have "a < 8 * n" using priced_le [of n u stock] n a by simp
  then have big: "a < 2 ^ 50" using n by simp
  have "of_int a \<le> of_int n * ?p"
  proof (rule ccontr)
    assume "\<not> of_int a \<le> of_int n * ?p"
    then have lt: "of_int n * ?p < of_int a" by simp
    have "fl (of_int n * ?p) \<le> of_int a"
      using lt n p a(1) big by (intro fl_le_int) auto
    then have "fadd (fl (of_int n * ?p)) (1 / 2) \<le> fl (of_int a + 1 / 2)"
      unfolding fadd_def using n p by (intro fl_mono add_nonneg_nonneg fl_nonneg) auto
    also have "\<dots> = of_int a + 1 / 2" by (rule half_exact [OF a(1) big])
    finally have "\<lfloor>fadd (fl (of_int n * ?p)) (1 / 2)\<rfloor> \<le> a" by linarith
    moreover have "n \<le> a"
    proof (rule ccontr)
      assume "\<not> n \<le> a"
      then have "of_int a \<le> (of_int n :: rat)" by simp
      also have "\<dots> \<le> of_int n * ?p" using p n by simp
      finally show False using lt by simp
    qed
    ultimately have "priced_give_quantity n u stock \<le> a"
      using n by (simp add: priced_give_quantity_def Let_def fmul_def fint_exact)
    with a(2) show False by simp
  qed
  then have "fint a / ?p \<le> of_int n"
    using p a big by (simp add: fint_exact divide_le_eq)
  then have "\<lfloor>fdiv (fint a) ?p\<rfloor> \<le> n" unfolding fdiv_def
    using n p fint_nonneg [OF a(1)] by (intro floor_fl_le) auto
  with n show ?thesis by simp
qed

lemma end_game_quantities:
  assumes "1 \<le> k" "k < 2 ^ 46"
  shows "\<lceil>fmul (fint k) END_GAME_RATIO\<rceil> = 2 * k"
proof -
  have "fmul (fint k) END_GAME_RATIO = fl (of_int (2 * k))"
    using assms by (simp add: fmul_def pricing_consts fint_exact mult.commute)
  also have "\<dots> = of_int (2 * k)" by (rule fl_of_int) (use assms in simp_all)
  finally show ?thesis by (simp only: ceiling_of_int)
qed

lemma ratio_quantities:
  assumes "1 \<le> k" "k < 2 ^ 46" and x: "0 \<le> x" "x \<le> 8"
  shows "\<lfloor>fmul (fint k) x\<rfloor> \<le> 8 * k"
proof -
  have "of_int k * x \<le> of_int k * 8" using assms by (intro mult_left_mono) auto
  then have "of_int k * x \<le> of_int (8 * k)" by simp
  moreover have "0 \<le> of_int k * x" using assms by simp
  ultimately have "\<lfloor>fl (of_int k * x)\<rfloor> \<le> 8 * k"
    using assms by (intro floor_fl_le) auto
  then show ?thesis using assms by (simp add: fmul_def fint_exact)
qed

lemma pay_for_InrD: "pay_for gr p wr k = Inr (g, w) \<Longrightarrow> single gr p = Inr g \<and> single wr k = Inr w"
  by (auto simp: pay_for_def elim!: bindE_InrE)

lemma compute_terms_bounds:
  assumes "compute_terms want n gr av u ratio stock eg = Inr (g, w)"
    and "n < 2 ^ 46" and "\<And>x. ratio = Some x \<Longrightarrow> 0 \<le> x \<and> x \<le> 8"
  shows "\<exists>p k. single gr p = Inr g \<and> single want k = Inr w \<and> want \<noteq> gr
           \<and> 1 \<le> p \<and> p \<le> qty av gr \<and> p \<le> 8 * k \<and> 1 \<le> k \<and> k \<le> n"
proof -
  let ?a = "qty av gr"
  from assms(1) have n: "1 \<le> n" and a: "1 \<le> ?a" and ne: "want \<noteq> gr"
    by (auto simp: compute_terms_def Let_def split: if_splits)
  consider (ratio) x where "ratio = Some x" "1 \<le> min ?a \<lfloor>fmul (fint n) x\<rfloor>"
      "pay_for gr (min ?a \<lfloor>fmul (fint n) x\<rfloor>) want n = Inr (g, w)"
    | (end_game) k where "1 \<le> k" "k \<le> n" "pay_for gr (min ?a \<lceil>fmul (fint k) END_GAME_RATIO\<rceil>) want k = Inr (g, w)"
    | (scaled) k where "?a < priced_give_quantity n u stock" "k = max 1 \<lfloor>fdiv (fint ?a) (premium_for u stock)\<rfloor>"
      "pay_for gr (min ?a (priced_give_quantity k u stock)) want k = Inr (g, w)"
    | (full) "priced_give_quantity n u stock \<le> ?a"
      "pay_for gr (priced_give_quantity n u stock) want n = Inr (g, w)"
    using assms(1) n a ne
    by (auto simp: compute_terms_def Let_def not_less not_le split: option.splits if_splits)
       (meson max.cobounded1 max.boundedI min.cobounded1)+
  then show ?thesis
  proof cases
    case ratio
    then show ?thesis using ratio_quantities [OF n assms(2), of x] assms(3) [OF ratio(1)] n ne
      by (auto dest!: pay_for_InrD intro!: exI simp del: le_floor_iff one_le_floor)
  next
    case (end_game k)
    then show ?thesis using end_game_quantities [of k] assms(2) a ne
      by (auto dest!: pay_for_InrD intro!: exI)
  next
    case (scaled k)
    have k: "1 \<le> k" "k \<le> n" using scale_down_le [OF n assms(2) _ scaled(1)] a scaled(2) by auto
    then have "1 \<le> min ?a (priced_give_quantity k u stock)"
        "min ?a (priced_give_quantity k u stock) \<le> 8 * k"
      using priced_ge [of k u stock] priced_le [of k u stock] assms(2) a by auto
    with pay_for_InrD [OF scaled(3)] k ne show ?thesis by (auto intro!: exI)
  next
    case full
    then show ?thesis using n priced_ge [of n u stock] priced_le [of n u stock] assms(2) ne
      by (auto dest!: pay_for_InrD intro!: exI)
  qed
qed

end
