(* ===== verification/Accept.thy ===== *)
theory Accept
  imports Pricing
begin

text \<open>
  \<open>bazaar_client/policy/accept.py\<close>: whether to settle an offer addressed to us. The chain of
  guards returns a verdict with the reason the log prints; what the lemmas show is what an
  accepting verdict guarantees about the stock after the exchange.
\<close>

definition MIN_ACCEPT_RATIO :: rat where "MIN_ACCEPT_RATIO = fl (4 / 5)"
definition WEIGHT_CRITICAL :: rat where "WEIGHT_CRITICAL = 2"
definition WEIGHT_WATCH :: rat where "WEIGHT_WATCH = fl (3 / 10)"

record accept_decision =
  accept :: bool
  reason :: string

definition verdict :: "bool \<Rightarrow> string \<Rightarrow> accept_decision result" where
  "verdict b why = Inr \<lparr>accept = b, reason = why\<rparr>"

text \<open>\<open>f"{x:.2f}"\<close> of a float that is not negative: two decimals of the exact value, ties to even.\<close>

definition show_fixed2 :: "rat \<Rightarrow> string" where
  "show_fixed2 x = (let n = round_half_even (x * 100)
     in show_int (n div 100) @ ''.'' @ show_int (n mod 100 div 10) @ show_int (n mod 10))"

definition need_weights :: "(resource \<Rightarrow> urgency) \<Rightarrow> resource \<Rightarrow> rat" where
  "need_weights u r = (case u r of CRITICAL \<Rightarrow> fadd 1 WEIGHT_CRITICAL
                       | WATCH \<Rightarrow> fadd 1 WEIGHT_WATCH | NONE \<Rightarrow> 1)"

definition weighted_value :: "Bundle \<Rightarrow> (resource \<Rightarrow> rat) \<Rightarrow> rat" where
  "weighted_value b w = py_fsum (map (\<lambda>r. fmul (fint (qty b r)) (w r)) resources)"

text \<open>The value of the imported goods when we pay in our own specialty only.\<close>

definition import_value :: "Bundle \<Rightarrow> Bundle \<Rightarrow> (resource \<Rightarrow> urgency) \<Rightarrow> resource option \<Rightarrow> bool \<Rightarrow> rat" where
  "import_value gain available u spec end_game =
     (let floor_ratio = (if end_game then END_GAME_RATIO else 0)
      in py_fsum (map (\<lambda>r. fmul (fint (qty gain r))
             (max floor_ratio (premium_for (u r) (Some (qty available r)))))
           (filter (\<lambda>r. Some r \<noteq> spec) resources)))"

text \<open>Lines 86 to 128: the exchange is payable and spares the reserve; is the price right?\<close>

definition judge_price ::
  "Bundle \<Rightarrow> Bundle \<Rightarrow> Bundle \<Rightarrow> Bundle \<Rightarrow> (resource \<Rightarrow> urgency) \<Rightarrow>
     resource option \<Rightarrow> rat option \<Rightarrow> bool \<Rightarrow> accept_decision result" where
  "judge_price cost gain available reserve u spec max_payment_ratio end_game =
     (let remaining = bundle_add (saturating_sub available cost) gain
      in case max_payment_ratio of
          Some ratio \<Rightarrow>
            if ratio \<le> 0 \<or> of_int (int (total cost)) > fmul (fint (int (total gain))) ratio
            then verdict False ''production supply guard prevents paid trade''
            else if list_ex (\<lambda>r. 0 < get cost r \<and> get remaining r < get reserve r) resources
            then verdict False ''would breach reserve''
            else verdict True ''favourable trade within production supply guard''
        | None \<Rightarrow>
            (case filter (\<lambda>s. spec = Some s \<and> total cost = get cost s) resources of
              s # _ \<Rightarrow>
                (let value = import_value gain available u spec end_game;
                     net_cost = max 0 (qty cost s - qty gain s)
                 in if qty available s - net_cost < qty reserve s
                    then verdict False ''would breach production reserve''
                    else if value \<ge> of_int net_cost \<and> value > 0
                    then verdict True ''converts production into imports at an acceptable price''
                    else verdict False ''price exceeds import stock tier'')
            | [] \<Rightarrow>
                (let fills_need = list_ex (\<lambda>r. 0 < get gain r \<and> u r \<noteq> NONE) resources;
                     breaches_reserve = list_ex (\<lambda>r. get remaining r < get reserve r
                                                   \<and> get reserve r < get available r) resources;
                     weights = need_weights u;
                     cost_value = weighted_value cost weights;
                     ratio = (if cost_value \<noteq> 0 then fdiv (weighted_value gain weights) cost_value else 0)
                 in if breaches_reserve \<and> \<not> fills_need
                    then verdict False ''would breach reserve without filling a need''
                    else if fills_need \<and> ratio \<ge> MIN_ACCEPT_RATIO
                    then verdict True ''fills a need at an acceptable price''
                    else if ratio \<ge> 1 then verdict True ''favourable terms''
                    else verdict False (''price below threshold ('' @ show_fixed2 ratio @ '')''))))"

definition pays_with :: "Bundle \<Rightarrow> resource option \<Rightarrow> bool" where
  "pays_with cost spec = (case spec of None \<Rightarrow> False | Some s \<Rightarrow> total cost = get cost s)"

definition evaluate_incoming ::
  "offer \<Rightarrow> string \<Rightarrow> Bundle \<Rightarrow> Bundle \<Rightarrow> (resource \<Rightarrow> urgency) \<Rightarrow>
     resource option \<Rightarrow> rat option \<Rightarrow> bool \<Rightarrow> accept_decision result" where
  "evaluate_incoming o' station_id available reserve u spec max_payment_ratio end_game =
     bindE (what_station_pays o' station_id) (\<lambda>cost.
     bindE (what_station_receives o' station_id) (\<lambda>gain.
     let gains_specialty = (case spec of None \<Rightarrow> False | Some s \<Rightarrow> 0 < get gain s);
         supplied = (spec \<noteq> None \<and> comfortably_supplied available);
         imported = filter (\<lambda>r. Some r \<noteq> spec \<and> 0 < get gain r) resources
     in if supplied \<and> gains_specialty
        then verdict False ''well supplied: do not import our production''
        else if supplied \<and> total gain \<le> total cost \<and> \<not> (end_game \<and> pays_with cost spec)
        then verdict False ''well supplied: require a net resource gain''
        else if is_zero cost then verdict True ''gift''
        else if spec \<noteq> None \<and> imported \<noteq> [] \<and> list_all (\<lambda>r. over_ceiling r available spec) imported
        then verdict False ''already well ahead on this import; buy the other first''
        else if \<not> dominates available cost
        then verdict False ''cannot pay from uncommitted stock''
        else if list_ex (\<lambda>r. get (bundle_add (saturating_sub available cost) gain) r
                             < min (get available r) (get reserve r)) resources
        then verdict False ''would spend protected reserve''
        else judge_price cost gain available reserve u spec max_payment_ratio end_game))"

lemma verdict_Inr [simp]: "verdict b why = Inr d \<longleftrightarrow> d = \<lparr>accept = b, reason = why\<rparr>"
  by (auto simp: verdict_def)

lemma verdict_not_Inl [simp]: "verdict b why \<noteq> Inl e"
  by (simp add: verdict_def)

subsection \<open>What an accepting verdict guarantees\<close>

lemma judge_price_total: "\<exists>d. judge_price cost gain av rs u spec ratio eg = Inr d"
  by (cases "judge_price cost gain av rs u spec ratio eg")
     (auto simp: judge_price_def Let_def split: if_splits option.splits list.splits)

lemma judge_price_guard:
  "judge_price cost gain av rs u spec (Some x) eg = Inr d \<Longrightarrow> accept d \<Longrightarrow>
     0 < x \<and> of_int (int (total cost)) \<le> fmul (fint (int (total gain))) x"
  by (simp add: judge_price_def Let_def split: if_splits)

lemma evaluate_incoming_total:
  assumes "what_station_pays o' sid = Inr cost"
  shows "\<exists>d. evaluate_incoming o' sid av rs u spec ratio eg = Inr d"
proof -
  obtain gain where g: "what_station_receives o' sid = Inr gain"
    using assms by (auto simp: what_station_pays_def what_station_receives_def split: if_splits)
  show ?thesis
    using judge_price_total [of cost gain av rs u spec ratio eg]
    by (auto simp: evaluate_incoming_def assms g Let_def)
qed

lemma evaluate_incoming_accept:
  assumes "evaluate_incoming o' sid av rs u spec ratio eg = Inr d" and "accept d"
    and "what_station_pays o' sid = Inr cost" and "what_station_receives o' sid = Inr gain"
    and "cost \<noteq> 0"
  shows accept_affordable: "cost \<le> av"
    and accept_keeps_reserve: "min (get av r) (get rs r) \<le> get (av - cost + gain) r"
    and accept_net_gain: "spec = Some s \<Longrightarrow> comfortably_supplied av \<Longrightarrow>
      get gain s = 0 \<and> (total cost < total gain \<or> eg \<and> total cost = get cost s)"
    and accept_judged: "judge_price cost gain av rs u spec ratio eg = Inr d"
  using assms
  by (auto simp: evaluate_incoming_def Let_def bundle_folds list_ex_iff not_less not_le pays_with_def min_le_iff_disj
      split: if_splits)

lemmas accept_guard = judge_price_guard [OF accept_judged]

lemma evaluate_incoming_gift:
  assumes "what_station_pays o' sid = Inr 0" and "what_station_receives o' sid = Inr gain"
  shows "(\<exists>d. evaluate_incoming o' sid av rs u spec ratio eg = Inr d \<and> accept d)
     \<longleftrightarrow> \<not> (\<exists>s. spec = Some s \<and> comfortably_supplied av \<and> (0 < get gain s \<or> (gain = 0 \<and> \<not> eg)))"
  using assms by (cases spec) (auto simp: evaluate_incoming_def Let_def pays_with_def)

end
