(* ===== verification/Targeting.thy ===== *)
theory Targeting
  imports Reserves
begin

text \<open>
  \<open>bazaar_client/policy/targeting.py\<close>: who to approach for each wanted resource and what to pay
  with. A score of \<open>-inf\<close> is \<open>None\<close>, below every float in the order of options, and the
  tuple key of \<open>max\<close> is compared lexicographically.
\<close>

definition RECENCY_WINDOW :: rat where "RECENCY_WINDOW = 10"
definition WEIGHT_SELLS_WHAT_WE_NEED :: rat where "WEIGHT_SELLS_WHAT_WE_NEED = 3"
definition WEIGHT_SEEKS_WHAT_WE_OFFER :: rat where "WEIGHT_SEEKS_WHAT_WE_OFFER = 2"
definition WEIGHT_RECENCY :: rat where "WEIGHT_RECENCY = 1"
definition WEIGHT_RELIABILITY :: rat where "WEIGHT_RELIABILITY = 1"

record candidate =
  cand_station :: string
  cand_want :: resource
  cand_give :: resource
  cand_score :: rat

definition score_counterparty ::
  "counterparty_stats \<Rightarrow> resource \<Rightarrow> resource \<Rightarrow> int \<Rightarrow> rat option" where
  "score_counterparty st want gives tick =
     (if station_failed st then None
      else let recency = (if last_ad_tick st \<ge> 0
             then max 0 (fsub 1 (fdiv (of_int (tick - last_ad_tick st)) RECENCY_WINDOW)) else 0)
      in Some (fadd (fadd (fadd
           (WEIGHT_SELLS_WHAT_WE_NEED * of_bool (want \<in> cp_selling st))
           (WEIGHT_SEEKS_WHAT_WE_OFFER * of_bool (gives \<in> cp_seeking st)))
           (fmul WEIGHT_RECENCY recency))
           (fmul WEIGHT_RELIABILITY (accept_rate st))))"

definition target_options ::
  "counterparty_stats list \<Rightarrow> resource list \<Rightarrow> resource \<Rightarrow> (string \<times> resource) set \<Rightarrow>
     (counterparty_stats \<times> resource) list" where
  "target_options sts payable want pending =
     concat (map (\<lambda>st. map (Pair st) (filter (\<lambda>g. g \<noteq> want \<and> (cp_station_id st, want) \<notin> pending) payable)) sts)"

definition target_key ::
  "Bundle \<Rightarrow> int \<Rightarrow> resource option \<Rightarrow> resource \<Rightarrow> counterparty_stats \<times> resource \<Rightarrow>
     bool \<times> bool \<times> rat option \<times> nat" where
  "target_key surplus tick preferred want p =
     (\<not> station_failed (fst p), Some (snd p) = preferred,
      score_counterparty (fst p) want (snd p) tick, get surplus (snd p))"

definition sorted_needs :: "(resource \<Rightarrow> urgency) \<Rightarrow> (resource, int) pydict \<Rightarrow> resource list" where
  "sorted_needs u wanted =
     sort_key (\<lambda>r. (- urgency_int (u r), - dict_get_or 0 wanted r))
       (map fst (filter (\<lambda>p. snd p > 0) wanted))"

definition best_candidate ::
  "counterparty_stats list \<Rightarrow> resource list \<Rightarrow> Bundle \<Rightarrow> int \<Rightarrow> (string \<times> resource) set \<Rightarrow>
     resource option \<Rightarrow> resource \<Rightarrow> candidate option" where
  "best_candidate sts payable surplus tick pending preferred want =
     (case py_max (target_key surplus tick preferred want) (target_options sts payable want pending) of
        None \<Rightarrow> None
      | Some (st, g) \<Rightarrow> (case score_counterparty st want g tick of
            None \<Rightarrow> None
          | Some best \<Rightarrow> Some \<lparr>cand_station = cp_station_id st, cand_want = want,
                                cand_give = g, cand_score = best\<rparr>))"

definition rank_counterparties ::
  "counterparty_model \<Rightarrow> (resource \<Rightarrow> urgency) \<Rightarrow> (resource, int) pydict \<Rightarrow> Bundle \<Rightarrow> int \<Rightarrow>
     (string \<times> resource) set \<Rightarrow> resource option \<Rightarrow> candidate list" where
  "rank_counterparties model u wanted surplus tick already_pending preferred_give =
     (let needs = sorted_needs u wanted;
          payable = filter (\<lambda>r. 0 < get surplus r) resources;
          sts = stations_of model
      in if payable = [] \<or> sts = [] then []
         else List.map_filter (best_candidate sts payable surplus tick already_pending preferred_give) needs)"

subsection \<open>What a candidate is\<close>

lemma target_options_iff:
  "(st, g) \<in> set (target_options sts payable want pending) \<longleftrightarrow>
     st \<in> set sts \<and> g \<in> set payable \<and> g \<noteq> want \<and> (cp_station_id st, want) \<notin> pending"
  by (auto simp: target_options_def)

lemma sorted_needs_set: "set (sorted_needs u wanted) = {r. \<exists>n. (r, n) \<in> set wanted \<and> 0 < n}"
  by (force simp: sorted_needs_def)

lemma distinct_sorted_needs: "dict_ok wanted \<Longrightarrow> distinct (sorted_needs u wanted)"
  by (simp add: sorted_needs_def dict_ok_def distinct_map_filter)

lemma sorted_needs_sorted: "sorted (map (\<lambda>r. (- urgency_int (u r), - dict_get_or 0 wanted r)) (sorted_needs u wanted))"
  by (simp add: sorted_needs_def)

lemma best_candidate_Some:
  assumes "best_candidate sts payable surplus tick pending preferred want = Some c"
  shows "cand_want c = want" and "cand_give c \<noteq> want" and "cand_give c \<in> set payable"
    and "(cand_station c, want) \<notin> pending"
    and "\<exists>st \<in> set sts. cp_station_id st = cand_station c
           \<and> score_counterparty st want (cand_give c) tick = Some (cand_score c)"
proof -
  from assms obtain st g where m: "py_max (target_key surplus tick preferred want)
      (target_options sts payable want pending) = Some (st, g)"
    and s: "score_counterparty st want g tick = Some (cand_score c)"
    and c: "cand_station c = cp_station_id st" "cand_want c = want" "cand_give c = g"
    by (auto simp: best_candidate_def split: option.splits prod.splits)
  from py_max_in [OF m] c s show "cand_want c = want" and "cand_give c \<noteq> want" and "cand_give c \<in> set payable"
    and "(cand_station c, want) \<notin> pending"
    and "\<exists>st \<in> set sts. cp_station_id st = cand_station c
           \<and> score_counterparty st want (cand_give c) tick = Some (cand_score c)"
    by (auto simp: target_options_iff)
qed

text \<open>The choice prefers the requested payment, then the score.\<close>

lemma best_candidate_prefers:
  assumes "best_candidate sts payable surplus tick pending (Some p) want = Some c"
    and "st \<in> set sts" "\<not> station_failed st" "p \<in> set payable" "p \<noteq> want"
    and "(cp_station_id st, want) \<notin> pending"
  shows "cand_give c = p \<and> score_counterparty st want p tick \<le> Some (cand_score c)"
proof -
  let ?k = "target_key surplus tick (Some p) want"
  from assms(1) obtain st' g where m: "py_max ?k (target_options sts payable want pending) = Some (st', g)"
    and s: "score_counterparty st' want g tick = Some (cand_score c)" and c: "cand_give c = g"
    by (auto simp: best_candidate_def split: option.splits prod.splits)
  have "?k (st, p) \<le> ?k (st', g)"
    using assms by (intro py_max_ge [OF m]) (simp add: target_options_iff)
  with s c assms(3) show ?thesis
    by (auto simp: target_key_def less_eq_prod_def less_le split: if_splits)
qed

lemma rank_counterpartiesD:
  assumes "c \<in> set (rank_counterparties model u wanted surplus tick pending preferred)"
  shows "cand_give c \<noteq> cand_want c" and "0 < get surplus (cand_give c)"
    and "\<exists>n. (cand_want c, n) \<in> set wanted \<and> 0 < n"
    and "(cand_station c, cand_want c) \<notin> pending"
    and "\<exists>st \<in> set (stations_of model). cp_station_id st = cand_station c"
proof -
  let ?payable = "filter (\<lambda>r. 0 < get surplus r) resources"
  from assms obtain want where
    "best_candidate (stations_of model) ?payable surplus tick pending preferred want = Some c"
    and "want \<in> set (sorted_needs u wanted)"
    by (auto simp: rank_counterparties_def Let_def List.map_filter_def split: if_splits)
  with best_candidate_Some [OF this(1)] show "cand_give c \<noteq> cand_want c" and "0 < get surplus (cand_give c)"
    and "\<exists>n. (cand_want c, n) \<in> set wanted \<and> 0 < n"
    and "(cand_station c, cand_want c) \<notin> pending"
    and "\<exists>st \<in> set (stations_of model). cp_station_id st = cand_station c"
    by (auto simp: sorted_needs_set)
qed

text \<open>One candidate per wanted resource.\<close>

lemma rank_distinct_wants:
  assumes "dict_ok wanted"
  shows "distinct (map cand_want (rank_counterparties model u wanted surplus tick pending preferred))"
proof -
  have "map cand_want (List.map_filter (best_candidate sts payable surplus tick pending preferred) rs)
      = filter (\<lambda>r. best_candidate sts payable surplus tick pending preferred r \<noteq> None) rs" for sts payable rs
    by (induction rs) (auto simp: List.map_filter_simps best_candidate_Some(1) split: option.splits)
  with distinct_sorted_needs [OF assms, of u] show ?thesis
    by (simp add: rank_counterparties_def Let_def)
qed

end
