(* ===== verification/Altruism.thy ===== *)
theory Altruism
  imports Reserves
begin

text \<open>
  \<open>bazaar_client/policy/altruism.py\<close>: gifts. Stock over the cap goes to whoever asks for it
  (\<open>pick_gift_recipient\<close>); a need advertised for at least four ticks may get a fraction of idle
  surplus (\<open>scan_for_distress\<close>).
\<close>

definition PERSISTENCE_TICKS :: int where "PERSISTENCE_TICKS = 4"
definition DONATION_CAP_FRACTION :: rat where "DONATION_CAP_FRACTION = fl (1 / 5)"
definition COOLDOWN_TICKS :: int where "COOLDOWN_TICKS = 5"
definition MAX_GIFTS_PER_TICK :: nat where "MAX_GIFTS_PER_TICK = 1"
definition MAX_EXCESS_GIFT :: int where "MAX_EXCESS_GIFT = 20"
definition EXCESS_COOLDOWN_TICKS :: int where "EXCESS_COOLDOWN_TICKS = 2"

lemmas altruism_consts = PERSISTENCE_TICKS_def DONATION_CAP_FRACTION_def COOLDOWN_TICKS_def
  MAX_GIFTS_PER_TICK_def MAX_EXCESS_GIFT_def EXCESS_COOLDOWN_TICKS_def

record gift_intent =
  gift_station :: string
  gift_resource :: resource
  gift_quantity :: int

text \<open>\<open>int(x)\<close> truncates towards zero.\<close>

definition py_trunc :: "rat \<Rightarrow> int" where
  "py_trunc x = (if x < 0 then \<lceil>x\<rceil> else \<lfloor>x\<rfloor>)"

definition donation_size :: "int \<Rightarrow> int" where
  "donation_size surplus_qty = max 1 (py_trunc (fmul (fint surplus_qty) DONATION_CAP_FRACTION))"

definition pick_gift_recipient ::
  "counterparty_model \<Rightarrow> resource \<Rightarrow> int \<Rightarrow> policy_memory \<Rightarrow> string option" where
  "pick_gift_recipient model r tick m =
     (let seekers = filter (\<lambda>st. r \<in> cp_seeking st
            \<and> ticks_since_gift m (cp_station_id st) r tick \<ge> EXCESS_COOLDOWN_TICKS) (stations_of model)
      in map_option cp_station_id
           (py_max (\<lambda>st. (dict_get_or 0 (seeking_streak st) r, last_ad_tick st)) seekers))"

definition distress_intents ::
  "Bundle \<Rightarrow> int \<Rightarrow> policy_memory \<Rightarrow> counterparty_stats \<Rightarrow> gift_intent list" where
  "distress_intents surplus tick m st =
     List.map_filter (\<lambda>(r, streak).
        if streak < PERSISTENCE_TICKS then None
        else if get surplus r \<le> 0 then None
        else if ticks_since_gift m (cp_station_id st) r tick < COOLDOWN_TICKS then None
        else Some \<lparr>gift_station = cp_station_id st, gift_resource = r,
                   gift_quantity = donation_size (qty surplus r)\<rparr>) (seeking_streak st)"

text \<open>The sort key dereferences \<open>model.get(...)\<close>, which is \<open>None\<close> for an unknown station.\<close>

definition distress_key :: "counterparty_model \<Rightarrow> gift_intent \<Rightarrow> (gift_intent \<times> int) result" where
  "distress_key model g = (case get_station model (gift_station g) of
      None \<Rightarrow> Inl AttributeError
    | Some st \<Rightarrow> Inr (g, - dict_get_or 0 (seeking_streak st) (gift_resource g)))"

definition scan_for_distress ::
  "counterparty_model \<Rightarrow> Bundle \<Rightarrow> (resource \<Rightarrow> urgency) \<Rightarrow> int \<Rightarrow> policy_memory \<Rightarrow> gift_intent list result" where
  "scan_for_distress model surplus u tick m =
     (if list_ex (\<lambda>r. u r \<noteq> NONE) resources then Inr []
      else let intents = concat (map (distress_intents surplus tick m) (stations_of model))
      in bindE (mapE (distress_key model) intents) (\<lambda>keyed.
         Inr (take MAX_GIFTS_PER_TICK (map fst (sort_key snd keyed)))))"

subsection \<open>Size, cool-down and recipients of a gift\<close>

lemma donation_size_bounds:
  assumes "0 < n" and "n < 2 ^ 50"
  shows "1 \<le> donation_size n" and "donation_size n \<le> n" and "5 \<le> n \<Longrightarrow> 4 * donation_size n \<le> n"
proof -
  have f: "0 \<le> fl (1 / 5)" "fl (1 / 5) \<le> 1 / 4"
    by code_simp+
  have "fint n * fl (1 / 5) \<le> of_int n / 4" "0 \<le> fint n * fl (1 / 5)"
    using assms f mult_left_mono [OF f(2), of "of_int n"] by (simp_all add: fint_exact)
  then have le: "fmul (fint n) DONATION_CAP_FRACTION \<le> fl (of_int n / 4)"
    and nn: "0 \<le> fmul (fint n) DONATION_CAP_FRACTION"
    by (simp_all add: fmul_def altruism_consts fl_mono fl_nonneg)
  note le
  also have "fl (of_int n / 4) = of_int n / 4"
    using fl_exact [of "of_int n / 4" n "-2"] assms by (simp add: power_int_def field_simps)
  finally have "4 * py_trunc (fmul (fint n) DONATION_CAP_FRACTION) \<le> n"
    using nn by (simp add: py_trunc_def) linarith
  then show "1 \<le> donation_size n" "donation_size n \<le> n" "5 \<le> n \<Longrightarrow> 4 * donation_size n \<le> n"
    using assms(1) by (simp_all add: donation_size_def)
qed

lemma donation_size_le:
  assumes "0 < n"
  shows "donation_size n \<le> n" and "1 \<le> donation_size n"
proof -
  have f: "0 \<le> fl (1 / 5)" "fl (1 / 5) \<le> 1 / 4"
    by code_simp+
  have n: "0 \<le> fint n" "fint n \<le> 2 * of_int n"
    using assms by (simp_all add: fint_def fl_nonneg fl_le_double)
  have "fint n * fl (1 / 5) \<le> (2 * of_int n) * (1 / 4)"
    by (rule mult_mono) (use f n assms in auto)
  moreover have "0 \<le> fint n * fl (1 / 5)" using f n by simp
  ultimately have "fmul (fint n) DONATION_CAP_FRACTION \<le> of_int n"
    using fl_le_double [of "fint n * fl (1 / 5)"] by (simp add: fmul_def altruism_consts)
  then show "donation_size n \<le> n" "1 \<le> donation_size n"
    using assms by (auto simp: donation_size_def py_trunc_def floor_le_iff ceiling_le_iff)
qed

lemma pick_gift_recipientD:
  assumes "pick_gift_recipient model r tick m = Some sid"
  shows "\<exists>st \<in> set (stations_of model). cp_station_id st = sid \<and> r \<in> cp_seeking st"
    and "EXCESS_COOLDOWN_TICKS \<le> ticks_since_gift m sid r tick"
  using assms py_max_in by (fastforce simp: pick_gift_recipient_def Let_def)+

lemma in_stations_of: "st \<in> set (stations_of model) \<Longrightarrow> \<not> station_failed st"
  by (simp add: stations_of_def)

lemma get_station_of:
  assumes "cp_ok model" and "st \<in> set (stations_of model)"
  shows "get_station model (cp_station_id st) = Some st"
proof -
  from assms(2) obtain k where k: "(k, st) \<in> set (cp_stations model)" by (auto simp: stations_of_def)
  with assms(1) have "dict_ok (cp_stations model)" "stats_ok k st"
    by (auto simp: cp_ok_def stations_ok_def)
  with k show ?thesis by (simp add: dict_mem_get get_station_def stats_ok_def)
qed

lemma distress_intentsD:
  assumes "g \<in> set (distress_intents surplus tick m st)"
  shows "gift_station g = cp_station_id st" and "0 < get surplus (gift_resource g)"
    and "gift_quantity g = donation_size (qty surplus (gift_resource g))"
    and "COOLDOWN_TICKS \<le> ticks_since_gift m (gift_station g) (gift_resource g) tick"
    and "\<exists>n \<ge> PERSISTENCE_TICKS. (gift_resource g, n) \<in> set (seeking_streak st)"
  using assms
  by (auto 0 4 simp: distress_intents_def List.map_filter_def not_less split: if_splits)

lemma scan_for_distress_total:
  assumes "cp_ok model"
  shows "\<exists>gs. scan_for_distress model surplus u tick m = Inr gs \<and> length gs \<le> MAX_GIFTS_PER_TICK"
proof -
  let ?f = "\<lambda>g. (g, - dict_get_or 0 (case get_station model (gift_station g) of Some st \<Rightarrow> seeking_streak st
                       | None \<Rightarrow> []) (gift_resource g))"
  let ?is = "concat (map (distress_intents surplus tick m) (stations_of model))"
  have "distress_key model g = Inr (?f g)" if "g \<in> set ?is" for g
  proof -
    from that obtain st where "st \<in> set (stations_of model)" "g \<in> set (distress_intents surplus tick m st)"
      by auto
    with get_station_of [OF assms] show ?thesis by (simp add: distress_key_def distress_intentsD(1))
  qed
  then have "mapE (distress_key model) ?is = Inr (map ?f ?is)" by (rule mapE_Inr)
  then show ?thesis by (simp add: scan_for_distress_def Let_def)
qed

lemma mapE_distress_key: "mapE (distress_key model) gs = Inr ks \<Longrightarrow> map fst ks = gs"
  by (induction gs arbitrary: ks) (auto simp: distress_key_def elim!: bindE_InrE split: option.splits)

lemma scan_for_distressD:
  assumes "scan_for_distress model surplus u tick m = Inr gs" and "g \<in> set gs"
  shows "u r = NONE"
    and "\<exists>st \<in> set (stations_of model). g \<in> set (distress_intents surplus tick m st)"
proof -
  show "u r = NONE"
    using assms by (auto simp: scan_for_distress_def list_ex_iff split: if_splits)
  from assms obtain ks where
    ks: "mapE (distress_key model) (concat (map (distress_intents surplus tick m) (stations_of model))) = Inr ks"
    and "g \<in> set (take MAX_GIFTS_PER_TICK (map fst (sort_key snd ks)))"
    by (auto simp: scan_for_distress_def Let_def elim!: bindE_InrE split: if_splits)
  then have "g \<in> set (map fst ks)" using set_take_subset by fastforce
  with mapE_distress_key [OF ks]
  show "\<exists>st \<in> set (stations_of model). g \<in> set (distress_intents surplus tick m st)" by auto
qed

end
