(* ===== verification/Advertising.thy ===== *)
theory Advertising
  imports Actions Floats
begin

text \<open>
  \<open>bazaar_client/policy/advertising.py\<close>: the one advertisement a planet has. A new one replaces
  it, so the decision leaves a current, accurate advertisement alone.
\<close>

definition MIN_LISTABLE_QTY :: int where "MIN_LISTABLE_QTY = 2"
definition DEFAULT_AD_TTL :: int where "DEFAULT_AD_TTL = 8"
definition AD_RENEW_MARGIN :: int where "AD_RENEW_MARGIN = 2"
definition MIN_AD_LIFETIME :: int where "MIN_AD_LIFETIME = 3"

lemmas ad_consts = MIN_LISTABLE_QTY_def DEFAULT_AD_TTL_def AD_RENEW_MARGIN_def MIN_AD_LIFETIME_def

definition listed_selling :: "Bundle \<Rightarrow> resource set" where
  "listed_selling surplus = set (filter (\<lambda>r. int (get surplus r) \<ge> MIN_LISTABLE_QTY) resources)"

definition listed_seeking :: "Bundle \<Rightarrow> resource set \<Rightarrow> resource set" where
  "listed_seeking deficit critical = set (filter (\<lambda>r. 0 < get deficit r \<or> r \<in> critical) resources)"

definition decide_advertisement ::
  "Bundle \<Rightarrow> Bundle \<Rightarrow> resource set \<Rightarrow> advertisement option \<Rightarrow> int \<Rightarrow> rules \<Rightarrow> action option \<times> string" where
  "decide_advertisement surplus deficit critical current tick rs =
     (let sell = listed_selling surplus;
          seek = listed_seeking deficit critical;
          ttl = min (min DEFAULT_AD_TTL (max_publication_ttl_ticks rs)) (duration_ticks rs - tick);
          proposed = AdvertiseAction sell seek (tick + ttl)
      in if ttl \<le> 0 then (None, ''no publication lifetime remains'')
         else case current of
           None \<Rightarrow> if sell = {} \<and> seek = {} then (None, ''nothing to sell or seek'')
                   else (Some proposed, ''no active advertisement'')
         | Some ad \<Rightarrow>
             if critical - seeking ad \<noteq> {} then (Some proposed, ''new critical need'')
             else if sell = {} \<and> seek = {}
             then (Some (WithdrawAction (advertisement_id ad)), ''no longer selling or seeking'')
             else if (sell, seek) \<noteq> (selling ad, seeking ad) \<and> tick - ad_created_tick ad \<ge> MIN_AD_LIFETIME
             then (Some proposed, ''needs changed materially'')
             else if ad_expires_tick ad - tick \<le> AD_RENEW_MARGIN
             then (Some proposed, ''renewing before expiry'')
             else (None, ''current advertisement still accurate''))"

lemma decide_advertisement_cases:
  assumes "decide_advertisement surplus deficit critical current tick rs = (Some a, why)"
  shows "(\<exists>expires. a = AdvertiseAction (listed_selling surplus) (listed_seeking deficit critical) expires
            \<and> tick < expires \<and> expires \<le> tick + max_publication_ttl_ticks rs \<and> expires \<le> duration_ticks rs)
     \<or> (\<exists>ad. current = Some ad \<and> a = WithdrawAction (advertisement_id ad))"
  using assms by (auto simp: decide_advertisement_def Let_def split: option.splits if_splits)

text \<open>An advertisement that lists what we would list is renewed only near its expiry, whatever
  the tick; one that misses a critical need is replaced at once.\<close>

lemma decide_advertisement_quiet:
  assumes "selling ad = listed_selling surplus" and "seeking ad = listed_seeking deficit critical"
    and "selling ad \<noteq> {} \<or> seeking ad \<noteq> {}" and "AD_RENEW_MARGIN < ad_expires_tick ad - tick"
  shows "fst (decide_advertisement surplus deficit critical (Some ad) tick rs) = None"
proof -
  have "critical \<subseteq> seeking ad" by (auto simp: assms(2) listed_seeking_def)
  with assms show ?thesis by (auto simp: decide_advertisement_def Let_def)
qed

lemma decide_advertisement_critical:
  assumes "c \<in> critical" and "c \<notin> seeking ad"
    and "tick < duration_ticks rs" and "0 < max_publication_ttl_ticks rs"
  shows "\<exists>sell seek expires. fst (decide_advertisement surplus deficit critical (Some ad) tick rs)
           = Some (AdvertiseAction sell seek expires) \<and> c \<in> seek"
  using assms by (auto simp: decide_advertisement_def Let_def listed_seeking_def ad_consts)

end
