(* ===== verification/Decide.thy ===== *)
theory Decide
  imports Accept Targeting Altruism Advertising Commitments
begin

text \<open>
  \<open>bazaar_client/policy/decide.py\<close>: one decision from one observation. The steps spend one
  command budget and one shared balance of uncommitted stock, in the order accepts, withdrawals,
  excess gifts, advertisement, offers, deferred accepts, aid. The mutable \<open>Decision\<close> and the
  memory are passed explicitly; a loop over offers is a recursion on the list of offers.
\<close>

definition OFFER_TTL :: int where "OFFER_TTL = 5"
definition TARGET_BUFFER_MULTIPLE :: int where "TARGET_BUFFER_MULTIPLE = 2"

record decision =
  d_actions :: "action list"
  d_reasons :: "string list"
  d_reserve :: Bundle
  d_available :: Bundle
  d_surplus :: Bundle
  d_deficit :: Bundle
  d_urgency :: "(resource \<Rightarrow> urgency) option"

definition decision_new :: decision where
  "decision_new = \<lparr>d_actions = [], d_reasons = [], d_reserve = zero_bundle, d_available = zero_bundle,
     d_surplus = zero_bundle, d_deficit = zero_bundle, d_urgency = None\<rparr>"

definition d_add :: "action \<Rightarrow> string \<Rightarrow> decision \<Rightarrow> decision" where
  "d_add a why d = d\<lparr>d_actions := d_actions d @ [a], d_reasons := d_reasons d @ [why]\<rparr>"

definition d_explain :: "string \<Rightarrow> decision \<Rightarrow> decision" where
  "d_explain why d = d\<lparr>d_reasons := d_reasons d @ [why]\<rparr>"

definition planned_offers :: "decision \<Rightarrow> int" where
  "planned_offers d = int (length (filter is_offer_action (d_actions d)))"

definition critical_of :: "(resource \<Rightarrow> urgency) \<Rightarrow> resource set" where
  "critical_of u = set (filter (\<lambda>r. u r = CRITICAL) resources)"

definition urgency_at :: "snapshot \<Rightarrow> Bundle \<Rightarrow> Bundle \<Rightarrow> resource \<Rightarrow> urgency" where
  "urgency_at s available reserve = compute_urgency available (upkeep_per_tick (me s)) reserve"

text \<open>\<open>min(OFFER_TTL, max_offer_ttl_ticks, duration_ticks - tick)\<close>, the lifetime of a new offer.\<close>

definition offer_ttl :: "snapshot \<Rightarrow> int" where
  "offer_ttl s = min (min OFFER_TTL (max_offer_ttl_ticks (snap_rules s)))
                     (duration_ticks (snap_rules s) - snap_tick s)"

definition open_outgoing :: "snapshot \<Rightarrow> int" where
  "open_outgoing s = int (length (outgoing_open_offers s))"

subsection \<open>The import to keep a command free for\<close>

definition scarce_import_to_chase ::
  "snapshot \<Rightarrow> Bundle \<Rightarrow> (resource \<Rightarrow> urgency) \<Rightarrow> int option \<Rightarrow> resource option" where
  "scarce_import_to_chase s available u ticks_left =
     (let spec = specialty (me s) in
      case scarcest_import available (Some spec) of
        None \<Rightarrow> None
      | Some scarce \<Rightarrow>
          let lagging = u scarce \<noteq> NONE
                \<or> list_ex (\<lambda>r. over_ceiling r available (Some spec))
                    (filter (\<lambda>r. r \<noteq> scarce \<and> r \<noteq> spec) resources);
              outgoing = outgoing_open_offers s
          in if \<not> lagging then None
             else if production_payment_limit available (me s) ticks_left = Some 0 then None
             else if int (length outgoing) \<ge> max_open_outgoing_offers (snap_rules s) then None
             else if list_ex (\<lambda>o'. 0 < get (receive o') scarce) outgoing then None
             else Some scarce)"

subsection \<open>Accepting\<close>

definition has_normal_offers :: "snapshot \<Rightarrow> bool" where
  "has_normal_offers s \<longleftrightarrow> list_ex (\<lambda>o'. is_zero (receive o')
      \<or> of_int (int (total (give o'))) > fmul (1 / 2) (fint (int (total (receive o')))))
     (outgoing_open_offers s)"

record accept_state =
  as_decision :: decision
  as_budget :: int
  as_running :: Bundle
  as_urgency :: "resource \<Rightarrow> urgency"
  as_deferred :: "offer list"

fun accept_loop ::
  "snapshot \<Rightarrow> Bundle \<Rightarrow> int option \<Rightarrow> resource option \<Rightarrow> offer list \<Rightarrow> accept_state \<Rightarrow> accept_state result" where
  "accept_loop s reserve ticks_left hold_for [] st = Inr st"
| "accept_loop s reserve ticks_left hold_for (o' # os) st =
     (if as_budget st \<le> 0 then Inr st
      else bindE (what_station_pays o' (self_station_id s)) (\<lambda>cost.
      bindE (what_station_receives o' (self_station_id s)) (\<lambda>gain.
      let limit = production_payment_limit (saturating_sub (as_running st) cost) (me s) ticks_left
      in if \<not> is_zero cost \<and> has_normal_offers s \<and> limit \<noteq> None
         then accept_loop s reserve ticks_left hold_for os st
         else bindE (evaluate_incoming o' (self_station_id s) (as_running st) reserve (as_urgency st)
                       (Some (specialty (me s))) limit (in_end_game ticks_left)) (\<lambda>v.
           if \<not> accept v then accept_loop s reserve ticks_left hold_for os st
           else if as_budget st \<le> 1 \<and> (expires_tick o' - snap_tick s \<le> 1
                     \<or> (case hold_for of None \<Rightarrow> False | Some h \<Rightarrow> get gain h = 0))
           then accept_loop s reserve ticks_left hold_for os (st\<lparr>as_deferred := as_deferred st @ [o']\<rparr>)
           else let running = saturating_sub (as_running st) cost
             in accept_loop s reserve ticks_left hold_for os
                  (st\<lparr>as_decision := d_add (AcceptAction (offer_id o'))
                        (''accept '' @ offer_id o' @ '': '' @ reason v) (as_decision st),
                      as_budget := as_budget st - 1,
                      as_running := running,
                      as_urgency := urgency_at s running reserve\<rparr>)))))"

definition accept_incoming ::
  "decision \<Rightarrow> snapshot \<Rightarrow> offer list \<Rightarrow> Bundle \<Rightarrow> Bundle \<Rightarrow> (resource \<Rightarrow> urgency) \<Rightarrow> int \<Rightarrow>
     int option \<Rightarrow> resource option \<Rightarrow> (decision \<times> int \<times> Bundle \<times> offer list) result" where
  "accept_incoming d s os available reserve u budget ticks_left hold_for =
     bindE (accept_loop s reserve ticks_left hold_for os
              \<lparr>as_decision = d, as_budget = budget, as_running = available, as_urgency = u, as_deferred = []\<rparr>)
       (\<lambda>st. Inr (as_decision st, as_budget st, as_running st, as_deferred st))"

subsection \<open>Withdrawing\<close>

fun withdraw_loop ::
  "snapshot \<Rightarrow> Bundle \<Rightarrow> int option \<Rightarrow> offer list \<Rightarrow> decision \<times> int \<Rightarrow> decision \<times> int" where
  "withdraw_loop s available ticks_left [] db = db"
| "withdraw_loop s available ticks_left (o' # os) (d, budget) =
     (if budget \<le> 0 then (d, budget)
      else let at_risk = filter (\<lambda>r. 0 < get (give o') r \<and> get available r < get (d_reserve d) r) resources;
               violates_guard = (case production_payment_limit available (me s) ticks_left of
                   None \<Rightarrow> False
                 | Some limit \<Rightarrow> is_zero (receive o') \<or> limit = 0
                     \<or> of_int (int (total (give o'))) > fmul limit (fint (int (total (receive o')))))
           in if at_risk = [] \<and> \<not> violates_guard then withdraw_loop s available ticks_left os (d, budget)
              else withdraw_loop s available ticks_left os
                (d_add (WithdrawAction (offer_id o'))
                   (''withdraw '' @ offer_id o' @ '': '' @
                      (if violates_guard then ''production supply guard''
                       else ''promises '' @ resource_name (hd at_risk) @ '' we now need'')) d,
                 budget - 1))"

definition withdraw_dangerous ::
  "decision \<Rightarrow> snapshot \<Rightarrow> Bundle \<Rightarrow> int \<Rightarrow> int option \<Rightarrow> decision \<times> int" where
  "withdraw_dangerous d s available budget ticks_left =
     withdraw_loop s available ticks_left (outgoing_open_offers s) (d, budget)"

subsection \<open>Gifts above the cap\<close>

record give_state =
  gs_decision :: decision
  gs_memory :: policy_memory
  gs_available :: Bundle
  gs_budget :: int
  gs_room :: int

fun give_loop :: "snapshot \<Rightarrow> Bundle \<Rightarrow> resource list \<Rightarrow> give_state \<Rightarrow> give_state result" where
  "give_loop s excess [] g = Inr g"
| "give_loop s excess (r # rs) g =
     (if gs_budget g \<le> 0 \<or> gs_room g \<le> 0 \<or> offer_ttl s \<le> 0 then Inr g
      else if get excess r \<le> 0 then Inr g
      else case pick_gift_recipient (counterparties (gs_memory g)) r (snap_tick s) (gs_memory g) of
          None \<Rightarrow> give_loop s excess rs g
        | Some recipient \<Rightarrow>
            let quantity = min (qty excess r) MAX_EXCESS_GIFT
            in bindE (single r quantity) (\<lambda>gift.
               give_loop s excess rs
                 (g\<lparr>gs_decision := d_add (OfferAction recipient gift zero_bundle (snap_tick s + offer_ttl s))
                       (''gift '' @ show_int quantity @ '' '' @ resource_name r @ '' to '' @ recipient
                        @ '': over '' @ show_int STOCK_CAP @ '' cap, '' @ recipient @ '' seeking ''
                        @ resource_name r) (gs_decision g),
                    gs_memory := record_gift recipient r (snap_tick s) (gs_memory g),
                    gs_available := saturating_sub (gs_available g) gift,
                    gs_budget := gs_budget g - 1,
                    gs_room := gs_room g - 1\<rparr>)))"

definition give_excess ::
  "decision \<Rightarrow> snapshot \<Rightarrow> policy_memory \<Rightarrow> Bundle \<Rightarrow> Bundle \<Rightarrow> int \<Rightarrow> give_state result" where
  "give_excess d s m available excess budget =
     (let room = max_open_outgoing_offers (snap_rules s) - open_outgoing s - planned_offers d
      in give_loop s excess (sort_key (\<lambda>r. - qty excess r) resources)
           \<lparr>gs_decision = d, gs_memory = m, gs_available = available, gs_budget = budget, gs_room = room\<rparr>)"

subsection \<open>The advertisement\<close>

definition refresh_advertisement ::
  "decision \<Rightarrow> snapshot \<Rightarrow> Bundle \<Rightarrow> Bundle \<Rightarrow> resource set \<Rightarrow> int \<Rightarrow> decision \<times> int" where
  "refresh_advertisement d s surplus deficit critical budget =
     (if budget \<le> 0 then (d, budget)
      else case decide_advertisement surplus deficit critical (own_advertisement s) (snap_tick s) (snap_rules s) of
          (None, _) \<Rightarrow> (d, budget)
        | (Some a, why) \<Rightarrow> (d_add a (''advertisement: '' @ why) d, budget - 1))"

subsection \<open>What to ask for\<close>

definition wanted_quantity ::
  "snapshot \<Rightarrow> Bundle \<Rightarrow> Bundle \<Rightarrow> Bundle \<Rightarrow> resource \<Rightarrow> int option" where
  "wanted_quantity s available reserve deficit r =
     (let spec = specialty (me s);
          spare = qty available spec - specialty_floor (me s) None;
          bulk = trade_size spare > MAX_TRADE_SIZE;
          short = qty deficit r;
          positive = (\<lambda>n. if n > 0 then Some n else None)
      in if r \<noteq> spec then
           (let hv = qty available r;
                ceiling = min (case import_ceiling r available (Some spec) of
                    None \<Rightarrow> STOCK_CAP | Some c \<Rightarrow> if c = 0 then STOCK_CAP else c) STOCK_CAP
            in if hv \<ge> STOCK_CAP \<or> hv > ceiling then positive short
               else let target = max WATCH_STOCK (qty reserve r * TARGET_BUFFER_MULTIPLE);
                        room = (if bulk then ceiling - hv else 0)
                    in positive (min (max (max short (target - hv)) (max 5 room)) (STOCK_CAP - hv)))
         else positive short)"

definition wanted_quantities ::
  "snapshot \<Rightarrow> Bundle \<Rightarrow> Bundle \<Rightarrow> Bundle \<Rightarrow> (resource, int) pydict" where
  "wanted_quantities s available reserve deficit =
     List.map_filter (\<lambda>r. map_option (Pair r) (wanted_quantity s available reserve deficit r)) resources"

subsection \<open>Proposing offers\<close>

definition offer_floor :: "snapshot \<Rightarrow> bool \<Rightarrow> rat option \<Rightarrow> int option \<Rightarrow> int" where
  "offer_floor s preserve_normal limit ticks_left =
     (if in_end_game ticks_left then specialty_floor (me s) ticks_left
      else (if limit = None \<or> preserve_normal then PRODUCTION_NORMAL_TICKS else PRODUCTION_STOP_TICKS)
           * qty (upkeep_per_tick (me s)) (specialty (me s)))"

fun find_terms ::
  "snapshot \<Rightarrow> Bundle \<Rightarrow> Bundle \<Rightarrow> bool \<Rightarrow> (resource \<Rightarrow> urgency) \<Rightarrow> int \<Rightarrow> int option \<Rightarrow>
     candidate \<Rightarrow> rat option list \<Rightarrow> (Bundle \<times> Bundle) option result" where
  "find_terms s surplus available preserve_normal u wanted_qty ticks_left c [] = Inr None"
| "find_terms s surplus available preserve_normal u wanted_qty ticks_left c (limit # ls) =
     (let spec = specialty (me s);
          flr = offer_floor s preserve_normal limit ticks_left
      in if qty available spec < flr
         then find_terms s surplus available preserve_normal u wanted_qty ticks_left c ls
         else bindE (bundle_of (\<lambda>r. if r = spec then min (qty surplus r) (qty available r - flr)
                                     else qty surplus r)) (\<lambda>payable.
           let spare = qty available spec - specialty_floor (me s) ticks_left;
               size = (if in_end_game ticks_left then MAX_BULK_TRADE_SIZE else trade_size spare);
               stock = Some (qty available (cand_want c))
           in case compute_terms (cand_want c) (desired_quantity wanted_qty stock size) (cand_give c)
                     payable (u (cand_want c)) limit stock
                     (in_end_game ticks_left \<and> cand_give c = spec) of
               Inr terms \<Rightarrow> Inr (Some terms)
             | Inl (CannotAfford _) \<Rightarrow> find_terms s surplus available preserve_normal u wanted_qty ticks_left c ls
             | Inl e \<Rightarrow> Inl e))"

record propose_state =
  ps_decision :: decision
  ps_budget :: int
  ps_room :: int
  ps_surplus :: Bundle
  ps_available :: Bundle
  ps_preserve_normal :: bool

fun propose_loop ::
  "snapshot \<Rightarrow> (resource \<Rightarrow> urgency) \<Rightarrow> (resource, int) pydict \<Rightarrow> int option \<Rightarrow> candidate list \<Rightarrow>
     propose_state \<Rightarrow> propose_state result" where
  "propose_loop s u wanted ticks_left [] p = Inr p"
| "propose_loop s u wanted ticks_left (c # cs) p =
     (if ps_budget p \<le> 0 \<or> ps_room p \<le> 0 then Inr p
      else case dict_get wanted (cand_want c) of
        None \<Rightarrow> Inl (KeyError (resource_name (cand_want c)))
      | Some wanted_qty \<Rightarrow>
        bindE (find_terms s (ps_surplus p) (ps_available p) (ps_preserve_normal p) u wanted_qty ticks_left c
                 (if in_end_game ticks_left then [None] else [None, Some (1 / 2)])) (\<lambda>terms.
        case terms of
          None \<Rightarrow> propose_loop s u wanted ticks_left cs p
        | Some (g, w) \<Rightarrow>
            if offer_ttl s \<le> 0 then Inr p
            else propose_loop s u wanted ticks_left cs
              (p\<lparr>ps_decision := d_add (OfferAction (cand_station c) g w (snap_tick s + offer_ttl s))
                    (''offer '' @ show_int (int (total g)) @ '' '' @ resource_name (cand_give c) @ '' for ''
                     @ show_int (int (total w)) @ '' '' @ resource_name (cand_want c) @ '' to ''
                     @ cand_station c) (ps_decision p),
                 ps_surplus := saturating_sub (ps_surplus p) g,
                 ps_available := saturating_sub (ps_available p) g,
                 ps_budget := ps_budget p - 1,
                 ps_room := ps_room p - 1,
                 ps_preserve_normal := ps_preserve_normal p
                   \<or> of_int (int (total g)) > fmul (1 / 2) (fint (int (total w)))\<rparr>)))"

definition pending_pairs :: "snapshot \<Rightarrow> (string \<times> resource) set" where
  "pending_pairs s = set (concat (map (\<lambda>o'. map (Pair (recipient_id o'))
      (filter (\<lambda>r. 0 < get (receive o') r) resources)) (outgoing_open_offers s)))"

definition propose_offers ::
  "decision \<Rightarrow> snapshot \<Rightarrow> policy_memory \<Rightarrow> Bundle \<Rightarrow> Bundle \<Rightarrow> Bundle \<Rightarrow> (resource \<Rightarrow> urgency) \<Rightarrow>
     int \<Rightarrow> int option \<Rightarrow> (decision \<times> int \<times> Bundle \<times> Bundle) result" where
  "propose_offers d s m available surplus deficit u budget ticks_left =
     (let room = max_open_outgoing_offers (snap_rules s) - open_outgoing s
      in if room \<le> 0 then Inr (d_explain ''outgoing offer limit reached'' d, budget, surplus, available)
         else let wanted = wanted_quantities s available (d_reserve d) deficit;
                  cands = rank_counterparties (counterparties m) u wanted surplus (snap_tick s)
                            (pending_pairs s) (Some (specialty (me s)))
         in bindE (propose_loop s u wanted ticks_left cands
              \<lparr>ps_decision = d, ps_budget = budget, ps_room = room, ps_surplus = surplus,
               ps_available = available, ps_preserve_normal = has_normal_offers s\<rparr>)
            (\<lambda>p. Inr (ps_decision p, ps_budget p, ps_surplus p, ps_available p)))"

subsection \<open>Aid\<close>

fun aid_loop ::
  "snapshot \<Rightarrow> Bundle \<Rightarrow> int option \<Rightarrow> gift_intent list \<Rightarrow> decision \<times> policy_memory \<times> int \<Rightarrow>
     (decision \<times> policy_memory \<times> int) result" where
  "aid_loop s surplus ticks_left [] st = Inr st"
| "aid_loop s surplus ticks_left (g # gs) (d, m, budget) =
     (if budget \<le> 0 then Inr (d, m, budget)
      else bindE (single (gift_resource g) (gift_quantity g)) (\<lambda>gift.
        if production_payment_limit (saturating_sub (bundle_add surplus (d_reserve d)) gift) (me s) ticks_left \<noteq> None
        then aid_loop s surplus ticks_left gs (d, m, budget)
        else if offer_ttl s \<le> 0 then Inr (d, m, budget)
        else aid_loop s surplus ticks_left gs
          (d_add (OfferAction (gift_station g) gift zero_bundle (snap_tick s + offer_ttl s))
             (''gift '' @ show_int (gift_quantity g) @ '' '' @ resource_name (gift_resource g) @ '' to ''
              @ gift_station g @ '': sustained unmet need'') d,
           record_gift (gift_station g) (gift_resource g) (snap_tick s) m, budget - 1)))"

definition offer_aid ::
  "decision \<Rightarrow> snapshot \<Rightarrow> policy_memory \<Rightarrow> Bundle \<Rightarrow> (resource \<Rightarrow> urgency) \<Rightarrow> int \<Rightarrow> int option \<Rightarrow>
     (decision \<times> policy_memory) result" where
  "offer_aid d s m surplus u budget ticks_left =
     (if production_payment_limit (bundle_add surplus (d_reserve d)) (me s) ticks_left \<noteq> None then Inr (d, m)
      else if budget \<le> 0 \<or> open_outgoing s + planned_offers d \<ge> max_open_outgoing_offers (snap_rules s)
      then Inr (d, m)
      else bindE (scan_for_distress (counterparties m) surplus u (snap_tick s) m) (\<lambda>gs.
           bindE (aid_loop s surplus ticks_left gs (d, m, budget)) (\<lambda>(d, m, b). Inr (d, m))))"

subsection \<open>The decision\<close>

definition gate :: "snapshot \<Rightarrow> policy_memory \<Rightarrow> string option" where
  "gate s m =
     (if snap_phase s \<noteq> RUNNING then Some (''phase is '' @ phase_name (snap_phase s) @ ''; no trading actions'')
      else if failed_once (me s) then Some ''station has failed permanently; trading is disabled''
      else if snap_tick s < blocked_until_tick m
      then Some (''rate limited until tick '' @ show_int (blocked_until_tick m))
      else if snap_tick s \<ge> duration_ticks (snap_rules s) then Some ''run duration reached; no trading actions''
      else None)"

definition command_budget_of :: "snapshot \<Rightarrow> int option \<Rightarrow> int" where
  "command_budget_of s command_budget =
     (let budget = new_commands_per_station_per_tick (snap_rules s)
      in case command_budget of None \<Rightarrow> budget | Some n \<Rightarrow> min budget (max 0 n))"

definition advertise_step ::
  "decision \<Rightarrow> snapshot \<Rightarrow> Bundle \<Rightarrow> Bundle \<Rightarrow> Bundle \<Rightarrow> (resource, int) pydict \<Rightarrow> resource set \<Rightarrow> int \<Rightarrow>
     int option \<Rightarrow> (decision \<times> int) result" where
  "advertise_step d s available surplus excess wanted critical budget ticks_left =
     bindE (bundle_of (\<lambda>r. if get excess r = 0 then dict_get_or 0 wanted r else 0)) (\<lambda>need.
     bindE (bundle_of (\<lambda>r. if dict_get wanted r = None \<or> get excess r > 0 then qty surplus r else 0)) (\<lambda>sell.
     let sell = (if production_payment_limit available (me s) ticks_left = Some 0 then zero_bundle else sell)
     in if comfortably_supplied available then
          (case own_advertisement s of
             None \<Rightarrow> Inr (d, budget)
           | Some ad \<Rightarrow> if budget > 0
               then Inr (d_add (WithdrawAction (advertisement_id ad))
                           ''withdraw advertisement: all resources above 30'' d, budget - 1)
               else Inr (d, budget))
        else Inr (refresh_advertisement d s sell need critical budget)))"

text \<open>Lines 130 to 184: the station may trade.\<close>

definition trade ::
  "snapshot \<Rightarrow> policy_memory \<Rightarrow> Bundle \<Rightarrow> Bundle \<Rightarrow> decision \<Rightarrow> int option \<Rightarrow> (decision \<times> policy_memory) result" where
  "trade s m available reserve d command_budget =
     (let u = urgency_at s available reserve;
          budget = command_budget_of s command_budget;
          ticks_left = Some (duration_ticks (snap_rules s) - snap_tick s);
          hold_for = scarce_import_to_chase s available u ticks_left
      in bindE (accept_incoming d s (incoming_open_offers s) available reserve u budget ticks_left hold_for)
           (\<lambda>(d, budget, available, deferred).
      let deficit = deficit_below_reserve available reserve;
          u = urgency_at s available reserve;
          critical = critical_of u;
          (d, budget) = withdraw_dangerous d s available budget ticks_left
      in bindE (excess_over_cap available) (\<lambda>excess.
         bindE (give_excess d s m available excess budget) (\<lambda>g.
      let available = gs_available g;
          m = gs_memory g;
          surplus = surplus_above_reserve available reserve;
          wanted = wanted_quantities s available reserve deficit
      in bindE (advertise_step (gs_decision g) s available surplus excess wanted critical (gs_budget g) ticks_left)
           (\<lambda>(d, budget).
         bindE (propose_offers d s m available surplus deficit u budget ticks_left)
           (\<lambda>(d, budget, surplus, available).
      if deferred \<noteq> [] \<and> budget > 0 then
        (let u = urgency_at s available reserve
         in bindE (accept_incoming d s deferred available reserve u budget ticks_left None)
              (\<lambda>(d, budget, available, _).
            offer_aid d s m (surplus_above_reserve available reserve) u budget ticks_left))
      else offer_aid d s m surplus u budget ticks_left))))))"

text \<open>\<open>commitments or CommitmentTracker()\<close>.\<close>

definition tracker_of :: "commitment_tracker option \<Rightarrow> commitment_tracker" where
  "tracker_of t = (case t of None \<Rightarrow> tracker_init | Some t \<Rightarrow> t)"

definition decide ::
  "snapshot \<Rightarrow> policy_memory \<Rightarrow> commitment_tracker option \<Rightarrow> int option \<Rightarrow> (decision \<times> policy_memory) result" where
  "decide s m0 commitments command_budget =
     (let m = observe s m0;
          available = available_to_commit (tracker_of commitments) s
      in bindE (compute_reserve (snap_rules s) (me s) m (Some available)) (\<lambda>(reserve, m).
      let u = urgency_at s available reserve;
          d = \<lparr>d_actions = [], d_reasons = [], d_reserve = reserve, d_available = available,
               d_surplus = surplus_above_reserve available reserve,
               d_deficit = deficit_below_reserve available reserve, d_urgency = Some u\<rparr>
      in case gate s m of
           Some why \<Rightarrow> Inr (d_explain why d, m)
         | None \<Rightarrow> trade s m available reserve d command_budget))"

end
