(* ===== verification/Evidence.thy ===== *)
theory Evidence
  imports Decide Actions
begin

text \<open>
  \<open>bazaar_client/execution/evidence.py\<close>: the log of one process. A command's record is a mutable
  object that the log keeps from \<open>start\<close> on, so it is addressed by its position in \<open>ev_records\<close>; a
  line is written when a record is complete, a decision made or an event noted. JSON printing and
  the file are left out: \<open>ev_lines\<close> holds what the lines say, \<open>now\<close> is the text of the clock.
\<close>

record evidence_record =
  er_step :: string
  er_action_kind :: string
  er_action :: "(string \<times> json_value) list"
  er_timestamp :: string
  er_decision_id :: "string option"
  er_request_id :: "string option"
  er_observed_tick :: "int option"
  er_observed_world_version :: "int option"
  er_observed_snapshot_sequence :: "int option"
  er_result_ok :: "bool option"
  er_result_code :: "string option"
  er_object_id :: "string option"
  er_transaction_id :: "string option"
  er_processed_tick :: "int option"
  er_deadline_missed :: "bool option"
  er_response_ms :: "rat option"
  er_confirm_ms :: "rat option"
  er_confirmed_world_version :: "int option"
  er_confirmed_snapshot_sequence :: "int option"
  er_inventory_after :: "(string \<times> int) list option"
  er_notes :: "string list"

subsection \<open>Offers and trades from our side\<close>

record offer_sight =
  ov_offer_id :: string
  ov_direction :: string
  ov_counterparty :: string
  ov_we_pay :: "(string \<times> int) list"
  ov_we_get :: "(string \<times> int) list"
  ov_expires_tick :: int

definition offer_view :: "offer \<Rightarrow> string \<Rightarrow> offer_sight result" where
  "offer_view o' self =
     (let outgoing = proposer_id o' = self
      in bindE (what_station_pays o' self) (\<lambda>pay.
         bindE (what_station_receives o' self) (\<lambda>gain.
         Inr \<lparr>ov_offer_id = offer_id o',
              ov_direction = (if outgoing then ''outgoing'' else ''incoming''),
              ov_counterparty = (if outgoing then recipient_id o' else proposer_id o'),
              ov_we_pay = as_dict pay, ov_we_get = as_dict gain, ov_expires_tick = expires_tick o'\<rparr>)))"

record trade_sight =
  tv_transaction_id :: string
  tv_offer_id :: string
  tv_counterparty :: string
  tv_we_paid :: "(string \<times> int) list"
  tv_we_got :: "(string \<times> int) list"
  tv_settled_tick :: int

definition trade_view :: "transaction \<Rightarrow> string \<Rightarrow> trade_sight" where
  "trade_view t self =
     (let outgoing = txn_proposer_id t = self
      in \<lparr>tv_transaction_id = transaction_id t, tv_offer_id = txn_offer_id t,
          tv_counterparty = (if outgoing then txn_recipient_id t else txn_proposer_id t),
          tv_we_paid = as_dict (if outgoing then txn_give t else txn_receive t),
          tv_we_got = as_dict (if outgoing then txn_receive t else txn_give t),
          tv_settled_tick = settled_tick t\<rparr>)"

subsection \<open>The log\<close>

record decision_context =
  dx_session :: int
  dx_strategy :: string
  dx_command_budget :: int
  dx_queue_ms :: "rat option"
  dx_decide_ms :: rat
  dx_states_during_decision :: int
  dx_wait_reason :: "string option"
  dx_ticks_skipped :: "int option"

record decision_entry =
  de_timestamp :: string
  de_decision_id :: string
  de_run_id :: string
  de_tick :: int
  de_snapshot_sequence :: int
  de_phase :: string
  de_health :: int
  de_inventory :: "(string \<times> int) list"
  de_available :: "(string \<times> int) list"
  de_reserve :: "(string \<times> int) list"
  de_surplus :: "(string \<times> int) list"
  de_open_outgoing_offers :: nat
  de_open_offers :: "offer_sight list"
  de_new_transactions :: "trade_sight list"
  de_verdict :: string
  de_actions :: "(string \<times> (string \<times> json_value) list) list"
  de_reasons :: "string list"
  de_passed_offers :: "(string, string) pydict"
  de_context :: decision_context

datatype log_line =
    CommandLine evidence_record
  | DecisionLine decision_entry
  | StatusLine string "string option" string
  | ConnectionLine string "string option" "string option"
  | RunStartLine
  | RunEndLine

record evidence_log =
  ev_records :: "evidence_record list"
  ev_decisions :: "decision_entry list"
  ev_decision_count :: int
  ev_seen_transactions :: "string set"
  ev_lines :: "log_line list"

definition evidence_init :: evidence_log where
  "evidence_init = \<lparr>ev_records = [], ev_decisions = [], ev_decision_count = 0,
     ev_seen_transactions = {}, ev_lines = []\<rparr>"

definition write_line :: "log_line \<Rightarrow> evidence_log \<Rightarrow> evidence_log" where
  "write_line l ev = ev\<lparr>ev_lines := ev_lines ev @ [l]\<rparr>"

definition run_start :: "evidence_log \<Rightarrow> evidence_log" where
  "run_start ev = write_line RunStartLine ev"

definition run_end :: "evidence_log \<Rightarrow> evidence_log" where
  "run_end ev = write_line RunEndLine ev"

definition status_event :: "string \<Rightarrow> string option \<Rightarrow> string \<Rightarrow> evidence_log \<Rightarrow> evidence_log" where
  "status_event status previous detail ev = write_line (StatusLine status previous detail) ev"

definition connection_event :: "string \<Rightarrow> string option \<Rightarrow> string option \<Rightarrow> evidence_log \<Rightarrow> evidence_log" where
  "connection_event event detail category ev = write_line (ConnectionLine event detail category) ev"

definition new_trades :: "snapshot \<Rightarrow> evidence_log \<Rightarrow> trade_sight list" where
  "new_trades s ev = map (\<lambda>t. trade_view t (self_station_id s))
     (filter (\<lambda>t. transaction_id t \<notin> ev_seen_transactions ev) (transactions s))"

definition evidence_decision ::
  "string \<Rightarrow> snapshot \<Rightarrow> decision \<Rightarrow> decision_context \<Rightarrow> (string, string) pydict \<Rightarrow> evidence_log \<Rightarrow>
     (string \<times> evidence_log) result" where
  "evidence_decision now s d ctx passes ev =
     (let n = ev_decision_count ev + 1;
          did = ''d'' @ show_int n;
          self = self_station_id s;
          trades = new_trades s ev
      in bindE (mapE (\<lambda>o'. offer_view o' self) (outgoing_open_offers s @ incoming_open_offers s)) (\<lambda>views.
         let entry = \<lparr>de_timestamp = now, de_decision_id = did, de_run_id = run_id s, de_tick = snap_tick s,
               de_snapshot_sequence = snapshot_sequence s, de_phase = phase_name (snap_phase s),
               de_health = health (me s), de_inventory = as_dict (inventory (me s)),
               de_available = as_dict (d_available d), de_reserve = as_dict (d_reserve d),
               de_surplus = as_dict (d_surplus d),
               de_open_outgoing_offers = length (outgoing_open_offers s), de_open_offers = views,
               de_new_transactions = trades,
               de_verdict = (if d_actions d \<noteq> [] then ''act'' else ''wait''),
               de_actions = map (\<lambda>a. (kind a, describe a)) (d_actions d), de_reasons = d_reasons d,
               de_passed_offers = passes, de_context = ctx\<rparr>
         in Inr (did, write_line (DecisionLine entry)
              (ev\<lparr>ev_decision_count := n,
                  ev_seen_transactions := ev_seen_transactions ev \<union> tv_transaction_id ` set trades,
                  ev_decisions := ev_decisions ev @ [entry]\<rparr>))))"

definition evidence_start ::
  "string \<Rightarrow> string \<Rightarrow> action \<Rightarrow> snapshot option \<Rightarrow> string option \<Rightarrow> evidence_log \<Rightarrow> nat \<times> evidence_log" where
  "evidence_start now step a observed did ev =
     (length (ev_records ev), ev\<lparr>ev_records := ev_records ev @
        [\<lparr>er_step = step, er_action_kind = kind a, er_action = describe a, er_timestamp = now,
          er_decision_id = did, er_request_id = None,
          er_observed_tick = map_option snap_tick observed,
          er_observed_world_version = map_option world_version observed,
          er_observed_snapshot_sequence = map_option snapshot_sequence observed,
          er_result_ok = None, er_result_code = None, er_object_id = None, er_transaction_id = None,
          er_processed_tick = None, er_deadline_missed = None, er_response_ms = None, er_confirm_ms = None,
          er_confirmed_world_version = None, er_confirmed_snapshot_sequence = None,
          er_inventory_after = None, er_notes = []\<rparr>]\<rparr>)"

text \<open>Assigning to fields of the record at a position.\<close>

definition change_record :: "(evidence_record \<Rightarrow> evidence_record) \<Rightarrow> nat \<Rightarrow> evidence_log \<Rightarrow> evidence_log" where
  "change_record f h ev = ev\<lparr>ev_records := (ev_records ev)[h := f (ev_records ev ! h)]\<rparr>"

definition evidence_note :: "nat \<Rightarrow> string \<Rightarrow> evidence_log \<Rightarrow> evidence_log" where
  "evidence_note h message ev = change_record (\<lambda>r. r\<lparr>er_notes := er_notes r @ [message]\<rparr>) h ev"

definition evidence_complete :: "nat \<Rightarrow> snapshot option \<Rightarrow> evidence_log \<Rightarrow> evidence_log" where
  "evidence_complete h confirmed ev =
     (let ev = (case confirmed of
          None \<Rightarrow> ev
        | Some s \<Rightarrow> change_record (\<lambda>r. r\<lparr>er_confirmed_world_version := Some (world_version s),
            er_confirmed_snapshot_sequence := Some (snapshot_sequence s),
            er_inventory_after := Some (as_dict (inventory (me s)))\<rparr>) h ev)
      in write_line (CommandLine (ev_records ev ! h)) ev)"

subsection \<open>The file\<close>

text \<open>
  A directory is a dictionary from file names to contents; \<open>stamp\<close> is the text of the time the log
  was last written. The search for a free name may run for ever as far as its definition goes.
\<close>

definition rotated_name :: "string \<Rightarrow> string \<Rightarrow> string \<Rightarrow> int \<Rightarrow> string" where
  "rotated_name stem suffix stamp counter = stem @ ''.'' @ stamp @ ''-'' @ show_int counter @ suffix"

partial_function (option) free_name :: "string set \<Rightarrow> string \<Rightarrow> string \<Rightarrow> string \<Rightarrow> int \<Rightarrow> string option" where
  "free_name taken stem suffix stamp counter =
     (let target = rotated_name stem suffix stamp counter
      in if target \<in> taken then free_name taken stem suffix stamp (counter + 1) else Some target)"

definition rotate_log :: "string \<Rightarrow> string \<Rightarrow> string \<Rightarrow> (string, string) pydict \<Rightarrow>
    (string option \<times> (string, string) pydict) option" where
  "rotate_log stem suffix stamp dir = (case dict_get dir (stem @ suffix) of
     None \<Rightarrow> Some (None, dir)
   | Some content \<Rightarrow>
       if content = [] then Some (None, dir)
       else let plain = stem @ ''.'' @ stamp @ suffix
            in case (if plain \<in> set (dict_keys dir) then free_name (set (dict_keys dir)) stem suffix stamp 1
                     else Some plain) of
                 None \<Rightarrow> None
               | Some target \<Rightarrow> Some (Some target, dict_set target content (dict_pop (stem @ suffix) dir)))"

text \<open>\<open>EvidenceLog(path)\<close>: the old log is moved aside and an empty one started.\<close>

definition open_log :: "string \<Rightarrow> string \<Rightarrow> string \<Rightarrow> (string, string) pydict \<Rightarrow>
    (string option \<times> (string, string) pydict) option" where
  "open_log stem suffix stamp dir =
     map_option (\<lambda>(moved, dir). (moved, dict_set (stem @ suffix) [] dir)) (rotate_log stem suffix stamp dir)"

subsection \<open>Facts\<close>

text \<open>The search ends, because only finitely many names are taken.\<close>

lemma free_name_found:
  assumes "rotated_name stem suffix stamp (c + int n) \<notin> taken"
  shows "\<exists>t. free_name taken stem suffix stamp c = Some t \<and> t \<notin> taken"
  using assms
proof (induction n arbitrary: c)
  case 0
  then show ?case by (subst free_name.simps) simp
next
  case (Suc n)
  then have "rotated_name stem suffix stamp (c + 1 + int n) \<notin> taken" by (simp add: ac_simps)
  with Suc.IH [of "c + 1"] show ?case by (subst free_name.simps) (simp add: Let_def)
qed

lemma some_name_free:
  assumes "finite taken"
  shows "\<exists>n. rotated_name stem suffix stamp (1 + int n) \<notin> taken"
proof -
  have "inj (\<lambda>n. rotated_name stem suffix stamp (1 + int n))"
    by (rule injI) (simp add: rotated_name_def show_int_def digits_of_inj)
  then have "infinite (range (\<lambda>n. rotated_name stem suffix stamp (1 + int n)))" by (simp add: finite_image_iff)
  with assms show ?thesis by (meson finite_subset image_subsetI)
qed

lemma rotate_log_moves:
  assumes "dict_get dir (stem @ suffix) = Some content" and "content \<noteq> []"
  shows "\<exists>t. rotate_log stem suffix stamp dir = Some (Some t, dict_set t content (dict_pop (stem @ suffix) dir))
     \<and> dict_get dir t = None"
proof -
  obtain t where "free_name (set (dict_keys dir)) stem suffix stamp 1 = Some t" "t \<notin> set (dict_keys dir)"
    using some_name_free [of "set (dict_keys dir)"] free_name_found by blast
  with assms show ?thesis by (auto simp: rotate_log_def Let_def map_of_eq_None_iff)
qed


text \<open>A decision is always recorded: the open offers shown are offers we are a party of.\<close>

lemma offer_view_party:
  "self \<in> {proposer_id o', recipient_id o'} \<Longrightarrow> \<exists>v. offer_view o' self = Inr v"
  by (auto simp: offer_view_def what_station_pays_def what_station_receives_def Let_def)

lemma evidence_decision_total: "\<exists>did ev'. evidence_decision now s d ctx passes ev = Inr (did, ev')"
proof -
  have "\<exists>v. offer_view o' (self_station_id s) = Inr v"
    if "o' \<in> set (outgoing_open_offers s @ incoming_open_offers s)" for o'
    using that by (intro offer_view_party) (auto simp: outgoing_open_offers_def incoming_open_offers_def)
  then have "\<exists>vs. mapE (\<lambda>o'. offer_view o' (self_station_id s)) (outgoing_open_offers s @ incoming_open_offers s) = Inr vs"
    by (rule mapE_total)
  then show ?thesis by (auto simp: evidence_decision_def Let_def)
qed

text \<open>The ids of successive decisions are numbered and a transaction is listed by one decision only.\<close>

lemma trade_view_id [simp]: "tv_transaction_id (trade_view t self) = transaction_id t"
  by (simp add: trade_view_def Let_def)

definition logged_trades :: "evidence_log \<Rightarrow> string list" where
  "logged_trades ev = map tv_transaction_id (concat (map de_new_transactions (ev_decisions ev)))"

definition evidence_ok :: "evidence_log \<Rightarrow> bool" where
  "evidence_ok ev \<longleftrightarrow> ev_decision_count ev = int (length (ev_decisions ev))
     \<and> set (logged_trades ev) \<subseteq> ev_seen_transactions ev \<and> distinct (logged_trades ev)"

lemma evidence_ok_init [wf_intros]: "evidence_ok evidence_init"
  by (simp add: evidence_ok_def evidence_init_def logged_trades_def)

lemma evidence_ok_decision [wf_intros]:
  assumes "evidence_ok ev" and "distinct (map transaction_id (transactions s))"
    and "evidence_decision now s d ctx passes ev = Inr (did, ev')"
  shows "evidence_ok ev'" and "did = ''d'' @ show_int (ev_decision_count ev + 1)"
proof -
  let ?new = "map tv_transaction_id (new_trades s ev)"
  have new: "?new = map transaction_id (filter (\<lambda>t. transaction_id t \<notin> ev_seen_transactions ev) (transactions s))"
    by (simp add: new_trades_def comp_def)
  have "distinct ?new" unfolding new using assms(2) by (rule distinct_map_filter)
  moreover have "set ?new \<inter> ev_seen_transactions ev = {}" unfolding new by auto
  moreover obtain e where "ev_decisions ev' = ev_decisions ev @ [e]" "de_new_transactions e = new_trades s ev"
      "ev_decision_count ev' = ev_decision_count ev + 1"
      "ev_seen_transactions ev' = ev_seen_transactions ev \<union> set ?new" "did = ''d'' @ show_int (ev_decision_count ev + 1)"
    using assms(3) by (auto simp: evidence_decision_def Let_def write_line_def elim!: bindE_InrE)
  moreover from calculation have "logged_trades ev' = logged_trades ev @ ?new" by (simp add: logged_trades_def)
  ultimately show "evidence_ok ev'" and "did = ''d'' @ show_int (ev_decision_count ev + 1)"
    using assms(1) by (auto simp: evidence_ok_def)
qed

lemma change_record_frame [simp]:
  "length (ev_records (change_record f h ev)) = length (ev_records ev)"
  "ev_lines (change_record f h ev) = ev_lines ev"
  "h < length (ev_records ev) \<Longrightarrow> ev_records (change_record f h ev) ! h = f (ev_records ev ! h)"
  by (simp_all add: change_record_def)

text \<open>Opening the evidence log always returns and loses nothing: a previous log that is not empty
  is found unchanged under a name no file had before, every other file keeps its content, and the
  log itself starts empty.\<close>

theorem previous_log_survives:
  assumes "dict_get dir (stem @ suffix) = Some content" and "content \<noteq> []"
  shows "\<exists>t dir'. open_log stem suffix stamp dir = Some (Some t, dir') \<and> dict_get dir t = None
     \<and> dict_get dir' t = Some content \<and> dict_get dir' (stem @ suffix) = Some []
     \<and> (\<forall>f. f \<noteq> stem @ suffix \<longrightarrow> f \<noteq> t \<longrightarrow> dict_get dir' f = dict_get dir f)"
proof -
  obtain t where "rotate_log stem suffix stamp dir = Some (Some t, dict_set t content (dict_pop (stem @ suffix) dir))"
      "dict_get dir t = None"
    using rotate_log_moves [OF assms] by blast
  with assms(1) show ?thesis by (auto simp: open_log_def dict_get_set dict_get_pop)
qed

lemma show_one: "show_int 1 = ''1''"
  by code_simp

lemma third_name: "free_name {''evidence.jsonl'', ''evidence.T.jsonl''} ''evidence'' ''.jsonl'' ''T'' 1 = Some ''evidence.T-1.jsonl''"
  by (subst free_name.simps) (simp add: rotated_name_def show_one)

theorem previous_log_survives_witness:
  "\<exists>t dir'. open_log ''evidence'' ''.jsonl'' ''T'' [(''evidence.jsonl'', ''old''), (''evidence.T.jsonl'', ''older'')]
      = Some (Some t, dir') \<and> dict_get dir' t = Some ''old'' \<and> dict_get dir' ''evidence.T.jsonl'' = Some ''older''
      \<and> t = ''evidence.T-1.jsonl''"
  using previous_log_survives [of "[(''evidence.jsonl'', ''old''), (''evidence.T.jsonl'', ''older'')]" "''evidence''"
      "''.jsonl''" "''old''" "''T''"]
  by (simp add: open_log_def rotate_log_def third_name)

end
