(* ===== verification/Monitor.thy ===== *)
theory Monitor
  imports Demo Floats "HOL-Library.List_Lexorder" "HOL-Library.Char_ord"
begin

text \<open>
  \<open>bazaar_client/metrics.py\<close> and \<open>bazaar_client/status.py\<close>: how long the client takes, and where it
  is between starting and finishing. Times are floats in the sense of \<open>Floats\<close>; a reading \<open>now\<close> of
  the clock is an argument, and \<open>on_change\<close> is the change an operation returns.
\<close>

subsection \<open>Numbers as text and to three decimals\<close>

text \<open>\<open>round(x, 3)\<close>: the float nearest to the decimal nearest to \<open>x\<close>.\<close>

definition round3 :: "rat \<Rightarrow> rat" where
  "round3 x = fl (of_int (round_half_even (x * 1000)) / 1000)"

definition show_fixed1 :: "rat \<Rightarrow> string" where
  "show_fixed1 x = (let n = \<bar>round_half_even (x * 10)\<bar>
     in (if x < 0 then ''-'' else '''') @ show_int (n div 10) @ ''.'' @ show_int (n mod 10))"

definition ljust :: "nat \<Rightarrow> string \<Rightarrow> string" where
  "ljust n s = s @ replicate (n - length s) (CHR '' '')"

lemma round3_mono:
  assumes "0 \<le> x" and "x \<le> y"
  shows "round3 x \<le> round3 y"
proof -
  have "round_half_even 0 \<le> round_half_even (x * 1000)" using assms by (intro round_half_even_mono) simp
  moreover have "round_half_even (x * 1000) \<le> round_half_even (y * 1000)"
    using assms by (intro round_half_even_mono) simp
  ultimately show ?thesis using round_half_even_of_int [of 0]
    by (auto simp: round3_def intro!: fl_mono divide_right_mono)
qed

subsection \<open>Latency\<close>

definition SERIES :: "string list" where
  "SERIES = [''queue'', ''decide'', ''response'', ''confirm'']"

record series_summary =
  sm_count :: nat
  sm_p50 :: rat
  sm_p95 :: rat
  sm_max :: rat
  sm_mean :: rat

definition percentile :: "rat list \<Rightarrow> rat \<Rightarrow> rat result" where
  "percentile sorted_values fraction =
     (if sorted_values = [] then Inl (ValueError ''no samples'')
      else let rank = max 1 \<lceil>fmul fraction (fint (int (length sorted_values)))\<rceil>
           in if rank - 1 < int (length sorted_values) then Inr (sorted_values ! nat (rank - 1)) else Inl IndexError)"

definition summarize :: "rat list \<Rightarrow> series_summary option result" where
  "summarize samples =
     (if samples = [] then Inr None
      else let ordered = sort samples
           in bindE (percentile ordered (fl (1 / 2))) (\<lambda>a.
              bindE (percentile ordered (fl (19 / 20))) (\<lambda>b.
              Inr (Some \<lparr>sm_count = length ordered, sm_p50 = round3 a, sm_p95 = round3 b,
                         sm_max = round3 (last ordered),
                         sm_mean = round3 (fdiv (py_fsum ordered) (fint (int (length ordered))))\<rparr>))))"

record latency_recorder =
  lr_samples :: "(string, rat list) pydict"
  lr_deadline_checks :: int
  lr_missed_deadlines :: int

definition latency_init :: latency_recorder where
  "latency_init = \<lparr>lr_samples = [], lr_deadline_checks = 0, lr_missed_deadlines = 0\<rparr>"

definition latency_record :: "string \<Rightarrow> rat \<Rightarrow> latency_recorder \<Rightarrow> latency_recorder" where
  "latency_record series ms lr =
     lr\<lparr>lr_samples := dict_set series (dict_get_or [] (lr_samples lr) series @ [ms]) (lr_samples lr)\<rparr>"

definition note_deadline :: "bool \<Rightarrow> latency_recorder \<Rightarrow> latency_recorder" where
  "note_deadline missed lr =
     (let lr = lr\<lparr>lr_deadline_checks := lr_deadline_checks lr + 1\<rparr>
      in if missed then lr\<lparr>lr_missed_deadlines := lr_missed_deadlines lr + 1\<rparr> else lr)"

definition latency_summary :: "latency_recorder \<Rightarrow> (string, series_summary) pydict result" where
  "latency_summary lr =
     foldE (\<lambda>series out. bindE (summarize (dict_get_or [] (lr_samples lr) series)) (\<lambda>stats.
       Inr (case stats of None \<Rightarrow> out | Some x \<Rightarrow> dict_set series x out)))
     (SERIES @ sort (filter (\<lambda>k. k \<notin> set SERIES) (remdups (dict_keys (lr_samples lr))))) []"

definition report_lines :: "latency_recorder \<Rightarrow> string list result" where
  "report_lines lr = bindE (latency_summary lr) (\<lambda>stats.
     Inr (map (\<lambda>(name, x). ljust 8 name @ '' n='' @ ljust 4 (show_int (int (sm_count x)))
                @ '' p50='' @ show_fixed1 (sm_p50 x) @ ''ms p95='' @ show_fixed1 (sm_p95 x)
                @ ''ms max='' @ show_fixed1 (sm_max x) @ ''ms'') stats
          @ (if lr_deadline_checks lr \<noteq> 0
             then [''deadlines missed '' @ show_int (lr_missed_deadlines lr) @ '' of ''
                   @ show_int (lr_deadline_checks lr)
                   @ '' commands (processed in a later tick than decided)''] else [])))"

subsection \<open>Status\<close>

datatype client_status =
    STARTING | CONNECTING | CONNECTED | AUTHENTICATED | SYNCHRONIZED | WAITING
  | PARTICIPATING | STALE | ST_FINISHED | ST_DISCONNECTED

fun status_value :: "client_status \<Rightarrow> string" where
  "status_value STARTING = ''starting''"
| "status_value CONNECTING = ''connecting''"
| "status_value CONNECTED = ''connected''"
| "status_value AUTHENTICATED = ''authenticated''"
| "status_value SYNCHRONIZED = ''synchronized''"
| "status_value WAITING = ''waiting''"
| "status_value PARTICIPATING = ''participating''"
| "status_value STALE = ''stale''"
| "status_value ST_FINISHED = ''finished''"
| "status_value ST_DISCONNECTED = ''disconnected''"

definition stale_after_s :: "rules option \<Rightarrow> rat" where
  "stale_after_s rs = (case rs of None \<Rightarrow> 15
     | Some r \<Rightarrow> if tick_duration_ms r \<le> 0 then 15
                 else max 2 (fdiv (of_int (3 * tick_duration_ms r)) 1000))"

record status_tracker =
  st_status :: client_status
  st_since :: rat
  st_time_in :: "(client_status, rat) pydict"
  st_last_state_at :: "rat option"
  st_phase :: "phase option"
  st_rules :: "rules option"

type_synonym status_change = "(client_status \<times> client_status \<times> string) option"

definition status_init :: "rat \<Rightarrow> status_tracker" where
  "status_init now = \<lparr>st_status = STARTING, st_since = now, st_time_in = [], st_last_state_at = None,
     st_phase = None, st_rules = None\<rparr>"

definition poll_interval_s :: "status_tracker \<Rightarrow> rat" where
  "poll_interval_s st = max (1 / 2) (fdiv (stale_after_s (st_rules st)) 2)"

definition status_set :: "rat \<Rightarrow> client_status \<Rightarrow> string \<Rightarrow> status_tracker \<Rightarrow> status_tracker \<times> status_change" where
  "status_set now status detail st =
     (if status = st_status st then (st, None)
      else (st\<lparr>st_time_in := dict_set (st_status st)
                (fsub (fadd (dict_get_or 0 (st_time_in st) (st_status st)) now) (st_since st)) (st_time_in st),
               st_status := status, st_since := now\<rparr>,
            Some (st_status st, status, detail)))"

text \<open>The clock is read twice, for the state and for the transition.\<close>

definition on_state :: "rat \<Rightarrow> rat \<Rightarrow> phase \<Rightarrow> rules \<Rightarrow> int \<Rightarrow> status_tracker \<Rightarrow> status_tracker \<times> status_change" where
  "on_state now later ph rs tick st =
     (let st = st\<lparr>st_last_state_at := Some now, st_phase := Some ph, st_rules := Some rs\<rparr>
      in if ph = RUNNING then status_set later PARTICIPATING (''tick '' @ show_int tick) st
         else if ph = FINISHED \<or> ph = ABORTED then status_set later ST_FINISHED (phase_name ph) st
         else status_set later WAITING
           (''phase '' @ phase_name ph @ ''; the run has not started or is paused'') st)"

definition check_stale :: "rat \<Rightarrow> rat \<Rightarrow> status_tracker \<Rightarrow> bool \<times> status_tracker \<times> status_change" where
  "check_stale now later st =
     (case st_last_state_at st of
        None \<Rightarrow> (False, st, None)
      | Some t \<Rightarrow>
          if st_phase st \<noteq> Some RUNNING then (False, st, None)
          else let silent = fsub now t
               in if silent < stale_after_s (st_rules st) then (False, st, None)
                  else (True, status_set later STALE
                         (''no new state for '' @ show_fixed1 silent @ ''s while RUNNING'') st))"

definition durations :: "rat \<Rightarrow> status_tracker \<Rightarrow> (string, rat) pydict" where
  "durations now st =
     map (\<lambda>(status, seconds). (status_value status, round3 seconds))
       (dict_set (st_status st)
          (fsub (fadd (dict_get_or 0 (st_time_in st) (st_status st)) now) (st_since st)) (st_time_in st))"

subsection \<open>Percentiles are observed and ordered\<close>

text \<open>A rounded number is its own float, and so is half of it.\<close>

lemma float_shape:
  assumes "0 < x"
  shows "\<exists>m k. fl x = of_int m * 2 powi k \<and> 0 < m \<and> m < 2 ^ 53"
proof -
  let ?m = "round_half_even (x * 2 powi (52 - binexp x))"
  have e: "fl x = of_int ?m * 2 powi (binexp x - 52)" by (rule fl_pos_eq [OF assms])
  note m = significand_bounds [OF assms]
  show ?thesis
  proof (cases "?m = 2 ^ 53")
    case True
    have "fl x = of_int 1 * 2 powi (53 + (binexp x - 52))" unfolding e True powi_plus by simp
    then show ?thesis by (intro exI [of _ 1] exI [of _ "53 + (binexp x - 52)"]) simp
  next
    case False
    with m e show ?thesis by (intro exI [of _ ?m] exI [of _ "binexp x - 52"]) auto
  qed
qed

lemma fl_fl: "0 \<le> x \<Longrightarrow> fl (fl x) = fl x"
  by (cases "x = 0") (use float_shape [of x] fl_exact in auto)

lemma fl_half: "0 \<le> x \<Longrightarrow> fl (fl x / 2) = fl x / 2"
proof (cases "x = 0")
  case False
  assume "0 \<le> x"
  with False obtain m k where "fl x = of_int m * 2 powi k" "0 < m" "m < 2 ^ 53"
    using float_shape [of x] by auto
  then show ?thesis by (intro fl_exact [of _ m "k - 1"]) (simp_all add: power_int_diff)
qed simp

lemma percentile_rank:
  assumes xs: "xs \<noteq> []" "length xs < 2 ^ 53" and f: "0 \<le> f" "f \<le> 1"
  shows "\<exists>i < length xs. percentile xs f = Inr (xs ! i) \<and> int i = max 1 \<lceil>fl (f * of_nat (length xs))\<rceil> - 1"
proof -
  let ?n = "int (length xs)"
  let ?r = "max 1 \<lceil>fl (f * of_int ?n)\<rceil>"
  have n: "fint ?n = of_int ?n" using xs(2) by (intro fint_exact) auto
  have "fl (f * of_int ?n) \<le> of_int ?n"
    using f xs(2) by (intro fl_le_int) (auto intro: mult_left_le_one_le)
  then have "?r \<le> ?n" using xs(1) by (simp add: ceiling_le_iff Suc_le_eq)
  then have "nat (?r - 1) < length xs" "?r - 1 < ?n" by auto
  with xs(1) n show ?thesis by (intro exI [of _ "nat (?r - 1)"]) (simp add: percentile_def fmul_def)
qed

lemma fl_half_literal [simp]: "fl (1 / 2) = 1 / 2"
  by (rule fl_exact [of _ 1 "-1"]) (simp_all add: power_int_minus)

lemma fl_19_20: "1 / 2 \<le> fl (19 / 20)" "fl (19 / 20) \<le> 1"
  using fl_mono [of "1 / 2" "19 / 20"] fl_le_int [of "19 / 20" 1] by simp_all

lemma below_sorted:
  assumes "sorted xs" and "i < length xs"
  shows "Suc i \<le> length (filter (\<lambda>x. x \<le> xs ! i) xs)"
proof -
  have "Suc i = length (filter (\<lambda>x. x \<le> xs ! i) (take (Suc i) xs))"
    using assms by (subst filter_True) (auto simp: in_set_conv_nth intro!: sorted_nth_mono)
  also have "\<dots> \<le> length (filter (\<lambda>x. x \<le> xs ! i) (take (Suc i) xs @ drop (Suc i) xs))"
    by (subst filter_append) simp
  finally show ?thesis by simp
qed

lemma last_sorted_max: "sorted xs \<Longrightarrow> xs \<noteq> [] \<Longrightarrow> last xs = Max (set xs)" for xs :: "rat list"
proof (rule Max_eqI [symmetric])
  fix y assume "sorted xs" "xs \<noteq> []" "y \<in> set xs"
  then obtain i where "y = xs ! i" "i < length xs" by (auto simp: in_set_conv_nth)
  with \<open>sorted xs\<close> \<open>xs \<noteq> []\<close> show "y \<le> last xs" by (auto simp: last_conv_nth intro: sorted_nth_mono)
qed simp_all

lemma summarize_ordered:
  assumes ne: "samples \<noteq> []" and len: "length samples < 2 ^ 53" and pos: "\<forall>x \<in> set samples. 0 \<le> x"
  shows "\<exists>x. summarize samples = Inr (Some x) \<and> sm_count x = length samples
     \<and> sm_p50 x \<le> sm_p95 x \<and> sm_p95 x \<le> sm_max x \<and> sm_max x = round3 (Max (set samples))
     \<and> (\<exists>a \<in> set samples. sm_p50 x = round3 a \<and> length samples \<le> 2 * length (filter (\<lambda>y. y \<le> a) samples))"
proof -
  define xs where "xs = sort samples"
  have xs: "xs \<noteq> []" "length xs < 2 ^ 53" "sorted xs" "set xs = set samples" "length xs = length samples"
    using ne len by (simp_all add: xs_def) (metis length_0_conv length_sort)
  obtain i where i: "i < length xs" "percentile xs (1 / 2) = Inr (xs ! i)"
      "int i = max 1 \<lceil>fl (1 / 2 * of_nat (length xs))\<rceil> - 1"
    using percentile_rank [OF xs(1,2), of "1 / 2"] by auto
  obtain j where j: "j < length xs" "percentile xs (fl (19 / 20)) = Inr (xs ! j)"
      "int j = max 1 \<lceil>fl (fl (19 / 20) * of_nat (length xs))\<rceil> - 1"
    using percentile_rank [OF xs(1,2), of "fl (19 / 20)"] fl_19_20 by auto
  have "fl (1 / 2 * of_nat (length xs)) \<le> fl (fl (19 / 20) * of_nat (length xs))"
    using fl_19_20 by (intro fl_mono mult_right_mono) auto
  then have "\<lceil>fl (1 / 2 * of_nat (length xs))\<rceil> \<le> \<lceil>fl (fl (19 / 20) * of_nat (length xs))\<rceil>"
    by (rule ceiling_mono)
  with i(3) j(3) have ij: "i \<le> j" by linarith
  have half: "fl (1 / 2 * of_nat (length xs)) = of_nat (length xs) / 2"
    using fl_half [of "of_int (int (length xs))"] fl_of_int [of "int (length xs)"] xs(2) by simp
  have "\<lceil>(of_nat (length xs) :: rat) / 2\<rceil> \<le> int (Suc i)" using i(3) unfolding half by simp
  then have "(of_nat (length xs) :: rat) \<le> of_nat (2 * Suc i)" by (simp add: ceiling_le_iff)
  then have "length xs \<le> 2 * Suc i" by (simp only: of_nat_le_iff)
  also have "\<dots> \<le> 2 * length (filter (\<lambda>y. y \<le> xs ! i) xs)" using below_sorted [OF xs(3) i(1)] by simp
  also have "length (filter (\<lambda>y. y \<le> xs ! i) xs) = length (filter (\<lambda>y. y \<le> xs ! i) samples)"
    by (simp add: xs_def filter_sort)
  finally have cnt: "length samples \<le> 2 * length (filter (\<lambda>y. y \<le> xs ! i) samples)" by (simp only: xs(5))
  have m: "last xs = Max (set samples)" using last_sorted_max [OF xs(3,1)] xs(4) by simp
  have nn: "0 \<le> xs ! i" "0 \<le> xs ! j" using pos i(1) j(1) nth_mem xs(4) by fast+
  have "round3 (xs ! i) \<le> round3 (xs ! j)"
    using nn ij j(1) xs(3) by (intro round3_mono) (auto intro: sorted_nth_mono)
  moreover have "round3 (xs ! j) \<le> round3 (last xs)"
    using nn j(1) xs(1,3) by (intro round3_mono) (auto simp: last_conv_nth intro: sorted_nth_mono)
  moreover have "xs ! i \<in> set samples" using i(1) xs(4) nth_mem by blast
  moreover have "summarize samples = Inr (Some \<lparr>sm_count = length samples, sm_p50 = round3 (xs ! i),
      sm_p95 = round3 (xs ! j), sm_max = round3 (Max (set samples)),
      sm_mean = round3 (fdiv (py_fsum xs) (fint (int (length samples))))\<rparr>)"
    using ne by (simp add: summarize_def Let_def i(2) j(2) m xs(5) flip: xs_def)
  ultimately show ?thesis using cnt unfolding m by (intro exI [of _ "series_summary.make _ _ _ _ _"])
    (auto simp: series_summary.make_def)
qed

subsection \<open>Silence in a running game is noticed\<close>

text \<open>Two polls without a state are long enough; outside RUNNING no silence is stale.\<close>

lemma stale_after_float: "fl (stale_after_s rs) = stale_after_s rs \<and> fl (stale_after_s rs / 2) = stale_after_s rs / 2
    \<and> 2 \<le> stale_after_s rs"
proof -
  have "\<exists>y \<ge> 0. stale_after_s rs = fl y \<and> 2 \<le> fl y"
  proof (cases "\<exists>r. rs = Some r \<and> 0 < tick_duration_ms r \<and> 2 \<le> fdiv (of_int (3 * tick_duration_ms r)) 1000")
    case True
    then obtain r where "rs = Some r" "0 < tick_duration_ms r" "2 \<le> fdiv (of_int (3 * tick_duration_ms r)) 1000"
      by blast
    then show ?thesis
      by (intro exI [of _ "of_int (3 * tick_duration_ms r) / 1000"]) (simp add: stale_after_s_def fdiv_def)
  next
    case False
    then have "stale_after_s rs \<in> {2, 15}" by (auto simp: stale_after_s_def split: option.splits)
    then show ?thesis using fl_of_int [of 2] fl_of_int [of 15] by (intro exI [of _ "stale_after_s rs"]) auto
  qed
  then show ?thesis using fl_fl fl_half by fastforce
qed

lemma two_polls_cover: "stale_after_s (st_rules st) \<le> 2 * poll_interval_s st"
  using stale_after_float [of "st_rules st"] by (simp add: poll_interval_s_def fdiv_def)

lemma status_set_fields [simp]:
  "st_status (fst (status_set now x detail st)) = x"
  "st_phase (fst (status_set now x detail st)) = st_phase st"
  "st_rules (fst (status_set now x detail st)) = st_rules st"
  "st_last_state_at (fst (status_set now x detail st)) = st_last_state_at st"
  by (simp_all add: status_set_def)

lemma on_state_fields [simp]:
  "st_phase (fst (on_state now later ph rs tick st)) = Some ph"
  "st_rules (fst (on_state now later ph rs tick st)) = Some rs"
  "st_last_state_at (fst (on_state now later ph rs tick st)) = Some now"
  by (simp_all add: on_state_def Let_def)

lemma check_stale_status: "check_stale now later st = (b, st', ch) \<Longrightarrow> (if b then st_status st' = STALE else st' = st)"
  by (auto simp: check_stale_def Let_def split: option.splits if_splits)
     (metis fst_conv status_set_fields(1))

lemma check_stale_silent:
  assumes "st_phase st = Some RUNNING" and "st_last_state_at st = Some t" and "t + stale_after_s (st_rules st) \<le> now"
  shows "fst (check_stale now later st)"
proof -
  have "fl (stale_after_s (st_rules st)) \<le> fl (now - t)"
    using assms(3) stale_after_float [of "st_rules st"] by (intro fl_mono) auto
  then show ?thesis using assms stale_after_float [of "st_rules st"] by (simp add: check_stale_def fsub_def)
qed

text \<open>Every change names the status it leaves, so the changes reported form a chain.\<close>

lemma status_set_change:
  "status_set now x detail st = (st', ch) \<Longrightarrow>
     (case ch of None \<Rightarrow> st_status st' = st_status st
      | Some (a, b, _) \<Rightarrow> a = st_status st \<and> b = st_status st' \<and> a \<noteq> b)"
  by (auto simp: status_set_def split: if_splits)

text \<open>After a state arrived, a running game that stays silent for two polling intervals is
  reported stale, and a game that is not running is never reported stale however long it is silent.\<close>

theorem silence_is_noticed:
  assumes "st = fst (on_state now later ph rs tick st0)"
  shows "if ph = RUNNING
    then now + 2 * poll_interval_s st \<le> t \<longrightarrow> (\<exists>st' ch. check_stale t t' st = (True, st', ch) \<and> st_status st' = STALE)
    else check_stale t t' st = (False, st, None)"
proof (cases "ph = RUNNING")
  case True
  have st: "st_phase st = Some RUNNING" "st_last_state_at st = Some now" by (simp_all add: assms True)
  have "\<exists>st' ch. check_stale t t' st = (True, st', ch) \<and> st_status st' = STALE" if "now + 2 * poll_interval_s st \<le> t"
  proof -
    from that two_polls_cover [of st] have "fst (check_stale t t' st)"
      by (intro check_stale_silent [OF st]) simp
    then obtain st' ch where "check_stale t t' st = (True, st', ch)" by (cases "check_stale t t' st") auto
    with check_stale_status [OF this] show ?thesis by simp
  qed
  with True show ?thesis by simp
qed (simp add: assms check_stale_def)

lemma demo_stale: "stale_after_s (Some demo_rules) = 15" "fl (15 / 2) = 15 / 2"
proof -
  show d: "stale_after_s (Some demo_rules) = 15"
    using fl_of_int [of 15] by (simp add: stale_after_s_def demo_rules_def fdiv_def)
  show "fl (15 / 2) = 15 / 2" using stale_after_float [of "Some demo_rules"] by (simp add: d)
qed

theorem silence_is_noticed_witness:
  "\<exists>st' ch. check_stale 25 26 (fst (on_state 10 10 RUNNING demo_rules 3 (status_init 0))) = (True, st', ch)
     \<and> st_status st' = STALE"
  using silence_is_noticed [OF refl, where now = 10 and later = 10 and ph = RUNNING and rs = demo_rules and tick = 3
      and ?st0.0 = "status_init 0" and t = 25 and t' = 26]
  by (simp add: poll_interval_s_def fdiv_def demo_stale)

end
