(* ===== verification/Executor.thy ===== *)
theory Executor
  imports Session_Inv Commitments Memory Evidence Monitor
begin

text \<open>
  \<open>bazaar_client/execution/executor.py\<close>: one action becomes one command, its record in the log and a
  hold on the stock it promises. \<open>execute\<close> is cut at its awaits; between two of them the session may
  be changed by its own tasks in any way, which \<open>execution\<close> allows for. The executor shares
  its commitments and the counterparties inside the policy memory with the trading loop.
\<close>

record trader =
  tr_session :: session
  tr_evidence :: evidence_log
  tr_commitments :: commitment_tracker
  tr_memory :: policy_memory
  tr_latency :: latency_recorder
  tr_last_record :: "nat option"

definition executor_new :: "session \<Rightarrow> evidence_log \<Rightarrow> policy_memory \<Rightarrow> latency_recorder \<Rightarrow> trader" where
  "executor_new ss ev m lr = \<lparr>tr_session = ss, tr_evidence = ev, tr_commitments = tracker_init,
     tr_memory = m, tr_latency = lr, tr_last_record = None\<rparr>"

definition on_record :: "(evidence_record \<Rightarrow> evidence_record) \<Rightarrow> nat \<Rightarrow> trader \<Rightarrow> trader" where
  "on_record f h tr = tr\<lparr>tr_evidence := change_record f h (tr_evidence tr)\<rparr>"

definition resolve_hold :: "string \<Rightarrow> trader \<Rightarrow> trader" where
  "resolve_hold rid tr = tr\<lparr>tr_commitments := resolve_inflight rid (tr_commitments tr)\<rparr>"

definition finish_record :: "nat \<Rightarrow> snapshot option \<Rightarrow> trader \<Rightarrow> trader" where
  "finish_record h final tr =
     tr\<lparr>tr_evidence := evidence_complete h final (tr_evidence tr), tr_last_record := None\<rparr>"

definition record_latency :: "string \<Rightarrow> rat \<Rightarrow> trader \<Rightarrow> trader" where
  "record_latency series ms tr = tr\<lparr>tr_latency := latency_record series ms (tr_latency tr)\<rparr>"

subsection \<open>Executing an action\<close>

text \<open>Up to the \<open>try\<close>: the record, the message and the hold of an offer.\<close>

definition hold_stock :: "action \<Rightarrow> string \<Rightarrow> trader \<Rightarrow> trader" where
  "hold_stock a rid tr = (case a of
     OfferAction recipient g w expires \<Rightarrow> tr\<lparr>tr_commitments := register_inflight rid g (tr_commitments tr)\<rparr>
   | _ \<Rightarrow> tr)"

definition start_record :: "string \<Rightarrow> string \<Rightarrow> action \<Rightarrow> string \<Rightarrow> string option \<Rightarrow> trader \<Rightarrow> nat \<times> trader" where
  "start_record now step a rid did tr =
     (case evidence_start now (if step = [] then kind a else step) a (ss_latest (tr_session tr)) did (tr_evidence tr) of
        (h, ev) \<Rightarrow> (h, on_record (\<lambda>r. r\<lparr>er_request_id := Some rid\<rparr>) h
                         (tr\<lparr>tr_evidence := ev, tr_last_record := Some h\<rparr>)))"

definition execute_prepare ::
  "string \<Rightarrow> string \<Rightarrow> action \<Rightarrow> string \<Rightarrow> string option \<Rightarrow> trader \<Rightarrow> (session_error + nat \<times> client_message) \<times> trader" where
  "execute_prepare now step a rid did tr =
     (case start_record now step a rid did tr of (h, tr) \<Rightarrow>
      case session_run_id (tr_session tr) of
        Inl e \<Rightarrow> (Inl e, tr)
      | Inr run \<Rightarrow> (case build_action a run rid of
          Inl e \<Rightarrow> (Inl (Raised e), tr)
        | Inr m \<Rightarrow> (Inr (h, m), hold_stock a rid tr)))"

text \<open>The \<open>except BaseException\<close> block.\<close>

definition execute_failed :: "nat \<Rightarrow> string \<Rightarrow> session_error \<Rightarrow> trader \<Rightarrow> trader" where
  "execute_failed h rid e tr =
     (let tr = (case e of CommandBlockedError _ \<Rightarrow> resolve_hold rid tr | _ \<Rightarrow> tr);
          tr = tr\<lparr>tr_evidence := evidence_note h ''no answer or confirmation: send failed or connection lost''
                   (tr_evidence tr)\<rparr>
      in finish_record h None tr)"

definition note_refused_recipient :: "nat \<Rightarrow> command_result \<Rightarrow> trader \<Rightarrow> trader" where
  "note_refused_recipient h r tr =
     (if code r = STATION_FAILED
      then case dict_get (er_action (ev_records (tr_evidence tr) ! h)) ''recipient_id'' of
             Some (JStr recipient) \<Rightarrow>
               if recipient \<noteq> [] then tr\<lparr>tr_memory := (tr_memory tr)\<lparr>counterparties :=
                   mark_failed recipient (counterparties (tr_memory tr))\<rparr>\<rparr> else tr
           | _ \<Rightarrow> tr
      else tr)"

definition record_outcome :: "nat \<Rightarrow> session_outcome \<Rightarrow> trader \<Rightarrow> trader" where
  "record_outcome h x tr =
     (case so_result x of
        Some r \<Rightarrow>
          let tr = on_record (\<lambda>er. er\<lparr>er_result_ok := Some (ok r), er_result_code := Some (result_code_name (code r)),
                      er_object_id := object_id r, er_transaction_id := res_transaction_id r,
                      er_processed_tick := Some (processed_tick r)\<rparr>) h tr;
              tr = (case er_observed_tick (ev_records (tr_evidence tr) ! h) of
                      None \<Rightarrow> tr
                    | Some t \<Rightarrow> (on_record (\<lambda>er. er\<lparr>er_deadline_missed := Some (t < processed_tick r)\<rparr>) h tr)
                        \<lparr>tr_latency := note_deadline (t < processed_tick r) (tr_latency tr)\<rparr>)
          in note_refused_recipient h r tr
      | None \<Rightarrow> (case so_error x of
          Some ev \<Rightarrow>
            let tr = on_record (\<lambda>er. er\<lparr>er_result_ok := Some False,
                        er_result_code := Some (control_code_name (err_code ev))\<rparr>) h tr
            in tr\<lparr>tr_evidence := evidence_note h ''answered by protocol_error, not a result'' (tr_evidence tr)\<rparr>
        | None \<Rightarrow> tr))"

text \<open>Where a call stands: refused before the \<open>try\<close>, charged and about to be transmitted, waiting for its answer, waiting for
  the snapshot that confirms it, or over.\<close>

datatype stage =
    Refused session_error
  | Charged_at nat sending
  | Awaiting nat sending
  | Confirming nat session_outcome
  | Returned session_outcome
  | Gave_up session_error "session_outcome option"

definition execute_begin :: "(client_message \<Rightarrow> bytes) \<Rightarrow> (bytes \<Rightarrow> string) \<Rightarrow> string \<Rightarrow> string \<Rightarrow> action \<Rightarrow> string \<Rightarrow>
    string option \<Rightarrow> trader \<Rightarrow> stage \<times> trader" where
  "execute_begin ser digest now step a rid did tr =
     (case execute_prepare now step a rid did tr of
        (Inl e, tr) \<Rightarrow> (Refused e, tr)
      | (Inr (h, m), tr) \<Rightarrow> (case send_begin ser digest m (kind a) rid (tr_session tr) of
          (Inl e, ss) \<Rightarrow> (Gave_up e None, execute_failed h rid e (tr\<lparr>tr_session := ss\<rparr>))
        | (Inr c, ss) \<Rightarrow> (Charged_at h c, tr\<lparr>tr_session := ss\<rparr>)))"

definition execute_transmit :: "bool \<Rightarrow> nat \<Rightarrow> sending \<Rightarrow> trader \<Rightarrow> stage \<times> trader" where
  "execute_transmit up h c tr =
     (case send_transmit up c (tr_session tr) of
        (Inl e, ss) \<Rightarrow> (Gave_up e None, execute_failed h (sd_request_id c) e (tr\<lparr>tr_session := ss\<rparr>))
      | (Inr _, ss) \<Rightarrow> (Awaiting h c, tr\<lparr>tr_session := ss\<rparr>))"

definition execute_answered :: "rat \<Rightarrow> nat \<Rightarrow> string \<Rightarrow> session_outcome \<Rightarrow> trader \<Rightarrow> stage \<times> trader" where
  "execute_answered ms h rid x tr =
     (let tr = on_record (\<lambda>r. r\<lparr>er_response_ms := Some ms\<rparr>) h tr;
          tr = record_outcome h x (record_latency ''response'' ms tr);
          tr = (if \<not> so_ok x then resolve_hold rid tr else tr)
      in if so_result x \<noteq> None then (Confirming h x, tr)
         else (Returned x, finish_record h None (resolve_hold rid tr)))"

text \<open>The end of \<open>send_command\<close>; an answer of the wrong kind cannot occur (\<open>answers_match_requests\<close>).\<close>

definition execute_receive :: "rat \<Rightarrow> nat \<Rightarrow> sending \<Rightarrow> trader \<Rightarrow> stage \<times> trader" where
  "execute_receive ms h c tr =
     (case send_over c (tr_session tr) of (a, ss) \<Rightarrow>
        let tr = tr\<lparr>tr_session := ss\<rparr>
        in case a of
             Inr (OutcomeAnswer x) \<Rightarrow> execute_answered ms h (sd_request_id c) x tr
           | Inl e \<Rightarrow> (Gave_up e None, execute_failed h (sd_request_id c) e tr)
           | _ \<Rightarrow> (Gave_up (Raised AttributeError) None, execute_failed h (sd_request_id c) (Raised AttributeError) tr))"

definition execute_confirmed :: "rat \<Rightarrow> nat \<Rightarrow> string \<Rightarrow> session_outcome \<Rightarrow> snapshot \<Rightarrow> trader \<Rightarrow> stage \<times> trader" where
  "execute_confirmed ms h rid x s tr =
     (let tr = on_record (\<lambda>r. r\<lparr>er_confirm_ms := Some ms\<rparr>) h tr;
          tr = resolve_hold rid (record_latency ''confirm'' ms tr)
      in (Returned x, finish_record h (Some s) tr))"

definition execute_unconfirmed :: "nat \<Rightarrow> string \<Rightarrow> session_outcome \<Rightarrow> session_error \<Rightarrow> trader \<Rightarrow> stage \<times> trader" where
  "execute_unconfirmed h rid x e tr = (Gave_up e (Some x), execute_failed h rid e tr)"

subsection \<open>Control messages\<close>

definition execute_sync :: "(client_message \<Rightarrow> bytes) \<Rightarrow> bool \<Rightarrow> string \<Rightarrow> string \<Rightarrow> trader \<Rightarrow> (session_error + bytes) \<times> trader" where
  "execute_sync ser up now step tr =
     (case evidence_start now step SyncAction (ss_latest (tr_session tr)) None (tr_evidence tr) of (h, ev) \<Rightarrow>
      let tr = tr\<lparr>tr_evidence := ev, tr_last_record := Some h\<rparr>
      in case send_sync ser up (tr_session tr) of
           (Inl e, ss) \<Rightarrow> (Inl e, tr\<lparr>tr_session := ss\<rparr>)
         | (Inr p, ss) \<Rightarrow> (Inr p, tr\<lparr>tr_session := ss,
             tr_evidence := evidence_note h ''control message; answered by a state only'' (tr_evidence tr)\<rparr>))"

definition confirm_last :: "snapshot option \<Rightarrow> trader \<Rightarrow> trader" where
  "confirm_last s tr = (case tr_last_record tr of None \<Rightarrow> tr | Some h \<Rightarrow> finish_record h s tr)"

subsection \<open>One call, with the session changing underneath\<close>

inductive execution ::
  "(client_message \<Rightarrow> bytes) \<Rightarrow> (bytes \<Rightarrow> string) \<Rightarrow> action \<Rightarrow> string \<Rightarrow> string option \<Rightarrow> trader \<Rightarrow> stage \<Rightarrow> trader \<Rightarrow> bool"
  for ser digest a rid did tr0 where
  ex_begin: "execute_begin ser digest now step a rid did tr0 = (st, tr) \<Longrightarrow> execution ser digest a rid did tr0 st tr"
| ex_session: "execution ser digest a rid did tr0 st tr \<Longrightarrow> execution ser digest a rid did tr0 st (tr\<lparr>tr_session := ss\<rparr>)"
| ex_transmit: "execution ser digest a rid did tr0 (Charged_at h c) tr \<Longrightarrow> execute_transmit up h c tr = (st, tr') \<Longrightarrow>
     execution ser digest a rid did tr0 st tr'"
| ex_receive: "execution ser digest a rid did tr0 (Awaiting h c) tr \<Longrightarrow> execute_receive ms h c tr = (st, tr') \<Longrightarrow>
     execution ser digest a rid did tr0 st tr'"
| ex_confirmed: "execution ser digest a rid did tr0 (Confirming h x) tr \<Longrightarrow> so_result x = Some r \<Longrightarrow>
     confirming_snapshot r s = Inr s \<Longrightarrow> execute_confirmed ms h rid x s tr = (st, tr') \<Longrightarrow>
     execution ser digest a rid did tr0 st tr'"
| ex_unconfirmed: "execution ser digest a rid did tr0 (Confirming h x) tr \<Longrightarrow>
     execute_unconfirmed h rid x e tr = (st, tr') \<Longrightarrow> execution ser digest a rid did tr0 st tr'"

text \<open>At these stages the server may hold or still take the offer, as far as the client knows.\<close>

fun may_stand :: "stage \<Rightarrow> bool" where
  "may_stand (Refused _) = False"
| "may_stand (Charged_at _ _) = True"
| "may_stand (Awaiting _ _) = True"
| "may_stand (Confirming _ x) = so_ok x"
| "may_stand (Returned _) = False"
| "may_stand (Gave_up (CommandBlockedError _) _) = False"
| "may_stand (Gave_up _ None) = True"
| "may_stand (Gave_up _ (Some x)) = so_ok x"

fun offered :: "action \<Rightarrow> Bundle option" where
  "offered (OfferAction _ g _ _) = Some g"
| "offered _ = None"

fun over :: "stage \<Rightarrow> bool" where
  "over (Returned _) = True"
| "over (Gave_up _ _) = True"
| "over _ = False"

text \<open>What the record of a call says about its outcome.\<close>

definition says :: "evidence_record \<Rightarrow> session_outcome option \<Rightarrow> bool" where
  "says er xo = (case xo of
     None \<Rightarrow> er_result_ok er = None
   | Some x \<Rightarrow> (case so_result x of
       Some r \<Rightarrow> er_result_ok er = Some (ok r) \<and> er_result_code er = Some (result_code_name (code r))
     | None \<Rightarrow> (case so_error x of
         Some ev \<Rightarrow> er_result_ok er = Some False \<and> er_result_code er = Some (control_code_name (err_code ev))
       | None \<Rightarrow> er_result_ok er = None)))"

fun answer_of :: "stage \<Rightarrow> session_outcome option" where
  "answer_of (Confirming _ x) = Some x"
| "answer_of (Returned x) = Some x"
| "answer_of (Gave_up _ xo) = xo"
| "answer_of _ = None"

fun stage_ok :: "nat \<Rightarrow> string \<Rightarrow> stage \<Rightarrow> bool" where
  "stage_ok h rid (Charged_at k c) \<longleftrightarrow> k = h \<and> sd_request_id c = rid"
| "stage_ok h rid (Awaiting k c) \<longleftrightarrow> k = h \<and> sd_request_id c = rid"
| "stage_ok h rid (Confirming k x) \<longleftrightarrow> k = h \<and> so_result x \<noteq> None"
| "stage_ok h rid _ \<longleftrightarrow> True"

definition record_for :: "action \<Rightarrow> string \<Rightarrow> string option \<Rightarrow> evidence_record \<Rightarrow> bool" where
  "record_for a rid did er \<longleftrightarrow> er_request_id er = Some rid \<and> er_action er = describe a
     \<and> er_action_kind er = kind a \<and> er_decision_id er = did"

definition holds_of :: "action \<Rightarrow> string \<Rightarrow> bool \<Rightarrow> (string, Bundle) pydict" where
  "holds_of a rid b = (case offered a of None \<Rightarrow> [] | Some g \<Rightarrow> if b then [(rid, g)] else [])"

text \<open>The steps in terms of the last record, the lines and the holds.\<close>

definition tracked :: "trader \<Rightarrow> evidence_record list \<Rightarrow> evidence_record \<Rightarrow> log_line list \<Rightarrow> (string, Bundle) pydict \<Rightarrow> bool" where
  "tracked tr xs er ls hs \<longleftrightarrow> ev_records (tr_evidence tr) = xs @ [er] \<and> ev_lines (tr_evidence tr) = ls
     \<and> inflight (tr_commitments tr) = hs"

lemma tracked_record: "tracked tr xs er ls hs \<Longrightarrow> tracked (on_record f (length xs) tr) xs (f er) ls hs"
  by (simp add: tracked_def on_record_def change_record_def)

lemma tracked_note: "tracked tr xs er ls hs \<Longrightarrow>
    tracked (tr\<lparr>tr_evidence := evidence_note (length xs) n (tr_evidence tr)\<rparr>) xs (er\<lparr>er_notes := er_notes er @ [n]\<rparr>) ls hs"
  by (simp add: tracked_def evidence_note_def change_record_def)

lemma tracked_resolve: "tracked tr xs er ls hs \<Longrightarrow> tracked (resolve_hold rid tr) xs er ls (dict_pop rid hs)"
  by (simp add: tracked_def resolve_hold_def resolve_inflight_def)

lemma tracked_finish: "tracked tr xs er ls hs \<Longrightarrow> \<exists>er'. tracked (finish_record (length xs) s tr) xs er' (ls @ [CommandLine er']) hs
    \<and> record_for a rid did er' = record_for a rid did er \<and> says er' xo = says er xo"
  by (cases s) (simp_all add: tracked_def finish_record_def evidence_complete_def Let_def write_line_def
    change_record_def record_for_def says_def cong: option.case_cong)

lemma tracked_carry:
  "tracked tr xs er ls hs \<Longrightarrow> tr_evidence tr' = tr_evidence tr \<Longrightarrow> tr_commitments tr' = tr_commitments tr \<Longrightarrow> tracked tr' xs er ls hs"
  by (simp add: tracked_def)

lemma note_refused_recipient_frame [simp]:
  "tr_evidence (note_refused_recipient h r tr) = tr_evidence tr"
  "tr_commitments (note_refused_recipient h r tr) = tr_commitments tr"
  by (simp_all add: note_refused_recipient_def split: option.splits json_value.splits)

lemma notes_irrelevant [simp]:
  "record_for a rid did (er\<lparr>er_notes := n\<rparr>) = record_for a rid did er"
  "says (er\<lparr>er_notes := n\<rparr>) xo = says er xo"
  by (simp_all add: record_for_def says_def cong: option.case_cong)

lemma tracked_failed:
  assumes "tracked tr xs er ls hs"
  shows "\<exists>er'. tracked (execute_failed (length xs) rid e tr) xs er' (ls @ [CommandLine er'])
       (case e of CommandBlockedError _ \<Rightarrow> dict_pop rid hs | _ \<Rightarrow> hs)
    \<and> record_for a rid' did er' = record_for a rid' did er \<and> says er' xo = says er xo"
proof -
  let ?tr = "case e of CommandBlockedError _ \<Rightarrow> resolve_hold rid tr | _ \<Rightarrow> tr"
  let ?n = "''no answer or confirmation: send failed or connection lost''"
  have "tracked ?tr xs er ls (case e of CommandBlockedError _ \<Rightarrow> dict_pop rid hs | _ \<Rightarrow> hs)"
    using assms tracked_resolve [OF assms] by (simp split: session_error.splits)
  from tracked_finish [OF tracked_note [OF this, of ?n], of None a rid' did xo] show ?thesis
    by (simp add: execute_failed_def Let_def)
qed

lemma tracked_outcome:
  assumes t: "tracked tr xs er ls hs" and new: "says er None"
  shows "\<exists>er'. tracked (record_outcome (length xs) x tr) xs er' ls hs
    \<and> record_for a rid did er' = record_for a rid did er \<and> says er' (Some x)"
proof (cases "so_result x")
  case (Some r)
  let ?f = "\<lambda>er. er\<lparr>er_result_ok := Some (ok r), er_result_code := Some (result_code_name (code r)),
                      er_object_id := object_id r, er_transaction_id := res_transaction_id r,
                      er_processed_tick := Some (processed_tick r)\<rparr>"
  let ?tr = "on_record ?f (length xs) tr"
  have 1: "tracked ?tr xs (?f er) ls hs" by (rule tracked_record [OF t])
  then have nth: "ev_records (tr_evidence ?tr) ! length xs = ?f er" by (simp add: tracked_def)
  have 2: "record_for a rid did (?f er) = record_for a rid did er" "says (?f er) (Some x)"
    by (simp_all add: record_for_def says_def Some)
  show ?thesis
  proof (cases "er_observed_tick er")
    case None
    with 1 2 nth show ?thesis
      by (intro exI [of _ "?f er"]) (auto simp: record_outcome_def Some Let_def intro: tracked_carry)
  next
    case (Some t)
    let ?g = "\<lambda>er. er\<lparr>er_deadline_missed := Some (t < processed_tick r)\<rparr>"
    from tracked_record [OF 1, of ?g] have "tracked (record_outcome (length xs) x tr) xs (?g (?f er)) ls hs"
      using nth Some \<open>so_result x = Some r\<close> by (simp add: record_outcome_def Let_def) (erule tracked_carry; simp)
    moreover have "record_for a rid did (?g (?f er)) = record_for a rid did er" "says (?g (?f er)) (Some x)"
      using \<open>so_result x = Some r\<close> by (simp_all add: record_for_def says_def)
    ultimately show ?thesis by blast
  qed
next
  case None
  show ?thesis
  proof (cases "so_error x")
    case None
    with t new \<open>so_result x = None\<close> show ?thesis by (intro exI [of _ er]) (simp add: record_outcome_def says_def)
  next
    case (Some ev)
    let ?f = "\<lambda>er. er\<lparr>er_result_ok := Some False, er_result_code := Some (control_code_name (err_code ev))\<rparr>"
    from tracked_note [OF tracked_record [OF t, of ?f], of "''answered by protocol_error, not a result''"] Some None
    show ?thesis
      by (intro exI [of _ "(?f er)\<lparr>er_notes := er_notes er @ [''answered by protocol_error, not a result'']\<rparr>"])
         (simp add: record_outcome_def Let_def record_for_def says_def)
  qed
qed

definition execution_ok :: "action \<Rightarrow> string \<Rightarrow> string option \<Rightarrow> trader \<Rightarrow> stage \<Rightarrow> trader \<Rightarrow> bool" where
  "execution_ok a rid did tr0 st tr \<longleftrightarrow> stage_ok (length (ev_records (tr_evidence tr0))) rid st
     \<and> (\<exists>er. tracked tr (ev_records (tr_evidence tr0)) er
           (ev_lines (tr_evidence tr0) @ (if over st then [CommandLine er] else []))
           (inflight (tr_commitments tr0) @ holds_of a rid (may_stand st))
         \<and> record_for a rid did er \<and> says er (answer_of st))"

lemma holds_of_simps [simp]:
  "holds_of a rid False = []"
  "rid \<notin> set (dict_keys d) \<Longrightarrow> dict_pop rid (d @ holds_of a rid b) = d"
  by (auto simp: holds_of_def AList.delete_eq filter_id_conv rev_image_eqI split: option.splits)

lemma execution_okI:
  "stage_ok (length (ev_records (tr_evidence tr0))) rid st \<Longrightarrow>
   tracked tr (ev_records (tr_evidence tr0)) er (ev_lines (tr_evidence tr0) @ (if over st then [CommandLine er] else []))
     (inflight (tr_commitments tr0) @ holds_of a rid (may_stand st)) \<Longrightarrow>
   record_for a rid did er \<Longrightarrow> says er (answer_of st) \<Longrightarrow> execution_ok a rid did tr0 st tr"
  unfolding execution_ok_def by blast

lemma may_stand_gave_up: "may_stand (Gave_up e xo) \<longleftrightarrow>
    (case e of CommandBlockedError _ \<Rightarrow> False | _ \<Rightarrow> (case xo of None \<Rightarrow> True | Some x \<Rightarrow> so_ok x))"
  by (cases e; cases xo) simp_all

text \<open>Failing inside the \<open>try\<close>.\<close>

lemma execution_failed:
  assumes t: "tracked tr (ev_records (tr_evidence tr0)) er (ev_lines (tr_evidence tr0))
        (inflight (tr_commitments tr0) @ holds_of a rid b)"
    and er: "record_for a rid did er" "says er xo" and fresh: "rid \<notin> set (dict_keys (inflight (tr_commitments tr0)))"
    and b: "b = (case xo of None \<Rightarrow> True | Some x \<Rightarrow> so_ok x)"
  shows "execution_ok a rid did tr0 (Gave_up e xo) (execute_failed (length (ev_records (tr_evidence tr0))) rid e tr)"
proof -
  let ?hs = "inflight (tr_commitments tr0)"
  have hs: "(case e of CommandBlockedError _ \<Rightarrow> dict_pop rid (?hs @ holds_of a rid b) | _ \<Rightarrow> ?hs @ holds_of a rid b)
      = ?hs @ holds_of a rid (may_stand (Gave_up e xo))"
    using fresh b by (simp add: may_stand_gave_up split: session_error.splits)
  from tracked_failed [OF t, of rid e a rid did xo] er show ?thesis
    unfolding hs by (auto intro: execution_okI)
qed

lemma execution_start:
  assumes "start_record now step a rid did tr0 = (h, tr)"
  shows "h = length (ev_records (tr_evidence tr0)) \<and> tr_session tr = tr_session tr0
     \<and> (\<exists>er. tracked tr (ev_records (tr_evidence tr0)) er (ev_lines (tr_evidence tr0)) (inflight (tr_commitments tr0))
            \<and> record_for a rid did er \<and> says er None)"
  using assms
  by (auto simp: start_record_def evidence_start_def on_record_def change_record_def tracked_def record_for_def says_def)

lemma tracked_hold:
  assumes "tracked tr xs er ls hs" and "rid \<notin> set (dict_keys hs)"
  shows "tracked (hold_stock a rid tr) xs er ls (hs @ holds_of a rid True)"
  using assms by (cases a) (simp_all add: tracked_def hold_stock_def holds_of_def register_inflight_def dict_set_fresh)

lemma execution_begin:
  assumes "execute_begin ser digest now step a rid did tr0 = (st, tr)"
    and fresh: "rid \<notin> set (dict_keys (inflight (tr_commitments tr0)))"
  shows "execution_ok a rid did tr0 st tr"
proof -
  let ?xs = "ev_records (tr_evidence tr0)" and ?ls = "ev_lines (tr_evidence tr0)" and ?hs = "inflight (tr_commitments tr0)"
  obtain tr1 where s: "start_record now step a rid did tr0 = (length ?xs, tr1)"
    using execution_start by (metis surj_pair)
  from execution_start [OF s] obtain er where er: "tracked tr1 ?xs er ?ls ?hs" "record_for a rid did er" "says er None"
    by blast
  from tracked_hold [OF er(1) fresh] have held: "tracked (hold_stock a rid tr1) ?xs er ?ls (?hs @ holds_of a rid True)" .
  then have held': "tracked (hold_stock a rid tr1\<lparr>tr_session := ss\<rparr>) ?xs er ?ls (?hs @ holds_of a rid True)" for ss
    by (rule tracked_carry) simp_all
  have refused: "execution_ok a rid did tr0 (Refused e) tr1" for e
    using er by (intro execution_okI [of _ _ _ _ er]) simp_all
  have charged: "execution_ok a rid did tr0 (Charged_at (length ?xs) c) (hold_stock a rid tr1\<lparr>tr_session := ss\<rparr>)"
    if "sd_request_id c = rid" for c ss
    using er held' that by (intro execution_okI [of _ _ _ _ er]) simp_all
  show ?thesis
  proof (cases "execute_prepare now step a rid did tr0")
    case (Pair r tr2)
    show ?thesis
    proof (cases r)
      case (Inl e)
      with Pair s have "tr2 = tr1" by (auto simp: execute_prepare_def split: sum.splits)
      with assms(1) Pair Inl have "st = Refused e" "tr = tr1" by (auto simp: execute_begin_def)
      then show ?thesis using refused by simp
    next
      case (Inr hm)
      with Pair s obtain m where hm: "hm = (length ?xs, m)" "tr2 = hold_stock a rid tr1"
        by (auto simp: execute_prepare_def split: sum.splits)
      obtain x ss where b: "send_begin ser digest m (kind a) rid (tr_session tr2) = (x, ss)" by fastforce
      show ?thesis
      proof (cases x)
        case (Inl e)
        with assms(1) Pair Inr hm b have "st = Gave_up e None"
            "tr = execute_failed (length ?xs) rid e (hold_stock a rid tr1\<lparr>tr_session := ss\<rparr>)"
          by (auto simp: execute_begin_def)
        with execution_failed [OF held' er(2,3) fresh] show ?thesis by simp
      next
        case (Inr c)
        with b have "sd_request_id c = rid" using send_begin_Inr by blast
        moreover from assms(1) Pair \<open>r = Inr hm\<close> hm b Inr have "st = Charged_at (length ?xs) c"
            "tr = hold_stock a rid tr1\<lparr>tr_session := ss\<rparr>"
          by (auto simp: execute_begin_def)
        ultimately show ?thesis using charged by simp
      qed
    qed
  qed
qed

lemma execution_answered:
  assumes ok: "execution_ok a rid did tr0 (Awaiting h c) tr"
    and fresh: "rid \<notin> set (dict_keys (inflight (tr_commitments tr0)))"
    and run: "execute_answered ms h rid x (tr\<lparr>tr_session := ss\<rparr>) = (st, tr')"
  shows "execution_ok a rid did tr0 st tr'"
proof -
  let ?xs = "ev_records (tr_evidence tr0)" and ?ls = "ev_lines (tr_evidence tr0)" and ?hs = "inflight (tr_commitments tr0)"
  from ok obtain er where h: "h = length ?xs" and er: "tracked tr ?xs er ?ls (?hs @ holds_of a rid True)"
      "record_for a rid did er" "says er None"
    by (auto simp: execution_ok_def)
  let ?f = "\<lambda>r. r\<lparr>er_response_ms := Some ms\<rparr>"
  have "tracked (record_latency ''response'' ms (on_record ?f h (tr\<lparr>tr_session := ss\<rparr>))) ?xs (?f er) ?ls (?hs @ holds_of a rid True)"
    using tracked_record [OF er(1), of ?f] unfolding h
    by (rule tracked_carry) (simp_all add: record_latency_def on_record_def)
  moreover have "says (?f er) None" "record_for a rid did (?f er)" using er(2,3) by (simp_all add: says_def record_for_def)
  ultimately obtain er' where er': "record_for a rid did er'" "says er' (Some x)"
      "tracked (record_outcome h x (record_latency ''response'' ms (on_record ?f h (tr\<lparr>tr_session := ss\<rparr>)))) ?xs er' ?ls
        (?hs @ holds_of a rid True)"
    using tracked_outcome [of _ ?xs "?f er" ?ls _ x a rid did] h by metis
  let ?tr = "record_outcome h x (record_latency ''response'' ms (on_record ?f h (tr\<lparr>tr_session := ss\<rparr>)))"
  let ?tr' = "if \<not> so_ok x then resolve_hold rid ?tr else ?tr"
  have held: "tracked ?tr' ?xs er' ?ls (?hs @ holds_of a rid (so_ok x))"
    using er'(3) tracked_resolve [OF er'(3), of rid] fresh by simp
  show ?thesis
  proof (cases "so_result x")
    case None
    from tracked_finish [OF tracked_resolve [OF held, of rid], of None a rid did "Some x"] er' fresh h
    obtain er'' where "tracked (finish_record h None (resolve_hold rid ?tr')) ?xs er'' (?ls @ [CommandLine er'']) ?hs"
      "record_for a rid did er''" "says er'' (Some x)" by auto
    moreover from run None have "st = Returned x" "tr' = finish_record h None (resolve_hold rid ?tr')"
      by (simp_all add: execute_answered_def Let_def)
    ultimately show ?thesis by (intro execution_okI [of _ _ _ _ er'']) simp_all
  next
    case (Some r)
    with run have "st = Confirming h x" "tr' = ?tr'" by (auto simp: execute_answered_def Let_def)
    with held er' h Some show ?thesis by (intro execution_okI [of _ _ _ _ er']) simp_all
  qed
qed

lemma execution_session:
  assumes "execution_ok a rid did tr0 st tr"
  shows "execution_ok a rid did tr0 st (tr\<lparr>tr_session := ss\<rparr>)"
proof -
  have "tracked (tr\<lparr>tr_session := ss\<rparr>) xs er ls hs = tracked tr xs er ls hs" for xs er ls hs
    by (simp add: tracked_def)
  with assms show ?thesis by (simp add: execution_ok_def)
qed

lemma execution_gives_up:
  assumes "execution_ok a rid did tr0 st tr" and "\<not> over st" and "answer_of st = xo"
    and h: "h = length (ev_records (tr_evidence tr0))"
    and m: "may_stand st = (case xo of None \<Rightarrow> True | Some x \<Rightarrow> so_ok x)"
    and fresh: "rid \<notin> set (dict_keys (inflight (tr_commitments tr0)))"
  shows "execution_ok a rid did tr0 (Gave_up e xo) (execute_failed h rid e tr)"
proof -
  from assms(1-3) obtain er where "tracked tr (ev_records (tr_evidence tr0)) er (ev_lines (tr_evidence tr0))
      (inflight (tr_commitments tr0) @ holds_of a rid (may_stand st))" "record_for a rid did er" "says er xo"
    by (auto simp: execution_ok_def)
  from execution_failed [OF this fresh m] show ?thesis unfolding h .
qed

text \<open>Every call, at every point.\<close>

lemma execution_invariant:
  assumes "execution ser digest a rid did tr0 st tr" and fresh: "rid \<notin> set (dict_keys (inflight (tr_commitments tr0)))"
  shows "execution_ok a rid did tr0 st tr"
  using assms(1)
proof induction
  case (ex_begin now step st tr)
  then show ?case using fresh by (rule execution_begin)
next
  case (ex_session st tr ss)
  then show ?case by (intro execution_session)
next
  case (ex_transmit h c tr up st tr')
  then have h: "h = length (ev_records (tr_evidence tr0))" "sd_request_id c = rid" by (simp_all add: execution_ok_def)
  obtain x ss where x: "send_transmit up c (tr_session tr) = (x, ss)" by fastforce
  from ex_transmit.IH have ok: "execution_ok a rid did tr0 (Charged_at h c) (tr\<lparr>tr_session := ss\<rparr>)"
    by (rule execution_session)
  show ?case
  proof (cases x)
    case (Inl e)
    with ex_transmit.hyps(2) x h have "st = Gave_up e None" "tr' = execute_failed h rid e (tr\<lparr>tr_session := ss\<rparr>)"
      by (auto simp: execute_transmit_def)
    moreover have "execution_ok a rid did tr0 (Gave_up e None) (execute_failed h rid e (tr\<lparr>tr_session := ss\<rparr>))"
      by (rule execution_gives_up [OF ok _ _ h(1) _ fresh]) simp_all
    ultimately show ?thesis by simp
  next
    case (Inr p)
    with ex_transmit.hyps(2) x have "st = Awaiting h c" "tr' = tr\<lparr>tr_session := ss\<rparr>" by (auto simp: execute_transmit_def)
    with ok show ?thesis by (simp add: execution_ok_def)
  qed
next
  case (ex_receive h c tr ms st tr')
  then have h: "h = length (ev_records (tr_evidence tr0))" "sd_request_id c = rid" by (simp_all add: execution_ok_def)
  obtain x ss where x: "send_over c (tr_session tr) = (x, ss)" by fastforce
  from ex_receive.IH have ok: "execution_ok a rid did tr0 (Awaiting h c) (tr\<lparr>tr_session := ss\<rparr>)"
    by (rule execution_session)
  have failed: "execution_ok a rid did tr0 (Gave_up e None) (execute_failed h rid e (tr\<lparr>tr_session := ss\<rparr>))" for e
    by (rule execution_gives_up [OF ok _ _ h(1) _ fresh]) simp_all
  show ?case
  proof (cases "\<exists>y. x = Inr (OutcomeAnswer y)")
    case True
    then obtain y where "x = Inr (OutcomeAnswer y)" ..
    with ex_receive.hyps(2) x h have "execute_answered ms h rid y (tr\<lparr>tr_session := ss\<rparr>) = (st, tr')"
      by (simp add: execute_receive_def)
    then show ?thesis by (rule execution_answered [OF ex_receive.IH fresh])
  next
    case False
    then have "\<exists>e. st = Gave_up e None \<and> tr' = execute_failed h rid e (tr\<lparr>tr_session := ss\<rparr>)"
      using ex_receive.hyps(2) x h by (auto simp: execute_receive_def Let_def split: sum.splits answer.splits)
    with failed show ?thesis by auto
  qed
next
  case (ex_confirmed h x tr r s ms st tr')
  let ?xs = "ev_records (tr_evidence tr0)" and ?ls = "ev_lines (tr_evidence tr0)" and ?hs = "inflight (tr_commitments tr0)"
  from ex_confirmed.IH obtain er where h: "h = length ?xs"
    and er: "tracked tr ?xs er ?ls (?hs @ holds_of a rid (so_ok x))" "record_for a rid did er" "says er (Some x)"
    by (auto simp: execution_ok_def)
  let ?f = "\<lambda>r. r\<lparr>er_confirm_ms := Some ms\<rparr>"
  let ?tr = "resolve_hold rid (record_latency ''confirm'' ms (on_record ?f h tr))"
  have "tracked (record_latency ''confirm'' ms (on_record ?f h tr)) ?xs (?f er) ?ls (?hs @ holds_of a rid (so_ok x))"
    using tracked_record [OF er(1), of ?f] unfolding h
    by (rule tracked_carry) (simp_all add: record_latency_def on_record_def)
  from tracked_resolve [OF this, of rid] fresh have "tracked ?tr ?xs (?f er) ?ls ?hs" by simp
  from tracked_finish [OF this, of "Some s" a rid did "Some x"] er h
  obtain er' where "tracked (finish_record h (Some s) ?tr) ?xs er' (?ls @ [CommandLine er']) ?hs"
      "record_for a rid did er'" "says er' (Some x)"
    by (auto simp: record_for_def says_def cong: option.case_cong)
  moreover from ex_confirmed.hyps(4) have "st = Returned x" "tr' = finish_record h (Some s) ?tr"
    by (simp_all add: execute_confirmed_def Let_def)
  ultimately show ?case by (intro execution_okI [of _ _ _ _ er']) simp_all
next
  case (ex_unconfirmed h x tr e st tr')
  then have h: "h = length (ev_records (tr_evidence tr0))" "so_result x \<noteq> None" by (simp_all add: execution_ok_def)
  have "execution_ok a rid did tr0 (Gave_up e (Some x)) (execute_failed h rid e tr)"
    by (rule execution_gives_up [OF ex_unconfirmed.IH _ _ h(1) _ fresh]) simp_all
  with ex_unconfirmed.hyps(2) show ?case by (simp add: execute_unconfirmed_def)
qed

end
