(* ===== verification/Session_Live.thy ===== *)
theory Session_Live
  imports Session_Inv
begin

text \<open>
  No caller of a session is left waiting: whatever is registered when the connection ends is answered
  or fails by the time the pump task has ended. \<open>held\<close> is the invariant of a turn of the pump,
  \<open>drain\<close> runs the turns, whether writes succeed or not, and \<open>ready_ok\<close> is what keeps the readiness declaration
  from failing for another reason than its write.
\<close>

subsection \<open>Nobody is left waiting\<close>

text \<open>A future that is registered with its session or already done; \<open>carries\<close>: no operation of the
  pump drops a registered future without settling it.\<close>

definition waiting :: "session \<Rightarrow> nat set" where
  "waiting ss = snd ` set (ss_snapshot_waiters ss) \<union> snd ` set (ss_command_waiters ss)
     \<union> set_option (ss_readiness_waiter ss)"

definition held :: "session \<Rightarrow> nat \<Rightarrow> bool" where
  "held ss n \<longleftrightarrow> n < length (ss_futures ss) \<and> (n \<in> waiting ss \<or> future_done ss n)"

definition carries :: "session \<Rightarrow> session \<Rightarrow> bool" where
  "carries ss ss' \<longleftrightarrow> (dict_ok (ss_command_waiters ss) \<longrightarrow> dict_ok (ss_command_waiters ss')
     \<and> (\<forall>n. held ss n \<longrightarrow> held ss' n))"

lemma carries_trans: "carries a b \<Longrightarrow> carries b c \<Longrightarrow> carries a c"
  by (simp add: carries_def)

lemma carries_same: "ss_futures ss' = ss_futures ss \<Longrightarrow> ss_command_waiters ss' = ss_command_waiters ss \<Longrightarrow>
    ss_snapshot_waiters ss' = ss_snapshot_waiters ss \<Longrightarrow> ss_readiness_waiter ss' = ss_readiness_waiter ss \<Longrightarrow>
    carries ss ss'"
  by (simp add: carries_def held_def waiting_def future_done_def)

lemma fail_all_settles: "held ss n \<Longrightarrow> future_done (fail_all_waiters e ss) n"
  unfolding held_def fail_all_alt future_done_def waiting_def
  by (auto simp: fold_settle_done simp del: fold_append split: option.splits)

lemma carries_fail_all: "carries ss (fail_all_waiters e ss)"
proof -
  have "length (ss_futures (fail_all_waiters e ss)) = length (ss_futures ss)"
    by (simp add: fail_all_alt del: fold_append)
  then show ?thesis
    using fail_all_settles [of ss _ e] by (auto simp: carries_def held_def) (simp add: fail_all_alt)
qed

lemma carries_answer: "carries ss (answer_command rid x ss)"
proof (cases "dict_get (ss_command_waiters ss) rid")
  case (Some m)
  let ?cw = "ss_command_waiters ss"
  have new: "answer_command rid x ss = ss\<lparr>ss_command_waiters := dict_pop rid ?cw,
      ss_futures := settle_list (Resolved (OutcomeAnswer x)) m (ss_futures ss)\<rparr>" (is "_ = ?s")
    by (simp add: answer_command_def Some settle_future_alt)
  have "held ?s n" if "dict_ok ?cw" and n: "held ss n" for n
  proof -
    have "n = m \<or> n \<in> snd ` set (dict_pop rid ?cw)" if c: "n \<in> snd ` set ?cw"
    proof -
      from c obtain r where r: "(r, n) \<in> set ?cw" by auto
      show ?thesis
      proof (cases "r = rid")
        case True
        with r \<open>dict_ok ?cw\<close> Some show ?thesis by (simp add: dict_mem_get)
      next
        case False
        with r have "(r, n) \<in> set (dict_pop rid ?cw)" by (auto simp: AList.delete_eq)
        then show ?thesis by force
      qed
    qed
    with n show ?thesis by (auto simp: held_def waiting_def future_done_def settle_list_done)
  qed
  then show ?thesis unfolding new by (auto simp: carries_def)
qed (simp add: answer_command_def carries_def)

lemma carries_result: "carries ss (session_on_result r ss)"
  unfolding session_on_result_alt by (rule carries_trans [OF carries_same carries_answer]) (simp_all add: note_result_def)

lemma carries_results: "carries ss (fold session_on_result rs ss)"
proof (induction rs arbitrary: ss)
  case (Cons r rs)
  show ?case using carries_trans [OF carries_result Cons.IH] by simp
qed (simp add: carries_def)

lemma carries_error: "carries ss (session_on_protocol_error ev ss)"
proof (cases "err_request_id ev")
  case (Some rid)
  show ?thesis unfolding session_on_protocol_error_alt Some option.case
    by (rule carries_trans [OF carries_same carries_answer]) simp_all
qed (simp add: session_on_protocol_error_alt carries_def)

lemma carries_readiness: "carries ss (resolve_readiness a ss)"
  by (auto simp: carries_def held_def waiting_def future_done_def resolve_readiness_def settle_future_alt
      settle_list_done Let_def split: option.splits)

lemma carries_snapshot: "carries ss (session_on_snapshot now uuid s ss)"
proof (cases "case ss_latest ss of None \<Rightarrow> False | Some v \<Rightarrow> snapshot_sequence s \<le> snapshot_sequence v")
  case False
  obtain still fs where shape: "session_on_snapshot now uuid s ss = fold session_on_result (request_results s)
       ((store_snapshot now uuid s ss)\<lparr>ss_futures := fs, ss_snapshot_waiters := still\<rparr>)"
    and fs: "map fst fs = purposes ss"
      "\<forall>n<length fs. snd (ss_futures ss ! n) \<noteq> Pending \<longrightarrow> snd (fs ! n) \<noteq> Pending"
      "\<forall>(k, n)\<in>set (ss_snapshot_waiters ss). n < length fs \<longrightarrow> (k, n) \<in> set still \<or> snd (fs ! n) \<noteq> Pending"
    by (rule on_snapshot_shape [OF False])
  have len: "length fs = length (ss_futures ss)" using fs(1) by (rule map_eq_imp_length_eq)
  have "carries ss ((store_snapshot now uuid s ss)\<lparr>ss_futures := fs, ss_snapshot_waiters := still\<rparr>)"
    using fs(2,3) by (force simp: carries_def held_def waiting_def future_done_def len)
  then show ?thesis unfolding shape by (rule carries_trans [OF _ carries_results])
qed (simp add: on_snapshot_ignored carries_def)

lemma carries_route: "carries ss (session_route now uuid ev ss)"
  by (cases ev) (simp_all add: carries_snapshot carries_result carries_readiness carries_error)

lemma carries_follow: "carries ss (follow_directive ser up d ss)"
proof (cases ser up d ss rule: follow_directive_cases)
  case (send f b)
  show ?thesis unfolding send by (rule carries_same) simp_all
next
  case (abort e reason c)
  show ?thesis unfolding abort by (rule carries_trans [OF carries_same carries_fail_all]) simp_all
next
  case (reconnect e)
  have "carries ss (fail_all_waiters e (ss\<lparr>ss_reconnect_wanted := True\<rparr>))"
    by (rule carries_trans [OF carries_same carries_fail_all]) simp_all
  then show ?thesis unfolding reconnect by (rule carries_trans) (rule carries_same; simp)
qed

subsection \<open>Turns of the pump\<close>

definition ready_ok :: "session \<Rightarrow> bool" where
  "ready_ok ss \<longleftrightarrow> (ss_pumping ss \<longrightarrow> lc_state (ss_lifecycle ss) = AWAITING_FIRST_STATE \<longrightarrow> ss_connected ss)
     \<and> (\<forall>s. Received (SnapshotEvent s) \<in> set (ss_queue ss) \<longrightarrow> u64_ok (snapshot_sequence s))"

lemma on_event_directive:
  assumes "on_event ev l = Inr (d, l')"
  shows "d = Some (SendReady rid sq) \<Longrightarrow> \<exists>s. ev = SnapshotEvent s \<and> sq = snapshot_sequence s
       \<and> lc_state l = AWAITING_FIRST_STATE \<and> lc_state l' \<noteq> AWAITING_FIRST_STATE"
    and "d = Some (Reconnect reason) \<Longrightarrow> lc_state l' \<noteq> AWAITING_FIRST_STATE"
    and "lc_state l' = AWAITING_FIRST_STATE \<Longrightarrow> lc_state l = AWAITING_FIRST_STATE"
  using assms
  by (cases ev; auto simp: on_snapshot_def on_readiness_def on_protocol_error_def Let_def split: if_splits)+

lemma send_ready_succeeds:
  assumes "ss_connected ss" and "u64_ok sq"
  shows "\<exists>f. follow_directive ser True (Some (SendReady rid sq)) ss = ss\<lparr>ss_frames := f\<rparr>"
proof -
  obtain m where m: "build_ready rid True sq = Inr m" "client_inited m" "m \<noteq> NoClientArm"
    using assms(2) by (auto simp: build_ready_def u64_ok_Inr present_simps)
  then show ?thesis using assms(1)
    by (auto simp: follow_directive_def send_message_def encode_client_message_def send_payload_def)
qed

lemma route_frame [simp]:
  "ss_queue (session_route now uuid ev ss) = ss_queue ss"
  "ss_pumping (session_route now uuid ev ss) = ss_pumping ss"
  "ss_connected (session_route now uuid ev ss) = ss_connected ss"
  "ss_lifecycle (session_route now uuid ev ss) = ss_lifecycle ss"
  by (cases ev; simp)+

text \<open>The next turn declares readiness; a turn loses the declaration when its write fails.\<close>

definition declares :: "session \<Rightarrow> bool" where
  "declares ss = (case ss_queue ss of
     Received ev # _ \<Rightarrow> (case on_event ev (ss_lifecycle ss) of Inr (Some (SendReady _ _), _) \<Rightarrow> True | _ \<Rightarrow> False)
   | _ \<Rightarrow> False)"

lemma declares_once: "declares ss \<Longrightarrow> lc_state (ss_lifecycle ss) = AWAITING_FIRST_STATE"
  by (auto simp: declares_def dest: on_event_directive(1)
      split: list.splits queue_item.splits sum.splits prod.splits option.splits directive.splits)

text \<open>What a turn leaves that does not lose the declaration of readiness: the pump goes on with a shorter
  queue, or it ended and everybody held is answered.\<close>

lemma consume_turn:
  assumes ok: "ready_ok ss" and p: "ss_pumping ss" and q: "ss_queue ss = item # q" and w: "declares ss \<longrightarrow> up"
  shows "let ss' = consume_event ser up now uuid ss
     in carries ss ss' \<and> ready_ok ss'
        \<and> (if ss_pumping ss' then ss_queue ss' = q \<and> item \<noteq> ClosedSentinel
           else \<forall>n. held ss n \<longrightarrow> future_done ss' n)"
proof (cases ss rule: consume_event_cases [where ser = ser and up = up and now = now and uuid = uuid])
  case (closed q')
  let ?t = "ss\<lparr>ss_queue := q', ss_closed := True, ss_lifecycle := on_disconnected (ss_lifecycle ss), ss_pumping := False\<rparr>"
  have t: "carries ss ?t" by (rule carries_same) simp_all
  have "held ?t n" if "held ss n" for n
    using that by (simp add: held_def waiting_def future_done_def)
  with ok closed(1) show ?thesis unfolding closed(3)
    by (auto simp: Let_def ready_ok_def intro: carries_trans [OF t carries_fail_all] fail_all_settles)
next
  case (garbled e q')
  have "carries ss (ss\<lparr>ss_queue := q'\<rparr>)" by (rule carries_same) simp_all
  with ok q p garbled(1) show ?thesis unfolding garbled(3) by (auto simp: Let_def ready_ok_def)
next
  case (rejected ev e q')
  let ?t = "ss\<lparr>ss_queue := q', ss_pumping := False\<rparr>"
  have t: "carries ss ?t" by (rule carries_same) simp_all
  have "held ?t n" if "held ss n" for n
    using that by (simp add: held_def waiting_def future_done_def)
  with ok rejected(1) show ?thesis unfolding rejected(3)
    by (auto simp: Let_def ready_ok_def intro: carries_trans [OF t carries_fail_all] fail_all_settles)
next
  case (routed ev d l q')
  let ?r = "session_route now uuid ev (ss\<lparr>ss_queue := q', ss_lifecycle := l\<rparr>)"
  let ?s = "follow_directive ser up d ?r"
  have "carries ss ?r" by (rule carries_trans [OF carries_same carries_route]) simp_all
  then have c: "carries ss ?s" by (rule carries_trans [OF _ carries_follow])
  have later: "\<forall>s. Received (SnapshotEvent s) \<in> set q' \<longrightarrow> u64_ok (snapshot_sequence s)"
    using ok routed(1) by (simp add: ready_ok_def)
  have "ss_pumping ?s \<and> ss_queue ?s = q'
      \<and> (lc_state (ss_lifecycle ?s) = AWAITING_FIRST_STATE \<longrightarrow> ss_connected ?s)"
  proof (cases d)
    case None
    with on_event_directive(3) [OF routed(2)] ok p show ?thesis
      by (auto simp: follow_directive_def ready_ok_def)
  next
    case (Some dir)
    show ?thesis
    proof (cases dir)
      case (SendReady rid sq)
      from on_event_directive(1) [OF routed(2), of rid sq] Some SendReady obtain s where
        s: "ev = SnapshotEvent s" "sq = snapshot_sequence s" "lc_state (ss_lifecycle ss) = AWAITING_FIRST_STATE"
          "lc_state l \<noteq> AWAITING_FIRST_STATE" by blast
      with ok p routed(1) have "ss_connected ?r" "u64_ok sq" by (auto simp: ready_ok_def)
      moreover have "declares ss" using routed(1,2) Some SendReady by (simp add: declares_def)
      with w have "up = True" by simp
      ultimately obtain f where "?s = ?r\<lparr>ss_frames := f\<rparr>"
        using Some SendReady send_ready_succeeds [of ?r sq ser rid] by auto
      with p s(4) show ?thesis by simp
    next
      case (Reconnect reason)
      with on_event_directive(2) [OF routed(2), of reason] Some p show ?thesis
        by (simp add: follow_directive_def)
    next
      case (Abort reason c)
      with on_event_directive(3) [OF routed(2)] Some ok p show ?thesis
        by (auto simp: follow_directive_def ready_ok_def)
    qed
  qed
  with c later q routed(1) show ?thesis unfolding routed(4) by (auto simp: Let_def ready_ok_def)
qed (use q in simp)

lemma follow_frame [simp]:
  "ss_queue (follow_directive ser up d ss) = ss_queue ss"
  "ss_lifecycle (follow_directive ser up d ss) = ss_lifecycle ss"
  by (cases ser up d ss rule: follow_directive_cases; simp)+

lemma follow_connected:
  "\<forall>reason. d \<noteq> Some (Reconnect reason) \<Longrightarrow> ss_connected (follow_directive ser up d ss) = ss_connected ss"
proof (cases d)
  case (Some dir)
  assume "\<forall>reason. d \<noteq> Some (Reconnect reason)"
  with Some show ?thesis
    by (cases dir) (auto simp: follow_directive_def dest!: send_message_shape split: sum.splits prod.splits)
qed (simp add: follow_directive_def)

lemma consume_ready:
  assumes "ready_ok ss" and "ss_pumping ss"
  shows "ready_ok (consume_event ser up now uuid ss)"
proof (cases ss rule: consume_event_cases [where ser = ser and up = up and now = now and uuid = uuid])
  case (routed ev d l q)
  let ?r = "session_route now uuid ev (ss\<lparr>ss_queue := q, ss_lifecycle := l\<rparr>)"
  have "ss_connected (follow_directive ser up d ?r)" if "lc_state l = AWAITING_FIRST_STATE"
  proof -
    have "\<forall>reason. d \<noteq> Some (Reconnect reason)" using on_event_directive(2) [OF routed(2)] that by blast
    from follow_connected [OF this] assms on_event_directive(3) [OF routed(2) that] show ?thesis
      by (simp add: ready_ok_def)
  qed
  with assms routed(1) show ?thesis unfolding routed(4) by (auto simp: ready_ok_def)
qed (use assms in \<open>auto simp: ready_ok_def\<close>)

lemma decoded_sequence:
  "decode_server_message parse payload = Inr (SnapshotEvent s) \<Longrightarrow> u64_ok (snapshot_sequence s)"
proof -
  assume "decode_server_message parse payload = Inr (SnapshotEvent s)"
  then obtain m where "dispatch_server_message m = Inr (SnapshotEvent s)"
    by (auto simp: decode_server_message_def elim!: bindE_InrE)
  then have "\<exists>w :: u64. snapshot_sequence s = uint w"
    by (cases m) (auto simp: snapshot_from_pb_def elim!: bindE_InrE)
  then obtain w :: u64 where "snapshot_sequence s = uint w" ..
  then show ?thesis using uint_lt2p [of w] by (simp add: u64_ok_def)
qed

text \<open>The pump reads nothing else of a session than what these fields hold.\<close>

lemma ready_ok_carry:
  "ready_ok ss \<Longrightarrow> (ss_pumping ss' \<Longrightarrow> ss_pumping ss) \<Longrightarrow> ss_lifecycle ss' = ss_lifecycle ss \<Longrightarrow>
   ss_connected ss' = ss_connected ss \<Longrightarrow> ss_queue ss' = ss_queue ss \<Longrightarrow> ready_ok ss'"
  by (auto simp: ready_ok_def)

lemma session_reach_ready: "session_reach ser parse digest d \<Longrightarrow> ready_ok (dk_session d)"
proof (induction rule: session_reach.induct)
  case (reach_start th ss)
  then show ?case by (auto simp: session_start_def session_init_def ready_ok_def)
next
  case (reach_frame d raw)
  then show ?case
    by (auto simp: ready_ok_def receive_frame_def decoded_sequence split: frame.splits sum.splits)
next
  case (reach_end d)
  then show ?case by (simp add: ready_ok_def receive_end_def)
next
  case (reach_pump d up now uuid)
  then show ?case by (simp add: consume_ready)
next
  case (reach_wait d k r ss)
  show ?case
    by (rule ready_ok_carry [OF reach_wait.IH]; use reach_wait.hyps in
        \<open>auto simp: wait_for_snapshot_def create_future_def split: option.splits if_splits prod.splits\<close>)
next
  case (reach_wait_over d k n a ss)
  then obtain s1 where s1: "awaited n (dk_session d) = (a, s1)"
    and ss: "ss = s1\<lparr>ss_snapshot_waiters := filter (\<lambda>(_, m). m \<noteq> n) (ss_snapshot_waiters s1)\<rparr>"
    by (auto simp: wait_for_snapshot_over_def split: prod.splits)
  from awaited_shape [OF s1] show ?case
    by (elim exE conjE) (rule ready_ok_carry [OF reach_wait_over.IH]; simp add: ss)
next
  case (reach_ready d q ss)
  show ?case
    by (rule ready_ok_carry [OF reach_ready.IH]; use reach_ready.hyps in
        \<open>auto simp: wait_for_readiness_def create_future_def split: option.splits prod.splits\<close>)
next
  case (reach_ready_over d n a ss)
  from awaited_shape [OF reach_ready_over.hyps(3)] show ?case
    by (elim exE conjE) (rule ready_ok_carry [OF reach_ready_over.IH]; simp)
next
  case (reach_sync d up b ss)
  show ?case
    by (rule ready_ok_carry [OF reach_sync.IH]; use reach_sync.hyps in
        \<open>auto simp: send_sync_def split: sum.splits dest!: send_message_shape\<close>)
next
  case (reach_budget d k ss)
  show ?case
    by (rule ready_ok_carry [OF reach_budget.IH]; use reach_budget.hyps in
        \<open>auto simp: remaining_command_budget_def split: option.splits if_splits prod.splits\<close>)
next
  case (reach_refused d m knd rid e ss)
  from send_begin_Inl [OF reach_refused.hyps(2)] show ?case
    by (elim exE) (rule ready_ok_carry [OF reach_refused.IH]; simp)
next
  case (reach_begun d m knd rid c ss)
  show ?case
    by (rule send_begin_Inr [OF reach_begun.hyps(2)]) (use reach_begun.IH in \<open>simp add: ready_ok_def\<close>)
next
  case (reach_transmit d i c up x ss)
  from transmit_shape [OF reach_transmit.hyps(4)] show ?case
    by (elim disjE) (rule ready_ok_carry [OF reach_transmit.IH]; simp)+
next
  case (reach_answer d i c a ss)
  then obtain s1 where s1: "awaited (sd_future c) (dk_session d) = (a, s1)"
    and ss: "ss = s1\<lparr>ss_command_waiters := dict_pop (sd_request_id c) (ss_command_waiters s1)\<rparr>"
    by (auto simp: send_over_def split: prod.splits)
  from awaited_shape [OF s1] show ?case
    by (elim exE conjE) (rule ready_ok_carry [OF reach_answer.IH]; simp add: ss)
next
  case (reach_stop d)
  then show ?case by (simp add: ready_ok_def session_stop_def)
qed

text \<open>Running the pump; \<open>ts\<close> are the turns: whether a write succeeds, and the clock and identifier readings.
  \<open>lost_declaration\<close>: in one of them a write failed while readiness was declared.\<close>

fun drain :: "(client_message \<Rightarrow> bytes) \<Rightarrow> (bool \<times> int \<times> string) list \<Rightarrow> session \<Rightarrow> session" where
  "drain ser [] ss = ss"
| "drain ser ((up, now, uuid) # ts) ss =
     (if ss_pumping ss then drain ser ts (consume_event ser up now uuid ss) else ss)"

fun lost_declaration :: "(client_message \<Rightarrow> bytes) \<Rightarrow> (bool \<times> int \<times> string) list \<Rightarrow> session \<Rightarrow> bool" where
  "lost_declaration ser [] ss \<longleftrightarrow> False"
| "lost_declaration ser ((up, now, uuid) # ts) ss \<longleftrightarrow> ss_pumping ss
     \<and> (declares ss \<and> \<not> up \<or> lost_declaration ser ts (consume_event ser up now uuid ss))"

lemma consume_keeps_declared:
  "lc_state (ss_lifecycle ss) \<noteq> AWAITING_FIRST_STATE \<Longrightarrow>
   lc_state (ss_lifecycle (consume_event ser up now uuid ss)) \<noteq> AWAITING_FIRST_STATE"
  by (cases ss rule: consume_event_cases [where ser = ser and up = up and now = now and uuid = uuid])
     (auto simp: on_disconnected_def dest: on_event_directive(3))

lemma declared_once: "lc_state (ss_lifecycle ss) \<noteq> AWAITING_FIRST_STATE \<Longrightarrow> \<not> lost_declaration ser ts ss"
proof (induction ts arbitrary: ss)
  case (Cons t ts)
  then show ?case using declares_once consume_keeps_declared by (cases t) auto
qed simp

lemma drain_idle: "\<not> ss_pumping ss \<Longrightarrow> drain ser ts ss = ss"
  by (cases ts) auto

text \<open>A turn that does not end the pump takes one item and leaves the sentinel in the queue.\<close>

lemma consume_takes:
  assumes "ss_pumping ss" and "ss_queue ss = item # q" and "ss_pumping (consume_event ser up now uuid ss)"
  shows "ss_queue (consume_event ser up now uuid ss) = q \<and> item \<noteq> ClosedSentinel"
  using assms
  by (cases ss rule: consume_event_cases [where ser = ser and up = up and now = now and uuid = uuid]) auto

lemma drain_ends:
  assumes "ClosedSentinel \<in> set (ss_queue ss)" and "length (ss_queue ss) \<le> length ts"
  shows "\<not> ss_pumping (drain ser ts ss)"
  using assms
proof (induction ts arbitrary: ss)
  case (Cons t ts)
  obtain up now uuid where t: "t = (up, now, uuid)" by (cases t)
  obtain item q where q: "ss_queue ss = item # q" using Cons.prems(1) by (cases "ss_queue ss") auto
  let ?s = "consume_event ser up now uuid ss"
  show ?case
  proof (cases "ss_pumping ss \<and> ss_pumping ?s")
    case True
    with consume_takes [OF _ q] Cons.prems q have "ClosedSentinel \<in> set (ss_queue ?s)" "length (ss_queue ?s) \<le> length ts"
      by auto
    from Cons.IH [OF this] True show ?thesis by (simp add: t)
  next
    case False
    then show ?thesis by (auto simp: t drain_idle)
  qed
qed simp

lemma drain_releases:
  assumes "ready_ok ss" and "dict_ok (ss_command_waiters ss)" and "ClosedSentinel \<in> set (ss_queue ss)"
    and "length (ss_queue ss) \<le> length ts" and "ss_pumping ss" and "\<not> lost_declaration ser ts ss"
  shows "\<forall>n. held ss n \<longrightarrow> future_done (drain ser ts ss) n"
  using assms
proof (induction ts arbitrary: ss)
  case (Cons t ts)
  obtain up now uuid where t: "t = (up, now, uuid)" by (cases t)
  obtain item q where q: "ss_queue ss = item # q" using Cons.prems(3) by (cases "ss_queue ss") auto
  let ?s = "consume_event ser up now uuid ss"
  have w: "declares ss \<longrightarrow> up" and lost: "\<not> lost_declaration ser ts ?s" using Cons.prems(5,6) by (auto simp: t)
  have turn: "carries ss ?s" "ready_ok ?s" "ss_pumping ?s \<Longrightarrow> ss_queue ?s = q \<and> item \<noteq> ClosedSentinel"
      "\<not> ss_pumping ?s \<Longrightarrow> \<forall>n. held ss n \<longrightarrow> future_done ?s n"
    using consume_turn [OF Cons.prems(1) Cons.prems(5) q w, of ser now uuid] by (auto simp: Let_def split: if_splits)
  show ?case
  proof (cases "ss_pumping ?s")
    case True
    have "dict_ok (ss_command_waiters ?s)" and kept: "\<And>n. held ss n \<Longrightarrow> held ?s n"
      using turn(1) Cons.prems(2) by (auto simp: carries_def)
    from Cons.IH [OF turn(2) this(1)] True turn(3) Cons.prems q kept lost show ?thesis by (auto simp: t)
  next
    case False
    with drain_idle [OF False] turn(4) Cons.prems(5) show ?thesis by (simp add: t)
  qed
qed simp

end
