(* ===== verification/Session_Safety.thy ===== *)
theory Session_Safety
  imports Session_Live
begin

text \<open>
  The properties of \<open>BazaarSession\<close>: the view it keeps refines the world model, no command leaves
  without clearance, ids are reused only for exact retries, every caller gets the answer to its own
  request, and the end of the connection releases every caller.
\<close>

subsection \<open>A session's view refines the world model\<close>

lemma wm_snapshot_accepted:
  "wm_snapshot (fold (\<lambda>s w. snd (apply_snapshot s w)) seen world_model_init) =
     (if accepted seen = [] then None else Some (last (accepted seen)))
   \<and> world_ok (fold (\<lambda>s w. snd (apply_snapshot s w)) seen world_model_init)"
proof (induction seen rule: rev_induct)
  case Nil
  then show ?case by (simp add: world_ok_init) (simp add: world_model_init_def)
next
  case (snoc s seen)
  then show ?case
    by (auto simp: wm_snapshot_apply world_ok_apply newer_def split: if_splits)
qed

lemma newest_bound: "length (newest xs) \<le> 128"
  by (simp add: newest_length SNAPSHOT_HISTORY_def)

subsection \<open>A concrete session\<close>

definition link_ser :: "client_message \<Rightarrow> bytes" where
  "link_ser m = (case m of AcceptArm _ \<Rightarrow> [7] | _ \<Rightarrow> [8])"

definition link_digest :: "bytes \<Rightarrow> string" where
  "link_digest p = ''00ff''"

definition link_result :: command_result where
  "link_result = \<lparr>request_id = ''r-1'', ok = True, code = RES_OK, processed_tick = 10, processed_version = 41,
     object_id = Some ''offer-1'', res_transaction_id = Some ''txn-1'', retry_after_tick = None\<rparr>"

definition link_parse :: "bytes \<Rightarrow> server_message result" where
  "link_parse p =
     (if p = [1] then bindE (snapshot_to_pb demo_tick) (\<lambda>m. Inr (StateArm m))
      else if p = [2] then bindE (readiness_to_pb \<lparr>ack_run_id = ''run-1'', ack_ready = True, ack_snapshot_sequence = 7\<rparr>)
          (\<lambda>m. Inr (ReadinessArm m))
      else if p = [3] then bindE (result_to_pb ''run-1'' link_result) (\<lambda>m. Inr (ResultArm m))
      else Inl WireFormatError)"

definition link_begin :: session where
  "link_begin = snd (session_start None (session_init None))"

definition link_hear :: "bytes \<Rightarrow> session \<Rightarrow> session" where
  "link_hear p ss = consume_event link_ser True 5 ''0123456789abcdef''
     (receive_frame link_parse (BinaryFrame p) ss)"

definition link_active :: session where
  "link_active = link_hear [2] (link_hear [1] link_begin)"

definition link_message :: client_message where
  "link_message = build_accept ''run-1'' ''r-1'' ''offer-1''"

lemma link_decode:
  "decode_server_message link_parse [1] = Inr (SnapshotEvent demo_tick)"
  "decode_server_message link_parse [2] = Inr (ReadinessEvent \<lparr>ack_run_id = ''run-1'', ack_ready = True, ack_snapshot_sequence = 7\<rparr>)"
  "decode_server_message link_parse [3] = Inr (ResultEvent link_result)"
proof -
  have "snapshot_fits demo_tick"
    by (auto simp: snapshot_fits_def rules_fit_def observation_fits_def offer_fits_def advertisement_fits_def u64_ok_def
       bundle_fits_def resources_def zero_bundle_def demo_tick_def demo_defs)
  from snapshot_wire.roundtrip [OF this]
  show "decode_server_message link_parse [1] = Inr (SnapshotEvent demo_tick)"
    by (auto simp: decode_server_message_def link_parse_def)
  have "readiness_fits \<lparr>ack_run_id = ''run-1'', ack_ready = True, ack_snapshot_sequence = 7\<rparr>"
    by (simp add: readiness_fits_def u64_ok_def)
  from readiness_wire.roundtrip [OF this]
  show "decode_server_message link_parse [2] = Inr (ReadinessEvent \<lparr>ack_run_id = ''run-1'', ack_ready = True, ack_snapshot_sequence = 7\<rparr>)"
    by (auto simp: decode_server_message_def link_parse_def)
  have "result_fits link_result" by (simp add: result_fits_def link_result_def u64_ok_def)
  from result_wire.roundtrip [OF this, of "''run-1''"]
  show "decode_server_message link_parse [3] = Inr (ResultEvent link_result)"
    by (auto simp: decode_server_message_def link_parse_def)
qed

lemma link_begin_eq: "link_begin = (session_init None)\<lparr>ss_connected := True, ss_lifecycle := on_connected lifecycle_init,
    ss_receiving := True, ss_pumping := True\<rparr>"
  by (simp add: link_begin_def session_start_def session_init_def)

lemma link_heard: "link_hear [1] link_begin = link_begin\<lparr>ss_frames := [[8]],
    ss_lifecycle := \<lparr>lc_state = AWAITING_READINESS, lc_run_id = Some ''run-1'', lc_phase = Some RUNNING,
      lc_ready_sequence = Some 7, lc_last_sequence = 7\<rparr>,
    ss_latest := Some demo_tick, ss_by_sequence := [(7, demo_tick)], ss_received_at := [(7, 5)],
    ss_throttle := update_limit 4 (throttle_init 1),
    ss_ids := Some (id_generator_init ''P01'' ''0123456789ab'')\<rparr>"
  by (simp add: link_hear_def link_begin_eq receive_frame_def link_decode consume_event_def session_init_def
      on_connected_def lifecycle_init_def on_snapshot_def session_on_snapshot_def store_snapshot_def trim_history_def
      SNAPSHOT_HISTORY_def follow_directive_def build_ready_def send_message_def send_payload_def
      encode_client_message_def link_ser_def u64_def present_simps demo_tick_def demo_defs)

lemma link_active_eq: "link_active = link_begin\<lparr>ss_frames := [[8]],
    ss_lifecycle := \<lparr>lc_state = ACTIVE, lc_run_id = Some ''run-1'', lc_phase = Some RUNNING,
      lc_ready_sequence = Some 7, lc_last_sequence = 7\<rparr>,
    ss_latest := Some demo_tick, ss_by_sequence := [(7, demo_tick)], ss_received_at := [(7, 5)],
    ss_throttle := update_limit 4 (throttle_init 1),
    ss_ids := Some (id_generator_init ''P01'' ''0123456789ab''),
    ss_readiness := Some \<lparr>ack_run_id = ''run-1'', ack_ready = True, ack_snapshot_sequence = 7\<rparr>\<rparr>"
  unfolding link_active_def link_heard
  by (simp add: link_hear_def link_begin_eq receive_frame_def link_decode consume_event_def session_init_def
      on_readiness_def resolve_readiness_def follow_directive_def)

definition link_sending :: sending where
  "link_sending = \<lparr>sd_request_id = ''r-1'', sd_payload = [7], sd_fingerprint = ''00ff'', sd_retry = False, sd_future = 0\<rparr>"

definition link_sent :: session where
  "link_sent = snd (send_begin link_ser link_digest link_message ''accept'' ''r-1'' link_active)"

lemma link_send_begin: "send_begin link_ser link_digest link_message ''accept'' ''r-1'' link_active = (Inr link_sending, link_sent)"
proof -
  have "fst (send_begin link_ser link_digest link_message ''accept'' ''r-1'' link_active) = Inr link_sending"
    by (simp add: send_begin_def link_active_eq link_begin_eq session_init_def link_message_def build_accept_def
        command_head_def encode_client_message_def link_ser_def link_digest_def body_fingerprint_def
        is_exact_retry_def pending_init_def trading_eligible_def can_send_trading_commands_def TRADING_PHASES_def
        remaining_command_budget_def remaining_def roll_to_def update_limit_def throttle_init_def
        pending_register_def create_future_def present_simps link_sending_def demo_tick_def demo_defs Let_def
        command_inited_def)
  then show ?thesis by (simp add: link_sent_def prod_eq_iff)
qed

lemma link_reach_hear:
  assumes "session_reach link_ser link_parse link_digest d" and "ss_receiving (dk_session d)" "ss_pumping (dk_session d)"
  shows "session_reach link_ser link_parse link_digest (d\<lparr>dk_session := link_hear p (dk_session d),
     dk_seen := dk_seen d @ taken_snapshot (receive_frame link_parse (BinaryFrame p) (dk_session d))\<rparr>)"
proof -
  have "session_reach link_ser link_parse link_digest
      (d\<lparr>dk_session := receive_frame link_parse (BinaryFrame p) (dk_session d)\<rparr>)" (is "session_reach _ _ _ ?d")
    by (rule reach_frame) (fact assms)+
  moreover have "ss_pumping (dk_session ?d)" using assms(3) by (simp add: receive_frame_def)
  ultimately have "session_reach link_ser link_parse link_digest
      (?d\<lparr>dk_session := consume_event link_ser True 5 ''0123456789abcdef'' (dk_session ?d),
          dk_seen := dk_seen ?d @ taken_snapshot (dk_session ?d)\<rparr>)"
    by (rule reach_pump)
  then show ?thesis by (simp add: link_hear_def)
qed

lemma link_reach_active:
  "session_reach link_ser link_parse link_digest \<lparr>dk_session = link_active, dk_sends = [], dk_seen = [demo_tick]\<rparr>"
proof -
  have "session_start None (session_init None) = (Inr (), link_begin)"
    by (simp add: link_begin_def session_start_def)
  then have "session_reach link_ser link_parse link_digest \<lparr>dk_session = link_begin, dk_sends = [], dk_seen = []\<rparr>"
    by (rule reach_start)
  moreover have "taken_snapshot (receive_frame link_parse (BinaryFrame [1]) link_begin) = [demo_tick]"
    by (simp add: link_begin_eq session_init_def taken_snapshot_def receive_frame_def link_decode on_snapshot_def
        on_connected_def lifecycle_init_def Let_def demo_tick_def demo_defs)
  moreover have "ss_receiving link_begin" "ss_pumping link_begin" by (simp_all add: link_begin_eq)
  ultimately have "session_reach link_ser link_parse link_digest
      \<lparr>dk_session = link_hear [1] link_begin, dk_sends = [], dk_seen = [demo_tick]\<rparr>"
    using link_reach_hear [of "\<lparr>dk_session = link_begin, dk_sends = [], dk_seen = []\<rparr>" "[1]"] by simp
  moreover have "taken_snapshot (receive_frame link_parse (BinaryFrame [2]) (link_hear [1] link_begin)) = []"
    unfolding link_heard
    by (simp add: link_begin_eq session_init_def taken_snapshot_def receive_frame_def link_decode)
  moreover have "ss_receiving (link_hear [1] link_begin)" "ss_pumping (link_hear [1] link_begin)"
    unfolding link_heard by (simp_all add: link_begin_eq)
  ultimately show ?thesis
    using link_reach_hear [of "\<lparr>dk_session = link_hear [1] link_begin, dk_sends = [], dk_seen = [demo_tick]\<rparr>" "[2]"]
    by (simp add: link_active_def)
qed

lemma link_reach_sent: "session_reach link_ser link_parse link_digest
    \<lparr>dk_session = link_sent, dk_sends = [(link_sending, Charged)], dk_seen = [demo_tick]\<rparr>"
  using reach_begun [OF link_reach_active, of link_message "''accept''" "''r-1''" link_sending link_sent] link_send_begin
  by simp

lemma link_sent_eq: "link_sent = link_active\<lparr>ss_tracker := \<lparr>pt_sent = [(''r-1'', \<lparr>pr_request_id = ''r-1'',
       pr_fingerprint = ''00ff'', pr_kind = ''accept'', pr_sent_tick = 10\<rparr>)], pt_open = {''r-1''}\<rparr>,
     ss_futures := [(ForCommand ''r-1'', Pending)], ss_command_waiters := [(''r-1'', 0)],
     ss_throttle := \<lparr>th_limit = 4, th_tick = 10, th_sent = 1, th_blocked_until = 0\<rparr>\<rparr>"
  unfolding link_sent_def
  by (simp add: send_begin_def link_active_eq link_begin_eq session_init_def link_message_def build_accept_def
        command_head_def encode_client_message_def link_ser_def link_digest_def body_fingerprint_def
        is_exact_retry_def pending_init_def trading_eligible_def can_send_trading_commands_def TRADING_PHASES_def
        remaining_command_budget_def remaining_def roll_to_def update_limit_def throttle_init_def record_sent_def
        pending_register_def create_future_def present_simps link_sending_def demo_tick_def demo_defs Let_def
        command_inited_def)

text \<open>The same command once transmitted and answered.\<close>

definition link_answered :: session where
  "link_answered = link_hear [3] (link_sent\<lparr>ss_frames := [[8], [7]]\<rparr>)"

lemma link_answered_eq: "link_answered = link_sent\<lparr>ss_frames := [[8], [7]],
    ss_tracker := (ss_tracker link_sent)\<lparr>pt_open := {}\<rparr>, ss_command_waiters := [],
    ss_futures := [(ForCommand ''r-1'', Resolved (OutcomeAnswer
      \<lparr>so_request_id = ''r-1'', so_result = Some link_result, so_error = None\<rparr>))]\<rparr>"
  by (simp add: link_answered_def link_hear_def link_sent_eq link_active_eq link_begin_eq session_init_def
      receive_frame_def link_decode consume_event_def session_on_result_def link_result_def pending_resolve_def
      follow_directive_def settle_future_def future_done_def)

lemma link_reach_answered: "session_reach link_ser link_parse link_digest
    \<lparr>dk_session = link_answered, dk_sends = [(link_sending, Transmitted)], dk_seen = [demo_tick]\<rparr>"
proof -
  let ?out = "link_sent\<lparr>ss_frames := [[8], [7]]\<rparr>"
  have "send_transmit True link_sending link_sent = (Inr [7], ?out)"
    by (simp add: send_transmit_def send_payload_def link_sent_eq link_active_eq link_begin_eq link_sending_def)
  with reach_transmit [OF link_reach_sent, of 0 link_sending True "Inr [7]" ?out]
  have out: "session_reach link_ser link_parse link_digest
      \<lparr>dk_session = ?out, dk_sends = [(link_sending, Transmitted)], dk_seen = [demo_tick]\<rparr>" by simp
  have "taken_snapshot (receive_frame link_parse (BinaryFrame [3]) ?out) = []"
    by (simp add: link_sent_eq link_active_eq link_begin_eq session_init_def taken_snapshot_def receive_frame_def link_decode)
  moreover have "ss_receiving ?out" "ss_pumping ?out" by (simp_all add: link_sent_eq link_active_eq link_begin_eq)
  ultimately show ?thesis using link_reach_hear [OF out, of "[3]"] by (simp add: link_answered_def)
qed

lemma link_retry: "\<exists>c ss. send_begin link_ser link_digest link_message ''accept'' ''r-1'' link_answered = (Inr c, ss)
    \<and> sd_request_id c = ''r-1''"
  by (simp add: send_begin_def link_answered_eq link_sent_eq link_active_eq link_begin_eq session_init_def
      link_message_def build_accept_def command_head_def encode_client_message_def link_ser_def link_digest_def
      body_fingerprint_def is_exact_retry_def trading_eligible_def can_send_trading_commands_def TRADING_PHASES_def
      pending_register_def create_future_def present_simps demo_tick_def demo_defs Let_def command_inited_def)

lemma link_over: "\<exists>a ss. send_over link_sending link_answered = (Inr a, ss)"
  by (simp add: send_over_def awaited_def link_answered_eq link_sending_def)

subsection \<open>Properties\<close>

text \<open>
  C18: the view of a session refines the world model. In every reachable session the newest snapshot is
  the one the world model holds after the same snapshots, and the individually retrievable ones are
  exactly the last 128 that raised the sequence, each with the time it was received.
\<close>

theorem session_keeps_newest:
  assumes "session_reach ser parse digest d"
  shows "ss_latest (dk_session d) = wm_snapshot (fold (\<lambda>s w. snd (apply_snapshot s w)) (dk_seen d) world_model_init)
    \<and> ss_by_sequence (dk_session d) = map (\<lambda>s. (snapshot_sequence s, s)) (newest (accepted (dk_seen d)))
    \<and> dict_keys (ss_received_at (dk_session d)) = dict_keys (ss_by_sequence (dk_session d))
    \<and> length (ss_by_sequence (dk_session d)) \<le> 128"
  using session_reach_ok [OF assms] newest_bound [of "accepted (dk_seen d)"]
  by (simp add: desk_ok_def history_ok_def wm_snapshot_accepted comp_def)

theorem session_keeps_newest_witness:
  "ss_latest link_active = wm_snapshot (snd (apply_snapshot demo_tick world_model_init))
   \<and> dict_keys (ss_by_sequence link_active) = [7]"
proof -
  have "dict_keys (ss_by_sequence link_active) = [7]" by (simp add: link_active_eq)
  with session_keeps_newest [OF link_reach_active] show ?thesis by simp
qed

text \<open>
  C10: a command leaves only with clearance. When \<open>send_command\<close> goes on to transmit, the session is
  ready in a RUNNING run that is not over, the station has not failed, the bytes fit the published
  limit, and either it is an exact retry, which is not charged, or the tick had a command slot left
  and has exactly one less now.
\<close>

theorem command_needs_clearance:
  assumes "send_begin ser digest m knd rid ss = (Inr c, ss')"
  shows "\<exists>s. ss_latest ss = Some s \<and> can_send_trading_commands (ss_lifecycle ss) \<and> \<not> failed_once (me s)
    \<and> snap_tick s < duration_ticks (snap_rules s)
    \<and> sd_payload c = ser m \<and> int (length (sd_payload c)) \<le> max_command_bytes (snap_rules s)
    \<and> (if sd_retry c then is_exact_retry rid (body_fingerprint digest (ser m)) (ss_tracker ss) \<and> ss_throttle ss' = ss_throttle ss
       else 0 < fst (remaining (snap_tick s) (ss_throttle ss))
          \<and> fst (remaining (snap_tick s) (ss_throttle ss')) = fst (remaining (snap_tick s) (ss_throttle ss)) - 1)"
proof -
  obtain s :: snapshot and t where b:
      "encode_client_message ser m (Some (max_command_bytes (snap_rules s))) = Inr (sd_payload c)"
      "sd_fingerprint c = body_fingerprint digest (sd_payload c)"
      "sd_retry c = is_exact_retry rid (sd_fingerprint c) (ss_tracker ss)"
      "ss_latest ss = Some s" "trading_eligible ss s"
      "\<not> sd_retry c \<longrightarrow> 0 < fst (remaining (snap_tick s) (ss_throttle ss))"
      "ss_throttle ss' = (if sd_retry c then ss_throttle ss
         else record_sent (snap_tick s) 1 (snd (remaining (snap_tick s) (ss_throttle ss))))"
    by (rule send_begin_Inr [OF assms]) (rule that, (assumption | simp)+)
  have "fst (remaining tick (record_sent tick 1 (snd (remaining tick th)))) = fst (remaining tick th) - 1"
    if "0 < fst (remaining tick th)" for tick th
    using that by (auto simp: remaining_def record_sent_def roll_to_def Let_def split: if_splits)
  moreover have "sd_payload c = ser m \<and> int (length (ser m)) \<le> max_command_bytes (snap_rules s)"
    using b(1) by (auto simp: encode_client_message_def Let_def split: if_splits)
  ultimately show ?thesis using b by (auto simp: trading_eligible_def)
qed

theorem command_needs_clearance_witness:
  "can_send_trading_commands (ss_lifecycle link_active)
   \<and> fst (remaining 10 (ss_throttle link_sent)) = fst (remaining 10 (ss_throttle link_active)) - 1"
  using command_needs_clearance [OF link_send_begin]
  by (simp add: link_active_eq link_sending_def demo_tick_def demo_defs)

text \<open>
  a request id stands for one command. In every reachable session two commands sent under the
  same id have the same fingerprint, and a command is an exact retry, free of charge, exactly when
  its id was used before.
\<close>

theorem retries_repeat:
  assumes "session_reach ser parse digest d" and "i < length (dk_sends d)"
  shows "(sd_retry (fst (dk_sends d ! i)) \<longleftrightarrow>
      (\<exists>j<i. sd_request_id (fst (dk_sends d ! j)) = sd_request_id (fst (dk_sends d ! i))))
    \<and> (\<forall>j<length (dk_sends d). sd_request_id (fst (dk_sends d ! j)) = sd_request_id (fst (dk_sends d ! i)) \<longrightarrow>
         body_fingerprint digest (sd_payload (fst (dk_sends d ! j)))
           = body_fingerprint digest (sd_payload (fst (dk_sends d ! i))))"
proof -
  let ?cs = "map fst (dk_sends d)"
  have ok: "begun_ok digest ?cs (dk_session d)" using session_reach_ok [OF assms(1)] by (simp add: desk_ok_def)
  then have "sd_retry (?cs ! i) \<longleftrightarrow> sd_request_id (?cs ! i) \<in> sd_request_id ` set (take i ?cs)"
    using assms(2) by (simp add: begun_ok_def retry_marks_def)
  also have "\<dots> \<longleftrightarrow> (\<exists>j<i. sd_request_id (?cs ! j) = sd_request_id (?cs ! i))"
    using assms(2) by (auto simp: set_conv_nth image_iff)
  finally have "sd_retry (?cs ! i) \<longleftrightarrow> (\<exists>j<i. sd_request_id (?cs ! j) = sd_request_id (?cs ! i))" .
  moreover have "body_fingerprint digest (sd_payload a) = body_fingerprint digest (sd_payload b)"
    if "a \<in> set ?cs" "b \<in> set ?cs" "sd_request_id a = sd_request_id b" for a b
  proof -
    have "\<exists>p. dict_get (sent (dk_session d)) (sd_request_id c) = Some p \<and> pr_fingerprint p = sd_fingerprint c"
      "sd_fingerprint c = body_fingerprint digest (sd_payload c)" if "c \<in> set ?cs" for c
      using ok that unfolding begun_ok_def by blast+
    from this [OF that(1)] this [OF that(2)] that(3) show ?thesis by auto
  qed
  ultimately show ?thesis using assms(2) by (auto simp: nth_map)
qed

theorem retries_repeat_witness:
  "\<exists>c ss. send_begin link_ser link_digest link_message ''accept'' ''r-1'' link_answered = (Inr c, ss) \<and> sd_retry c"
proof -
  obtain c ss where c: "send_begin link_ser link_digest link_message ''accept'' ''r-1'' link_answered = (Inr c, ss)"
    and rid: "sd_request_id c = ''r-1''"
    using link_retry by blast
  from reach_begun [OF link_reach_answered, of link_message "''accept''" "''r-1''" c ss] c
  have "session_reach link_ser link_parse link_digest
      \<lparr>dk_session = ss, dk_sends = [(link_sending, Transmitted), (c, Charged)], dk_seen = [demo_tick]\<rparr>" by simp
  from retries_repeat [OF this, of 1] have "sd_retry c" using rid by (simp add: link_sending_def)
  with c show ?thesis by blast
qed

text \<open>
  C11: every caller gets the answer to its own command. When \<open>send_command\<close> returns in a reachable
  session, it returns a result or a protocol error that names the request id it was called with.
\<close>

theorem answers_match_requests:
  assumes "session_reach ser parse digest d" and "(c, Transmitted) \<in> set (dk_sends d)"
    and "send_over c (dk_session d) = (Inr a, ss)"
  shows "\<exists>x. a = OutcomeAnswer x \<and> so_request_id x = sd_request_id c
    \<and> ((\<exists>r. so_result x = Some r \<and> so_error x = None \<and> request_id r = sd_request_id c)
       \<or> (\<exists>ev. so_result x = None \<and> so_error x = Some ev \<and> err_request_id ev = Some (sd_request_id c)))"
proof -
  let ?fs = "ss_futures (dk_session d)"
  have ok: "begun_ok digest (map fst (dk_sends d)) (dk_session d)" "list_all holds ?fs"
    using session_reach_ok [OF assms(1)] by (simp_all add: desk_ok_def futures_ok_def)
  have "c \<in> set (map fst (dk_sends d))" using assms(2) by force
  with ok(1) have "asked (purposes (dk_session d)) (sd_future c) (ForCommand (sd_request_id c))"
    unfolding begun_ok_def by blast
  then have n: "sd_future c < length ?fs" "fst (?fs ! sd_future c) = ForCommand (sd_request_id c)"
    using asked_nth by blast+
  from assms(3) have "snd (?fs ! sd_future c) = Resolved a"
    by (auto simp: send_over_def awaited_def split: prod.splits future.splits)
  with n have "?fs ! sd_future c = (ForCommand (sd_request_id c), Resolved a)" by (simp add: prod_eq_iff)
  moreover have "holds (?fs ! sd_future c)" using ok(2) n(1) by (simp add: list_all_length)
  ultimately show ?thesis by (auto simp: outcome_of_def)
qed

theorem answers_match_requests_witness:
  "\<exists>x ss. send_over link_sending link_answered = (Inr (OutcomeAnswer x), ss) \<and> so_request_id x = ''r-1''"
proof -
  obtain a ss where a: "send_over link_sending link_answered = (Inr a, ss)"
    using link_over by blast
  from answers_match_requests [OF link_reach_answered, of link_sending a ss] a
  show ?thesis by (auto simp: link_sending_def)
qed

text \<open>
  C12: the end of a connection. In a reachable session whose receive loop has posted its end and whose pump
  runs, whatever becomes of the writes, the pump ends after at most one turn per queued item. On a connection
  that has declared its readiness every future registered by then is done: answered, or failed with an
  error. Before that the same holds unless the write of the readiness declaration itself failed.
\<close>

theorem closed_connection_releases_waiters:
  assumes "session_reach ser parse digest d" and "ss_pumping (dk_session d)"
    and "ClosedSentinel \<in> set (ss_queue (dk_session d))" and "length (ss_queue (dk_session d)) \<le> length ts"
  shows "\<not> ss_pumping (drain ser ts (dk_session d))
    \<and> (lc_state (ss_lifecycle (dk_session d)) \<noteq> AWAITING_FIRST_STATE \<or> \<not> lost_declaration ser ts (dk_session d) \<longrightarrow>
        (\<forall>n. held (dk_session d) n \<longrightarrow> future_done (drain ser ts (dk_session d)) n))"
proof -
  have ok: "dict_ok (ss_command_waiters (dk_session d))"
    using session_reach_ok [OF assms(1)] by (simp add: desk_ok_def)
  note released = drain_releases [OF session_reach_ready [OF assms(1)] ok assms(3,4,2), of ser]
  from drain_ends [OF assms(3,4), of ser] released declared_once [of "dk_session d" ser ts] show ?thesis by blast
qed

theorem closed_connection_releases_waiters_witness:
  "future_done (drain link_ser [(False, 6, ''0''), (False, 7, ''1'')] (receive_end link_sent)) 0"
proof -
  have "session_reach link_ser link_parse link_digest
      \<lparr>dk_session = receive_end link_sent, dk_sends = [(link_sending, Charged)], dk_seen = [demo_tick]\<rparr>"
    using reach_end [OF link_reach_sent] by (simp add: link_sent_eq link_active_eq link_begin_eq)
  from closed_connection_releases_waiters [OF this, of "[(False, 6, ''0''), (False, 7, ''1'')]"] show ?thesis
    by (simp add: receive_end_def link_sent_eq link_active_eq link_begin_eq session_init_def held_def waiting_def
        demo_active_def)
qed

subsection \<open>Where the code falls short\<close>

text \<open>
  The \<open>finally\<close> of \<open>send_command\<close> removes whatever is registered under its id. When an exact retry
  was begun between the answer and this clean-up, the retry's waiter is removed and its own answer
  finds nobody.
\<close>

lemma late_cleanup_drops_retry:
  "let retried = snd (send_begin link_ser link_digest link_message ''accept'' ''r-1'' link_answered);
       cleaned = snd (send_over link_sending retried)
   in ss_command_waiters retried = [(''r-1'', 1)]
      \<and> snd (ss_futures (session_on_result link_result cleaned) ! 1) = Pending"
  by (simp add: send_begin_def link_answered_eq link_sent_eq link_active_eq link_begin_eq session_init_def
      link_message_def build_accept_def command_head_def encode_client_message_def link_ser_def link_digest_def
      body_fingerprint_def is_exact_retry_def trading_eligible_def can_send_trading_commands_def TRADING_PHASES_def
      pending_register_def create_future_def present_simps demo_tick_def demo_defs Let_def command_inited_def
      send_over_def awaited_def link_sending_def session_on_result_def link_result_def pending_resolve_def)

text \<open>
  An exception of \<open>_apply\<close> ends the pump task without failing the waiters: when the socket is already
  dead while readiness is declared, a caller waiting for readiness is left to its timeout.
\<close>

lemma failed_declaration_strands_waiters:
  "let waiting = snd (wait_for_readiness link_begin);
       after = consume_event link_ser False 5 ''0123456789abcdef'' (receive_frame link_parse (BinaryFrame [1]) waiting)
   in \<not> ss_pumping after \<and> ss_readiness_waiter after = Some 0 \<and> snd (ss_futures after ! 0) = Pending"
  by (simp add: wait_for_readiness_def create_future_def link_begin_eq session_init_def receive_frame_def link_decode
      consume_event_def on_connected_def lifecycle_init_def on_snapshot_def session_on_snapshot_def store_snapshot_def
      trim_history_def SNAPSHOT_HISTORY_def follow_directive_def build_ready_def send_message_def send_payload_def
      encode_client_message_def link_ser_def u64_def present_simps demo_tick_def demo_defs Let_def)

text \<open>
  \<open>start\<close> clears the retrievable snapshots because sequences restart at 1, but not the newest one: on
  a second connection of the same session every snapshot up to the old sequence is ignored as stale.
\<close>

lemma restart_ignores_snapshots:
  "let restarted = snd (session_start None link_active)
   in session_on_snapshot now uuid (demo_tick\<lparr>snapshot_sequence := 1\<rparr>) restarted = restarted"
  by (simp add: session_start_def session_on_snapshot_def link_active_eq link_begin_eq session_init_def
      demo_tick_def demo_defs)

end
