(* ===== verification/Executor_Safety.thy ===== *)
theory Executor_Safety
  imports Executor Session_Safety
begin

text \<open>
  What one call of the executor promises, on the concrete session of \<open>Session_Safety\<close>: an offer that is
  sent and never answered keeps its stock held after the timeout.
\<close>

subsection \<open>A call that times out\<close>

definition deal :: action where
  "deal = OfferAction ''P02'' (Bundle 4 0 0) (Bundle 0 3 0) 14"

definition deal_start :: trader where
  "deal_start = executor_new link_active evidence_init memory_init latency_init"

definition deal_sending :: sending where
  "deal_sending = \<lparr>sd_request_id = ''r-1'', sd_payload = [8], sd_fingerprint = ''00ff'', sd_retry = False, sd_future = 0\<rparr>"

lemma deal_message: "\<exists>m. build_action deal ''run-1'' ''r-1'' = Inr m \<and> encode_client_message link_ser m (Some 16384) = Inr [8]"
  by (simp add: deal_def build_offer_def u64_def bundle_to_pb_def encode_client_message_def link_ser_def
      command_head_def command_inited_def zero_bundle_def offer_body_inited_def bundle_inited_def)

lemma deal_prepare: "\<exists>m tr. execute_prepare ''09:00'' ''tick-10'' deal ''r-1'' (Some ''d1'') deal_start = (Inr (0, m), tr)
    \<and> encode_client_message link_ser m (Some 16384) = Inr [8] \<and> tr_session tr = link_active"
proof -
  have "lc_run_id (ss_lifecycle link_active) = Some ''run-1''" by (simp add: link_active_eq)
  then show ?thesis using deal_message
    by (auto simp: execute_prepare_def start_record_def evidence_start_def deal_start_def executor_new_def
        evidence_init_def session_run_id_def on_record_def deal_def hold_stock_def)
qed

lemma deal_send:
  assumes "encode_client_message link_ser m (Some 16384) = Inr [8]"
  shows "\<exists>ss. send_begin link_ser link_digest m ''offer'' ''r-1'' link_active = (Inr deal_sending, ss)
    \<and> ss_connected ss \<and> ss_futures ss = [(ForCommand ''r-1'', Pending)]"
  using assms
  by (simp add: send_begin_def link_active_eq link_begin_eq session_init_def link_digest_def body_fingerprint_def
      is_exact_retry_def pending_init_def trading_eligible_def can_send_trading_commands_def TRADING_PHASES_def
      remaining_command_budget_def remaining_def roll_to_def update_limit_def throttle_init_def
      pending_register_def create_future_def deal_sending_def demo_tick_def demo_defs Let_def)

lemma deal_run: "\<exists>tr. execution link_ser link_digest deal ''r-1'' (Some ''d1'') deal_start (Gave_up TimeoutError None) tr"
proof -
  obtain m tr where p: "execute_prepare ''09:00'' ''tick-10'' deal ''r-1'' (Some ''d1'') deal_start = (Inr (0, m), tr)"
    "encode_client_message link_ser m (Some 16384) = Inr [8]" "tr_session tr = link_active"
    using deal_prepare by blast
  obtain ss where ss: "send_begin link_ser link_digest m ''offer'' ''r-1'' link_active = (Inr deal_sending, ss)"
      "ss_connected ss" "ss_futures ss = [(ForCommand ''r-1'', Pending)]"
    using deal_send [OF p(2)] by blast
  have "execute_begin link_ser link_digest ''09:00'' ''tick-10'' deal ''r-1'' (Some ''d1'') deal_start
      = (Charged_at 0 deal_sending, tr\<lparr>tr_session := ss\<rparr>)"
    using p ss by (simp add: execute_begin_def deal_def)
  from ex_begin [OF this]
  have 1: "execution link_ser link_digest deal ''r-1'' (Some ''d1'') deal_start (Charged_at 0 deal_sending) (tr\<lparr>tr_session := ss\<rparr>)" .
  let ?ss = "ss\<lparr>ss_frames := ss_frames ss @ [[8]]\<rparr>"
  have "execute_transmit True 0 deal_sending (tr\<lparr>tr_session := ss\<rparr>) = (Awaiting 0 deal_sending, tr\<lparr>tr_session := ?ss\<rparr>)"
    using ss by (simp add: execute_transmit_def send_transmit_def send_payload_def deal_sending_def)
  note 2 = ex_transmit [OF 1 this]
  obtain tr' where "execute_receive 0 0 deal_sending (tr\<lparr>tr_session := ?ss\<rparr>) = (Gave_up TimeoutError None, tr')"
    using ss by (simp add: execute_receive_def send_over_def awaited_def deal_sending_def Let_def split: prod.splits)
  from ex_receive [OF 2 this] show ?thesis by blast
qed

subsection \<open>What a call promises\<close>

text \<open>C4: While an offer of ours may stand at the server (sent or about to be, neither rejected nor
  confirmed by a snapshot, not refused locally), its stock is held in flight and is not available to
  any other decision; afterwards the hold is gone. Holds of other requests are never touched.\<close>

theorem offers_held_until_confirmed:
  assumes "execution ser digest (OfferAction recipient g w expires) rid did tr0 st tr"
    and "rid \<notin> set (dict_keys (inflight (tr_commitments tr0)))"
  shows "inflight (tr_commitments tr) = inflight (tr_commitments tr0) @ (if may_stand st then [(rid, g)] else [])
    \<and> available_to_commit (tr_commitments tr) s
        = available_to_commit (tr_commitments tr0) s - (if may_stand st then g else zero_bundle)"
proof -
  from execution_invariant [OF assms]
  have i: "inflight (tr_commitments tr) = inflight (tr_commitments tr0) @ (if may_stand st then [(rid, g)] else [])"
    by (auto simp: execution_ok_def tracked_def holds_of_def)
  show ?thesis
    by (simp add: i) (auto simp: available_alt promised_def inflight_total_sum i diff_diff_eq ac_simps bundle_folds)
qed

theorem offers_held_until_confirmed_witness:
  "\<exists>tr. execution link_ser link_digest deal ''r-1'' (Some ''d1'') deal_start (Gave_up TimeoutError None) tr
     \<and> inflight (tr_commitments tr) = [(''r-1'', Bundle 4 0 0)]
     \<and> get (available_to_commit (tr_commitments tr) demo_tick) WATER = 56"
proof -
  obtain tr where run: "execution link_ser link_digest deal ''r-1'' (Some ''d1'') deal_start (Gave_up TimeoutError None) tr"
    using deal_run by blast
  have start: "inflight (tr_commitments deal_start) = []"
    by (simp add: deal_start_def executor_new_def tracker_init_def)
  have avail: "available_to_commit (tr_commitments deal_start) demo_tick = Bundle 60 8 18"
    by (simp add: deal_start_def executor_new_def demo_tick_def demo_defs) code_simp
  show ?thesis using offers_held_until_confirmed [OF run [unfolded deal_def], of demo_tick] run start avail
    by (auto simp: bundle_folds)
qed


text \<open>C39: Every command that reached the session is logged exactly once, when its call is over: one
  line that names its request id, action and decision, and carries the code of the answer if one came.\<close>

theorem commands_are_logged_once:
  assumes "execution ser digest a rid did tr0 st tr"
    and "rid \<notin> set (dict_keys (inflight (tr_commitments tr0)))"
  shows "\<exists>er. ev_lines (tr_evidence tr) = ev_lines (tr_evidence tr0) @ (if over st then [CommandLine er] else [])
     \<and> ev_records (tr_evidence tr) = ev_records (tr_evidence tr0) @ [er]
     \<and> record_for a rid did er \<and> says er (answer_of st)"
  using execution_invariant [OF assms] by (auto simp: execution_ok_def tracked_def)

theorem commands_are_logged_once_witness:
  "\<exists>tr er. execution link_ser link_digest deal ''r-1'' (Some ''d1'') deal_start (Gave_up TimeoutError None) tr
     \<and> ev_lines (tr_evidence tr) = [CommandLine er] \<and> er_request_id er = Some ''r-1'' \<and> er_result_ok er = None"
proof -
  obtain tr where run: "execution link_ser link_digest deal ''r-1'' (Some ''d1'') deal_start (Gave_up TimeoutError None) tr"
    using deal_run by blast
  from commands_are_logged_once [OF run] run show ?thesis
    by (auto simp: deal_start_def executor_new_def tracker_init_def evidence_init_def record_for_def says_def)
qed

end
