(* ===== verification/Decide_Safety.thy ===== *)
theory Decide_Safety
  imports Decide Demo
begin

text \<open>
  What a batch of chosen actions may do. \<open>batch_ok\<close> is the invariant every step of
  \<open>decide\<close> keeps: what the actions spend and what is still available make up the balance the
  decision started from, the budget is charged one per action, every action is allowed, and no
  offer or gift dips into the protected reserve. Each step is shown to return (no exception
  escapes) and to keep it.
\<close>

definition snapshot_ok :: "snapshot \<Rightarrow> bool" where
  "snapshot_ok s \<longleftrightarrow> distinct (map offer_id (offers s)) \<and> (\<forall>o' \<in> set (offers s). proposer_id o' \<noteq> recipient_id o')"

text \<open>What an action takes out of our stock, and the part of it that is an offer's give side.\<close>

fun spend :: "snapshot \<Rightarrow> action \<Rightarrow> Bundle" where
  "spend s (OfferAction _ g _ _) = g"
| "spend s (AcceptAction oid) = (case find (\<lambda>o'. offer_id o' = oid) (incoming_open_offers s) of
     None \<Rightarrow> 0 | Some o' \<Rightarrow> receive o')"
| "spend s _ = 0"

fun offered_by :: "action \<Rightarrow> Bundle" where
  "offered_by (OfferAction _ g _ _) = g"
| "offered_by _ = 0"

definition spent :: "snapshot \<Rightarrow> action list \<Rightarrow> Bundle" where
  "spent s acts = sum_list (map (spend s) acts)"

definition offered :: "action list \<Rightarrow> Bundle" where
  "offered acts = sum_list (map offered_by acts)"

fun action_ok :: "snapshot \<Rightarrow> counterparty_model \<Rightarrow> action \<Rightarrow> bool" where
  "action_ok s model (AdvertiseAction _ _ e) \<longleftrightarrow>
     snap_tick s < e \<and> e \<le> snap_tick s + max_publication_ttl_ticks (snap_rules s) \<and> e \<le> duration_ticks (snap_rules s)"
| "action_ok s model (OfferAction sid g w e) \<longleftrightarrow>
     snap_tick s < e \<and> e \<le> snap_tick s + max_offer_ttl_ticks (snap_rules s) \<and> e \<le> duration_ticks (snap_rules s)
     \<and> (\<exists>st \<in> set (stations_of model). cp_station_id st = sid)
     \<and> g \<noteq> 0 \<and> (\<forall>r. get g r = 0 \<or> get w r = 0) \<and> (w = 0 \<or> total g \<le> 8 * total w)"
| "action_ok s model (AcceptAction oid) \<longleftrightarrow> (\<exists>o' \<in> set (incoming_open_offers s). offer_id o' = oid)"
| "action_ok s model (WithdrawAction oid) \<longleftrightarrow>
     (\<exists>o' \<in> set (outgoing_open_offers s). offer_id o' = oid)
     \<or> (\<exists>ad. own_advertisement s = Some ad \<and> advertisement_id ad = oid)"
| "action_ok s model SyncAction \<longleftrightarrow> False"

definition batch_ok ::
  "snapshot \<Rightarrow> counterparty_model \<Rightarrow> Bundle \<Rightarrow> Bundle \<Rightarrow> int \<Rightarrow> decision \<Rightarrow> Bundle \<Rightarrow> int \<Rightarrow> bool" where
  "batch_ok s model A rs B d av b \<longleftrightarrow>
     d_reserve d = rs \<and> d_available d = A \<and> d_urgency d \<noteq> None \<and> spent s (d_actions d) + av = A
     \<and> int (length (d_actions d)) + max 0 b = max 0 B
     \<and> list_all (action_ok s model) (d_actions d)
     \<and> (\<forall>r. 0 < get (offered (d_actions d)) r \<longrightarrow> get rs r + get (offered (d_actions d)) r \<le> get A r)"

lemma d_add_fields [simp]:
  "d_actions (d_add a why d) = d_actions d @ [a]" "d_reserve (d_add a why d) = d_reserve d"
  "d_actions (d_explain why d) = d_actions d" "d_reserve (d_explain why d) = d_reserve d"
  "d_available (d_add a why d) = d_available d" "d_available (d_explain why d) = d_available d"
  "d_urgency (d_add a why d) = d_urgency d" "d_urgency (d_explain why d) = d_urgency d"
  by (simp_all add: d_add_def d_explain_def)

lemma spent_simps [simp]:
  "spent s [] = 0" "spent s (acts @ [a]) = spent s acts + spend s a"
  "offered [] = 0" "offered (acts @ [a]) = offered acts + offered_by a"
  by (simp_all add: spent_def offered_def)

lemma offered_by_le: "offered_by a \<le> spend s a"
  by (cases a) (simp_all add: bundle_le_iff)

lemma offered_le_spent: "offered acts \<le> spent s acts"
  unfolding offered_def spent_def by (rule sum_list_mono) (rule offered_by_le)

subsection \<open>One more action\<close>

lemma batch_other:
  assumes "batch_ok s model A rs B d av b" and "0 < b"
    and "spend s a = 0" and "action_ok s model a"
  shows "batch_ok s model A rs B (d_add a why d) av (b - 1)"
proof -
  have "offered_by a = 0" using offered_by_le [of a s] assms(3) by (simp add: bundle_le_iff bundle_eq_iff)
  with assms show ?thesis by (auto simp: batch_ok_def)
qed

lemma find_offer:
  assumes "snapshot_ok s" and "o' \<in> set (incoming_open_offers s)"
  shows "find (\<lambda>x. offer_id x = offer_id o') (incoming_open_offers s) = Some o'"
proof -
  have "distinct (map offer_id (incoming_open_offers s))"
    using assms(1) by (simp add: snapshot_ok_def incoming_open_offers_def distinct_map_filter)
  with assms(2) show ?thesis
    by (induction "incoming_open_offers s" rule: rev_induct)
       (auto simp: find_Some_iff in_set_conv_nth distinct_conv_nth)
qed

lemma incoming_pays:
  assumes "snapshot_ok s" and "o' \<in> set (incoming_open_offers s)"
  shows "what_station_pays o' (self_station_id s) = Inr (receive o')"
    and "what_station_receives o' (self_station_id s) = Inr (give o')"
  using assms incoming_open_offersD [OF assms(2)]
  by (auto simp: snapshot_ok_def what_station_pays_def what_station_receives_def)

lemma batch_accept:
  assumes "batch_ok s model A rs B d av b" and "0 < b" and "snapshot_ok s"
    and "o' \<in> set (incoming_open_offers s)" and "receive o' \<le> av"
  shows "batch_ok s model A rs B (d_add (AcceptAction (offer_id o')) why d) (av - receive o') (b - 1)"
proof -
  have "spent s (d_actions d) + receive o' + (av - receive o') = spent s (d_actions d) + av"
    using assms(5) by (simp add: add.assoc bundle_eq_iff bundle_le_iff)
  with assms show ?thesis by (auto simp: batch_ok_def find_offer)
qed

lemma batch_offer:
  assumes "batch_ok s model A rs B d av b" and "0 < b"
    and "action_ok s model (OfferAction sid g w e)"
    and "g \<le> av" and keep: "\<And>r. 0 < get g r \<Longrightarrow> get rs r + get g r \<le> get av r"
  shows "batch_ok s model A rs B (d_add (OfferAction sid g w e) why d) (av - g) (b - 1)"
proof -
  have bal: "spent s (d_actions d) + g + (av - g) = A"
    using assms(1,4) by (simp add: batch_ok_def add.assoc bundle_eq_iff bundle_le_iff)
  have "get rs r + get (offered (d_actions d) + g) r \<le> get A r"
    if "0 < get (offered (d_actions d) + g) r" for r
  proof (cases "get g r = 0")
    case True
    with that assms(1) show ?thesis by (auto simp: batch_ok_def)
  next
    case False
    have "get (offered (d_actions d)) r \<le> get (spent s (d_actions d)) r"
      using offered_le_spent by (rule get_mono)
    moreover have "get (spent s (d_actions d) + av) r = get A r"
      using assms(1) by (simp add: batch_ok_def)
    ultimately show ?thesis using keep [of r] False by simp
  qed
  with assms bal show ?thesis by (auto simp: batch_ok_def)
qed

subsection \<open>The steps\<close>

lemma accept_loop_ok:
  assumes "snapshot_ok s" and "set os \<subseteq> set (incoming_open_offers s)"
    and "batch_ok s model A rs B (as_decision st) (as_running st) (as_budget st)"
  shows "\<exists>st'. accept_loop s rs left hold os st = Inr st'
    \<and> batch_ok s model A rs B (as_decision st') (as_running st') (as_budget st')
    \<and> set (as_deferred st') \<subseteq> set (as_deferred st) \<union> set os"
  using assms(2,3)
proof (induction os arbitrary: st)
  case Nil
  then show ?case by simp
next
  case (Cons o' os)
  then have inc: "o' \<in> set (incoming_open_offers s)" and os: "set os \<subseteq> set (incoming_open_offers s)"
    by auto
  note pays = incoming_pays [OF assms(1) inc]
  let ?limit = "production_payment_limit (saturating_sub (as_running st) (receive o')) (me s) left"
  obtain v where v: "evaluate_incoming o' (self_station_id s) (as_running st) rs (as_urgency st)
      (Some (specialty (me s))) ?limit (in_end_game left) = Inr v"
    using evaluate_incoming_total [OF pays(1)] by blast
  define Q where "Q = (\<lambda>res :: accept_state result. \<exists>st'. res = Inr st'
      \<and> batch_ok s model A rs B (as_decision st') (as_running st') (as_budget st')
      \<and> set (as_deferred st') \<subseteq> set (as_deferred st) \<union> set (o' # os))"
  have skip: "Q (accept_loop s rs left hold os st1)"
    if "batch_ok s model A rs B (as_decision st1) (as_running st1) (as_budget st1)"
      and "set (as_deferred st1) \<subseteq> insert o' (set (as_deferred st))" for st1
    using Cons.IH [OF os that(1)] that(2) unfolding Q_def by fastforce
  have take_it: "batch_ok s model A rs B (d_add (AcceptAction (offer_id o')) why (as_decision st))
      (saturating_sub (as_running st) (receive o')) (as_budget st - 1)"
    if "accept v" "0 < as_budget st" for why
  proof (cases "receive o' = 0")
    case True
    with batch_accept [OF Cons.prems(2) that(2) assms(1) inc] show ?thesis
      by (simp add: bundle_folds)
  next
    case False
    with accept_affordable [OF v that(1) pays] batch_accept [OF Cons.prems(2) that(2) assms(1) inc]
    show ?thesis by (simp add: bundle_folds)
  qed
  have take_free: "batch_ok s model A rs B (d_add (AcceptAction (offer_id o')) why (as_decision st))
      (saturating_sub (as_running st) 0) (as_budget st - 1)"
    if "receive o' = 0" "accept v" "0 < as_budget st" for why
    using take_it [OF that(2,3)] that(1) by simp
  have stop: "Q (Inr st)"
    using Cons.prems(2) by (auto simp: Q_def)
  have "Q (accept_loop s rs left hold (o' # os) st)"
    using Cons.prems(2)
    by (auto simp: pays v Let_def not_le split del: option.split intro!: skip take_it take_free stop)
  then show ?case by (simp only: Q_def)
qed

lemma accept_incoming_ok:
  assumes "snapshot_ok s" and "set os \<subseteq> set (incoming_open_offers s)" and "batch_ok s model A rs B d av b"
  shows "\<exists>d' b' av' deferred. accept_incoming d s os av rs u b left hold = Inr (d', b', av', deferred)
    \<and> batch_ok s model A rs B d' av' b' \<and> set deferred \<subseteq> set os"
  using accept_loop_ok [OF assms(1,2), of model A rs B
      "\<lparr>as_decision = d, as_budget = b, as_running = av, as_urgency = u, as_deferred = []\<rparr>" left hold] assms(3)
  by (auto simp: accept_incoming_def)

lemma withdraw_loop_ok:
  assumes "set os \<subseteq> set (outgoing_open_offers s)" and "batch_ok s model A rs B d av b"
  shows "batch_ok s model A rs B (fst (withdraw_loop s av' left os (d, b))) av
           (snd (withdraw_loop s av' left os (d, b)))"
  using assms
proof (induction os arbitrary: d b)
  case (Cons o' os)
  have *: "batch_ok s model A rs B (d_add (WithdrawAction (offer_id o')) why d) av (b - 1)"
    if "\<not> b \<le> 0" for why
    using Cons.prems that by (intro batch_other) auto
  have sub: "set os \<subseteq> set (outgoing_open_offers s)" using Cons.prems by simp
  show ?case
    by (simp add: Let_def Cons.prems(2) Cons.IH [OF sub] * split del: option.split)
qed simp

lemma withdraw_dangerous_ok:
  assumes "batch_ok s model A rs B d av b" and "withdraw_dangerous d s av' b left = (d', b')"
  shows "batch_ok s model A rs B d' av b'"
  using withdraw_loop_ok [OF subset_refl assms(1), where av' = av' and left = left] assms(2)
  by (simp add: withdraw_dangerous_def)

lemma offer_ttl_ok:
  "0 < offer_ttl s \<Longrightarrow> snap_tick s < snap_tick s + offer_ttl s
     \<and> snap_tick s + offer_ttl s \<le> snap_tick s + max_offer_ttl_ticks (snap_rules s)
     \<and> snap_tick s + offer_ttl s \<le> duration_ticks (snap_rules s)"
  by (simp add: offer_ttl_def OFFER_TTL_def min_def)

lemma stations_of_record_gift [simp]: "counterparties (record_gift sid r t m) = counterparties m"
  by (simp add: record_gift_def)

lemma give_loop_ok:
  assumes "distinct qs" and "\<And>r. r \<in> set qs \<Longrightarrow> get excess r \<le> get (gs_available g) r"
    and "\<And>r. r \<in> set qs \<Longrightarrow> 0 < get excess r \<Longrightarrow> get rs r + get excess r \<le> get (gs_available g) r"
    and "batch_ok s (counterparties (gs_memory g)) A rs B (gs_decision g) (gs_available g) (gs_budget g)"
  shows "\<exists>g'. give_loop s excess qs g = Inr g'
    \<and> counterparties (gs_memory g') = counterparties (gs_memory g)
    \<and> batch_ok s (counterparties (gs_memory g)) A rs B (gs_decision g') (gs_available g') (gs_budget g')"
  using assms
proof (induction qs arbitrary: g)
  case (Cons r qs)
  show ?case
  proof (cases "gs_budget g \<le> 0 \<or> gs_room g \<le> 0 \<or> offer_ttl s \<le> 0 \<or> get excess r \<le> 0")
    case True
    with Cons.prems show ?thesis by auto
  next
    case go: False
    show ?thesis
    proof (cases "pick_gift_recipient (counterparties (gs_memory g)) r (snap_tick s) (gs_memory g)")
      case None
      with go Cons.IH [of g] Cons.prems show ?thesis by auto
    next
      case (Some sid)
      let ?q = "min (qty excess r) MAX_EXCESS_GIFT"
      obtain gift where gift: "single r ?q = Inr gift"
        using single_nonneg [of ?q r] by (auto simp: altruism_consts)
      from get_single [OF gift] go have g1: "\<And>q. get gift q = (if q = r then nat ?q else 0)" and q1: "1 \<le> ?q"
        by (auto simp: altruism_consts)
      have nz: "gift \<noteq> 0" using g1 [of r] q1 by auto
      from pick_gift_recipientD(1) [OF Some] go nz
      have aok: "action_ok s (counterparties (gs_memory g))
          (OfferAction sid gift zero_bundle (snap_tick s + offer_ttl s))"
        using offer_ttl_ok [of s] by (auto simp: bundle_folds)
      have le: "gift \<le> gs_available g"
        using Cons.prems(2) [of r] g1 by (auto simp: bundle_le_iff)
      have keep: "get rs x + get gift x \<le> get (gs_available g) x" if "0 < get gift x" for x
        using that g1 Cons.prems(3) [of r] go by (auto split: if_splits)
      let ?g = "\<lambda>why. g\<lparr>gs_decision := d_add (OfferAction sid gift zero_bundle (snap_tick s + offer_ttl s)) why (gs_decision g),
          gs_memory := record_gift sid r (snap_tick s) (gs_memory g),
          gs_available := saturating_sub (gs_available g) gift,
          gs_budget := gs_budget g - 1, gs_room := gs_room g - 1\<rparr>"
      have "batch_ok s (counterparties (gs_memory g)) A rs B (gs_decision (?g why)) (gs_available (?g why)) (gs_budget (?g why))" for why
        using batch_offer [OF Cons.prems(4) _ aok le keep] go by (simp add: bundle_folds)
      then have "\<exists>g'. give_loop s excess qs (?g why) = Inr g'
          \<and> counterparties (gs_memory g') = counterparties (gs_memory g)
          \<and> batch_ok s (counterparties (gs_memory g)) A rs B (gs_decision g') (gs_available g') (gs_budget g')" for why
      proof -
        have other: "get (gs_available (?g why)) x = get (gs_available g) x" if "x \<in> set qs" for x
          using that Cons.prems(1) g1 by (auto simp: bundle_folds)
        have *: "counterparties (gs_memory (?g why)) = counterparties (gs_memory g)" by simp
        show ?thesis
          using Cons.IH [of "?g why", unfolded *] Cons.prems(1,2,3) other
            \<open>\<And>why. batch_ok s (counterparties (gs_memory g)) A rs B (gs_decision (?g why)) (gs_available (?g why)) (gs_budget (?g why))\<close>
          by simp
      qed
      then show ?thesis using go Some gift by (simp add: Let_def)
    qed
  qed
qed simp

text \<open>What is left above the reserve: spending it never touches the reserve.\<close>

definition spare_ok :: "Bundle \<Rightarrow> Bundle \<Rightarrow> Bundle \<Rightarrow> bool" where
  "spare_ok rs surplus av \<longleftrightarrow> (\<forall>r. 0 < get surplus r \<longrightarrow> get rs r + get surplus r \<le> get av r)"

lemma spare_ok_surplus: "spare_ok rs (surplus_above_reserve av rs) av"
  by (simp add: spare_ok_def surplus_above_reserve_def bundle_folds)

lemma spare_ok_single:
  assumes "spare_ok rs surplus av" and "single r n = Inr g" and "1 \<le> n" and "n \<le> qty surplus r"
  shows "g \<le> av" and "0 < get g q \<Longrightarrow> get rs q + get g q \<le> get av q"
    and "spare_ok rs (surplus - g) (av - g)" and "g \<noteq> 0"
proof -
  have g: "get g q = (if q = r then nat n else 0)" for q by (rule get_single [OF assms(2)])
  have r: "get rs r + get surplus r \<le> get av r"
    using assms(1,3,4) by (auto simp: spare_ok_def)
  show "g \<le> av" "0 < get g q \<Longrightarrow> get rs q + get g q \<le> get av q"
    using r assms(4) by (auto simp: bundle_le_iff g split: if_splits)
  show "spare_ok rs (surplus - g) (av - g)"
    unfolding spare_ok_def
  proof (intro allI impI)
    fix q
    assume "0 < get (surplus - g) q"
    then show "get rs q + get (surplus - g) q \<le> get (av - g) q"
      using assms(1) [unfolded spare_ok_def, rule_format, of q] r by auto
  qed
  show "g \<noteq> 0" using g [of r] assms(3) by auto
qed

definition good_terms :: "candidate \<Rightarrow> Bundle \<Rightarrow> Bundle \<times> Bundle \<Rightarrow> bool" where
  "good_terms c surplus = (\<lambda>(g, w). \<exists>p k. single (cand_give c) p = Inr g \<and> single (cand_want c) k = Inr w
     \<and> 1 \<le> p \<and> p \<le> qty surplus (cand_give c) \<and> p \<le> 8 * k \<and> 1 \<le> k \<and> k \<le> 12)"

lemma find_terms_ok:
  assumes "\<And>x. Some x \<in> set limits \<Longrightarrow> 0 \<le> x \<and> x \<le> 8"
  shows "\<exists>t. find_terms s surplus av pn u n left c limits = Inr t \<and> (\<forall>gw. t = Some gw \<longrightarrow> good_terms c surplus gw)"
  using assms
proof (induction limits)
  case (Cons limit limits)
  let ?spec = "specialty (me s)" and ?flr = "offer_floor s pn limit left"
  have IH: "\<exists>t. find_terms s surplus av pn u n left c limits = Inr t \<and> (\<forall>gw. t = Some gw \<longrightarrow> good_terms c surplus gw)"
    using Cons by auto
  show ?case
  proof (cases "qty av ?spec < ?flr")
    case True
    with IH show ?thesis by (simp add: Let_def)
  next
    case False
    let ?f = "\<lambda>r. if r = ?spec then min (qty surplus r) (qty av r - ?flr) else qty surplus r"
    from False obtain payable where payable: "bundle_of ?f = Inr payable"
      using bundle_of_nonneg [of ?f] by auto
    have pay_le: "qty payable r \<le> qty surplus r" for r
      using bundle_of_InrE(2) [OF payable, of r] by simp
    let ?size = "if in_end_game left then MAX_BULK_TRADE_SIZE
                 else trade_size (qty av ?spec - specialty_floor (me s) left)"
    let ?n = "desired_quantity n (Some (qty av (cand_want c))) ?size"
    let ?ct = "compute_terms (cand_want c) ?n (cand_give c) payable (u (cand_want c)) limit
                 (Some (qty av (cand_want c))) (in_end_game left \<and> cand_give c = ?spec)"
    have n12: "?n \<le> 12" using trade_size_bounds(2) by (intro desired_quantity_bounds(2)) (simp add: pricing_consts)
    have good: "good_terms c surplus (g, w)" if "?ct = Inr (g, w)" for g w
      using compute_terms_bounds [OF that] n12 Cons.prems pay_le [of "cand_give c"]
      by (fastforce simp: good_terms_def)
    from compute_terms_cases [of "cand_want c" ?n "cand_give c" payable "u (cand_want c)" limit
        "Some (qty av (cand_want c))" "in_end_game left \<and> cand_give c = ?spec"]
    show ?thesis
      using False IH good by (auto simp: Let_def payable split: sum.splits)
  qed
qed simp

lemma propose_loop_ok:
  assumes "\<And>c. c \<in> set cs \<Longrightarrow> cand_give c \<noteq> cand_want c \<and> dict_get wanted (cand_want c) \<noteq> None
      \<and> (\<exists>st \<in> set (stations_of model). cp_station_id st = cand_station c)"
    and "batch_ok s model A rs B (ps_decision p) (ps_available p) (ps_budget p)"
    and "spare_ok rs (ps_surplus p) (ps_available p)"
  shows "\<exists>p'. propose_loop s u wanted left cs p = Inr p'
    \<and> batch_ok s model A rs B (ps_decision p') (ps_available p') (ps_budget p')
    \<and> spare_ok rs (ps_surplus p') (ps_available p')"
  using assms
proof (induction cs arbitrary: p)
  case (Cons c cs)
  have c: "cand_give c \<noteq> cand_want c" "\<exists>st \<in> set (stations_of model). cp_station_id st = cand_station c"
    using Cons.prems(1) by auto
  obtain n where n: "dict_get wanted (cand_want c) = Some n" using Cons.prems(1) [of c] by auto
  let ?limits = "if in_end_game left then [None] else [None, Some (1 / 2)]"
  have lim: "\<And>x :: rat. Some x \<in> set ?limits \<Longrightarrow> 0 \<le> x \<and> x \<le> 8" by (auto split: if_splits)
  obtain t where t: "find_terms s (ps_surplus p) (ps_available p) (ps_preserve_normal p) u n left c ?limits = Inr t"
    and good: "\<And>gw. t = Some gw \<Longrightarrow> good_terms c (ps_surplus p) gw"
    using find_terms_ok [OF lim] by blast
  show ?case
  proof (cases "ps_budget p \<le> 0 \<or> ps_room p \<le> 0 \<or> (t \<noteq> None \<and> offer_ttl s \<le> 0)")
    case True
    with Cons.prems(2,3) n t Cons.IH [of p] Cons.prems(1) show ?thesis by (auto split: option.splits)
  next
    case go: False
    show ?thesis
    proof (cases t)
      case None
      with go n t Cons.IH [of p] Cons.prems show ?thesis by auto
    next
      case (Some gw)
      obtain g w where gw: "gw = (g, w)" by (cases gw)
      from good [OF Some] gw obtain a k where
        ak: "single (cand_give c) a = Inr g" "single (cand_want c) k = Inr w"
            "1 \<le> a" "a \<le> qty (ps_surplus p) (cand_give c)" "a \<le> 8 * k" "1 \<le> k"
        by (auto simp: good_terms_def)
      note spare = spare_ok_single [OF Cons.prems(3) ak(1,3,4)]
      have "total g \<le> 8 * total w"
        using total_single [OF ak(1)] total_single [OF ak(2)] ak(5) by simp
      moreover have "get g r = 0 \<or> get w r = 0" for r
        using get_single [OF ak(1), of r] get_single [OF ak(2), of r] c(1) by auto
      ultimately have aok: "action_ok s model (OfferAction (cand_station c) g w (snap_tick s + offer_ttl s))"
        using offer_ttl_ok [of s] go Some c(2) spare(4) by auto
      show ?thesis
        using go n t Some gw batch_offer [OF Cons.prems(2) _ aok spare(1,2)] spare(3) Cons.prems(1)
        by (auto simp: bundle_folds intro!: Cons.IH)
    qed
  qed
qed simp

lemma reserve_le_excess:
  assumes "excess_over_cap av = Inr excess" and "\<And>r. qty rs r \<le> MAX_RESERVE_UNITS"
  shows "get excess r \<le> get av r"
    and "0 < get excess r \<Longrightarrow> get rs r + get excess r \<le> get av r"
  using bundle_of_InrE(2) [OF assms(1) [unfolded excess_over_cap_def], of r] assms(2) [of r]
  by (auto simp: reserve_consts)

lemma give_excess_ok:
  assumes "batch_ok s (counterparties m) A rs B d av b" and "excess_over_cap av = Inr excess"
    and "\<And>r. qty rs r \<le> MAX_RESERVE_UNITS"
  shows "\<exists>g. give_excess d s m av excess b = Inr g \<and> counterparties (gs_memory g) = counterparties m
    \<and> batch_ok s (counterparties m) A rs B (gs_decision g) (gs_available g) (gs_budget g)"
  using give_loop_ok [of "sort_key (\<lambda>r. - qty excess r) resources" excess
      "\<lparr>gs_decision = d, gs_memory = m, gs_available = av, gs_budget = b,
        gs_room = max_open_outgoing_offers (snap_rules s) - open_outgoing s - planned_offers d\<rparr>" rs s A B]
    assms(1) reserve_le_excess [OF assms(2,3)]
  by (simp add: give_excess_def)

lemma refresh_advertisement_ok:
  assumes "batch_ok s model A rs B d av b" and "refresh_advertisement d s sell need crit b = (d', b')"
  shows "batch_ok s model A rs B d' av b'"
proof (cases "b \<le> 0")
  case False
  obtain act why where v: "decide_advertisement sell need crit (own_advertisement s) (snap_tick s) (snap_rules s) = (act, why)"
    by (cases "decide_advertisement sell need crit (own_advertisement s) (snap_tick s) (snap_rules s)")
  show ?thesis
  proof (cases act)
    case (Some a)
    with decide_advertisement_cases [of sell need crit "own_advertisement s" "snap_tick s" "snap_rules s" a why] v
    have "spend s a = 0" "action_ok s model a" by auto
    with batch_other [OF assms(1)] False assms(2) v Some show ?thesis
      by (auto simp: refresh_advertisement_def)
  qed (use assms False v in \<open>auto simp: refresh_advertisement_def\<close>)
qed (use assms in \<open>simp add: refresh_advertisement_def\<close>)

lemma wanted_quantity_pos: "wanted_quantity s av rs deficit r = Some n \<Longrightarrow> 0 < n"
  unfolding wanted_quantity_def Let_def
  by (simp only: option.distinct option.inject split: if_split_asm)

lemma wanted_positive: "(r, n) \<in> set (wanted_quantities s av rs deficit) \<Longrightarrow> 0 < n"
  by (auto simp: wanted_quantities_def List.map_filter_def dest: wanted_quantity_pos)

lemma wanted_dict_ok: "dict_ok (wanted_quantities s av rs deficit)"
proof -
  have "distinct (dict_keys (List.map_filter (\<lambda>r. map_option (Pair r) (f r)) rs'))
     \<and> set (dict_keys (List.map_filter (\<lambda>r. map_option (Pair r) (f r)) rs')) \<subseteq> set rs'"
    if "distinct rs'" for f :: "resource \<Rightarrow> int option" and rs'
    using that by (induction rs') (auto simp: List.map_filter_simps split: option.splits)
  from this [OF distinct_resources] show ?thesis by (simp add: dict_ok_def wanted_quantities_def)
qed

lemma dict_get_or_wanted: "0 \<le> dict_get_or 0 (wanted_quantities s av rs deficit) r"
  by (auto simp: dict_get_or_def dest!: map_of_SomeD wanted_positive split: option.splits)

lemma advertise_step_ok:
  assumes "batch_ok s model A rs B d av b"
  shows "\<exists>d' b'. advertise_step d s av' surplus excess (wanted_quantities s av'' rs' deficit) crit b left = Inr (d', b')
    \<and> batch_ok s model A rs B d' av b'"
proof -
  let ?w = "wanted_quantities s av'' rs' deficit"
  let ?need = "\<lambda>r. if get excess r = 0 then dict_get_or 0 ?w r else 0"
  let ?sell = "\<lambda>r. if dict_get ?w r = None \<or> get excess r > 0 then qty surplus r else 0"
  obtain need where need: "bundle_of ?need = Inr need"
    using bundle_of_nonneg [of ?need] dict_get_or_wanted by auto
  obtain sell where sell: "bundle_of ?sell = Inr sell"
    using bundle_of_nonneg [of ?sell] by auto
  have "batch_ok s model A rs B (d_add (WithdrawAction (advertisement_id ad)) why d) av (b - 1)"
    if "own_advertisement s = Some ad" "0 < b" for ad why
    using that by (intro batch_other [OF assms]) auto
  then show ?thesis
    using assms refresh_advertisement_ok [OF assms]
    by (cases "refresh_advertisement d s (if production_payment_limit av' (me s) left = Some 0
          then zero_bundle else sell) need crit b")
       (auto simp: advertise_step_def need sell Let_def split: option.splits)
qed

lemma propose_offers_ok:
  assumes "batch_ok s (counterparties m) A rs B d av b" and "spare_ok rs surplus av"
  shows "\<exists>d' b' surplus' av'. propose_offers d s m av surplus deficit u b left = Inr (d', b', surplus', av')
    \<and> batch_ok s (counterparties m) A rs B d' av' b' \<and> spare_ok rs surplus' av'"
proof (cases "max_open_outgoing_offers (snap_rules s) - open_outgoing s \<le> 0")
  case True
  with assms show ?thesis by (simp add: propose_offers_def batch_ok_def)
next
  case False
  let ?w = "wanted_quantities s av (d_reserve d) deficit"
  let ?cs = "rank_counterparties (counterparties m) u ?w surplus (snap_tick s) (pending_pairs s) (Some (specialty (me s)))"
  have "cand_give c \<noteq> cand_want c \<and> dict_get ?w (cand_want c) \<noteq> None
      \<and> (\<exists>st \<in> set (stations_of (counterparties m)). cp_station_id st = cand_station c)" if "c \<in> set ?cs" for c
    using rank_counterpartiesD [OF that] wanted_dict_ok by (auto simp flip: dict_mem_get)
  from propose_loop_ok [where cs = ?cs, OF this, where rs = rs and s = s and A = A and B = B and u = u and left = left
      and p = "\<lparr>ps_decision = d, ps_budget = b, ps_room = max_open_outgoing_offers (snap_rules s) - open_outgoing s,
        ps_surplus = surplus, ps_available = av, ps_preserve_normal = has_normal_offers s\<rparr>"] assms False
  show ?thesis by (auto simp: propose_offers_def Let_def)
qed

lemma aid_loop_ok:
  assumes "length gs \<le> 1" and "batch_ok s (counterparties m) A rs B d av b" and "spare_ok rs surplus av"
    and "\<And>g. g \<in> set gs \<Longrightarrow> 1 \<le> gift_quantity g \<and> gift_quantity g \<le> qty surplus (gift_resource g)
      \<and> (\<exists>st \<in> set (stations_of (counterparties m)). cp_station_id st = gift_station g)"
  shows "\<exists>d' m' b' av'. aid_loop s surplus left gs (d, m, b) = Inr (d', m', b')
    \<and> counterparties m' = counterparties m \<and> batch_ok s (counterparties m) A rs B d' av' b'"
proof (cases gs)
  case (Cons g rest)
  with assms(1) have rest: "rest = []" by simp
  from assms(4) [of g] Cons have g: "1 \<le> gift_quantity g" "gift_quantity g \<le> qty surplus (gift_resource g)"
    "\<exists>st \<in> set (stations_of (counterparties m)). cp_station_id st = gift_station g" by auto
  obtain gift where gift: "single (gift_resource g) (gift_quantity g) = Inr gift"
    using single_nonneg [of "gift_quantity g"] g(1) by auto
  note spare = spare_ok_single [OF assms(3) gift g(1,2)]
  have "batch_ok s (counterparties m) A rs B
      (d_add (OfferAction (gift_station g) gift zero_bundle (snap_tick s + offer_ttl s)) why d) (av - gift) (b - 1)"
    if "0 < b" "0 < offer_ttl s" for why
    using offer_ttl_ok [OF that(2)] g(3) spare(4) that
    by (intro batch_offer [OF assms(2) that(1) _ spare(1,2)]) (simp_all add: bundle_folds)
  then show ?thesis
    using assms(2) Cons rest gift by (auto simp: not_le)
qed (use assms in auto)

lemma offer_aid_ok:
  assumes "cp_ok (counterparties m)" and "batch_ok s (counterparties m) A rs B d av b" and "spare_ok rs surplus av"
  shows "\<exists>d' m' av' b'. offer_aid d s m surplus u b left = Inr (d', m') \<and> counterparties m' = counterparties m
    \<and> batch_ok s (counterparties m) A rs B d' av' b'"
proof -
  obtain gs where gs: "scan_for_distress (counterparties m) surplus u (snap_tick s) m = Inr gs" and len: "length gs \<le> 1"
    using scan_for_distress_total [OF assms(1), of surplus u "snap_tick s" m] by (auto simp: altruism_consts)
  have "1 \<le> gift_quantity g \<and> gift_quantity g \<le> qty surplus (gift_resource g)
      \<and> (\<exists>st \<in> set (stations_of (counterparties m)). cp_station_id st = gift_station g)" if "g \<in> set gs" for g
  proof -
    from scan_for_distressD(2) [OF gs that] obtain st where
      st: "st \<in> set (stations_of (counterparties m))" "g \<in> set (distress_intents surplus (snap_tick s) m st)" by blast
    note D = distress_intentsD [OF st(2)]
    from D(2) have "0 < qty surplus (gift_resource g)" by simp
    with donation_size_le [OF this] D(1,3) st(1) show ?thesis by auto
  qed
  from aid_loop_ok [OF len assms(2,3) this, where left = left] obtain d' m' b' av' where
    "aid_loop s surplus left gs (d, m, b) = Inr (d', m', b')" "counterparties m' = counterparties m"
    "batch_ok s (counterparties m) A rs B d' av' b'" by blast
  with assms(2) gs show ?thesis by (auto simp: offer_aid_def)
qed

subsection \<open>The whole decision\<close>

lemma trade_ok:
  assumes "cp_ok (counterparties m)" and "snapshot_ok s" and "\<And>r. qty rs r \<le> MAX_RESERVE_UNITS"
    and d: "d_actions d = []" "d_reserve d = rs" "d_available d = av" "d_urgency d \<noteq> None"
  shows "\<exists>d' m' av' b'. trade s m av rs d cb = Inr (d', m') \<and> counterparties m' = counterparties m
    \<and> batch_ok s (counterparties m) av rs (command_budget_of s cb) d' av' b'"
proof -
  let ?B = "command_budget_of s cb" and ?left = "Some (duration_ticks (snap_rules s) - snap_tick s)"
  let ?u = "\<lambda>av. urgency_at s av rs"
  let ?ok = "batch_ok s (counterparties m) av rs ?B"
  have start: "?ok d av ?B" using d by (simp add: batch_ok_def)
  obtain d1 b1 av1 deferred where
    1: "accept_incoming d s (incoming_open_offers s) av rs (?u av) ?B ?left
          (scarce_import_to_chase s av (?u av) ?left) = Inr (d1, b1, av1, deferred)"
    and ok1: "?ok d1 av1 b1" and deferred: "set deferred \<subseteq> set (incoming_open_offers s)"
    using accept_incoming_ok [OF assms(2) subset_refl start] by blast
  obtain d2 b2 where 2: "withdraw_dangerous d1 s av1 b1 ?left = (d2, b2)"
    by (cases "withdraw_dangerous d1 s av1 b1 ?left")
  have ok2: "?ok d2 av1 b2" by (rule withdraw_dangerous_ok [OF ok1 2])
  obtain excess where 3: "excess_over_cap av1 = Inr excess" using excess_over_cap_total by blast
  obtain g where 4: "give_excess d2 s m av1 excess b2 = Inr g" and cp: "counterparties (gs_memory g) = counterparties m"
    and ok4: "?ok (gs_decision g) (gs_available g) (gs_budget g)"
    using give_excess_ok [OF ok2 3 assms(3)] by blast
  let ?surplus = "surplus_above_reserve (gs_available g) rs"
  let ?deficit = "deficit_below_reserve av1 rs"
  let ?wanted = "wanted_quantities s (gs_available g) rs ?deficit"
  obtain d5 b5 where
    5: "advertise_step (gs_decision g) s (gs_available g) ?surplus excess ?wanted (critical_of (?u av1))
          (gs_budget g) ?left = Inr (d5, b5)"
    and ok5: "?ok d5 (gs_available g) b5"
    using advertise_step_ok [OF ok4] by blast
  obtain d6 b6 surplus6 av6 where
    6: "propose_offers d5 s (gs_memory g) (gs_available g) ?surplus ?deficit (?u av1) b5 ?left
          = Inr (d6, b6, surplus6, av6)"
    and ok6: "?ok d6 av6 b6" and spare6: "spare_ok rs surplus6 av6"
    using propose_offers_ok [where m = "gs_memory g", unfolded cp, OF ok5 spare_ok_surplus] by blast
  have aid: "\<exists>d' m' av' b'. offer_aid d7 s (gs_memory g) surplus u b7 ?left = Inr (d', m')
      \<and> counterparties m' = counterparties m \<and> ?ok d' av' b'"
    if "?ok d7 av7 b7" "spare_ok rs surplus av7" for d7 av7 b7 surplus u
    using offer_aid_ok [where m = "gs_memory g", unfolded cp, OF assms(1) that] by blast
  show ?thesis
  proof (cases "deferred \<noteq> [] \<and> 0 < b6")
    case True
    obtain d7 b7 av7 rest where
      7: "accept_incoming d6 s deferred av6 rs (?u av6) b6 ?left None = Inr (d7, b7, av7, rest)"
      and ok7: "?ok d7 av7 b7"
      using accept_incoming_ok [OF assms(2) deferred ok6] by blast
    show ?thesis
      using aid [OF ok7 spare_ok_surplus [of rs av7], of "?u av6"] True
      by (simp add: trade_def Let_def 1 2 3 4 5 6 7)
  next
    case False
    show ?thesis
      using aid [OF ok6 spare6, of "?u av1"] False
      by (auto simp: trade_def Let_def 1 2 3 4 5 6)
  qed
qed

text \<open>The decision always returns; when no gate stops it, what it returns is a good batch.\<close>

lemma decide_cases:
  assumes "memory_ok m" and "snapshot_ok s"
  shows "\<exists>d m'. decide s m t cb = Inr (d, m') \<and> counterparties m' = cp_update s (counterparties m)
    \<and> d_available d = available_to_commit (tracker_of t) s \<and> d_urgency d \<noteq> None
    \<and> (if gate s m \<noteq> None then d_actions d = []
       else \<exists>av' b'. batch_ok s (cp_update s (counterparties m)) (available_to_commit (tracker_of t) s)
              (d_reserve d) (command_budget_of s cb) d av' b')"
proof -
  let ?m = "observe s m" and ?av = "available_to_commit (tracker_of t) s"
  have mok: "memory_ok ?m" by (rule memory_ok_observe [OF assms(1)])
  obtain rs stored where cr: "compute_reserve (snap_rules s) (me s) ?m (Some ?av) = Inr (rs, ?m\<lparr>stored_reserve := stored\<rparr>)"
    using compute_reserve_total [of "snap_rules s" "me s" ?m "Some ?av"] by blast
  note bounds = compute_reserve_bounds(1) [OF cr]
  let ?m2 = "?m\<lparr>stored_reserve := stored\<rparr>"
  let ?d = "\<lparr>d_actions = [], d_reasons = [], d_reserve = rs, d_available = ?av,
     d_surplus = surplus_above_reserve ?av rs, d_deficit = deficit_below_reserve ?av rs,
     d_urgency = Some (urgency_at s ?av rs)\<rparr>"
  have gate: "gate s ?m2 = gate s m" by (simp add: gate_def frame_simps)
  have cp: "counterparties ?m2 = cp_update s (counterparties m)" by (simp add: frame_simps)
  have cpok: "cp_ok (counterparties ?m2)" using mok by (simp add: memory_ok_def)
  have dec: "decide s m t cb = (case gate s m of Some why \<Rightarrow> Inr (d_explain why ?d, ?m2)
      | None \<Rightarrow> trade s ?m2 ?av rs ?d cb)"
    using cr by (simp add: decide_def Let_def gate)
  show ?thesis
  proof (cases "gate s m")
    case None
    obtain d' m' av' b' where "trade s ?m2 ?av rs ?d cb = Inr (d', m')" "counterparties m' = counterparties ?m2"
      and b: "batch_ok s (counterparties ?m2) ?av rs (command_budget_of s cb) d' av' b'"
      using trade_ok [OF cpok assms(2) bounds, where d = ?d and av = ?av and cb = cb] by auto
    from b have "d_reserve d' = rs" "d_available d' = ?av" "d_urgency d' \<noteq> None" by (auto simp: batch_ok_def)
    with None cp dec b \<open>trade s ?m2 ?av rs ?d cb = Inr (d', m')\<close> \<open>counterparties m' = counterparties ?m2\<close>
    show ?thesis by auto
  next
    case (Some why)
    with dec cp show ?thesis by simp
  qed
qed

lemma decide_batch:
  assumes "memory_ok m" and "snapshot_ok s" and "decide s m t cb = Inr (d, m')"
  shows "d_actions d = [] \<or> (\<exists>av' b'. batch_ok s (cp_update s (counterparties m))
      (available_to_commit (tracker_of t) s) (d_reserve d) (command_budget_of s cb) d av' b')"
  using decide_cases [OF assms(1,2), of t cb] assms(3) by (auto split: if_splits)

lemma batch_spent: "batch_ok s model A rs B d av b \<Longrightarrow> spent s (d_actions d) \<le> A"
  unfolding batch_ok_def by (metis le_iff_add)

subsection \<open>The decision on the concrete ticks\<close>

lemma demo_tick_decision:
  "map_sum id (\<lambda>(d, m). (d_actions d, d_reserve d)) (decide demo_tick memory_init None None) =
     Inr ([AcceptAction ''offer-1'', AdvertiseAction {WATER} {FOOD, COMPONENTS} 18,
           OfferAction ''P02'' (Bundle 9 0 0) (Bundle 0 4 0) 15,
           OfferAction ''P02'' (Bundle 6 0 0) (Bundle 0 0 5) 15], Bundle 15 3 3)"
  by code_simp

lemma demo_tick_obtain:
  obtains d m' where "decide demo_tick memory_init None None = Inr (d, m')"
    and "d_actions d = [AcceptAction ''offer-1'', AdvertiseAction {WATER} {FOOD, COMPONENTS} 18,
           OfferAction ''P02'' (Bundle 9 0 0) (Bundle 0 4 0) 15,
           OfferAction ''P02'' (Bundle 6 0 0) (Bundle 0 0 5) 15]"
    and "d_reserve d = Bundle 15 3 3"
  using demo_tick_decision by (cases "decide demo_tick memory_init None None") auto

lemma demo_snapshot_ok: "snapshot_ok demo_tick" "snapshot_ok demo_rich"
  by (simp_all add: snapshot_ok_def demo_tick_def demo_rich_def demo_defs)

text \<open>\<open>_propose_offers\<close> counts only the open offers of the snapshot against the limit, not the
  gifts the same decision has already planned: with room for one offer it plans two.\<close>

lemma demo_rich_exceeds_offer_limit:
  "map_sum id (\<lambda>(d, m). open_outgoing demo_rich + planned_offers d) (decide demo_rich memory_init None None) = Inr 2
   \<and> max_open_outgoing_offers (snap_rules demo_rich) = 1"
  by code_simp

subsection \<open>Properties\<close>

text \<open>
  C1: one decision never promises more than is free. What the batch spends (the cost of the
  accepted offers plus the give side of every new offer and gift) fits in the inventory less
  what open and in-flight offers already promise.
\<close>

theorem decide_never_overspends:
  assumes "memory_ok m" and "snapshot_ok s" and "decide s m t cb = Inr (d, m')"
  shows "spent s (d_actions d) \<le> inventory (me s) - promised (tracker_of t) s"
  using decide_batch [OF assms] batch_spent by (fastforce simp flip: available_alt)

theorem decide_never_overspends_witness:
  "\<exists>d m'. decide demo_tick memory_init None None = Inr (d, m')
     \<and> spent demo_tick (d_actions d) = Bundle 19 0 0
     \<and> spent demo_tick (d_actions d) \<le> inventory (me demo_tick) - promised (tracker_of None) demo_tick"
proof -
  obtain d m' where d: "decide demo_tick memory_init None None = Inr (d, m')"
    and a: "d_actions d = [AcceptAction ''offer-1'', AdvertiseAction {WATER} {FOOD, COMPONENTS} 18,
           OfferAction ''P02'' (Bundle 9 0 0) (Bundle 0 4 0) 15,
           OfferAction ''P02'' (Bundle 6 0 0) (Bundle 0 0 5) 15]"
    by (rule demo_tick_obtain)
  have "spent demo_tick (d_actions d) = Bundle 19 0 0" unfolding a by code_simp
  then show ?thesis
    using d decide_never_overspends [OF memory_ok_init demo_snapshot_ok(1) d] by auto
qed

text \<open>
  C2: the decision always returns, whatever the snapshot and the carried memory (no exception of
  the arithmetic, of a lookup or of the sort keys escapes), and it plans at most as many
  commands as the budget of the tick.
\<close>

theorem decide_returns_within_budget:
  assumes "memory_ok m" and "snapshot_ok s"
  shows "\<exists>d m'. decide s m t cb = Inr (d, m') \<and> int (length (d_actions d)) \<le> max 0 (command_budget_of s cb)"
  using decide_cases [OF assms, of t cb] by (fastforce simp: batch_ok_def split: if_splits)

theorem decide_returns_within_budget_witness:
  "(\<exists>d m'. decide demo_tick memory_init None (Some 2) = Inr (d, m') \<and> int (length (d_actions d)) \<le> 2)"
proof -
  have "max 0 (command_budget_of demo_tick (Some 2)) = 2" by code_simp
  with decide_returns_within_budget [OF memory_ok_init demo_snapshot_ok(1), of None "Some 2"]
  show ?thesis by simp
qed

text \<open>
  C14: offers and gifts come out of the surplus only. Where a decision offers a resource, the
  uncommitted stock it started from covers everything offered and still holds the reserve.
\<close>

theorem decide_offers_spare_reserve:
  assumes "memory_ok m" and "snapshot_ok s" and "decide s m t cb = Inr (d, m')"
    and "0 < get (offered (d_actions d)) r"
  shows "get (d_reserve d) r + get (offered (d_actions d)) r \<le> get (d_available d) r"
  using decide_batch [OF assms(1,2,3)] assms(4) by (auto simp: batch_ok_def)

theorem decide_offers_spare_reserve_witness:
  "\<exists>d m'. decide demo_tick memory_init None None = Inr (d, m')
     \<and> get (offered (d_actions d)) WATER = 15 \<and> get (d_reserve d) WATER + 15 \<le> get (d_available d) WATER"
proof -
  obtain d m' where d: "decide demo_tick memory_init None None = Inr (d, m')"
    and a: "d_actions d = [AcceptAction ''offer-1'', AdvertiseAction {WATER} {FOOD, COMPONENTS} 18,
           OfferAction ''P02'' (Bundle 9 0 0) (Bundle 0 4 0) 15,
           OfferAction ''P02'' (Bundle 6 0 0) (Bundle 0 0 5) 15]"
    by (rule demo_tick_obtain)
  have o15: "get (offered (d_actions d)) WATER = 15" unfolding a by code_simp
  then show ?thesis
    using d decide_offers_spare_reserve [OF memory_ok_init demo_snapshot_ok(1) d, of WATER] by auto
qed

text \<open>
  C15: every planned action is one the rules allow. Offers go to known stations that have not
  failed, give something, never trade a resource for itself, pay at most eight for one and
  expire after this tick, within the offer lifetime and the run; accepts name open offers
  addressed to us, withdrawals our own open offers or advertisement, advertisements expire
  within their limits.
\<close>

theorem decide_actions_allowed:
  assumes "memory_ok m" and "snapshot_ok s" and "decide s m t cb = Inr (d, m')" and "a \<in> set (d_actions d)"
  shows "action_ok s (cp_update s (counterparties m)) a"
  using decide_batch [OF assms(1,2,3)] assms(4) by (auto simp: batch_ok_def list_all_iff)

theorem decide_actions_allowed_witness:
  "action_ok demo_tick (cp_update demo_tick (counterparties memory_init))
     (OfferAction ''P02'' (Bundle 9 0 0) (Bundle 0 4 0) 15)"
proof -
  obtain d m' where d: "decide demo_tick memory_init None None = Inr (d, m')"
    and a: "d_actions d = [AcceptAction ''offer-1'', AdvertiseAction {WATER} {FOOD, COMPONENTS} 18,
           OfferAction ''P02'' (Bundle 9 0 0) (Bundle 0 4 0) 15,
           OfferAction ''P02'' (Bundle 6 0 0) (Bundle 0 0 5) 15]"
    by (rule demo_tick_obtain)
  show ?thesis
    by (rule decide_actions_allowed [OF memory_ok_init demo_snapshot_ok(1) d]) (simp add: a)
qed

text \<open>
  outside its trading window the policy is silent. No command is planned unless the phase
  is RUNNING, the station has never failed, no rate-limit block is pending and the run is not
  over; the decision carries the reason instead.
\<close>

theorem decide_silent_when_gated:
  assumes "memory_ok m" and "snapshot_ok s" and "decide s m t cb = Inr (d, m')"
    and "snap_phase s \<noteq> RUNNING \<or> failed_once (me s) \<or> snap_tick s < blocked_until_tick m
      \<or> duration_ticks (snap_rules s) \<le> snap_tick s"
  shows "d_actions d = []"
proof -
  have "gate s m \<noteq> None" using assms(4) by (auto simp: gate_def)
  then show ?thesis using decide_cases [OF assms(1,2), of t cb] assms(3) by auto
qed

theorem decide_silent_when_gated_witness:
  "\<exists>d m'. decide (demo_tick\<lparr>snap_phase := PAUSED\<rparr>) memory_init None None = Inr (d, m') \<and> d_actions d = []"
proof -
  let ?s = "demo_tick\<lparr>snap_phase := PAUSED\<rparr>"
  have ok: "snapshot_ok ?s" using demo_snapshot_ok(1) by (simp add: snapshot_ok_def)
  obtain d m' where d: "decide ?s memory_init None None = Inr (d, m')"
    using decide_cases [OF memory_ok_init ok, of None None] by blast
  have "d_actions d = []" by (rule decide_silent_when_gated [OF memory_ok_init ok d]) simp
  with d show ?thesis by blast
qed

end
