(* ===== verification/Strategy.thy ===== *)
theory Strategy
  imports Decide_Safety
begin

text \<open>
  \<open>bazaar_client/strategy.py\<close>: the decision function of the trading loop, chosen by name. Every
  strategy offers \<open>decide\<close> and \<open>explain_passes\<close>; the locale \<open>trading_strategy\<close> is what the loop and
  the simulator rely on, interpreted for both registered strategies.
\<close>

datatype strategy = ReserveTrader | Passive

definition DEFAULT_STRATEGY :: string where
  "DEFAULT_STRATEGY = ''reserve-trader''"

fun strategy_name :: "strategy \<Rightarrow> string" where
  "strategy_name ReserveTrader = DEFAULT_STRATEGY"
| "strategy_name Passive = ''passive''"

definition STRATEGIES :: "(string, strategy) pydict" where
  "STRATEGIES = map (\<lambda>x. (strategy_name x, x)) [ReserveTrader, Passive]"

definition get_strategy :: "string \<Rightarrow> strategy result" where
  "get_strategy n = (case dict_get STRATEGIES n of Some x \<Rightarrow> Inr x | None \<Rightarrow> Inl (UnknownStrategyError n))"

subsection \<open>Offers left alone\<close>

definition accepted_ids :: "decision \<Rightarrow> string set" where
  "accepted_ids d = set (List.map_filter (\<lambda>a. case a of AcceptAction oid \<Rightarrow> Some oid | _ \<Rightarrow> None) (d_actions d))"

definition not_accepted :: "snapshot \<Rightarrow> decision \<Rightarrow> offer list" where
  "not_accepted s d = filter (\<lambda>o'. offer_id o' \<notin> accepted_ids d) (incoming_open_offers s)"

text \<open>\<open>r.startswith("rate limited")\<close> finds the reason of the policy's own rate-limit gate.\<close>

definition starts_with :: "string \<Rightarrow> string \<Rightarrow> bool" where
  "starts_with p r \<longleftrightarrow> take (length p) r = p"

definition gate_reason :: "snapshot \<Rightarrow> decision \<Rightarrow> string option" where
  "gate_reason s d =
     (if snap_phase s \<noteq> RUNNING then Some (''not considered: phase is '' @ phase_name (snap_phase s))
      else if failed_once (me s) then Some ''not considered: our station has failed''
      else if snap_tick s \<ge> duration_ticks (snap_rules s) then Some ''not considered: run duration reached''
      else map_option (\<lambda>r. ''not considered: '' @ r) (find (starts_with ''rate limited'') (d_reasons d)))"

text \<open>Why one offer was passed over. A decision that never computed an urgency has none to look up.\<close>

definition pass_reason :: "snapshot \<Rightarrow> decision \<Rightarrow> offer \<Rightarrow> string result" where
  "pass_reason s d o' =
     bindE (what_station_pays o' (self_station_id s)) (\<lambda>cost.
     let limit = production_payment_limit (saturating_sub (d_available d) cost) (me s) None
     in if \<not> is_zero cost \<and> has_normal_offers s \<and> limit \<noteq> None
        then Inr ''production supply guard protects standing offers''
        else case d_urgency d of
            None \<Rightarrow> Inl (KeyError ''urgency'')
          | Some u \<Rightarrow>
            bindE (evaluate_incoming o' (self_station_id s) (d_available d) (d_reserve d) u
                     (Some (specialty (me s))) limit False) (\<lambda>v.
            Inr (if accept v then ''worth accepting, but this tick's command budget went elsewhere or ran out''
                 else reason v)))"

definition explain_reserve_trader :: "snapshot \<Rightarrow> decision \<Rightarrow> (string, string) pydict result" where
  "explain_reserve_trader s d =
     (case gate_reason s d of
        Some why \<Rightarrow> Inr (fold (\<lambda>o'. dict_set (offer_id o') why) (not_accepted s d) [])
      | None \<Rightarrow> foldE (\<lambda>o' t. bindE (pass_reason s d o') (\<lambda>why. Inr (dict_set (offer_id o') why t)))
                  (not_accepted s d) [])"

subsection \<open>The strategies\<close>

definition decide_passive ::
  "snapshot \<Rightarrow> policy_memory \<Rightarrow> commitment_tracker option \<Rightarrow> int option \<Rightarrow> (decision \<times> policy_memory) result" where
  "decide_passive s m t cb =
     Inr (d_explain ''passive strategy: observing only, no commands by design''
            (decision_new\<lparr>d_available := inventory (me s)\<rparr>), observe s m)"

definition explain_passive :: "snapshot \<Rightarrow> decision \<Rightarrow> (string, string) pydict result" where
  "explain_passive s d = Inr (fold (\<lambda>o'. dict_set (offer_id o') ''passive strategy never accepts'') (not_accepted s d) [])"

fun strategy_decide ::
  "strategy \<Rightarrow> snapshot \<Rightarrow> policy_memory \<Rightarrow> commitment_tracker option \<Rightarrow> int option \<Rightarrow> (decision \<times> policy_memory) result" where
  "strategy_decide ReserveTrader = decide"
| "strategy_decide Passive = decide_passive"

fun explain_passes :: "strategy \<Rightarrow> snapshot \<Rightarrow> decision \<Rightarrow> (string, string) pydict result" where
  "explain_passes ReserveTrader = explain_reserve_trader"
| "explain_passes Passive = explain_passive"

subsection \<open>What every strategy promises\<close>

text \<open>
  \<open>pick\<close> decides, \<open>why\<close> explains: a decision always comes back, keeps the memory usable, stays
  within the budget and within the stock, and every incoming offer it leaves has a reason.
\<close>

locale trading_strategy =
  fixes pick :: "snapshot \<Rightarrow> policy_memory \<Rightarrow> commitment_tracker option \<Rightarrow> int option \<Rightarrow> (decision \<times> policy_memory) result"
    and why :: "snapshot \<Rightarrow> decision \<Rightarrow> (string, string) pydict result"
  assumes pick_total: "memory_ok m \<Longrightarrow> snapshot_ok s \<Longrightarrow> \<exists>d m'. pick s m t cb = Inr (d, m') \<and> memory_ok m'
        \<and> int (length (d_actions d)) \<le> max 0 (command_budget_of s cb) \<and> spent s (d_actions d) \<le> inventory (me s)"
    and why_total: "memory_ok m \<Longrightarrow> snapshot_ok s \<Longrightarrow> pick s m t cb = Inr (d, m') \<Longrightarrow>
        \<exists>reasons. why s d = Inr reasons \<and> set (dict_keys reasons) = offer_id ` set (not_accepted s d)"
begin

text \<open>A player that carries its memory from one snapshot to the next never stops early.\<close>

fun play :: "commitment_tracker option \<Rightarrow> snapshot list \<Rightarrow> policy_memory \<Rightarrow> (action list list \<times> policy_memory) result" where
  "play t [] m = Inr ([], m)"
| "play t (s # ss) m = bindE (pick s m t None) (\<lambda>(d, m). bindE (play t ss m) (\<lambda>(acts, m). Inr (d_actions d # acts, m)))"

lemma play_total:
  assumes "memory_ok m" and "list_all snapshot_ok ss"
  shows "\<exists>acts m'. play t ss m = Inr (acts, m') \<and> memory_ok m' \<and> length acts = length ss
    \<and> list_all2 (\<lambda>s as. spent s as \<le> inventory (me s)) ss acts"
  using assms
proof (induction ss arbitrary: m)
  case (Cons s ss)
  obtain d m1 where 1: "pick s m t None = Inr (d, m1)" "memory_ok m1" "spent s (d_actions d) \<le> inventory (me s)"
    using pick_total [of m s t None] Cons.prems by auto
  from Cons.IH [OF 1(2)] Cons.prems(2) obtain acts m2 where "play t ss m1 = Inr (acts, m2)" "memory_ok m2"
    "length acts = length ss" "list_all2 (\<lambda>s as. spent s as \<le> inventory (me s)) ss acts" by auto
  with 1 show ?case by simp
qed simp

lemma accounted:
  assumes "memory_ok m" and "snapshot_ok s" and "pick s m t cb = Inr (d, m')" and "o' \<in> set (incoming_open_offers s)"
  shows "\<exists>reasons. why s d = Inr reasons \<and> (offer_id o' \<in> accepted_ids d \<longleftrightarrow> offer_id o' \<notin> set (dict_keys reasons))"
proof -
  obtain reasons where r: "why s d = Inr reasons" "set (dict_keys reasons) = offer_id ` set (not_accepted s d)"
    using why_total [OF assms(1-3)] by blast
  have "offer_id o' \<in> offer_id ` set (not_accepted s d) \<longleftrightarrow> offer_id o' \<notin> accepted_ids d"
    using assms(4) by (auto simp: not_accepted_def)
  with r show ?thesis by blast
qed

end

subsection \<open>The decision keeps the memory\<close>

lemma memory_ok_frames [simp]:
  "memory_ok (record_gift sid r t m) = memory_ok m" "memory_ok (m\<lparr>stored_reserve := x\<rparr>) = memory_ok m"
  by (simp_all add: memory_ok_def record_gift_def)

lemma give_loop_memory:
  "give_loop s excess rs g = Inr g' \<Longrightarrow> memory_ok (gs_memory g) \<Longrightarrow> memory_ok (gs_memory g')"
proof (induction rs arbitrary: g)
  case (Cons r rs)
  from Cons.prems show ?case
    by (auto simp: Let_def elim!: bindE_InrE split: if_splits option.splits dest: Cons.IH)
qed simp

lemma aid_loop_memory:
  "aid_loop s surplus left gs (d, m, b) = Inr (d', m', b') \<Longrightarrow> memory_ok m \<Longrightarrow> memory_ok m'"
proof (induction gs arbitrary: d m b)
  case (Cons g gs)
  from Cons.prems show ?case
    by (auto simp: Let_def elim!: bindE_InrE split: if_splits) (erule Cons.IH; simp)+
qed simp

lemma offer_aid_memory: "offer_aid d s m surplus u b left = Inr (d', m') \<Longrightarrow> memory_ok m \<Longrightarrow> memory_ok m'"
  by (auto simp: offer_aid_def elim!: bindE_InrE split: if_splits dest: aid_loop_memory)

lemma trade_memory:
  assumes "trade s m av rs d cb = Inr (d', m')" and "memory_ok m"
  shows "memory_ok m'"
proof -
  from assms(1) obtain dg avg excess bg g d7 surplus u b7 where
    g: "give_excess dg s m avg excess bg = Inr g"
    and aid: "offer_aid d7 s (gs_memory g) surplus u b7 (Some (duration_ticks (snap_rules s) - snap_tick s)) = Inr (d', m')"
    by (auto simp: trade_def Let_def elim!: bindE_InrE split: prod.splits if_splits)
  have "memory_ok (gs_memory g)"
    using g assms(2) by (auto simp: give_excess_def Let_def dest: give_loop_memory)
  with aid show ?thesis by (rule offer_aid_memory)
qed

lemma decide_memory_ok:
  assumes "decide s m t cb = Inr (d, m')" and "memory_ok m"
  shows "memory_ok m'"
proof -
  obtain rs m1 where c: "compute_reserve (snap_rules s) (me s) (observe s m) (Some (available_to_commit (tracker_of t) s)) = Inr (rs, m1)"
    using assms(1) by (auto simp: decide_def Let_def elim!: bindE_InrE)
  have "m1 = (observe s m)\<lparr>stored_reserve := stored_reserve m1\<rparr>" by (rule compute_reserve_bounds(3) [OF c])
  then have "memory_ok m1" using memory_ok_observe [OF assms(2), of s] memory_ok_frames(2) by metis
  with assms(1) c show ?thesis
    by (auto simp: decide_def Let_def split: option.splits dest: trade_memory)
qed

text \<open>A decision never touches the tick until which the policy is silent.\<close>

lemma give_loop_block:
  "give_loop s excess rs g = Inr g' \<Longrightarrow> blocked_until_tick (gs_memory g') = blocked_until_tick (gs_memory g)"
proof (induction rs arbitrary: g)
  case (Cons r rs)
  from Cons.prems show ?case
    by (auto simp: Let_def record_gift_def elim!: bindE_InrE split: if_splits option.splits dest: Cons.IH)
qed simp

lemma aid_loop_block:
  "aid_loop s surplus left gs (d, m, b) = Inr (d', m', b') \<Longrightarrow> blocked_until_tick m' = blocked_until_tick m"
proof (induction gs arbitrary: d m b)
  case (Cons g gs)
  from Cons.prems show ?case
    by (auto simp: Let_def record_gift_def elim!: bindE_InrE split: if_splits dest!: Cons.IH)
qed simp

lemma trade_block:
  assumes "trade s m av rs d cb = Inr (d', m')"
  shows "blocked_until_tick m' = blocked_until_tick m"
proof -
  from assms obtain dg avg excess bg g d7 surplus u b7 where
    g: "give_excess dg s m avg excess bg = Inr g"
    and aid: "offer_aid d7 s (gs_memory g) surplus u b7 (Some (duration_ticks (snap_rules s) - snap_tick s)) = Inr (d', m')"
    by (auto simp: trade_def Let_def elim!: bindE_InrE split: prod.splits if_splits)
  have "blocked_until_tick (gs_memory g) = blocked_until_tick m"
    using g by (auto simp: give_excess_def Let_def dest: give_loop_block)
  moreover have "blocked_until_tick m' = blocked_until_tick (gs_memory g)"
    using aid by (auto simp: offer_aid_def elim!: bindE_InrE split: if_splits dest: aid_loop_block)
  ultimately show ?thesis by simp
qed

lemma decide_block:
  assumes "decide s m t cb = Inr (d, m')"
  shows "blocked_until_tick m' = blocked_until_tick m"
    and "snap_tick s < blocked_until_tick m \<Longrightarrow> d_actions d = []"
proof -
  obtain rs m1 where c: "compute_reserve (snap_rules s) (me s) (observe s m) (Some (available_to_commit (tracker_of t) s)) = Inr (rs, m1)"
    using assms(1) by (auto simp: decide_def Let_def elim!: bindE_InrE)
  have "m1 = (observe s m)\<lparr>stored_reserve := stored_reserve m1\<rparr>" by (rule compute_reserve_bounds(3) [OF c])
  then have "blocked_until_tick m1 = blocked_until_tick ((observe s m)\<lparr>stored_reserve := stored_reserve m1\<rparr>)" by (rule arg_cong)
  then have b: "blocked_until_tick m1 = blocked_until_tick m" by (simp add: frame_simps)
  with assms c show "blocked_until_tick m' = blocked_until_tick m"
    by (auto simp: decide_def Let_def split: option.splits dest: trade_block)
  assume "snap_tick s < blocked_until_tick m"
  then have "gate s m1 \<noteq> None" by (simp add: gate_def b)
  with assms c show "d_actions d = []"
    by (auto simp: decide_def Let_def d_explain_def split: option.splits)
qed

lemma decide_contract:
  assumes "memory_ok m" and "snapshot_ok s"
  shows "\<exists>d m'. decide s m t cb = Inr (d, m') \<and> memory_ok m'
    \<and> int (length (d_actions d)) \<le> max 0 (command_budget_of s cb) \<and> spent s (d_actions d) \<le> inventory (me s)
    \<and> d_urgency d \<noteq> None"
proof -
  obtain d m' where d: "decide s m t cb = Inr (d, m')" "d_urgency d \<noteq> None"
    and b: "if gate s m \<noteq> None then d_actions d = []
       else \<exists>av' b'. batch_ok s (cp_update s (counterparties m)) (available_to_commit (tracker_of t) s)
              (d_reserve d) (command_budget_of s cb) d av' b'"
    using decide_cases [OF assms, of t cb] by blast
  have "spent s (d_actions d) \<le> available_to_commit (tracker_of t) s"
  proof (cases "gate s m = None")
    case True
    with b show ?thesis by (auto dest: batch_spent)
  next
    case False
    with b show ?thesis by (simp add: bundle_le_iff)
  qed
  then have "spent s (d_actions d) \<le> inventory (me s)" using available_le_inventory order_trans by blast
  moreover have "int (length (d_actions d)) \<le> max 0 (command_budget_of s cb)"
    using b by (auto simp: batch_ok_def split: if_splits)
  ultimately show ?thesis using d decide_memory_ok [OF d(1) assms(1)] by blast
qed

subsection \<open>The explanations\<close>

lemma dict_keys_dict_set: "fst ` set (dict_set k v d) = insert k (fst ` set d)"
  by (induction d) auto

lemma keys_fold_set: "fst ` set (fold (\<lambda>x. dict_set (f x) (v x)) xs d) = fst ` set d \<union> f ` set xs"
  by (induction xs arbitrary: d) (auto simp: dict_keys_dict_set)

lemma keys_foldE_set:
  assumes "\<And>x. x \<in> set xs \<Longrightarrow> \<exists>y. h x = Inr y"
  shows "\<exists>d'. foldE (\<lambda>x d. bindE (h x) (\<lambda>y. Inr (dict_set (f x) y d))) xs d = Inr d'
    \<and> set (dict_keys d') = set (dict_keys d) \<union> f ` set xs"
  using assms
proof (induction xs arbitrary: d)
  case (Cons x xs)
  from Cons.prems obtain y where "h x = Inr y" by auto
  moreover from Cons.IH [of "dict_set (f x) y d"] Cons.prems obtain d' where
    "foldE (\<lambda>x d. bindE (h x) (\<lambda>y. Inr (dict_set (f x) y d))) xs (dict_set (f x) y d) = Inr d'"
    "set (dict_keys d') = insert (f x) (set (dict_keys d)) \<union> f ` set xs" by (auto simp: dict_keys_dict_set)
  ultimately show ?case by simp
qed simp

lemma pass_reason_total:
  assumes "snapshot_ok s" and "o' \<in> set (incoming_open_offers s)" and "d_urgency d \<noteq> None"
  shows "\<exists>why. pass_reason s d o' = Inr why"
proof -
  note pays = incoming_pays(1) [OF assms(1,2)]
  obtain u where u: "d_urgency d = Some u" using assms(3) by blast
  let ?limit = "production_payment_limit (saturating_sub (d_available d) (receive o')) (me s) None"
  obtain v where "evaluate_incoming o' (self_station_id s) (d_available d) (d_reserve d) u (Some (specialty (me s))) ?limit False = Inr v"
    using evaluate_incoming_total [OF pays] by blast
  with u show ?thesis by (auto simp: pass_reason_def pays Let_def)
qed

lemma explain_total:
  assumes "snapshot_ok s" and "d_urgency d \<noteq> None"
  shows "\<exists>reasons. explain_reserve_trader s d = Inr reasons \<and> set (dict_keys reasons) = offer_id ` set (not_accepted s d)"
proof (cases "gate_reason s d")
  case None
  have "\<exists>why. pass_reason s d o' = Inr why" if "o' \<in> set (not_accepted s d)" for o'
    using pass_reason_total [OF assms(1) _ assms(2), of o'] that by (simp add: not_accepted_def)
  from keys_foldE_set [where h = "pass_reason s d" and f = offer_id and d = "[]", OF this] None show ?thesis
    by (simp add: explain_reserve_trader_def)
next
  case (Some why)
  then show ?thesis by (simp add: explain_reserve_trader_def keys_fold_set)
qed

interpretation reserve_trader: trading_strategy decide explain_reserve_trader
proof
  show "\<exists>d m'. decide s m t cb = Inr (d, m') \<and> memory_ok m'
      \<and> int (length (d_actions d)) \<le> max 0 (command_budget_of s cb) \<and> spent s (d_actions d) \<le> inventory (me s)"
    if "memory_ok m" "snapshot_ok s" for m s t cb
    using decide_contract [OF that, of t cb] by blast
  show "\<exists>reasons. explain_reserve_trader s d = Inr reasons \<and> set (dict_keys reasons) = offer_id ` set (not_accepted s d)"
    if "memory_ok m" "snapshot_ok s" "decide s m t cb = Inr (d, m')" for m s t cb d m'
    using decide_contract [OF that(1,2), of t cb] explain_total [OF that(2), of d] that(3) by auto
qed

interpretation observer: trading_strategy decide_passive explain_passive
  by unfold_locales
     (auto simp: decide_passive_def explain_passive_def decision_new_def d_explain_def bundle_le_iff
        keys_fold_set spent_def command_budget_of_def intro: memory_ok_observe)

text \<open>
  C38: every offer is accounted for. Whatever strategy decided, it can always explain itself, and each
  open offer addressed to us either is accepted by the decision or has a recorded reason why not, never
  both.
\<close>

theorem every_offer_accounted_for:
  assumes "memory_ok m" and "snapshot_ok s" and "strategy_decide st s m t cb = Inr (d, m')"
    and "o' \<in> set (incoming_open_offers s)"
  shows "\<exists>reasons. explain_passes st s d = Inr reasons
    \<and> (offer_id o' \<in> accepted_ids d \<longleftrightarrow> offer_id o' \<notin> set (dict_keys reasons))"
  using assms reserve_trader.accounted [OF assms(1,2)] observer.accounted [OF assms(1,2)]
  by (cases st) simp_all

theorem every_offer_accounted_for_witness:
  "\<exists>d m' reasons. strategy_decide ReserveTrader demo_tick memory_init None (Some 0) = Inr (d, m')
     \<and> explain_passes ReserveTrader demo_tick d = Inr reasons \<and> ''offer-1'' \<in> set (dict_keys reasons)"
proof -
  let ?o = "demo_offer ''offer-1'' ''P02'' ''P01'' (Bundle 0 3 0) (Bundle 4 0 0)"
  have "case strategy_decide ReserveTrader demo_tick memory_init None (Some 0) of
      Inr (d, m) \<Rightarrow> d_actions d = [] | Inl _ \<Rightarrow> False" by code_simp
  then obtain d m' where d: "strategy_decide ReserveTrader demo_tick memory_init None (Some 0) = Inr (d, m')" "d_actions d = []"
    by (auto split: sum.splits)
  have o': "?o \<in> set (incoming_open_offers demo_tick)" "offer_id ?o = ''offer-1''" by code_simp+
  have "accepted_ids d = {}" by (simp add: accepted_ids_def d(2) List.map_filter_def)
  with every_offer_accounted_for [OF memory_ok_init demo_snapshot_ok(1) d(1) o'(1)] o'(2) d(1) show ?thesis by auto
qed

end
