(* ===== verification/Status_View.thy ===== *)
theory Status_View
  imports Evidence Requests
begin

text \<open>
  \<open>bazaar_client/status_view.py\<close>: the panel that says where our planet stands, and the file it is
  written to. A file name is given with its suffix in lower case.
\<close>

definition RECENT_TRADES :: nat where
  "RECENT_TRADES = 5"

definition view_bundle :: "(string \<times> int) list \<Rightarrow> string" where
  "view_bundle values =
     (let parts = map (\<lambda>(name, n). show_int n @ '' '' @ name) (filter (\<lambda>(_, n). n \<noteq> 0) values)
      in if parts = [] then ''0'' else py_join '' + '' parts)"

text \<open>\<open>f"{value}"\<close> of the values of \<open>describe()\<close>; a list of names prints with its quotes.\<close>

fun view_value :: "json_value \<Rightarrow> string" where
  "view_value (JStr x) = x"
| "view_value (JInt n) = show_int n"
| "view_value (JBool b) = (if b then ''True'' else ''False'')"
| "view_value (JStrs xs) = ''['' @ py_join '', '' (map (\<lambda>x. [CHR 0x27] @ x @ [CHR 0x27]) xs) @ '']''"
| "view_value (JBundle b) = view_bundle b"

definition describe_action :: "action \<Rightarrow> string" where
  "describe_action a =
     (let details = py_join '' '' (map (\<lambda>(k, v). k @ ''='' @ view_value v) (describe a))
      in if details = [] then kind a else kind a @ '' '' @ details)"

fun lower_name :: "resource \<Rightarrow> string" where
  "lower_name WATER = ''water''"
| "lower_name FOOD = ''food''"
| "lower_name COMPONENTS = ''components''"

definition status_line :: "snapshot \<Rightarrow> string \<Rightarrow> string \<Rightarrow> string" where
  "status_line s status strategy =
     py_join '' | '' (filter (\<lambda>p. p \<noteq> [])
       [obs_station_id (me s), ''tick '' @ show_int (snap_tick s) @ ''/'' @ show_int (duration_ticks (snap_rules s)),
        phase_name (snap_phase s), status,
        ''health '' @ show_int (health (me s)) @ ''/'' @ show_int (max_health (snap_rules s))
          @ (if failed_once (me s) then '' FAILED'' else ''''),
        if strategy \<noteq> [] then ''strategy '' @ strategy else ''''])"

definition reserve_detail :: "decision option \<Rightarrow> resource \<Rightarrow> string" where
  "reserve_detail d r = (case d of None \<Rightarrow> ''''
     | Some d \<Rightarrow> '' (reserve '' @ show_int (int (get (d_reserve d) r)) @ '', ''
         @ ''uncommitted '' @ show_int (int (get (d_available d) r)) @ '', ''
         @ ''surplus '' @ show_int (int (get (d_surplus d) r)) @ '')'')"

definition pending_line :: "decision option \<Rightarrow> nat \<Rightarrow> string" where
  "pending_line d in_flight =
     (let actions = (case d of None \<Rightarrow> [] | Some d \<Rightarrow> d_actions d);
          text = py_join ''; '' (map describe_action actions);
          pending = (if text = [] then ''waiting'' else text)
      in ''pending       '' @ pending
         @ (if in_flight \<noteq> 0 then '' | '' @ show_int (int in_flight) @ '' command(s) awaiting confirmation'' else ''''))"

definition offer_line :: "nat \<Rightarrow> offer_sight \<Rightarrow> string" where
  "offer_line i o' =
     (let outgoing = ov_direction o' = ''outgoing''
      in (if i = 0 then ''open offers   '' else ''              '')
         @ (if outgoing then ''out'' else ''in '') @ '' '' @ ov_offer_id o' @ '' ''
         @ (if outgoing then ''->'' else ''<-'') @ '' '' @ ov_counterparty o' @ ''  ''
         @ ''pay '' @ view_bundle (ov_we_pay o') @ ''  get '' @ view_bundle (ov_we_get o')
         @ ''  expires t'' @ show_int (ov_expires_tick o'))"

definition trade_line :: "nat \<Rightarrow> trade_sight \<Rightarrow> string" where
  "trade_line i t =
     (if i = 0 then ''recent trades '' else ''              '')
     @ ''t'' @ show_int (tv_settled_tick t) @ '' '' @ tv_transaction_id t @ ''  '' @ tv_counterparty t @ ''  ''
     @ ''paid '' @ view_bundle (tv_we_paid t) @ ''  got '' @ view_bundle (tv_we_got t)"

definition recent_trades :: "snapshot \<Rightarrow> transaction list" where
  "recent_trades s = (let ts = sort_key settled_tick (transactions s) in drop (length ts - RECENT_TRADES) ts)"

definition render_lines :: "snapshot \<Rightarrow> decision option \<Rightarrow> string \<Rightarrow> string \<Rightarrow> nat \<Rightarrow> string list result" where
  "render_lines s d status strategy in_flight =
     bindE (mapE (\<lambda>o'. offer_view o' (obs_station_id (me s))) (outgoing_open_offers s @ incoming_open_offers s)) (\<lambda>offers.
     let ts = recent_trades s
     in Inr ([status_line s status strategy,
              ''reserves      '' @ py_join ''   '' (map (\<lambda>r. lower_name r @ '' ''
                 @ show_int (int (get (inventory (me s)) r)) @ reserve_detail d r) resources),
              pending_line d in_flight]
             @ (if offers = [] then [''open offers   none''] else [])
             @ map (\<lambda>(i, o'). offer_line i o') (enumerate 0 offers)
             @ (if ts = [] then [''recent trades none yet''] else [])
             @ map (\<lambda>(i, t). trade_line i (trade_view t (obs_station_id (me s)))) (enumerate 0 (rev ts))))"

definition render_status :: "snapshot \<Rightarrow> decision option \<Rightarrow> string \<Rightarrow> string \<Rightarrow> nat \<Rightarrow> string result" where
  "render_status s d status strategy in_flight =
     bindE (render_lines s d status strategy in_flight) (\<lambda>ls. Inr (py_join [CHR 0x0A] ls))"

subsection \<open>The file\<close>

fun escape_char :: "char \<Rightarrow> string" where
  "escape_char c =
     (if c = CHR ''&'' then ''&amp;'' else if c = CHR ''<'' then ''&lt;'' else if c = CHR ''>'' then ''&gt;''
      else if c = CHR 0x22 then ''&quot;'' else if c = CHR 0x27 then ''&#x27;'' else [c])"

definition html_escape :: "string \<Rightarrow> string" where
  "html_escape x = concat (map escape_char x)"

definition page_head :: "int \<Rightarrow> string" where
  "page_head refresh_s =
     ''<!doctype html><html><head><meta charset='' @ [CHR 0x27] @ ''utf-8'' @ [CHR 0x27] @ ''>''
     @ ''<meta http-equiv='' @ [CHR 0x27] @ ''refresh'' @ [CHR 0x27] @ '' content='' @ [CHR 0x27]
     @ show_int refresh_s @ [CHR 0x27] @ ''>''
     @ ''<meta name='' @ [CHR 0x27] @ ''viewport'' @ [CHR 0x27] @ '' content='' @ [CHR 0x27]
     @ ''width=device-width,initial-scale=1'' @ [CHR 0x27] @ ''>''
     @ ''<title>Bazaar client status</title><style>''
     @ '':root{--bg:#f7f7f5;--ink:#1d1d1b}''
     @ ''@media (prefers-color-scheme:dark){:root{--bg:#161615;--ink:#ecece8}}''
     @ ''body{margin:0;background:var(--bg);color:var(--ink)}''
     @ ''pre{font:14px/1.5 ui-monospace,Consolas,monospace;padding:16px;white-space:pre-wrap}''"

definition status_file_body :: "string \<Rightarrow> string \<Rightarrow> int \<Rightarrow> string" where
  "status_file_body suffix panel refresh_s =
     (if suffix \<in> {''.html'', ''.htm''}
      then page_head refresh_s @ ''</style></head><body><pre>'' @ html_escape panel @ ''</pre></body></html>''
      else panel @ [CHR 0x0A])"

text \<open>
  The states of the directory while the file is replaced, oldest first: as it was, with the temporary
  file, and after the rename.
\<close>

definition write_status_file ::
  "string \<Rightarrow> string \<Rightarrow> string \<Rightarrow> int \<Rightarrow> (string, string) pydict \<Rightarrow> (string, string) pydict list" where
  "write_status_file name suffix panel refresh_s dir =
     (let temporary = name @ ''.tmp'';
          written = dict_set temporary (status_file_body suffix panel refresh_s) dir
      in [dir, written, dict_set name (status_file_body suffix panel refresh_s) (dict_pop temporary written)])"

subsection \<open>Facts\<close>

text \<open>The panel is rendered whenever the station we observe is the one the snapshot is for.\<close>

lemma render_status_total:
  assumes "obs_station_id (me s) = self_station_id s"
  shows "\<exists>panel. render_status s d status strategy in_flight = Inr panel"
proof -
  have "\<exists>vs. mapE (\<lambda>o'. offer_view o' (obs_station_id (me s))) (outgoing_open_offers s @ incoming_open_offers s) = Inr vs"
    unfolding assms by (intro mapE_total offer_view_party) (auto simp: outgoing_open_offers_def incoming_open_offers_def)
  then show ?thesis by (auto simp: render_status_def render_lines_def Let_def)
qed

text \<open>No markup of a name or an id reaches the page.\<close>

lemma html_escape_safe: "set (html_escape x) \<inter> {CHR ''<'', CHR ''>'', CHR 0x22, CHR 0x27} = {}"
  by (induction x) (auto simp: html_escape_def)

lemma status_file_never_partial:
  assumes "d \<in> set (write_status_file name suffix panel refresh_s dir)"
  shows "dict_get d name \<in> {dict_get dir name, Some (status_file_body suffix panel refresh_s)}"
  using assms by (auto simp: write_status_file_def Let_def dict_get_set dict_get_pop)

end
