(* ===== verification/Diagnostics.thy ===== *)
theory Diagnostics
  imports Session
begin

text \<open>
  \<open>bazaar_client/diagnostics.py\<close>: from a failure to its category, its exit code and whether a new
  connection can help. A failure is its class, as far as \<open>isinstance\<close> tells classes apart, the text
  of \<open>str(exc)\<close>, the name of its type and the control code it may carry. The classes of the socket
  library are the constructors up to \<open>ConnectionClosed\<close>; \<open>session_failure\<close> places the session's own.
\<close>

datatype failure_kind = CONFIGURATION | AUTHENTICATION | PROTOCOL | NETWORK | APPLICATION

fun kind_value :: "failure_kind \<Rightarrow> string" where
  "kind_value CONFIGURATION = ''configuration''"
| "kind_value AUTHENTICATION = ''authentication''"
| "kind_value PROTOCOL = ''protocol''"
| "kind_value NETWORK = ''network''"
| "kind_value APPLICATION = ''application''"

fun EXIT_CODES :: "failure_kind \<Rightarrow> int" where
  "EXIT_CODES APPLICATION = 1"
| "EXIT_CODES CONFIGURATION = 2"
| "EXIT_CODES AUTHENTICATION = 3"
| "EXIT_CODES PROTOCOL = 4"
| "EXIT_CODES NETWORK = 5"

definition RETRYABLE :: "failure_kind set" where
  "RETRYABLE = {NETWORK}"

record diagnosis =
  dg_kind :: failure_kind
  dg_summary :: string
  dg_hint :: string

definition exit_code :: "diagnosis \<Rightarrow> int" where
  "exit_code d = EXIT_CODES (dg_kind d)"

definition retryable :: "diagnosis \<Rightarrow> bool" where
  "retryable d \<longleftrightarrow> dg_kind d \<in> RETRYABLE"

definition show_diagnosis :: "diagnosis \<Rightarrow> string" where
  "show_diagnosis d = ''['' @ kind_value (dg_kind d) @ ''] '' @ dg_summary d @ '' -- '' @ dg_hint d"

datatype exc_class =
    InvalidURI
  | InvalidStatus int
  | InvalidHandshake
  | ConnectionRefusedError
  | GaiError
  | TimedOut
  | OtherOSError
  | ConnectionClosed
  | ConfigurationError
  | SubprotocolNotSelected
  | MessageFormat
  | SessionClosed
  | OtherClass

record failure =
  fl_class :: exc_class
  fl_text :: string
  fl_type :: string
  fl_code :: "control_code option"

text \<open>The subclass relation of the classes \<open>diagnose\<close> asks for.\<close>

definition is_handshake :: "exc_class \<Rightarrow> bool" where
  "is_handshake c \<longleftrightarrow> c = InvalidHandshake \<or> (\<exists>n. c = InvalidStatus n)"

definition is_os_error :: "exc_class \<Rightarrow> bool" where
  "is_os_error c \<longleftrightarrow> c \<in> {ConnectionRefusedError, GaiError, TimedOut, OtherOSError}"

definition describe_failure :: "failure \<Rightarrow> string" where
  "describe_failure f = (if fl_text f = [] then fl_type f else fl_text f)"

definition dgn :: "failure_kind \<Rightarrow> string \<Rightarrow> string \<Rightarrow> diagnosis" where
  "dgn k t h = \<lparr>dg_kind = k, dg_summary = t, dg_hint = h\<rparr>"

definition diagnose_http :: "int \<Rightarrow> string \<Rightarrow> diagnosis" where
  "diagnose_http status t =
     (if status = 401 \<or> status = 403 then
        dgn AUTHENTICATION t (''token rejected: check BAZAAR_TOKEN or the credentials file; ''
          @ ''a restarted practice server issues new keys'')
      else if status = 404 then
        dgn CONFIGURATION t ''no WebSocket endpoint at that path; the URL usually ends in /ws''
      else if status = 400 then
        dgn PROTOCOL t ''the server refused the handshake: wrong station or subprotocol''
      else if status \<ge> 500 then dgn NETWORK t ''the server is failing; retry later''
      else dgn PROTOCOL t (''unexpected HTTP '' @ show_int status @ '' during the handshake''))"

definition diagnose :: "failure \<Rightarrow> control_code option \<Rightarrow> diagnosis" where
  "diagnose f given =
     (let c = (case given of Some g \<Rightarrow> Some g | None \<Rightarrow> fl_code f);
          t = describe_failure f;
          cls = fl_class f
      in if cls = ConfigurationError then
           dgn CONFIGURATION t (''check --ws-url, --token/BAZAAR_TOKEN, --credentials-file and ''
             @ ''--strategy (README: Configuration)'')
         else if cls = InvalidURI then
           dgn CONFIGURATION t ''the endpoint must look like ws://host:port/ws or wss://host/ws''
         else case cls of
           InvalidStatus n \<Rightarrow> diagnose_http n t
         | _ \<Rightarrow> (case c of
             Some cc \<Rightarrow>
               if cc = INVALID_AUTHENTICATION then
                 dgn AUTHENTICATION t ''the server rejected this token for this run; fetch a current key''
               else dgn PROTOCOL t (''the server refused the session with '' @ control_code_name cc
                 @ ''; '' @ ''check protocol version and run id'')
           | None \<Rightarrow>
               if cls \<in> {SubprotocolNotSelected, MessageFormat} then
                 dgn PROTOCOL t (''client and server disagree on the message format or run; ''
                   @ ''regenerate bazaar_pb2.py (make proto) and check the server version'')
               else if is_handshake cls then
                 dgn PROTOCOL t ''the WebSocket handshake failed; is this a Bazaar endpoint?''
               else if cls = ConnectionRefusedError then
                 dgn NETWORK t (''nothing is listening there: is the server running ''
                   @ ''(docker compose up / python -m bazaar_sim.server)?'')
               else if cls = GaiError then
                 dgn NETWORK t ''the host name did not resolve; check --ws-url''
               else if cls = TimedOut then
                 dgn NETWORK t ''no answer in time: the server is slow, unreachable, or firewalled''
               else if is_os_error cls \<or> cls = ConnectionClosed \<or> cls = SessionClosed then
                 dgn NETWORK t ''the connection dropped; the client reconnects automatically''
               else dgn APPLICATION (fl_type f @ '': '' @ t)
                 (''unexpected error inside the client; rerun with --log-level DEBUG ''
                  @ ''and check the evidence log'')))"

text \<open>The exceptions of the session as failures; \<open>ConnectionLost\<close> is the socket library's
  \<open>ConnectionClosed\<close> from a write, and its text and that of other exceptions is not modelled.\<close>

fun session_failure :: "session_error \<Rightarrow> failure" where
  "session_failure (SessionClosedError m) = \<lparr>fl_class = SessionClosed, fl_text = m, fl_type = ''SessionClosedError'', fl_code = None\<rparr>"
| "session_failure (CommandBlockedError m) = \<lparr>fl_class = OtherClass, fl_text = m, fl_type = ''CommandBlockedError'', fl_code = None\<rparr>"
| "session_failure (SessionAbortedError m c) = \<lparr>fl_class = OtherClass, fl_text = m, fl_type = ''SessionAbortedError'', fl_code = c\<rparr>"
| "session_failure TimeoutError = \<lparr>fl_class = TimedOut, fl_text = [], fl_type = ''TimeoutError'', fl_code = None\<rparr>"
| "session_failure NotConnectedError = \<lparr>fl_class = OtherClass, fl_text = ''send() before connect()'', fl_type = ''NotConnectedError'', fl_code = None\<rparr>"
| "session_failure ConnectionLost = \<lparr>fl_class = ConnectionClosed, fl_text = [], fl_type = ''ConnectionClosed'', fl_code = None\<rparr>"
| "session_failure (Raised e) = \<lparr>fl_class = (if e \<in> {UninitializedMessageError, MessageTooLargeError, WireFormatError,
      UnknownServerMessageError, RunIdChanged} then MessageFormat else OtherClass),
      fl_text = [], fl_type = ''Exception'', fl_code = None\<rparr>"

text \<open>The category decides the exit code, and a failure is retryable exactly if its code is 5.\<close>

lemma exit_codes_distinct: "EXIT_CODES a = EXIT_CODES b \<longleftrightarrow> a = b"
  by (cases a; cases b) simp_all

lemma dgn_fields [simp]: "dg_kind (dgn k t h) = k" "dg_summary (dgn k t h) = t" "dg_hint (dgn k t h) = h"
  by (simp_all add: dgn_def)

lemma retryable_iff: "retryable d \<longleftrightarrow> exit_code d = 5"
  by (cases "dg_kind d") (simp_all add: retryable_def RETRYABLE_def exit_code_def)

text \<open>Which failures a new connection can help: a failing server, and a connection that could not be
  made, dropped or fell silent.\<close>

lemma diagnose_network:
  "dg_kind (diagnose f given) = NETWORK \<longleftrightarrow>
     (case fl_class f of
        InvalidStatus n \<Rightarrow> 500 \<le> n
      | c \<Rightarrow> given = None \<and> fl_code f = None
          \<and> c \<in> {ConnectionRefusedError, GaiError, TimedOut, OtherOSError, ConnectionClosed, SessionClosed})"
  by (auto simp: diagnose_def Let_def diagnose_http_def is_os_error_def is_handshake_def
      split: exc_class.splits option.splits)

lemma session_failure_network:
  "retryable (diagnose (session_failure e) None) \<longleftrightarrow>
     (case e of SessionClosedError _ \<Rightarrow> True | TimeoutError \<Rightarrow> True | ConnectionLost \<Rightarrow> True | _ \<Rightarrow> False)"
  by (cases e) (auto simp: retryable_def RETRYABLE_def diagnose_network)

end
