(* ===== verification/Trading.thy ===== *)
theory Trading
  imports Executor_Safety Strategy Status_View Diagnostics
begin

text \<open>
  \<open>bazaar_client/autonomous.py\<close>: observe, decide, act, record, and reconnect. The loop owns an
  executor (\<open>tr_memory\<close> is also its policy memory), a status tracker and the statistics that
  outlive a connection. Measured times are arguments; log output is left out.
\<close>

record trading_stats =
  ts_decisions :: int
  ts_commands_sent :: int
  ts_commands_ok :: int
  ts_commands_rejected :: int
  ts_accepts :: int
  ts_offers :: int
  ts_gifts :: int
  ts_advertisements :: int
  ts_withdrawals :: int
  ts_rejections_by_code :: "(string, int) pydict"
  ts_final_snapshot :: "snapshot option"
  ts_last_logged_tick :: "int option"
  ts_last_panel_tick :: "int option"

definition stats_new :: trading_stats where
  "stats_new = \<lparr>ts_decisions = 0, ts_commands_sent = 0, ts_commands_ok = 0, ts_commands_rejected = 0,
     ts_accepts = 0, ts_offers = 0, ts_gifts = 0, ts_advertisements = 0, ts_withdrawals = 0,
     ts_rejections_by_code = [], ts_final_snapshot = None, ts_last_logged_tick = None,
     ts_last_panel_tick = None\<rparr>"

definition record_rejection :: "string \<Rightarrow> trading_stats \<Rightarrow> trading_stats" where
  "record_rejection c st = st\<lparr>ts_rejections_by_code := count_key (ts_rejections_by_code st) c\<rparr>"

record trading_loop =
  lp_trader :: trader
  lp_world :: world_model
  lp_stats :: trading_stats
  lp_status :: status_tracker
  lp_strategy :: strategy
  lp_session_number :: int
  lp_status_every :: int
  lp_status_file :: bool
  lp_panels :: "string list"

definition with_trader :: "(trader \<Rightarrow> trader) \<Rightarrow> trading_loop \<Rightarrow> trading_loop" where
  "with_trader f lp = lp\<lparr>lp_trader := f (lp_trader lp)\<rparr>"

definition on_stats :: "(trading_stats \<Rightarrow> trading_stats) \<Rightarrow> trading_loop \<Rightarrow> trading_loop" where
  "on_stats f lp = lp\<lparr>lp_stats := f (lp_stats lp)\<rparr>"

definition session_of :: "trading_loop \<Rightarrow> session" where
  "session_of lp = tr_session (lp_trader lp)"

definition set_session :: "session \<Rightarrow> trading_loop \<Rightarrow> trading_loop" where
  "set_session ss lp = with_trader (\<lambda>tr. tr\<lparr>tr_session := ss\<rparr>) lp"

definition memory_of :: "trading_loop \<Rightarrow> policy_memory" where
  "memory_of lp = tr_memory (lp_trader lp)"

definition on_evidence :: "(evidence_log \<Rightarrow> evidence_log) \<Rightarrow> trading_loop \<Rightarrow> trading_loop" where
  "on_evidence f lp = with_trader (\<lambda>tr. tr\<lparr>tr_evidence := f (tr_evidence tr)\<rparr>) lp"

text \<open>The tracker's \<open>on_change\<close> is the evidence log's status event.\<close>

definition report_change :: "status_tracker \<times> status_change \<Rightarrow> trading_loop \<Rightarrow> trading_loop" where
  "report_change r lp = (case r of (st, ch) \<Rightarrow>
     let lp = lp\<lparr>lp_status := st\<rparr>
     in case ch of None \<Rightarrow> lp
        | Some (old, new, detail) \<Rightarrow> on_evidence (status_event (status_value new) (Some (status_value old)) detail) lp)"

definition set_status :: "rat \<Rightarrow> client_status \<Rightarrow> string \<Rightarrow> trading_loop \<Rightarrow> trading_loop" where
  "set_status now x detail lp = report_change (status_set now x detail (lp_status lp)) lp"

subsection \<open>One decision\<close>

record step_plan =
  sp_snapshot :: snapshot
  sp_queue_ms :: "rat option"
  sp_budget :: int
  sp_decision :: decision

text \<open>\<open>step\<close> up to the strategy's answer: it sees the newest snapshot, and at most one command.\<close>

definition newest_of :: "trading_loop \<Rightarrow> snapshot \<Rightarrow> snapshot" where
  "newest_of lp s = (case ss_latest (session_of lp) of None \<Rightarrow> s
     | Some v \<Rightarrow> if snapshot_sequence s < snapshot_sequence v then v else s)"

definition step_decide :: "rat \<Rightarrow> snapshot \<Rightarrow> trading_loop \<Rightarrow> (session_error + step_plan) \<times> trading_loop" where
  "step_decide since s lp =
     (let s = newest_of lp s;
          queue_ms = map_option (\<lambda>_. since) (dict_get (ss_received_at (session_of lp)) (snapshot_sequence s))
      in case remaining_command_budget (session_of lp) of (left, ss) \<Rightarrow>
         let lp = set_session ss lp; budget = min 1 left
         in case strategy_decide (lp_strategy lp) s (memory_of lp) (Some (tr_commitments (lp_trader lp))) (Some budget) of
              Inl e \<Rightarrow> (Inl (Raised e), lp)
            | Inr (d, m) \<Rightarrow> (Inr \<lparr>sp_snapshot = s, sp_queue_ms = queue_ms, sp_budget = budget, sp_decision = d\<rparr>,
                 with_trader (\<lambda>tr. tr\<lparr>tr_memory := m\<rparr>) lp))"

definition wait_reason :: "step_plan \<Rightarrow> string option" where
  "wait_reason p =
     (if d_actions (sp_decision p) = [] \<and> snap_phase (sp_snapshot p) = RUNNING
      then Some (if sp_budget p \<le> 0 then ''no command slot is available this tick''
                 else ''nothing met the strategy'' @ [CHR 0x27] @ ''s criteria to act'')
      else None)"

definition log_decision :: "string \<Rightarrow> snapshot \<Rightarrow> decision \<Rightarrow> decision_context \<Rightarrow> trading_loop \<Rightarrow>
    (string option \<times> trading_loop) result" where
  "log_decision now s d ctx lp =
     (let previous = ts_last_logged_tick (lp_stats lp)
      in if d_actions d = [] \<and> Some (snap_tick s) = previous then Inr (None, lp)
         else
           let ctx = (case previous of
                  Some t \<Rightarrow> if t + 1 < snap_tick s then ctx\<lparr>dx_ticks_skipped := Some (snap_tick s - t - 1)\<rparr> else ctx
                | None \<Rightarrow> ctx);
               lp = on_stats (\<lambda>st. st\<lparr>ts_last_logged_tick := Some (snap_tick s)\<rparr>) lp
           in bindE (explain_passes (lp_strategy lp) s d) (\<lambda>passes.
              bindE (evidence_decision now s d ctx passes (tr_evidence (lp_trader lp))) (\<lambda>(did, ev).
              Inr (Some did, on_evidence (\<lambda>_. ev) lp))))"

definition show_status :: "snapshot \<Rightarrow> decision \<Rightarrow> trading_loop \<Rightarrow> trading_loop result" where
  "show_status s d lp =
     (let due = 0 < lp_status_every lp \<and> snap_tick s mod lp_status_every lp = 0
              \<and> Some (snap_tick s) \<noteq> ts_last_panel_tick (lp_stats lp)
      in if \<not> due \<and> \<not> lp_status_file lp then Inr lp
         else bindE (render_status s (Some d) (status_value (st_status (lp_status lp)))
                (strategy_name (lp_strategy lp)) (inflight_count (tr_commitments (lp_trader lp)))) (\<lambda>panel.
              Inr (lp\<lparr>lp_stats := (if due then (lp_stats lp)\<lparr>ts_last_panel_tick := Some (snap_tick s)\<rparr> else lp_stats lp),
                      lp_panels := lp_panels lp @ [panel]\<rparr>)))"

text \<open>The numbers a step keeps before it logs: the two latencies and one more decision.\<close>

definition counted :: "rat \<Rightarrow> step_plan \<Rightarrow> trading_loop \<Rightarrow> trading_loop" where
  "counted decide_ms p lp =
     (let lp = (case sp_queue_ms p of None \<Rightarrow> lp | Some q \<Rightarrow> with_trader (record_latency ''queue'' q) lp);
          lp = with_trader (record_latency ''decide'' decide_ms) lp
      in on_stats (\<lambda>st. st\<lparr>ts_decisions := ts_decisions st + 1\<rparr>) lp)"

definition step_context :: "rat \<Rightarrow> step_plan \<Rightarrow> trading_loop \<Rightarrow> decision_context" where
  "step_context decide_ms p lp =
     (let arrived = (case ss_latest (session_of lp) of None \<Rightarrow> 0
             | Some v \<Rightarrow> snapshot_sequence v - snapshot_sequence (sp_snapshot p))
      in \<lparr>dx_session = lp_session_number lp, dx_strategy = strategy_name (lp_strategy lp),
          dx_command_budget = sp_budget p, dx_queue_ms = sp_queue_ms p, dx_decide_ms = decide_ms,
          dx_states_during_decision = arrived,
          dx_wait_reason = wait_reason p, dx_ticks_skipped = None\<rparr>)"

definition step_record :: "string \<Rightarrow> rat \<Rightarrow> step_plan \<Rightarrow> trading_loop \<Rightarrow> (string option \<times> trading_loop) result" where
  "step_record now decide_ms p lp =
     bindE (log_decision now (sp_snapshot p) (sp_decision p) (step_context decide_ms p lp) (counted decide_ms p lp)) (\<lambda>(did, lp).
     bindE (show_status (sp_snapshot p) (sp_decision p) lp) (\<lambda>lp. Inr (did, lp)))"

text \<open>What an exception of these lines leaves behind: the numbers stay counted. The evidence log
  never raises (\<open>evidence_decision_total\<close>), so \<open>_log_decision\<close> can fail in \<open>explain_passes\<close> only, after
  it noted the tick; the panel is rendered before \<open>_show_status\<close> changes anything.\<close>

definition step_unrecorded :: "string \<Rightarrow> rat \<Rightarrow> step_plan \<Rightarrow> trading_loop \<Rightarrow> trading_loop" where
  "step_unrecorded now decide_ms p lp =
     (case log_decision now (sp_snapshot p) (sp_decision p) (step_context decide_ms p lp) (counted decide_ms p lp) of
        Inr (did, lp) \<Rightarrow> lp
      | Inl e \<Rightarrow> on_stats (\<lambda>st. st\<lparr>ts_last_logged_tick := Some (snap_tick (sp_snapshot p))\<rparr>) (counted decide_ms p lp))"

text \<open>The bookkeeping of one answered command.\<close>

definition count_action :: "action \<Rightarrow> trading_stats \<Rightarrow> trading_stats" where
  "count_action a st =
     (let st = st\<lparr>ts_commands_sent := ts_commands_sent st + 1\<rparr>;
          st = (case a of
              AcceptAction _ \<Rightarrow> st\<lparr>ts_accepts := ts_accepts st + 1\<rparr>
            | OfferAction _ _ _ _ \<Rightarrow> st\<lparr>ts_offers := ts_offers st + 1\<rparr>
            | AdvertiseAction _ _ _ \<Rightarrow> st\<lparr>ts_advertisements := ts_advertisements st + 1\<rparr>
            | WithdrawAction _ \<Rightarrow> st\<lparr>ts_withdrawals := ts_withdrawals st + 1\<rparr>
            | SyncAction \<Rightarrow> st)
      in if is_gift a then st\<lparr>ts_gifts := ts_gifts st + 1\<rparr> else st)"

definition record_answer :: "action \<Rightarrow> session_outcome \<Rightarrow> trading_loop \<Rightarrow> trading_loop" where
  "record_answer a x lp =
     (let lp = on_stats (count_action a) lp
      in if so_ok x then on_stats (\<lambda>st. st\<lparr>ts_commands_ok := ts_commands_ok st + 1\<rparr>) lp
         else
           let lp = on_stats (\<lambda>st. record_rejection (so_code_name x)
                      (st\<lparr>ts_commands_rejected := ts_commands_rejected st + 1\<rparr>)) lp
           in case so_result x of
                Some r \<Rightarrow> if code r = RATE_LIMITED
                  then with_trader (\<lambda>tr. tr\<lparr>tr_memory := block_until (retry_after_tick r) (tr_memory tr)\<rparr>) lp else lp
              | None \<Rightarrow> lp)"

definition draw_id :: "action \<Rightarrow> trading_loop \<Rightarrow> (session_error + string) \<times> trading_loop" where
  "draw_id a lp = (case session_request_ids (session_of lp) of
     Inl e \<Rightarrow> (Inl e, lp)
   | Inr g \<Rightarrow> (case next_id (kind a) g of
       Inl e \<Rightarrow> (Inl (Raised e), lp)
     | Inr (rid, g) \<Rightarrow> (Inr rid, set_session ((session_of lp)\<lparr>ss_ids := Some g\<rparr>) lp)))"

definition acted :: "action \<Rightarrow> session_outcome \<Rightarrow> trader \<Rightarrow> trading_loop \<Rightarrow> trading_loop" where
  "acted a x tr lp =
     (let lp = record_answer a x (lp\<lparr>lp_trader := tr\<rparr>)
      in on_stats (\<lambda>st. st\<lparr>ts_final_snapshot := ss_latest (session_of lp)\<rparr>) lp)"

text \<open>\<open>for action in decision.actions\<close>: a command blocked locally ends the step, any other exception
  leaves it. A call that ended is one that \<open>execution\<close> reaches.\<close>

inductive run_actions :: "(client_message \<Rightarrow> bytes) \<Rightarrow> (bytes \<Rightarrow> string) \<Rightarrow> string option \<Rightarrow> action list \<Rightarrow>
    trading_loop \<Rightarrow> session_error + unit \<Rightarrow> trading_loop \<Rightarrow> bool"
  for ser digest did where
  ra_none: "run_actions ser digest did [] lp (Inr ()) lp"
| ra_no_id: "draw_id a lp = (Inl e, lp1) \<Longrightarrow> run_actions ser digest did (a # acts) lp (Inl e) lp1"
| ra_done: "draw_id a lp = (Inr rid, lp1) \<Longrightarrow>
     execution ser digest a rid did (lp_trader lp1) (Returned x) tr \<Longrightarrow>
     run_actions ser digest did acts (acted a x tr lp1) r lp2 \<Longrightarrow>
     run_actions ser digest did (a # acts) lp r lp2"
| ra_blocked: "draw_id a lp = (Inr rid, lp1) \<Longrightarrow>
     execution ser digest a rid did (lp_trader lp1) (Gave_up (CommandBlockedError m) xo) tr \<Longrightarrow>
     run_actions ser digest did (a # acts) lp (Inr ()) (lp1\<lparr>lp_trader := tr\<rparr>)"
| ra_raised: "draw_id a lp = (Inr rid, lp1) \<Longrightarrow>
     execution ser digest a rid did (lp_trader lp1) (Gave_up e xo) tr \<Longrightarrow> (\<nexists>m. e = CommandBlockedError m) \<Longrightarrow>
     run_actions ser digest did (a # acts) lp (Inl e) (lp1\<lparr>lp_trader := tr\<rparr>)"
| ra_refused: "draw_id a lp = (Inr rid, lp1) \<Longrightarrow>
     execution ser digest a rid did (lp_trader lp1) (Refused e) tr \<Longrightarrow>
     run_actions ser digest did (a # acts) lp (Inl e) (lp1\<lparr>lp_trader := tr\<rparr>)"

text \<open>A whole step; while the strategy thinks, in its own thread, the session runs on.\<close>

inductive step_run :: "(client_message \<Rightarrow> bytes) \<Rightarrow> (bytes \<Rightarrow> string) \<Rightarrow> snapshot \<Rightarrow>
    trading_loop \<Rightarrow> session_error + unit \<Rightarrow> trading_loop \<Rightarrow> bool"
  for ser digest s where
  sr_undecided: "step_decide since s lp = (Inl e, lp1) \<Longrightarrow> step_run ser digest s lp (Inl e) lp1"
| sr_unrecorded: "step_decide since s lp = (Inr p, lp1) \<Longrightarrow> step_record now ms p (set_session ss lp1) = Inl e \<Longrightarrow>
     step_run ser digest s lp (Inl (Raised e)) (step_unrecorded now ms p (set_session ss lp1))"
| sr_acted: "step_decide since s lp = (Inr p, lp1) \<Longrightarrow> step_record now ms p (set_session ss lp1) = Inr (did, lp2) \<Longrightarrow>
     run_actions ser digest did (d_actions (sp_decision p)) lp2 r lp3 \<Longrightarrow> step_run ser digest s lp r lp3"

subsection \<open>The loop of one connection\<close>

text \<open>\<open>run\<close> up to its loop: the first state, then the readiness confirmation.\<close>

definition admit_state :: "rat \<Rightarrow> snapshot \<Rightarrow> trading_loop \<Rightarrow> trading_loop" where
  "admit_state now s lp = set_status now AUTHENTICATED
     (''token accepted; first state as '' @ self_station_id s @ '' in run '' @ run_id s) lp"

definition admit_ready :: "rat \<Rightarrow> snapshot \<Rightarrow> readiness_ack \<Rightarrow> trading_loop \<Rightarrow> (session_error + int) \<times> trading_loop" where
  "admit_ready now s ack lp =
     (let lp = set_status now SYNCHRONIZED
            (''readiness confirmed at sequence '' @ show_int (ack_snapshot_sequence ack)) lp
      in if mem_run_id (memory_of lp) \<noteq> None \<and> mem_run_id (memory_of lp) \<noteq> Some (run_id s)
         then (Inl (SessionAbortedError ''run changed on reconnect; restart with fresh policy memory'' None), lp)
         else (Inr (snapshot_sequence s),
               with_trader (\<lambda>tr. tr\<lparr>tr_memory := (tr_memory tr)\<lparr>mem_run_id := Some (run_id s)\<rparr>\<rparr>) lp))"

definition below_cap :: "int option \<Rightarrow> trading_loop \<Rightarrow> bool" where
  "below_cap cap lp \<longleftrightarrow> (case cap of None \<Rightarrow> True | Some n \<Rightarrow> ts_decisions (lp_stats lp) < n)"

definition turn_timeout :: "rat \<Rightarrow> rat \<Rightarrow> trading_loop \<Rightarrow> trading_loop" where
  "turn_timeout now later lp = report_change (snd (check_stale now later (lp_status lp))) lp"

definition turn_state :: "rat \<Rightarrow> rat \<Rightarrow> snapshot \<Rightarrow> trading_loop \<Rightarrow> trading_loop" where
  "turn_state now later s lp =
     (let lp = lp\<lparr>lp_world := snd (apply_snapshot s (lp_world lp))\<rparr>;
          lp = on_stats (\<lambda>st. st\<lparr>ts_final_snapshot := Some s\<rparr>) lp
      in report_change (on_state now later (snap_phase s) (snap_rules s) (snap_tick s) (lp_status lp)) lp)"

text \<open>
  The loop, from the sequence it waits for: the session runs on while it waits, and the wait ends
  with a state at least that new, a timeout, or another exception.
\<close>

inductive run_loop :: "(client_message \<Rightarrow> bytes) \<Rightarrow> (bytes \<Rightarrow> string) \<Rightarrow> int option \<Rightarrow> int \<Rightarrow>
    trading_loop \<Rightarrow> session_error + unit \<Rightarrow> trading_loop \<Rightarrow> bool"
  for ser digest cap where
  rl_cap: "\<not> below_cap cap lp \<Longrightarrow> run_loop ser digest cap sq lp (Inr ()) lp"
| rl_quiet: "below_cap cap lp \<Longrightarrow> run_loop ser digest cap sq (turn_timeout now later (set_session ss lp)) r lp' \<Longrightarrow>
     run_loop ser digest cap sq lp r lp'"
| rl_closed: "below_cap cap lp \<Longrightarrow> run_loop ser digest cap sq lp (Inr ()) (set_session ss lp)"
| rl_failed: "below_cap cap lp \<Longrightarrow> e \<noteq> TimeoutError \<Longrightarrow> (\<nexists>m. e = SessionClosedError m) \<Longrightarrow>
     run_loop ser digest cap sq lp (Inl e) (set_session ss lp)"
| rl_raised: "below_cap cap lp \<Longrightarrow> sq \<le> snapshot_sequence s \<Longrightarrow>
     step_run ser digest s (turn_state now later s (set_session ss lp)) (Inl e) lp' \<Longrightarrow>
     run_loop ser digest cap sq lp (Inl e) lp'"
| rl_ended: "below_cap cap lp \<Longrightarrow> sq \<le> snapshot_sequence s \<Longrightarrow>
     step_run ser digest s (turn_state now later s (set_session ss lp)) (Inr ()) lp' \<Longrightarrow>
     snap_phase s \<in> TERMINAL_PHASES \<Longrightarrow> run_loop ser digest cap sq lp (Inr ()) lp'"
| rl_next: "below_cap cap lp \<Longrightarrow> sq \<le> snapshot_sequence s \<Longrightarrow>
     step_run ser digest s (turn_state now later s (set_session ss lp)) (Inr ()) lp1 \<Longrightarrow>
     snap_phase s \<notin> TERMINAL_PHASES \<Longrightarrow> run_loop ser digest cap (snapshot_sequence s + 1) lp1 r lp' \<Longrightarrow>
     run_loop ser digest cap sq lp r lp'"

subsection \<open>The statistics balance\<close>

definition tallies_ok :: "trading_stats \<Rightarrow> bool" where
  "tallies_ok st \<longleftrightarrow> ts_commands_sent st = ts_commands_ok st + ts_commands_rejected st
     \<and> ts_commands_sent st = ts_accepts st + ts_offers st + ts_advertisements st + ts_withdrawals st
     \<and> ts_gifts st \<le> ts_offers st
     \<and> ts_commands_rejected st = sum_list (dict_values (ts_rejections_by_code st))"

lemma sum_count_key: "sum_list (dict_values (count_key t k)) = sum_list (dict_values t) + 1"
  by (induction t) (auto simp: count_key_def dict_get_or_def)

lemma tallies_ok_new [wf_intros]: "tallies_ok stats_new"
  by (simp add: tallies_ok_def stats_new_def)

lemma report_change_frame [simp]:
  "lp_stats (report_change r lp) = lp_stats lp"
  "tr_memory (lp_trader (report_change r lp)) = tr_memory (lp_trader lp)"
  "tr_session (lp_trader (report_change r lp)) = tr_session (lp_trader lp)"
  "tr_commitments (lp_trader (report_change r lp)) = tr_commitments (lp_trader lp)"
  "ev_records (tr_evidence (lp_trader (report_change r lp))) = ev_records (tr_evidence (lp_trader lp))"
  by (auto simp: report_change_def Let_def on_evidence_def with_trader_def status_event_def write_line_def
      split: prod.splits option.splits)

subsection \<open>One call adds one record and keeps the memory usable\<close>

abbreviation records_of :: "trader \<Rightarrow> nat" where
  "records_of tr \<equiv> length (ev_records (tr_evidence tr))"

definition carried_on :: "trader \<Rightarrow> trader \<Rightarrow> bool" where
  "carried_on tr tr' \<longleftrightarrow> records_of tr' = records_of tr \<and> (memory_ok (tr_memory tr) \<longrightarrow> memory_ok (tr_memory tr'))
     \<and> blocked_until_tick (tr_memory tr') = blocked_until_tick (tr_memory tr)"

lemma carried_on_refl: "carried_on tr tr"
  by (simp add: carried_on_def)

lemma carried_on_trans: "carried_on a b \<Longrightarrow> carried_on b c \<Longrightarrow> carried_on a c"
  by (simp add: carried_on_def)

lemma carried_on_basic:
  "carried_on tr (on_record f h tr)" "carried_on tr (resolve_hold rid tr)" "carried_on tr (finish_record h s tr)"
  "carried_on tr (record_latency x ms tr)" "carried_on tr (hold_stock a rid tr)" "carried_on tr (tr\<lparr>tr_session := ss\<rparr>)"
  "carried_on tr (tr\<lparr>tr_evidence := evidence_note h n (tr_evidence tr)\<rparr>)"
  by (cases s; cases a; simp add: carried_on_def on_record_def resolve_hold_def finish_record_def record_latency_def
      hold_stock_def evidence_complete_def evidence_note_def write_line_def Let_def)+

lemma carried_on_refused: "carried_on tr (note_refused_recipient h r tr)"
  by (auto simp: note_refused_recipient_def carried_on_def memory_ok_def cp_ok_mark_failed split: option.splits json_value.splits)

lemma carried_on_failed: "carried_on tr (execute_failed h rid e tr)"
  unfolding execute_failed_def Let_def
  by (rule carried_on_trans [OF carried_on_trans [OF _ carried_on_basic(7)] carried_on_basic(3)])
     (simp add: carried_on_refl carried_on_basic split: session_error.splits)

lemma carried_on_outcome: "carried_on tr (record_outcome h x tr)"
proof (cases "so_result x")
  case None
  then show ?thesis
    by (auto simp: record_outcome_def Let_def carried_on_refl split: option.splits
      intro: carried_on_trans [OF carried_on_basic(1) carried_on_basic(7)])
next
  case (Some r)
  have deadline: "carried_on a (b\<lparr>tr_latency := l\<rparr>)" if "carried_on a b" for a b l
    using that by (simp add: carried_on_def)
  from Some show ?thesis
    by (auto simp: record_outcome_def Let_def split: option.splits
      intro!: carried_on_trans [OF _ carried_on_refused] deadline
      intro: carried_on_basic(1) carried_on_trans [OF carried_on_basic(1) carried_on_basic(1)])
qed

lemma carried_on_answered: "execute_answered ms h rid x tr = (st, tr') \<Longrightarrow> carried_on tr tr'"
proof -
  assume run: "execute_answered ms h rid x tr = (st, tr')"
  let ?tr = "record_outcome h x (record_latency ''response'' ms (on_record (\<lambda>r. r\<lparr>er_response_ms := Some ms\<rparr>) h tr))"
  have 1: "carried_on tr ?tr"
    by (intro carried_on_trans [OF carried_on_trans [OF carried_on_basic(1) carried_on_basic(4)] carried_on_outcome])
  have 2: "carried_on tr (if \<not> so_ok x then resolve_hold rid ?tr else ?tr)"
    using 1 carried_on_trans [OF 1 carried_on_basic(2)] by simp
  from run have "tr' = (if \<not> so_ok x then resolve_hold rid ?tr else ?tr)
      \<or> tr' = finish_record h None (resolve_hold rid (if \<not> so_ok x then resolve_hold rid ?tr else ?tr))"
    by (simp add: execute_answered_def Let_def split: if_splits)
  then show ?thesis
    using 2 carried_on_trans [OF carried_on_trans [OF 2 carried_on_basic(2)] carried_on_basic(3)] by blast
qed

definition begun_from :: "action \<Rightarrow> trader \<Rightarrow> stage \<Rightarrow> trader \<Rightarrow> bool" where
  "begun_from a tr0 st tr \<longleftrightarrow> records_of tr = Suc (records_of tr0)
     \<and> (memory_ok (tr_memory tr0) \<longrightarrow> memory_ok (tr_memory tr))
     \<and> blocked_until_tick (tr_memory tr) = blocked_until_tick (tr_memory tr0)
     \<and> ((\<exists>e. st = Refused e) \<or> a \<noteq> SyncAction)"

lemma begun_from_carried:
  "begun_from a tr0 st tr \<Longrightarrow> carried_on tr tr' \<Longrightarrow> (\<nexists>e. st = Refused e) \<Longrightarrow> begun_from a tr0 st' tr'"
  by (simp add: begun_from_def carried_on_def)

lemma execute_begin_begun:
  assumes "execute_begin ser digest now step a rid did tr0 = (st, tr)"
  shows "begun_from a tr0 st tr"
proof -
  obtain h tr1 where s: "start_record now step a rid did tr0 = (h, tr1)" by fastforce
  have 1: "records_of tr1 = Suc (records_of tr0)" "tr_memory tr1 = tr_memory tr0"
    using s by (auto simp: start_record_def evidence_start_def on_record_def)
  show ?thesis
  proof (cases "(\<exists>e. session_run_id (tr_session tr1) = Inl e)
      \<or> (\<exists>run e. session_run_id (tr_session tr1) = Inr run \<and> build_action a run rid = Inl e)")
    case True
    then have "(\<exists>e. st = Refused e) \<and> tr = tr1"
      using assms s by (auto simp: execute_begin_def execute_prepare_def)
    with 1 show ?thesis by (auto simp: begun_from_def)
  next
    case False
    then obtain run m where m: "session_run_id (tr_session tr1) = Inr run" "build_action a run rid = Inr m"
      by (metis sum.exhaust)
    then have "a \<noteq> SyncAction" by auto
    with 1 have b: "begun_from a tr0 (Charged_at h c) tr1" for c by (simp add: begun_from_def)
    obtain x ss where x: "send_begin ser digest m (kind a) rid (tr_session (hold_stock a rid tr1)) = (x, ss)" by fastforce
    have c: "carried_on tr1 (hold_stock a rid tr1\<lparr>tr_session := ss\<rparr>)"
      by (rule carried_on_trans [OF carried_on_basic(5) carried_on_basic(6)])
    show ?thesis
    proof (cases x)
      case (Inl e)
      with assms s m x have "st = Gave_up e None" "tr = execute_failed h rid e (hold_stock a rid tr1\<lparr>tr_session := ss\<rparr>)"
        by (auto simp: execute_begin_def execute_prepare_def)
      then show ?thesis using begun_from_carried [OF b carried_on_trans [OF c carried_on_failed]] by simp
    next
      case (Inr c')
      with assms s m x have "st = Charged_at h c'" "tr = hold_stock a rid tr1\<lparr>tr_session := ss\<rparr>"
        by (auto simp: execute_begin_def execute_prepare_def)
      then show ?thesis using begun_from_carried [OF b c] by simp
    qed
  qed
qed

lemma execution_begun: "execution ser digest a rid did tr0 st tr \<Longrightarrow> begun_from a tr0 st tr"
proof (induction rule: execution.induct)
  case (ex_begin now step st tr)
  then show ?case by (rule execute_begin_begun)
next
  case (ex_session st tr ss)
  then show ?case by (simp add: begun_from_def)
next
  case (ex_transmit h c tr up st tr')
  then have "carried_on tr tr'"
    by (auto simp: execute_transmit_def carried_on_basic split: sum.splits prod.splits
      intro: carried_on_trans [OF carried_on_basic(6) carried_on_failed])
  with ex_transmit show ?case by (auto intro: begun_from_carried)
next
  case (ex_receive h c tr ms st tr')
  obtain x ss where x: "send_over c (tr_session tr) = (x, ss)" by fastforce
  with ex_receive.hyps(2) have "carried_on (tr\<lparr>tr_session := ss\<rparr>) tr'"
    by (auto simp: execute_receive_def Let_def carried_on_failed dest: carried_on_answered split: sum.splits answer.splits)
  with ex_receive show ?case by (auto intro: begun_from_carried carried_on_trans [OF carried_on_basic(6)])
next
  case (ex_confirmed h x tr r s ms st tr')
  then have "carried_on tr tr'"
    by (auto simp: execute_confirmed_def Let_def
      intro!: carried_on_trans [OF _ carried_on_basic(3)] carried_on_trans [OF _ carried_on_basic(2)]
        carried_on_trans [OF _ carried_on_basic(4)] carried_on_basic(1))
  with ex_confirmed show ?case by (auto intro: begun_from_carried)
next
  case (ex_unconfirmed h x tr e st tr')
  then have "carried_on tr tr'" by (auto simp: execute_unconfirmed_def carried_on_failed)
  with ex_unconfirmed show ?case by (auto intro: begun_from_carried)
qed

subsection \<open>What a step changes\<close>

lemma strategy_contract:
  assumes "memory_ok m" and "snapshot_ok s"
  shows "\<exists>d m'. strategy_decide x s m t cb = Inr (d, m') \<and> memory_ok m'
    \<and> int (length (d_actions d)) \<le> max 0 (command_budget_of s cb) \<and> spent s (d_actions d) \<le> inventory (me s)"
  using reserve_trader.pick_total [OF assms] observer.pick_total [OF assms] by (cases x) auto

text \<open>What \<open>n\<close> commands may change.\<close>

definition advanced :: "nat \<Rightarrow> trading_loop \<Rightarrow> trading_loop \<Rightarrow> bool" where
  "advanced n lp lp' \<longleftrightarrow> records_of (lp_trader lp') \<le> records_of (lp_trader lp) + n
     \<and> ts_commands_sent (lp_stats lp') \<le> ts_commands_sent (lp_stats lp) + int n
     \<and> ts_decisions (lp_stats lp') = ts_decisions (lp_stats lp)
     \<and> (memory_ok (memory_of lp) \<longrightarrow> memory_ok (memory_of lp'))
     \<and> (tallies_ok (lp_stats lp) \<longrightarrow> tallies_ok (lp_stats lp'))
     \<and> lp_strategy lp' = lp_strategy lp"

lemma advanced_refl: "advanced n lp lp"
  by (simp add: advanced_def)

lemma advanced_trans: "advanced n a b \<Longrightarrow> advanced m b c \<Longrightarrow> advanced (n + m) a c"
  by (simp add: advanced_def)

lemma advanced_mono: "advanced n a b \<Longrightarrow> n \<le> m \<Longrightarrow> advanced m a b"
  by (auto simp: advanced_def)

lemma draw_id_advanced: "draw_id a lp = (x, lp1) \<Longrightarrow> advanced 0 lp lp1"
  by (auto simp: draw_id_def advanced_def set_session_def with_trader_def memory_of_def split: sum.splits)

lemma execution_advanced:
  assumes "execution ser digest a rid did (lp_trader lp) st tr"
  shows "advanced 1 lp (lp\<lparr>lp_trader := tr\<rparr>)"
  using execution_begun [OF assms] by (simp add: advanced_def begun_from_def memory_of_def)

lemma memory_ok_block [simp]: "memory_ok (block_until t m) = memory_ok m"
  by (simp add: block_until_def memory_ok_def split: option.splits)

lemma count_action_ok:
  assumes "tallies_ok st" and "a \<noteq> SyncAction"
  shows "tallies_ok ((count_action a st)\<lparr>ts_commands_ok := ts_commands_ok st + 1\<rparr>)"
    and "tallies_ok (record_rejection c ((count_action a st)\<lparr>ts_commands_rejected := ts_commands_rejected st + 1\<rparr>))"
  using assms by (cases a; auto simp: tallies_ok_def count_action_def record_rejection_def sum_count_key Let_def)+

lemma count_action_frame [simp]:
  "ts_commands_ok (count_action a st) = ts_commands_ok st" "ts_commands_rejected (count_action a st) = ts_commands_rejected st"
  "ts_decisions (count_action a st) = ts_decisions st" "ts_commands_sent (count_action a st) = ts_commands_sent st + 1"
  by (simp_all add: count_action_def Let_def split: action.splits)

lemma record_answer_shape:
  "\<exists>m. lp_stats (record_answer a x lp) =
        (if so_ok x then (count_action a (lp_stats lp))\<lparr>ts_commands_ok := ts_commands_ok (lp_stats lp) + 1\<rparr>
         else record_rejection (so_code_name x)
           ((count_action a (lp_stats lp))\<lparr>ts_commands_rejected := ts_commands_rejected (lp_stats lp) + 1\<rparr>))
     \<and> lp_trader (record_answer a x lp) = (lp_trader lp)\<lparr>tr_memory := m\<rparr> \<and> memory_ok m = memory_ok (memory_of lp)
     \<and> lp_strategy (record_answer a x lp) = lp_strategy lp"
proof -
  have same: "tr = tr\<lparr>tr_memory := tr_memory tr\<rparr>" for tr :: trader by simp
  show ?thesis
    by (auto simp: record_answer_def on_stats_def with_trader_def memory_of_def Let_def split: option.splits
        intro: exI [of _ "tr_memory (lp_trader lp)"] same)
qed

lemma acted_advanced:
  assumes "execution ser digest a rid did (lp_trader lp) (Returned x) tr"
  shows "advanced 1 lp (acted a x tr lp)"
proof -
  note b = execution_begun [OF assms]
  then have a: "a \<noteq> SyncAction" by (auto simp: begun_from_def)
  obtain m where m: "lp_stats (record_answer a x (lp\<lparr>lp_trader := tr\<rparr>)) =
        (if so_ok x then (count_action a (lp_stats lp))\<lparr>ts_commands_ok := ts_commands_ok (lp_stats lp) + 1\<rparr>
         else record_rejection (so_code_name x)
           ((count_action a (lp_stats lp))\<lparr>ts_commands_rejected := ts_commands_rejected (lp_stats lp) + 1\<rparr>))"
      "lp_trader (record_answer a x (lp\<lparr>lp_trader := tr\<rparr>)) = tr\<lparr>tr_memory := m\<rparr>"
      "memory_ok m = memory_ok (tr_memory tr)" "lp_strategy (record_answer a x (lp\<lparr>lp_trader := tr\<rparr>)) = lp_strategy lp"
    using record_answer_shape [of a x "lp\<lparr>lp_trader := tr\<rparr>"] by (auto simp: memory_of_def)
  have s: "tallies_ok (st\<lparr>ts_final_snapshot := f\<rparr>) = tallies_ok st" for st f by (simp add: tallies_ok_def)
  show ?thesis
    using b m count_action_ok [OF _ a]
    by (auto simp: advanced_def acted_def Let_def on_stats_def memory_of_def begun_from_def s record_rejection_def)
qed

lemma run_actions_advanced: "run_actions ser digest did acts lp r lp' \<Longrightarrow> advanced (length acts) lp lp'"
proof (induction rule: run_actions.induct)
  case (ra_done a lp rid lp1 x tr acts r lp2)
  from advanced_trans [OF advanced_trans [OF draw_id_advanced acted_advanced] ra_done.IH] ra_done.hyps
  show ?case by fastforce
next
  case (ra_blocked a lp rid lp1 m xo tr acts)
  from advanced_mono [OF advanced_trans [OF draw_id_advanced execution_advanced]] ra_blocked show ?case by fastforce
next
  case (ra_raised a lp rid lp1 e xo tr acts)
  from advanced_mono [OF advanced_trans [OF draw_id_advanced execution_advanced]] ra_raised show ?case by fastforce
next
  case (ra_refused a lp rid lp1 e tr acts)
  from advanced_mono [OF advanced_trans [OF draw_id_advanced execution_advanced]] ra_refused show ?case by fastforce
next
  case (ra_no_id a lp e lp1 acts)
  from advanced_mono [OF draw_id_advanced [OF ra_no_id]] show ?case by simp
qed (simp add: advanced_refl)

lemma stats_frames [simp]:
  "tallies_ok (st\<lparr>ts_decisions := n\<rparr>) = tallies_ok st" "tallies_ok (st\<lparr>ts_final_snapshot := f\<rparr>) = tallies_ok st"
  "tallies_ok (st\<lparr>ts_last_logged_tick := t\<rparr>) = tallies_ok st" "tallies_ok (st\<lparr>ts_last_panel_tick := t\<rparr>) = tallies_ok st"
  by (simp_all add: tallies_ok_def)

lemma set_session_advanced: "advanced 0 lp (set_session ss lp)"
  by (simp add: advanced_def set_session_def with_trader_def memory_of_def)

lemma step_decide_stats:
  assumes "step_decide since s lp = (x, lp1)"
  shows "lp_stats lp1 = lp_stats lp \<and> lp_strategy lp1 = lp_strategy lp \<and> records_of (lp_trader lp1) = records_of (lp_trader lp)"
  using assms
  by (auto simp: step_decide_def Let_def set_session_def with_trader_def split: prod.splits sum.splits)

lemma step_decide_bounds:
  assumes "step_decide since s lp = (Inr p, lp1)" and "memory_ok (memory_of lp)" and "snapshot_ok (newest_of lp s)"
  shows "memory_ok (memory_of lp1)"
    and "length (d_actions (sp_decision p)) \<le> (if 0 < fst (remaining_command_budget (session_of lp)) then 1 else 0)"
proof -
  obtain left ss where b: "remaining_command_budget (session_of lp) = (left, ss)" by fastforce
  let ?t = "Some (tr_commitments (lp_trader lp))"
  obtain d m where d: "strategy_decide (lp_strategy lp) (newest_of lp s) (memory_of lp) ?t (Some (min 1 left)) = Inr (d, m)"
      "memory_ok m" "int (length (d_actions d)) \<le> max 0 (command_budget_of (newest_of lp s) (Some (min 1 left)))"
    using strategy_contract [OF assms(2,3)] by blast
  from assms(1) b d have p: "sp_decision p = d" "memory_of lp1 = m"
    by (auto simp: step_decide_def Let_def set_session_def with_trader_def memory_of_def)
  show "memory_ok (memory_of lp1)" by (simp add: p d(2))
  have "command_budget_of (newest_of lp s) (Some (min 1 left)) \<le> max 0 (min 1 left)"
    by (simp add: command_budget_of_def)
  with d(3) have "int (length (d_actions d)) \<le> (if 0 < left then 1 else 0)" by (auto split: if_splits)
  then show "length (d_actions (sp_decision p)) \<le> (if 0 < fst (remaining_command_budget (session_of lp)) then 1 else 0)"
    by (auto simp: p b split: if_splits)
qed

lemma log_decision_frame:
  assumes "log_decision now s d ctx lp = Inr (did, lp')"
  shows "advanced 0 lp lp'" and "memory_of lp' = memory_of lp" and "tr_commitments (lp_trader lp') = tr_commitments (lp_trader lp)"
  using assms
  by (auto simp: log_decision_def Let_def advanced_def on_stats_def on_evidence_def with_trader_def memory_of_def
      evidence_decision_def write_line_def split: if_splits option.splits elim!: bindE_InrE)

lemma show_status_frame:
  "show_status s d lp = Inr lp' \<Longrightarrow> advanced 0 lp lp' \<and> lp_trader lp' = lp_trader lp
     \<and> ts_commands_sent (lp_stats lp') = ts_commands_sent (lp_stats lp)"
  by (auto simp: show_status_def Let_def advanced_def memory_of_def split: if_splits elim!: bindE_InrE)

lemma counted_frame:
  "records_of (lp_trader (counted ms p lp)) = records_of (lp_trader lp)"
  "ts_commands_sent (lp_stats (counted ms p lp)) = ts_commands_sent (lp_stats lp)"
  "ts_decisions (lp_stats (counted ms p lp)) = ts_decisions (lp_stats lp) + 1"
  "memory_of (counted ms p lp) = memory_of lp" "tallies_ok (lp_stats (counted ms p lp)) = tallies_ok (lp_stats lp)"
  "lp_strategy (counted ms p lp) = lp_strategy lp"
  by (simp_all add: counted_def Let_def on_stats_def with_trader_def record_latency_def memory_of_def split: option.splits)

lemma log_decision_records:
  "log_decision now s d ctx lp = Inr (did, lp') \<Longrightarrow> records_of (lp_trader lp') = records_of (lp_trader lp)
     \<and> ts_commands_sent (lp_stats lp') = ts_commands_sent (lp_stats lp)"
  by (auto simp: log_decision_def Let_def on_stats_def on_evidence_def with_trader_def evidence_decision_def
      write_line_def split: if_splits elim!: bindE_InrE)

text \<open>One decision counted, and nothing else that matters to the commands.\<close>

definition decision_counted :: "trading_loop \<Rightarrow> trading_loop \<Rightarrow> bool" where
  "decision_counted lp lp' \<longleftrightarrow> records_of (lp_trader lp') = records_of (lp_trader lp)
     \<and> ts_commands_sent (lp_stats lp') = ts_commands_sent (lp_stats lp)
     \<and> ts_decisions (lp_stats lp') = ts_decisions (lp_stats lp) + 1
     \<and> memory_of lp' = memory_of lp \<and> (tallies_ok (lp_stats lp) \<longrightarrow> tallies_ok (lp_stats lp'))
     \<and> lp_strategy lp' = lp_strategy lp"

lemma log_decision_counted:
  assumes "log_decision now s d ctx (counted ms p lp) = Inr (did, lp')"
  shows "decision_counted lp lp'"
  using log_decision_frame [OF assms] log_decision_records [OF assms]
  by (simp add: decision_counted_def counted_frame advanced_def)

lemma step_record_counted:
  assumes "step_record now ms p lp = Inr (did, lp')"
  shows "decision_counted lp lp'"
proof -
  obtain lp2 where l: "log_decision now (sp_snapshot p) (sp_decision p) (step_context ms p lp) (counted ms p lp) = Inr (did, lp2)"
    and s: "show_status (sp_snapshot p) (sp_decision p) lp2 = Inr lp'"
    using assms by (auto simp: step_record_def elim!: bindE_InrE)
  from log_decision_counted [OF l] show_status_frame [OF s] show ?thesis
    by (simp add: decision_counted_def advanced_def memory_of_def)
qed

lemma step_unrecorded_counted: "decision_counted lp (step_unrecorded now ms p lp)"
proof (cases "log_decision now (sp_snapshot p) (sp_decision p) (step_context ms p lp) (counted ms p lp)")
  case (Inl e)
  then show ?thesis
    by (simp add: step_unrecorded_def decision_counted_def on_stats_def counted_frame)
       (use counted_frame(4) [of ms p lp] in \<open>simp add: memory_of_def\<close>)
next
  case (Inr y)
  then show ?thesis
    using log_decision_counted by (cases y) (simp add: step_unrecorded_def)
qed

lemma step_run_stats:
  assumes "step_run ser digest s lp r lp'" and "tallies_ok (lp_stats lp)"
  shows "tallies_ok (lp_stats lp') \<and> ts_decisions (lp_stats lp') \<le> ts_decisions (lp_stats lp) + 1"
  using assms
proof cases
  case (sr_undecided since e)
  with step_decide_stats [OF sr_undecided(2)] assms(2) show ?thesis by simp
next
  case (sr_unrecorded since p lp1 now ms ss e)
  with step_decide_stats [OF sr_unrecorded(3)] step_unrecorded_counted [of "set_session ss lp1" now ms p] assms(2)
  show ?thesis by (simp add: decision_counted_def set_session_def with_trader_def)
next
  case (sr_acted since p lp1 now ms ss did lp2)
  from step_decide_stats [OF sr_acted(1)] step_record_counted [OF sr_acted(2)] run_actions_advanced [OF sr_acted(3)] assms(2)
  show ?thesis by (simp add: advanced_def decision_counted_def set_session_def with_trader_def)
qed

subsection \<open>A step always ends\<close>

lemma execute_begin_stage:
  assumes "execute_begin ser digest now step a rid did tr0 = (st, tr)"
  shows "(\<exists>e. st = Refused e) \<or> (\<exists>e. st = Gave_up e None) \<or> (\<exists>h c. st = Charged_at h c)"
  using assms by (auto simp: execute_begin_def split: prod.splits sum.splits)

lemma run_actions_total: "\<exists>r lp'. run_actions ser digest did acts lp r lp'"
proof (cases acts)
  case Nil
  then show ?thesis using ra_none by blast
next
  case (Cons a rest)
  obtain x lp1 where d: "draw_id a lp = (x, lp1)" by fastforce
  show ?thesis
  proof (cases x)
    case (Inl e)
    with d Cons ra_no_id show ?thesis by blast
  next
    case (Inr rid)
    obtain st tr where b: "execute_begin ser digest [] [] a rid did (lp_trader lp1) = (st, tr)" by fastforce
    note ex = ex_begin [OF b]
    have gave_up: "\<exists>r lp'. run_actions ser digest did (a # rest) lp r lp'"
      if "execution ser digest a rid did (lp_trader lp1) (Gave_up e xo) tr'" for e xo tr'
    proof (cases "\<exists>m. e = CommandBlockedError m")
      case True
      with that d Inr ra_blocked show ?thesis by blast
    next
      case False
      with that d Inr ra_raised show ?thesis by blast
    qed
    from execute_begin_stage [OF b] consider e where "st = Refused e" | e where "st = Gave_up e None"
      | h c where "st = Charged_at h c" by blast
    then show ?thesis
    proof cases
      case 1
      with ex d Inr Cons ra_refused show ?thesis by blast
    next
      case 2
      with ex gave_up Cons show ?thesis by blast
    next
      case 3
      obtain e tr' where "execute_transmit False h c tr = (Gave_up e None, tr')"
        by (cases "ss_connected (tr_session tr)")
           (auto simp: execute_transmit_def send_transmit_def send_payload_def)
      from ex_transmit [OF ex [unfolded 3] this] gave_up Cons show ?thesis by blast
    qed
  qed
qed

lemma step_run_total: "\<exists>r lp'. step_run ser digest s lp r lp'"
proof -
  obtain x lp1 where d: "step_decide 0 s lp = (x, lp1)" by fastforce
  show ?thesis
  proof (cases x)
    case (Inl e)
    with d sr_undecided show ?thesis by blast
  next
    case (Inr p)
    note d = d [unfolded Inr]
    show ?thesis
    proof (cases "step_record [] 0 p (set_session (session_of lp1) lp1)")
      case (Inl e)
      with sr_unrecorded [OF d] show ?thesis by blast
    next
      case (Inr y)
      obtain did lp2 where y: "y = (did, lp2)" by fastforce
      obtain r lp3 where "run_actions ser digest did (d_actions (sp_decision p)) lp2 r lp3"
        using run_actions_total by blast
      from sr_acted [OF d Inr [unfolded y] this] show ?thesis by blast
    qed
  qed
qed

subsection \<open>Properties of the loop\<close>

text \<open>C8: One step of the trading loop starts at most one command, and none when the session had no
  command slot left for the newest state; it counts one decision at most and keeps the policy
  memory usable for the next one.\<close>

theorem one_command_per_step:
  assumes "step_run ser digest s lp r lp'" and "memory_ok (memory_of lp)" and "snapshot_ok (newest_of lp s)"
  shows "records_of (lp_trader lp') \<le> records_of (lp_trader lp) + (if 0 < fst (remaining_command_budget (session_of lp)) then 1 else 0)
    \<and> ts_commands_sent (lp_stats lp') \<le> ts_commands_sent (lp_stats lp)
         + (if 0 < fst (remaining_command_budget (session_of lp)) then 1 else 0)
    \<and> ts_decisions (lp_stats lp') \<le> ts_decisions (lp_stats lp) + 1
    \<and> (r = Inr () \<longrightarrow> ts_decisions (lp_stats lp') = ts_decisions (lp_stats lp) + 1 \<and> memory_ok (memory_of lp'))"
  using assms(1)
proof cases
  case (sr_undecided since e)
  with step_decide_stats [OF sr_undecided(2)] show ?thesis by simp
next
  case (sr_unrecorded since p lp1 now ms ss e)
  with step_decide_stats [OF sr_unrecorded(3)] step_unrecorded_counted [of "set_session ss lp1" now ms p]
  show ?thesis by (simp add: decision_counted_def set_session_def with_trader_def)
next
  case (sr_acted since p lp1 now ms ss did lp2)
  note d = step_decide_stats [OF sr_acted(1)] step_decide_bounds [OF sr_acted(1) assms(2,3)]
  have s: "lp_stats (set_session ss lp1) = lp_stats lp1" "records_of (lp_trader (set_session ss lp1)) = records_of (lp_trader lp1)"
      "memory_of (set_session ss lp1) = memory_of lp1"
    by (simp_all add: set_session_def with_trader_def memory_of_def)
  from d step_record_counted [OF sr_acted(2)] run_actions_advanced [OF sr_acted(3)] s show ?thesis
    by (auto simp: advanced_def decision_counted_def split: if_splits)
qed

definition demo_loop :: trading_loop where
  "demo_loop = \<lparr>lp_trader = deal_start, lp_world = world_model_init, lp_stats = stats_new, lp_status = status_init 0,
     lp_strategy = ReserveTrader, lp_session_number = 1, lp_status_every = 0, lp_status_file = False, lp_panels = []\<rparr>"

lemma demo_loop_ready:
  "newest_of demo_loop demo_tick = demo_tick" "memory_ok (memory_of demo_loop)" "tallies_ok (lp_stats demo_loop)"
  "fst (remaining_command_budget (session_of demo_loop)) = 4" "records_of (lp_trader demo_loop) = 0"
  "ts_commands_sent (lp_stats demo_loop) = 0" "ts_decisions (lp_stats demo_loop) = 0"
proof -
  show "fst (remaining_command_budget (session_of demo_loop)) = 4"
    by (simp add: remaining_command_budget_def trading_eligible_def can_send_trading_commands_def TRADING_PHASES_def
       remaining_def roll_to_def update_limit_def throttle_init_def demo_tick_def demo_defs
       demo_loop_def session_of_def deal_start_def executor_new_def link_active_eq)
  show "tallies_ok (lp_stats demo_loop)" by (simp add: demo_loop_def tallies_ok_new)
qed (simp_all add: newest_of_def demo_loop_def session_of_def deal_start_def executor_new_def link_active_eq memory_of_def
      memory_ok_init evidence_init_def stats_new_def)

theorem one_command_per_step_witness:
  "\<exists>r lp'. step_run link_ser link_digest demo_tick demo_loop r lp' \<and> records_of (lp_trader lp') \<le> 1
     \<and> ts_commands_sent (lp_stats lp') \<le> 1"
proof -
  obtain r lp' where run: "step_run link_ser link_digest demo_tick demo_loop r lp'" using step_run_total by blast
  have "snapshot_ok (newest_of demo_loop demo_tick)" by (simp add: demo_loop_ready demo_snapshot_ok(1))
  from one_command_per_step [OF run demo_loop_ready(2) this] run show ?thesis by (auto simp: demo_loop_ready)
qed

lemma run_loop_stats:
  assumes "run_loop ser digest cap sq lp r lp'" and "tallies_ok (lp_stats lp)"
  shows "tallies_ok (lp_stats lp') \<and> (case cap of None \<Rightarrow> True
    | Some n \<Rightarrow> ts_decisions (lp_stats lp) \<le> n \<longrightarrow> ts_decisions (lp_stats lp') \<le> n)"
  using assms
proof (induction rule: run_loop.induct)
  case rl_quiet
  then show ?case by (simp add: turn_timeout_def set_session_def with_trader_def cong: option.case_cong)
next
  case (rl_raised lp sq s now later ss e lp')
  from step_run_stats [OF rl_raised(3)] rl_raised show ?case
    by (auto simp: turn_state_def Let_def set_session_def with_trader_def on_stats_def below_cap_def split: option.splits)
next
  case (rl_ended lp sq s now later ss lp')
  from step_run_stats [OF rl_ended(3)] rl_ended show ?case
    by (auto simp: turn_state_def Let_def set_session_def with_trader_def on_stats_def below_cap_def split: option.splits)
next
  case (rl_next lp sq s now later ss lp1 r lp')
  from step_run_stats [OF rl_next(3)] rl_next.prems
  have "tallies_ok (lp_stats lp1)" "ts_decisions (lp_stats lp1) \<le> ts_decisions (lp_stats lp) + 1"
    by (auto simp: turn_state_def Let_def set_session_def with_trader_def on_stats_def)
  with rl_next.IH rl_next(1) show ?case by (auto simp: below_cap_def split: option.splits)
qed (auto simp: set_session_def with_trader_def split: option.splits)

text \<open>The statistics of a session balance however it runs and ends: every answered command is
  counted once by kind and once as accepted or rejected, rejections are counted by code, and a cap on
  the decisions is never exceeded.\<close>

theorem trading_statistics_balance:
  assumes "run_loop ser digest cap sq lp r lp'" and "tallies_ok (lp_stats lp)"
  shows "tallies_ok (lp_stats lp') \<and> (case cap of None \<Rightarrow> True
    | Some n \<Rightarrow> ts_decisions (lp_stats lp) \<le> n \<longrightarrow> ts_decisions (lp_stats lp') \<le> n)"
  by (rule run_loop_stats [OF assms])

theorem trading_statistics_balance_witness:
  "\<exists>r lp'. run_loop link_ser link_digest (Some 1) 1 demo_loop r lp' \<and> tallies_ok (lp_stats lp') \<and> ts_decisions (lp_stats lp') \<le> 1"
proof -
  have "below_cap (Some 1) demo_loop" by (simp add: below_cap_def demo_loop_ready)
  from rl_closed [OF this] obtain lp' where run: "run_loop link_ser link_digest (Some 1) 1 demo_loop (Inr ()) lp'" by blast
  from trading_statistics_balance [OF run demo_loop_ready(3)] run show ?thesis by (auto simp: demo_loop_ready)
qed

subsection \<open>How long the policy stays silent\<close>

abbreviation silent_until :: "trading_loop \<Rightarrow> int" where
  "silent_until lp \<equiv> blocked_until_tick (memory_of lp)"

lemma blocked_decides_nothing:
  assumes "strategy_decide x s m t cb = Inr (d, m')"
  shows "blocked_until_tick m' = blocked_until_tick m"
    and "snap_tick s < blocked_until_tick m \<Longrightarrow> d_actions d = []"
  using assms decide_block [of s m t cb d m']
  by (cases x; auto simp: decide_passive_def decision_new_def d_explain_def frame_simps)+

lemma step_decide_block:
  assumes "step_decide since s lp = (y, lp1)"
  shows "silent_until lp1 = silent_until lp"
    and "y = Inr p \<Longrightarrow> snap_tick (newest_of lp s) < silent_until lp \<Longrightarrow> d_actions (sp_decision p) = []"
  using assms
  by (auto simp: step_decide_def Let_def set_session_def with_trader_def memory_of_def
      dest: blocked_decides_nothing split: prod.splits sum.splits)

lemma record_answer_block: "silent_until lp \<le> silent_until (record_answer a x lp)"
  by (auto simp: record_answer_def Let_def on_stats_def with_trader_def memory_of_def block_until_ge split: option.splits)

lemma run_actions_block: "run_actions ser digest did acts lp r lp' \<Longrightarrow> silent_until lp \<le> silent_until lp'"
proof (induction rule: run_actions.induct)
  case (ra_done a lp rid lp1 x tr acts r lp2)
  have "silent_until lp = silent_until (lp1\<lparr>lp_trader := tr\<rparr>)"
    using ra_done.hyps(1) execution_begun [OF ra_done.hyps(2)]
    by (auto simp: draw_id_def set_session_def with_trader_def memory_of_def begun_from_def split: sum.splits)
  also have "\<dots> \<le> silent_until (acted a x tr lp1)"
    using record_answer_block [of "lp1\<lparr>lp_trader := tr\<rparr>" a x]
    by (simp add: acted_def Let_def on_stats_def memory_of_def)
  finally show ?case using ra_done.IH by simp
qed (auto simp: draw_id_def set_session_def with_trader_def memory_of_def begun_from_def split: sum.splits
    dest!: execution_begun)

lemma step_run_block:
  assumes "step_run ser digest s lp r lp'"
  shows "silent_until lp \<le> silent_until lp'"
    and "snap_tick (newest_of lp s) < silent_until lp \<Longrightarrow> records_of (lp_trader lp') = records_of (lp_trader lp)
           \<and> ts_commands_sent (lp_stats lp') = ts_commands_sent (lp_stats lp)"
proof -
  have same: "memory_of (set_session ss l) = memory_of l" "lp_stats (set_session ss l) = lp_stats l"
      "records_of (lp_trader (set_session ss l)) = records_of (lp_trader l)" for ss l
    by (simp_all add: set_session_def with_trader_def memory_of_def)
  have "silent_until lp \<le> silent_until lp' \<and> (snap_tick (newest_of lp s) < silent_until lp \<longrightarrow>
      records_of (lp_trader lp') = records_of (lp_trader lp) \<and> ts_commands_sent (lp_stats lp') = ts_commands_sent (lp_stats lp))"
    using assms
  proof cases
    case (sr_undecided since e)
    with step_decide_block(1) [OF sr_undecided(2)] step_decide_stats [OF sr_undecided(2)] show ?thesis by simp
  next
    case (sr_unrecorded since p lp1 now ms ss e)
    with step_decide_block(1) [OF sr_unrecorded(3)] step_decide_stats [OF sr_unrecorded(3)]
      step_unrecorded_counted [of "set_session ss lp1" now ms p]
    show ?thesis by (simp add: decision_counted_def same)
  next
    case (sr_acted since p lp1 now ms ss did lp2)
    note d = step_decide_block(1) [OF sr_acted(1)] step_decide_stats [OF sr_acted(1)] step_record_counted [OF sr_acted(2)]
    have "records_of (lp_trader lp') = records_of (lp_trader lp) \<and> ts_commands_sent (lp_stats lp') = ts_commands_sent (lp_stats lp)"
      if "snap_tick (newest_of lp s) < silent_until lp"
    proof -
      have "d_actions (sp_decision p) = []" using step_decide_block(2) [OF sr_acted(1) refl that] .
      with sr_acted(3) have "lp' = lp2" by (auto elim: run_actions.cases)
      with d show ?thesis by (simp add: decision_counted_def same)
    qed
    with d run_actions_block [OF sr_acted(3)] show ?thesis by (simp add: decision_counted_def same)
  qed
  then show "silent_until lp \<le> silent_until lp'"
    and "snap_tick (newest_of lp s) < silent_until lp \<Longrightarrow> records_of (lp_trader lp') = records_of (lp_trader lp)
           \<and> ts_commands_sent (lp_stats lp') = ts_commands_sent (lp_stats lp)" by blast+
qed

lemma record_answer_limited:
  assumes "so_result x = Some r" and "code r = RATE_LIMITED" and "\<not> ok r"
  shows "lp_trader (record_answer a x lp) = (lp_trader lp)\<lparr>tr_memory := block_until (retry_after_tick r) (memory_of lp)\<rparr>"
    and "lp_strategy (record_answer a x lp) = lp_strategy lp"
  using assms by (simp_all add: record_answer_def so_ok_def on_stats_def with_trader_def memory_of_def Let_def)

end
