(* ===== verification/Reconnect.thy ===== *)
theory Reconnect
  imports Trading
begin

text \<open>
  \<open>run_trading\<close> of \<open>bazaar_client/autonomous.py\<close>: one attempt per connection, what its end means, and
  the wait before the next. Statistics, policy memory, evidence, latency, status and the command
  throttle outlive a connection; commitments and the world view do not. The jitter of the backoff
  is an argument.
\<close>

subsection \<open>Backoff\<close>

text \<open>\<open>1.0 * 2 ** n\<close> converts the integer first, which fails from \<open>2 ** 1024\<close> on.\<close>

definition backoff_base :: "int \<Rightarrow> rat \<Rightarrow> rat result" where
  "backoff_base attempt cap =
     (let n = (2::int) ^ nat (max 0 (attempt - 1))
      in if 2 ^ 1024 \<le> n then Inl OverflowError else Inr (min cap (fmul 1 (fint n))))"

definition backoff_delay :: "rat \<Rightarrow> int \<Rightarrow> rat \<Rightarrow> rat result" where
  "backoff_delay jitter attempt cap = bindE (backoff_base attempt cap) (\<lambda>base. Inr (fmul base jitter))"

subsection \<open>One connection\<close>

datatype attempt_end = Completed | Aborted string "control_code option" | FailedWith failure

fun end_of :: "session_error + unit \<Rightarrow> attempt_end" where
  "end_of (Inr _) = Completed"
| "end_of (Inl (SessionAbortedError m c)) = Aborted m c"
| "end_of (Inl e) = FailedWith (session_failure e)"

definition connection_log :: "string \<Rightarrow> string option \<Rightarrow> string option \<Rightarrow> trading_loop \<Rightarrow> trading_loop" where
  "connection_log event detail category lp = on_evidence (connection_event event detail category) lp"

definition attempt_begun :: "rat \<Rightarrow> int \<Rightarrow> trading_loop \<Rightarrow> trading_loop" where
  "attempt_begun now attempt lp =
     connection_log ''connecting'' (Some (''attempt '' @ show_int attempt)) None
       (set_status now CONNECTING (''attempt '' @ show_int attempt) lp)"

definition attempt_connected :: "rat \<Rightarrow> session \<Rightarrow> int \<Rightarrow> trading_loop \<Rightarrow> trading_loop" where
  "attempt_connected now ss number lp =
     (let lp = connection_log ''connected'' (Some (''session '' @ show_int number)) None
            (set_status now CONNECTED ''socket open, subprotocol confirmed'' lp);
          tr = lp_trader lp
      in lp\<lparr>lp_trader := executor_new ss (tr_evidence tr) (tr_memory tr) (tr_latency tr),
            lp_world := world_model_init, lp_session_number := number\<rparr>)"

definition session_left :: "trading_loop \<Rightarrow> trading_loop" where
  "session_left lp = set_session (session_stop (session_of lp)) lp"

inductive attempt_run :: "(client_message \<Rightarrow> bytes) \<Rightarrow> (bytes \<Rightarrow> string) \<Rightarrow> int option \<Rightarrow> int \<Rightarrow>
    trading_loop \<Rightarrow> attempt_end \<Rightarrow> trading_loop \<Rightarrow> bool"
  for ser digest cap number where
  ar_refused: "attempt_run ser digest cap number lp (FailedWith f) lp"
| ar_stateless: "session_start None (session_init (Some (ss_throttle (session_of lp)))) = (Inr (), ss) \<Longrightarrow>
     lp1 = attempt_connected now ss number lp \<Longrightarrow>
     attempt_run ser digest cap number lp (end_of (Inl e)) (session_left (set_session ss' lp1))"
| ar_unready: "session_start None (session_init (Some (ss_throttle (session_of lp)))) = (Inr (), ss) \<Longrightarrow>
     lp1 = attempt_connected now ss number lp \<Longrightarrow>
     attempt_run ser digest cap number lp (end_of (Inl e))
       (session_left (admit_state now1 s (set_session ss' lp1)))"
| ar_changed: "session_start None (session_init (Some (ss_throttle (session_of lp)))) = (Inr (), ss) \<Longrightarrow>
     lp1 = admit_state now1 s (set_session ss' (attempt_connected now ss number lp)) \<Longrightarrow>
     admit_ready now2 s ack (set_session ss'' lp1) = (Inl e, lp2) \<Longrightarrow>
     attempt_run ser digest cap number lp (end_of (Inl e)) (session_left lp2)"
| ar_ran: "session_start None (session_init (Some (ss_throttle (session_of lp)))) = (Inr (), ss) \<Longrightarrow>
     lp1 = admit_state now1 s (set_session ss' (attempt_connected now ss number lp)) \<Longrightarrow>
     admit_ready now2 s ack (set_session ss'' lp1) = (Inr sq, lp2) \<Longrightarrow>
     run_loop ser digest cap sq lp2 r lp3 \<Longrightarrow>
     attempt_run ser digest cap number lp (end_of r) (session_left lp3)"

subsection \<open>What its end means\<close>

datatype next_move = Finish | Reraise failure | Retry rat

text \<open>A session that was aborted, reached the end of the run or the decision cap is the last one.\<close>

definition completed_last :: "int option \<Rightarrow> trading_loop \<Rightarrow> (string \<times> string option) option" where
  "completed_last cap lp =
     (case ss_abort_reason (session_of lp) of
        Some why \<Rightarrow> Some (''aborted: '' @ why,
          Some (kind_value (dg_kind (diagnose (session_failure (SessionAbortedError why (ss_abort_code (session_of lp)))) None))))
      | None \<Rightarrow>
          (case ts_final_snapshot (lp_stats lp) of
             Some s \<Rightarrow> if snap_phase s \<in> TERMINAL_PHASES then Some (''run '' @ phase_name (snap_phase s), None)
               else if \<not> below_cap cap lp then Some (''decision cap reached'', None) else None
           | None \<Rightarrow> if \<not> below_cap cap lp then Some (''decision cap reached'', None) else None))"

definition wait_to_reconnect :: "rat \<Rightarrow> rat \<Rightarrow> rat \<Rightarrow> int \<Rightarrow> trading_loop \<Rightarrow> next_move \<times> int \<times> trading_loop" where
  "wait_to_reconnect now jitter max_backoff attempt lp =
     (let lp = set_status now ST_DISCONNECTED ''connection ended'' lp
      in case backoff_delay jitter attempt max_backoff of
           Inl e \<Rightarrow> (Reraise (session_failure (Raised e)), attempt, lp)
         | Inr delay \<Rightarrow> (Retry delay, attempt,
             connection_log ''reconnecting'' (Some (''delay='' @ show_fixed1 delay @ ''s'')) None lp))"

definition attempt_over :: "rat \<Rightarrow> rat \<Rightarrow> rat \<Rightarrow> int option \<Rightarrow> int \<Rightarrow> int \<Rightarrow> attempt_end \<Rightarrow> trading_loop \<Rightarrow>
    next_move \<times> int \<times> trading_loop" where
  "attempt_over now jitter max_backoff cap decisions_before attempt e lp =
     (case e of
        Completed \<Rightarrow>
          let attempt = (if decisions_before < ts_decisions (lp_stats lp) then 0 else attempt)
          in (case completed_last cap lp of
                Some (detail, category) \<Rightarrow> (Finish, attempt, connection_log ''closed'' (Some detail) category lp)
              | None \<Rightarrow> wait_to_reconnect now jitter max_backoff attempt lp)
      | Aborted m c \<Rightarrow>
          let d = diagnose (session_failure (SessionAbortedError m c)) None
          in (Finish, attempt, connection_log ''closed'' (Some (''aborted: '' @ m)) (Some (kind_value (dg_kind d)))
                (set_status now ST_DISCONNECTED (dg_summary d) lp))
      | FailedWith f \<Rightarrow>
          let d = diagnose f None; lp = set_status now ST_DISCONNECTED (dg_summary d) lp
          in if \<not> retryable d
             then (Reraise f, attempt, connection_log ''failed'' (Some (dg_summary d)) (Some (kind_value (dg_kind d))) lp)
             else wait_to_reconnect now jitter max_backoff attempt
               (connection_log ''disconnected'' (Some (dg_summary d)) (Some (kind_value (dg_kind d))) lp))"

definition attempts_left :: "int option \<Rightarrow> int \<Rightarrow> bool" where
  "attempts_left max_attempts attempt \<longleftrightarrow> (case max_attempts of None \<Rightarrow> True | Some m \<Rightarrow> attempt < m)"

text \<open>The state at the head of the \<open>while\<close> loop, after the attempts that ended as listed, each with
  the state its end was judged in.\<close>

inductive trading_run ::
  "(client_message \<Rightarrow> bytes) \<Rightarrow> (bytes \<Rightarrow> string) \<Rightarrow> int option \<Rightarrow> int option \<Rightarrow> rat \<Rightarrow> trading_loop \<Rightarrow>
     (attempt_end \<times> trading_loop) list \<Rightarrow> int \<Rightarrow> int \<Rightarrow> trading_loop \<Rightarrow> bool"
  for ser digest cap max_attempts max_backoff lp0 where
  tr_start: "trading_run ser digest cap max_attempts max_backoff lp0 [] 0 0 lp0"
| tr_retry: "trading_run ser digest cap max_attempts max_backoff lp0 es attempt number lp \<Longrightarrow>
     attempts_left max_attempts attempt \<Longrightarrow>
     attempt_run ser digest cap (number + 1) (attempt_begun now (attempt + 1) lp) e lp1 \<Longrightarrow>
     attempt_over later jitter max_backoff cap (ts_decisions (lp_stats lp)) (attempt + 1) e lp1 = (Retry d, attempt', lp2) \<Longrightarrow>
     trading_run ser digest cap max_attempts max_backoff lp0 (es @ [(e, lp1)]) attempt' (number + 1) lp2"

text \<open>A new client: everything empty, before its first session.\<close>

definition trading_new :: "rat \<Rightarrow> strategy \<Rightarrow> int \<Rightarrow> bool \<Rightarrow> trading_loop" where
  "trading_new now x every to_file =
     (let lp = \<lparr>lp_trader = executor_new (session_init (Some (throttle_init 1))) (run_start evidence_init) memory_init latency_init,
            lp_world = world_model_init, lp_stats = stats_new, lp_status = status_init now, lp_strategy = x,
            lp_session_number = 0, lp_status_every = every, lp_status_file = to_file, lp_panels = []\<rparr>
      in on_evidence (status_event (status_value STARTING) None ''process running'') lp)"

subsection \<open>What every run keeps\<close>

lemma connection_frames [simp]:
  "lp_stats (connection_log a b c lp) = lp_stats lp" "lp_stats (set_status now x d lp) = lp_stats lp"
  "lp_stats (attempt_begun now k lp) = lp_stats lp" "lp_stats (attempt_connected now ss n lp) = lp_stats lp"
  "lp_stats (session_left lp) = lp_stats lp" "lp_stats (set_session ss lp) = lp_stats lp"
  "lp_stats (admit_state now s lp) = lp_stats lp" "lp_stats (with_trader f lp) = lp_stats lp"
  by (simp_all add: connection_log_def on_evidence_def with_trader_def set_status_def attempt_begun_def
      attempt_connected_def session_left_def set_session_def admit_state_def Let_def)

lemma admit_ready_stats: "admit_ready now s ack lp = (x, lp') \<Longrightarrow> lp_stats lp' = lp_stats lp"
  by (auto simp: admit_ready_def Let_def split: if_splits)

lemma attempt_run_tallies: "attempt_run ser digest cap number lp e lp' \<Longrightarrow> tallies_ok (lp_stats lp) \<Longrightarrow> tallies_ok (lp_stats lp')"
  by (induction rule: attempt_run.induct) (auto dest!: admit_ready_stats run_loop_stats)

lemma wait_to_reconnect_shape:
  "wait_to_reconnect now jitter mb attempt lp = (v, k, lp') \<Longrightarrow> k = attempt \<and> lp_stats lp' = lp_stats lp \<and> v \<noteq> Finish"
  by (auto simp: wait_to_reconnect_def Let_def split: sum.splits)

text \<open>An attempt that may be followed by another: it failed for a network reason, or it ended with
  nothing to stop for.\<close>

lemma attempt_over_retry:
  assumes "attempt_over now jitter mb cap before attempt e lp = (Retry d, k, lp')"
  shows "(case e of Completed \<Rightarrow> completed_last cap lp = None | Aborted _ _ \<Rightarrow> False | FailedWith f \<Rightarrow> retryable (diagnose f None))
     \<and> (k = 0 \<or> k = attempt) \<and> lp_stats lp' = lp_stats lp"
  using assms wait_to_reconnect_shape
  by (cases e) (auto simp: attempt_over_def Let_def split: option.splits if_splits dest!: wait_to_reconnect_shape)

lemma completed_last_None:
  "completed_last cap lp = None \<longleftrightarrow> ss_abort_reason (session_of lp) = None \<and> below_cap cap lp
     \<and> (case ts_final_snapshot (lp_stats lp) of None \<Rightarrow> True | Some s \<Rightarrow> snap_phase s \<notin> TERMINAL_PHASES)"
  by (auto simp: completed_last_def split: option.splits)

lemma attempt_over_final:
  "\<not> retryable (diagnose f None) \<Longrightarrow> fst (attempt_over now jitter mb cap before attempt (FailedWith f) lp) = Reraise f"
  "fst (attempt_over now jitter mb cap before attempt (Aborted m c) lp) = Finish"
  "completed_last cap lp \<noteq> None \<Longrightarrow> fst (attempt_over now jitter mb cap before attempt Completed lp) = Finish"
  by (auto simp: attempt_over_def Let_def split: option.splits)

text \<open>C13: A client reconnects only after a connection that failed for a network reason, or that ended
  without an abort, before the end of the run and below the decision cap: a configuration,
  authentication, protocol or application failure is raised at once, and an aborted session ends the
  run, whether the abort came as an exception or was found when the loop returned. The attempts are
  counted, and the statistics of all sessions balance.\<close>

theorem only_network_failures_retried:
  assumes "trading_run ser digest cap max_attempts max_backoff lp0 es attempt number lp" and "tallies_ok (lp_stats lp0)"
  shows "list_all (\<lambda>(e, lp1). case e of
        Completed \<Rightarrow> ss_abort_reason (session_of lp1) = None \<and> below_cap cap lp1
          \<and> (case ts_final_snapshot (lp_stats lp1) of None \<Rightarrow> True | Some s \<Rightarrow> snap_phase s \<notin> TERMINAL_PHASES)
      | Aborted _ _ \<Rightarrow> False
      | FailedWith f \<Rightarrow> exit_code (diagnose f None) = 5) es
    \<and> number = int (length es) \<and> 0 \<le> attempt \<and> attempt \<le> number \<and> tallies_ok (lp_stats lp)
    \<and> (exit_code (diagnose f None) = 5
       \<or> fst (attempt_over now jitter max_backoff cap before attempt (FailedWith f) lp') = Reraise f)
    \<and> fst (attempt_over now jitter max_backoff cap before attempt (Aborted m c) lp') = Finish
    \<and> (ss_abort_reason (session_of lp') = None
       \<or> fst (attempt_over now jitter max_backoff cap before attempt Completed lp') = Finish)"
proof -
  let ?retried = "\<lambda>(e, lp1). case e of
        Completed \<Rightarrow> ss_abort_reason (session_of lp1) = None \<and> below_cap cap lp1
          \<and> (case ts_final_snapshot (lp_stats lp1) of None \<Rightarrow> True | Some s \<Rightarrow> snap_phase s \<notin> TERMINAL_PHASES)
      | Aborted _ _ \<Rightarrow> False
      | FailedWith f \<Rightarrow> exit_code (diagnose f None) = 5"
  have "list_all ?retried es \<and> number = int (length es) \<and> 0 \<le> attempt \<and> attempt \<le> number \<and> tallies_ok (lp_stats lp)"
    using assms(1)
  proof induction
    case tr_start
    then show ?case by (simp add: assms(2))
  next
    case (tr_retry es attempt number lp now e lp1 later jitter d attempt' lp2)
    note over = attempt_over_retry [OF tr_retry(4)]
    then have "?retried (e, lp1)" by (cases e) (simp_all add: completed_last_None retryable_iff)
    with over attempt_run_tallies [OF tr_retry(3)] tr_retry.IH show ?case by auto
  qed
  moreover have "ss_abort_reason (session_of lp') = None
       \<or> fst (attempt_over now jitter max_backoff cap before attempt Completed lp') = Finish"
    using attempt_over_final(3) completed_last_None by blast
  ultimately show ?thesis using attempt_over_final(1,2) retryable_iff by blast
qed

lemma backoff_first: "backoff_delay 1 1 30 = Inr 1"
proof -
  have "fl 1 = 1" using fl_of_int [of 1] by simp
  then show ?thesis by (simp add: backoff_delay_def backoff_base_def fint_def fmul_def)
qed

definition refusal :: failure where
  "refusal = \<lparr>fl_class = ConnectionRefusedError, fl_text = ''refused'', fl_type = ''ConnectionRefusedError'', fl_code = None\<rparr>"

lemma refused_network: "retryable (diagnose refusal None)" "exit_code (diagnose refusal None) = 5"
proof -
  show "retryable (diagnose refusal None)" by (simp add: retryable_def RETRYABLE_def diagnose_network refusal_def)
  then show "exit_code (diagnose refusal None) = 5" by (simp only: retryable_iff)
qed

lemma refused_retried:
  "\<exists>lp1 lp'. trading_run ser digest cap None 30 lp0 [(FailedWith refusal, lp1)] 1 1 lp'"
proof -
  let ?lp = "attempt_begun 0 (0 + 1) lp0"
  obtain lp' where "attempt_over 0 1 30 cap (ts_decisions (lp_stats lp0)) (0 + 1) (FailedWith refusal) ?lp = (Retry 1, 1, lp')"
    by (simp add: attempt_over_def Let_def refused_network wait_to_reconnect_def backoff_first)
  from tr_retry [OF tr_start _ ar_refused this, where max_attempts = None] show ?thesis
    by (auto simp: attempts_left_def)
qed

theorem only_network_failures_retried_witness:
  "\<exists>es k n lp. trading_run link_ser link_digest None None 30 demo_loop es k n lp \<and> es \<noteq> [] \<and> tallies_ok (lp_stats lp) \<and> n = int (length es)"
proof -
  obtain lp1 lp where run: "trading_run link_ser link_digest None None 30 demo_loop [(FailedWith refusal, lp1)] 1 1 lp"
    using refused_retried by blast
  from only_network_failures_retried [OF run demo_loop_ready(3)] run show ?thesis by blast
qed

subsection \<open>Silent until the tick the server named\<close>

text \<open>All a client may do after some state of its loop: its session runs on, it waits, takes states in,
  decides and acts in any way, loses its connection and opens the next one.\<close>

inductive loop_goes_on :: "(client_message \<Rightarrow> bytes) \<Rightarrow> (bytes \<Rightarrow> string) \<Rightarrow> trading_loop \<Rightarrow> trading_loop \<Rightarrow> bool"
  for ser digest lp where
  go_here: "loop_goes_on ser digest lp lp"
| go_session: "loop_goes_on ser digest lp lp1 \<Longrightarrow> loop_goes_on ser digest lp (set_session ss lp1)"
| go_quiet: "loop_goes_on ser digest lp lp1 \<Longrightarrow> loop_goes_on ser digest lp (turn_timeout now later lp1)"
| go_state: "loop_goes_on ser digest lp lp1 \<Longrightarrow> loop_goes_on ser digest lp (turn_state now later s lp1)"
| go_step: "loop_goes_on ser digest lp lp1 \<Longrightarrow> step_run ser digest s lp1 r lp2 \<Longrightarrow> loop_goes_on ser digest lp lp2"
| go_over: "loop_goes_on ser digest lp lp1 \<Longrightarrow>
     attempt_over later jitter max_backoff cap before attempt e lp1 = (v, attempt', lp2) \<Longrightarrow> loop_goes_on ser digest lp lp2"
| go_begun: "loop_goes_on ser digest lp lp1 \<Longrightarrow> loop_goes_on ser digest lp (attempt_begun now attempt lp1)"
| go_connected: "loop_goes_on ser digest lp lp1 \<Longrightarrow> loop_goes_on ser digest lp (attempt_connected now ss number lp1)"
| go_admitted: "loop_goes_on ser digest lp lp1 \<Longrightarrow> loop_goes_on ser digest lp (admit_state now s lp1)"
| go_ready: "loop_goes_on ser digest lp lp1 \<Longrightarrow> admit_ready now s ack lp1 = (x, lp2) \<Longrightarrow> loop_goes_on ser digest lp lp2"

text \<open>These are the moves of the loop: whatever a whole connection does is made of them, and so is the
  whole run up to its next connection.\<close>

lemma loop_goes_on_run_loop:
  "run_loop ser digest cap sq lp1 r lp2 \<Longrightarrow> loop_goes_on ser digest lp lp1 \<Longrightarrow> loop_goes_on ser digest lp lp2"
proof (induction rule: run_loop.induct)
  case (rl_quiet lp1 sq now later ss r lp2)
  show ?case by (rule rl_quiet.IH [OF go_quiet [OF go_session [OF rl_quiet.prems]]])
next
  case (rl_closed lp1 sq ss)
  then show ?case by (simp only: go_session)
next
  case (rl_failed lp1 e sq ss)
  then show ?case by (simp only: go_session)
next
  case (rl_raised lp1 sq s now later ss e lp2)
  show ?case by (rule go_step [OF go_state [OF go_session [OF rl_raised.prems]] rl_raised.hyps(3)])
next
  case (rl_ended lp1 sq s now later ss lp2)
  show ?case by (rule go_step [OF go_state [OF go_session [OF rl_ended.prems]] rl_ended.hyps(3)])
next
  case (rl_next lp1 sq s now later ss lp2 r lp3)
  show ?case by (rule rl_next.IH [OF go_step [OF go_state [OF go_session [OF rl_next.prems]] rl_next.hyps(3)]])
qed

lemma go_left: "loop_goes_on ser digest lp lp1 \<Longrightarrow> loop_goes_on ser digest lp (session_left lp1)"
  unfolding session_left_def by (rule go_session)

lemma loop_goes_on_attempt:
  assumes "attempt_run ser digest cap number lp1 e lp2" and "loop_goes_on ser digest lp lp1"
  shows "loop_goes_on ser digest lp lp2"
  using assms
proof cases
  case (ar_refused f)
  with assms(2) show ?thesis by simp
next
  case (ar_stateless ss lp3 now e ss')
  show ?thesis unfolding ar_stateless by (intro go_left go_session go_connected assms(2))
next
  case (ar_unready ss lp3 now e now1 s ss')
  show ?thesis unfolding ar_unready by (intro go_left go_session go_admitted go_connected assms(2))
next
  case (ar_changed ss lp3 now1 s ss' now now2 ack ss'' e lp4)
  show ?thesis unfolding ar_changed(2)
    by (rule go_left, rule go_ready [OF _ ar_changed(5)], unfold ar_changed(4), intro go_session go_admitted go_connected assms(2))
next
  case (ar_ran ss lp3 now1 s ss' now now2 ack ss'' sq lp4 r lp5)
  show ?thesis unfolding ar_ran(2)
    by (rule go_left, rule loop_goes_on_run_loop [OF ar_ran(6)], rule go_ready [OF _ ar_ran(5)], unfold ar_ran(4),
        intro go_session go_admitted go_connected assms(2))
qed

lemma loop_goes_on_trading:
  assumes "trading_run ser digest cap max_attempts max_backoff lp0 es attempt number lp" and "loop_goes_on ser digest lp1 lp0"
  shows "loop_goes_on ser digest lp1 lp"
  using assms
proof induction
  case (tr_retry es attempt number lp now e lp2 later jitter d attempt' lp3)
  show ?case
    by (rule go_over [OF loop_goes_on_attempt [OF tr_retry.hyps(3) go_begun [OF tr_retry.IH [OF tr_retry.prems]]] tr_retry.hyps(4)])
qed

lemma silent_frames [simp]:
  "silent_until (set_session ss lp) = silent_until lp" "silent_until (report_change y lp) = silent_until lp"
  "silent_until (set_status now x d lp) = silent_until lp" "silent_until (connection_log a b c lp) = silent_until lp"
  by (simp_all add: set_session_def with_trader_def memory_of_def set_status_def connection_log_def on_evidence_def)

lemma loop_goes_on_silent: "loop_goes_on ser digest lp lp' \<Longrightarrow> silent_until lp \<le> silent_until lp'"
proof (induction rule: loop_goes_on.induct)
  case (go_step lp1 s r lp2)
  with step_run_block(1) [OF go_step(2)] show ?case by simp
next
  case (go_over lp1 later jitter max_backoff cap before attempt e v attempt' lp2)
  then have "silent_until lp2 = silent_until lp1"
    by (auto simp: attempt_over_def wait_to_reconnect_def Let_def split: attempt_end.splits option.splits if_splits sum.splits)
  with go_over show ?case by simp
next
  case (go_state lp1 now later s)
  then show ?case by (simp add: turn_state_def Let_def) (simp add: memory_of_def on_stats_def)
next
  case (go_connected lp1 now ss number)
  then show ?case
    by (simp add: attempt_connected_def Let_def memory_of_def executor_new_def connection_log_def on_evidence_def
        with_trader_def set_status_def)
next
  case (go_ready lp1 now s ack x lp2)
  then have "silent_until lp2 = silent_until (set_status now SYNCHRONIZED
      (''readiness confirmed at sequence '' @ show_int (ack_snapshot_sequence ack)) lp1)"
    by (auto simp: admit_ready_def Let_def with_trader_def memory_of_def split: if_splits)
  with go_ready show ?case by simp
qed (simp_all add: turn_timeout_def attempt_begun_def admit_state_def)

lemma acted_limited:
  assumes "so_result x = Some r" and "code r = RATE_LIMITED" and "\<not> ok r" and "retry_after_tick r = Some t"
  shows "t \<le> silent_until (acted a x tr lp)"
  using record_answer_limited(1) [OF assms(1-3), of a "lp\<lparr>lp_trader := tr\<rparr>"]
  by (simp add: acted_def Let_def on_stats_def memory_of_def block_until_def assms(4))

text \<open>C40: A RATE_LIMITED answer silences the client: whatever it does from then on, over any number of
  steps and connections, no decision on a state before the tick the server named plans a command, and
  no step on such a state sends one.\<close>

theorem rate_limit_silences:
  assumes "so_result x = Some r" and "code r = RATE_LIMITED" and "\<not> ok r" and "retry_after_tick r = Some t"
    and "loop_goes_on ser digest (acted a x tr lp) lp1" and "snap_tick (newest_of lp1 s) < t"
  shows "(step_decide since s lp1 = (Inr p, lp2) \<longrightarrow> d_actions (sp_decision p) = [])
    \<and> (step_run ser digest s lp1 e lp3 \<longrightarrow> records_of (lp_trader lp3) = records_of (lp_trader lp1)
         \<and> ts_commands_sent (lp_stats lp3) = ts_commands_sent (lp_stats lp1))"
proof -
  have "snap_tick (newest_of lp1 s) < silent_until lp1"
    using acted_limited [OF assms(1-4), of a tr lp] loop_goes_on_silent [OF assms(5)] assms(6) by simp
  then show ?thesis using step_decide_block(2) step_run_block(2) by blast
qed

theorem rate_limit_silences_witness:
  "\<exists>lp1. loop_goes_on link_ser link_digest (acted (AcceptAction ''offer-1'')
       \<lparr>so_request_id = ''r-1'', so_result = Some (link_result\<lparr>ok := False, code := RATE_LIMITED, retry_after_tick := Some 11\<rparr>),
        so_error = None\<rparr> deal_start demo_loop) lp1
     \<and> (\<exists>p lp2. step_decide 0 demo_tick lp1 = (Inr p, lp2) \<and> d_actions (sp_decision p) = [])"
proof -
  let ?r = "link_result\<lparr>ok := False, code := RATE_LIMITED, retry_after_tick := Some 11\<rparr>"
  let ?x = "\<lparr>so_request_id = ''r-1'', so_result = Some ?r, so_error = None\<rparr>"
  let ?lp = "acted (AcceptAction ''offer-1'') ?x deal_start demo_loop"
  note lim = record_answer_limited [of ?x ?r "AcceptAction ''offer-1''" "demo_loop\<lparr>lp_trader := deal_start\<rparr>"]
  have n: "newest_of ?lp demo_tick = newest_of demo_loop demo_tick" "memory_of ?lp = block_until (Some 11) (memory_of demo_loop)"
    using lim by (simp_all add: newest_of_def session_of_def memory_of_def acted_def Let_def on_stats_def demo_loop_def)
  have tick: "snap_tick (newest_of ?lp demo_tick) < 11" unfolding n(1) demo_loop_ready by (simp add: demo_tick_def demo_defs)
  obtain left ss where b: "remaining_command_budget (session_of ?lp) = (left, ss)" by fastforce
  have ok: "snapshot_ok (newest_of ?lp demo_tick)" "memory_ok (memory_of ?lp)"
    using demo_loop_ready(2) by (simp_all add: n demo_loop_ready demo_snapshot_ok(1))
  obtain d m where "strategy_decide (lp_strategy ?lp) (newest_of ?lp demo_tick) (memory_of ?lp)
      (Some (tr_commitments (lp_trader ?lp))) (Some (min 1 left)) = Inr (d, m)"
    using strategy_contract [OF ok(2,1)] by blast
  then obtain p lp2 where p: "step_decide 0 demo_tick ?lp = (Inr p, lp2)"
    using b by (auto simp: step_decide_def Let_def set_session_def with_trader_def memory_of_def newest_of_def session_of_def)
  have "d_actions (sp_decision p) = []"
    using rate_limit_silences [where r = ?r and x = ?x and t = 11, OF _ _ _ _ go_here tick] p by simp
  with p go_here show ?thesis by blast
qed

subsection \<open>Three ways the loop falls short\<close>

text \<open>A connection that worked but was lost while a command was under way does not reset the backoff,
  although one that was lost between commands does.\<close>

lemma lost_command_keeps_backoff:
  assumes "before < ts_decisions (lp_stats lp)"
  shows "fst (snd (attempt_over now jitter mb cap before k (FailedWith f) lp)) = k"
    and "fst (snd (attempt_over now jitter mb cap before k Completed lp)) = 0"
  using assms
  by (auto simp: attempt_over_def wait_to_reconnect_def Let_def split: option.splits sum.splits)

text \<open>After 1024 network failures in a row the delay itself fails, and the client ends as if it had a bug.\<close>

lemma backoff_overflows:
  assumes "1025 \<le> attempt"
  shows "backoff_delay jitter attempt mb = Inl OverflowError"
proof -
  have "(2::int) ^ 1024 \<le> 2 ^ nat (max 0 (attempt - 1))" using assms by (intro power_increasing) auto
  then show ?thesis by (simp only: backoff_delay_def backoff_base_def Let_def if_True bindE_simps)
qed

lemma endless_outage_raises:
  assumes "1025 \<le> attempt"
  shows "\<exists>f. fst (attempt_over now jitter mb cap before attempt (FailedWith refusal) lp) = Reraise f
    \<and> exit_code (diagnose f None) = 1"
proof -
  have "dg_kind (diagnose (session_failure (Raised OverflowError)) None) = APPLICATION"
    by (simp add: diagnose_def Let_def is_handshake_def is_os_error_def)
  then show ?thesis
    by (simp add: attempt_over_def Let_def refused_network wait_to_reconnect_def backoff_overflows [OF assms] exit_code_def)
qed

text \<open>
  A connection that closes while the strategy thinks: the pump announces the end when nobody waits,
  and every later wait of the loop times out, since no wait looks at \<open>_closed\<close>.
\<close>

fun poll_state :: "nat \<Rightarrow> int \<Rightarrow> session \<Rightarrow> (session_error + answer) list \<times> session" where
  "poll_state 0 sq ss = ([], ss)"
| "poll_state (Suc n) sq ss = (case wait_for_snapshot sq ss of
     (Inl s, ss) \<Rightarrow> ([Inr (SnapshotAnswer s)], ss)
   | (Inr f, ss) \<Rightarrow> (case wait_for_snapshot_over f ss of (a, ss) \<Rightarrow>
       (case poll_state n sq ss of (as, ss) \<Rightarrow> (a # as, ss))))"

lemma polls_time_out:
  assumes "case ss_latest ss of None \<Rightarrow> True | Some v \<Rightarrow> snapshot_sequence v < sq"
  shows "fst (poll_state n sq ss) = replicate n (Inl TimeoutError)"
  using assms
proof (induction n arbitrary: ss)
  case (Suc n)
  let ?f = "length (ss_futures ss)"
  let ?ss = "ss\<lparr>ss_futures := ss_futures ss @ [(ForSnapshot sq, Pending)],
     ss_snapshot_waiters := ss_snapshot_waiters ss @ [(sq, ?f)]\<rparr>"
  have w: "wait_for_snapshot sq ss = (Inr ?f, ?ss)"
    using Suc.prems by (auto simp: wait_for_snapshot_def create_future_def split: option.splits)
  obtain ss' where o: "wait_for_snapshot_over ?f ?ss = (Inl TimeoutError, ss')" "ss_latest ss' = ss_latest ss"
    by (simp add: wait_for_snapshot_over_def awaited_def settle_future_def)
  from Suc.IH [of ss'] Suc.prems have "fst (poll_state n sq ss') = replicate n (Inl TimeoutError)"
    by (simp add: o(2))
  then show ?case by (simp add: w o(1) case_prod_beta)
qed simp

lemma closed_while_deciding_is_missed:
  "\<exists>d. session_reach link_ser link_parse link_digest d \<and> ss_closed (dk_session d) \<and> \<not> ss_pumping (dk_session d)
     \<and> \<not> ss_receiving (dk_session d) \<and> (\<forall>n. fst (poll_state n 8 (dk_session d)) = replicate n (Inl TimeoutError))"
proof -
  let ?shut = "receive_end link_active"
  let ?ss = "consume_event link_ser True 5 [] ?shut"
  have "ss_receiving link_active" by (simp add: link_active_eq link_begin_eq)
  with reach_end [OF link_reach_active] have 1: "session_reach link_ser link_parse link_digest
      \<lparr>dk_session = ?shut, dk_sends = [], dk_seen = [demo_tick]\<rparr>" by simp
  have "ss_pumping ?shut" by (simp add: receive_end_def link_active_eq link_begin_eq)
  with reach_pump [OF 1, of True 5 "[]"] have
    2: "session_reach link_ser link_parse link_digest \<lparr>dk_session = ?ss, dk_sends = [],
        dk_seen = [demo_tick] @ taken_snapshot ?shut\<rparr>" by simp
  have q: "ss_queue ?shut = [ClosedSentinel]"
    by (simp add: receive_end_def link_active_eq link_begin_eq session_init_def)
  have s: "ss_closed ?ss" "\<not> ss_pumping ?ss" "\<not> ss_receiving ?ss" "ss_latest ?ss = Some demo_tick"
    using q by (simp_all add: consume_event_def fail_all_alt) (simp_all add: receive_end_def link_active_eq)
  have "fst (poll_state n 8 ?ss) = replicate n (Inl TimeoutError)" for n
    by (rule polls_time_out) (simp add: s demo_tick_def demo_defs)
  with 2 s show ?thesis
    by (intro exI [of _ "\<lparr>dk_session = ?ss, dk_sends = [], dk_seen = [demo_tick] @ taken_snapshot ?shut\<rparr>"]) simp
qed

end
