(* ===== verification/Economy.thy ===== *)
theory Economy
  imports Actions Throttle
begin

text \<open>
  \<open>bazaar_sim/economy.py\<close>: the rule engine of the simulated server. Stations are kept in an
  insertion-ordered dictionary and mutated by key; commands return an outcome code; a tick
  expires offers, settles every station and closes the dealings of failed ones. The invariants
  and what they give are in \<open>Economy_Inv\<close>.
\<close>

definition DEFAULT_RULES :: rules where
  "DEFAULT_RULES = \<lparr>rules_version = ''bazaar-sim-1'', duration_ticks = 120, tick_duration_ms = 5000,
     resource_order = [WATER, FOOD, COMPONENTS], max_health = 100, shortage_damage_per_unit = 5,
     recovery_per_fully_supplied_tick = 5, max_publication_ttl_ticks = 10, max_offer_ttl_ticks = 10,
     new_commands_per_station_per_tick = 4, max_request_records_per_station = 1000,
     max_open_outgoing_offers = 6, max_command_bytes = 16384\<rparr>"

definition DEFAULT_UPKEEP :: Bundle where
  "DEFAULT_UPKEEP = Bundle 1 1 1"

record command_outcome =
  co_code :: result_code
  co_object_id :: "string option"
  co_transaction_id :: "string option"

definition co_ok :: "command_outcome \<Rightarrow> bool" where
  "co_ok c \<longleftrightarrow> co_code c = RES_OK"

definition refused :: "result_code \<Rightarrow> command_outcome" where
  "refused c = \<lparr>co_code = c, co_object_id = None, co_transaction_id = None\<rparr>"

definition done_with :: "string \<Rightarrow> string option \<Rightarrow> command_outcome" where
  "done_with oid txn = \<lparr>co_code = RES_OK, co_object_id = Some oid, co_transaction_id = txn\<rparr>"

subsection \<open>Stations\<close>

record sim_station =
  st_station_id :: string
  st_specialty :: resource
  st_inventory :: Bundle
  st_production :: int
  st_upkeep :: Bundle
  st_display_name :: string
  st_health :: int
  st_failed_once :: bool
  st_first_failure_tick :: "int option"
  st_shortage_ticks :: int
  st_fully_supplied_ticks :: int
  st_current_shortage_streak :: int
  st_longest_shortage_streak :: int
  st_last_production :: Bundle
  st_last_unmet :: Bundle
  st_produced_total :: Bundle
  st_consumed_total :: Bundle
  st_unmet_total :: Bundle
  st_imported :: Bundle
  st_exported :: Bundle

definition sim_station_new :: "string \<Rightarrow> resource \<Rightarrow> Bundle \<Rightarrow> int \<Rightarrow> sim_station" where
  "sim_station_new sid spec stock production = \<lparr>st_station_id = sid, st_specialty = spec,
     st_inventory = stock, st_production = production, st_upkeep = DEFAULT_UPKEEP,
     st_display_name = '''', st_health = 100, st_failed_once = False, st_first_failure_tick = None,
     st_shortage_ticks = 0, st_fully_supplied_ticks = 0, st_current_shortage_streak = 0,
     st_longest_shortage_streak = 0, st_last_production = zero_bundle, st_last_unmet = zero_bundle,
     st_produced_total = zero_bundle, st_consumed_total = zero_bundle, st_unmet_total = zero_bundle,
     st_imported = zero_bundle, st_exported = zero_bundle\<rparr>"

definition settle_tick :: "rules \<Rightarrow> int \<Rightarrow> sim_station \<Rightarrow> sim_station result" where
  "settle_tick rs tick st =
     bindE (single (st_specialty st) (st_production st)) (\<lambda>produced.
     let stock = bundle_add (st_inventory st) produced;
         unmet = saturating_sub (st_upkeep st) stock
     in bindE (bundle_sub (st_upkeep st) unmet) (\<lambda>consumed.
     let st = st\<lparr>st_inventory := saturating_sub stock (st_upkeep st),
                 st_last_production := produced,
                 st_produced_total := bundle_add (st_produced_total st) produced,
                 st_last_unmet := unmet,
                 st_consumed_total := bundle_add (st_consumed_total st) consumed,
                 st_unmet_total := bundle_add (st_unmet_total st) unmet\<rparr>
     in if is_zero unmet then
          Inr (st\<lparr>st_health := min (max_health rs) (st_health st + recovery_per_fully_supplied_tick rs),
                  st_fully_supplied_ticks := st_fully_supplied_ticks st + 1,
                  st_current_shortage_streak := 0\<rparr>)
        else
          let h = max 0 (st_health st - int (total unmet) * shortage_damage_per_unit rs);
              streak = st_current_shortage_streak st + 1;
              st = st\<lparr>st_health := h,
                      st_shortage_ticks := st_shortage_ticks st + 1,
                      st_current_shortage_streak := streak,
                      st_longest_shortage_streak := max (st_longest_shortage_streak st) streak\<rparr>
          in Inr (if h = 0 \<and> \<not> st_failed_once st
                  then st\<lparr>st_failed_once := True, st_first_failure_tick := Some tick\<rparr> else st)))"

definition observation :: "sim_station \<Rightarrow> station_observation" where
  "observation st = \<lparr>obs_station_id = st_station_id st, inventory = st_inventory st,
     health = st_health st, failed_once = st_failed_once st,
     first_failure_tick = st_first_failure_tick st, last_production = st_last_production st,
     last_unmet_upkeep = st_last_unmet st, fully_supplied_ticks = st_fully_supplied_ticks st,
     shortage_ticks = st_shortage_ticks st, current_shortage_streak = st_current_shortage_streak st,
     longest_shortage_streak = st_longest_shortage_streak st, produced_total = st_produced_total st,
     consumed_total = st_consumed_total st, unmet_total = st_unmet_total st,
     imported_total = st_imported st, exported_total = st_exported st,
     upkeep_per_tick = st_upkeep st, specialty = st_specialty st\<rparr>"

subsection \<open>The economy\<close>

record economy =
  ec_stations :: "(string, sim_station) pydict"
  ec_rules :: rules
  ec_run_id :: string
  ec_tick :: int
  ec_world_version :: int
  ec_sequence :: int
  ec_offers :: "offer list"
  ec_transactions :: "transaction list"
  ec_ads :: "advertisement list"
  ec_ids :: nat
  ec_counts :: "(string, int) pydict"
  ec_rejections :: "(string \<times> result_code) list"

definition economy_init :: "sim_station list \<Rightarrow> rules \<Rightarrow> string \<Rightarrow> economy" where
  "economy_init sts rs rid = \<lparr>ec_stations = fold (\<lambda>st d. dict_set (st_station_id st) st d) sts [],
     ec_rules = rs, ec_run_id = rid, ec_tick = 0, ec_world_version = 1, ec_sequence = 0,
     ec_offers = [], ec_transactions = [], ec_ads = [], ec_ids = 1, ec_counts = [], ec_rejections = []\<rparr>"

definition station_at :: "economy \<Rightarrow> string \<Rightarrow> sim_station result" where
  "station_at e sid = (case dict_get (ec_stations e) sid of None \<Rightarrow> Inl (KeyError sid) | Some st \<Rightarrow> Inr st)"

definition visible_to :: "string \<Rightarrow> string \<Rightarrow> string \<Rightarrow> bool" where
  "visible_to sid p r \<longleftrightarrow> sid \<in> set [p, r]"

definition observation_for ::
  "string \<Rightarrow> int option \<Rightarrow> phase \<Rightarrow> command_result list \<Rightarrow> player_outcome option \<Rightarrow> economy \<Rightarrow>
     (snapshot \<times> economy) result" where
  "observation_for sid sequence ph results out e =
     (let (sequence, e) = (case sequence of
            None \<Rightarrow> (ec_sequence e + 1, e\<lparr>ec_sequence := ec_sequence e + 1\<rparr>)
          | Some n \<Rightarrow> (n, e))
      in bindE (station_at e sid) (\<lambda>st. Inr
        (\<lparr>run_id = ec_run_id e, snapshot_sequence = sequence, world_version = ec_world_version e,
          snap_tick = ec_tick e, snap_phase = ph, self_station_id = sid, snap_rules = ec_rules e,
          directory = map (\<lambda>s. \<lparr>dir_station_id = st_station_id s,
              display_name = (if st_display_name s \<noteq> [] then st_display_name s else st_station_id s)\<rparr>)
            (dict_values (ec_stations e)),
          me = observation st,
          offers = filter (\<lambda>o'. visible_to sid (proposer_id o') (recipient_id o')) (ec_offers e),
          advertisements = ec_ads e,
          transactions = filter (\<lambda>t. visible_to sid (txn_proposer_id t) (txn_recipient_id t)) (ec_transactions e),
          request_results = results, outcome = out\<rparr>, e)))"

definition outcome_for :: "string \<Rightarrow> bool \<Rightarrow> economy \<Rightarrow> player_outcome result" where
  "outcome_for sid abort e =
     bindE (station_at e sid) (\<lambda>st. Inr
       \<lparr>collective_success = Some (\<not> list_ex st_failed_once (dict_values (ec_stations e))),
        self_failed = st_failed_once st, aborted = abort\<rparr>)"

subsection \<open>Commands\<close>

definition open_count :: "string \<Rightarrow> offer list \<Rightarrow> int" where
  "open_count sid os = int (length (filter (\<lambda>o'. proposer_id o' = sid \<and> offer_status o' = OPEN) os))"

definition deadline_ok :: "economy \<Rightarrow> int \<Rightarrow> int \<Rightarrow> bool" where
  "deadline_ok e ttl expires \<longleftrightarrow>
     ec_tick e < expires \<and> expires \<le> min (ec_tick e + ttl) (duration_ticks (ec_rules e))"

definition precheck :: "string \<Rightarrow> action \<Rightarrow> economy \<Rightarrow> result_code option result" where
  "precheck sid a e =
     bindE (station_at e sid) (\<lambda>st.
      if st_failed_once st then Inr (Some STATION_FAILED)
      else if ec_tick e \<ge> duration_ticks (ec_rules e) then Inr (Some RUN_NOT_RUNNING)
      else if dict_get_or 0 (ec_counts e) sid \<ge> new_commands_per_station_per_tick (ec_rules e)
      then Inr (Some RATE_LIMITED)
      else case a of
        AdvertiseAction _ _ expires \<Rightarrow>
          Inr (if deadline_ok e (max_publication_ttl_ticks (ec_rules e)) expires then None
               else Some INVALID_ARGUMENT)
      | OfferAction rid g w expires \<Rightarrow>
          if \<not> deadline_ok e (max_offer_ttl_ticks (ec_rules e)) expires then Inr (Some INVALID_ARGUMENT)
          else (case dict_get (ec_stations e) rid of
              None \<Rightarrow> Inr (Some INVALID_ARGUMENT)
            | Some recipient \<Rightarrow>
                Inr (if rid = sid \<or> is_zero g then Some INVALID_ARGUMENT
                     else if st_failed_once recipient then Some STATION_FAILED
                     else if \<not> dominates (st_inventory st) g then Some INSUFFICIENT_RESOURCES
                     else if open_count sid (ec_offers e) \<ge> max_open_outgoing_offers (ec_rules e)
                     then Some LIMIT_REACHED else None))
      | _ \<Rightarrow> Inr None)"

definition new_id :: "string \<Rightarrow> nat \<Rightarrow> string" where
  "new_id prefix n = prefix @ ''-'' @ show_int (int n)"

definition advertise :: "string \<Rightarrow> resource set \<Rightarrow> resource set \<Rightarrow> int \<Rightarrow> economy \<Rightarrow> command_outcome \<times> economy" where
  "advertise sid sell seek expires e =
     (let aid = new_id ''ad'' (ec_ids e);
          ad = \<lparr>advertisement_id = aid, ad_station_id = sid, selling = sell, seeking = seek,
                ad_created_tick = ec_tick e, ad_expires_tick = expires,
                ad_created_version = ec_world_version e, ad_status = PUB_ACTIVE\<rparr>
      in (done_with aid None,
          e\<lparr>ec_ads := filter (\<lambda>a. ad_station_id a \<noteq> sid) (ec_ads e) @ [ad], ec_ids := ec_ids e + 1\<rparr>))"

definition post_offer :: "string \<Rightarrow> string \<Rightarrow> Bundle \<Rightarrow> Bundle \<Rightarrow> int \<Rightarrow> economy \<Rightarrow> command_outcome \<times> economy" where
  "post_offer sid rid g w expires e =
     (let oid = new_id ''offer'' (ec_ids e);
          o' = \<lparr>offer_id = oid, proposer_id = sid, recipient_id = rid, give = g, receive = w,
                created_tick = ec_tick e, created_version = ec_world_version e, expires_tick = expires,
                offer_status = OPEN, closed_tick = None, offer_transaction_id = None\<rparr>
      in (done_with oid None, e\<lparr>ec_offers := ec_offers e @ [o'], ec_ids := ec_ids e + 1\<rparr>))"

definition find_offer_by_id :: "string \<Rightarrow> economy \<Rightarrow> offer option" where
  "find_offer_by_id oid e = find (\<lambda>o'. offer_id o' = oid) (ec_offers e)"

definition closed_as :: "offer_status \<Rightarrow> int \<Rightarrow> string option \<Rightarrow> offer \<Rightarrow> offer" where
  "closed_as status tick txn o' =
     o'\<lparr>offer_status := status, closed_tick := Some tick, offer_transaction_id := txn\<rparr>"

definition close_offer :: "string \<Rightarrow> offer_status \<Rightarrow> string option \<Rightarrow> economy \<Rightarrow> economy" where
  "close_offer oid status txn e =
     e\<lparr>ec_offers := map (\<lambda>o'. if offer_id o' \<noteq> oid then o' else closed_as status (ec_tick e) txn o')
         (ec_offers e)\<rparr>"

definition withdraw :: "string \<Rightarrow> string \<Rightarrow> economy \<Rightarrow> command_outcome \<times> economy" where
  "withdraw sid oid e =
     (case find (\<lambda>a. advertisement_id a = oid) (ec_ads e) of
        Some ad \<Rightarrow>
          if ad_station_id ad \<noteq> sid then (refused INVALID_ARGUMENT, e)
          else (done_with oid None, e\<lparr>ec_ads := remove1 ad (ec_ads e)\<rparr>)
      | None \<Rightarrow>
          (case find_offer_by_id oid e of
             None \<Rightarrow> (refused NOT_FOUND, e)
           | Some o' \<Rightarrow>
               if proposer_id o' \<noteq> sid then (refused INVALID_ARGUMENT, e)
               else if offer_status o' \<noteq> OPEN then (refused NOT_OPEN, e)
               else (done_with oid None, close_offer oid WITHDRAWN None e)))"

definition set_station :: "sim_station \<Rightarrow> string \<Rightarrow> economy \<Rightarrow> economy" where
  "set_station st sid e = e\<lparr>ec_stations := dict_set sid st (ec_stations e)\<rparr>"

text \<open>\<open>self.inventory - paid + got\<close> with the export and import totals.\<close>

definition pay_and_get :: "Bundle \<Rightarrow> Bundle \<Rightarrow> sim_station \<Rightarrow> sim_station result" where
  "pay_and_get paid got st =
     bindE (bundle_sub (st_inventory st) paid) (\<lambda>rest. Inr
       (st\<lparr>st_inventory := bundle_add rest got,
           st_exported := bundle_add (st_exported st) paid,
           st_imported := bundle_add (st_imported st) got\<rparr>))"

definition accept_offer :: "string \<Rightarrow> string \<Rightarrow> economy \<Rightarrow> (command_outcome \<times> economy) result" where
  "accept_offer accepting_id oid e =
     (case find_offer_by_id oid e of
        None \<Rightarrow> Inr (refused NOT_FOUND, e)
      | Some o' \<Rightarrow>
          if recipient_id o' \<noteq> accepting_id then Inr (refused INVALID_ARGUMENT, e)
          else if offer_status o' \<noteq> OPEN then Inr (refused NOT_OPEN, e)
          else if is_expired_at o' (ec_tick e) then Inr (refused RES_EXPIRED, e)
          else bindE (station_at e (proposer_id o')) (\<lambda>proposer.
               bindE (station_at e (recipient_id o')) (\<lambda>recipient.
            if st_failed_once proposer \<or> st_failed_once recipient then Inr (refused STATION_FAILED, e)
            else if \<not> dominates (st_inventory proposer) (give o')
                  \<or> \<not> dominates (st_inventory recipient) (receive o')
            then Inr (refused INSUFFICIENT_RESOURCES, e)
            else bindE (pay_and_get (give o') (receive o') proposer) (\<lambda>proposer'.
                 let e = set_station proposer' (proposer_id o') e
                 in bindE (station_at e (recipient_id o')) (\<lambda>recipient.
                    bindE (pay_and_get (receive o') (give o') recipient) (\<lambda>recipient'.
                    let txn = new_id ''txn'' (ec_ids e);
                        e = (set_station recipient' (recipient_id o') e)\<lparr>ec_ids := ec_ids e + 1\<rparr>;
                        e = close_offer oid ACCEPTED (Some txn) e
                    in Inr (done_with oid (Some txn),
                        e\<lparr>ec_transactions := ec_transactions e @
                           [\<lparr>transaction_id = txn, txn_offer_id = offer_id o', txn_proposer_id = proposer_id o',
                             txn_recipient_id = recipient_id o', txn_give = give o', txn_receive = receive o',
                             settled_tick = ec_tick e, settled_version = ec_world_version e\<rparr>]\<rparr>)))))))"

definition count_command :: "string \<Rightarrow> economy \<Rightarrow> economy" where
  "count_command sid e = e\<lparr>ec_counts := dict_set sid (dict_get_or 0 (ec_counts e) sid + 1) (ec_counts e)\<rparr>"

definition execute :: "string \<Rightarrow> action \<Rightarrow> economy \<Rightarrow> (command_outcome \<times> economy) result" where
  "execute sid a e =
     bindE (precheck sid a e) (\<lambda>r. case r of
       Some c \<Rightarrow> Inr (refused c, e)
     | None \<Rightarrow>
        (let e = count_command sid e in
         case a of
           AdvertiseAction sell seek expires \<Rightarrow> Inr (advertise sid sell seek expires e)
         | OfferAction rid g w expires \<Rightarrow> Inr (post_offer sid rid g w expires e)
         | AcceptAction oid \<Rightarrow> accept_offer sid oid e
         | WithdrawAction oid \<Rightarrow> Inr (withdraw sid oid e)
         | SyncAction \<Rightarrow> Inr (refused INVALID_ARGUMENT, e)))"

definition apply_batch :: "string \<Rightarrow> action list \<Rightarrow> economy \<Rightarrow> economy result" where
  "apply_batch sid acts e =
     bindE (foldE (\<lambda>a e. bindE (execute sid a e) (\<lambda>(c, e).
        Inr (if \<not> co_ok c then e\<lparr>ec_rejections := ec_rejections e @ [(sid, co_code c)]\<rparr> else e))) acts e)
      (\<lambda>e. Inr (e\<lparr>ec_world_version := ec_world_version e + 1\<rparr>))"

subsection \<open>Time\<close>

definition close_where :: "(offer \<Rightarrow> bool) \<Rightarrow> offer_status \<Rightarrow> economy \<Rightarrow> economy" where
  "close_where P status e =
     fold (\<lambda>o' e. if offer_status o' = OPEN \<and> P o' then close_offer (offer_id o') status None e else e)
       (ec_offers e) e"

definition failed_stations :: "economy \<Rightarrow> string set" where
  "failed_stations e = set (map st_station_id (filter st_failed_once (dict_values (ec_stations e))))"

definition settle_all :: "economy \<Rightarrow> economy result" where
  "settle_all e =
     bindE (mapE (\<lambda>(k, st). bindE (settle_tick (ec_rules e) (ec_tick e) st) (\<lambda>st. Inr (k, st))) (ec_stations e))
       (\<lambda>d. Inr (e\<lparr>ec_stations := d\<rparr>))"

definition advance_tick :: "economy \<Rightarrow> economy result" where
  "advance_tick e =
     (let e = e\<lparr>ec_tick := ec_tick e + 1, ec_counts := [], ec_world_version := ec_world_version e + 1\<rparr>;
          e = close_where (\<lambda>o'. expires_tick o' \<le> ec_tick e) EXPIRED e;
          e = e\<lparr>ec_ads := filter (\<lambda>a. ad_expires_tick a > ec_tick e) (ec_ads e)\<rparr>
      in bindE (settle_all e) (\<lambda>e.
         let failed = failed_stations e;
             e = e\<lparr>ec_ads := filter (\<lambda>a. ad_station_id a \<notin> failed) (ec_ads e)\<rparr>
         in Inr (close_where (\<lambda>o'. failed \<inter> {proposer_id o', recipient_id o'} \<noteq> {}) WITHDRAWN e)))"

definition ec_finished :: "economy \<Rightarrow> bool" where
  "ec_finished e \<longleftrightarrow> ec_tick e \<ge> duration_ticks (ec_rules e)"

definition end_run :: "economy \<Rightarrow> economy" where
  "end_run e =
     (let e = close_where (\<lambda>_. True) RUN_ENDED e
      in e\<lparr>ec_ads := [], ec_world_version := ec_world_version e + 1\<rparr>)"

end
