(* ===== verification/Economy_Inv.thy ===== *)
theory Economy_Inv
  imports Economy
begin

text \<open>
  Why the simulated server can be trusted as a reference: its state stays well formed in every
  reachable world, no command or tick raises, settlement is atomic and conserves goods, and the
  totals a station reports add up. The invariant is a conjunction of small predicates, each with
  one lemma per operation.
\<close>

subsection \<open>Well-formed worlds\<close>

definition station_ok :: "rules \<Rightarrow> string \<Rightarrow> sim_station \<Rightarrow> bool" where
  "station_ok rs k st \<longleftrightarrow> st_station_id st = k \<and> 0 \<le> st_production st
     \<and> 0 \<le> st_health st \<and> st_health st \<le> max_health rs
     \<and> (st_health st = 0 \<longrightarrow> st_failed_once st)
     \<and> (st_failed_once st \<longleftrightarrow> st_first_failure_tick st \<noteq> None)
     \<and> 0 \<le> st_current_shortage_streak st \<and> st_current_shortage_streak st \<le> st_longest_shortage_streak st
     \<and> st_longest_shortage_streak st \<le> st_shortage_ticks st"

definition rules_ok :: "rules \<Rightarrow> bool" where
  "rules_ok rs \<longleftrightarrow> 0 < max_health rs \<and> 0 \<le> shortage_damage_per_unit rs
     \<and> 0 \<le> recovery_per_fully_supplied_tick rs \<and> 0 \<le> new_commands_per_station_per_tick rs
     \<and> 0 \<le> max_open_outgoing_offers rs"

definition roster_ok :: "economy \<Rightarrow> bool" where
  "roster_ok e \<longleftrightarrow> rules_ok (ec_rules e) \<and> dict_ok (ec_stations e)
     \<and> (\<forall>k st. dict_get (ec_stations e) k = Some st \<longrightarrow> station_ok (ec_rules e) k st)"

definition has_id :: "string \<Rightarrow> nat \<Rightarrow> string \<Rightarrow> bool" where
  "has_id prefix n i \<longleftrightarrow> (\<exists>k < n. i = new_id prefix k)"

definition alive :: "economy \<Rightarrow> string \<Rightarrow> bool" where
  "alive e sid \<longleftrightarrow> (\<exists>st. dict_get (ec_stations e) sid = Some st \<and> \<not> st_failed_once st)"

definition known :: "economy \<Rightarrow> string \<Rightarrow> bool" where
  "known e sid \<longleftrightarrow> dict_get (ec_stations e) sid \<noteq> None"

definition offer_ok :: "economy \<Rightarrow> offer \<Rightarrow> bool" where
  "offer_ok e o' \<longleftrightarrow> has_id ''offer'' (ec_ids e) (offer_id o')
     \<and> proposer_id o' \<noteq> recipient_id o' \<and> known e (proposer_id o') \<and> known e (recipient_id o')
     \<and> give o' \<noteq> 0
     \<and> (offer_status o' = OPEN \<longrightarrow> ec_tick e < expires_tick o' \<and> expires_tick o' \<le> duration_ticks (ec_rules e)
          \<and> closed_tick o' = None \<and> offer_transaction_id o' = None
          \<and> alive e (proposer_id o') \<and> alive e (recipient_id o'))"

definition offers_ok :: "economy \<Rightarrow> bool" where
  "offers_ok e \<longleftrightarrow> distinct (map offer_id (ec_offers e)) \<and> (\<forall>o' \<in> set (ec_offers e). offer_ok e o')"

definition limits_ok :: "economy \<Rightarrow> bool" where
  "limits_ok e \<longleftrightarrow> (\<forall>sid. open_count sid (ec_offers e) \<le> max_open_outgoing_offers (ec_rules e)
     \<and> 0 \<le> dict_get_or 0 (ec_counts e) sid
     \<and> dict_get_or 0 (ec_counts e) sid \<le> new_commands_per_station_per_tick (ec_rules e))"

definition ads_ok :: "economy \<Rightarrow> bool" where
  "ads_ok e \<longleftrightarrow> distinct (map ad_station_id (ec_ads e))
     \<and> (\<forall>a \<in> set (ec_ads e). has_id ''ad'' (ec_ids e) (advertisement_id a) \<and> alive e (ad_station_id a)
          \<and> ec_tick e < ad_expires_tick a \<and> ad_status a = PUB_ACTIVE)"

definition economy_ok :: "economy \<Rightarrow> bool" where
  "economy_ok e \<longleftrightarrow> roster_ok e \<and> offers_ok e \<and> limits_ok e \<and> ads_ok e"

lemma alive_known: "alive e sid \<Longrightarrow> known e sid"
  by (auto simp: alive_def known_def)

lemma new_id_inj: "new_id p m = new_id p n \<longleftrightarrow> m = n"
  by (simp add: new_id_def show_int_def digits_of_inj)

lemma has_id_Suc: "has_id p n i \<Longrightarrow> has_id p (Suc n) i"
  by (auto simp: has_id_def less_Suc_eq)

lemma has_id_new: "has_id p (Suc n) (new_id p n)"
  by (auto simp: has_id_def)

lemma new_id_fresh: "\<not> has_id p n (new_id p n)"
  by (auto simp: has_id_def new_id_inj)

text \<open>What an operation may change without touching these predicates.\<close>

lemma ec_frames [simp]:
  "roster_ok (e\<lparr>ec_offers := os\<rparr>) = roster_ok e" "roster_ok (e\<lparr>ec_ads := ads\<rparr>) = roster_ok e"
  "roster_ok (e\<lparr>ec_ids := n\<rparr>) = roster_ok e" "roster_ok (e\<lparr>ec_counts := c\<rparr>) = roster_ok e"
  "roster_ok (e\<lparr>ec_world_version := v\<rparr>) = roster_ok e" "roster_ok (e\<lparr>ec_transactions := ts\<rparr>) = roster_ok e"
  "roster_ok (e\<lparr>ec_rejections := rj\<rparr>) = roster_ok e" "roster_ok (e\<lparr>ec_tick := t\<rparr>) = roster_ok e"
  "alive (e\<lparr>ec_offers := os\<rparr>) = alive e" "alive (e\<lparr>ec_ads := ads\<rparr>) = alive e"
  "alive (e\<lparr>ec_ids := n\<rparr>) = alive e" "alive (e\<lparr>ec_counts := c\<rparr>) = alive e"
  "alive (e\<lparr>ec_world_version := v\<rparr>) = alive e" "alive (e\<lparr>ec_transactions := ts\<rparr>) = alive e"
  "alive (e\<lparr>ec_rejections := rj\<rparr>) = alive e" "alive (e\<lparr>ec_tick := t\<rparr>) = alive e"
  "known (e\<lparr>ec_offers := os\<rparr>) = known e" "known (e\<lparr>ec_ads := ads\<rparr>) = known e"
  "known (e\<lparr>ec_ids := n\<rparr>) = known e" "known (e\<lparr>ec_counts := c\<rparr>) = known e"
  "known (e\<lparr>ec_world_version := v\<rparr>) = known e" "known (e\<lparr>ec_transactions := ts\<rparr>) = known e"
  "known (e\<lparr>ec_rejections := rj\<rparr>) = known e" "known (e\<lparr>ec_tick := t\<rparr>) = known e"
  by (auto simp: roster_ok_def alive_def known_def fun_eq_iff)

lemma economy_ok_version [simp]:
  "economy_ok (e\<lparr>ec_world_version := v\<rparr>) = economy_ok e"
  "economy_ok (e\<lparr>ec_rejections := rj\<rparr>) = economy_ok e"
  "economy_ok (e\<lparr>ec_transactions := ts\<rparr>) = economy_ok e"
  by (simp_all add: economy_ok_def offers_ok_def offer_ok_def limits_ok_def ads_ok_def)

subsection \<open>Settling a tick\<close>

text \<open>The settled station, once the production bundle is known to exist.\<close>

definition settled_health :: "rules \<Rightarrow> Bundle \<Rightarrow> sim_station \<Rightarrow> int" where
  "settled_health rs unmet st =
     (if unmet = 0 then min (max_health rs) (st_health st + recovery_per_fully_supplied_tick rs)
      else max 0 (st_health st - int (total unmet) * shortage_damage_per_unit rs))"

lemma settle_tick_Inr:
  assumes "settle_tick rs t st = Inr st'"
  obtains p unmet where "single (st_specialty st) (st_production st) = Inr p"
    and "unmet = st_upkeep st - (st_inventory st + p)"
    and "st_station_id st' = st_station_id st" "st_production st' = st_production st"
        "st_specialty st' = st_specialty st" "st_upkeep st' = st_upkeep st"
    and "st_inventory st' = st_inventory st + p - st_upkeep st"
    and "st_consumed_total st' = st_consumed_total st + (st_upkeep st - unmet)"
    and "st_produced_total st' = st_produced_total st + p"
    and "st_exported st' = st_exported st" "st_imported st' = st_imported st"
    and "st_health st' = settled_health rs unmet st"
    and "st_current_shortage_streak st' = (if unmet = 0 then 0 else st_current_shortage_streak st + 1)"
    and "st_shortage_ticks st' = (if unmet = 0 then st_shortage_ticks st else st_shortage_ticks st + 1)"
    and "st_longest_shortage_streak st' = (if unmet = 0 then st_longest_shortage_streak st
           else max (st_longest_shortage_streak st) (st_current_shortage_streak st + 1))"
    and "st_failed_once st' \<longleftrightarrow> st_failed_once st \<or> (unmet \<noteq> 0 \<and> settled_health rs unmet st = 0)"
    and "st_first_failure_tick st' = (if st_failed_once st \<or> \<not> st_failed_once st'
           then st_first_failure_tick st else Some t)"
proof -
  obtain p c where p: "single (st_specialty st) (st_production st) = Inr p"
    and c: "bundle_sub (st_upkeep st) (saturating_sub (st_upkeep st) (bundle_add (st_inventory st) p)) = Inr c"
    using assms by (auto simp: settle_tick_def Let_def elim!: bindE_InrE)
  define unmet where "unmet = st_upkeep st - (st_inventory st + p)"
  have c': "bundle_sub (st_upkeep st) unmet = Inr (st_upkeep st - unmet)"
    by (rule bundle_sub_Inr) (simp add: unmet_def bundle_le_iff)
  show ?thesis
  proof (rule that [OF p unmet_def])
  qed (use assms in \<open>auto simp: settle_tick_def p c' Let_def settled_health_def bundle_folds
      simp flip: unmet_def split: if_splits\<close>)
qed

lemma settle_tick_total:
  assumes "0 \<le> st_production st"
  shows "\<exists>st'. settle_tick rs t st = Inr st'"
proof -
  obtain p where p: "single (st_specialty st) (st_production st) = Inr p"
    using single_nonneg [of "st_production st" "st_specialty st"] assms by auto
  have "saturating_sub (st_upkeep st) (bundle_add (st_inventory st) p) \<le> st_upkeep st"
    by (simp add: bundle_folds bundle_le_iff)
  from bundle_sub_Inr [OF this] p show ?thesis by (simp add: settle_tick_def Let_def)
qed

lemma settled_health_bounds:
  assumes "0 \<le> st_health st" "st_health st \<le> max_health rs" and "rules_ok rs"
  shows "0 \<le> settled_health rs unmet st" "settled_health rs unmet st \<le> max_health rs"
    and "unmet = 0 \<Longrightarrow> settled_health rs unmet st = 0 \<Longrightarrow> st_health st = 0"
proof -
  have "0 \<le> int (total unmet) * shortage_damage_per_unit rs" using assms(3) by (simp add: rules_ok_def)
  then have "st_health st - int (total unmet) * shortage_damage_per_unit rs \<le> max_health rs"
    using assms(2) by linarith
  with assms show "0 \<le> settled_health rs unmet st" "settled_health rs unmet st \<le> max_health rs"
    and "unmet = 0 \<Longrightarrow> settled_health rs unmet st = 0 \<Longrightarrow> st_health st = 0"
    by (auto simp: settled_health_def rules_ok_def)
qed

lemma settle_tick_ok:
  assumes ok: "station_ok rs k st" and rs: "rules_ok rs" and s: "settle_tick rs t st = Inr st'"
  shows "station_ok rs k st'"
proof (rule settle_tick_Inr [OF s])
  fix p unmet
  assume e: "st_station_id st' = st_station_id st" "st_production st' = st_production st"
    "st_health st' = settled_health rs unmet st"
    "st_current_shortage_streak st' = (if unmet = 0 then 0 else st_current_shortage_streak st + 1)"
    "st_shortage_ticks st' = (if unmet = 0 then st_shortage_ticks st else st_shortage_ticks st + 1)"
    "st_longest_shortage_streak st' = (if unmet = 0 then st_longest_shortage_streak st
       else max (st_longest_shortage_streak st) (st_current_shortage_streak st + 1))"
    and f: "st_failed_once st' \<longleftrightarrow> st_failed_once st \<or> (unmet \<noteq> 0 \<and> settled_health rs unmet st = 0)"
    "st_first_failure_tick st' = (if st_failed_once st \<or> \<not> st_failed_once st'
       then st_first_failure_tick st else Some t)"
  have "0 \<le> st_health st" "st_health st \<le> max_health rs" using ok by (auto simp: station_ok_def)
  note h = settled_health_bounds [OF this rs]
  show "station_ok rs k st'"
    using ok h [of unmet] e f by (cases "unmet = 0") (auto simp: station_ok_def)
qed

lemma settle_tick_failed:
  assumes "settle_tick rs t st = Inr st'" and "st_failed_once st"
  shows "st_failed_once st'" and "st_first_failure_tick st' = st_first_failure_tick st"
  using settle_tick_Inr [OF assms(1)] assms(2) by metis+

text \<open>The books of one station: what it has plus what it used and exported is what it started
  with plus what it made and imported.\<close>

definition balanced :: "Bundle \<Rightarrow> sim_station \<Rightarrow> bool" where
  "balanced base st \<longleftrightarrow> st_inventory st + st_consumed_total st + st_exported st
     = base + st_produced_total st + st_imported st"

lemma settle_tick_balanced:
  assumes s: "settle_tick rs t st = Inr st'" and "balanced base st"
  shows "balanced base st'"
proof (rule settle_tick_Inr [OF s])
  fix p unmet
  assume u: "unmet = st_upkeep st - (st_inventory st + p)"
    and e: "st_inventory st' = st_inventory st + p - st_upkeep st"
      "st_consumed_total st' = st_consumed_total st + (st_upkeep st - unmet)"
      "st_produced_total st' = st_produced_total st + p"
      "st_exported st' = st_exported st" "st_imported st' = st_imported st"
  show "balanced base st'"
    unfolding balanced_def
  proof (rule bundle_eqI)
    fix r
    have "get (st_inventory st) r + get (st_consumed_total st) r + get (st_exported st) r
        = get base r + get (st_produced_total st) r + get (st_imported st) r"
      using assms(2) by (simp add: balanced_def bundle_eq_iff)
    moreover have "get (st_inventory st + p - st_upkeep st) r + get (st_upkeep st - unmet) r
        = get (st_inventory st) r + get p r" by (simp add: u)
    ultimately show "get (st_inventory st' + st_consumed_total st' + st_exported st') r
        = get (base + st_produced_total st' + st_imported st') r" by (simp add: e)
  qed
qed

definition traded :: "Bundle \<Rightarrow> Bundle \<Rightarrow> sim_station \<Rightarrow> sim_station" where
  "traded paid got st = st\<lparr>st_inventory := st_inventory st - paid + got,
     st_exported := st_exported st + paid, st_imported := st_imported st + got\<rparr>"

lemma pay_and_get_Inr:
  "paid \<le> st_inventory st \<Longrightarrow> pay_and_get paid got st = Inr
     (traded paid got st)"
  by (simp add: pay_and_get_def traded_def bundle_sub_Inr bundle_folds)

lemma traded_balanced:
  assumes "paid \<le> st_inventory st" and "balanced base st"
  shows "balanced base (traded paid got st)"
proof (unfold balanced_def, rule bundle_eqI)
  fix r
  have "get paid r \<le> get (st_inventory st) r" using assms(1) by (simp add: bundle_le_iff)
  moreover have "get (st_inventory st) r + get (st_consumed_total st) r + get (st_exported st) r
      = get base r + get (st_produced_total st) r + get (st_imported st) r"
    using assms(2) by (simp add: balanced_def bundle_eq_iff)
  ultimately show "get (st_inventory (traded paid got st) + st_consumed_total (traded paid got st)
        + st_exported (traded paid got st)) r
    = get (base + st_produced_total (traded paid got st) + st_imported (traded paid got st)) r"
    by (simp add: traded_def)
qed

lemma traded_failed [simp]: "st_failed_once (traded paid got st) = st_failed_once st"
  by (simp add: traded_def)

lemma station_ok_traded [simp]: "station_ok rs k (traded paid got st) = station_ok rs k st"
  by (simp add: station_ok_def traded_def)

subsection \<open>Closing offers\<close>

lemma close_where_map:
  assumes "distinct (map offer_id (ec_offers e))"
  shows "close_where P status e = e\<lparr>ec_offers := map (\<lambda>o'. if offer_status o' = OPEN \<and> P o'
     then closed_as status (ec_tick e) None o' else o') (ec_offers e)\<rparr>"
proof -
  let ?c = "\<lambda>o'. if offer_status o' = OPEN \<and> P o' then closed_as status (ec_tick e) None o' else o'"
  have "fold (\<lambda>o' e. if offer_status o' = OPEN \<and> P o' then close_offer (offer_id o') status None e else e)
      os (e\<lparr>ec_offers := map ?c ds @ os\<rparr>) = e\<lparr>ec_offers := map ?c (ds @ os)\<rparr>"
    if "distinct (map offer_id (ds @ os))" for ds os
    using that
  proof (induction os arbitrary: ds)
    case (Cons o' os)
    have "offer_id o' \<notin> offer_id ` (set ds \<union> set os)" using Cons.prems by auto
    then have ne: "offer_id x \<noteq> offer_id o'" if "x \<in> set ds \<union> set os" for x
      using that by (metis image_eqI)
    have "map (\<lambda>x. if offer_id x \<noteq> offer_id o' then x else closed_as status (ec_tick e) None x) (map ?c ds @ o' # os)
        = map ?c ds @ closed_as status (ec_tick e) None o' # os"
      using ne by (auto simp: closed_as_def intro!: map_idI)
    then have "(if offer_status o' = OPEN \<and> P o'
        then close_offer (offer_id o') status None (e\<lparr>ec_offers := map ?c ds @ o' # os\<rparr>)
        else e\<lparr>ec_offers := map ?c ds @ o' # os\<rparr>) = e\<lparr>ec_offers := map ?c (ds @ [o']) @ os\<rparr>"
      by (simp add: close_offer_def cong: if_cong map_cong del: map_append) simp
    with Cons.IH [of "ds @ [o']"] Cons.prems show ?case by simp
  qed simp
  from this [of "[]" "ec_offers e"] assms show ?thesis by (simp add: close_where_def)
qed

lemma closed_as_fields [simp]:
  "offer_id (closed_as status t txn o') = offer_id o'" "proposer_id (closed_as status t txn o') = proposer_id o'"
  "recipient_id (closed_as status t txn o') = recipient_id o'" "give (closed_as status t txn o') = give o'"
  "receive (closed_as status t txn o') = receive o'" "expires_tick (closed_as status t txn o') = expires_tick o'"
  "offer_status (closed_as status t txn o') = status"
  by (simp_all add: closed_as_def)

lemma offer_ok_closed: "offer_ok e o' \<Longrightarrow> status \<noteq> OPEN \<Longrightarrow> offer_ok e (closed_as status t txn o')"
  by (simp add: offer_ok_def)

lemma open_count_map_le:
  assumes "\<And>o'. proposer_id (f o') = proposer_id o'" and "\<And>o'. offer_status (f o') = OPEN \<Longrightarrow> offer_status o' = OPEN"
  shows "open_count sid (map f os) \<le> open_count sid os"
proof -
  have "length (filter (\<lambda>o'. proposer_id o' = sid \<and> offer_status o' = OPEN) (map f os))
      = length (filter (\<lambda>o'. proposer_id o' = sid \<and> offer_status (f o') = OPEN) os)"
    by (simp add: filter_map o_def assms(1))
  also have "\<dots> \<le> length (filter (\<lambda>o'. proposer_id o' = sid \<and> offer_status o' = OPEN) os)"
    by (induction os) (auto dest: assms(2))
  finally show ?thesis by (simp add: open_count_def)
qed

lemma offers_ok_frame:
  assumes "offers_ok e" and "ec_offers e' = ec_offers e" "ec_ids e \<le> ec_ids e'" "ec_tick e' = ec_tick e"
    "ec_rules e' = ec_rules e" and "\<And>sid. known e sid \<Longrightarrow> known e' sid" "\<And>sid. alive e sid \<Longrightarrow> alive e' sid"
  shows "offers_ok e'"
  using assms by (auto simp: offers_ok_def offer_ok_def has_id_def) (meson order_less_le_trans)

lemma ads_ok_frame:
  assumes "ads_ok e" and "set (ec_ads e') \<subseteq> set (ec_ads e)" "distinct (map ad_station_id (ec_ads e'))"
    "ec_ids e \<le> ec_ids e'" "ec_tick e' = ec_tick e" and "\<And>sid. alive e sid \<Longrightarrow> alive e' sid"
  shows "ads_ok e'"
proof -
  have "has_id p (ec_ids e) i \<Longrightarrow> has_id p (ec_ids e') i" for p i
    using assms(4) by (auto simp: has_id_def intro: less_le_trans)
  with assms show ?thesis by (auto simp: ads_ok_def dest: subsetD)
qed

lemma offers_ok_map:
  assumes "offers_ok e" and "\<And>o'. f o' = o' \<or> (\<exists>st t txn. st \<noteq> OPEN \<and> f o' = closed_as st t txn o')"
  shows "offers_ok (e\<lparr>ec_offers := map f (ec_offers e)\<rparr>)"
proof -
  have ids: "offer_id (f o') = offer_id o'" for o' using assms(2) [of o'] by auto
  have "offer_ok e (f o')" if "offer_ok e o'" for o'
    using assms(2) [of o'] that offer_ok_closed by auto
  then show ?thesis
    using assms(1) by (auto simp: offers_ok_def offer_ok_def ids o_def)
qed

lemma limits_ok_map:
  assumes "limits_ok e" and "\<And>o'. f o' = o' \<or> (\<exists>st t txn. st \<noteq> OPEN \<and> f o' = closed_as st t txn o')"
  shows "limits_ok (e\<lparr>ec_offers := map f (ec_offers e)\<rparr>)"
proof -
  have "proposer_id (f o') = proposer_id o'" "offer_status (f o') = OPEN \<Longrightarrow> offer_status o' = OPEN" for o'
    using assms(2) [of o'] by auto
  from open_count_map_le [OF this] assms(1) show ?thesis
    by (auto simp: limits_ok_def intro: order_trans)
qed

subsection \<open>Commands\<close>

lemma station_at_known: "known e sid \<Longrightarrow> \<exists>st. station_at e sid = Inr st \<and> dict_get (ec_stations e) sid = Some st"
  by (auto simp: known_def station_at_def)

lemma precheck_total: "known e sid \<Longrightarrow> \<exists>r. precheck sid a e = Inr r"
  using station_at_known [of e sid] by (auto simp: precheck_def split: action.splits option.splits)

lemma precheck_None:
  assumes "precheck sid a e = Inr None"
  shows precheck_alive: "alive e sid"
    and precheck_quota: "dict_get_or 0 (ec_counts e) sid < new_commands_per_station_per_tick (ec_rules e)"
    and precheck_running: "ec_tick e < duration_ticks (ec_rules e)"
    and precheck_ad: "a = AdvertiseAction sell seek x \<Longrightarrow> ec_tick e < x \<and> x \<le> duration_ticks (ec_rules e)"
    and precheck_offer: "a = OfferAction rid g w x \<Longrightarrow> ec_tick e < x \<and> x \<le> duration_ticks (ec_rules e)
      \<and> rid \<noteq> sid \<and> g \<noteq> 0 \<and> alive e rid \<and> open_count sid (ec_offers e) < max_open_outgoing_offers (ec_rules e)"
  using assms
  by (auto simp: precheck_def station_at_def alive_def deadline_ok_def not_le
      elim!: bindE_InrE split: option.splits if_splits action.splits)

lemma count_command_fields [simp]:
  "ec_stations (count_command sid e) = ec_stations e" "ec_transactions (count_command sid e) = ec_transactions e"
  "ec_offers (count_command sid e) = ec_offers e" "ec_tick (count_command sid e) = ec_tick e"
  "ec_world_version (count_command sid e) = ec_world_version e" "ec_rules (count_command sid e) = ec_rules e"
  "ec_ads (count_command sid e) = ec_ads e" "ec_ids (count_command sid e) = ec_ids e"
  by (simp_all add: count_command_def)

lemma count_command_ok:
  assumes "economy_ok e" and "dict_get_or 0 (ec_counts e) sid < new_commands_per_station_per_tick (ec_rules e)"
  shows "economy_ok (count_command sid e)"
  using assms
  by (auto simp: economy_ok_def count_command_def offers_ok_def offer_ok_def limits_ok_def ads_ok_def dict_get_or_set)

text \<open>The server's command counts provide the \<open>quota\<close> interface of the client's throttle.\<close>

definition commands_left :: "string \<Rightarrow> economy \<Rightarrow> nat" where
  "commands_left sid e = nat (new_commands_per_station_per_tick (ec_rules e) - dict_get_or 0 (ec_counts e) sid)"

interpretation srv: quota "commands_left sid" "\<lambda>e. nat (new_commands_per_station_per_tick (ec_rules e))"
    "count_command sid" "\<lambda>e. 0 \<le> dict_get_or 0 (ec_counts e) sid" for sid
  by unfold_locales (auto simp: commands_left_def count_command_def dict_get_or_set)

lemma advertise_ok:
  assumes "economy_ok e" and "alive e sid" and "ec_tick e < x" and "advertise sid sell seek x e = (c, e')"
  shows "economy_ok e' \<and> co_ok c"
proof -
  let ?ad = "\<lparr>advertisement_id = new_id ''ad'' (ec_ids e), ad_station_id = sid, selling = sell, seeking = seek,
     ad_created_tick = ec_tick e, ad_expires_tick = x, ad_created_version = ec_world_version e, ad_status = PUB_ACTIVE\<rparr>"
  have e': "e' = e\<lparr>ec_ads := filter (\<lambda>a. ad_station_id a \<noteq> sid) (ec_ads e) @ [?ad], ec_ids := ec_ids e + 1\<rparr>"
    and c: "co_ok c" using assms(4) by (auto simp: advertise_def Let_def co_ok_def done_with_def)
  have "ads_ok e'"
    using assms(1-3) has_id_new [of "''ad''" "ec_ids e"]
    by (auto simp: economy_ok_def ads_ok_def e' distinct_map_filter has_id_Suc)
  moreover have "offers_ok e'" "limits_ok e'" "roster_ok e'"
    using assms(1) by (auto simp: economy_ok_def e' limits_ok_def intro: offers_ok_frame)
  ultimately show ?thesis using c by (simp add: economy_ok_def)
qed

lemma open_count_append: "open_count sid (os @ [o']) = open_count sid os
    + (if proposer_id o' = sid \<and> offer_status o' = OPEN then 1 else 0)"
  by (simp add: open_count_def)

lemma post_offer_ok:
  assumes ok: "economy_ok e" and "alive e sid" "alive e rid" "rid \<noteq> sid" "g \<noteq> 0"
    and "ec_tick e < x" "x \<le> duration_ticks (ec_rules e)"
    and lim: "open_count sid (ec_offers e) < max_open_outgoing_offers (ec_rules e)"
    and "post_offer sid rid g w x e = (c, e')"
  shows "economy_ok e' \<and> co_ok c"
proof -
  let ?o = "\<lparr>offer_id = new_id ''offer'' (ec_ids e), proposer_id = sid, recipient_id = rid, give = g, receive = w,
     created_tick = ec_tick e, created_version = ec_world_version e, expires_tick = x,
     offer_status = OPEN, closed_tick = None, offer_transaction_id = None\<rparr>"
  have e': "e' = e\<lparr>ec_offers := ec_offers e @ [?o], ec_ids := ec_ids e + 1\<rparr>"
    and c: "co_ok c" using assms(9) by (auto simp: post_offer_def Let_def co_ok_def done_with_def)
  have off: "offers_ok e" using ok by (simp add: economy_ok_def)
  have fresh: "new_id ''offer'' (ec_ids e) \<notin> offer_id ` set (ec_offers e)"
    using off new_id_fresh [of "''offer''" "ec_ids e"] by (auto simp: offers_ok_def offer_ok_def)
  have "offer_ok e' ?o"
    using assms(2-7) has_id_new [of "''offer''" "ec_ids e"] alive_known
    by (auto simp: offer_ok_def e')
  moreover have "offer_ok e' o'" if "o' \<in> set (ec_offers e)" for o'
    using off that by (auto simp: offers_ok_def offer_ok_def e' has_id_Suc)
  ultimately have "offers_ok e'" using off fresh by (auto simp: offers_ok_def e')
  moreover have "limits_ok e'"
    using ok lim by (auto simp: economy_ok_def limits_ok_def e' open_count_append)
  moreover have "roster_ok e'" using ok by (simp add: economy_ok_def e')
  moreover have "ads_ok e'" using ok by (auto simp: economy_ok_def e' ads_ok_def has_id_Suc)
  ultimately show ?thesis using c by (simp add: economy_ok_def)
qed

lemma close_offer_ok:
  assumes "economy_ok e" and "status \<noteq> OPEN"
  shows "economy_ok (close_offer oid status txn e)"
proof -
  let ?f = "\<lambda>o'. if offer_id o' \<noteq> oid then o' else closed_as status (ec_tick e) txn o'"
  have f: "?f o' = o' \<or> (\<exists>st t txn. st \<noteq> OPEN \<and> ?f o' = closed_as st t txn o')" for o'
    using assms(2) by auto
  have e': "close_offer oid status txn e = e\<lparr>ec_offers := map ?f (ec_offers e)\<rparr>"
    by (simp add: close_offer_def)
  show ?thesis
    unfolding e' economy_ok_def
    using assms(1) offers_ok_map [OF _ f] limits_ok_map [OF _ f]
    by (auto simp: economy_ok_def ads_ok_def)
qed

lemma withdraw_ok:
  assumes "economy_ok e" and "withdraw sid oid e = (c, e')"
  shows "economy_ok e'"
proof -
  have "economy_ok (e\<lparr>ec_ads := remove1 ad (ec_ads e)\<rparr>)" for ad
  proof -
    have "ads_ok (e\<lparr>ec_ads := remove1 ad (ec_ads e)\<rparr>)"
      by (rule ads_ok_frame [of e])
         (use assms(1) in \<open>auto simp: economy_ok_def ads_ok_def distinct_map notin_set_remove1 inj_on_def
            dest: set_remove1_subset [THEN subsetD]\<close>)
    then show ?thesis using assms(1) by (simp add: economy_ok_def offers_ok_def offer_ok_def limits_ok_def)
  qed
  then show ?thesis
    using assms close_offer_ok [OF assms(1)]
    by (auto simp: withdraw_def split: option.splits if_splits)
qed

lemma set_station_ok:
  assumes "economy_ok e" and "dict_get (ec_stations e) sid = Some st"
    and "station_ok (ec_rules e) sid st'" and "st_failed_once st' = st_failed_once st"
  shows "economy_ok (set_station st' sid e)"
proof -
  have k: "known (set_station st' sid e) = known e" "alive (set_station st' sid e) = alive e"
    using assms(2,4) by (auto simp: fun_eq_iff known_def alive_def set_station_def dict_get_set)
  have "roster_ok (set_station st' sid e)"
    using assms by (auto simp: economy_ok_def roster_ok_def set_station_def dict_get_set)
  moreover have "offers_ok (set_station st' sid e)"
    by (rule offers_ok_frame [of e]) (use assms(1) k in \<open>auto simp: economy_ok_def set_station_def\<close>)
  moreover have "ads_ok (set_station st' sid e)"
    by (rule ads_ok_frame [of e]) (use assms(1) k in \<open>auto simp: economy_ok_def set_station_def ads_ok_def\<close>)
  moreover have "limits_ok (set_station st' sid e)"
    using assms(1) by (simp add: economy_ok_def limits_ok_def set_station_def)
  ultimately show ?thesis by (simp add: economy_ok_def)
qed

text \<open>A settled trade: what \<open>_accept\<close> does to the world when it answers OK.\<close>

definition trade_record :: "string \<Rightarrow> offer \<Rightarrow> economy \<Rightarrow> transaction" where
  "trade_record txn o' e = \<lparr>transaction_id = txn, txn_offer_id = offer_id o',
     txn_proposer_id = proposer_id o', txn_recipient_id = recipient_id o', txn_give = give o',
     txn_receive = receive o', settled_tick = ec_tick e, settled_version = ec_world_version e\<rparr>"

definition settled_as ::
  "offer \<Rightarrow> sim_station \<Rightarrow> sim_station \<Rightarrow> string \<Rightarrow> economy \<Rightarrow> economy \<Rightarrow> bool" where
  "settled_as o' p r txn e e' \<longleftrightarrow>
     dict_get (ec_stations e) (proposer_id o') = Some p \<and> dict_get (ec_stations e) (recipient_id o') = Some r
     \<and> give o' \<le> st_inventory p \<and> receive o' \<le> st_inventory r
     \<and> ec_stations e' = dict_set (recipient_id o') (traded (receive o') (give o') r)
         (dict_set (proposer_id o') (traded (give o') (receive o') p) (ec_stations e))
     \<and> ec_offers e' = map (\<lambda>x. if offer_id x \<noteq> offer_id o' then x
         else closed_as ACCEPTED (ec_tick e) (Some txn) x) (ec_offers e)
     \<and> ec_transactions e' = ec_transactions e @ [trade_record txn o' e]"

definition settled_by :: "offer \<Rightarrow> economy \<Rightarrow> economy \<Rightarrow> bool" where
  "settled_by o' e e' \<longleftrightarrow> (\<exists>p r txn. settled_as o' p r txn e e')"

lemma ids_Suc_ok: "economy_ok e \<Longrightarrow> economy_ok (e\<lparr>ec_ids := ec_ids e + 1\<rparr>)"
  by (auto simp: economy_ok_def offers_ok_def offer_ok_def limits_ok_def ads_ok_def has_id_Suc)

lemma accept_offer_spec:
  assumes ok: "economy_ok e"
  shows "\<exists>c e'. accept_offer sid oid e = Inr (c, e') \<and> economy_ok e' \<and> co_code c \<noteq> RES_EXPIRED
    \<and> (if co_ok c then \<exists>o' \<in> set (ec_offers e). offer_id o' = oid \<and> recipient_id o' = sid
           \<and> offer_status o' = OPEN \<and> settled_by o' e e'
       else e' = e)"
proof (cases "find_offer_by_id oid e")
  case None
  with ok show ?thesis by (simp add: accept_offer_def refused_def co_ok_def)
next
  case (Some o')
  then have o': "o' \<in> set (ec_offers e)" "offer_id o' = oid"
    by (auto simp: find_offer_by_id_def find_Some_iff)
  with ok have oo: "offer_ok e o'" by (auto simp: economy_ok_def offers_ok_def)
  show ?thesis
  proof (cases "recipient_id o' = sid \<and> offer_status o' = OPEN")
    case False
    with ok Some show ?thesis by (auto simp: accept_offer_def refused_def co_ok_def)
  next
    case True
    with oo have op: "\<not> is_expired_at o' (ec_tick e)" "proposer_id o' \<noteq> sid"
      by (auto simp: offer_ok_def is_expired_at_def)
    obtain p where p: "station_at e (proposer_id o') = Inr p" "dict_get (ec_stations e) (proposer_id o') = Some p"
      using station_at_known [of e "proposer_id o'"] oo by (auto simp: offer_ok_def)
    obtain r where r: "station_at e sid = Inr r" "dict_get (ec_stations e) sid = Some r"
      using station_at_known [of e sid] oo True by (auto simp: offer_ok_def)
    have live: "\<not> st_failed_once p" "\<not> st_failed_once r"
      using oo True p(2) r(2) by (auto simp: offer_ok_def alive_def)
    show ?thesis
    proof (cases "give o' \<le> st_inventory p \<and> receive o' \<le> st_inventory r")
      case False
      with ok Some True op p r live show ?thesis
        by (auto simp: accept_offer_def refused_def co_ok_def bundle_folds)
    next
      case pay: True
      let ?e1 = "set_station (traded (give o') (receive o') p) (proposer_id o') e"
      let ?e2 = "set_station (traded (receive o') (give o') r) sid ?e1"
      have r1: "station_at ?e1 sid = Inr r" "dict_get (ec_stations ?e1) sid = Some r"
        using r op(2) by (simp_all add: set_station_def station_at_def dict_get_set)
      have st: "station_ok (ec_rules e) (proposer_id o') p" "station_ok (ec_rules e) sid r"
        using ok p(2) r(2) by (auto simp: economy_ok_def roster_ok_def)
      have ok1: "economy_ok ?e1"
        by (rule set_station_ok [OF ok p(2)]) (use st in simp_all)
      have ok2: "economy_ok ?e2"
        by (rule set_station_ok [OF ok1 r1(2)])
           (use st in \<open>simp_all add: set_station_def\<close>)
      let ?txn = "new_id ''txn'' (ec_ids e)"
      have ok3: "economy_ok (close_offer oid ACCEPTED (Some ?txn) (?e2\<lparr>ec_ids := ec_ids ?e2 + 1\<rparr>))"
        by (rule close_offer_ok [OF ids_Suc_ok [OF ok2]]) simp
      then have ok4: "economy_ok (close_offer oid ACCEPTED (Some ?txn) (?e2\<lparr>ec_ids := ec_ids ?e2 + 1\<rparr>)\<lparr>ec_transactions := ts\<rparr>)" for ts
        by simp
      have eq: "accept_offer sid oid e = (let e3 = close_offer oid ACCEPTED (Some ?txn) (?e2\<lparr>ec_ids := ec_ids ?e2 + 1\<rparr>)
          in Inr (done_with oid (Some ?txn), e3\<lparr>ec_transactions := ec_transactions e3 @
               [\<lparr>transaction_id = ?txn, txn_offer_id = offer_id o', txn_proposer_id = proposer_id o',
                 txn_recipient_id = recipient_id o', txn_give = give o', txn_receive = receive o',
                 settled_tick = ec_tick e3, settled_version = ec_world_version e3\<rparr>]\<rparr>))"
        using Some True op p r live pay r1(1)
        by (simp add: accept_offer_def Let_def bundle_folds pay_and_get_Inr set_station_def)
      have "settled_by o' e (close_offer oid ACCEPTED (Some ?txn) (?e2\<lparr>ec_ids := ec_ids ?e2 + 1\<rparr>)\<lparr>ec_transactions := ec_transactions e @
               [\<lparr>transaction_id = ?txn, txn_offer_id = offer_id o', txn_proposer_id = proposer_id o',
                 txn_recipient_id = recipient_id o', txn_give = give o', txn_receive = receive o',
                 settled_tick = ec_tick e, settled_version = ec_world_version e\<rparr>]\<rparr>)"
        using p r pay True o'(2) by (auto simp: settled_by_def settled_as_def trade_record_def close_offer_def set_station_def)
      then show ?thesis using eq ok4 o' True
        by (auto simp: Let_def co_ok_def done_with_def close_offer_def set_station_def)
    qed
  qed
qed

lemma execute_spec:
  assumes ok: "economy_ok e" and sid: "known e sid"
  shows "\<exists>c e'. execute sid a e = Inr (c, e') \<and> economy_ok e' \<and> co_code c \<noteq> RES_EXPIRED"
proof -
  obtain r where r: "precheck sid a e = Inr r" using precheck_total [OF sid] by blast
  show ?thesis
  proof (cases r)
    case (Some c)
    moreover have "c \<noteq> RES_EXPIRED"
      using r Some by (auto simp: precheck_def elim!: bindE_InrE split: if_splits action.splits option.splits)
    ultimately show ?thesis using r ok by (auto simp: execute_def refused_def)
  next
    case None
    note pre = r [unfolded None]
    have ok1: "economy_ok (count_command sid e)" by (rule count_command_ok [OF ok precheck_quota [OF pre]])
    have c1: "alive (count_command sid e) = alive e" "ec_tick (count_command sid e) = ec_tick e"
      "ec_rules (count_command sid e) = ec_rules e" "ec_offers (count_command sid e) = ec_offers e"
      by (simp_all add: count_command_def)
    note ex = execute_def [of sid a e, unfolded r None bindE_simps option.case Let_def]
    show ?thesis
    proof (cases a)
      case (AdvertiseAction sell seek x)
      obtain c e' where ce: "advertise sid sell seek x (count_command sid e) = (c, e')" by fastforce
      have "economy_ok e' \<and> co_ok c"
        by (rule advertise_ok [OF ok1 _ _ ce])
           (use precheck_alive [OF pre] precheck_ad [OF pre AdvertiseAction] in \<open>simp_all add: c1\<close>)
      with ce show ?thesis unfolding ex by (simp add: AdvertiseAction co_ok_def)
    next
      case (OfferAction rid g w x)
      obtain c e' where ce: "post_offer sid rid g w x (count_command sid e) = (c, e')" by fastforce
      have "economy_ok e' \<and> co_ok c"
        by (rule post_offer_ok [OF ok1 _ _ _ _ _ _ _ ce])
           (use precheck_alive [OF pre] precheck_offer [OF pre OfferAction] in \<open>simp_all add: c1\<close>)
      with ce show ?thesis unfolding ex by (simp add: OfferAction co_ok_def)
    next
      case (AcceptAction oid)
      with accept_offer_spec [OF ok1, of sid oid] show ?thesis
        unfolding ex by (auto simp: AcceptAction)
    next
      case (WithdrawAction oid)
      obtain c e' where ce: "withdraw sid oid (count_command sid e) = (c, e')" by fastforce
      moreover have "co_code c \<noteq> RES_EXPIRED"
        using ce by (auto simp: withdraw_def refused_def done_with_def split: option.splits if_splits)
      ultimately show ?thesis using withdraw_ok [OF ok1 ce]
        unfolding ex by (simp add: WithdrawAction)
    next
      case SyncAction
      with ok1 show ?thesis unfolding ex by (simp add: SyncAction refused_def)
    qed
  qed
qed

subsection \<open>Ticks and the end of the run\<close>

lemma mapE_dict:
  assumes "mapE (\<lambda>(k, x). bindE (f x) (\<lambda>y. Inr (k, y))) d = Inr d'"
  shows "dict_keys d' = dict_keys d"
    and "dict_get d k = Some x \<Longrightarrow> \<exists>y. f x = Inr y \<and> dict_get d' k = Some y"
    and "dict_get d k = None \<Longrightarrow> dict_get d' k = None"
proof -
  have "dict_keys d' = dict_keys d
      \<and> (\<forall>x. dict_get d k = Some x \<longrightarrow> (\<exists>y. f x = Inr y \<and> dict_get d' k = Some y))
      \<and> (dict_get d k = None \<longrightarrow> dict_get d' k = None)"
    using assms
  proof (induction d arbitrary: d')
    case (Cons p d)
    obtain k0 x0 where p: "p = (k0, x0)" by (cases p)
    from Cons.prems p obtain y ds where "f x0 = Inr y"
      "mapE (\<lambda>(k, x). bindE (f x) (\<lambda>y. Inr (k, y))) d = Inr ds" "d' = (k0, y) # ds"
      by (auto elim!: bindE_InrE)
    with Cons.IH [of ds] p show ?case by auto
  qed simp
  then show "dict_keys d' = dict_keys d"
    and "dict_get d k = Some x \<Longrightarrow> \<exists>y. f x = Inr y \<and> dict_get d' k = Some y"
    and "dict_get d k = None \<Longrightarrow> dict_get d' k = None" by auto
qed

lemma settle_all_total:
  assumes "roster_ok e"
  shows "\<exists>d. settle_all e = Inr (e\<lparr>ec_stations := d\<rparr>)
    \<and> mapE (\<lambda>(k, st). bindE (settle_tick (ec_rules e) (ec_tick e) st) (\<lambda>st. Inr (k, st))) (ec_stations e) = Inr d"
proof -
  let ?f = "\<lambda>(k, st). bindE (settle_tick (ec_rules e) (ec_tick e) st) (\<lambda>st. Inr (k, st))"
  have "\<exists>y. ?f p = Inr y"
    if "p \<in> set (ec_stations e)" for p
  proof -
    obtain k st where p: "p = (k, st)" by (cases p)
    with that assms have "station_ok (ec_rules e) k st" by (auto simp: roster_ok_def dict_mem_get)
    then obtain st' where "settle_tick (ec_rules e) (ec_tick e) st = Inr st'"
      using settle_tick_total [of st "ec_rules e" "ec_tick e"] by (auto simp: station_ok_def)
    then show ?thesis by (simp add: p)
  qed
  from mapE_total [where xs = "ec_stations e" and f = ?f, OF this] show ?thesis by (auto simp: settle_all_def)
qed

lemma failed_stations_iff:
  assumes "roster_ok e"
  shows "sid \<in> failed_stations e \<longleftrightarrow> (\<exists>st. dict_get (ec_stations e) sid = Some st \<and> st_failed_once st)"
proof -
  have "(k, st) \<in> set (ec_stations e) \<longleftrightarrow> dict_get (ec_stations e) k = Some st" for k st
    using assms by (simp add: roster_ok_def dict_mem_get)
  moreover have "dict_get (ec_stations e) k = Some st \<Longrightarrow> st_station_id st = k" for k st
    using assms by (auto simp: roster_ok_def station_ok_def)
  ultimately show ?thesis by (force simp: failed_stations_def)
qed

lemma alive_iff: "roster_ok e \<Longrightarrow> alive e sid \<longleftrightarrow> known e sid \<and> sid \<notin> failed_stations e"
  by (auto simp: failed_stations_iff alive_def known_def)

text \<open>One tick as a single update: the stations settle, the offers that expired or whose party
  failed are closed, the advertisements that expired or whose owner failed are dropped.\<close>

definition tick_offer :: "economy \<Rightarrow> int \<Rightarrow> string set \<Rightarrow> offer \<Rightarrow> offer" where
  "tick_offer e t failed o' =
     (if offer_status o' = OPEN \<and> expires_tick o' \<le> t then closed_as EXPIRED t None o'
      else if offer_status o' = OPEN \<and> failed \<inter> {proposer_id o', recipient_id o'} \<noteq> {}
      then closed_as WITHDRAWN t None o' else o')"

lemma advance_tick_eq:
  assumes "economy_ok e"
  shows "\<exists>d e'. advance_tick e = Inr e'
    \<and> mapE (\<lambda>(k, st). bindE (settle_tick (ec_rules e) (ec_tick e + 1) st) (\<lambda>st. Inr (k, st))) (ec_stations e) = Inr d
    \<and> e' = e\<lparr>ec_tick := ec_tick e + 1, ec_counts := [], ec_world_version := ec_world_version e + 1,
        ec_stations := d,
        ec_ads := filter (\<lambda>a. ad_station_id a \<notin> failed_stations (e\<lparr>ec_stations := d\<rparr>))
                    (filter (\<lambda>a. ad_expires_tick a > ec_tick e + 1) (ec_ads e)),
        ec_offers := map (tick_offer e (ec_tick e + 1) (failed_stations (e\<lparr>ec_stations := d\<rparr>))) (ec_offers e)\<rparr>"
proof -
  let ?t = "ec_tick e + 1"
  let ?e1 = "e\<lparr>ec_tick := ?t, ec_counts := [], ec_world_version := ec_world_version e + 1\<rparr>"
  let ?c1 = "\<lambda>o'. if offer_status o' = OPEN \<and> expires_tick o' \<le> ?t then closed_as EXPIRED ?t None o' else o'"
  let ?e2 = "?e1\<lparr>ec_offers := map ?c1 (ec_offers e), ec_ads := filter (\<lambda>a. ad_expires_tick a > ?t) (ec_ads e)\<rparr>"
  have dist: "distinct (map offer_id (ec_offers e))" using assms by (simp add: economy_ok_def offers_ok_def)
  have w1: "close_where (\<lambda>o'. expires_tick o' \<le> ?t) EXPIRED ?e1 = ?e1\<lparr>ec_offers := map ?c1 (ec_offers e)\<rparr>"
    using close_where_map [of ?e1] dist by simp
  have "roster_ok ?e2" using assms by (simp add: economy_ok_def)
  from settle_all_total [OF this] obtain d where d: "settle_all ?e2 = Inr (?e2\<lparr>ec_stations := d\<rparr>)"
    and m: "mapE (\<lambda>(k, st). bindE (settle_tick (ec_rules e) ?t st) (\<lambda>st. Inr (k, st))) (ec_stations e) = Inr d"
    by auto
  let ?failed = "failed_stations (e\<lparr>ec_stations := d\<rparr>)"
  have failed: "failed_stations (?e2\<lparr>ec_stations := d\<rparr>) = ?failed" by (simp add: failed_stations_def)
  let ?e3 = "?e2\<lparr>ec_stations := d, ec_ads := filter (\<lambda>a. ad_station_id a \<notin> ?failed) (filter (\<lambda>a. ad_expires_tick a > ?t) (ec_ads e))\<rparr>"
  have "offer_id \<circ> ?c1 = offer_id" by (rule ext) simp
  then have "map offer_id (map ?c1 (ec_offers e)) = map offer_id (ec_offers e)" by (simp only: map_map)
  then have dist3: "distinct (map offer_id (ec_offers ?e3))" using dist by (simp del: map_map map_eq_conv)
  have "(\<lambda>o'. if offer_status o' = OPEN \<and> ?failed \<inter> {proposer_id o', recipient_id o'} \<noteq> {}
      then closed_as WITHDRAWN ?t None o' else o') \<circ> ?c1 = tick_offer e ?t ?failed"
    by (rule ext) (auto simp: tick_offer_def)
  then have w3: "close_where (\<lambda>o'. ?failed \<inter> {proposer_id o', recipient_id o'} \<noteq> {}) WITHDRAWN ?e3
      = ?e3\<lparr>ec_offers := map (tick_offer e ?t ?failed) (ec_offers e)\<rparr>"
    unfolding close_where_map [OF dist3] by (simp del: map_eq_conv cong: if_cong)
  have "advance_tick e = Inr (?e3\<lparr>ec_offers := map (tick_offer e ?t ?failed) (ec_offers e)\<rparr>)"
    unfolding advance_tick_def Let_def w3 [symmetric] using w1 d failed by simp
  with m show ?thesis by auto
qed

lemma advance_tick_ok:
  assumes ok: "economy_ok e"
  shows "\<exists>e'. advance_tick e = Inr e' \<and> economy_ok e'"
proof -
  let ?t = "ec_tick e + 1"
  obtain d e' where adv: "advance_tick e = Inr e'"
    and m: "mapE (\<lambda>(k, st). bindE (settle_tick (ec_rules e) ?t st) (\<lambda>st. Inr (k, st))) (ec_stations e) = Inr d"
    and e': "e' = e\<lparr>ec_tick := ?t, ec_counts := [], ec_world_version := ec_world_version e + 1,
        ec_stations := d,
        ec_ads := filter (\<lambda>a. ad_station_id a \<notin> failed_stations (e\<lparr>ec_stations := d\<rparr>))
                    (filter (\<lambda>a. ad_expires_tick a > ?t) (ec_ads e)),
        ec_offers := map (tick_offer e ?t (failed_stations (e\<lparr>ec_stations := d\<rparr>))) (ec_offers e)\<rparr>"
    using advance_tick_eq [OF ok] by blast
  let ?F = "failed_stations (e\<lparr>ec_stations := d\<rparr>)"
  have ros: "roster_ok e" using ok by (simp add: economy_ok_def)
  have fields: "ec_tick e' = ?t" "ec_ids e' = ec_ids e" "ec_rules e' = ec_rules e" "ec_counts e' = []"
    "ec_stations e' = d" "ec_offers e' = map (tick_offer e ?t ?F) (ec_offers e)"
    "ec_ads e' = filter (\<lambda>a. ad_station_id a \<notin> ?F) (filter (\<lambda>a. ad_expires_tick a > ?t) (ec_ads e))"
    by (simp_all add: e')
  have get: "dict_get d k = Some st' \<Longrightarrow> \<exists>st. dict_get (ec_stations e) k = Some st \<and> settle_tick (ec_rules e) ?t st = Inr st'" for k st'
    using mapE_dict(2,3) [OF m, of k] by (cases "dict_get (ec_stations e) k") auto
  have ros': "roster_ok e'"
    unfolding roster_ok_def
  proof (intro conjI allI impI)
    show "rules_ok (ec_rules e')" using ros by (simp add: roster_ok_def fields)
    show "dict_ok (ec_stations e')" using ros mapE_dict(1) [OF m] by (simp add: roster_ok_def fields dict_ok_def)
    fix k st' assume "dict_get (ec_stations e') k = Some st'"
    then obtain st where "dict_get (ec_stations e) k = Some st" "settle_tick (ec_rules e) ?t st = Inr st'"
      using get by (auto simp: fields)
    with ros show "station_ok (ec_rules e') k st'"
      by (auto simp: roster_ok_def fields intro: settle_tick_ok)
  qed
  have known: "known e' sid = known e sid" for sid
    using mapE_dict(2,3) [OF m, of sid] by (cases "dict_get (ec_stations e) sid") (auto simp: known_def fields)
  have F: "failed_stations e' = ?F" by (simp add: failed_stations_def fields)
  have alive: "alive e' sid \<longleftrightarrow> known e sid \<and> sid \<notin> ?F" for sid
    using alive_iff [OF ros'] known F by simp
  have "offer_ok e' (tick_offer e ?t ?F o')" if "offer_ok e o'" for o'
  proof -
    have "tick_offer e ?t ?F o' = o' \<and> (offer_status o' = OPEN \<longrightarrow> ?t < expires_tick o'
          \<and> proposer_id o' \<notin> ?F \<and> recipient_id o' \<notin> ?F)
        \<or> (\<exists>st. st \<noteq> OPEN \<and> tick_offer e ?t ?F o' = closed_as st ?t None o')"
      by (auto simp: tick_offer_def)
    with that show ?thesis by (auto simp: offer_ok_def known alive fields)
  qed
  moreover have "offer_id \<circ> tick_offer e ?t ?F = offer_id" by (rule ext) (simp add: tick_offer_def)
  ultimately have "offers_ok e'" using ok by (auto simp: economy_ok_def offers_ok_def fields)
  moreover have "limits_ok e'"
  proof -
    have "proposer_id (tick_offer e ?t ?F o') = proposer_id o'"
      "offer_status (tick_offer e ?t ?F o') = OPEN \<Longrightarrow> offer_status o' = OPEN" for o'
      by (auto simp: tick_offer_def split: if_splits)
    note map_le = open_count_map_le [OF this]
    have "open_count sid (ec_offers e) \<le> max_open_outgoing_offers (ec_rules e)" for sid
      using ok by (simp add: economy_ok_def limits_ok_def)
    note le = order_trans [OF map_le this]
    have "0 \<le> new_commands_per_station_per_tick (ec_rules e)"
      using ros by (simp add: roster_ok_def rules_ok_def)
    with le show ?thesis by (simp add: limits_ok_def fields dict_get_or_def)
  qed
  moreover have "ads_ok e'"
    using ok alive known by (auto simp: economy_ok_def ads_ok_def fields distinct_map_filter dest: alive_known)
  ultimately show ?thesis using adv ros' by (simp add: economy_ok_def)
qed

lemma economy_ok_no_ads: "economy_ok e \<Longrightarrow> economy_ok (e\<lparr>ec_ads := []\<rparr>)"
  by (simp add: economy_ok_def offers_ok_def offer_ok_def limits_ok_def ads_ok_def)

lemma end_run_eq:
  assumes "economy_ok e"
  shows "end_run e = e\<lparr>ec_offers := map (\<lambda>o'. if offer_status o' = OPEN then closed_as RUN_ENDED (ec_tick e) None o' else o')
      (ec_offers e), ec_ads := [], ec_world_version := ec_world_version e + 1\<rparr>"
  using close_where_map [of e "\<lambda>_. True" RUN_ENDED] assms
  by (simp add: end_run_def Let_def economy_ok_def offers_ok_def)

lemma end_run_ok:
  assumes ok: "economy_ok e"
  shows "economy_ok (end_run e)" and "\<forall>o' \<in> set (ec_offers (end_run e)). offer_status o' \<noteq> OPEN"
    and "ec_ads (end_run e) = []"
proof -
  let ?f = "\<lambda>o'. if offer_status o' = OPEN then closed_as RUN_ENDED (ec_tick e) None o' else o'"
  have f: "?f o' = o' \<or> (\<exists>st t txn. st \<noteq> OPEN \<and> ?f o' = closed_as st t txn o')" for o'
    by auto
  have "offers_ok (e\<lparr>ec_offers := map ?f (ec_offers e)\<rparr>)" "limits_ok (e\<lparr>ec_offers := map ?f (ec_offers e)\<rparr>)"
    using ok by (auto simp: economy_ok_def intro!: offers_ok_map [OF _ f] limits_ok_map [OF _ f] simp del: if_split)
  then have "economy_ok (e\<lparr>ec_offers := map ?f (ec_offers e)\<rparr>)"
    using ok by (simp add: economy_ok_def ads_ok_def del: map_eq_conv)
  then have "economy_ok (e\<lparr>ec_offers := map ?f (ec_offers e)\<rparr>\<lparr>ec_ads := []\<rparr>)" by (rule economy_ok_no_ads)
  then have "economy_ok (e\<lparr>ec_offers := map ?f (ec_offers e), ec_ads := []\<rparr>)" by simp
  then have "economy_ok (e\<lparr>ec_offers := map ?f (ec_offers e), ec_ads := []\<rparr>\<lparr>ec_world_version := ec_world_version e + 1\<rparr>)"
    by simp
  then show "economy_ok (end_run e)" unfolding end_run_eq [OF ok] by simp
  show "\<forall>o' \<in> set (ec_offers (end_run e)). offer_status o' \<noteq> OPEN" "ec_ads (end_run e) = []"
    unfolding end_run_eq [OF ok] by auto
qed

subsection \<open>Reachable worlds\<close>

lemma fold_set_dict: "dict_ok d \<Longrightarrow> dict_ok (fold (\<lambda>st d. dict_set (kf st) st d) sts d)"
  by (rule pyd.ok_fold_put)

lemma economy_init_station:
  assumes "dict_get (ec_stations (economy_init sts rs rid)) k = Some st"
  shows "st \<in> set sts \<and> st_station_id st = k"
proof -
  have "find (\<lambda>x. st_station_id x = k) (rev sts) = Some st"
    using assms pyd.get_fold_put [of st_station_id "\<lambda>x. x" sts "[]" k]
    by (simp add: economy_init_def split: option.splits)
  then obtain i where "i < length (rev sts)" "st = rev sts ! i" "st_station_id st = k"
    unfolding find_Some_iff by auto
  with nth_mem [of i "rev sts"] show ?thesis by simp
qed

lemma economy_init_ok:
  assumes "rules_ok rs" and "\<And>st. st \<in> set sts \<Longrightarrow> station_ok rs (st_station_id st) st"
  shows "economy_ok (economy_init sts rs rid)"
proof -
  have "roster_ok (economy_init sts rs rid)"
    unfolding roster_ok_def
  proof (intro conjI allI impI)
    show "rules_ok (ec_rules (economy_init sts rs rid))" using assms(1) by (simp add: economy_init_def)
    show "dict_ok (ec_stations (economy_init sts rs rid))"
      using fold_set_dict [of "[]" st_station_id sts] by (simp add: economy_init_def)
    fix k st assume "dict_get (ec_stations (economy_init sts rs rid)) k = Some st"
    from economy_init_station [OF this] assms(2) [of st] show "station_ok (ec_rules (economy_init sts rs rid)) k st"
      by (auto simp: economy_init_def)
  qed
  then show ?thesis
    using assms(1) by (simp add: economy_ok_def offers_ok_def limits_ok_def ads_ok_def economy_init_def
        open_count_def dict_get_or_def rules_ok_def)
qed

inductive econ_step :: "economy \<Rightarrow> economy \<Rightarrow> bool" where
  econ_execute: "known e sid \<Longrightarrow> execute sid a e = Inr (c, e') \<Longrightarrow> econ_step e e'"
| econ_apply: "known e sid \<Longrightarrow> apply_batch sid acts e = Inr e' \<Longrightarrow> econ_step e e'"
| econ_tick: "advance_tick e = Inr e' \<Longrightarrow> econ_step e e'"
| econ_end: "econ_step e (end_run e)"
| econ_observe: "observation_for sid sq ph rr out e = Inr (s, e') \<Longrightarrow> econ_step e e'"

inductive econ_reach :: "economy \<Rightarrow> economy \<Rightarrow> bool" where
  reach_refl: "econ_reach e e"
| reach_step: "econ_reach e e' \<Longrightarrow> econ_step e' e'' \<Longrightarrow> econ_reach e e''"

lemma set_station_known: "known e sid \<Longrightarrow> known (set_station st k e) sid"
  by (simp add: known_def set_station_def dict_get_set)

lemma execute_known:
  assumes "execute sid a e = Inr (c, e')" and "known e k"
  shows "known e' k"
proof -
  have kc: "known (count_command sid e) = known e" by (simp add: count_command_def)
  from assms(1) obtain r where r: "precheck sid a e = Inr r" by (auto simp: execute_def elim!: bindE_InrE)
  show ?thesis
  proof (cases r)
    case (Some c')
    with assms r show ?thesis by (simp add: execute_def)
  next
    case None
    have "known e2 k" if "accept_offer sid oid e1 = Inr (c2, e2)" "known e1 k" for oid e1 e2 c2
      using that by (auto simp: accept_offer_def Let_def close_offer_def known_def set_station_def dict_get_set
          elim!: bindE_InrE split: option.splits if_splits)
    then show ?thesis
      using assms r None kc
      by (auto simp: execute_def Let_def advertise_def post_offer_def withdraw_def close_offer_def
          split: action.splits option.splits if_splits)
  qed
qed

lemma apply_batch_ok:
  assumes "economy_ok e" and "known e sid"
  shows "\<exists>e'. apply_batch sid acts e = Inr e' \<and> economy_ok e'"
proof -
  let ?f = "\<lambda>a e. bindE (execute sid a e) (\<lambda>(c, e).
        Inr (if \<not> co_ok c then e\<lparr>ec_rejections := ec_rejections e @ [(sid, co_code c)]\<rparr> else e))"
  have "\<exists>e'. foldE ?f acts e = Inr e' \<and> economy_ok e'" using assms
  proof (induction acts arbitrary: e)
    case (Cons a acts)
    obtain c e1 where x: "execute sid a e = Inr (c, e1)" and ok1: "economy_ok e1"
      using execute_spec [OF Cons.prems] by blast
    have k1: "known e1 sid" by (rule execute_known [OF x Cons.prems(2)])
    show ?case using Cons.IH [OF ok1 k1] Cons.IH [of "e1\<lparr>ec_rejections := ec_rejections e1 @ [(sid, co_code c)]\<rparr>"] ok1 k1
      by (simp add: x)
  qed simp
  then show ?thesis by (auto simp: apply_batch_def)
qed

text \<open>What every command of a station keeps, a batch of its commands keeps.\<close>

lemma apply_batch_keeps:
  assumes "economy_ok e" "known e sid" "P e" and b: "apply_batch sid acts e = Inr e'"
    and exec: "\<And>a e c e'. economy_ok e \<Longrightarrow> known e sid \<Longrightarrow> P e \<Longrightarrow> execute sid a e = Inr (c, e') \<Longrightarrow> P e'"
    and frame: "\<And>e rj. P e \<Longrightarrow> P (e\<lparr>ec_rejections := rj\<rparr>)" "\<And>e v. P e \<Longrightarrow> P (e\<lparr>ec_world_version := v\<rparr>)"
  shows "P e'"
proof -
  let ?f = "\<lambda>a e. bindE (execute sid a e) (\<lambda>(c, e).
        Inr (if \<not> co_ok c then e\<lparr>ec_rejections := ec_rejections e @ [(sid, co_code c)]\<rparr> else e))"
  have "P e2" if "foldE ?f acts e1 = Inr e2" "economy_ok e1" "known e1 sid" "P e1" for e1 e2
    using that
  proof (induction acts arbitrary: e1)
    case (Cons a acts)
    obtain c e3 where x: "execute sid a e1 = Inr (c, e3)" and ok3: "economy_ok e3"
      using execute_spec [OF Cons.prems(2,3)] by blast
    have k3: "known e3 sid" by (rule execute_known [OF x Cons.prems(3)])
    have p3: "P e3" by (rule exec [OF Cons.prems(2,3,4) x])
    show ?case
      using Cons.prems(1) x ok3 k3 p3 frame(1) [OF p3]
      by (auto split: if_splits intro: Cons.IH)
  qed simp
  from this [of e] assms(1-4) obtain e2 where "P e2" "e' = e2\<lparr>ec_world_version := ec_world_version e2 + 1\<rparr>"
    by (auto simp: apply_batch_def elim!: bindE_InrE)
  with frame(2) show ?thesis by simp
qed

lemma observation_for_ok:
  assumes "observation_for sid sq ph rr out e = Inr (s, e')"
  shows "e' = e \<or> e' = e\<lparr>ec_sequence := ec_sequence e + 1\<rparr>"
  using assms by (auto simp: observation_for_def elim!: bindE_InrE split: option.splits)

lemma economy_ok_sequence [simp]: "economy_ok (e\<lparr>ec_sequence := n\<rparr>) = economy_ok e"
proof -
  have "alive (e\<lparr>ec_sequence := n\<rparr>) = alive e" "known (e\<lparr>ec_sequence := n\<rparr>) = known e"
    by (simp_all add: fun_eq_iff alive_def known_def)
  then show ?thesis
    by (simp add: economy_ok_def roster_ok_def offers_ok_def offer_ok_def limits_ok_def ads_ok_def)
qed

lemma econ_step_ok:
  assumes "econ_step e e'" and "economy_ok e"
  shows "economy_ok e'"
  using assms
proof (cases rule: econ_step.cases)
  case (econ_execute sid a c)
  with execute_spec [OF assms(2), of sid a] show ?thesis by auto
next
  case (econ_apply sid acts)
  with apply_batch_ok [OF assms(2), of sid acts] show ?thesis by auto
next
  case econ_tick
  with advance_tick_ok [OF assms(2)] show ?thesis by auto
next
  case econ_end
  with end_run_ok(1) [OF assms(2)] show ?thesis by simp
next
  case (econ_observe sid sq ph rr out s)
  with observation_for_ok [OF econ_observe] assms(2) show ?thesis by auto
qed

lemma econ_reach_ok: "econ_reach e e' \<Longrightarrow> economy_ok e \<Longrightarrow> economy_ok e'"
  by (induction rule: econ_reach.induct) (auto intro: econ_step_ok)

end
