(* ===== verification/Economy_Ledger.thy ===== *)
theory Economy_Ledger
  imports Economy_Inv
begin

text \<open>
  The books of the simulated world. Every station's inventory is explained by what it started
  with, made, used and traded; its import and export totals are the sums over the recorded
  transactions; and the world as a whole gains only by production and loses only by upkeep.
\<close>

subsection \<open>What each step does to stations and transactions\<close>

definition settled_step :: "economy \<Rightarrow> economy \<Rightarrow> bool" where
  "settled_step e e' \<longleftrightarrow> (\<exists>o' \<in> set (ec_offers e). proposer_id o' \<noteq> recipient_id o' \<and> settled_by o' e e')"

lemma execute_cases:
  assumes ok: "economy_ok e" and x: "execute sid a e = Inr (c, e')"
  shows "(ec_stations e' = ec_stations e \<and> ec_transactions e' = ec_transactions e)
    \<or> (co_ok c \<and> (\<exists>oid. a = AcceptAction oid) \<and> settled_step e e')"
proof -
  from x obtain r where r: "precheck sid a e = Inr r" by (auto simp: execute_def elim!: bindE_InrE)
  show ?thesis
  proof (cases r)
    case (Some c')
    with x r show ?thesis by (simp add: execute_def)
  next
    case None
    note ex = x [unfolded execute_def r None bindE_simps option.case Let_def]
    let ?e = "count_command sid e"
    show ?thesis
    proof (cases a)
      case (AcceptAction oid)
      have ok1: "economy_ok ?e" by (rule count_command_ok [OF ok precheck_quota [OF r [unfolded None]]])
      show ?thesis
      proof (cases "co_ok c")
        case True
        then obtain o' where o': "o' \<in> set (ec_offers e)" "settled_by o' ?e e'"
          using accept_offer_spec [OF ok1, of sid oid] ex by (auto simp: AcceptAction split: if_splits)
        moreover have "proposer_id o' \<noteq> recipient_id o'"
          using ok o'(1) by (auto simp: economy_ok_def offers_ok_def offer_ok_def)
        moreover have "settled_by o' e e'" using o'(2) by (simp add: settled_by_def settled_as_def trade_record_def cong: if_cong)
        ultimately show ?thesis using True AcceptAction by (auto simp: settled_step_def)
      next
        case False
        then have "e' = ?e"
          using accept_offer_spec [OF ok1, of sid oid] ex by (auto simp: AcceptAction split: if_splits)
        then show ?thesis by simp
      qed
    next
      case (WithdrawAction oid)
      with ex show ?thesis
        by (auto simp: withdraw_def close_offer_def split: option.splits if_splits)
    qed (use ex in \<open>auto simp: advertise_def post_offer_def Let_def\<close>)
  qed
qed

text \<open>A refused command leaves the world as it was, except that a processed one is counted.\<close>

lemma execute_refused:
  assumes ok: "economy_ok e" and x: "execute sid a e = Inr (c, e')" and "\<not> co_ok c"
  shows "e' = e \<or> e' = count_command sid e"
proof -
  from x obtain r where r: "precheck sid a e = Inr r" by (auto simp: execute_def elim!: bindE_InrE)
  show ?thesis
  proof (cases r)
    case (Some c')
    with x r show ?thesis by (simp add: execute_def)
  next
    case None
    note ex = x [unfolded execute_def r None bindE_simps option.case Let_def]
    have ok1: "economy_ok (count_command sid e)"
      by (rule count_command_ok [OF ok precheck_quota [OF r [unfolded None]]])
    show ?thesis
    proof (cases a)
      case (AcceptAction oid)
      with accept_offer_spec [OF ok1, of sid oid] ex assms(3) show ?thesis by (auto split: if_splits)
    qed (use ex assms(3) in \<open>auto simp: advertise_def post_offer_def withdraw_def co_ok_def done_with_def Let_def
        split: option.splits if_splits\<close>)
  qed
qed

subsection \<open>Books\<close>

definition sold :: "string \<Rightarrow> transaction \<Rightarrow> Bundle" where
  "sold k t = (if txn_proposer_id t = k then txn_give t else 0) + (if txn_recipient_id t = k then txn_receive t else 0)"

definition bought :: "string \<Rightarrow> transaction \<Rightarrow> Bundle" where
  "bought k t = (if txn_proposer_id t = k then txn_receive t else 0) + (if txn_recipient_id t = k then txn_give t else 0)"

definition books_ok :: "(string \<Rightarrow> Bundle) \<Rightarrow> economy \<Rightarrow> bool" where
  "books_ok base e \<longleftrightarrow>
     (\<forall>k st. dict_get (ec_stations e) k = Some st \<longrightarrow> balanced (base k) st
        \<and> st_exported st = sum_list (map (sold k) (ec_transactions e))
        \<and> st_imported st = sum_list (map (bought k) (ec_transactions e)))
     \<and> (\<forall>t \<in> set (ec_transactions e). known e (txn_proposer_id t) \<and> known e (txn_recipient_id t)
          \<and> txn_proposer_id t \<noteq> txn_recipient_id t)"

lemma books_ok_frame:
  "books_ok base e \<Longrightarrow> ec_stations e' = ec_stations e \<Longrightarrow> ec_transactions e' = ec_transactions e \<Longrightarrow> books_ok base e'"
  by (simp add: books_ok_def known_def)

lemma books_ok_settled:
  assumes b: "books_ok base e" and s: "settled_step e e'"
  shows "books_ok base e'"
proof -
  obtain o' p r txn where ne: "proposer_id o' \<noteq> recipient_id o'" and as: "settled_as o' p r txn e e'"
    using s unfolding settled_step_def settled_by_def by blast
  then have p: "dict_get (ec_stations e) (proposer_id o') = Some p" and r: "dict_get (ec_stations e) (recipient_id o') = Some r"
    and pay: "give o' \<le> st_inventory p" "receive o' \<le> st_inventory r"
    and st: "ec_stations e' = dict_set (recipient_id o') (traded (receive o') (give o') r)
         (dict_set (proposer_id o') (traded (give o') (receive o') p) (ec_stations e))"
    and tx: "ec_transactions e' = ec_transactions e @ [trade_record txn o' e]"
    by (simp_all add: settled_as_def)
  note sides = sold_def bought_def trade_record_def
  have known: "known e k \<Longrightarrow> known e' k" for k by (simp add: known_def st dict_get_set)
  have "known e' (proposer_id o')" "known e' (recipient_id o')" by (simp_all add: known_def st dict_get_set)
  moreover have "balanced (base k) st' \<and> st_exported st' = sum_list (map (sold k) (ec_transactions e'))
      \<and> st_imported st' = sum_list (map (bought k) (ec_transactions e'))"
    if "dict_get (ec_stations e') k = Some st'" for k st'
  proof -
    consider "k = recipient_id o'" "st' = traded (receive o') (give o') r"
      | "k = proposer_id o'" "st' = traded (give o') (receive o') p"
      | "k \<noteq> recipient_id o'" "k \<noteq> proposer_id o'" "dict_get (ec_stations e) k = Some st'"
      using \<open>dict_get (ec_stations e') k = Some st'\<close>
      by (cases "k = recipient_id o'"; cases "k = proposer_id o'") (auto simp: st dict_get_set)
    then show ?thesis
    proof cases
      case 1
      with b r ne traded_balanced [OF pay(2), of "base k" "give o'"] show ?thesis
        by (auto simp: books_ok_def tx sides traded_def)
    next
      case 2
      with b p ne traded_balanced [OF pay(1), of "base k" "receive o'"] show ?thesis
        by (auto simp: books_ok_def tx sides traded_def)
    next
      case 3
      with b show ?thesis by (auto simp: books_ok_def tx sides)
    qed
  qed
  ultimately show ?thesis using b ne known by (auto simp: books_ok_def tx trade_record_def)
qed

lemma books_ok_tick:
  assumes ok: "economy_ok e" and b: "books_ok base e" and adv: "advance_tick e = Inr e'"
  shows "books_ok base e'"
proof -
  obtain d where m: "mapE (\<lambda>(k, st). bindE (settle_tick (ec_rules e) (ec_tick e + 1) st) (\<lambda>st. Inr (k, st))) (ec_stations e) = Inr d"
    and f: "ec_stations e' = d" "ec_transactions e' = ec_transactions e"
    using advance_tick_eq [OF ok] adv by auto
  have known: "known e k \<Longrightarrow> known e' k" for k
    using mapE_dict(2) [OF m, of k] by (auto simp: known_def f)
  have "balanced (base k) st' \<and> st_exported st' = sum_list (map (sold k) (ec_transactions e'))
      \<and> st_imported st' = sum_list (map (bought k) (ec_transactions e'))"
    if "dict_get (ec_stations e') k = Some st'" for k st'
  proof -
    from that obtain st where st: "dict_get (ec_stations e) k = Some st"
      "settle_tick (ec_rules e) (ec_tick e + 1) st = Inr st'"
      using mapE_dict(2,3) [OF m, of k] by (cases "dict_get (ec_stations e) k") (auto simp: f)
    have "st_exported st' = st_exported st" "st_imported st' = st_imported st"
      using settle_tick_Inr [OF st(2)] by metis+
    with b st settle_tick_balanced [OF st(2)] show ?thesis by (auto simp: books_ok_def f)
  qed
  with b known show ?thesis by (auto simp: books_ok_def f)
qed

lemma books_ok_execute:
  "economy_ok e \<Longrightarrow> books_ok base e \<Longrightarrow> execute sid a e = Inr (c, e') \<Longrightarrow> books_ok base e'"
  using execute_cases books_ok_frame books_ok_settled by metis

lemma books_ok_apply:
  assumes "economy_ok e" "known e sid" "books_ok base e" and "apply_batch sid acts e = Inr e'"
  shows "books_ok base e'"
  by (rule apply_batch_keeps [where P = "books_ok base", OF assms(1,2,3,4)])
     (auto intro: books_ok_execute books_ok_frame)

lemma econ_step_books:
  assumes "econ_step e e'" and "economy_ok e" and "books_ok base e"
  shows "books_ok base e'"
  using assms(1)
proof (cases rule: econ_step.cases)
  case (econ_execute sid a c)
  with books_ok_execute [OF assms(2,3)] show ?thesis by blast
next
  case (econ_apply sid acts)
  with books_ok_apply [OF assms(2) _ assms(3)] show ?thesis by blast
next
  case econ_tick
  with books_ok_tick [OF assms(2,3)] show ?thesis by blast
next
  case econ_end
  have "ec_stations (end_run e) = ec_stations e" "ec_transactions (end_run e) = ec_transactions e"
    unfolding end_run_eq [OF assms(2)] by simp_all
  with econ_end books_ok_frame [OF assms(3)] show ?thesis by simp
next
  case (econ_observe sid sq ph rr out s)
  with observation_for_ok [OF econ_observe] assms(3) show ?thesis by (auto intro: books_ok_frame)
qed

lemma econ_reach_books:
  "econ_reach e e' \<Longrightarrow> economy_ok e \<Longrightarrow> books_ok base e \<Longrightarrow> books_ok base e'"
  by (induction rule: econ_reach.induct) (auto intro: econ_step_books econ_reach_ok)

text \<open>A world just opened, with stations that have done nothing yet, has its books in order.\<close>

definition opening_stock :: "economy \<Rightarrow> string \<Rightarrow> Bundle" where
  "opening_stock e k = (case dict_get (ec_stations e) k of None \<Rightarrow> 0 | Some st \<Rightarrow> st_inventory st)"

lemma books_ok_init:
  assumes "\<forall>st \<in> set sts. st_consumed_total st = 0 \<and> st_produced_total st = 0
      \<and> st_imported st = 0 \<and> st_exported st = 0"
  shows "books_ok (opening_stock (economy_init sts rs rid)) (economy_init sts rs rid)"
proof -
  let ?e = "economy_init sts rs rid"
  have tx: "ec_transactions ?e = []" by (simp add: economy_init_def)
  have "balanced (opening_stock ?e k) st \<and> st_exported st = 0 \<and> st_imported st = 0"
    if "dict_get (ec_stations ?e) k = Some st" for k st
    using assms economy_init_station [OF that] that by (simp add: balanced_def opening_stock_def)
  then show ?thesis unfolding books_ok_def tx by simp
qed

subsection \<open>The whole world\<close>

definition world_total :: "(sim_station \<Rightarrow> Bundle) \<Rightarrow> economy \<Rightarrow> Bundle" where
  "world_total f e = sum_list (map f (dict_values (ec_stations e)))"

lemma sum_list_single_key:
  "distinct ks \<Longrightarrow> k \<in> set ks \<Longrightarrow> sum_list (map (\<lambda>x. if k = x then v else 0) ks) = v" for v :: Bundle
proof (induction ks)
  case (Cons x ks)
  have "k \<notin> set ks \<Longrightarrow> sum_list (map (\<lambda>x. if k = x then v else 0) ks) = 0"
    by (induction ks) auto
  with Cons show ?case by auto
qed simp

lemma sum_list_swap:
  "sum_list (map (\<lambda>k. sum_list (map (f k) ts)) ks) = sum_list (map (\<lambda>t. sum_list (map (\<lambda>k. f k t) ks)) ts)"
  for f :: "'a \<Rightarrow> 'b \<Rightarrow> Bundle"
  by (induction ts) (simp_all add: sum_list_addf)

lemma world_trade_balance:
  assumes "dict_ok (ec_stations e)" and "books_ok base e"
  shows "world_total st_exported e = world_total st_imported e"
proof -
  let ?ks = "dict_keys (ec_stations e)"
  have dist: "distinct ?ks" using assms(1) by (simp add: dict_ok_def)
  have get: "(k, st) \<in> set (ec_stations e) \<Longrightarrow> dict_get (ec_stations e) k = Some st" for k st
    using dict_mem_get [OF assms(1)] by simp
  have entry: "st_exported st = sum_list (map (sold k) (ec_transactions e))"
      "st_imported st = sum_list (map (bought k) (ec_transactions e))" if "(k, st) \<in> set (ec_stations e)" for k st
    using assms(2) get [OF that] by (auto simp: books_ok_def)
  have "world_total st_exported e = sum_list (map (\<lambda>k. sum_list (map (sold k) (ec_transactions e))) ?ks)"
    unfolding world_total_def map_map
    by (intro arg_cong [where f = sum_list] map_cong) (auto simp: entry)
  also have "\<dots> = sum_list (map (\<lambda>t. sum_list (map (\<lambda>k. sold k t) ?ks)) (ec_transactions e))"
    by (rule sum_list_swap)
  also have "\<dots> = sum_list (map (\<lambda>t. sum_list (map (\<lambda>k. bought k t) ?ks)) (ec_transactions e))"
  proof (rule arg_cong [where f = sum_list], rule map_cong [OF refl])
    fix t assume "t \<in> set (ec_transactions e)"
    with assms(2) have "txn_proposer_id t \<in> set ?ks" "txn_recipient_id t \<in> set ?ks"
      by (force simp: books_ok_def known_def dest: map_of_SomeD)+
    then show "sum_list (map (\<lambda>k. sold k t) ?ks) = sum_list (map (\<lambda>k. bought k t) ?ks)"
      unfolding sold_def bought_def sum_list_addf
      using sum_list_single_key [OF dist] by (simp add: add.commute)
  qed
  also have "\<dots> = sum_list (map (\<lambda>k. sum_list (map (bought k) (ec_transactions e))) ?ks)"
    by (rule sum_list_swap [symmetric])
  also have "\<dots> = world_total st_imported e"
    unfolding world_total_def map_map
    by (intro arg_cong [where f = sum_list] map_cong) (auto simp: entry)
  finally show ?thesis .
qed

lemma world_conservation:
  assumes "dict_ok (ec_stations e)" and "books_ok base e"
  shows "world_total st_inventory e + world_total st_consumed_total e
    = sum_list (map base (dict_keys (ec_stations e))) + world_total st_produced_total e"
proof -
  have "sum_list (map (\<lambda>p. st_inventory (snd p) + st_consumed_total (snd p) + st_exported (snd p)) (ec_stations e))
      = sum_list (map (\<lambda>p. base (fst p) + st_produced_total (snd p) + st_imported (snd p)) (ec_stations e))"
  proof (rule arg_cong [where f = sum_list], rule map_cong [OF refl])
    fix p assume "p \<in> set (ec_stations e)"
    then have "dict_get (ec_stations e) (fst p) = Some (snd p)"
      using dict_mem_get [OF assms(1), of "fst p" "snd p"] by simp
    then have "balanced (base (fst p)) (snd p)" using assms(2) by (simp add: books_ok_def)
    then show "st_inventory (snd p) + st_consumed_total (snd p) + st_exported (snd p)
        = base (fst p) + st_produced_total (snd p) + st_imported (snd p)" by (simp add: balanced_def)
  qed
  then have "world_total st_inventory e + world_total st_consumed_total e + world_total st_exported e
      = sum_list (map base (dict_keys (ec_stations e))) + world_total st_produced_total e + world_total st_imported e"
    by (simp add: world_total_def sum_list_addf o_def)
  with world_trade_balance [OF assms] show ?thesis by simp
qed


subsection \<open>What no step undoes\<close>

text \<open>Generic step rule: what commands, ticks, the end of the run and observations keep.\<close>

lemma econ_reach_keeps:
  assumes r: "econ_reach e e'" and ok: "economy_ok e" and P: "P e"
    and exec: "\<And>sid a e c e'. economy_ok e \<Longrightarrow> P e \<Longrightarrow> execute sid a e = Inr (c, e') \<Longrightarrow> P e'"
    and tick: "\<And>e e'. economy_ok e \<Longrightarrow> P e \<Longrightarrow> advance_tick e = Inr e' \<Longrightarrow> P e'"
    and fin: "\<And>e. economy_ok e \<Longrightarrow> P e \<Longrightarrow> P (end_run e)"
    and frame: "\<And>e rj. P e \<Longrightarrow> P (e\<lparr>ec_rejections := rj\<rparr>)" "\<And>e v. P e \<Longrightarrow> P (e\<lparr>ec_world_version := v\<rparr>)"
      "\<And>e n. P e \<Longrightarrow> P (e\<lparr>ec_sequence := n\<rparr>)"
  shows "P e'"
  using r ok P
proof (induction rule: econ_reach.induct)
  case (reach_step e e1 e2)
  have ok1: "economy_ok e1" by (rule econ_reach_ok [OF reach_step.hyps(1) reach_step.prems(1)])
  have p1: "P e1" by (rule reach_step.IH [OF reach_step.prems])
  from reach_step.hyps(2) show ?case
  proof (cases rule: econ_step.cases)
    case (econ_execute sid a c)
    then show ?thesis using exec [OF ok1 p1] by blast
  next
    case (econ_apply sid acts)
    show ?thesis
      by (rule apply_batch_keeps [where P = P, OF ok1 econ_apply(1) p1 econ_apply(2)])
         (auto intro: exec frame)
  next
    case econ_tick
    then show ?thesis using tick [OF ok1 p1] by blast
  next
    case econ_end
    then show ?thesis using fin [OF ok1 p1] by blast
  next
    case (econ_observe sid sq ph rr out s)
    with observation_for_ok [OF econ_observe] p1 frame(3) show ?thesis by auto
  qed
qed

definition failed_since :: "string \<Rightarrow> int option \<Rightarrow> economy \<Rightarrow> bool" where
  "failed_since sid t e \<longleftrightarrow> (\<exists>st. dict_get (ec_stations e) sid = Some st \<and> st_failed_once st
     \<and> st_first_failure_tick st = t)"

lemma failed_since_frame: "failed_since sid t e \<Longrightarrow> ec_stations e' = ec_stations e \<Longrightarrow> failed_since sid t e'"
  by (simp add: failed_since_def)

lemma failed_since_settled:
  assumes "failed_since sid t e" and "settled_step e e'"
  shows "failed_since sid t e'"
proof -
  have "st_first_failure_tick (traded paid got st) = st_first_failure_tick st" for paid got st
    by (simp add: traded_def)
  with assms show ?thesis
    by (auto simp: failed_since_def settled_step_def settled_by_def settled_as_def dict_get_set)
qed

lemma econ_reach_failed:
  assumes "econ_reach e e'" "economy_ok e" "failed_since sid t e"
  shows "failed_since sid t e'"
proof (rule econ_reach_keeps [where P = "failed_since sid t", OF assms])
  fix k a e c e' assume "economy_ok e" "failed_since sid t e" "execute k a e = Inr (c, e')"
  then show "failed_since sid t e'"
    using execute_cases failed_since_frame failed_since_settled by metis
next
  fix e e' assume ok: "economy_ok e" and f: "failed_since sid t e" and adv: "advance_tick e = Inr e'"
  obtain d where m: "mapE (\<lambda>(k, st). bindE (settle_tick (ec_rules e) (ec_tick e + 1) st) (\<lambda>st. Inr (k, st))) (ec_stations e) = Inr d"
    and d: "ec_stations e' = d" using advance_tick_eq [OF ok] adv by auto
  from f obtain st where st: "dict_get (ec_stations e) sid = Some st" "st_failed_once st" "st_first_failure_tick st = t"
    by (auto simp: failed_since_def)
  then obtain st' where "settle_tick (ec_rules e) (ec_tick e + 1) st = Inr st'" "dict_get d sid = Some st'"
    using mapE_dict(2) [OF m] by blast
  with settle_tick_failed [OF this(1) st(2)] st(3) d show "failed_since sid t e'" by (simp add: failed_since_def)
next
  fix e assume ok: "economy_ok e" and f: "failed_since sid t e"
  show "failed_since sid t (end_run e)" by (rule failed_since_frame [OF f]) (simp add: end_run_eq [OF ok])
qed (simp_all add: failed_since_def)

text \<open>Every operation leaves a closed offer as it is.\<close>

definition closed_in :: "offer \<Rightarrow> economy \<Rightarrow> bool" where
  "closed_in o' e \<longleftrightarrow> o' \<in> set (ec_offers e)"

lemma close_open_keeps:
  assumes "distinct (map offer_id os)" "o' \<in> set os" "offer_status o' \<noteq> OPEN"
    and "x \<in> set os" "offer_id x = oid" "offer_status x = OPEN"
  shows "o' \<in> set (map (\<lambda>y. if offer_id y \<noteq> oid then y else f y) os)"
proof -
  have "offer_id o' \<noteq> oid"
    using assms by (metis distinct_map inj_onD)
  with assms(2) show ?thesis by force
qed

lemma execute_closed:
  assumes ok: "economy_ok e" and x: "execute sid a e = Inr (c, e')" and o': "o' \<in> set (ec_offers e)" "offer_status o' \<noteq> OPEN"
  shows "o' \<in> set (ec_offers e')"
proof -
  have dist: "distinct (map offer_id (ec_offers e))" using ok by (simp add: economy_ok_def offers_ok_def)
  have co: "ec_offers (count_command sid e) = ec_offers e" by simp
  from x obtain r where r: "precheck sid a e = Inr r" by (auto simp: execute_def elim!: bindE_InrE)
  show ?thesis
  proof (cases r)
    case (Some c')
    with x r o' show ?thesis by (simp add: execute_def)
  next
    case None
    note ex = x [unfolded execute_def r None bindE_simps option.case Let_def]
    show ?thesis
    proof (cases a)
      case (AcceptAction oid)
      have ok1: "economy_ok (count_command sid e)"
        by (rule count_command_ok [OF ok precheck_quota [OF r [unfolded None]]])
      from accept_offer_spec [OF ok1, of sid oid] ex AcceptAction
      consider "e' = count_command sid e"
        | y where "y \<in> set (ec_offers e)" "offer_id y = oid" "offer_status y = OPEN" "settled_by y (count_command sid e) e'"
        by (auto split: if_splits)
      then show ?thesis
        by cases (use o' close_open_keeps [OF dist o'] in \<open>auto simp: settled_by_def settled_as_def\<close>)
    next
      case (WithdrawAction oid)
      have "y \<in> set (ec_offers e) \<and> offer_id y = oid" if "find_offer_by_id oid (count_command sid e) = Some y" for y
        using that by (auto simp: find_offer_by_id_def find_Some_iff)
      with ex WithdrawAction o' close_open_keeps [OF dist o'] show ?thesis
        by (auto simp: withdraw_def close_offer_def split: option.splits if_splits)
    qed (use ex o' in \<open>auto simp: advertise_def post_offer_def Let_def\<close>)
  qed
qed

lemma econ_reach_closed:
  assumes "econ_reach e e'" "economy_ok e" and st: "offer_status o' \<noteq> OPEN" and "o' \<in> set (ec_offers e)"
  shows "o' \<in> set (ec_offers e')"
proof -
  have "closed_in o' e'"
  proof (rule econ_reach_keeps [where P = "closed_in o'", OF assms(1,2)])
    fix e e' assume "economy_ok e" "closed_in o' e" "advance_tick e = Inr e'"
    with advance_tick_eq [of e] st show "closed_in o' e'"
      by (force simp: closed_in_def tick_offer_def)
  next
    fix e assume "economy_ok e" "closed_in o' e"
    with st show "closed_in o' (end_run e)" by (force simp: closed_in_def end_run_eq)
  qed (use assms(4) execute_closed st in \<open>auto simp: closed_in_def\<close>)
  then show ?thesis by (simp add: closed_in_def)
qed

end
