(* ===== verification/World.thy ===== *)
theory World
  imports Economy_Ledger Altruism
begin

text \<open>
  \<open>bazaar_sim/world.py\<close>, first half: the production schedules of a simulated world and the score of a
  finished economy. What a whole run does with players is in \<open>Sim_World\<close>.
\<close>

definition PHASES :: "int list" where "PHASES = [2, 5, 6]"
definition PHASE_TICKS :: int where "PHASE_TICKS = 12"
definition RUN_TICKS :: nat where "RUN_TICKS = 120"

definition run_two_production :: "int \<Rightarrow> int \<Rightarrow> int \<Rightarrow> int" where
  "run_two_production phase_offset tick i =
     PHASES ! nat ((tick div PHASE_TICKS + i + phase_offset) mod int (length PHASES))"

definition specialty_of :: "nat \<Rightarrow> resource" where
  "specialty_of i = resources ! (i mod 3)"

definition planet_id :: "nat \<Rightarrow> string" where
  "planet_id i = ''P'' @ (if i + 1 < 10 then ''0'' else []) @ show_int (int (i + 1))"

text \<open>What the stations make this tick, station by station in order.\<close>

definition set_productions :: "(int \<Rightarrow> int) \<Rightarrow> economy \<Rightarrow> economy" where
  "set_productions p e = e\<lparr>ec_stations :=
     map (\<lambda>(i, k, st). (k, st\<lparr>st_production := p (int i)\<rparr>)) (enumerate 0 (ec_stations e))\<rparr>"

subsection \<open>Balanced production\<close>

definition producers :: "nat \<Rightarrow> resource \<Rightarrow> nat list" where
  "producers planets r = filter (\<lambda>i. specialty_of i = r) [0..<planets]"

definition shares :: "nat \<Rightarrow> int \<Rightarrow> resource \<Rightarrow> (nat \<times> int) list" where
  "shares planets upkeep r =
     (let ps = producers planets r;
          share = int planets * upkeep div int (length ps);
          extra = int planets * upkeep mod int (length ps)
      in map (\<lambda>(rank, i). (i, share + (if int rank < extra then 1 else 0))) (enumerate 0 ps))"

definition base_output :: "nat \<Rightarrow> int \<Rightarrow> (nat, int) pydict" where
  "base_output planets upkeep =
     fold (\<lambda>(i, b). dict_set i b) (concat (map (shares planets upkeep) resources)) []"

text \<open>\<open>base[i]\<close>; the indices asked for are those of the planets, which all have an entry.\<close>

definition base_of :: "nat \<Rightarrow> int \<Rightarrow> int \<Rightarrow> int" where
  "base_of planets upkeep i = dict_get_or 0 (base_output planets upkeep) (nat i)"

definition carried :: "int \<Rightarrow> rat \<Rightarrow> int" where
  "carried units surplus = py_trunc (fmul (fint units) surplus)"

definition swing :: "int \<Rightarrow> int \<Rightarrow> int \<Rightarrow> int" where
  "swing variation tick i = [- variation, 0, variation] ! nat ((tick div PHASE_TICKS + i) mod 3)"

definition balanced_production :: "nat \<Rightarrow> int \<Rightarrow> int \<Rightarrow> rat \<Rightarrow> (int \<Rightarrow> int \<Rightarrow> int) result" where
  "balanced_production planets upkeep variation surplus =
     (if planets < 3 then Inl (ValueError ''a balanced world needs at least 3 planets, one per resource'')
      else Inr (\<lambda>tick i.
        let base = base_of planets upkeep i;
            bonus = carried ((tick + 1) * base) surplus - carried (tick * base) surplus
        in max 0 (base + bonus + swing variation tick i)))"

subsection \<open>The score\<close>

record score =
  sc_planets :: int
  sc_collective_success :: bool
  sc_survivors :: int
  sc_world_alive_ticks :: int
  sc_shortage_ticks :: int
  sc_unmet_units :: int
  sc_subject_survived :: "bool option"
  sc_subject_health :: "int option"

text \<open>\<open>{sid: s.first_failure_tick for ... if s.failed_once}\<close>.\<close>

definition own_failures :: "economy \<Rightarrow> (string, int option) pydict" where
  "own_failures e = map (\<lambda>(k, st). (k, st_first_failure_tick st)) (filter (\<lambda>(k, st). st_failed_once st) (ec_stations e))"

text \<open>\<open>failed_at.get(sid, ticks)\<close>, which the sum must be able to add.\<close>

definition lived :: "(string, int option) pydict \<Rightarrow> int \<Rightarrow> string \<Rightarrow> int result" where
  "lived failed_at ticks sid = (case dict_get failed_at sid of
       None \<Rightarrow> Inr ticks | Some (Some t) \<Rightarrow> Inr t | Some None \<Rightarrow> Inl TypeError)"

definition score_economy ::
  "economy \<Rightarrow> int \<Rightarrow> string option \<Rightarrow> (string, int option) pydict option \<Rightarrow> score result" where
  "score_economy e ticks subject failures =
     (let failed_at = (case failures of None \<Rightarrow> own_failures e | Some d \<Rightarrow> d);
          stations = dict_values (ec_stations e)
      in bindE (mapE (lived failed_at ticks) (dict_keys (ec_stations e))) (\<lambda>alive_ticks.
         bindE (case subject of None \<Rightarrow> Inr None
                | Some sid \<Rightarrow> bindE (station_at e sid) (\<lambda>st. Inr (Some (st_health st)))) (\<lambda>subject_health.
      Inr \<lparr>sc_planets = int (length (ec_stations e)),
           sc_collective_success = (failed_at = []),
           sc_survivors = int (length (ec_stations e)) - int (length failed_at),
           sc_world_alive_ticks = sum_list alive_ticks,
           sc_shortage_ticks = sum_list (map st_shortage_ticks stations),
           sc_unmet_units = sum_list (map (\<lambda>st. int (total (st_unmet_total st))) stations),
           sc_subject_survived = map_option (\<lambda>sid. dict_get failed_at sid = None) subject,
           sc_subject_health = subject_health\<rparr>)))"

definition rank_key :: "score \<Rightarrow> bool \<times> int \<times> int \<times> int \<times> bool \<times> int" where
  "rank_key s = (sc_collective_success s, sc_survivors s, sc_world_alive_ticks s, - sc_shortage_ticks s,
     sc_subject_survived s = Some True, (case sc_subject_health s of None \<Rightarrow> 0 | Some h \<Rightarrow> h))"

subsection \<open>Setting the production keeps the world\<close>

text \<open>What an operation that neither adds nor removes stations leaves.\<close>

definition same_world :: "economy \<Rightarrow> economy \<Rightarrow> bool" where
  "same_world e e' \<longleftrightarrow> ec_rules e' = ec_rules e \<and> (\<forall>k. known e' k = known e k)"

lemma same_world_refl [simp]: "same_world e e"
  by (simp add: same_world_def)

lemma same_world_trans: "same_world a b \<Longrightarrow> same_world b c \<Longrightarrow> same_world a c"
  by (simp add: same_world_def)

lemma execute_same_world:
  assumes "economy_ok e" and "execute sid a e = Inr (c, e')"
  shows "same_world e e'"
proof -
  have "known e' k = known e k" for k
    using execute_cases [OF assms]
    by (auto simp: known_def settled_step_def settled_by_def settled_as_def dict_get_set split: if_splits)
  moreover have "ec_rules e' = ec_rules e"
    using assms(2) by (auto simp: execute_def advertise_def post_offer_def withdraw_def accept_offer_def
        close_offer_def set_station_def count_command_def Let_def elim!: bindE_InrE
        split: option.splits action.splits if_splits)
  ultimately show ?thesis by (simp add: same_world_def)
qed

lemma advance_tick_same_world:
  assumes "economy_ok e" and "advance_tick e = Inr e'"
  shows "same_world e e'"
proof -
  obtain d where m: "mapE (\<lambda>(k, st). bindE (settle_tick (ec_rules e) (ec_tick e + 1) st) (\<lambda>st. Inr (k, st))) (ec_stations e) = Inr d"
    and e': "ec_stations e' = d" "ec_rules e' = ec_rules e"
    using advance_tick_eq [OF assms(1)] assms(2) by auto
  have "known e' k = known e k" for k
    using mapE_dict(2,3) [OF m, of k] by (cases "dict_get (ec_stations e) k") (auto simp: known_def e')
  then show ?thesis by (simp add: same_world_def e')
qed

lemma enumerate_keys: "map fst (map (\<lambda>(i, k, st). (k, f i st)) (enumerate n d)) = map fst d"
  by (induction d arbitrary: n) auto

lemma enumerate_get:
  "(dict_get d k = None \<longrightarrow> dict_get (map (\<lambda>(i, k, st). (k, f i st)) (enumerate n d)) k = None)
   \<and> (\<forall>st. dict_get d k = Some st \<longrightarrow> (\<exists>i. dict_get (map (\<lambda>(i, k, st). (k, f i st)) (enumerate n d)) k = Some (f i st)))"
  by (induction d arbitrary: n) auto

lemma set_productions_get:
  "dict_get (ec_stations (set_productions p e)) k = None \<longleftrightarrow> dict_get (ec_stations e) k = None"
  "dict_get (ec_stations e) k = Some st \<Longrightarrow> \<exists>i. dict_get (ec_stations (set_productions p e)) k = Some (st\<lparr>st_production := p (int i)\<rparr>)"
  using enumerate_get [of "ec_stations e" k "\<lambda>i st. st\<lparr>st_production := p (int i)\<rparr>" 0]
  by (cases "dict_get (ec_stations e) k"; auto simp: set_productions_def)+

lemma set_productions_keys [simp]: "dict_keys (ec_stations (set_productions p e)) = dict_keys (ec_stations e)"
  using enumerate_keys [of "\<lambda>i st. st\<lparr>st_production := p (int i)\<rparr>" 0 "ec_stations e"] by (simp add: set_productions_def)

lemma set_productions_frame [simp]:
  "ec_tick (set_productions p e) = ec_tick e" "ec_rules (set_productions p e) = ec_rules e"
  "ec_finished (set_productions p e) = ec_finished e"
  by (simp_all add: set_productions_def ec_finished_def)

lemma set_productions_ok:
  assumes "economy_ok e" and "\<And>i. 0 \<le> p i"
  shows "economy_ok (set_productions p e)" and "same_world e (set_productions p e)"
proof -
  let ?e' = "set_productions p e"
  have origin: "\<exists>i st0. dict_get (ec_stations e) k = Some st0 \<and> st = st0\<lparr>st_production := p (int i)\<rparr>"
    if "dict_get (ec_stations ?e') k = Some st" for k st
    using that set_productions_get(1) [of p e k] set_productions_get(2) [of e k _ p] by (cases "dict_get (ec_stations e) k") auto
  have known: "known ?e' k = known e k" for k
    by (simp add: known_def set_productions_get(1))
  have alive: "alive ?e' k = alive e k" for k
    using set_productions_get(1) [of p e k] set_productions_get(2) [of e k _ p] by (cases "dict_get (ec_stations e) k") (auto simp: alive_def)
  have "roster_ok ?e'"
    unfolding roster_ok_def
  proof (intro conjI allI impI)
    show "rules_ok (ec_rules ?e')" using assms(1) by (simp add: economy_ok_def roster_ok_def)
    show "dict_ok (ec_stations ?e')" using assms(1) by (simp add: economy_ok_def roster_ok_def dict_ok_def)
    fix k st assume "dict_get (ec_stations ?e') k = Some st"
    from origin [OF this] assms show "station_ok (ec_rules ?e') k st"
      by (auto simp: economy_ok_def roster_ok_def station_ok_def)
  qed
  moreover have "offers_ok ?e' \<and> limits_ok ?e' \<and> ads_ok ?e'"
    using assms(1) by (simp add: economy_ok_def offers_ok_def offer_ok_def limits_ok_def ads_ok_def known alive)
      (simp add: set_productions_def)
  ultimately show "economy_ok ?e'" "same_world e ?e'" by (simp_all add: economy_ok_def same_world_def known)
qed

subsection \<open>Balance\<close>

lemma sum_list_enumerate: "(\<Sum>(rank, i)\<leftarrow>enumerate m xs. g rank) = sum_list (map g [m..<m + length xs])"
  by (induction xs arbitrary: m) (simp_all add: upt_conv_Cons del: upt_Suc)

lemma sum_share:
  assumes "0 \<le> x" and "x < int n"
  shows "sum_list (map (\<lambda>rank. q + (if int rank < x then 1 else 0)) [0..<n]) = int n * q + x"
proof -
  have "{rank \<in> {..<n}. int rank < x} = {..<nat x}" using assms by auto
  then have "(\<Sum>rank<n. if int rank < x then 1 else 0) = (x :: int)"
    using assms(1) by (simp flip: sum.inter_filter add: sum.If_cases Collect_conj_eq [symmetric] Int_def)
  then have "(\<Sum>rank<n. q + (if int rank < x then 1 else 0)) = int n * q + x" by (simp add: sum.distrib)
  then show ?thesis by (simp add: interv_sum_list_conv_sum_set_nat atLeast0LessThan)
qed

lemma producers_nonempty: "3 \<le> planets \<Longrightarrow> producers planets r \<noteq> []"
proof -
  assume p: "3 \<le> planets"
  obtain i where "i < 3" "specialty_of i = r"
    by (cases r) (auto simp: specialty_of_def resources_def intro: that [of 0] that [of 1] that [of 2])
  with p show ?thesis by (auto simp: producers_def filter_empty_conv intro!: bexI [of _ i])
qed

lemma shares_total:
  assumes "3 \<le> planets"
  shows "sum_list (map snd (shares planets upkeep r)) = int planets * upkeep"
proof -
  let ?n = "length (producers planets r)" and ?w = "int planets * upkeep"
  have n: "0 < int ?n" using producers_nonempty [OF assms] by simp
  have "sum_list (map snd (shares planets upkeep r))
      = sum_list (map (\<lambda>rank. ?w div int ?n + (if int rank < ?w mod int ?n then 1 else 0)) [0..<?n])"
    using sum_list_enumerate [of "\<lambda>rank. ?w div int ?n + (if int rank < ?w mod int ?n then 1 else 0)" 0 "producers planets r"]
    by (simp add: shares_def Let_def comp_def case_prod_unfold)
  also have "\<dots> = int ?n * (?w div int ?n) + ?w mod int ?n" using n by (intro sum_share) simp_all
  finally show ?thesis by simp
qed

lemma shares_keys: "map fst (shares planets upkeep r) = producers planets r"
proof -
  have "map (snd :: nat \<times> nat \<Rightarrow> nat) (enumerate 0 xs) = xs" for xs by simp
  then show ?thesis by (simp add: shares_def Let_def comp_def case_prod_unfold del: map_snd_enumerate)
qed

lemma base_pairs_distinct: "distinct (map fst (concat (map (shares planets upkeep) resources)))"
proof -
  have "distinct (producers planets r)" for r by (simp add: producers_def)
  moreover have "r \<noteq> r' \<Longrightarrow> set (producers planets r) \<inter> set (producers planets r') = {}" for r r'
    by (auto simp: producers_def)
  ultimately show ?thesis by (simp add: resources_def shares_keys Int_Un_distrib flip: map_map)
qed

lemma fold_pairs_get:
  "distinct (map fst xs) \<Longrightarrow> (k, b) \<in> set xs \<Longrightarrow> dict_get (fold (\<lambda>(i, b). dict_set i b) xs d) k = Some b"
proof (induction xs arbitrary: d rule: rev_induct)
  case (snoc x xs)
  obtain i c where x: "x = (i, c)" by (cases x)
  have "k \<noteq> i" if "(k, b) \<in> set xs" using snoc.prems(1) that x by (force simp: image_iff)
  with snoc x show ?case by (auto simp: dict_get_set)
qed simp

lemma base_of_share:
  assumes "(i, b) \<in> set (shares planets upkeep r)"
  shows "base_of planets upkeep (int i) = b"
proof -
  have "r \<in> set resources" by (cases r) (simp_all add: resources_def)
  with assms have "(i, b) \<in> set (concat (map (shares planets upkeep) resources))" by auto
  from fold_pairs_get [OF base_pairs_distinct this] show ?thesis
    by (simp add: base_of_def base_output_def dict_get_or_def)
qed

lemma base_total:
  assumes "3 \<le> planets"
  shows "(\<Sum>i\<leftarrow>producers planets r. base_of planets upkeep (int i)) = int planets * upkeep"
proof -
  have "map (\<lambda>i. base_of planets upkeep (int i)) (producers planets r)
      = map (\<lambda>p. base_of planets upkeep (int (fst p))) (shares planets upkeep r)"
    by (simp add: comp_def flip: shares_keys [of planets upkeep r])
  also have "\<dots> = map snd (shares planets upkeep r)"
    using base_of_share by (intro map_cong) auto
  finally show ?thesis using shares_total [OF assms] by simp
qed

lemma base_nonneg:
  assumes "3 \<le> planets" and "0 \<le> upkeep" and "i < planets"
  shows "0 \<le> base_of planets upkeep (int i)"
proof -
  let ?r = "specialty_of i"
  have "i \<in> set (producers planets ?r)" using assms(3) by (simp add: producers_def)
  then obtain b where b: "(i, b) \<in> set (shares planets upkeep ?r)"
    unfolding shares_keys [of planets upkeep ?r, symmetric] by auto
  have "0 \<le> int planets * upkeep div int (length (producers planets ?r))"
    using assms(2) by (cases "length (producers planets ?r) = 0") (simp_all add: pos_imp_zdiv_nonneg_iff)
  with b have "0 \<le> b" by (auto simp: shares_def Let_def)
  with base_of_share [OF b] show ?thesis by simp
qed

text \<open>Without a surplus nothing is carried; the swing of a full cycle of 36 ticks cancels.\<close>

lemma carried_zero [simp]: "carried n 0 = 0"
  by (simp add: carried_def fmul_def py_trunc_def)

lemma swing_cycle: "(\<Sum>t = 0..<36. swing v (36 * k + int t) i) = 0"
proof -
  have d: "(36 * k + int t) div PHASE_TICKS = 3 * k + int t div 12" for t by (simp add: PHASE_TICKS_def)
  have seg: "(\<Sum>t = 12 * j..<12 * j + 12. f (int t div 12)) = 12 * f (int j)" for f :: "int \<Rightarrow> int" and j
  proof -
    have "int t div 12 = int j" if "t \<in> {12 * j..<12 * j + 12}" for t using that by simp linarith
    then show ?thesis by simp
  qed
  have "{0..<36::nat} = {0..<12} \<union> {12..<24} \<union> {24..<36}" by auto
  then have "(\<Sum>t = 0..<36. swing v (36 * k + int t) i)
      = (\<Sum>t = 0..<12. swing v (36 * k + int t) i) + (\<Sum>t = 12..<24. swing v (36 * k + int t) i) + (\<Sum>t = 24..<36. swing v (36 * k + int t) i)"
    by (subst sum.union_disjoint [symmetric]; auto)+
  also have "\<dots> = 12 * ([- v, 0, v] ! nat ((3 * k + i) mod 3)) + 12 * ([- v, 0, v] ! nat ((3 * k + 1 + i) mod 3))
      + 12 * ([- v, 0, v] ! nat ((3 * k + 2 + i) mod 3))"
    using seg [of "\<lambda>q. [- v, 0, v] ! nat ((3 * k + q + i) mod 3)" 0] seg [of "\<lambda>q. [- v, 0, v] ! nat ((3 * k + q + i) mod 3)" 1]
      seg [of "\<lambda>q. [- v, 0, v] ! nat ((3 * k + q + i) mod 3)" 2]
    by (simp add: swing_def d)
  also have "\<dots> = 0"
  proof -
    have m: "(3 * k + i) mod 3 = i mod 3" "(3 * k + 1 + i) mod 3 = (i + 1) mod 3" "(3 * k + 2 + i) mod 3 = (i + 2) mod 3"
      by presburger+
    have "i mod 3 \<in> {0, 1, 2}" by auto
    then consider "i mod 3 = 0" | "i mod 3 = 1" | "i mod 3 = 2" by auto
    then show ?thesis unfolding m by cases (simp_all add: mod_add_left_eq [of i 3, symmetric])
  qed
  finally show ?thesis .
qed

text \<open>What is carried from tick to tick adds up to what the whole span earns.\<close>

lemma carried_mono:
  assumes "0 \<le> m" and "m \<le> n" and "0 \<le> surplus"
  shows "carried m surplus \<le> carried n surplus" and "0 \<le> carried m surplus"
proof -
  have f: "0 \<le> fint m" "fint m \<le> fint n" using assms by (simp_all add: fint_def fl_nonneg fl_mono)
  then have "0 \<le> fint m * surplus" "fint m * surplus \<le> fint n * surplus" using assms(3) by (simp_all add: mult_right_mono)
  then have "0 \<le> fmul (fint m) surplus" "fmul (fint m) surplus \<le> fmul (fint n) surplus"
    by (simp_all add: fmul_def fl_nonneg fl_mono)
  then show "carried m surplus \<le> carried n surplus" "0 \<le> carried m surplus"
    by (simp_all add: carried_def py_trunc_def floor_mono)
qed

lemma carried_telescopes:
  "(\<Sum>t = 0..<n. carried ((int t + 1) * b) surplus - carried (int t * b) surplus) = carried (int n * b) surplus"
proof (induction n)
  case 0
  then show ?case by (simp add: carried_def fint_def fmul_def py_trunc_def)
qed (simp add: algebra_simps)

subsection \<open>Claims\<close>

text \<open>
  a balanced world makes what it uses. Over every complete cycle of 36 ticks the planets that
  make a resource together produce exactly the upkeep of all planets for those ticks, whatever the
  variation up to the smallest base output; without variation they do so in every single tick.
\<close>

theorem balanced_world_covers_upkeep:
  assumes "balanced_production planets upkeep v 0 = Inr p" and "0 \<le> upkeep" and "0 \<le> v"
    and "\<forall>i < planets. v \<le> base_of planets upkeep (int i)"
  shows "(\<Sum>i\<leftarrow>producers planets r. \<Sum>t = 0..<36. p (36 * k + int t) (int i)) = 36 * (int planets * upkeep)
    \<and> (v = 0 \<longrightarrow> (\<Sum>i\<leftarrow>producers planets r. p tick (int i)) = int planets * upkeep)"
proof -
  have n: "3 \<le> planets" and p: "p = (\<lambda>tick i. max 0 (base_of planets upkeep i + swing v tick i))"
    using assms(1) by (auto simp: balanced_production_def Let_def split: if_splits)
  have sw: "- v \<le> swing v t i" for t i
  proof -
    have "nat ((t div PHASE_TICKS + i) mod 3) \<in> {0, 1, 2}" by auto
    with assms(3) show ?thesis by (auto simp: swing_def)
  qed
  have pe: "p t (int i) = base_of planets upkeep (int i) + swing v t (int i)" if "i \<in> set (producers planets r)" for i t
    using assms(4) sw [of t "int i"] that by (fastforce simp: p producers_def)
  have "(\<Sum>i\<leftarrow>producers planets r. \<Sum>t = 0..<36. p (36 * k + int t) (int i))
      = (\<Sum>i\<leftarrow>producers planets r. 36 * base_of planets upkeep (int i))"
    by (intro arg_cong [where f = sum_list] map_cong refl) (simp add: pe sum.distrib swing_cycle)
  also have "\<dots> = 36 * (int planets * upkeep)"
    using base_total [OF n, of upkeep r] by (simp add: sum_list_const_mult)
  finally have "(\<Sum>i\<leftarrow>producers planets r. \<Sum>t = 0..<36. p (36 * k + int t) (int i)) = 36 * (int planets * upkeep)" .
  moreover have "(\<Sum>i\<leftarrow>producers planets r. p tick (int i)) = int planets * upkeep" if "v = 0"
  proof -
    have "swing 0 t i = 0" for t i
    proof -
      have "nat ((t div PHASE_TICKS + i) mod 3) \<in> {0, 1, 2}" by auto
      then show ?thesis by (auto simp: swing_def)
    qed
    then have "(\<Sum>i\<leftarrow>producers planets r. p tick (int i)) = (\<Sum>i\<leftarrow>producers planets r. base_of planets upkeep (int i))"
      using that by (intro arg_cong [where f = sum_list] map_cong refl) (simp add: pe)
    then show ?thesis using base_total [OF n, of upkeep r] by simp
  qed
  ultimately show ?thesis by blast
qed

theorem balanced_world_covers_upkeep_witness:
  "\<exists>p. balanced_production 4 1 1 0 = Inr p
     \<and> (\<Sum>i\<leftarrow>producers 4 WATER. \<Sum>t = 0..<36. p (36 * 0 + int t) (int i)) = 144"
proof -
  obtain p where p: "balanced_production 4 1 1 0 = Inr p" by (simp add: balanced_production_def)
  have "list_all (\<lambda>i. 1 \<le> base_of 4 1 (int i)) [0..<4]" by code_simp
  then have "\<forall>i < 4. 1 \<le> base_of 4 1 (int i)" by (simp add: list_all_iff)
  from balanced_world_covers_upkeep [OF p _ _ this, of 0 WATER] p show ?thesis by auto
qed

text \<open>A variation above the base output is cut off at 0, and then the cycle produces too much.\<close>

lemma large_variation_overproduces:
  "map_sum id (\<lambda>p. \<Sum>t\<leftarrow>[0..<36]. p (int t) 0) (balanced_production 3 1 4 0) = Inr 120
   \<and> map_sum id (\<lambda>p. \<Sum>t\<leftarrow>[0..<36]. p (int t) 0) (balanced_production 3 1 0 0) = Inr 108"
  by code_simp

text \<open>
  A fractional surplus is carried, not lost. Over the first \<open>n\<close> ticks a planet produces \<open>n\<close>
  times its base output plus exactly what one rounding of the whole span's surplus gives.
\<close>

theorem surplus_is_carried:
  assumes "balanced_production planets upkeep 0 surplus = Inr p" and "0 \<le> upkeep" and "0 \<le> surplus" and "i < planets"
  shows "(\<Sum>t = 0..<n. p (int t) (int i)) = int n * base_of planets upkeep (int i) + carried (int n * base_of planets upkeep (int i)) surplus"
proof -
  let ?b = "base_of planets upkeep (int i)"
  have planets: "3 \<le> planets"
    using assms(1) by (auto simp: balanced_production_def split: if_splits)
  have sw: "swing 0 t j = 0" for t j
  proof -
    have "nat ((t div PHASE_TICKS + j) mod 3) \<in> {0, 1, 2}" by auto
    then show ?thesis by (auto simp: swing_def)
  qed
  have b: "0 \<le> ?b" by (rule base_nonneg [OF planets assms(2,4)])
  have "p (int t) (int i) = ?b + (carried ((int t + 1) * ?b) surplus - carried (int t * ?b) surplus)" for t
  proof -
    have "carried (int t * ?b) surplus \<le> carried ((int t + 1) * ?b) surplus"
      using b by (intro carried_mono(1) assms(3)) (simp_all add: distrib_right)
    with b assms(1) sw show ?thesis by (auto simp: balanced_production_def Let_def split: if_splits)
  qed
  then show ?thesis using carried_telescopes [of ?b surplus n] by (simp add: sum.distrib)
qed

theorem surplus_is_carried_witness:
  "\<exists>p. balanced_production 3 1 0 (1 / 4) = Inr p \<and> (\<Sum>t = 0..<10. p (int t) (int 0)) = 37"
proof -
  obtain p where p: "balanced_production 3 1 0 (1 / 4) = Inr p" by (simp add: balanced_production_def)
  have "base_of 3 1 (int 0) = 3" "carried (int 10 * 3) (1 / 4) = 7" by code_simp+
  with surplus_is_carried [OF p, of 0 10] p show ?thesis by auto
qed

lemma own_failures_get:
  assumes "dict_ok (ec_stations e)"
  shows "dict_get (own_failures e) k = (case dict_get (ec_stations e) k of
      Some st \<Rightarrow> if st_failed_once st then Some (st_first_failure_tick st) else None | None \<Rightarrow> None)"
proof -
  have "dict_ok d \<Longrightarrow> dict_get (map (\<lambda>(k, st). (k, st_first_failure_tick st)) (filter (\<lambda>(k, st). st_failed_once st) d)) k
      = (case dict_get d k of Some st \<Rightarrow> if st_failed_once st then Some (st_first_failure_tick st) else None | None \<Rightarrow> None)" for d
  proof (induction d)
    case (Cons p d)
    obtain k0 st where p: "p = (k0, st)" by (cases p)
    have "k0 \<notin> set (dict_keys d)" using Cons.prems p by (simp add: dict_ok_def)
    then have "dict_get d k0 = None" by (simp add: map_of_eq_None_iff)
    with Cons p show ?case by (auto simp: dict_ok_def)
  qed simp
  with assms show ?thesis by (simp add: own_failures_def)
qed

lemma score_lived:
  assumes "mapE (lived fa ticks) ks = Inr xs" and "\<And>k t. dict_get fa k = Some (Some t) \<Longrightarrow> t \<le> ticks"
  shows "sum_list xs \<le> int (length ks) * ticks" and "(\<forall>k \<in> set ks. dict_get fa k = None) \<Longrightarrow> sum_list xs = int (length ks) * ticks"
proof -
  have "sum_list xs \<le> int (length ks) * ticks
      \<and> ((\<forall>k \<in> set ks. dict_get fa k = None) \<longrightarrow> sum_list xs = int (length ks) * ticks)"
    using assms(1)
  proof (induction ks arbitrary: xs)
    case (Cons k ks)
    from Cons.prems obtain y ys where y: "lived fa ticks k = Inr y" and ys: "mapE (lived fa ticks) ks = Inr ys" "xs = y # ys"
      by (auto elim!: bindE_InrE)
    have "y \<le> ticks" "dict_get fa k = None \<longrightarrow> y = ticks"
      using y assms(2) by (auto simp: lived_def split: option.splits)
    with Cons.IH [OF ys(1)] ys(2) show ?case by (auto simp: distrib_right)
  qed simp
  then show "sum_list xs \<le> int (length ks) * ticks" "(\<forall>k \<in> set ks. dict_get fa k = None) \<Longrightarrow> sum_list xs = int (length ks) * ticks"
    by blast+
qed

text \<open>
  The score counts. For a well-formed economy the survivors are the stations that never failed,
  collective success means that all of them survived, and the world has lived at most \<open>ticks\<close>
  planet-ticks per planet: exactly that many when nobody failed.
\<close>

theorem score_counts_survivors:
  assumes "economy_ok e" and "\<forall>k st t. dict_get (ec_stations e) k = Some st \<longrightarrow> st_first_failure_tick st = Some t \<longrightarrow> t \<le> ticks"
  shows "\<exists>s. score_economy e ticks None None = Inr s
    \<and> sc_survivors s = int (length (filter (\<lambda>st. \<not> st_failed_once st) (dict_values (ec_stations e))))
    \<and> (sc_collective_success s \<longleftrightarrow> sc_survivors s = sc_planets s)
    \<and> sc_world_alive_ticks s \<le> sc_planets s * ticks
    \<and> (sc_collective_success s \<longrightarrow> sc_world_alive_ticks s = sc_planets s * ticks)"
proof -
  let ?fa = "own_failures e" and ?ks = "dict_keys (ec_stations e)"
  have dok: "dict_ok (ec_stations e)" using assms(1) by (simp add: economy_ok_def roster_ok_def)
  have sok: "dict_get (ec_stations e) k = Some st \<Longrightarrow> station_ok (ec_rules e) k st" for k st
    using assms(1) by (simp add: economy_ok_def roster_ok_def)
  note get = own_failures_get [OF dok]
  have fa: "\<exists>t. x = Some t \<and> t \<le> ticks" if g: "dict_get ?fa k = Some x" for k x
  proof -
    obtain st where st: "dict_get (ec_stations e) k = Some st" "st_failed_once st" "x = st_first_failure_tick st"
      using g get [of k] by (auto split: option.splits if_splits)
    then obtain t where "st_first_failure_tick st = Some t" using sok [OF st(1)] by (auto simp: station_ok_def)
    with assms(2) st show ?thesis by auto
  qed
  have "\<exists>y. lived ?fa ticks k = Inr y" for k
    using fa [of k] by (cases "dict_get ?fa k") (auto simp: lived_def)
  from mapE_total [where f = "lived ?fa ticks" and xs = ?ks, OF this] obtain xs where xs: "mapE (lived ?fa ticks) ?ks = Inr xs" by blast
  note sc = score_lived [OF xs]
  have len: "int (length (ec_stations e)) - int (length ?fa) = int (length (filter (\<lambda>st. \<not> st_failed_once st) (dict_values (ec_stations e))))"
    using sum_length_filter_compl [of "\<lambda>p. st_failed_once (snd p)" "ec_stations e"]
    by (simp add: own_failures_def filter_map comp_def case_prod_unfold)
  have le: "\<And>k t. dict_get ?fa k = Some (Some t) \<Longrightarrow> t \<le> ticks" using fa by blast
  show ?thesis
    using xs len sc(1) [OF le] sc(2) [OF le] by (auto simp: score_economy_def Let_def)
qed

theorem score_counts_survivors_witness:
  "\<exists>s. score_economy (economy_init [sim_station_new ''P01'' WATER 0 3] DEFAULT_RULES ''sim'') 9 None None = Inr s
     \<and> sc_survivors s = 1 \<and> sc_collective_success s"
proof -
  let ?e = "economy_init [sim_station_new ''P01'' WATER 0 3] DEFAULT_RULES ''sim''"
  have ok: "economy_ok ?e"
    by (rule economy_init_ok) (auto simp: rules_ok_def station_ok_def sim_station_new_def DEFAULT_RULES_def)
  have d: "ec_stations ?e = [(''P01'', sim_station_new ''P01'' WATER 0 3)]"
    by (simp add: economy_init_def sim_station_new_def)
  have "\<forall>k st t. dict_get (ec_stations ?e) k = Some st \<longrightarrow> st_first_failure_tick st = Some t \<longrightarrow> t \<le> 9"
    unfolding d by (auto simp: sim_station_new_def)
  from score_counts_survivors [OF ok this] obtain s where
    s: "score_economy ?e 9 None None = Inr s"
      "sc_survivors s = int (length (filter (\<lambda>st. \<not> st_failed_once st) (dict_values (ec_stations ?e))))"
      "sc_collective_success s \<longleftrightarrow> sc_survivors s = sc_planets s" by blast
  have 1: "sc_planets s = 1" using s(1) by (auto simp: score_economy_def d Let_def elim!: bindE_InrE)
  have 2: "sc_survivors s = 1" using s(2) unfolding d by (simp add: sim_station_new_def)
  have "sc_collective_success s" using s(3) 1 2 by simp
  with s(1) 2 show ?thesis by (intro exI conjI)
qed

end
