(* ===== verification/Server.thy ===== *)
theory Server
  imports World Wire Lifecycle
begin

text \<open>
  \<open>bazaar_sim/server.py\<close>: the simulated server's sessions over the economy. A connection is a
  number; what is sent to it is appended to a log as the event the client decodes. A handler runs
  from message to answer as one step; \<open>_maybe_start\<close> only schedules the start, which runs as a step
  of its own. A message is what \<open>decode_client_message\<close> made of the received bytes.
\<close>

record seat =
  se_conn :: nat
  se_sequence :: int
  se_ready :: bool

record stored_result =
  sr_fingerprint :: string
  sr_result :: command_result

record server_stats =
  ss_commands :: "(string, int) pydict"
  ss_results :: "(string, int) pydict"
  ss_protocol_errors :: "(string, int) pydict"
  ss_connections :: int

record server =
  sv_economy :: economy
  sv_tokens :: "(string, string) pydict"
  sv_open_auth :: bool
  sv_start_when :: int
  sv_production :: "(int \<Rightarrow> int \<Rightarrow> int) option"
  sv_phase :: phase
  sv_seats :: "(string, seat) pydict"
  sv_results :: "(string, (string, stored_result) pydict) pydict"
  sv_stats :: server_stats
  sv_finished :: bool
  sv_claimed :: "string set"
  sv_starts :: nat
  sv_next_conn :: nat
  sv_log :: "(nat \<times> server_event) list"
  sv_closed :: "nat list"

subsection \<open>Opening\<close>

definition NAMES :: "string list" where
  "NAMES = [''Aqua'', ''Verdant'', ''Forge'', ''Tidal'', ''Harvest'', ''Anvil'', ''Reef'', ''Orchard'', ''Foundry'']"

definition planet_name :: "nat \<Rightarrow> string" where
  "planet_name i = NAMES ! (i mod length NAMES)
     @ (if i \<ge> length NAMES then ''-'' @ show_int (int (i div length NAMES + 1)) else [])"

definition build_economy :: "nat \<Rightarrow> rules \<Rightarrow> nat \<Rightarrow> string \<Rightarrow> economy" where
  "build_economy planets rs stock rid =
     economy_init (map (\<lambda>i. (sim_station_new (planet_id i) (specialty_of i) (Bundle stock stock stock) 3)
       \<lparr>st_display_name := planet_name i\<rparr>) [0..<planets]) rs rid"

definition apply_production :: "server \<Rightarrow> server" where
  "apply_production sv = (case sv_production sv of
       None \<Rightarrow> sv
     | Some produce \<Rightarrow> sv\<lparr>sv_economy := set_productions (produce (ec_tick (sv_economy sv))) (sv_economy sv)\<rparr>)"

definition server_init ::
  "economy \<Rightarrow> (string, string) pydict \<Rightarrow> bool \<Rightarrow> int option \<Rightarrow> (int \<Rightarrow> int \<Rightarrow> int) option \<Rightarrow> server" where
  "server_init e tokens open_auth start_when production = apply_production
     \<lparr>sv_economy = e, sv_tokens = tokens, sv_open_auth = open_auth,
      sv_start_when = (case start_when of None \<Rightarrow> int (length (ec_stations e)) | Some n \<Rightarrow> n),
      sv_production = production, sv_phase = READY, sv_seats = [],
      sv_results = map (\<lambda>k. (k, [])) (dict_keys (ec_stations e)),
      sv_stats = \<lparr>ss_commands = [], ss_results = [], ss_protocol_errors = [], ss_connections = 0\<rparr>,
      sv_finished = False, sv_claimed = {}, sv_starts = 0, sv_next_conn = 0, sv_log = [], sv_closed = []\<rparr>"

subsection \<open>Sending\<close>

definition seat_of :: "string \<Rightarrow> server \<Rightarrow> seat result" where
  "seat_of sid sv = (case dict_get (sv_seats sv) sid of None \<Rightarrow> Inl (KeyError sid) | Some se \<Rightarrow> Inr se)"

definition stored_of :: "string \<Rightarrow> server \<Rightarrow> (string, stored_result) pydict result" where
  "stored_of sid sv = (case dict_get (sv_results sv) sid of None \<Rightarrow> Inl (KeyError sid) | Some d \<Rightarrow> Inr d)"

definition put_log :: "nat \<Rightarrow> server_event \<Rightarrow> server \<Rightarrow> server" where
  "put_log conn ev sv = sv\<lparr>sv_log := sv_log sv @ [(conn, ev)]\<rparr>"

definition send :: "string \<Rightarrow> server_event \<Rightarrow> server \<Rightarrow> server result" where
  "send sid ev sv = bindE (seat_of sid sv) (\<lambda>se. Inr (put_log (se_conn se) ev sv))"

definition final_outcome :: "string \<Rightarrow> server \<Rightarrow> player_outcome option result" where
  "final_outcome sid sv = (if sv_phase sv = FINISHED
     then bindE (outcome_for sid False (sv_economy sv)) (\<lambda>x. Inr (Some x)) else Inr None)"

definition snapshot_for :: "string \<Rightarrow> server \<Rightarrow> (snapshot \<times> server) result" where
  "snapshot_for sid sv =
     bindE (seat_of sid sv) (\<lambda>se.
     let se = se\<lparr>se_sequence := se_sequence se + 1\<rparr>;
         sv = sv\<lparr>sv_seats := dict_set sid se (sv_seats sv)\<rparr>
     in bindE (final_outcome sid sv) (\<lambda>out.
        bindE (stored_of sid sv) (\<lambda>stored.
        bindE (observation_for sid (Some (se_sequence se)) (sv_phase sv)
                 (map sr_result (dict_values stored)) out (sv_economy sv)) (\<lambda>(s, e).
        Inr (s, sv\<lparr>sv_economy := e\<rparr>)))))"

definition send_state :: "string \<Rightarrow> server \<Rightarrow> server result" where
  "send_state sid sv = bindE (snapshot_for sid sv) (\<lambda>(s, sv). send sid (SnapshotEvent s) sv)"

definition broadcast :: "server \<Rightarrow> server result" where
  "broadcast sv = foldE send_state (dict_keys (sv_seats sv)) sv"

definition make_result :: "server \<Rightarrow> string \<Rightarrow> result_code \<Rightarrow> string option \<Rightarrow> string option \<Rightarrow> command_result" where
  "make_result sv req c oid txn =
     \<lparr>request_id = req, ok = (c = RES_OK), code = c, processed_tick = ec_tick (sv_economy sv),
      processed_version = ec_world_version (sv_economy sv), object_id = oid, res_transaction_id = txn,
      retry_after_tick = (if c = RATE_LIMITED then Some (ec_tick (sv_economy sv) + 1) else None)\<rparr>"

definition send_result :: "string \<Rightarrow> command_result \<Rightarrow> server \<Rightarrow> server result" where
  "send_result sid r sv = send sid (ResultEvent r)
     (sv\<lparr>sv_stats := (sv_stats sv)\<lparr>ss_results := count_key (ss_results (sv_stats sv)) (result_code_name (code r))\<rparr>\<rparr>)"

definition error_event :: "server \<Rightarrow> control_code \<Rightarrow> string option \<Rightarrow> bool \<Rightarrow> server_event" where
  "error_event sv c req close = ProtocolErrorEvent \<lparr>err_run_id = Some (ec_run_id (sv_economy sv)),
     err_request_id = req, err_code = c, close_session = close\<rparr>"

definition close_conn :: "nat \<Rightarrow> server \<Rightarrow> server" where
  "close_conn conn sv = sv\<lparr>sv_closed := sv_closed sv @ [conn]\<rparr>"

definition send_error :: "string \<Rightarrow> control_code \<Rightarrow> string option \<Rightarrow> bool \<Rightarrow> server \<Rightarrow> server result" where
  "send_error sid c req close sv =
     bindE (seat_of sid sv) (\<lambda>se.
     bindE (send sid (error_event sv c req close)
       (sv\<lparr>sv_stats := (sv_stats sv)\<lparr>ss_protocol_errors :=
          count_key (ss_protocol_errors (sv_stats sv)) (control_code_name c)\<rparr>\<rparr>)) (\<lambda>sv.
     Inr (if close then close_conn (se_conn se) sv else sv)))"

text \<open>
  Each message is encoded before it goes out, and protobuf refuses an integer outside its field with a
  \<open>ValueError\<close> that no handler catches. \<open>on_wire\<close> is a handler with the encoding of the messages it adds to the
  log; \<open>left\<close> is the state in its answer. What a handler does after such an exception is not followed: the
  steps below log every message.
\<close>

fun event_wire :: "(server_message \<Rightarrow> bytes) \<Rightarrow> string \<Rightarrow> server_event \<Rightarrow> bytes result" where
  "event_wire ser rid (SnapshotEvent s) = encode_state ser s"
| "event_wire ser rid (ResultEvent r) = encode_result ser r rid"
| "event_wire ser rid (ReadinessEvent a) = encode_readiness ser a"
| "event_wire ser rid (ProtocolErrorEvent e) =
     Inr (encode_protocol_error ser (err_code e) (err_run_id e) (err_request_id e) (close_session e))"

definition on_wire :: "(server_message \<Rightarrow> bytes) \<Rightarrow> server \<Rightarrow> ('a \<Rightarrow> server) \<Rightarrow> 'a result \<Rightarrow> 'a result" where
  "on_wire ser sv left r =
     bindE r (\<lambda>x.
     bindE (mapE (\<lambda>(conn, ev). event_wire ser (ec_run_id (sv_economy sv)) ev) (drop (length (sv_log sv)) (sv_log (left x)))) (\<lambda>_.
     Inr x))"

subsection \<open>Messages\<close>

definition maybe_start :: "server \<Rightarrow> server" where
  "maybe_start sv =
     (let n = int (length (filter se_ready (dict_values (sv_seats sv))))
      in if sv_phase sv = READY \<and> sv_start_when sv > 0 \<and> n \<ge> sv_start_when sv
         then sv\<lparr>sv_starts := sv_starts sv + 1\<rparr> else sv)"

text \<open>The command is new: execute it, store the result under its id, answer, tell everyone.\<close>

definition process_command :: "string \<Rightarrow> string \<Rightarrow> string \<Rightarrow> action \<Rightarrow> string \<Rightarrow> server \<Rightarrow> server result" where
  "process_command sid req knd a fp sv =
     bindE (stored_of sid sv) (\<lambda>stored.
     let sv = sv\<lparr>sv_stats := (sv_stats sv)\<lparr>ss_commands := count_key (ss_commands (sv_stats sv)) knd\<rparr>\<rparr>
     in bindE (if sv_phase sv \<noteq> RUNNING then Inr (refused RUN_NOT_RUNNING, sv_economy sv)
               else execute sid a (sv_economy sv)) (\<lambda>(c, e).
        let e = (if co_code c = RES_OK then e\<lparr>ec_world_version := ec_world_version e + 1\<rparr> else e);
            sv = sv\<lparr>sv_economy := e\<rparr>;
            r = make_result sv req (co_code c) (co_object_id c) (co_transaction_id c);
            sv = sv\<lparr>sv_results := dict_set sid
                    (dict_set req \<lparr>sr_fingerprint = fp, sr_result = r\<rparr> stored) (sv_results sv)\<rparr>
        in bindE (send_result sid r sv) broadcast))"

definition command :: "string \<Rightarrow> string \<Rightarrow> string \<Rightarrow> action \<Rightarrow> string \<Rightarrow> server \<Rightarrow> server result" where
  "command sid req knd a fp sv =
     bindE (stored_of sid sv) (\<lambda>stored.
       case dict_get stored req of
         Some previous \<Rightarrow>
           if sr_fingerprint previous = fp
           then bindE (send sid (ResultEvent (sr_result previous)) sv) (send_state sid)
           else send_result sid (make_result sv req REQUEST_ID_CONFLICT None None) sv
       | None \<Rightarrow>
           if int (length stored) \<ge> max_request_records_per_station (ec_rules (sv_economy sv))
           then send_error sid REQUEST_CAPACITY_EXCEEDED (Some req) False sv
           else process_command sid req knd a fp sv)"

text \<open>One message; \<open>False\<close> ends the connection's loop. A command without action or id cannot come
  out of \<open>decode_client_message\<close>.\<close>

definition on_message :: "string \<Rightarrow> bad_message + client_command \<Rightarrow> server \<Rightarrow> (bool \<times> server) result" where
  "on_message sid msg sv = (case msg of
     Inl (BadMessage req) \<Rightarrow> bindE (send_error sid BAD_MESSAGE req False sv) (\<lambda>sv. Inr (True, sv))
   | Inr c \<Rightarrow>
       if cc_protocol_version c \<noteq> PROTOCOL_VERSION
       then bindE (send_error sid UNSUPPORTED_VERSION (cc_request_id c) True sv) (\<lambda>sv. Inr (False, sv))
       else if cc_run_id c \<noteq> ec_run_id (sv_economy sv)
       then bindE (send_error sid RUN_MISMATCH (cc_request_id c) True sv) (\<lambda>sv. Inr (False, sv))
       else bindE (seat_of sid sv) (\<lambda>se.
         if cc_kind c = ''ready'' then
           let se = se\<lparr>se_ready := (cc_ready c = Some True)\<rparr>;
               sv = sv\<lparr>sv_seats := dict_set sid se (sv_seats sv)\<rparr>
           in bindE (send sid (ReadinessEvent \<lparr>ack_run_id = ec_run_id (sv_economy sv), ack_ready = se_ready se,
                 ack_snapshot_sequence = (case cc_snapshot_sequence c of None \<Rightarrow> 0 | Some n \<Rightarrow> n)\<rparr>) sv) (\<lambda>sv.
              Inr (True, maybe_start sv))
         else if cc_kind c = ''sync'' then bindE (send_state sid sv) (\<lambda>sv. Inr (True, sv))
         else if \<not> se_ready se
         then bindE (send_error sid BAD_MESSAGE (cc_request_id c) False sv) (\<lambda>sv. Inr (True, sv))
         else (case (cc_action c, cc_request_id c) of
             (Some a, Some req) \<Rightarrow>
               bindE (command sid req (cc_kind c) a (cc_fingerprint c) sv) (\<lambda>sv. Inr (True, sv))
           | _ \<Rightarrow> Inl AssertionError)))"

definition on_text_frame :: "string \<Rightarrow> server \<Rightarrow> server result" where
  "on_text_frame sid sv = send_error sid BAD_MESSAGE None False sv"

subsection \<open>Connections\<close>

datatype auth_reply = BadRequest | Forbidden | Unauthorized | Seated string

definition py_space :: "char \<Rightarrow> bool" where
  "py_space c \<longleftrightarrow> (of_char c :: nat) \<in> {9, 10, 11, 12, 13, 28, 29, 30, 31, 32, 133, 160}"

definition strip :: "string \<Rightarrow> string" where
  "strip s = rev (dropWhile py_space (rev (dropWhile py_space s)))"

fun split_commas :: "string \<Rightarrow> string list" where
  "split_commas [] = [[]]"
| "split_commas (c # cs) = (if c = CHR '','' then [] # split_commas cs
     else (case split_commas cs of [] \<Rightarrow> [[c]] | w # ws \<Rightarrow> (c # w) # ws))"

definition SUBPROTOCOL :: string where
  "SUBPROTOCOL = ''bazaar.protobuf.v2''"

definition authenticate :: "string \<Rightarrow> string \<Rightarrow> server \<Rightarrow> auth_reply \<times> server" where
  "authenticate offered header sv =
     (if SUBPROTOCOL \<notin> set (map strip (split_commas offered)) then (BadRequest, sv)
      else let token = (if take 7 header = ''Bearer '' then drop 7 header else [])
           in if sv_open_auth sv then
                (case filter (\<lambda>k. k \<notin> sv_claimed sv) (dict_keys (ec_stations (sv_economy sv))) of
                   [] \<Rightarrow> (Forbidden, sv)
                 | sid # _ \<Rightarrow> (Seated sid, sv\<lparr>sv_claimed := insert sid (sv_claimed sv)\<rparr>))
              else (case dict_get (sv_tokens sv) token of
                   None \<Rightarrow> (Unauthorized, sv)
                 | Some sid \<Rightarrow> (Seated sid, sv)))"

definition connect :: "string \<Rightarrow> server \<Rightarrow> server result" where
  "connect sid sv =
     (let sv = (case dict_get (sv_seats sv) sid of
            None \<Rightarrow> sv
          | Some previous \<Rightarrow> close_conn (se_conn previous)
              (put_log (se_conn previous) (error_event sv SESSION_FENCED None True) sv));
          sv = sv\<lparr>sv_seats := dict_set sid \<lparr>se_conn = sv_next_conn sv, se_sequence = 0, se_ready = False\<rparr> (sv_seats sv),
                  sv_next_conn := sv_next_conn sv + 1,
                  sv_stats := (sv_stats sv)\<lparr>ss_connections := ss_connections (sv_stats sv) + 1\<rparr>\<rparr>
      in send_state sid sv)"

definition disconnect :: "string \<Rightarrow> nat \<Rightarrow> server \<Rightarrow> server" where
  "disconnect sid conn sv = (case dict_get (sv_seats sv) sid of
       None \<Rightarrow> sv
     | Some se \<Rightarrow> if se_conn se = conn
         then sv\<lparr>sv_seats := dict_pop sid (sv_seats sv),
                 sv_claimed := (if sv_open_auth sv then sv_claimed sv - {sid} else sv_claimed sv)\<rparr>
         else sv)"

subsection \<open>Time\<close>

definition start_run :: "server \<Rightarrow> server result" where
  "start_run sv =
     (if sv_phase sv \<noteq> READY then Inr sv
      else broadcast (sv\<lparr>sv_phase := RUNNING,
             sv_economy := (sv_economy sv)\<lparr>ec_world_version := ec_world_version (sv_economy sv) + 1\<rparr>\<rparr>))"

definition advance :: "server \<Rightarrow> server result" where
  "advance sv =
     (if sv_phase sv \<noteq> RUNNING then Inr sv
      else bindE (advance_tick (sv_economy sv)) (\<lambda>e.
        let sv = apply_production (sv\<lparr>sv_economy := e\<rparr>)
        in if ec_finished (sv_economy sv)
           then bindE (broadcast (sv\<lparr>sv_economy := end_run (sv_economy sv), sv_phase := FINISHED\<rparr>))
                  (\<lambda>sv. Inr (sv\<lparr>sv_finished := True\<rparr>))
           else broadcast sv))"

end
