(* ===== verification/Server_Inv.thy ===== *)
theory Server_Inv
  imports Server
begin

text \<open>
  The invariant of the simulated server's sessions: the economy is well formed, every seat belongs to
  a station and has its own connection, stored results are bounded and carry their request id, and
  the snapshots sent on each connection are numbered 1, 2, 3, \<open>\<dots>\<close> without gaps.
\<close>

definition snapshots_on :: "nat \<Rightarrow> (nat \<times> server_event) list \<Rightarrow> snapshot list" where
  "snapshots_on conn sent = List.map_filter
     (\<lambda>(c, ev). case ev of SnapshotEvent s \<Rightarrow> if c = conn then Some s else None | _ \<Rightarrow> None) sent"

definition numbers :: "nat \<Rightarrow> (nat \<times> server_event) list \<Rightarrow> int list" where
  "numbers conn sent = map snapshot_sequence (snapshots_on conn sent)"

definition upto_number :: "nat \<Rightarrow> int list" where
  "upto_number n = map int [1..<Suc n]"

definition seats_ok :: "server \<Rightarrow> bool" where
  "seats_ok sv \<longleftrightarrow> dict_ok (sv_seats sv)
     \<and> (\<forall>k se. dict_get (sv_seats sv) k = Some se \<longrightarrow> known (sv_economy sv) k \<and> se_conn se < sv_next_conn sv \<and> 0 \<le> se_sequence se)
     \<and> (\<forall>k k' se se'. dict_get (sv_seats sv) k = Some se \<longrightarrow> dict_get (sv_seats sv) k' = Some se' \<longrightarrow> se_conn se = se_conn se' \<longrightarrow> k = k')"

definition log_ok :: "server \<Rightarrow> bool" where
  "log_ok sv \<longleftrightarrow> (\<forall>conn. \<exists>n. numbers conn (sv_log sv) = upto_number n)
     \<and> (\<forall>conn \<ge> sv_next_conn sv. numbers conn (sv_log sv) = [])
     \<and> (\<forall>k se. dict_get (sv_seats sv) k = Some se \<longrightarrow> numbers (se_conn se) (sv_log sv) = upto_number (nat (se_sequence se)))"

definition results_ok :: "server \<Rightarrow> bool" where
  "results_ok sv \<longleftrightarrow> (\<forall>k. known (sv_economy sv) k \<longrightarrow> dict_get (sv_results sv) k \<noteq> None)
     \<and> (\<forall>k d. dict_get (sv_results sv) k = Some d \<longrightarrow> dict_ok d
          \<and> int (length d) \<le> max 0 (max_request_records_per_station (ec_rules (sv_economy sv)))
          \<and> (\<forall>req x. dict_get d req = Some x \<longrightarrow> request_id (sr_result x) = req))"

definition phase_ok :: "server \<Rightarrow> bool" where
  "phase_ok sv \<longleftrightarrow> (sv_phase sv = FINISHED \<longrightarrow> ec_finished (sv_economy sv) \<and> ec_ads (sv_economy sv) = []
     \<and> (\<forall>o' \<in> set (ec_offers (sv_economy sv)). offer_status o' \<noteq> OPEN))"

definition produces_ok :: "server \<Rightarrow> bool" where
  "produces_ok sv \<longleftrightarrow> (\<forall>p. sv_production sv = Some p \<longrightarrow> (\<forall>t i. 0 \<le> p t i))"

definition server_ok :: "server \<Rightarrow> bool" where
  "server_ok sv \<longleftrightarrow> economy_ok (sv_economy sv) \<and> seats_ok sv \<and> log_ok sv \<and> results_ok sv \<and> phase_ok sv \<and> produces_ok sv"

lemmas server_defs = server_ok_def seats_ok_def log_ok_def results_ok_def phase_ok_def produces_ok_def

lemma numbers_append: "numbers conn (xs @ ys) = numbers conn xs @ numbers conn ys"
  by (simp add: numbers_def snapshots_on_def List.map_filter_def)

lemma numbers_snapshot [simp]: "numbers conn [(c, SnapshotEvent s)] = (if c = conn then [snapshot_sequence s] else [])"
  by (simp add: numbers_def snapshots_on_def List.map_filter_def)

lemma numbers_other [simp]:
  "numbers conn [(c, ResultEvent r)] = []" "numbers conn [(c, ProtocolErrorEvent e)] = []"
  "numbers conn [(c, ReadinessEvent a)] = []" "numbers conn [] = []"
  by (simp_all add: numbers_def snapshots_on_def List.map_filter_def)

lemma upto_number_0 [simp]: "upto_number 0 = []"
  by (simp add: upto_number_def)

lemma upto_number_Suc: "0 \<le> n \<Longrightarrow> upto_number (nat (n + 1)) = upto_number (nat n) @ [n + 1]"
  by (simp add: upto_number_def nat_add_distrib)

text \<open>Changes that these predicates do not see.\<close>

lemma server_ok_frames [simp]:
  "server_ok (sv\<lparr>sv_stats := x\<rparr>) = server_ok sv" "server_ok (sv\<lparr>sv_starts := n\<rparr>) = server_ok sv"
  "server_ok (sv\<lparr>sv_closed := cs\<rparr>) = server_ok sv" "server_ok (sv\<lparr>sv_claimed := cl\<rparr>) = server_ok sv"
  "server_ok (sv\<lparr>sv_finished := b\<rparr>) = server_ok sv"
  by (simp_all add: server_defs)

lemma put_log_other:
  assumes "server_ok sv" and "\<And>c. numbers c [(conn, ev)] = []"
  shows "server_ok (put_log conn ev sv)"
  using assms by (simp add: server_defs put_log_def numbers_append)

text \<open>An operation that only sends: what it leaves alone.\<close>

definition only_sends :: "server \<Rightarrow> server \<Rightarrow> bool" where
  "only_sends sv sv' \<longleftrightarrow> sv_economy sv' = sv_economy sv \<and> sv_results sv' = sv_results sv \<and> sv_phase sv' = sv_phase sv
     \<and> sv_production sv' = sv_production sv \<and> dict_keys (sv_seats sv') = dict_keys (sv_seats sv)
     \<and> (\<exists>l. sv_log sv' = sv_log sv @ l)"

lemma only_sends_refl [simp]: "only_sends sv sv"
  by (simp add: only_sends_def)

lemma only_sends_trans: "only_sends a b \<Longrightarrow> only_sends b c \<Longrightarrow> only_sends a c"
  by (auto simp: only_sends_def)

lemma dict_keys_set: "k \<in> set (dict_keys d) \<Longrightarrow> dict_keys (dict_set k v d) = dict_keys d"
  by (simp add: update_keys)

lemma get_seat: "dict_get (sv_seats sv) sid \<noteq> None \<longleftrightarrow> sid \<in> set (dict_keys (sv_seats sv))"
  by (simp add: map_of_eq_None_iff)

lemma seat_known:
  assumes "server_ok sv" and "dict_get (sv_seats sv) sid = Some se"
  shows "known (sv_economy sv) sid" and "\<exists>d. dict_get (sv_results sv) sid = Some d"
proof -
  show k: "known (sv_economy sv) sid" using assms by (simp add: server_ok_def seats_ok_def)
  with assms(1) show "\<exists>d. dict_get (sv_results sv) sid = Some d"
    unfolding server_ok_def results_ok_def by blast
qed

lemma send_state_ok:
  assumes ok: "server_ok sv" and se: "dict_get (sv_seats sv) sid = Some se"
  shows "\<exists>sv' s. send_state sid sv = Inr sv' \<and> server_ok sv' \<and> only_sends sv sv'
    \<and> sv_log sv' = sv_log sv @ [(se_conn se, SnapshotEvent s)] \<and> snapshot_sequence s = se_sequence se + 1"
proof -
  let ?se = "se\<lparr>se_sequence := se_sequence se + 1\<rparr>"
  let ?sv = "sv\<lparr>sv_seats := dict_set sid ?se (sv_seats sv)\<rparr>"
  have k: "known (sv_economy sv) sid" using ok se by (auto simp: server_defs)
  then obtain st where st: "station_at (sv_economy sv) sid = Inr st" using station_at_known by blast
  obtain d where d: "dict_get (sv_results sv) sid = Some d" using seat_known(2) [OF ok se] by blast
  obtain out where out: "final_outcome sid ?sv = Inr out"
    using st by (cases "sv_phase sv = FINISHED") (auto simp: final_outcome_def outcome_for_def)
  obtain s where s: "observation_for sid (Some (se_sequence se + 1)) (sv_phase sv) (map sr_result (dict_values d)) out (sv_economy sv)
      = Inr (s, sv_economy sv)" and sq: "snapshot_sequence s = se_sequence se + 1"
    using st by (simp add: observation_for_def)
  have eq: "send_state sid sv = Inr (put_log (se_conn se) (SnapshotEvent s) ?sv)"
    using se d out s by (simp add: send_state_def snapshot_for_def seat_of_def stored_of_def send_def put_log_def Let_def dict_get_set)
  have keys: "dict_keys (dict_set sid ?se (sv_seats sv)) = dict_keys (sv_seats sv)"
    using se get_seat [of sv sid] by (intro dict_keys_set) simp
  have "seats_ok ?sv"
    using ok se unfolding server_ok_def seats_ok_def by (auto simp: dict_get_set split: if_splits)
  moreover have "log_ok (put_log (se_conn se) (SnapshotEvent s) ?sv)"
  proof -
    have nums: "numbers (se_conn se) (sv_log sv) = upto_number (nat (se_sequence se))" and n0: "0 \<le> se_sequence se"
      and lt: "se_conn se < sv_next_conn sv" using ok se by (auto simp: server_defs)
    have new: "numbers conn (sv_log sv @ [(se_conn se, SnapshotEvent s)])
        = (if conn = se_conn se then upto_number (nat (se_sequence se + 1)) else numbers conn (sv_log sv))" for conn
      using nums by (simp add: numbers_append sq upto_number_Suc n0)
    have uniq: "dict_get (sv_seats sv) k = Some se' \<Longrightarrow> se_conn se' = se_conn se \<Longrightarrow> k = sid" for k se'
      using ok se unfolding server_ok_def seats_ok_def by blast
    have "\<exists>n. numbers conn (sv_log sv) = upto_number n" for conn using ok by (simp add: server_defs)
    then have "\<exists>n. numbers conn (sv_log sv @ [(se_conn se, SnapshotEvent s)]) = upto_number n" for conn
      by (auto simp: new)
    moreover have "conn \<ge> sv_next_conn sv \<Longrightarrow> numbers conn (sv_log sv @ [(se_conn se, SnapshotEvent s)]) = []" for conn
      using ok lt by (auto simp: new server_defs)
    moreover have "dict_get (dict_set sid ?se (sv_seats sv)) k = Some se' \<Longrightarrow>
        numbers (se_conn se') (sv_log sv @ [(se_conn se, SnapshotEvent s)]) = upto_number (nat (se_sequence se'))" for k se'
      using ok uniq [of k se'] by (auto simp: new dict_get_set server_defs split: if_splits)
    ultimately show ?thesis by (simp add: log_ok_def put_log_def)
  qed
  ultimately have "server_ok (put_log (se_conn se) (SnapshotEvent s) ?sv)"
    using ok by (simp add: server_ok_def results_ok_def phase_ok_def produces_ok_def put_log_def seats_ok_def)
  moreover have "only_sends sv (put_log (se_conn se) (SnapshotEvent s) ?sv)"
    by (simp add: only_sends_def put_log_def keys)
  ultimately show ?thesis using eq sq by (auto simp: put_log_def)
qed

lemma foldE_send_state:
  assumes "server_ok sv" and "set ks \<subseteq> set (dict_keys (sv_seats sv))"
  shows "\<exists>sv'. foldE send_state ks sv = Inr sv' \<and> server_ok sv' \<and> only_sends sv sv'"
  using assms
proof (induction ks arbitrary: sv)
  case (Cons k ks)
  from Cons.prems(2) get_seat [of sv k] obtain se where "dict_get (sv_seats sv) k = Some se" by auto
  from send_state_ok [OF Cons.prems(1) this] obtain sv1 where
    1: "send_state k sv = Inr sv1" "server_ok sv1" "only_sends sv sv1" by blast
  moreover have "set ks \<subseteq> set (dict_keys (sv_seats sv1))" using Cons.prems(2) 1(3) by (simp add: only_sends_def)
  from Cons.IH [OF 1(2) this] obtain sv2 where "foldE send_state ks sv1 = Inr sv2" "server_ok sv2" "only_sends sv1 sv2"
    by blast
  ultimately show ?case using only_sends_trans by auto
qed simp

lemma broadcast_ok: "server_ok sv \<Longrightarrow> \<exists>sv'. broadcast sv = Inr sv' \<and> server_ok sv' \<and> only_sends sv sv'"
  unfolding broadcast_def by (rule foldE_send_state) simp_all


subsection \<open>Answers\<close>

text \<open>Sending an event that is not a snapshot.\<close>

definition silent :: "server_event \<Rightarrow> bool" where
  "silent ev \<longleftrightarrow> (\<forall>s. ev \<noteq> SnapshotEvent s)"

lemma silent_numbers: "silent ev \<Longrightarrow> numbers c [(conn, ev)] = []"
  by (cases ev) (auto simp: silent_def)

lemma silent_events [simp]: "silent (ResultEvent r)" "silent (ProtocolErrorEvent e)" "silent (ReadinessEvent a)"
  "silent (error_event sv c req b)"
  by (simp_all add: silent_def error_event_def)

lemma send_ok:
  assumes "server_ok sv" and "dict_get (sv_seats sv) sid = Some se" and "silent ev"
  shows "send sid ev sv = Inr (put_log (se_conn se) ev sv)" and "server_ok (put_log (se_conn se) ev sv)"
    and "only_sends sv (put_log (se_conn se) ev sv)"
  using assms put_log_other [OF assms(1) silent_numbers [OF assms(3)]]
  by (simp_all add: send_def seat_of_def only_sends_def put_log_def)

lemma only_sends_frames [simp]:
  "only_sends sv (sv'\<lparr>sv_stats := x\<rparr>) = only_sends sv sv'" "only_sends (sv\<lparr>sv_stats := x\<rparr>) sv' = only_sends sv sv'"
  "only_sends sv (sv'\<lparr>sv_closed := cs\<rparr>) = only_sends sv sv'" "only_sends sv (sv'\<lparr>sv_starts := n\<rparr>) = only_sends sv sv'"
  by (simp_all add: only_sends_def)

lemma send_result_ok:
  assumes "server_ok sv" and "dict_get (sv_seats sv) sid = Some se"
  shows "\<exists>sv'. send_result sid r sv = Inr sv' \<and> server_ok sv' \<and> only_sends sv sv'
    \<and> sv_log sv' = sv_log sv @ [(se_conn se, ResultEvent r)]"
proof -
  let ?sv = "sv\<lparr>sv_stats := (sv_stats sv)\<lparr>ss_results := count_key (ss_results (sv_stats sv)) (result_code_name (code r))\<rparr>\<rparr>"
  have "server_ok ?sv" "dict_get (sv_seats ?sv) sid = Some se" using assms by simp_all
  note send_ok [OF this, of "ResultEvent r"]
  then show ?thesis by (simp add: send_result_def) (simp add: put_log_def)
qed

lemma send_error_ok:
  assumes "server_ok sv" and "dict_get (sv_seats sv) sid = Some se"
  shows "\<exists>sv'. send_error sid c req close sv = Inr sv' \<and> server_ok sv' \<and> only_sends sv sv'"
proof -
  let ?sv = "sv\<lparr>sv_stats := (sv_stats sv)\<lparr>ss_protocol_errors :=
          count_key (ss_protocol_errors (sv_stats sv)) (control_code_name c)\<rparr>\<rparr>"
  have "server_ok ?sv" "dict_get (sv_seats ?sv) sid = Some se" using assms by simp_all
  note send_ok [OF this, of "error_event sv c req close"]
  with assms(2) show ?thesis by (cases close) (simp_all add: send_error_def seat_of_def close_conn_def)
qed

lemma seat_after: "only_sends sv sv' \<Longrightarrow> dict_get (sv_seats sv) sid \<noteq> None \<Longrightarrow> \<exists>se. dict_get (sv_seats sv') sid = Some se"
  using get_seat [of sv sid] get_seat [of sv' sid] by (auto simp: only_sends_def)

subsection \<open>Commands\<close>

lemma server_ok_economy:
  assumes "server_ok sv" and "economy_ok e" and "same_world (sv_economy sv) e" and "sv_phase sv \<noteq> FINISHED"
  shows "server_ok (sv\<lparr>sv_economy := e\<rparr>)"
  using assms by (auto simp: server_defs same_world_def)

lemma server_ok_store:
  assumes ok: "server_ok sv" and d: "dict_get (sv_results sv) sid = Some d" and new: "dict_get d req = None"
    and room: "int (length d) < max_request_records_per_station (ec_rules (sv_economy sv))"
    and x: "request_id (sr_result x) = req"
  shows "server_ok (sv\<lparr>sv_results := dict_set sid (dict_set req x d) (sv_results sv)\<rparr>)"
proof -
  have "length (dict_set req x d) = length d + 1"
    using new by (induction d) (auto split: if_splits)
  moreover have "dict_ok d" "\<And>q y. dict_get d q = Some y \<Longrightarrow> request_id (sr_result y) = q"
    using ok d by (auto simp: server_defs)
  ultimately have "results_ok (sv\<lparr>sv_results := dict_set sid (dict_set req x d) (sv_results sv)\<rparr>)"
    using ok room x by (auto simp: server_ok_def results_ok_def dict_get_set split: if_splits)
  with ok show ?thesis by (simp add: server_ok_def seats_ok_def log_ok_def phase_ok_def produces_ok_def)
qed

text \<open>Progress of a server: stored results stay, the log only grows.\<close>

definition grows :: "server \<Rightarrow> server \<Rightarrow> bool" where
  "grows sv sv' \<longleftrightarrow> (\<forall>k d req x. dict_get (sv_results sv) k = Some d \<longrightarrow> dict_get d req = Some x \<longrightarrow>
        (\<exists>d'. dict_get (sv_results sv') k = Some d' \<and> dict_get d' req = Some x))
     \<and> (\<exists>l. sv_log sv' = sv_log sv @ l)"

lemma grows_refl [simp]: "grows sv sv"
  by (auto simp: grows_def)

lemma grows_trans: "grows a b \<Longrightarrow> grows b c \<Longrightarrow> grows a c"
  unfolding grows_def by (metis append.assoc)

lemma grows_same: "sv_results sv' = sv_results sv \<Longrightarrow> sv_log sv' = sv_log sv @ l \<Longrightarrow> grows sv sv'"
  by (auto simp: grows_def)

lemma only_sends_grows: "only_sends sv sv' \<Longrightarrow> grows sv sv'"
  by (auto simp: only_sends_def intro: grows_same)

lemma process_command_ok:
  assumes ok: "server_ok sv" and se: "dict_get (sv_seats sv) sid = Some se"
    and d: "dict_get (sv_results sv) sid = Some d" and new: "dict_get d req = None"
    and room: "int (length d) < max_request_records_per_station (ec_rules (sv_economy sv))"
  shows "\<exists>sv'. process_command sid req knd a fp sv = Inr sv' \<and> server_ok sv' \<and> grows sv sv' \<and> sv_phase sv' = sv_phase sv
    \<and> (sv_phase sv \<noteq> RUNNING \<longrightarrow> sv_economy sv' = sv_economy sv)"
proof -
  let ?sv1 = "sv\<lparr>sv_stats := (sv_stats sv)\<lparr>ss_commands := count_key (ss_commands (sv_stats sv)) knd\<rparr>\<rparr>"
  have eok: "economy_ok (sv_economy sv)" and k: "known (sv_economy sv) sid" using ok se by (auto simp: server_defs)
  obtain c e where x: "(if sv_phase ?sv1 \<noteq> RUNNING then Inr (refused RUN_NOT_RUNNING, sv_economy ?sv1)
      else execute sid a (sv_economy ?sv1)) = Inr (c, e)"
    and e: "economy_ok e" "same_world (sv_economy sv) e"
    and idle: "sv_phase sv \<noteq> RUNNING \<Longrightarrow> e = sv_economy sv \<and> co_code c \<noteq> RES_OK"
  proof (cases "sv_phase sv = RUNNING")
    case True
    then show ?thesis
      using that execute_spec [OF eok k, of a] execute_same_world [OF eok, of sid a] by fastforce
  next
    case False
    then show ?thesis using that [of "refused RUN_NOT_RUNNING" "sv_economy sv"] eok
      by (simp add: refused_def same_world_def)
  qed
  define e2 where "e2 = (if co_code c = RES_OK then e\<lparr>ec_world_version := ec_world_version e + 1\<rparr> else e)"
  have e2: "economy_ok e2" "same_world (sv_economy sv) e2" using e by (auto simp: e2_def same_world_def)
  let ?sv2 = "?sv1\<lparr>sv_economy := e2\<rparr>"
  let ?r = "make_result ?sv2 req (co_code c) (co_object_id c) (co_transaction_id c)"
  let ?sv3 = "?sv2\<lparr>sv_results := dict_set sid (dict_set req \<lparr>sr_fingerprint = fp, sr_result = ?r\<rparr> d) (sv_results sv)\<rparr>"
  have "server_ok ?sv2"
  proof (cases "sv_phase sv = RUNNING")
    case True
    then show ?thesis using server_ok_economy [of ?sv1 e2] ok e2 by simp
  next
    case False
    then have "?sv2 = ?sv1" using idle by (simp add: e2_def)
    then show ?thesis using ok by simp
  qed
  moreover have "ec_rules e2 = ec_rules (sv_economy sv)" using e2(2) by (simp add: same_world_def)
  ultimately have ok3: "server_ok ?sv3"
    using server_ok_store [of ?sv2 sid d req] d new room by (simp add: make_result_def)
  obtain sv4 where 4: "send_result sid ?r ?sv3 = Inr sv4" "server_ok sv4" "only_sends ?sv3 sv4"
    using send_result_ok [OF ok3, of sid] se by auto
  obtain sv5 where 5: "broadcast sv4 = Inr sv5" "server_ok sv5" "only_sends sv4 sv5"
    using broadcast_ok [OF 4(2)] by blast
  have "process_command sid req knd a fp sv = Inr sv5"
    using d x 4(1) 5(1) unfolding process_command_def stored_of_def e2_def Let_def by simp
  moreover have "grows sv ?sv3" using d new by (auto simp: grows_def dict_get_set)
  then have "grows sv sv5" using only_sends_grows [OF 4(3)] only_sends_grows [OF 5(3)] grows_trans by blast
  moreover have "sv_phase sv \<noteq> RUNNING \<Longrightarrow> sv_economy sv5 = sv_economy sv"
    using 4(3) 5(3) idle by (simp add: only_sends_def e2_def)
  moreover have "sv_phase sv5 = sv_phase sv" using 4(3) 5(3) by (simp add: only_sends_def)
  ultimately show ?thesis using 5(2) by blast
qed

lemma command_ok:
  assumes ok: "server_ok sv" and se: "dict_get (sv_seats sv) sid = Some se"
  shows "\<exists>sv'. command sid req knd a fp sv = Inr sv' \<and> server_ok sv' \<and> grows sv sv' \<and> sv_phase sv' = sv_phase sv
    \<and> (sv_phase sv \<noteq> RUNNING \<longrightarrow> sv_economy sv' = sv_economy sv)"
proof -
  obtain d where d: "dict_get (sv_results sv) sid = Some d" using seat_known(2) [OF ok se] by blast
  show ?thesis
  proof (cases "dict_get d req")
    case None
    show ?thesis
    proof (cases "int (length d) \<ge> max_request_records_per_station (ec_rules (sv_economy sv))")
      case True
      with send_error_ok [OF ok se, of REQUEST_CAPACITY_EXCEEDED "Some req" False] d None show ?thesis
        by (auto simp: command_def stored_of_def only_sends_grows) (auto simp: only_sends_def)
    next
      case False
      with process_command_ok [OF ok se d None] d None show ?thesis by (simp add: command_def stored_of_def)
    qed
  next
    case (Some previous)
    show ?thesis
    proof (cases "sr_fingerprint previous = fp")
      case True
      obtain sv1 where s1: "send sid (ResultEvent (sr_result previous)) sv = Inr sv1" "server_ok sv1" "only_sends sv sv1"
        using send_ok [OF ok se, of "ResultEvent (sr_result previous)"] by simp
      obtain se1 where "dict_get (sv_seats sv1) sid = Some se1" using seat_after [OF s1(3)] se by auto
      from send_state_ok [OF s1(2) this] obtain sv2 where s2: "send_state sid sv1 = Inr sv2" "server_ok sv2" "only_sends sv1 sv2"
        by blast
      have "only_sends sv sv2" by (rule only_sends_trans [OF s1(3) s2(3)])
      with d Some True s1 s2 show ?thesis
        by (auto simp: command_def stored_of_def only_sends_grows) (auto simp: only_sends_def)
    next
      case False
      with send_result_ok [OF ok se, of "make_result sv req REQUEST_ID_CONFLICT None None"] d Some show ?thesis
        by (auto simp: command_def stored_of_def only_sends_grows) (auto simp: only_sends_def)
    qed
  qed
qed

subsection \<open>Every message\<close>

text \<open>What \<open>decode_client_message\<close> promises of a command.\<close>

definition decoded :: "bad_message + client_command \<Rightarrow> bool" where
  "decoded msg \<longleftrightarrow> (\<forall>c. msg = Inr c \<longrightarrow> cc_kind c \<noteq> ''ready'' \<longrightarrow> cc_kind c \<noteq> ''sync'' \<longrightarrow>
     cc_action c \<noteq> None \<and> cc_request_id c \<noteq> None)"

lemma decode_decoded: "decoded (decode_client_message parse digest payload)"
proof -
  have "client_command_of digest m = Inr c \<Longrightarrow> cc_kind c \<noteq> ''ready'' \<Longrightarrow> cc_kind c \<noteq> ''sync'' \<Longrightarrow>
      cc_action c \<noteq> None \<and> cc_request_id c \<noteq> None" for m c
    by (cases m) (auto simp: plain_command_def action_command_def Let_def split: sum.splits)
  then show ?thesis
    by (auto simp: decoded_def decode_client_message_def split: option.splits if_splits)
qed

lemma on_message_ok:
  assumes ok: "server_ok sv" and se: "dict_get (sv_seats sv) sid = Some se" and msg: "decoded msg"
  shows "\<exists>b sv'. on_message sid msg sv = Inr (b, sv') \<and> server_ok sv' \<and> grows sv sv' \<and> sv_phase sv' = sv_phase sv
    \<and> (sv_phase sv \<noteq> RUNNING \<or> \<not> se_ready se \<longrightarrow> sv_economy sv' = sv_economy sv)"
proof (cases msg)
  case (Inl bad)
  obtain req where "bad = BadMessage req" by (cases bad)
  with Inl send_error_ok [OF ok se, of BAD_MESSAGE req False] show ?thesis
    by (auto simp: on_message_def only_sends_grows) (auto simp: only_sends_def)
next
  case (Inr c)
  have err: "\<exists>sv'. send_error sid code (cc_request_id c) cl sv = Inr sv' \<and> server_ok sv' \<and> grows sv sv' \<and> sv_phase sv' = sv_phase sv \<and> sv_economy sv' = sv_economy sv" for code cl
    using send_error_ok [OF ok se, of code "cc_request_id c" cl] only_sends_grows by (fastforce simp: only_sends_def)
  consider (refuse) "cc_protocol_version c \<noteq> PROTOCOL_VERSION \<or> cc_run_id c \<noteq> ec_run_id (sv_economy sv)"
    | (ready) "cc_protocol_version c = PROTOCOL_VERSION" "cc_run_id c = ec_run_id (sv_economy sv)" "cc_kind c = ''ready''"
    | (sync) "cc_protocol_version c = PROTOCOL_VERSION" "cc_run_id c = ec_run_id (sv_economy sv)" "cc_kind c = ''sync''"
    | (other) "cc_protocol_version c = PROTOCOL_VERSION" "cc_run_id c = ec_run_id (sv_economy sv)"
        "cc_kind c \<noteq> ''ready''" "cc_kind c \<noteq> ''sync''" by blast
  then show ?thesis
  proof cases
    case refuse
    with err [of UNSUPPORTED_VERSION True] err [of RUN_MISMATCH True] show ?thesis
      by (auto simp: on_message_def Inr)
  next
    case ready
    let ?se = "se\<lparr>se_ready := (cc_ready c = Some True)\<rparr>"
    let ?sv = "sv\<lparr>sv_seats := dict_set sid ?se (sv_seats sv)\<rparr>"
    have "seats_ok ?sv" using ok se unfolding server_ok_def seats_ok_def by (auto simp: dict_get_set split: if_splits)
    moreover have "log_ok ?sv" using ok se by (auto simp: server_ok_def log_ok_def dict_get_set split: if_splits)
    ultimately have ok1: "server_ok ?sv"
      using ok by (simp add: server_ok_def results_ok_def phase_ok_def produces_ok_def)
    have se1: "dict_get (sv_seats ?sv) sid = Some ?se" by (simp add: dict_get_set)
    let ?ack = "ReadinessEvent \<lparr>ack_run_id = ec_run_id (sv_economy ?sv), ack_ready = se_ready ?se,
                 ack_snapshot_sequence = (case cc_snapshot_sequence c of None \<Rightarrow> 0 | Some n \<Rightarrow> n)\<rparr>"
    note s = send_ok [OF ok1 se1, of ?ack]
    have "on_message sid msg sv = Inr (True, maybe_start (put_log (se_conn ?se) ?ack ?sv))"
      using ready se s(1) by (simp add: on_message_def Inr seat_of_def Let_def)
    moreover have "server_ok (maybe_start (put_log (se_conn ?se) ?ack ?sv))"
      using s(2) by (simp add: maybe_start_def Let_def)
    moreover have "sv_economy (maybe_start (put_log (se_conn ?se) ?ack ?sv)) = sv_economy sv"
      "sv_phase (maybe_start (put_log (se_conn ?se) ?ack ?sv)) = sv_phase sv"
      by (simp_all add: put_log_def maybe_start_def Let_def)
    moreover have "grows sv (maybe_start (put_log (se_conn ?se) ?ack ?sv))"
      by (rule grows_same [where l = "[(se_conn ?se, ?ack)]"]) (simp_all add: put_log_def maybe_start_def Let_def)
    ultimately show ?thesis by blast
  next
    case sync
    with send_state_ok [OF ok se] se show ?thesis
      by (auto simp: on_message_def Inr seat_of_def only_sends_grows) (auto simp: only_sends_def)
  next
    case other
    with msg Inr obtain a req where ar: "cc_action c = Some a" "cc_request_id c = Some req"
      by (auto simp: decoded_def)
    show ?thesis
    proof (cases "se_ready se")
      case True
      with command_ok [OF ok se, of req "cc_kind c" a "cc_fingerprint c"] other ar se show ?thesis
        by (auto simp: on_message_def Inr seat_of_def)
    next
      case False
      with err [of BAD_MESSAGE False] other ar se show ?thesis by (auto simp: on_message_def Inr seat_of_def)
    qed
  qed
qed


subsection \<open>Connections and time\<close>

lemma connect_ok:
  assumes ok: "server_ok sv" and k: "known (sv_economy sv) sid"
  shows "\<exists>sv'. connect sid sv = Inr sv' \<and> server_ok sv' \<and> grows sv sv' \<and> sv_phase sv' = sv_phase sv \<and> sv_economy sv' = sv_economy sv"
proof -
  define sv1 where "sv1 = (case dict_get (sv_seats sv) sid of None \<Rightarrow> sv
     | Some previous \<Rightarrow> close_conn (se_conn previous)
         (put_log (se_conn previous) (error_event sv SESSION_FENCED None True) sv))"
  have ok1: "server_ok sv1"
    using ok put_log_other [OF ok silent_numbers [OF silent_events(4)]]
    by (auto simp: sv1_def close_conn_def split: option.splits)
  have f: "sv_seats sv1 = sv_seats sv" "sv_results sv1 = sv_results sv" "sv_economy sv1 = sv_economy sv"
      "sv_phase sv1 = sv_phase sv"
    and lg: "\<exists>l. sv_log sv1 = sv_log sv @ l"
    by (auto simp: sv1_def close_conn_def put_log_def split: option.splits)
  let ?se = "\<lparr>se_conn = sv_next_conn sv1, se_sequence = 0, se_ready = False\<rparr>"
  let ?sv2 = "sv1\<lparr>sv_seats := dict_set sid ?se (sv_seats sv1), sv_next_conn := sv_next_conn sv1 + 1,
                  sv_stats := (sv_stats sv1)\<lparr>ss_connections := ss_connections (sv_stats sv1) + 1\<rparr>\<rparr>"
  have lt: "dict_get (sv_seats sv1) k' = Some se' \<Longrightarrow> se_conn se' < sv_next_conn sv1" for k' se'
    using ok1 by (simp add: server_ok_def seats_ok_def)
  have "seats_ok ?sv2"
    using ok1 k unfolding server_ok_def seats_ok_def f(3) [symmetric]
    by (auto simp: dict_get_set less_Suc_eq split: if_splits dest: lt)
  moreover have "log_ok ?sv2"
    using ok1 by (auto simp: server_ok_def log_ok_def dict_get_set split: if_splits)
  ultimately have ok2: "server_ok ?sv2"
    using ok1 by (simp add: server_ok_def results_ok_def phase_ok_def produces_ok_def)
  have "dict_get (sv_seats ?sv2) sid = Some ?se" by (simp add: dict_get_set)
  from send_state_ok [OF ok2 this] obtain sv3 where 3: "send_state sid ?sv2 = Inr sv3" "server_ok sv3" "only_sends ?sv2 sv3"
    by blast
  have "connect sid sv = Inr sv3" using 3(1) by (simp add: connect_def Let_def sv1_def)
  moreover from lg obtain l where "sv_log sv1 = sv_log sv @ l" by blast
  then have "grows sv ?sv2" using f by (intro grows_same) simp_all
  then have "grows sv sv3" using only_sends_grows [OF 3(3)] by (rule grows_trans)
  moreover have "sv_phase sv3 = sv_phase sv" "sv_economy sv3 = sv_economy sv"
    using 3(3) f by (simp_all add: only_sends_def)
  ultimately show ?thesis using 3(2) by blast
qed

lemma disconnect_ok:
  assumes ok: "server_ok sv"
  shows "server_ok (disconnect sid conn sv)" and "grows sv (disconnect sid conn sv)"
    and "sv_economy (disconnect sid conn sv) = sv_economy sv" and "sv_phase (disconnect sid conn sv) = sv_phase sv"
proof -
  let ?sv = "sv\<lparr>sv_seats := dict_pop sid (sv_seats sv)\<rparr>"
  have "seats_ok ?sv" using ok unfolding server_ok_def seats_ok_def by (auto simp: dict_get_pop split: if_splits)
  moreover have "log_ok ?sv" using ok by (auto simp: server_ok_def log_ok_def dict_get_pop split: if_splits)
  ultimately have "server_ok ?sv" using ok by (simp add: server_ok_def results_ok_def phase_ok_def produces_ok_def)
  then have "server_ok (?sv\<lparr>sv_claimed := cl\<rparr>)" for cl by simp
  then show "server_ok (disconnect sid conn sv)" using ok by (simp add: disconnect_def split: option.splits)
  show "grows sv (disconnect sid conn sv)" "sv_economy (disconnect sid conn sv) = sv_economy sv"
    "sv_phase (disconnect sid conn sv) = sv_phase sv"
    by (simp_all add: disconnect_def grows_def split: option.splits)
qed

lemma start_run_ok:
  assumes ok: "server_ok sv"
  shows "\<exists>sv'. start_run sv = Inr sv' \<and> server_ok sv' \<and> grows sv sv'"
proof (cases "sv_phase sv = READY")
  case True
  let ?sv = "sv\<lparr>sv_phase := RUNNING,
             sv_economy := (sv_economy sv)\<lparr>ec_world_version := ec_world_version (sv_economy sv) + 1\<rparr>\<rparr>"
  have "server_ok ?sv" using ok by (simp add: server_defs)
  from broadcast_ok [OF this] obtain sv' where "broadcast ?sv = Inr sv'" "server_ok sv'" "only_sends ?sv sv'" by blast
  moreover from this(3) have "grows ?sv sv'" by (rule only_sends_grows)
  then have "grows sv sv'" by (simp add: grows_def)
  ultimately show ?thesis using True by (simp add: start_run_def)
qed (use ok in \<open>simp add: start_run_def\<close>)

lemma apply_production_ok:
  assumes "economy_ok (sv_economy sv)" and "produces_ok sv"
  shows "economy_ok (sv_economy (apply_production sv))" and "same_world (sv_economy sv) (sv_economy (apply_production sv))"
  using assms set_productions_ok [OF assms(1)]
  by (auto simp: apply_production_def produces_ok_def split: option.split)

lemma apply_production_frame: "apply_production sv = sv\<lparr>sv_economy := sv_economy (apply_production sv)\<rparr>"
  by (simp add: apply_production_def split: option.split)

lemma server_ok_world:
  assumes "server_ok sv" and "economy_ok e" and "same_world (sv_economy sv) e"
    and "ph = FINISHED \<Longrightarrow> ec_finished e \<and> ec_ads e = [] \<and> (\<forall>o' \<in> set (ec_offers e). offer_status o' \<noteq> OPEN)"
  shows "server_ok (sv\<lparr>sv_economy := e, sv_phase := ph\<rparr>)"
  using assms by (auto simp: server_defs same_world_def)

lemma end_run_same_world:
  assumes "economy_ok e"
  shows "same_world e (end_run e)" and "ec_finished (end_run e) = ec_finished e"
  by (simp_all add: end_run_eq [OF assms] same_world_def known_def ec_finished_def)

lemma apply_production_finished: "ec_finished (sv_economy (apply_production sv)) = ec_finished (sv_economy sv)"
  by (simp add: apply_production_def ec_finished_def split: option.split)

lemma advance_ok:
  assumes ok: "server_ok sv"
  shows "\<exists>sv'. advance sv = Inr sv' \<and> server_ok sv' \<and> grows sv sv'"
proof (cases "sv_phase sv = RUNNING")
  case True
  have eok: "economy_ok (sv_economy sv)" and pok: "produces_ok sv" using ok by (simp_all add: server_ok_def)
  obtain e1 where e1: "advance_tick (sv_economy sv) = Inr e1" "economy_ok e1"
    using advance_tick_ok [OF eok] by blast
  let ?sv1 = "sv\<lparr>sv_economy := e1\<rparr>"
  define e2 where "e2 = sv_economy (apply_production ?sv1)"
  have e2: "economy_ok e2" "same_world e1 e2"
    using apply_production_ok [of ?sv1] e1(2) pok by (simp_all add: e2_def produces_ok_def)
  have sw2: "same_world (sv_economy sv) e2"
    by (rule same_world_trans [OF advance_tick_same_world [OF eok e1(1)] e2(2)])
  have p: "apply_production ?sv1 = sv\<lparr>sv_economy := e2\<rparr>"
    using apply_production_frame [of ?sv1] by (simp add: e2_def)
  define sv2 where "sv2 = (if ec_finished e2 then sv\<lparr>sv_economy := end_run e2, sv_phase := FINISHED\<rparr> else sv\<lparr>sv_economy := e2\<rparr>)"
  have "server_ok sv2"
  proof (cases "ec_finished e2")
    case fin: True
    show ?thesis
      unfolding sv2_def if_P [OF fin]
      by (rule server_ok_world [OF ok end_run_ok(1) [OF e2(1)] same_world_trans [OF sw2 end_run_same_world(1) [OF e2(1)]]])
         (use end_run_ok(2,3) [OF e2(1)] end_run_same_world(2) [OF e2(1)] fin in blast)
  next
    case False
    with server_ok_economy [OF ok e2(1) sw2] True show ?thesis by (simp add: sv2_def)
  qed
  from broadcast_ok [OF this] obtain sv3 where b: "broadcast sv2 = Inr sv3" "server_ok sv3" "only_sends sv2 sv3" by blast
  have adv: "advance sv = (if ec_finished e2 then Inr (sv3\<lparr>sv_finished := True\<rparr>) else Inr sv3)"
    using True b(1) by (cases "ec_finished e2") (simp_all add: advance_def e1(1) p sv2_def)
  have "grows sv sv2" by (rule grows_same [where l = "[]"]) (simp_all add: sv2_def)
  with only_sends_grows [OF b(3)] have "grows sv sv3" by (rule grows_trans [rotated])
  moreover from this have "grows sv (sv3\<lparr>sv_finished := True\<rparr>)" by (simp add: grows_def)
  ultimately show ?thesis using b(2) unfolding adv by auto
qed (use ok in \<open>simp add: advance_def\<close>)


subsection \<open>Reachable servers\<close>

lemma server_init_ok:
  assumes "economy_ok e" and "\<And>p t i. production = Some p \<Longrightarrow> 0 \<le> p t i"
  shows "server_ok (server_init e tokens open_auth start_when production)"
proof -
  define sv0 where "sv0 = \<lparr>sv_economy = e, sv_tokens = tokens, sv_open_auth = open_auth,
      sv_start_when = (case start_when of None \<Rightarrow> int (length (ec_stations e)) | Some n \<Rightarrow> n),
      sv_production = production, sv_phase = READY, sv_seats = [],
      sv_results = map (\<lambda>k. (k, [])) (dict_keys (ec_stations e)),
      sv_stats = \<lparr>ss_commands = [], ss_results = [], ss_protocol_errors = [], ss_connections = 0\<rparr>,
      sv_finished = False, sv_claimed = {}, sv_starts = 0, sv_next_conn = 0, sv_log = [], sv_closed = []\<rparr>"
  have r: "dict_get (map ((\<lambda>k. (k, [])) \<circ> fst) d) k = (if k \<in> fst ` set d then Some [] else None)" for k d
    by (induction d) auto
  have mem: "known e k \<longleftrightarrow> k \<in> set (dict_keys (ec_stations e))" for k
    by (simp add: known_def map_of_eq_None_iff)
  have "results_ok sv0" by (auto simp: results_ok_def sv0_def r mem)
  moreover have "seats_ok sv0" "phase_ok sv0" by (simp_all add: seats_ok_def phase_ok_def sv0_def)
  moreover have "log_ok sv0" by (auto simp: log_ok_def sv0_def intro: exI [of _ 0])
  moreover have pok: "produces_ok sv0" using assms(2) by (simp add: produces_ok_def sv0_def)
  ultimately have "server_ok sv0" using assms(1) by (simp add: server_ok_def sv0_def)
  moreover have "economy_ok (sv_economy (apply_production sv0))" "same_world (sv_economy sv0) (sv_economy (apply_production sv0))"
    using apply_production_ok [of sv0] assms(1) pok by (simp_all add: sv0_def)
  ultimately have "server_ok (sv0\<lparr>sv_economy := sv_economy (apply_production sv0)\<rparr>)"
    by (rule server_ok_economy) (simp add: sv0_def)
  then show ?thesis using apply_production_frame [of sv0] by (simp add: server_init_def sv0_def)
qed

text \<open>One event: a connection of an authenticated station, its end, a frame, a scheduled start, a tick.\<close>

inductive server_step :: "server \<Rightarrow> server \<Rightarrow> bool" where
  step_auth: "authenticate offered header sv = (reply, sv') \<Longrightarrow> server_step sv sv'"
| step_connect: "known (sv_economy sv) sid \<Longrightarrow> connect sid sv = Inr sv' \<Longrightarrow> server_step sv sv'"
| step_disconnect: "server_step sv (disconnect sid conn sv)"
| step_message: "dict_get (sv_seats sv) sid = Some se \<Longrightarrow> decoded msg \<Longrightarrow> on_message sid msg sv = Inr (b, sv')
    \<Longrightarrow> server_step sv sv'"
| step_text: "dict_get (sv_seats sv) sid = Some se \<Longrightarrow> on_text_frame sid sv = Inr sv' \<Longrightarrow> server_step sv sv'"
| step_start: "start_run sv = Inr sv' \<Longrightarrow> server_step sv sv'"
| step_advance: "advance sv = Inr sv' \<Longrightarrow> server_step sv sv'"

inductive server_reach :: "server \<Rightarrow> server \<Rightarrow> bool" where
  sreach_refl: "server_reach sv sv"
| sreach_step: "server_reach sv sv' \<Longrightarrow> server_step sv' sv'' \<Longrightarrow> server_reach sv sv''"

lemma authenticate_ok:
  assumes "authenticate offered header sv = (reply, sv')"
  shows "\<exists>cl. sv' = sv\<lparr>sv_claimed := cl\<rparr>"
  using assms by (auto simp: authenticate_def Let_def split: if_splits list.splits option.splits intro: exI [of _ "sv_claimed sv"])

lemma server_step_ok:
  assumes "server_step sv sv'" and "server_ok sv"
  shows "server_ok sv' \<and> grows sv sv'"
  using assms
proof (cases rule: server_step.cases)
  case (step_auth offered header reply)
  from authenticate_ok [OF this] obtain cl where "sv' = sv\<lparr>sv_claimed := cl\<rparr>" by blast
  with assms(2) show ?thesis by (simp add: grows_def)
next
  case (step_connect sid)
  with connect_ok [OF assms(2), of sid] show ?thesis by auto
next
  case (step_disconnect sid conn)
  with disconnect_ok [OF assms(2)] show ?thesis by simp
next
  case (step_message sid se msg b)
  with on_message_ok [OF assms(2)] show ?thesis by fastforce
next
  case (step_text sid se)
  with send_error_ok [OF assms(2), of sid se BAD_MESSAGE None False] show ?thesis
    by (auto simp: on_text_frame_def only_sends_grows)
next
  case step_start
  with start_run_ok [OF assms(2)] show ?thesis by auto
next
  case step_advance
  with advance_ok [OF assms(2)] show ?thesis by auto
qed

lemma server_reach_ok:
  assumes "server_reach sv sv'" and "server_ok sv"
  shows "server_ok sv' \<and> grows sv sv'"
  using assms by (induction rule: server_reach.induct) (auto dest: server_step_ok intro: grows_trans)

text \<open>A finished run stays finished, and nothing changes its economy any more.\<close>

lemma server_step_finished:
  assumes "server_step sv sv'" and ok: "server_ok sv" and fin: "sv_phase sv = FINISHED"
  shows "sv_phase sv' = FINISHED \<and> sv_economy sv' = sv_economy sv"
  using assms(1)
proof (cases rule: server_step.cases)
  case (step_auth offered header reply)
  from authenticate_ok [OF this] obtain cl where "sv' = sv\<lparr>sv_claimed := cl\<rparr>" by blast
  with fin show ?thesis by simp
next
  case (step_connect sid)
  with connect_ok [OF ok, of sid] fin show ?thesis by auto
next
  case (step_disconnect sid conn)
  with disconnect_ok [OF ok] fin show ?thesis by simp
next
  case (step_message sid se msg b)
  with on_message_ok [OF ok step_message(1,2)] fin show ?thesis by auto
next
  case (step_text sid se)
  with send_error_ok [OF ok step_text(1), of BAD_MESSAGE None False] fin show ?thesis
    by (auto simp: on_text_frame_def only_sends_def)
next
  case step_start
  with fin show ?thesis by (simp add: start_run_def)
next
  case step_advance
  with fin show ?thesis by (simp add: advance_def)
qed

lemma server_reach_finished:
  assumes "server_reach sv sv'" and "server_ok sv" and "sv_phase sv = FINISHED"
  shows "sv_phase sv' = FINISHED \<and> sv_economy sv' = sv_economy sv"
  using assms
proof (induction rule: server_reach.induct)
  case (sreach_step sv sv' sv'')
  with server_step_finished [OF sreach_step.hyps(2)] server_reach_ok [OF sreach_step.hyps(1)] show ?case by auto
qed simp

end
