(* ===== verification/Economy_Safety.thy ===== *)
theory Economy_Safety
  imports Economy_Ledger
begin

text \<open>
  What the simulated server guarantees, stated as claims over every world that commands, ticks,
  observations and the end of the run can reach from an opening roster, with two stations that
  trade and a station that starves as their concrete instances.
\<close>

subsection \<open>Concrete worlds\<close>

definition demo_world :: economy where
  "demo_world = economy_init
     [sim_station_new ''P01'' WATER (Bundle 9 2 2) 4, sim_station_new ''P02'' FOOD (Bundle 1 9 2) 3]
     DEFAULT_RULES ''sim''"

definition after :: "(command_outcome \<times> economy) result \<Rightarrow> economy" where
  "after r = (case r of Inr (_, e) \<Rightarrow> e | Inl _ \<Rightarrow> demo_world)"

definition next_tick :: "economy \<Rightarrow> economy" where
  "next_tick e = (case advance_tick e of Inr e' \<Rightarrow> e' | Inl _ \<Rightarrow> e)"

definition demo_posted :: economy where
  "demo_posted = after (execute ''P01'' (OfferAction ''P02'' (Bundle 3 0 0) (Bundle 0 3 0) 5) demo_world)"

definition demo_settled :: economy where
  "demo_settled = after (execute ''P02'' (AcceptAction ''offer-1'') demo_posted)"

text \<open>A station without stock or production of what it needs, whose health is one hit from zero.\<close>

definition demo_starving :: economy where
  "demo_starving = economy_init
     [(sim_station_new ''P01'' WATER (Bundle 0 0 0) 1)\<lparr>st_health := 10\<rparr>,
      sim_station_new ''P02'' FOOD (Bundle 9 9 9) 1] DEFAULT_RULES ''sim''"

lemma demo_rules_ok: "rules_ok DEFAULT_RULES"
  by (simp add: rules_ok_def DEFAULT_RULES_def)

lemma demo_world_ok: "economy_ok demo_world"
  unfolding demo_world_def
  by (rule economy_init_ok [OF demo_rules_ok])
     (auto simp: station_ok_def sim_station_new_def DEFAULT_RULES_def)

lemma demo_starving_ok: "economy_ok demo_starving"
  unfolding demo_starving_def
  by (rule economy_init_ok [OF demo_rules_ok])
     (auto simp: station_ok_def sim_station_new_def DEFAULT_RULES_def)

lemma demo_post: "\<exists>c. execute ''P01'' (OfferAction ''P02'' (Bundle 3 0 0) (Bundle 0 3 0) 5) demo_world
    = Inr (c, demo_posted) \<and> co_ok c"
  and demo_settle: "\<exists>c. execute ''P02'' (AcceptAction ''offer-1'') demo_posted = Inr (c, demo_settled) \<and> co_ok c"
proof -
  have "(case execute ''P01'' (OfferAction ''P02'' (Bundle 3 0 0) (Bundle 0 3 0) 5) demo_world of
      Inr (c, e) \<Rightarrow> co_ok c | _ \<Rightarrow> False)" by code_simp
  then show "\<exists>c. execute ''P01'' (OfferAction ''P02'' (Bundle 3 0 0) (Bundle 0 3 0) 5) demo_world
    = Inr (c, demo_posted) \<and> co_ok c"
    by (auto simp: demo_posted_def after_def split: sum.splits prod.splits)
  have "(case execute ''P02'' (AcceptAction ''offer-1'') demo_posted of
      Inr (c, e) \<Rightarrow> co_ok c | _ \<Rightarrow> False)" by code_simp
  then show "\<exists>c. execute ''P02'' (AcceptAction ''offer-1'') demo_posted = Inr (c, demo_settled) \<and> co_ok c"
    by (auto simp: demo_settled_def after_def split: sum.splits prod.splits)
qed

lemma demo_known: "known demo_world ''P01''" "known demo_posted ''P02''" "known demo_starving ''P01''"
proof -
  have "''P01'' \<in> set (dict_keys (ec_stations demo_world))" "''P02'' \<in> set (dict_keys (ec_stations demo_posted))"
    "''P01'' \<in> set (dict_keys (ec_stations demo_starving))" by code_simp+
  then show "known demo_world ''P01''" "known demo_posted ''P02''" "known demo_starving ''P01''"
    by (auto simp: known_def map_of_eq_None_iff)
qed

lemma demo_reach_posted: "econ_reach demo_world demo_posted"
  using demo_post demo_known(1) reach_step [OF reach_refl econ_execute] by blast

lemma demo_reach: "econ_reach demo_world demo_settled"
  using demo_settle demo_known(2) reach_step [OF demo_reach_posted econ_execute] by blast

lemma next_tick_step:
  assumes "economy_ok e"
  shows "advance_tick e = Inr (next_tick e)" and "econ_reach e (next_tick e)"
proof -
  show "advance_tick e = Inr (next_tick e)"
    using advance_tick_ok [OF assms] by (auto simp: next_tick_def)
  then show "econ_reach e (next_tick e)" by (intro reach_step [OF reach_refl] econ_tick)
qed


subsection \<open>Claims\<close>

text \<open>
  C7: every world the simulated server can reach from an opening roster is well formed: health
  stays between 0 and its maximum, health 0 implies a recorded first failure, shortage counters
  are consistent, offer identifiers never repeat, every open offer is between two distinct live
  stations and not yet due, no station exceeds its open offers or its commands per tick, and each
  live station has at most one unexpired advertisement.
\<close>

theorem reachable_worlds_well_formed:
  assumes "rules_ok rs" and "\<forall>st \<in> set sts. station_ok rs (st_station_id st) st"
    and "econ_reach (economy_init sts rs rid) e"
  shows "economy_ok e"
  using econ_reach_ok [OF assms(3)] economy_init_ok [of rs sts rid] assms(1,2) by blast

theorem reachable_worlds_well_formed_witness: "economy_ok demo_settled"
  by (rule reachable_worlds_well_formed
        [OF demo_rules_ok _ demo_reach [unfolded demo_world_def]])
     (auto simp: station_ok_def sim_station_new_def DEFAULT_RULES_def)

text \<open>
  C32: in a well-formed world no command of a listed station, no batch and no tick raises; the
  result code EXPIRED is never given, because a due offer is closed before anyone can accept it.
\<close>

theorem server_never_raises:
  assumes "economy_ok e" and "known e sid"
  shows "(\<exists>c e'. execute sid a e = Inr (c, e') \<and> co_code c \<noteq> RES_EXPIRED)
    \<and> (\<exists>e'. apply_batch sid acts e = Inr e') \<and> (\<exists>e'. advance_tick e = Inr e')"
  using execute_spec [OF assms, of a] apply_batch_ok [OF assms, of acts] advance_tick_ok [OF assms(1)] by blast

theorem server_never_raises_witness:
  "\<exists>c e'. execute ''P01'' SyncAction demo_world = Inr (c, e') \<and> co_code c \<noteq> RES_EXPIRED"
  using server_never_raises [OF demo_world_ok demo_known(1), of SyncAction "[]"] by blast

text \<open>
  C3: accepting an offer is all or nothing. Accepted: the offer was open and addressed to the
  accepting station, both sides could pay, the goods crossed over between exactly these two
  stations, one transaction with the offer's terms was recorded and the offer names it. Not
  accepted: nothing changed except, at most, the count of commands used this tick.
\<close>

theorem acceptance_is_atomic:
  assumes "economy_ok e" and "execute sid (AcceptAction oid) e = Inr (c, e')"
  shows "if co_ok c
    then \<exists>o' p r txn. o' \<in> set (ec_offers e) \<and> offer_id o' = oid \<and> offer_status o' = OPEN
      \<and> recipient_id o' = sid \<and> proposer_id o' \<noteq> sid \<and> settled_as o' p r txn e e'
    else e' = e \<or> e' = count_command sid e"
proof (cases "co_ok c")
  case False
  with execute_refused [OF assms] show ?thesis by simp
next
  case True
  have pre: "precheck sid (AcceptAction oid) e = Inr None"
    using assms(2) True by (auto simp: execute_def refused_def co_ok_def precheck_def station_at_def
        elim!: bindE_InrE split: option.splits if_splits)
  have ok1: "economy_ok (count_command sid e)" by (rule count_command_ok [OF assms(1) precheck_quota [OF pre]])
  have "accept_offer sid oid (count_command sid e) = Inr (c, e')"
    using assms(2) by (simp add: execute_def pre)
  with accept_offer_spec [OF ok1, of sid oid] True obtain o' where o': "o' \<in> set (ec_offers e)" "offer_id o' = oid"
      "recipient_id o' = sid" "offer_status o' = OPEN" and "settled_by o' (count_command sid e) e'"
    by auto
  then have "settled_by o' e e'" by (simp add: settled_by_def settled_as_def trade_record_def cong: if_cong)
  moreover have "proposer_id o' \<noteq> sid"
    using assms(1) o'(1,3) by (auto simp: economy_ok_def offers_ok_def offer_ok_def)
  ultimately show ?thesis using True o' by (auto simp: settled_by_def)
qed

theorem acceptance_is_atomic_witness:
  "\<exists>o' p r txn. proposer_id o' \<noteq> ''P02'' \<and> settled_as o' p r txn demo_posted demo_settled"
proof -
  have ok: "economy_ok demo_posted" by (rule econ_reach_ok [OF demo_reach_posted demo_world_ok])
  obtain c where "execute ''P02'' (AcceptAction ''offer-1'') demo_posted = Inr (c, demo_settled)" "co_ok c"
    using demo_settle by blast
  with acceptance_is_atomic [OF ok this(1)] show ?thesis by auto
qed

text \<open>
  C31: the books of every station balance in every reachable world: stock plus everything consumed
  and exported equals the opening stock plus everything produced and imported, and the export and
  import totals are exactly the sums over the recorded transactions the station took part in.
\<close>

theorem station_books_balance:
  assumes "rules_ok rs"
    and "\<forall>st \<in> set sts. station_ok rs (st_station_id st) st \<and> st_consumed_total st = 0 \<and> st_produced_total st = 0
      \<and> st_imported st = 0 \<and> st_exported st = 0"
    and "econ_reach (economy_init sts rs rid) e" and "dict_get (ec_stations e) k = Some st"
  shows "st_inventory st + st_consumed_total st + st_exported st
      = opening_stock (economy_init sts rs rid) k + st_produced_total st + st_imported st
    \<and> st_exported st = sum_list (map (sold k) (ec_transactions e))
    \<and> st_imported st = sum_list (map (bought k) (ec_transactions e))"
proof -
  have "economy_ok (economy_init sts rs rid)" using economy_init_ok assms(1,2) by blast
  moreover have "books_ok (opening_stock (economy_init sts rs rid)) (economy_init sts rs rid)"
    using books_ok_init assms(2) by blast
  ultimately have "books_ok (opening_stock (economy_init sts rs rid)) e"
    by (rule econ_reach_books [OF assms(3)])
  with assms(4) show ?thesis unfolding books_ok_def balanced_def by blast
qed

theorem station_books_balance_witness:
  "\<exists>st. dict_get (ec_stations (next_tick demo_settled)) ''P01'' = Some st
     \<and> st_exported st = Bundle 3 0 0 \<and> st_imported st = Bundle 0 3 0
     \<and> st_inventory st + Bundle 1 1 1 + Bundle 3 0 0 = Bundle 9 2 2 + Bundle 4 0 0 + Bundle 0 3 0"
proof -
  let ?e = "next_tick demo_settled"
  have r: "econ_reach demo_world ?e"
    using reach_step [OF demo_reach econ_tick] next_tick_step(1) [OF econ_reach_ok [OF demo_reach demo_world_ok]] by blast
  have v: "(case dict_get (ec_stations ?e) ''P01'' of None \<Rightarrow> False | Some st \<Rightarrow> st_exported st = Bundle 3 0 0
      \<and> st_imported st = Bundle 0 3 0 \<and> st_consumed_total st = Bundle 1 1 1 \<and> st_produced_total st = Bundle 4 0 0)"
    by code_simp
  have b: "opening_stock demo_world ''P01'' = Bundle 9 2 2" by code_simp
  obtain st where st: "dict_get (ec_stations ?e) ''P01'' = Some st" using v by (auto split: option.splits)
  have "st_inventory st + st_consumed_total st + st_exported st
      = opening_stock demo_world ''P01'' + st_produced_total st + st_imported st"
    using station_books_balance [OF demo_rules_ok _ r [unfolded demo_world_def] st]
    by (auto simp: station_ok_def sim_station_new_def DEFAULT_RULES_def bundle_folds demo_world_def)
  with v st b show ?thesis by simp
qed

text \<open>
  C6: trade neither creates nor destroys goods: in every reachable world everything the stations
  hold and have consumed equals their opening stocks plus everything they have produced.
\<close>

theorem world_goods_conserved:
  assumes "rules_ok rs"
    and "\<forall>st \<in> set sts. station_ok rs (st_station_id st) st \<and> st_consumed_total st = 0 \<and> st_produced_total st = 0
      \<and> st_imported st = 0 \<and> st_exported st = 0"
    and "econ_reach (economy_init sts rs rid) e"
  shows "world_total st_inventory e + world_total st_consumed_total e
    = sum_list (map (opening_stock (economy_init sts rs rid)) (dict_keys (ec_stations e))) + world_total st_produced_total e"
proof -
  have ok0: "economy_ok (economy_init sts rs rid)" using economy_init_ok assms(1,2) by blast
  have "dict_ok (ec_stations e)" using econ_reach_ok [OF assms(3) ok0] by (simp add: economy_ok_def roster_ok_def)
  moreover have "books_ok (opening_stock (economy_init sts rs rid)) e"
    using econ_reach_books [OF assms(3) ok0 books_ok_init] assms(2) by blast
  ultimately show ?thesis by (rule world_conservation)
qed

theorem world_goods_conserved_witness:
  "world_total st_inventory demo_settled = Bundle 10 11 4"
proof -
  have "world_total st_consumed_total demo_settled = 0" "world_total st_produced_total demo_settled = 0"
    "sum_list (map (opening_stock demo_world) (dict_keys (ec_stations demo_settled))) = Bundle 10 11 4" by code_simp+
  with world_goods_conserved [OF demo_rules_ok _ demo_reach [unfolded demo_world_def]] show ?thesis
    by (auto simp: station_ok_def sim_station_new_def DEFAULT_RULES_def bundle_folds demo_world_def)
qed


text \<open>
  failure is for good. Once a station has failed it stays failed, with the same first failure
  tick, whatever happens next; every command it sends is answered STATION_FAILED and changes
  nothing; and it has no open offer, in either role, and no advertisement.
\<close>

theorem failure_is_permanent:
  assumes "economy_ok e" and "dict_get (ec_stations e) sid = Some st" and "st_failed_once st"
    and "econ_reach e e'"
  shows "(\<exists>st'. dict_get (ec_stations e') sid = Some st' \<and> st_failed_once st'
        \<and> st_first_failure_tick st' = st_first_failure_tick st)
    \<and> execute sid a e' = Inr (refused STATION_FAILED, e')
    \<and> (\<forall>o' \<in> set (ec_offers e'). offer_status o' = OPEN \<longrightarrow> proposer_id o' \<noteq> sid \<and> recipient_id o' \<noteq> sid)
    \<and> (\<forall>ad \<in> set (ec_ads e'). ad_station_id ad \<noteq> sid)"
proof -
  have ok: "economy_ok e'" by (rule econ_reach_ok [OF assms(4,1)])
  have f: "failed_since sid (st_first_failure_tick st) e'"
    by (rule econ_reach_failed [OF assms(4,1)]) (use assms(2,3) in \<open>simp add: failed_since_def\<close>)
  then obtain st' where st': "dict_get (ec_stations e') sid = Some st'" "st_failed_once st'"
    "st_first_failure_tick st' = st_first_failure_tick st" by (auto simp: failed_since_def)
  then have "\<not> alive e' sid" by (simp add: alive_def)
  with ok st' show ?thesis
    by (auto simp: economy_ok_def offers_ok_def offer_ok_def ads_ok_def execute_def precheck_def station_at_def)
qed

theorem failure_is_permanent_witness:
  "execute ''P01'' SyncAction (next_tick (next_tick demo_starving))
     = Inr (refused STATION_FAILED, next_tick (next_tick demo_starving))"
proof -
  let ?e = "next_tick demo_starving"
  have ok: "economy_ok ?e" by (rule econ_reach_ok [OF next_tick_step(2) [OF demo_starving_ok] demo_starving_ok])
  have "(case dict_get (ec_stations ?e) ''P01'' of None \<Rightarrow> False | Some st \<Rightarrow> st_failed_once st)" by code_simp
  then obtain st where "dict_get (ec_stations ?e) ''P01'' = Some st" "st_failed_once st" by (auto split: option.splits)
  from failure_is_permanent [OF ok this next_tick_step(2) [OF ok]] show ?thesis by blast
qed

text \<open>
  An offer is closed once. An offer that is accepted, withdrawn, expired or ended by the run is
  found unchanged in every later world: it cannot be reopened, closed again or re-attributed.
\<close>

theorem closed_offers_are_final:
  assumes "economy_ok e" and "o' \<in> set (ec_offers e)" and "offer_status o' \<noteq> OPEN" and "econ_reach e e'"
  shows "o' \<in> set (ec_offers e')"
  using econ_reach_closed [OF assms(4,1,3,2)] .

theorem closed_offers_are_final_witness:
  "closed_as ACCEPTED 0 (Some ''txn-2'') (hd (ec_offers demo_posted)) \<in> set (ec_offers (next_tick demo_settled))"
proof (rule closed_offers_are_final)
  show ok: "economy_ok demo_settled" by (rule econ_reach_ok [OF demo_reach demo_world_ok])
  show "econ_reach demo_settled (next_tick demo_settled)" by (rule next_tick_step(2) [OF ok])
qed (code_simp+)

text \<open>
  the server enforces its rate. A station that keeps sending commands in one tick has exactly
  as many processed as its allowance has left, and once it is used up every further command of a
  live station in a running world is answered RATE_LIMITED and changes nothing.
\<close>

theorem server_enforces_rate:
  assumes "economy_ok e" and "alive e sid" and "ec_tick e < duration_ticks (ec_rules e)"
  shows "fst (ask (commands_left sid) (count_command sid) n e) = min n (commands_left sid e)
    \<and> commands_left sid e \<le> nat (new_commands_per_station_per_tick (ec_rules e))
    \<and> (commands_left sid e = 0 \<longrightarrow> execute sid a e = Inr (refused RATE_LIMITED, e))"
proof -
  have c: "0 \<le> dict_get_or 0 (ec_counts e) sid" using assms(1) by (simp add: economy_ok_def limits_ok_def)
  have "execute sid a e = Inr (refused RATE_LIMITED, e)" if "commands_left sid e = 0"
    using assms(2,3) that by (auto simp: alive_def commands_left_def execute_def precheck_def station_at_def)
  with srv.ask_granted [OF c, of n] srv.left_le [OF c] show ?thesis by blast
qed

theorem server_enforces_rate_witness:
  "fst (ask (commands_left ''P01'') (count_command ''P01'') 9 demo_posted) = 3"
proof -
  have ok: "economy_ok demo_posted" by (rule econ_reach_ok [OF demo_reach_posted demo_world_ok])
  have "commands_left ''P01'' demo_posted = 3" "ec_tick demo_posted < duration_ticks (ec_rules demo_posted)"
    "(case dict_get (ec_stations demo_posted) ''P01'' of None \<Rightarrow> False | Some st \<Rightarrow> \<not> st_failed_once st)" by code_simp+
  moreover from this(3) have "alive demo_posted ''P01''" by (auto simp: alive_def split: option.splits)
  ultimately show ?thesis using server_enforces_rate [OF ok, of "''P01''" 9] by simp
qed

subsection \<open>What failure does not stop\<close>

text \<open>\<open>settle_tick\<close> keeps settling a failed station: with its upkeep met, its health rises above 0
  again. Only \<open>failed_once\<close> is permanent.\<close>

lemma failed_station_regains_health:
  "(case settle_tick DEFAULT_RULES 7 ((sim_station_new ''P01'' WATER (Bundle 9 9 9) 1)
       \<lparr>st_health := 0, st_failed_once := True, st_first_failure_tick := Some 3\<rparr>) of
     Inr st \<Rightarrow> st_health st = 5 \<and> st_failed_once st | Inl _ \<Rightarrow> False)"
  by code_simp

end
