(* ===== verification/Server_Safety.thy ===== *)
theory Server_Safety
  imports Server_Inv Economy_Safety World_Model
begin

text \<open>
  What the simulated server's sessions guarantee, over every state that connections, frames,
  scheduled starts and ticks can reach, and how it fits what the client relies on.
\<close>

subsection \<open>A concrete run\<close>

definition got :: "server result \<Rightarrow> server \<Rightarrow> server" where
  "got r sv = (case r of Inr x \<Rightarrow> x | Inl _ \<Rightarrow> sv)"

definition demo_server :: server where
  "demo_server = server_init demo_world [(''secret'', ''P01'')] False (Some 1) None"

definition demo_ready :: client_command where
  "demo_ready = \<lparr>cc_kind = ''ready'', cc_protocol_version = PROTOCOL_VERSION, cc_run_id = ''sim'',
     cc_request_id = None, cc_action = None, cc_ready = Some True, cc_snapshot_sequence = Some 1, cc_fingerprint = []\<rparr>"

definition demo_joined :: server where
  "demo_joined = got (connect ''P01'' demo_server) demo_server"

definition hear :: "client_command \<Rightarrow> server \<Rightarrow> server" where
  "hear c sv = got (bindE (on_message ''P01'' (Inr c) sv) (\<lambda>(b, sv). Inr sv)) sv"

definition demo_running :: server where
  "demo_running = got (start_run (hear demo_ready demo_joined)) demo_joined"

definition demo_traded :: server where
  "demo_traded = got (command ''P01'' ''req-1'' ''offer'' (OfferAction ''P02'' (Bundle 3 0 0) (Bundle 0 3 0) 5) ''h1'' demo_running)
     demo_running"

lemma demo_server_ok: "server_ok demo_server"
  unfolding demo_server_def by (rule server_init_ok [OF demo_world_ok]) simp

lemma demo_joined_step: "connect ''P01'' demo_server = Inr demo_joined" "server_ok demo_joined"
proof -
  have "known (sv_economy demo_server) ''P01''"
    using demo_known(1) by (simp add: demo_server_def server_init_def apply_production_def)
  from connect_ok [OF demo_server_ok this] obtain sv where "connect ''P01'' demo_server = Inr sv" "server_ok sv" by blast
  then show "connect ''P01'' demo_server = Inr demo_joined" "server_ok demo_joined" by (simp_all add: demo_joined_def got_def)
qed

lemma demo_seats:
  "dict_get (sv_seats demo_joined) ''P01'' = Some \<lparr>se_conn = 0, se_sequence = 1, se_ready = False\<rparr>"
  "dict_get (sv_seats demo_running) ''P01'' = Some \<lparr>se_conn = 0, se_sequence = 2, se_ready = True\<rparr>"
  "dict_get (sv_seats demo_traded) ''P01'' = Some \<lparr>se_conn = 0, se_sequence = 3, se_ready = True\<rparr>"
  by code_simp+

lemma demo_running_reach: "server_reach demo_server demo_running"
proof -
  have "known (sv_economy demo_server) ''P01''"
    using demo_known(1) by (simp add: demo_server_def server_init_def apply_production_def)
  then have r1: "server_reach demo_server demo_joined"
    using sreach_step [OF sreach_refl step_connect] demo_joined_step(1) by blast
  have d: "decoded (Inr demo_ready)" by (simp add: decoded_def demo_ready_def)
  from on_message_ok [OF demo_joined_step(2) demo_seats(1) d] obtain b sv1 where
    1: "on_message ''P01'' (Inr demo_ready) demo_joined = Inr (b, sv1)" "server_ok sv1" by blast
  have h: "hear demo_ready demo_joined = sv1" by (simp add: hear_def got_def 1(1))
  have r2: "server_reach demo_server sv1" by (rule sreach_step [OF r1 step_message [OF demo_seats(1) d 1(1)]])
  from start_run_ok [OF 1(2)] obtain sv2 where 2: "start_run sv1 = Inr sv2" by blast
  then have "demo_running = sv2" by (simp add: demo_running_def h got_def)
  with sreach_step [OF r2 step_start [OF 2]] show ?thesis by simp
qed

lemma demo_running_ok: "server_ok demo_running"
  using server_reach_ok [OF demo_running_reach demo_server_ok] by blast

lemma demo_traded_step:
  "command ''P01'' ''req-1'' ''offer'' (OfferAction ''P02'' (Bundle 3 0 0) (Bundle 0 3 0) 5) ''h1'' demo_running = Inr demo_traded"
  "server_ok demo_traded"
proof -
  obtain sv where "command ''P01'' ''req-1'' ''offer'' (OfferAction ''P02'' (Bundle 3 0 0) (Bundle 0 3 0) 5) ''h1'' demo_running = Inr sv"
    "server_ok sv" using command_ok [OF demo_running_ok demo_seats(2)] by blast
  then show "command ''P01'' ''req-1'' ''offer'' (OfferAction ''P02'' (Bundle 3 0 0) (Bundle 0 3 0) 5) ''h1'' demo_running = Inr demo_traded"
    "server_ok demo_traded" by (simp_all add: demo_traded_def got_def)
qed

subsection \<open>Claims\<close>

text \<open>What fits the wire: every integer of the message fits its protobuf field.\<close>

fun event_fits :: "server_event \<Rightarrow> bool" where
  "event_fits (SnapshotEvent s) = snapshot_fits s"
| "event_fits (ResultEvent r) = result_fits r"
| "event_fits (ReadinessEvent a) = readiness_fits a"
| "event_fits (ProtocolErrorEvent e) = True"

definition messages_fit :: "server \<Rightarrow> server \<Rightarrow> bool" where
  "messages_fit sv sv' \<longleftrightarrow> (\<forall>(conn, ev) \<in> set (drop (length (sv_log sv)) (sv_log sv')). event_fits ev)"

lemma pred_option_code [code]: "pred_option P None = True" "pred_option P (Some x) = P x"
  by simp_all

lemma event_wire_total: "event_fits ev \<Longrightarrow> \<exists>bs. event_wire ser rid ev = Inr bs"
  using snapshot_encodes result_wire.encodes [of _ rid] readiness_wire.encodes
  by (cases ev) (fastforce simp: encode_state_def encode_result_def encode_readiness_def)+

lemma on_wire_fits: "messages_fit sv (left x) \<Longrightarrow> on_wire ser sv left (Inr x) = Inr x"
proof -
  assume fits: "messages_fit sv (left x)"
  have "\<exists>bss. mapE (\<lambda>(conn, ev). event_wire ser (ec_run_id (sv_economy sv)) ev) es = Inr bss"
    if "\<forall>(conn, ev) \<in> set es. event_fits ev" for es
    using that
  proof (induction es)
    case (Cons e es)
    then show ?case using event_wire_total [of "snd e" ser "ec_run_id (sv_economy sv)"] by (cases e) fastforce
  qed simp
  with fits show ?thesis by (fastforce simp: on_wire_def messages_fit_def)
qed

lemma send_error_fits:
  assumes "send_error sid c req close sv = Inr sv'"
  shows "messages_fit sv sv'"
  using assms
  by (auto simp: send_error_def send_def seat_of_def put_log_def error_event_def close_conn_def messages_fit_def
      split: if_splits option.splits elim!: bindE_InrE)

text \<open>
  C37: no frame a client can send, no connection, start or tick makes a handler of the server raise,
  in any state reachable from an opening world, unless a message it has built holds an integer that does
  not fit its protobuf field; a received payload is whatever bytes, through \<open>decode_client_message\<close>. An
  answer that is a protocol error, as a text frame gets, always goes out.
\<close>

theorem sessions_never_raise:
  assumes "economy_ok e" and "\<forall>p t i. production = Some p \<longrightarrow> 0 \<le> p t i"
    and "server_reach (server_init e tokens open_auth start_when production) sv"
  shows "(known (sv_economy sv) sid \<longrightarrow>
        (\<exists>sv'. connect sid sv = Inr sv'
          \<and> (messages_fit sv sv' \<longrightarrow> on_wire ser sv id (connect sid sv) = Inr sv')))
    \<and> (dict_get (sv_seats sv) sid \<noteq> None \<longrightarrow>
        (\<exists>b sv'. on_message sid (decode_client_message parse digest payload) sv = Inr (b, sv')
          \<and> (messages_fit sv sv' \<longrightarrow>
               on_wire ser sv snd (on_message sid (decode_client_message parse digest payload) sv) = Inr (b, sv')))
        \<and> (\<exists>sv'. on_wire ser sv id (on_text_frame sid sv) = Inr sv'))
    \<and> (\<exists>sv'. start_run sv = Inr sv' \<and> (messages_fit sv sv' \<longrightarrow> on_wire ser sv id (start_run sv) = Inr sv'))
    \<and> (\<exists>sv'. advance sv = Inr sv' \<and> (messages_fit sv sv' \<longrightarrow> on_wire ser sv id (advance sv) = Inr sv'))"
proof -
  have ok: "server_ok sv" using server_reach_ok [OF assms(3)] server_init_ok assms(1,2) by blast
  have wire: "\<exists>x. r = Inr x \<and> (messages_fit sv x \<longrightarrow> on_wire ser sv id r = Inr x)" if "\<exists>x. r = Inr x" for r
    using that on_wire_fits [of sv id] by auto
  have "\<exists>sv'. on_wire ser sv id (on_text_frame sid sv) = Inr sv'" if seated: "dict_get (sv_seats sv) sid \<noteq> None"
  proof -
    obtain sv' where "send_error sid BAD_MESSAGE None False sv = Inr sv'" using seated send_error_ok [OF ok] by blast
    with send_error_fits [OF this] on_wire_fits [of sv id sv'] show ?thesis by (auto simp: on_text_frame_def)
  qed
  moreover have "\<exists>b sv'. on_message sid (decode_client_message parse digest payload) sv = Inr (b, sv')
          \<and> (messages_fit sv sv' \<longrightarrow>
               on_wire ser sv snd (on_message sid (decode_client_message parse digest payload) sv) = Inr (b, sv'))"
    if seated: "dict_get (sv_seats sv) sid \<noteq> None"
  proof -
    obtain b sv' where m: "on_message sid (decode_client_message parse digest payload) sv = Inr (b, sv')"
      using seated on_message_ok [OF ok _ decode_decoded] by blast
    with on_wire_fits [of sv snd "(b, sv')" ser] show ?thesis by simp
  qed
  moreover have "\<exists>sv'. connect sid sv = Inr sv'" if "known (sv_economy sv) sid" using connect_ok [OF ok that] by blast
  moreover have "\<exists>sv'. start_run sv = Inr sv'" "\<exists>sv'. advance sv = Inr sv'"
    using start_run_ok [OF ok] advance_ok [OF ok] by blast+
  ultimately show ?thesis using wire by blast
qed

theorem sessions_never_raise_witness: "\<exists>sv'. on_wire (\<lambda>_. []) demo_running id (advance demo_running) = Inr sv'"
proof -
  have fit: "(case advance demo_running of Inl _ \<Rightarrow> False
      | Inr sv' \<Rightarrow> list_all (\<lambda>(conn, ev). event_fits ev) (drop (length (sv_log demo_running)) (sv_log sv')))" by code_simp
  obtain sv' where a: "advance demo_running = Inr sv'"
    "messages_fit demo_running sv' \<longrightarrow> on_wire (\<lambda>_. []) demo_running id (advance demo_running) = Inr sv'"
    using sessions_never_raise [OF demo_world_ok _ demo_running_reach [unfolded demo_server_def], where ser = "\<lambda>_. []"] by blast
  from fit have "messages_fit demo_running sv'" by (simp add: a(1) messages_fit_def list_all_iff)
  with a(2) show ?thesis by blast
qed

text \<open>
  the snapshots sent on one connection are numbered 1, 2, 3, \<open>\<dots>\<close> without gap or repetition, in
  every reachable state, whatever mixture of answers, broadcasts and resynchronisations sent them.
\<close>

theorem snapshots_numbered:
  assumes "economy_ok e" and "\<forall>p t i. production = Some p \<longrightarrow> 0 \<le> p t i"
    and "server_reach (server_init e tokens open_auth start_when production) sv"
  shows "\<exists>n. map snapshot_sequence (snapshots_on conn (sv_log sv)) = map int [1..<Suc n]"
proof -
  have "server_ok sv" using server_reach_ok [OF assms(3)] server_init_ok assms(1,2) by blast
  then show ?thesis by (simp add: server_ok_def log_ok_def numbers_def upto_number_def)
qed

theorem snapshots_numbered_witness:
  "map snapshot_sequence (snapshots_on 0 (sv_log demo_running)) = map int [1..<Suc 2]"
proof -
  obtain n where n: "map snapshot_sequence (snapshots_on 0 (sv_log demo_running)) = map int [1..<Suc n]"
    using snapshots_numbered [OF demo_world_ok _ demo_running_reach [unfolded demo_server_def]] by blast
  have "length (snapshots_on 0 (sv_log demo_running)) = 2" by code_simp
  with n have "n = 2" by (metis length_map length_upt diff_Suc_1)
  with n show ?thesis by simp
qed

text \<open>
  C5: a command is executed at most once. Once a request id has a stored result, sending it again at
  any later time changes neither the economy nor any stored result: the same content is answered
  with the stored result and a fresh snapshot, other content with REQUEST_ID_CONFLICT.
\<close>

theorem commands_run_once:
  assumes "server_ok sv" and "dict_get (sv_results sv) sid = Some d" and "dict_get d req = Some x"
    and "server_reach sv sv'" and "dict_get (sv_seats sv') sid = Some se"
  shows "\<exists>sv''. command sid req knd a fp sv' = Inr sv'' \<and> sv_economy sv'' = sv_economy sv' \<and> sv_results sv'' = sv_results sv'
    \<and> (if fp = sr_fingerprint x
       then \<exists>s. sv_log sv'' = sv_log sv' @ [(se_conn se, ResultEvent (sr_result x)), (se_conn se, SnapshotEvent s)]
       else \<exists>r. sv_log sv'' = sv_log sv' @ [(se_conn se, ResultEvent r)] \<and> code r = REQUEST_ID_CONFLICT \<and> request_id r = req)"
proof -
  have ok: "server_ok sv'" and "grows sv sv'" using server_reach_ok [OF assms(4,1)] by auto
  with assms(2,3) obtain d' where d': "dict_get (sv_results sv') sid = Some d'" "dict_get d' req = Some x"
    unfolding grows_def by blast
  show ?thesis
  proof (cases "sr_fingerprint x = fp")
    case True
    let ?sv1 = "put_log (se_conn se) (ResultEvent (sr_result x)) sv'"
    note s1 = send_ok [OF ok assms(5), of "ResultEvent (sr_result x)", simplified]
    have "dict_get (sv_seats ?sv1) sid = Some se" using assms(5) by (simp add: put_log_def)
    from send_state_ok [OF s1(2) this] obtain sv2 s where s2: "send_state sid ?sv1 = Inr sv2" "only_sends ?sv1 sv2"
      "sv_log sv2 = sv_log ?sv1 @ [(se_conn se, SnapshotEvent s)]" by blast
    with s1(1) d' True show ?thesis
      by (auto simp: command_def stored_of_def only_sends_def put_log_def)
  next
    case False
    from send_result_ok [OF ok assms(5), of "make_result sv' req REQUEST_ID_CONFLICT None None"] obtain sv2 where
      "send_result sid (make_result sv' req REQUEST_ID_CONFLICT None None) sv' = Inr sv2" "only_sends sv' sv2"
      "sv_log sv2 = sv_log sv' @ [(se_conn se, ResultEvent (make_result sv' req REQUEST_ID_CONFLICT None None))]" by blast
    with d' False show ?thesis
      by (auto simp: command_def stored_of_def only_sends_def make_result_def)
  qed
qed

theorem commands_run_once_witness:
  "\<exists>sv. command ''P01'' ''req-1'' ''offer'' (OfferAction ''P02'' (Bundle 3 0 0) (Bundle 0 3 0) 5) ''h1'' demo_traded = Inr sv
     \<and> sv_economy sv = sv_economy demo_traded"
proof -
  have v: "(case dict_get (sv_results demo_traded) ''P01'' of None \<Rightarrow> False
      | Some d \<Rightarrow> (case dict_get d ''req-1'' of None \<Rightarrow> False | Some x \<Rightarrow> sr_fingerprint x = ''h1''))" by code_simp
  then obtain d x where "dict_get (sv_results demo_traded) ''P01'' = Some d" "dict_get d ''req-1'' = Some x"
    by (auto split: option.splits)
  from commands_run_once [OF demo_traded_step(2) this sreach_refl demo_seats(3)] show ?thesis by blast
qed

text \<open>
  nothing trades before the handshake or outside the run. Whatever bytes a station sends while
  its session is not ready, or while the run is not running, the economy does not change.
\<close>

theorem idle_sessions_change_nothing:
  assumes "server_ok sv" and "dict_get (sv_seats sv) sid = Some se"
    and "sv_phase sv \<noteq> RUNNING \<or> \<not> se_ready se"
  shows "\<exists>b sv'. on_message sid (decode_client_message parse digest payload) sv = Inr (b, sv')
    \<and> sv_economy sv' = sv_economy sv \<and> sv_phase sv' = sv_phase sv"
  using on_message_ok [OF assms(1,2) decode_decoded] assms(3) by blast

theorem idle_sessions_change_nothing_witness:
  "\<exists>b sv'. on_message ''P01'' (decode_client_message demo_parse (\<lambda>_. ''h'') [8, 1]) demo_joined = Inr (b, sv')
     \<and> sv_economy sv' = sv_economy demo_joined"
proof -
  have "sv_phase demo_joined \<noteq> RUNNING \<or> \<not> se_ready \<lparr>se_conn = 0, se_sequence = 1, se_ready = False\<rparr>" by simp
  from idle_sessions_change_nothing [OF demo_joined_step(2) demo_seats(1) this] show ?thesis by blast
qed

text \<open>
  a finished run is final. In every reachable state whose phase is FINISHED the duration is over,
  no offer is open and no advertisement listed, and no later event changes the phase or the economy.
\<close>

theorem finished_runs_final:
  assumes "economy_ok e" and "\<forall>p t i. production = Some p \<longrightarrow> 0 \<le> p t i"
    and "server_reach (server_init e tokens open_auth start_when production) sv" and "sv_phase sv = FINISHED"
    and "server_reach sv sv'"
  shows "ec_finished (sv_economy sv) \<and> ec_ads (sv_economy sv) = []
    \<and> (\<forall>o' \<in> set (ec_offers (sv_economy sv)). offer_status o' \<noteq> OPEN)
    \<and> sv_phase sv' = FINISHED \<and> sv_economy sv' = sv_economy sv"
proof -
  have ok: "server_ok sv" using server_reach_ok [OF assms(3)] server_init_ok assms(1,2) by blast
  then have "phase_ok sv" by (simp add: server_ok_def)
  with assms(4) server_reach_finished [OF assms(5) ok assms(4)] show ?thesis by (simp add: phase_ok_def)
qed

text \<open>A world whose run lasts one tick.\<close>

definition demo_short :: server where
  "demo_short = server_init (economy_init [sim_station_new ''P01'' WATER (Bundle 9 9 9) 4]
     (DEFAULT_RULES\<lparr>duration_ticks := 1\<rparr>) ''sim'') [] True None None"

definition demo_over :: server where
  "demo_over = got (advance (got (start_run demo_short) demo_short)) demo_short"

lemma demo_short_ok: "economy_ok (economy_init [sim_station_new ''P01'' WATER (Bundle 9 9 9) 4]
     (DEFAULT_RULES\<lparr>duration_ticks := 1\<rparr>) ''sim'')"
  by (rule economy_init_ok) (auto simp: rules_ok_def station_ok_def sim_station_new_def DEFAULT_RULES_def)

lemma demo_over_reach: "server_reach demo_short demo_over"
proof -
  have ok: "server_ok demo_short" unfolding demo_short_def by (rule server_init_ok [OF demo_short_ok]) simp
  from start_run_ok [OF ok] obtain sv1 where 1: "start_run demo_short = Inr sv1" "server_ok sv1" by blast
  from advance_ok [OF 1(2)] obtain sv2 where 2: "advance sv1 = Inr sv2" by blast
  have "demo_over = sv2" by (simp add: demo_over_def 1 2 got_def)
  with sreach_step [OF sreach_step [OF sreach_refl step_start [OF 1(1)]] step_advance [OF 2]] show ?thesis by simp
qed

theorem finished_runs_final_witness: "ec_finished (sv_economy demo_over) \<and> ec_ads (sv_economy demo_over) = []"
proof -
  have "sv_phase demo_over = FINISHED" by code_simp
  from finished_runs_final [OF demo_short_ok _ demo_over_reach [unfolded demo_short_def] this sreach_refl] show ?thesis
    by blast
qed

subsection \<open>The client at the other end\<close>

text \<open>Snapshots numbered upwards are all applied.\<close>

lemma applied_upwards:
  assumes "map snapshot_sequence ss = map int [m..<n]" and "world_ok w" and "wm_snapshot w = None \<or> last_sequence w < int m"
  shows "ignored (fold (\<lambda>s w. snd (apply_snapshot s w)) ss w) = ignored w"
  using assms
proof (induction ss arbitrary: m w)
  case (Cons s ss)
  from Cons.prems(1) have "m < n" and m: "snapshot_sequence s = int m" and ss: "map snapshot_sequence ss = map int [Suc m..<n]"
    by (auto simp: upt_eq_Cons_conv Cons_eq_map_conv)
  have "world_ok (snd (apply_snapshot s w))" by (rule world_ok_apply [OF Cons.prems(2)])
  from Cons.IH [OF ss this] show ?case
    using Cons.prems(3) m by (auto simp: apply_snapshot_def)
qed simp

text \<open>
  C19: the client sees the server's last word. The client's world model, reset for a new connection
  and fed every snapshot the server sent on that connection, ignores none of them and ends with the
  last one sent.
\<close>

theorem client_follows_server:
  assumes "server_ok sv" and "snapshots_on conn (sv_log sv) = ss @ [s]"
  shows "wm_snapshot (fold (\<lambda>s w. snd (apply_snapshot s w)) (snapshots_on conn (sv_log sv)) (world_reset_for_new_connection w)) = Some s
    \<and> ignored (fold (\<lambda>s w. snd (apply_snapshot s w)) (snapshots_on conn (sv_log sv)) (world_reset_for_new_connection w)) = ignored w"
proof -
  let ?feed = "\<lambda>s w. snd (apply_snapshot s w)" and ?w = "world_reset_for_new_connection w"
  have ok: "world_ok ?w" by (rule world_ok_reset)
  have init: "wm_snapshot ?w = None" "ignored ?w = ignored w" by (simp_all add: world_reset_for_new_connection_def)
  have "\<exists>n. numbers conn (sv_log sv) = upto_number n" using assms(1) by (simp add: server_ok_def log_ok_def)
  then obtain n where n: "map snapshot_sequence (ss @ [s]) = map int [1..<Suc n]"
    unfolding numbers_def upto_number_def assms(2) by blast
  note ign = applied_upwards [OF n ok, unfolded init(2), OF disjI1, OF init(1)]
  have "sorted_wrt (<) (map snapshot_sequence (ss @ [s]))"
    unfolding n by (simp add: sorted_wrt_map del: upt_Suc)
  then have "\<forall>t \<in> set ss. snapshot_sequence t < snapshot_sequence s"
    by (simp add: sorted_wrt_append)
  moreover obtain v where v: "wm_snapshot (fold ?feed (ss @ [s]) ?w) = Some v" "v \<in> set (ss @ [s])" "snapshot_sequence s \<le> snapshot_sequence v"
    using wm.view_feeds [OF ok, of "ss @ [s]"] wm.view_ge [OF ok, of s "ss @ [s]"] init(1) py_max_in [of snapshot_sequence "ss @ [s]"]
    by auto
  ultimately have "v = s" by auto
  with v(1) ign show ?thesis by (simp only: assms(2))
qed

theorem client_follows_server_witness:
  "\<exists>s. wm_snapshot (fold (\<lambda>s w. snd (apply_snapshot s w)) (snapshots_on 0 (sv_log demo_running)) (world_reset_for_new_connection world_model_init)) = Some s
     \<and> snapshot_sequence s = 2"
proof -
  have "(case rev (snapshots_on 0 (sv_log demo_running)) of s # ss \<Rightarrow> snapshot_sequence s = 2 | [] \<Rightarrow> False)" by code_simp
  then obtain s ss where "rev (snapshots_on 0 (sv_log demo_running)) = s # ss" and s: "snapshot_sequence s = 2"
    by (auto split: list.splits)
  then have "snapshots_on 0 (sv_log demo_running) = rev ss @ [s]" by (metis rev.simps(2) rev_rev_ident)
  from client_follows_server [OF demo_running_ok this, of world_model_init] s show ?thesis by blast
qed

end
