(* ===== verification/Logbook.thy ===== *)
theory Logbook
  imports Evidence
begin

text \<open>
  What a reader of the evidence file sees: one JSON object per line, as
  \<open>EvidenceRecord.as_json\<close>, \<open>EvidenceLog.decision\<close> and \<open>EvidenceLog._write_entry\<close> build it. An
  object is a record with one optional field per key, so \<open>r.get(k)\<close> is the field, \<open>k in r\<close> that it
  is present, and \<open>r[k]\<close> is \<open>key k\<close>, which raises \<open>KeyError\<close> when it is not. \<open>lg_timing\<close> is the
  object under \<open>timing\<close>. Two fields are read by the analysis but never written: \<open>lg_import_targets\<close> and
  \<open>lg_specialty_spendable\<close>. A file whose lines are printed JSON is read back to the same objects.
\<close>

record log_record =
  lg_kind :: "string option"
  lg_timestamp :: "string option"
  lg_build :: "string option"
  lg_strategy :: "string option"
  lg_status :: "string option"
  lg_event :: "string option"
  lg_detail :: "string option"
  lg_status_seconds :: "(string, rat) pydict option"
  lg_action_kind :: "string option"
  lg_action :: "(string \<times> json_value) list option"
  lg_decision_id :: "string option"
  lg_request_id :: "string option"
  lg_observed_tick :: "int option"
  lg_result_ok :: "bool option"
  lg_result_code :: "string option"
  lg_object_id :: "string option"
  lg_transaction_id :: "string option"
  lg_processed_tick :: "int option"
  lg_deadline_missed :: "bool option"
  lg_response_ms :: "rat option"
  lg_confirm_ms :: "rat option"
  lg_inventory_after :: "(string \<times> int) list option"
  lg_tick :: "int option"
  lg_phase :: "string option"
  lg_health :: "int option"
  lg_inventory :: "(string \<times> int) list option"
  lg_available :: "(string \<times> int) list option"
  lg_reserve :: "(string \<times> int) list option"
  lg_open_offers :: "offer_sight list option"
  lg_new_transactions :: "trade_sight list option"
  lg_actions :: "(string \<times> (string \<times> json_value) list) list option"
  lg_reasons :: "string list option"
  lg_passed_offers :: "(string, string) pydict option"
  lg_timing :: "(rat option \<times> rat option) option"
  lg_states_during_decision :: "int option"
  lg_wait_reason :: "string option"
  lg_ticks_skipped :: "int option"
  lg_open_outgoing_offers :: "int option"
  lg_confirmed_snapshot_sequence :: "int option"
  lg_step :: "string option"
  lg_notes :: "string list option"
  lg_station_id :: "string option"
  lg_mode :: "string option"
  lg_dirty :: "bool option"
  lg_python :: "string option"
  lg_import_targets :: "(string \<times> int) list option"
  lg_specialty_spendable :: "int option"

definition no_fields :: log_record where
  "no_fields = \<lparr>lg_kind = None, lg_timestamp = None, lg_build = None, lg_strategy = None, lg_status = None,
     lg_event = None, lg_detail = None, lg_status_seconds = None, lg_action_kind = None, lg_action = None,
     lg_decision_id = None, lg_request_id = None, lg_observed_tick = None, lg_result_ok = None,
     lg_result_code = None, lg_object_id = None, lg_transaction_id = None, lg_processed_tick = None,
     lg_deadline_missed = None, lg_response_ms = None, lg_confirm_ms = None, lg_inventory_after = None,
     lg_tick = None, lg_phase = None, lg_health = None, lg_inventory = None, lg_available = None,
     lg_reserve = None, lg_open_offers = None, lg_new_transactions = None, lg_actions = None,
     lg_reasons = None, lg_passed_offers = None, lg_timing = None, lg_states_during_decision = None,
     lg_wait_reason = None, lg_ticks_skipped = None, lg_open_outgoing_offers = None,
     lg_confirmed_snapshot_sequence = None, lg_step = None, lg_notes = None, lg_station_id = None, lg_mode = None,
     lg_dirty = None, lg_python = None, lg_import_targets = None, lg_specialty_spendable = None\<rparr>"

definition key :: "string \<Rightarrow> 'a option \<Rightarrow> 'a result" where
  "key k f = (case f of None \<Rightarrow> Inl (KeyError k) | Some x \<Rightarrow> Inr x)"

definition get_list :: "'a list option \<Rightarrow> 'a list" where
  "get_list f = (case f of None \<Rightarrow> [] | Some xs \<Rightarrow> xs)"

subsection \<open>The object of a line\<close>

text \<open>\<open>extra\<close> holds what \<open>log_line\<close> does not: the timestamp, and the keywords of a run's start and end.\<close>

definition command_object :: "evidence_record \<Rightarrow> log_record" where
  "command_object r = no_fields\<lparr>lg_timestamp := Some (er_timestamp r), lg_action_kind := Some (er_action_kind r),
     lg_action := Some (er_action r), lg_decision_id := er_decision_id r, lg_request_id := er_request_id r,
     lg_observed_tick := er_observed_tick r, lg_result_ok := er_result_ok r, lg_result_code := er_result_code r,
     lg_object_id := er_object_id r, lg_transaction_id := er_transaction_id r,
     lg_processed_tick := er_processed_tick r, lg_deadline_missed := er_deadline_missed r,
     lg_response_ms := er_response_ms r, lg_confirm_ms := er_confirm_ms r,
     lg_inventory_after := er_inventory_after r,
     lg_confirmed_snapshot_sequence := er_confirmed_snapshot_sequence r, lg_step := Some (er_step r),
     lg_notes := Some (er_notes r)\<rparr>"

definition decision_object :: "decision_entry \<Rightarrow> log_record" where
  "decision_object e = no_fields\<lparr>lg_kind := Some ''decision'', lg_timestamp := Some (de_timestamp e),
     lg_decision_id := Some (de_decision_id e), lg_tick := Some (de_tick e), lg_phase := Some (de_phase e),
     lg_health := Some (de_health e), lg_inventory := Some (de_inventory e),
     lg_available := Some (de_available e), lg_reserve := Some (de_reserve e),
     lg_open_offers := Some (de_open_offers e), lg_new_transactions := Some (de_new_transactions e),
     lg_actions := Some (de_actions e), lg_reasons := Some (de_reasons e),
     lg_passed_offers := (if de_passed_offers e = [] then None else Some (de_passed_offers e)),
     lg_strategy := Some (dx_strategy (de_context e)),
     lg_timing := Some (dx_queue_ms (de_context e), Some (dx_decide_ms (de_context e))),
     lg_states_during_decision := Some (dx_states_during_decision (de_context e)),
     lg_wait_reason := dx_wait_reason (de_context e),
     lg_ticks_skipped := dx_ticks_skipped (de_context e),
     lg_open_outgoing_offers := Some (int (de_open_outgoing_offers e))\<rparr>"

fun line_object :: "log_record \<Rightarrow> log_line \<Rightarrow> log_record" where
  "line_object extra (CommandLine r) = command_object r"
| "line_object extra (DecisionLine e) = decision_object e"
| "line_object extra (StatusLine status previous detail) = no_fields\<lparr>lg_kind := Some ''status'',
     lg_timestamp := lg_timestamp extra, lg_status := Some status,
     lg_detail := (if detail = [] then None else Some detail)\<rparr>"
| "line_object extra (ConnectionLine event detail category) = no_fields\<lparr>lg_kind := Some ''connection'',
     lg_timestamp := lg_timestamp extra, lg_event := Some event, lg_detail := detail\<rparr>"
| "line_object extra RunStartLine = no_fields\<lparr>lg_kind := Some ''run_start'',
     lg_timestamp := lg_timestamp extra, lg_build := lg_build extra, lg_strategy := lg_strategy extra,
     lg_station_id := lg_station_id extra, lg_mode := lg_mode extra, lg_dirty := lg_dirty extra, lg_python := lg_python extra\<rparr>"
| "line_object extra RunEndLine = no_fields\<lparr>lg_kind := Some ''run_end'',
     lg_timestamp := lg_timestamp extra, lg_status_seconds := lg_status_seconds extra\<rparr>"

text \<open>The objects of a log, each line with its own extra fields.\<close>

definition file_objects :: "(nat \<Rightarrow> log_record) \<Rightarrow> log_line list \<Rightarrow> log_record list" where
  "file_objects extra ls = map (\<lambda>(i, l). line_object (extra i) l) (enumerate 0 ls)"

lemma file_objects_append:
  "file_objects extra (ls @ [l]) = file_objects extra ls @ [line_object (extra (length ls)) l]"
  by (simp add: file_objects_def enumerate_append_eq)

lemma file_objects_Nil [simp]: "file_objects extra [] = []"
  by (simp add: file_objects_def)

lemmas object_defs = command_object_def decision_object_def no_fields_def

end
