(* ===== verification/Analysis.thy ===== *)
theory Analysis
  imports Logbook Monitor
begin

text \<open>
  \<open>scripts/analyze_evidence.py\<close>, from the records of a log to the overview and the key findings.
  \<open>ts\<close> stands for \<open>datetime.fromisoformat\<close>: it reads a time as an exact number of seconds or
  raises. A \<open>Counter\<close> is a dictionary in order of first occurrence.
\<close>

definition DOWN_EVENTS :: "string list" where
  "DOWN_EVENTS = [''disconnected'', ''reconnecting'', ''closed'', ''failed'']"

definition is_action :: "log_record \<Rightarrow> bool" where
  "is_action r \<longleftrightarrow> lg_action_kind r \<noteq> None"

definition is_command :: "log_record \<Rightarrow> bool" where
  "is_command r \<longleftrightarrow> is_action r \<and> lg_action_kind r \<noteq> Some ''sync''"

definition is_connection :: "log_record \<Rightarrow> bool" where
  "is_connection r \<longleftrightarrow> lg_kind r = Some ''connection''"

definition is_decision :: "log_record \<Rightarrow> bool" where
  "is_decision r \<longleftrightarrow> lg_kind r = Some ''decision''"

definition has_actions :: "log_record \<Rightarrow> bool" where
  "has_actions r \<longleftrightarrow> get_list (lg_actions r) \<noteq> []"

definition tick_of :: "log_record \<Rightarrow> int result" where
  "tick_of r = key ''tick'' (lg_tick r)"

definition counter :: "string list \<Rightarrow> (string, int) pydict" where
  "counter ks = fold (\<lambda>k t. count_key t k) ks []"

text \<open>\<open>Counter.most_common()\<close> sorts by falling count and keeps the order of equal ones.\<close>

definition most_common :: "(string, int) pydict \<Rightarrow> (string \<times> int) list" where
  "most_common t = sort_key (\<lambda>(_, n). - n) t"

subsection \<open>Decisions and commands\<close>

text \<open>Each record comes with its position, the identity \<open>traces\<close> compares.\<close>

definition keep_decision :: "nat \<times> log_record \<Rightarrow> int set \<times> (nat \<times> log_record) list \<Rightarrow>
    (int set \<times> (nat \<times> log_record) list) result" where
  "keep_decision ir acc = (case (ir, acc) of ((i, r), (seen, out)) \<Rightarrow>
     if \<not> is_decision r then Inr (seen, out)
     else bindE (tick_of r) (\<lambda>tick.
       if \<not> has_actions r \<and> tick \<in> seen then Inr (seen, out) else Inr (insert tick seen, out @ [(i, r)])))"

definition numbered_decisions :: "log_record list \<Rightarrow> (nat \<times> log_record) list result" where
  "numbered_decisions records = bindE (foldE keep_decision (enumerate 0 records) ({}, [])) (\<lambda>(_, out). Inr out)"

definition decisions :: "log_record list \<Rightarrow> log_record list result" where
  "decisions records = bindE (numbered_decisions records) (\<lambda>out. Inr (map snd out))"

definition action_summary :: "log_record list \<Rightarrow> (string, int) pydict" where
  "action_summary records = counter (map (\<lambda>r. the (lg_action_kind r)) (filter is_action records))"

definition answer_code :: "log_record \<Rightarrow> string" where
  "answer_code r = (case lg_result_code r of None \<Rightarrow> ''NO_ANSWER'' | Some c \<Rightarrow> if c = [] then ''NO_ANSWER'' else c)"

definition rejection_summary :: "log_record list \<Rightarrow> (string, int) pydict" where
  "rejection_summary records =
     counter (map answer_code (filter (\<lambda>r. is_command r \<and> lg_result_ok r \<noteq> Some True) records))"

definition settled_trades :: "log_record list \<Rightarrow> log_record list" where
  "settled_trades records =
     filter (\<lambda>r. is_action r \<and> lg_action_kind r = Some ''accept'' \<and> lg_result_ok r = Some True) records"

definition resource_timeline :: "log_record list \<Rightarrow> int \<Rightarrow> (int \<times> int \<times> (string \<times> int) list) list result" where
  "resource_timeline records every = bindE (decisions records) (\<lambda>ds.
     bindE (foldE (\<lambda>d (points, seen). bindE (tick_of d) (\<lambda>tick.
         if every = 0 then Inl ZeroDivisionError
         else if tick mod every \<noteq> 0 \<or> tick \<in> seen then Inr (points, seen)
         else bindE (key ''health'' (lg_health d)) (\<lambda>h. bindE (key ''inventory'' (lg_inventory d)) (\<lambda>inv'.
           Inr (points @ [(tick, h, inv')], insert tick seen))))) ds ([], {}))
       (\<lambda>(points, _). Inr points))"

record shortage_row =
  sh_tick :: int
  sh_health :: int
  sh_health_lost :: int
  sh_empty :: "string list"

definition RESOURCES :: "string list" where
  "RESOURCES = [''water'', ''food'', ''components'']"

definition shortage_step :: "log_record \<Rightarrow> shortage_row list \<times> int option \<Rightarrow> (shortage_row list \<times> int option) result" where
  "shortage_step d acc = (case acc of (rows, last_health) \<Rightarrow>
     bindE (key ''inventory'' (lg_inventory d)) (\<lambda>stock.
     let empty = filter (\<lambda>r. dict_get_or 0 stock r \<le> 0) RESOURCES
     in bindE (key ''health'' (lg_health d)) (\<lambda>h.
     let drop = (case last_health of Some l \<Rightarrow> l - h | None \<Rightarrow> 0)
     in if empty \<noteq> [] \<or> 0 < drop
        then bindE (tick_of d) (\<lambda>tick.
          Inr (rows @ [\<lparr>sh_tick = tick, sh_health = h, sh_health_lost = max drop 0, sh_empty = empty\<rparr>], Some h))
        else Inr (rows, Some h))))"

definition shortages :: "log_record list \<Rightarrow> shortage_row list result" where
  "shortages records = bindE (decisions records) (\<lambda>ds.
     bindE (foldE shortage_step ds ([], None)) (\<lambda>(rows, _). Inr rows))"


subsection \<open>Connections\<close>

datatype link_state = Up | Down

record period =
  pe_state :: link_state
  pe_start :: rat
  pe_end :: rat
  pe_seconds :: rat
  pe_detail :: "string option"

text \<open>The locals of \<open>connection_periods\<close>; \<open>close\<close> appends a period.\<close>

record link_scan =
  ls_periods :: "period list"
  ls_up_since :: "rat option"
  ls_down_since :: "rat option"
  ls_down_detail :: "string option"

definition close_period :: "link_state \<Rightarrow> rat \<Rightarrow> rat \<Rightarrow> string option \<Rightarrow> link_scan \<Rightarrow> link_scan" where
  "close_period state start stop detail sc = sc\<lparr>ls_periods := ls_periods sc @
     [\<lparr>pe_state = state, pe_start = start, pe_end = stop, pe_seconds = fl (stop - start), pe_detail = detail\<rparr>]\<rparr>"

definition scan_event :: "string \<Rightarrow> rat \<Rightarrow> string option \<Rightarrow> link_scan \<Rightarrow> link_scan" where
  "scan_event event now detail sc =
     (if event = ''connected'' then
        let sc = (case ls_down_since sc of None \<Rightarrow> sc
            | Some since \<Rightarrow> (close_period Down since now (ls_down_detail sc) sc)\<lparr>ls_down_since := None\<rparr>)
        in (case ls_up_since sc of None \<Rightarrow> sc\<lparr>ls_up_since := Some now\<rparr> | Some _ \<Rightarrow> sc)
      else if event \<in> set DOWN_EVENTS then
        let sc = (case ls_up_since sc of None \<Rightarrow> sc
            | Some since \<Rightarrow> (close_period Up since now None sc)\<lparr>ls_up_since := None\<rparr>);
            sc = (if event \<noteq> ''closed'' \<and> ls_down_since sc = None
                  then sc\<lparr>ls_down_since := Some now, ls_down_detail := detail\<rparr> else sc)
        in (if event = ''closed'' then sc\<lparr>ls_down_since := None\<rparr> else sc)
      else if event = ''connecting'' \<and> ls_up_since sc = None \<and> ls_down_since sc = None
        then sc\<lparr>ls_down_since := Some now, ls_down_detail := Some ''connecting''\<rparr>
      else sc)"

definition scan_record :: "(string \<Rightarrow> rat result) \<Rightarrow> log_record \<Rightarrow> link_scan \<Rightarrow> link_scan result" where
  "scan_record ts r sc =
     (if \<not> is_connection r then Inr sc
      else bindE (key ''timestamp'' (lg_timestamp r)) (\<lambda>t. bindE (ts t) (\<lambda>now.
           bindE (key ''event'' (lg_event r)) (\<lambda>event. Inr (scan_event event now (lg_detail r) sc)))))"

definition finish_scan :: "rat \<Rightarrow> link_scan \<Rightarrow> period list" where
  "finish_scan last_ts sc =
     (let sc = (case ls_up_since sc of None \<Rightarrow> sc | Some since \<Rightarrow> close_period Up since last_ts None sc);
          sc = (case ls_down_since sc of None \<Rightarrow> sc
                | Some since \<Rightarrow> close_period Down since last_ts (ls_down_detail sc) sc)
      in ls_periods sc)"

definition stamps :: "log_record list \<Rightarrow> string list" where
  "stamps records = concat (map (\<lambda>r. case lg_timestamp r of None \<Rightarrow> [] | Some t \<Rightarrow> if t = [] then [] else [t]) records)"

definition connection_periods :: "(string \<Rightarrow> rat result) \<Rightarrow> log_record list \<Rightarrow> period list result" where
  "connection_periods ts records =
     (if stamps records = [] then Inr []
      else bindE (mapE ts (stamps records)) (\<lambda>times.
           bindE (foldE (scan_record ts) records
             \<lparr>ls_periods = [], ls_up_since = None, ls_down_since = None, ls_down_detail = None\<rparr>) (\<lambda>sc.
           Inr (finish_scan (Max (set times)) sc))))"

definition total_downtime :: "period list \<Rightarrow> rat" where
  "total_downtime ps = py_fsum (map pe_seconds (filter (\<lambda>p. pe_state p = Down) ps))"

subsection \<open>Traces, gaps and trades\<close>

record decision_trace =
  dt_decision :: "log_record option"
  dt_outcomes :: "log_record list"

text \<open>
  \<open>current\<close> is an entry of \<open>out\<close> that later actions are appended to: it is the position of the last
  entry with a decision.
\<close>

definition trace_step :: "nat set \<Rightarrow> nat \<times> log_record \<Rightarrow> decision_trace list \<times> nat option \<Rightarrow>
    decision_trace list \<times> nat option" where
  "trace_step keep ir acc = (case (ir, acc) of ((i, r), (out, current)) \<Rightarrow>
     if is_decision r then
       (if i \<in> keep then (out @ [\<lparr>dt_decision = Some r, dt_outcomes = []\<rparr>], Some (length out)) else (out, current))
     else if is_action r then
       (case current of
          None \<Rightarrow> (out @ [\<lparr>dt_decision = None, dt_outcomes = [r]\<rparr>], None)
        | Some n \<Rightarrow> (out[n := (out ! n)\<lparr>dt_outcomes := dt_outcomes (out ! n) @ [r]\<rparr>], Some n))
     else (out, current))"

definition traces :: "log_record list \<Rightarrow> decision_trace list result" where
  "traces records = bindE (numbered_decisions records) (\<lambda>ds.
     Inr (fst (fold (trace_step (fst ` set ds)) (enumerate 0 records) ([], None))))"

definition decision_gaps :: "log_record list \<Rightarrow> int \<Rightarrow> (int \<times> int) list result" where
  "decision_gaps records min_ticks = bindE (decisions records) (\<lambda>ds. bindE (mapE tick_of ds) (\<lambda>ticks.
     let ticks = sorted_list_of_set (set ticks)
     in Inr (map (\<lambda>(a, b). (a + 1, b - 1)) (filter (\<lambda>(a, b). min_ticks < b - a) (zip ticks (tl ticks))))))"

definition run_header :: "log_record list \<Rightarrow> log_record" where
  "run_header records = (case find (\<lambda>r. lg_kind r = Some ''run_start'') records of
     None \<Rightarrow> no_fields | Some r \<Rightarrow> r)"

definition trade_step :: "trade_sight \<Rightarrow> string set \<times> trade_sight list \<Rightarrow> string set \<times> trade_sight list" where
  "trade_step t acc = (case acc of (seen, trades) \<Rightarrow>
     if tv_transaction_id t \<in> seen then (seen, trades)
     else (insert (tv_transaction_id t) seen, trades @ [t]))"

definition completed_trades :: "log_record list \<Rightarrow> trade_sight list" where
  "completed_trades records =
     snd (fold (\<lambda>d. fold trade_step (if is_decision d then get_list (lg_new_transactions d) else [])) records ({}, []))"

subsection \<open>Responsiveness and participation\<close>

definition observed_percentile :: "rat list \<Rightarrow> rat \<Rightarrow> rat result" where
  "observed_percentile ordered fraction =
     (let rank = max 1 \<lceil>fmul fraction (fint (int (length ordered)))\<rceil>
      in if rank - 1 < int (length ordered) then Inr (ordered ! nat (rank - 1)) else Inl IndexError)"

record stage_summary =
  sg_count :: nat
  sg_p50 :: rat
  sg_p95 :: rat
  sg_max :: rat

record response_report =
  rp_series :: "(string \<times> stage_summary) list"
  rp_deadline_checks :: nat
  rp_missed_deadlines :: nat
  rp_superseded :: nat

definition take_samples :: "string \<Rightarrow> rat option \<Rightarrow> (string, rat list) pydict \<Rightarrow> (string, rat list) pydict" where
  "take_samples k v t = (case v of None \<Rightarrow> t | Some ms \<Rightarrow> dict_set k (dict_get_or [] t k @ [ms]) t)"

definition sample_record :: "log_record \<Rightarrow> (string, rat list) pydict \<Rightarrow> (string, rat list) pydict" where
  "sample_record r t =
     (let t = (case if is_decision r then lg_timing r else None of
            None \<Rightarrow> t
          | Some (queue, decide') \<Rightarrow> take_samples ''decide'' decide' (take_samples ''queue'' queue t))
      in if is_command r then take_samples ''confirm'' (lg_confirm_ms r) (take_samples ''response'' (lg_response_ms r) t)
         else t)"

definition stage_of :: "rat list \<Rightarrow> stage_summary result" where
  "stage_of values =
     (let ordered = sort values
      in bindE (observed_percentile ordered (fl (1 / 2))) (\<lambda>a. bindE (observed_percentile ordered (fl (19 / 20))) (\<lambda>b.
         Inr \<lparr>sg_count = length ordered, sg_p50 = a, sg_p95 = b, sg_max = last ordered\<rparr>)))"

definition responsiveness :: "log_record list \<Rightarrow> response_report result" where
  "responsiveness records =
     (let samples = fold sample_record records (map (\<lambda>name. (name, [])) SERIES);
          checked = filter (\<lambda>r. is_command r \<and> lg_deadline_missed r \<noteq> None) records
      in bindE (mapE (\<lambda>(name, values). bindE (stage_of values) (\<lambda>g. Inr (name, g)))
                  (filter (\<lambda>(_, values). values \<noteq> []) samples)) (\<lambda>series.
         bindE (decisions records) (\<lambda>ds.
         Inr \<lparr>rp_series = series, rp_deadline_checks = length checked,
              rp_missed_deadlines = length (filter (\<lambda>r. lg_deadline_missed r = Some True) checked),
              rp_superseded = length (filter (\<lambda>d. case lg_states_during_decision d of
                 None \<Rightarrow> False | Some n \<Rightarrow> 0 < n) ds)\<rparr>)))"

record participation_report =
  pt_acted :: nat
  pt_waited :: int
  pt_wait_reasons :: "(string \<times> int) list"
  pt_skipped_ticks :: "(int \<times> int) list"
  pt_stale_events :: "log_record list"
  pt_status_seconds :: "(string, rat) pydict"
  pt_statuses :: "(string \<times> string \<times> string) list"

definition wait_reason_of :: "log_record \<Rightarrow> string" where
  "wait_reason_of d = (case lg_wait_reason d of
     Some (c # cs) \<Rightarrow> c # cs
   | _ \<Rightarrow> (case get_list (lg_reasons d) of x # _ \<Rightarrow> x | [] \<Rightarrow> ''no action''))"

definition skips :: "log_record \<Rightarrow> bool" where
  "skips d \<longleftrightarrow> (case lg_ticks_skipped d of None \<Rightarrow> False | Some n \<Rightarrow> n \<noteq> 0)"

definition status_rows :: "log_record list \<Rightarrow> log_record list" where
  "status_rows records = filter (\<lambda>r. lg_kind r = Some ''status'') records"

definition participation :: "log_record list \<Rightarrow> participation_report result" where
  "participation records = bindE (decisions records) (\<lambda>ds.
     let waits = counter (map wait_reason_of (filter (\<lambda>d. \<not> has_actions d) ds))
     in bindE (mapE (\<lambda>d. bindE (tick_of d) (\<lambda>tick. Inr (tick, the (lg_ticks_skipped d)))) (filter skips ds)) (\<lambda>stalls.
        bindE (mapE (\<lambda>r. bindE (key ''status'' (lg_status r)) (\<lambda>st. Inr (r, st))) (status_rows records)) (\<lambda>sts.
        bindE (mapE (\<lambda>(r, st). bindE (key ''timestamp'' (lg_timestamp r)) (\<lambda>t.
                 Inr (t, st, case lg_detail r of None \<Rightarrow> '''' | Some x \<Rightarrow> x))) sts) (\<lambda>rows.
        Inr \<lparr>pt_acted = length (filter has_actions ds), pt_waited = sum_list (map snd waits),
             pt_wait_reasons = most_common waits, pt_skipped_ticks = stalls,
             pt_stale_events = map fst (filter (\<lambda>(_, st). st = ''stale'') sts),
             pt_status_seconds = (case find (\<lambda>r. lg_kind r = Some ''run_end'') (rev records) of
                None \<Rightarrow> [] | Some e \<Rightarrow> get_list (lg_status_seconds e)),
             pt_statuses = rows\<rparr>))))"

subsection \<open>Overview\<close>

record run_overview =
  ow_build :: "string option"
  ow_strategy :: "string option"
  ow_trades_completed :: "nat option"
  ow_decisions :: nat
  ow_acting_decisions :: nat
  ow_first_tick :: "int option"
  ow_last_tick :: "int option"
  ow_final_health :: "int option"
  ow_final_inventory :: "(string \<times> int) list option"
  ow_commands_sent :: nat
  ow_commands_ok :: nat
  ow_commands_rejected :: nat
  ow_trades_settled :: nat
  ow_connections :: nat
  ow_downtime_s :: rat
  ow_first_shortage_tick :: "int option"
  ow_health_lost :: int

definition field_of :: "string \<Rightarrow> (log_record \<Rightarrow> 'a option) \<Rightarrow> log_record option \<Rightarrow> 'a option result" where
  "field_of k f d = (case d of None \<Rightarrow> Inr None | Some d \<Rightarrow> bindE (key k (f d)) (\<lambda>x. Inr (Some x)))"

definition first_of :: "'a list \<Rightarrow> 'a option" where
  "first_of xs = (case xs of [] \<Rightarrow> None | x # _ \<Rightarrow> Some x)"

definition overview :: "(string \<Rightarrow> rat result) \<Rightarrow> log_record list \<Rightarrow> run_overview result" where
  "overview ts records =
     bindE (decisions records) (\<lambda>ds.
     bindE (connection_periods ts records) (\<lambda>periods.
     bindE (shortages records) (\<lambda>short.
     let last_d = first_of (rev ds); commands = filter is_command records; header = run_header records
     in bindE (field_of ''tick'' lg_tick (first_of ds)) (\<lambda>first_tick.
        bindE (field_of ''tick'' lg_tick last_d) (\<lambda>last_tick.
        bindE (field_of ''health'' lg_health last_d) (\<lambda>h.
        bindE (field_of ''inventory'' lg_inventory last_d) (\<lambda>stock.
        bindE (mapE (\<lambda>r. key ''event'' (lg_event r)) (filter is_connection records)) (\<lambda>events.
        Inr \<lparr>ow_build = lg_build header, ow_strategy = lg_strategy header,
             ow_trades_completed = (if \<exists>d \<in> set ds. lg_new_transactions d \<noteq> None
                then Some (length (completed_trades records)) else None),
             ow_decisions = length ds, ow_acting_decisions = length (filter has_actions ds),
             ow_first_tick = first_tick, ow_last_tick = last_tick, ow_final_health = h,
             ow_final_inventory = stock, ow_commands_sent = length (filter is_action records),
             ow_commands_ok = length (filter (\<lambda>a. lg_result_ok a = Some True) commands),
             ow_commands_rejected = length (filter (\<lambda>a. lg_result_ok a \<noteq> Some True) commands),
             ow_trades_settled = length (settled_trades records),
             ow_connections = length (filter (\<lambda>e. e = ''connected'') events),
             ow_downtime_s = total_downtime periods,
             ow_first_shortage_tick = map_option sh_tick (first_of short),
             ow_health_lost = sum_list (map sh_health_lost short)\<rparr>))))))))"

subsection \<open>Key findings\<close>

record streak =
  sk_start :: int
  sk_end :: int
  sk_length :: int
  sk_health_lost :: int
  sk_empty :: "string list"

definition streak_step :: "shortage_row \<Rightarrow> streak list \<Rightarrow> streak list" where
  "streak_step row streaks =
     (if streaks \<noteq> [] \<and> sh_tick row - sk_end (last streaks) = 1 then
        let s = last streaks
        in butlast streaks @ [s\<lparr>sk_end := sh_tick row, sk_length := sk_length s + 1,
             sk_health_lost := sk_health_lost s + sh_health_lost row,
             sk_empty := fold (\<lambda>r es. if r \<in> set es then es else es @ [r]) (sh_empty row) (sk_empty s)\<rparr>]
      else streaks @ [\<lparr>sk_start = sh_tick row, sk_end = sh_tick row, sk_length = 1,
             sk_health_lost = sh_health_lost row, sk_empty = sh_empty row\<rparr>])"

definition shortage_streaks :: "shortage_row list \<Rightarrow> streak list" where
  "shortage_streaks rows = fold streak_step rows []"

definition trade_balance :: "trade_sight list \<Rightarrow> (string \<times> int) list" where
  "trade_balance trades = map (\<lambda>r. (r, sum_list (map (\<lambda>t.
     dict_get_or 0 (tv_we_got t) r - dict_get_or 0 (tv_we_paid t) r) trades))) RESOURCES"

datatype severity = Bad | Warn | Info

datatype finding =
    DominantRejection severity string int int
  | ShortageStreak severity streak
  | SlowStage severity string stage_summary
  | HealthDrop severity int int int
  | TradeBalance severity nat "(string \<times> int) list"
  | DecisionGap severity int int int

fun severity_of :: "finding \<Rightarrow> severity" where
  "severity_of (DominantRejection s _ _ _) = s"
| "severity_of (ShortageStreak s _) = s"
| "severity_of (SlowStage s _ _) = s"
| "severity_of (HealthDrop s _ _ _) = s"
| "severity_of (TradeBalance s _ _) = s"
| "severity_of (DecisionGap s _ _ _) = s"

fun severity_order :: "severity \<Rightarrow> int" where
  "severity_order Bad = 0"
| "severity_order Warn = 1"
| "severity_order Info = 2"

definition rejection_finding :: "log_record list \<Rightarrow> finding list" where
  "rejection_finding records =
     (let rejections = rejection_summary records
      in case py_max snd rejections of
           None \<Rightarrow> []
         | Some (c, n) \<Rightarrow> let whole = sum_list (map snd rejections)
             in [DominantRejection (if 1 / 2 < fdiv (of_int n) (of_int whole) then Bad else Warn) c n whole])"

definition streak_finding :: "shortage_row list \<Rightarrow> finding list" where
  "streak_finding rows = (case py_max (\<lambda>s. (sk_health_lost s, sk_length s)) (shortage_streaks rows) of
     None \<Rightarrow> [] | Some s \<Rightarrow> [ShortageStreak Bad s])"

definition stage_finding :: "response_report \<Rightarrow> finding list" where
  "stage_finding rp = (case py_max (\<lambda>(_, g). sg_p95 g) (rp_series rp) of
     None \<Rightarrow> [] | Some (name, g) \<Rightarrow> [SlowStage (if 1000 < sg_p95 g then Warn else Info) name g])"

definition drop_finding :: "shortage_row list \<Rightarrow> finding list" where
  "drop_finding rows = (case py_max sh_health_lost (filter (\<lambda>s. 0 < sh_health_lost s) rows) of
     None \<Rightarrow> [] | Some s \<Rightarrow> [HealthDrop Bad (sh_tick s) (sh_health s) (sh_health_lost s)])"

text \<open>The fallback, the records of our accepts, lacks \<open>we_paid\<close> and \<open>we_got\<close> and gives no finding.\<close>

definition balance_finding :: "log_record list \<Rightarrow> finding list" where
  "balance_finding records =
     (let trades = completed_trades records
      in if trades = [] then [] else [TradeBalance Info (length trades) (trade_balance trades)])"

definition gap_finding :: "(int \<times> int) list \<Rightarrow> finding list" where
  "gap_finding gaps = (case py_max (\<lambda>(a, b). b - a) gaps of
     None \<Rightarrow> [] | Some (a, b) \<Rightarrow> [DecisionGap Warn a b (b - a + 1)])"

definition key_findings :: "log_record list \<Rightarrow> finding list result" where
  "key_findings records =
     bindE (shortages records) (\<lambda>short.
     bindE (responsiveness records) (\<lambda>speed.
     bindE (decision_gaps records 3) (\<lambda>gaps.
     Inr (sort_key (\<lambda>f. severity_order (severity_of f))
       (rejection_finding records @ streak_finding short @ stage_finding speed @ drop_finding short
        @ balance_finding records @ gap_finding gaps)))))"

end
