(* ===== verification/Analysis_Facts.thy ===== *)
theory Analysis_Facts
  imports Analysis Trading
begin

text \<open>
  What the reader of the evidence log computes: no decision tick is lost, connection periods follow
  one another, streaks partition the shortages, and every trade a station was party to is listed once.
\<close>

subsection \<open>Connection periods\<close>

text \<open>Periods in order of time, from \<open>a\<close> to \<open>b\<close>.\<close>

fun spans :: "rat \<Rightarrow> rat \<Rightarrow> period list \<Rightarrow> bool" where
  "spans a b [] \<longleftrightarrow> a \<le> b"
| "spans a b (p # ps) \<longleftrightarrow> a \<le> pe_start p \<and> pe_start p \<le> pe_end p \<and> spans (pe_end p) b ps"

lemma spans_le: "spans a b ps \<Longrightarrow> a \<le> b"
  by (induction ps arbitrary: a) fastforce+

lemma spans_later: "spans a b ps \<Longrightarrow> b \<le> c \<Longrightarrow> spans a c ps"
  by (induction ps arbitrary: a) auto

lemma spans_snoc: "spans a b (ps @ [p]) \<longleftrightarrow> spans a (pe_start p) ps \<and> pe_start p \<le> pe_end p \<and> pe_end p \<le> b"
  by (induction ps arbitrary: a) auto

lemma spans_seconds:
  "spans a b ps \<Longrightarrow> sum_list (map (\<lambda>p. pe_end p - pe_start p) (filter P ps)) \<le> b - a"
proof (induction ps arbitrary: a)
  case (Cons p ps)
  then have "sum_list (map (\<lambda>p. pe_end p - pe_start p) (filter P ps)) \<le> b - pe_end p" by simp
  with Cons.prems show ?case by auto
qed simp

lemma spans_nth:
  assumes "spans a b ps" and "i < length ps"
  shows "a \<le> pe_start (ps ! i) \<and> pe_start (ps ! i) \<le> pe_end (ps ! i) \<and> pe_end (ps ! i) \<le> b
     \<and> (\<forall>j<i. pe_end (ps ! j) \<le> pe_start (ps ! i))"
  using assms
proof (induction ps arbitrary: a i)
  case (Cons p ps)
  show ?case
  proof (cases i)
    case 0
    with Cons.prems show ?thesis using spans_le by auto
  next
    case (Suc k)
    with Cons have "pe_end p \<le> pe_start (ps ! k) \<and> pe_start (ps ! k) \<le> pe_end (ps ! k) \<and> pe_end (ps ! k) \<le> b
       \<and> (\<forall>j<k. pe_end (ps ! j) \<le> pe_start (ps ! k))" by auto
    with Suc Cons.prems show ?thesis by (auto simp: less_Suc_eq_0_disj)
  qed
qed simp

text \<open>At most one period is open, and it began after the last closed one ended.\<close>

definition scan_ok :: "rat \<Rightarrow> rat \<Rightarrow> link_scan \<Rightarrow> bool" where
  "scan_ok a now sc \<longleftrightarrow> (ls_up_since sc = None \<or> ls_down_since sc = None)
     \<and> (case ls_up_since sc of Some t \<Rightarrow> t \<le> now \<and> spans a t (ls_periods sc)
        | None \<Rightarrow> (case ls_down_since sc of Some t \<Rightarrow> t \<le> now \<and> spans a t (ls_periods sc)
                   | None \<Rightarrow> spans a now (ls_periods sc)))"

lemma scan_ok_event:
  assumes "scan_ok a t sc" and "t \<le> now"
  shows "scan_ok a now (scan_event event now detail sc)"
  using assms
  by (auto simp: scan_ok_def scan_event_def close_period_def spans_snoc Let_def split: option.splits
      intro: spans_later order_trans)

lemma scan_ok_finish:
  assumes "scan_ok a t sc" and "t \<le> last_ts"
  shows "spans a last_ts (finish_scan last_ts sc)"
  using assms
  by (auto simp: scan_ok_def finish_scan_def close_period_def spans_snoc Let_def split: option.splits
      intro: spans_later order_trans)

lemma stamps_Cons [simp]:
  "stamps (r # rs) = (case lg_timestamp r of None \<Rightarrow> [] | Some t \<Rightarrow> if t = [] then [] else [t]) @ stamps rs"
  by (simp add: stamps_def)

lemma scan_ok_records:
  assumes "\<forall>t. ts '''' \<noteq> Inr t"
  shows "foldE (scan_record ts) rs sc = Inr sc' \<Longrightarrow> mapE ts (stamps rs) = Inr us \<Longrightarrow> sorted us \<Longrightarrow>
    \<forall>u \<in> set us. t \<le> u \<Longrightarrow> scan_ok a t sc \<Longrightarrow> scan_ok a (last (t # us)) sc'"
proof (induction rs arbitrary: sc us t)
  case Nil
  then show ?case by (simp add: stamps_def)
next
  case (Cons r rs)
  from Cons.prems(1) obtain sc1 where sc1: "scan_record ts r sc = Inr sc1" "foldE (scan_record ts) rs sc1 = Inr sc'"
    by (auto elim!: bindE_InrE)
  show ?case
  proof (cases "\<exists>x. lg_timestamp r = Some x \<and> x \<noteq> ''''")
    case False
    then have "sc1 = sc" using sc1(1) assms by (auto simp: scan_record_def key_def split: if_splits option.splits elim!: bindE_InrE)
    moreover from False Cons.prems(2) have "mapE ts (stamps rs) = Inr us" by (auto split: option.splits)
    ultimately show ?thesis using Cons.IH [of sc us t] Cons.prems(3-5) sc1(2) by blast
  next
    case True
    then obtain x where x: "lg_timestamp r = Some x" "x \<noteq> ''''" by blast
    with Cons.prems(2) obtain u us' where u: "ts x = Inr u" "mapE ts (stamps rs) = Inr us'" "us = u # us'"
      by (auto elim!: bindE_InrE)
    have "t \<le> u" using Cons.prems(4) u(3) by simp
    have "scan_ok a u sc" using scan_ok_event [OF Cons.prems(5) \<open>t \<le> u\<close>, of "''''" None] by (simp add: scan_event_def DOWN_EVENTS_def)
    moreover have "sc1 = sc \<or> (\<exists>event. sc1 = scan_event event u (lg_detail r) sc)"
      using sc1(1) x u(1) by (auto simp: scan_record_def key_def split: if_splits elim!: bindE_InrE)
    ultimately have "scan_ok a u sc1" using scan_ok_event [of a u sc u] by auto
    with Cons.IH [of sc1 us' u] sc1(2) u(2,3) Cons.prems(3) show ?thesis by simp
  qed
qed

text \<open>Connection periods in a log whose times do not decrease follow one another between the first
  and the last time of the log, so the time down is at most what the log spans.\<close>

theorem connection_periods_in_order:
  assumes "connection_periods ts records = Inr ps" and "mapE ts (stamps records) = Inr us" and "sorted us"
    and "\<forall>t. ts '''' \<noteq> Inr t"
  shows "(\<forall>i<length ps. hd us \<le> pe_start (ps ! i) \<and> pe_start (ps ! i) \<le> pe_end (ps ! i) \<and> pe_end (ps ! i) \<le> last us
      \<and> (\<forall>j<i. pe_end (ps ! j) \<le> pe_start (ps ! i)))
    \<and> (ps \<noteq> [] \<longrightarrow> sum_list (map (\<lambda>p. pe_end p - pe_start p) (filter (\<lambda>p. pe_state p = Down) ps)) \<le> last us - hd us)"
proof (cases "stamps records = []")
  case True
  with assms(1) show ?thesis by (simp add: connection_periods_def)
next
  case False
  with assms(2) mapE_length have us: "us \<noteq> []" by fastforce
  let ?sc0 = "\<lparr>ls_periods = [], ls_up_since = None, ls_down_since = None, ls_down_detail = None\<rparr>"
  obtain sc where sc: "foldE (scan_record ts) records ?sc0 = Inr sc" "ps = finish_scan (Max (set us)) sc"
    using assms(1,2) False by (auto simp: connection_periods_def elim!: bindE_InrE)
  have hd_le: "\<forall>u \<in> set us. hd us \<le> u" using assms(3) us by (cases us) auto
  have max: "Max (set us) = last us"
  proof (rule Max_eqI)
    show "\<And>u. u \<in> set us \<Longrightarrow> u \<le> last us"
      using assms(3) us by (auto simp: sorted_iff_nth_mono last_conv_nth in_set_conv_nth)
  qed (simp_all add: us)
  have "scan_ok (hd us) (hd us) ?sc0" by (simp add: scan_ok_def)
  from scan_ok_records [OF assms(4) sc(1) assms(2,3) hd_le this] us
  have "scan_ok (hd us) (last us) sc" by simp
  from scan_ok_finish [OF this, of "last us"] have "spans (hd us) (last us) ps" using sc(2) max by simp
  then show ?thesis using spans_nth [of "hd us" "last us" ps] spans_seconds [of "hd us" "last us" ps] by blast
qed

subsection \<open>Shortage streaks\<close>

definition streak_ticks :: "streak list \<Rightarrow> int list" where
  "streak_ticks ss = concat (map (\<lambda>s. [sk_start s..sk_end s]) ss)"

definition streaks_ok :: "shortage_row list \<Rightarrow> streak list \<Rightarrow> bool" where
  "streaks_ok rows ss \<longleftrightarrow> streak_ticks ss = map sh_tick rows
     \<and> (\<forall>s \<in> set ss. sk_start s \<le> sk_end s \<and> sk_length s = sk_end s - sk_start s + 1)
     \<and> sum_list (map sk_health_lost ss) = sum_list (map sh_health_lost rows)
     \<and> (\<forall>i. Suc i < length ss \<longrightarrow> sk_start (ss ! Suc i) \<noteq> sk_end (ss ! i) + 1)"

lemma streaks_ok_step:
  assumes "streaks_ok rows ss"
  shows "streaks_ok (rows @ [row]) (streak_step row ss)"
proof (cases "ss \<noteq> [] \<and> sh_tick row - sk_end (last ss) = 1")
  case True
  then obtain ss0 s where ss: "ss = ss0 @ [s]" by (metis append_butlast_last_id)
  with True have row: "sh_tick row = sk_end s + 1" by simp
  have "sk_start s \<le> sk_end s" using assms ss by (simp add: streaks_ok_def)
  then have "[sk_start s..sk_end s + 1] = [sk_start s..sk_end s] @ [sk_end s + 1]" by (simp add: upto_rec2)
  with assms ss row show ?thesis
    by (auto simp: streaks_ok_def streak_step_def streak_ticks_def Let_def nth_append less_Suc_eq)
next
  case False
  have "sh_tick row \<noteq> sk_end (ss ! i) + 1" if "Suc i = length ss" for i
  proof -
    from that have "ss \<noteq> []" by auto
    with that have "ss ! i = last ss" by (metis diff_Suc_1 last_conv_nth)
    with \<open>ss \<noteq> []\<close> False show ?thesis by simp
  qed
  with assms False show ?thesis
    by (auto simp: streaks_ok_def streak_step_def streak_ticks_def nth_append less_Suc_eq)
qed

text \<open>The streaks of a list of shortages split it: their ticks, one after the other, are the ticks
  of the shortages, no two neighbours could be joined, and no lost health is counted twice or dropped.\<close>

theorem streaks_split_shortages:
  "streak_ticks (shortage_streaks rows) = map sh_tick rows
   \<and> (\<forall>s \<in> set (shortage_streaks rows). sk_start s \<le> sk_end s \<and> sk_length s = sk_end s - sk_start s + 1)
   \<and> sum_list (map sk_health_lost (shortage_streaks rows)) = sum_list (map sh_health_lost rows)
   \<and> (\<forall>i. Suc i < length (shortage_streaks rows) \<longrightarrow>
        sk_start (shortage_streaks rows ! Suc i) \<noteq> sk_end (shortage_streaks rows ! i) + 1)"
proof -
  have "streaks_ok rows (shortage_streaks rows)"
    by (induction rows rule: rev_induct)
      (simp_all add: shortage_streaks_def streaks_ok_step streaks_ok_def [of "[]"] streak_ticks_def)
  then show ?thesis unfolding streaks_ok_def by blast
qed

subsection \<open>Decisions and trades\<close>

definition decision_tick :: "log_record \<Rightarrow> int" where
  "decision_tick r = the (lg_tick r)"

text \<open>No tick with a decision and no decision that has_actions is dropped.\<close>

lemma keep_decision_fold:
  assumes "foldE keep_decision irs (seen, out) = Inr (seen', out')" and "seen = decision_tick ` snd ` set out"
  shows "seen' = decision_tick ` snd ` set out'
    \<and> set out' \<subseteq> set out \<union> set (filter (\<lambda>ir. is_decision (snd ir)) irs)
    \<and> decision_tick ` snd ` set out' = seen \<union> decision_tick ` snd ` set (filter (\<lambda>ir. is_decision (snd ir)) irs)
    \<and> filter (\<lambda>ir. has_actions (snd ir)) out' = filter (\<lambda>ir. has_actions (snd ir)) out
        @ filter (\<lambda>ir. is_decision (snd ir) \<and> has_actions (snd ir)) irs"
  using assms
proof (induction irs arbitrary: seen out)
  case (Cons ir irs)
  obtain i r where ir: "ir = (i, r)" by (cases ir)
  from Cons.prems(1) obtain seen1 out1 where
    1: "keep_decision (i, r) (seen, out) = Inr (seen1, out1)" "foldE keep_decision irs (seen1, out1) = Inr (seen', out')"
    unfolding ir by (auto elim!: bindE_InrE)
  show ?case
  proof (cases "is_decision r")
    case False
    with 1(1) have "seen1 = seen" "out1 = out" by (simp_all add: keep_decision_def)
    with Cons.IH [of seen out] 1(2) Cons.prems(2) False show ?thesis unfolding ir by simp
  next
    case True
    then obtain tick where tick: "lg_tick r = Some tick"
      using 1(1) by (auto simp: keep_decision_def tick_of_def key_def split: option.splits)
    then have dt: "decision_tick r = tick" by (simp add: decision_tick_def)
    show ?thesis
    proof (cases "\<not> has_actions r \<and> tick \<in> seen")
      case kept: True
      with 1(1) True tick have "seen1 = seen" "out1 = out" by (simp_all add: keep_decision_def tick_of_def key_def)
      with Cons.IH [of seen out] 1(2) Cons.prems(2) True kept dt show ?thesis unfolding ir by auto
    next
      case new: False
      with 1(1) True tick have 2: "seen1 = insert tick seen" "out1 = out @ [(i, r)]"
        by (auto simp: keep_decision_def tick_of_def key_def)
      have "seen1 = decision_tick ` snd ` set out1" using 2 Cons.prems(2) dt by auto
      from Cons.IH [OF 1(2) this] True 2 dt show ?thesis unfolding ir by auto
    qed
  qed
qed simp

lemma decisions_complete:
  assumes "decisions records = Inr ds"
  shows "set ds \<subseteq> {r \<in> set records. is_decision r}"
    and "decision_tick ` set ds = decision_tick ` {r \<in> set records. is_decision r}"
    and "filter has_actions ds = filter (\<lambda>r. is_decision r \<and> has_actions r) records"
proof -
  obtain seen out where 1: "foldE keep_decision (enumerate 0 records) ({}, []) = Inr (seen, out)" "ds = map snd out"
    using assms by (auto simp: decisions_def numbered_decisions_def elim!: bindE_InrE)
  have flt: "map snd (filter (\<lambda>ir. P (snd ir)) (enumerate 0 records)) = filter P records" for P
    using filter_map [of P snd "enumerate 0 records"] by (simp add: comp_def)
  then have snd_set: "snd ` set (filter (\<lambda>ir. P (snd ir)) (enumerate 0 records)) = {r \<in> set records. P r}" for P
    by (metis list.set_map set_filter)
  note f = keep_decision_fold [OF 1(1), simplified]
  have "snd ` set out \<subseteq> snd ` set (filter (\<lambda>ir. is_decision (snd ir)) (enumerate 0 records))" using f by auto
  then show "set ds \<subseteq> {r \<in> set records. is_decision r}" using 1(2) unfolding snd_set by simp
  have "decision_tick ` set ds = decision_tick ` snd ` set (filter (\<lambda>ir. is_decision (snd ir)) (enumerate 0 records))"
    using f 1(2) by simp
  then show "decision_tick ` set ds = decision_tick ` {r \<in> set records. is_decision r}" unfolding snd_set .
  have "filter has_actions ds = map snd (filter (\<lambda>ir. is_decision (snd ir) \<and> has_actions (snd ir)) (enumerate 0 records))"
    using f 1(2) by (simp add: filter_map comp_def)
  then show "filter has_actions ds = filter (\<lambda>r. is_decision r \<and> has_actions r) records" using flt [of "\<lambda>r. is_decision r \<and> has_actions r"] by simp
qed

text \<open>Each trade is listed when a decision first shows it.\<close>

lemma trade_fold:
  assumes "fold trade_step ts (seen, trades) = (seen', trades')" and "tv_transaction_id ` set trades = seen"
    and "distinct (map tv_transaction_id trades)"
  shows "tv_transaction_id ` set trades' = seen' \<and> distinct (map tv_transaction_id trades')
    \<and> set trades' \<subseteq> set trades \<union> set ts \<and> seen' = seen \<union> tv_transaction_id ` set ts"
  using assms
proof (induction ts arbitrary: seen trades)
  case (Cons t ts)
  show ?case
  proof (cases "tv_transaction_id t \<in> seen")
    case True
    with Cons.IH [of seen trades] Cons.prems show ?thesis by (auto simp: trade_step_def)
  next
    case False
    with Cons.prems have "tv_transaction_id ` set (trades @ [t]) = insert (tv_transaction_id t) seen"
      "distinct (map tv_transaction_id (trades @ [t]))" by auto
    with Cons.IH [of "insert (tv_transaction_id t) seen" "trades @ [t]"] Cons.prems(1) False
    show ?thesis by (auto simp: trade_step_def)
  qed
qed simp

definition shown_trades :: "log_record list \<Rightarrow> trade_sight list" where
  "shown_trades records = concat (map (\<lambda>d. if is_decision d then get_list (lg_new_transactions d) else []) records)"

lemma completed_trades_shown: "completed_trades records = snd (fold trade_step (shown_trades records) ({}, []))"
proof -
  have "fold (\<lambda>d. fold trade_step (f d)) rs acc = fold trade_step (concat (map f rs)) acc" for f :: "log_record \<Rightarrow> _" and rs acc
    by (induction rs arbitrary: acc) simp_all
  then show ?thesis by (simp add: completed_trades_def shown_trades_def)
qed

lemma completed_trades_once:
  "distinct (map tv_transaction_id (completed_trades records))"
  "set (completed_trades records) \<subseteq> set (shown_trades records)"
  "tv_transaction_id ` set (completed_trades records) = tv_transaction_id ` set (shown_trades records)"
  using trade_fold [of "shown_trades records" "{}" "[]"] unfolding completed_trades_shown
  by (cases "fold trade_step (shown_trades records) ({}, [])"; auto)+

text \<open>
  What a trading loop writes to its log: any other lines and, through \<open>_log_decision\<close>, its decisions.
  \<open>ds\<close> lists what it decided: the state, the decision and the id it was logged under, if it was.
\<close>

inductive log_history :: "(snapshot \<times> decision \<times> string option) list \<Rightarrow> trading_loop \<Rightarrow> bool" where
  log_new: "tr_evidence (lp_trader lp) = evidence_init \<Longrightarrow> ts_last_logged_tick (lp_stats lp) = None \<Longrightarrow> log_history [] lp"
| log_line: "log_history ds lp \<Longrightarrow> (\<And>e. l \<noteq> DecisionLine e) \<Longrightarrow> log_history ds (on_evidence (write_line l) lp)"
| log_decided: "log_history ds lp \<Longrightarrow> log_decision now s d ctx lp = Inr (did, lp') \<Longrightarrow> log_history (ds @ [(s, d, did)]) lp'"
| log_start: "log_history ds lp \<Longrightarrow>
     log_history ds (on_evidence (\<lambda>ev. snd (evidence_start now step a observed did ev)) lp)"
| log_change: "log_history ds lp \<Longrightarrow> log_history ds (on_evidence (change_record f h) lp)"
| log_rest: "log_history ds lp \<Longrightarrow> tr_evidence (lp_trader lp') = tr_evidence (lp_trader lp) \<Longrightarrow>
     ts_last_logged_tick (lp_stats lp') = ts_last_logged_tick (lp_stats lp) \<Longrightarrow> log_history ds lp'"

definition logged :: "(snapshot \<times> decision \<times> string option) list \<Rightarrow> snapshot set" where
  "logged ds = {s. \<exists>d did. (s, d, Some did) \<in> set ds}"

abbreviation evidence_of :: "trading_loop \<Rightarrow> evidence_log" where
  "evidence_of lp \<equiv> tr_evidence (lp_trader lp)"

lemma logged_append:
  "logged (ds @ [(s, d, did)]) = (case did of None \<Rightarrow> logged ds | Some _ \<Rightarrow> insert s (logged ds))"
  by (auto simp: logged_def split: option.splits)

text \<open>A decision is skipped or reaches the log; then its tick is the last one logged.\<close>

lemma log_decision_cases:
  assumes "log_decision now s d ctx lp = Inr (did, lp')"
  shows "(did = None \<and> d_actions d = [] \<and> ts_last_logged_tick (lp_stats lp) = Some (snap_tick s) \<and> lp' = lp)
    \<or> (\<exists>x ctx' passes. did = Some x \<and> evidence_decision now s d ctx' passes (evidence_of lp) = Inr (x, evidence_of lp')
        \<and> ts_last_logged_tick (lp_stats lp') = Some (snap_tick s))"
  using assms
  by (auto simp: log_decision_def Let_def on_stats_def on_evidence_def with_trader_def split: if_splits elim!: bindE_InrE)

lemma shown_trades_line:
  "shown_trades (file_objects extra (ls @ [l])) = shown_trades (file_objects extra ls)
     @ (case l of DecisionLine e \<Rightarrow> de_new_transactions e | _ \<Rightarrow> [])"
  by (cases l) (simp_all add: shown_trades_def file_objects_append is_decision_def get_list_def object_defs)

lemma evidence_decision_line:
  "evidence_decision now s d ctx passes ev = Inr (did, ev') \<Longrightarrow>
     \<exists>e. ev_lines ev' = ev_lines ev @ [DecisionLine e] \<and> de_new_transactions e = new_trades s ev
       \<and> ev_seen_transactions ev' = ev_seen_transactions ev \<union> tv_transaction_id ` set (new_trades s ev)"
  by (auto simp: evidence_decision_def Let_def write_line_def elim!: bindE_InrE)

lemma log_history_trades:
  assumes "log_history ds lp"
  shows "tv_transaction_id ` set (shown_trades (file_objects extra (ev_lines (evidence_of lp)))) = ev_seen_transactions (evidence_of lp)
    \<and> ev_seen_transactions (evidence_of lp) = transaction_id ` (\<Union>s \<in> logged ds. set (transactions s))
    \<and> set (shown_trades (file_objects extra (ev_lines (evidence_of lp))))
        \<subseteq> (\<Union>s \<in> logged ds. (\<lambda>t. trade_view t (self_station_id s)) ` set (transactions s))"
  using assms
proof induction
  case (log_new lp)
  then show ?case by (simp add: evidence_init_def shown_trades_def logged_def)
next
  case (log_line ds lp l)
  then show ?case by (cases l) (auto simp: on_evidence_def with_trader_def write_line_def shown_trades_line)
next
  case (log_decided ds lp now s d ctx did lp')
  show ?case
  proof (cases did)
    case None
    with log_decision_cases [OF log_decided.hyps(2)] log_decided.IH show ?thesis by (simp add: logged_append)
  next
    case (Some x)
    let ?ev = "evidence_of lp" and ?ev' = "evidence_of lp'"
    let ?new = "new_trades s ?ev"
    obtain ctx' passes where ed: "evidence_decision now s d ctx' passes ?ev = Inr (x, ?ev')"
      using log_decision_cases [OF log_decided.hyps(2)] Some by auto
    obtain e where lines: "ev_lines ?ev' = ev_lines ?ev @ [DecisionLine e]" "de_new_transactions e = ?new"
      and seen: "ev_seen_transactions ?ev' = ev_seen_transactions ?ev \<union> tv_transaction_id ` set ?new"
      using evidence_decision_line [OF ed] by blast
    have new: "set ?new \<subseteq> (\<lambda>t. trade_view t (self_station_id s)) ` set (transactions s)"
      and seen_new: "ev_seen_transactions ?ev' = ev_seen_transactions ?ev \<union> transaction_id ` set (transactions s)"
      unfolding seen by (auto simp: new_trades_def image_image)
    have shown: "shown_trades (file_objects extra (ev_lines ?ev')) = shown_trades (file_objects extra (ev_lines ?ev)) @ ?new"
      using lines by (simp add: shown_trades_line)
    have grown: "logged (ds @ [(s, d, did)]) = insert s (logged ds)" by (simp add: logged_append Some)
    show ?thesis
    proof (intro conjI)
      show "tv_transaction_id ` set (shown_trades (file_objects extra (ev_lines ?ev'))) = ev_seen_transactions ?ev'"
        using log_decided.IH by (simp only: shown seen set_append image_Un)
      show "ev_seen_transactions ?ev' = transaction_id ` (\<Union>s \<in> logged (ds @ [(s, d, did)]). set (transactions s))"
        using log_decided.IH by (simp add: grown seen_new image_Un Un_commute)
      show "set (shown_trades (file_objects extra (ev_lines ?ev')))
          \<subseteq> (\<Union>s \<in> logged (ds @ [(s, d, did)]). (\<lambda>t. trade_view t (self_station_id s)) ` set (transactions s))"
        unfolding shown grown using log_decided.IH new by (simp add: le_supI1 le_supI2)
    qed
  qed
next
  case (log_rest ds lp lp')
  then show ?case by simp
qed (auto simp: evidence_start_def change_record_def on_evidence_def with_trader_def)

lemma log_history_skips:
  assumes "log_history ds lp"
  shows "(\<forall>t. ts_last_logged_tick (lp_stats lp) = Some t \<longrightarrow> (\<exists>s \<in> logged ds. snap_tick s = t))
    \<and> (\<forall>(s, d, did) \<in> set ds. did = None \<longrightarrow> d_actions d = [] \<and> (\<exists>s' \<in> logged ds. snap_tick s' = snap_tick s))"
  using assms
proof induction
  case (log_decided ds lp now s d ctx did lp')
  from log_decision_cases [OF log_decided.hyps(2)] log_decided.IH show ?case
    by (cases did) (auto simp: logged_append)
qed (auto simp: on_evidence_def with_trader_def)

text \<open>C20: The reader lists every trade of every state whose decision was logged exactly once, as that
  station saw it, whatever else the log holds. A decision is left out of the log only when it planned
  nothing and another decision on the same tick was logged.\<close>

theorem every_trade_is_reported:
  assumes "log_history ds lp"
  shows "distinct (map tv_transaction_id (completed_trades (file_objects extra (ev_lines (tr_evidence (lp_trader lp))))))
    \<and> tv_transaction_id ` set (completed_trades (file_objects extra (ev_lines (tr_evidence (lp_trader lp)))))
        = transaction_id ` (\<Union>s \<in> logged ds. set (transactions s))
    \<and> set (completed_trades (file_objects extra (ev_lines (tr_evidence (lp_trader lp)))))
        \<subseteq> (\<Union>s \<in> logged ds. (\<lambda>t. trade_view t (self_station_id s)) ` set (transactions s))
    \<and> (\<forall>(s, d, did) \<in> set ds. did = None \<longrightarrow> d_actions d = [] \<and> (\<exists>s' \<in> logged ds. snap_tick s' = snap_tick s))"
  using log_history_trades [OF assms, of extra] log_history_skips [OF assms]
    completed_trades_once [of "file_objects extra (ev_lines (evidence_of lp))"]
  by (auto simp only: intro: subsetD)

subsection \<open>A log read back\<close>

definition demo_times :: "string \<Rightarrow> rat result" where
  "demo_times t = (if t = '''' then Inl (ValueError ''Invalid isoformat string'') else Inr (of_nat (undigits t)))"

definition demo_link :: "string \<Rightarrow> string \<Rightarrow> log_record" where
  "demo_link time event = line_object (no_fields\<lparr>lg_timestamp := Some time\<rparr>) (ConnectionLine event None None)"

definition demo_file :: "log_record list" where
  "demo_file = [demo_link ''1'' ''connecting'', demo_link ''2'' ''connected'', demo_link ''5'' ''disconnected'',
     demo_link ''6'' ''reconnecting'', demo_link ''8'' ''connected'', demo_link ''9'' ''closed'']"

lemma demo_periods:
  "connection_periods demo_times demo_file = Inr [
     \<lparr>pe_state = Down, pe_start = 1, pe_end = 2, pe_seconds = 1, pe_detail = Some ''connecting''\<rparr>,
     \<lparr>pe_state = Up, pe_start = 2, pe_end = 5, pe_seconds = 3, pe_detail = None\<rparr>,
     \<lparr>pe_state = Down, pe_start = 5, pe_end = 8, pe_seconds = 3, pe_detail = None\<rparr>,
     \<lparr>pe_state = Up, pe_start = 8, pe_end = 9, pe_seconds = 1, pe_detail = None\<rparr>]"
  by code_simp

theorem connection_periods_in_order_witness:
  "connection_periods demo_times demo_file \<noteq> Inr [] \<and> (case connection_periods demo_times demo_file of
     Inl _ \<Rightarrow> False | Inr ps \<Rightarrow> sum_list (map (\<lambda>p. pe_end p - pe_start p) (filter (\<lambda>p. pe_state p = Down) ps)) \<le> 8)"
proof -
  have us: "mapE demo_times (stamps demo_file) = Inr [1, 2, 5, 6, 8, 9]" by code_simp
  have "\<forall>t. demo_times '''' \<noteq> Inr t" by (simp add: demo_times_def)
  from connection_periods_in_order [OF demo_periods us _ this] show ?thesis unfolding demo_periods by simp
qed

lemma only_element: "distinct xs \<Longrightarrow> set xs = {x} \<Longrightarrow> xs = [x]"
  by (cases xs) (auto simp: insert_eq_iff subset_singleton_iff)

definition demo_trade_done :: snapshot where
  "demo_trade_done = demo_tick\<lparr>transactions := [\<lparr>transaction_id = ''transaction-1'', txn_offer_id = ''offer-1'',
     txn_proposer_id = ''P02'', txn_recipient_id = ''P01'', txn_give = Bundle 0 2 0, txn_receive = Bundle 1 0 0,
     settled_tick = 2, settled_version = 3\<rparr>]\<rparr>"

definition demo_context :: decision_context where
  "demo_context = \<lparr>dx_session = 1, dx_strategy = ''reserve-trader'', dx_command_budget = 1, dx_queue_ms = None,
     dx_decide_ms = 2, dx_states_during_decision = 0, dx_wait_reason = None, dx_ticks_skipped = None\<rparr>"

text \<open>A passive client decides twice on the same state: the second decision is not logged again.\<close>

theorem every_trade_is_reported_witness:
  "\<exists>did lp. log_history [(demo_trade_done, decision_new, Some did), (demo_trade_done, decision_new, None)] lp
     \<and> map tv_transaction_id (completed_trades (file_objects (\<lambda>_. no_fields) (ev_lines (tr_evidence (lp_trader lp))))) = [''transaction-1'']"
proof -
  let ?lp = "demo_loop\<lparr>lp_strategy := Passive\<rparr>"
  have new: "log_history [] ?lp"
    by (rule log_new) (simp_all add: demo_loop_def deal_start_def executor_new_def stats_new_def)
  obtain passes where p: "explain_passes Passive demo_trade_done decision_new = Inr passes"
    by (simp add: explain_passive_def)
  obtain did ev where ev: "evidence_decision ''t1'' demo_trade_done decision_new demo_context passes (evidence_of ?lp) = Inr (did, ev)"
    using evidence_decision_total by blast
  obtain lp1 where 1: "log_decision ''t1'' demo_trade_done decision_new demo_context ?lp = Inr (Some did, lp1)"
    and t: "ts_last_logged_tick (lp_stats lp1) = Some (snap_tick demo_trade_done)"
    using p ev by (simp add: log_decision_def Let_def on_stats_def on_evidence_def with_trader_def demo_loop_def stats_new_def)
  have 2: "log_decision ''t2'' demo_trade_done decision_new demo_context lp1 = Inr (None, lp1)"
    by (simp add: log_decision_def t decision_new_def)
  have h: "log_history [(demo_trade_done, decision_new, Some did), (demo_trade_done, decision_new, None)] lp1"
    using log_decided [OF log_decided [OF new 1] 2] by simp
  let ?trades = "completed_trades (file_objects (\<lambda>_. no_fields) (ev_lines (evidence_of lp1)))"
  note reported = every_trade_is_reported [OF h, of "\<lambda>_. no_fields"]
  have one: "transaction_id ` (\<Union>s \<in> logged [(demo_trade_done, decision_new, Some did), (demo_trade_done, decision_new, None)].
      set (transactions s)) = {''transaction-1''}"
    by (simp add: demo_trade_done_def logged_def)
  have "set (map tv_transaction_id ?trades) = {''transaction-1''}"
    unfolding set_map one [symmetric] by (rule conjunct1 [OF conjunct2 [OF reported]])
  with conjunct1 [OF reported] have "map tv_transaction_id ?trades = [''transaction-1'']" by (rule only_element)
  with h show ?thesis by (intro exI conjI)
qed

end
