(* ===== verification/Secrets.thy ===== *)
theory Secrets
  imports Server "HOL-Library.Sublist"
begin

text \<open>
  How credentials are kept out of what is written down: \<open>config.Secret\<close>, the command line of
  \<open>version.redact_argv\<close> and the filter of \<open>logging_setup.py\<close>. Text is a list of 8-bit characters.
\<close>

datatype secret = Secret (reveal: string)

fun secret_repr :: "secret \<Rightarrow> string" where
  "secret_repr (Secret v) = ''Secret(***)''"

fun secret_str :: "secret \<Rightarrow> string" where
  "secret_str (Secret v) = ''***''"

fun secret_bool :: "secret \<Rightarrow> bool" where
  "secret_bool (Secret v) \<longleftrightarrow> v \<noteq> []"

subsection \<open>The recorded command line\<close>

definition SECRET_FLAGS :: "string list" where
  "SECRET_FLAGS = [''--token'']"

definition redact_step :: "string \<Rightarrow> string list \<times> bool \<Rightarrow> string list \<times> bool" where
  "redact_step arg acc = (case acc of (out, hide_next) \<Rightarrow>
     if hide_next then (out @ [''***''], False)
     else if arg \<in> set SECRET_FLAGS then (out @ [arg], True)
     else if \<exists>flag \<in> set SECRET_FLAGS. prefix (flag @ ''='') arg
       then (out @ [takeWhile (\<lambda>c. c \<noteq> CHR ''='') arg @ ''=***''], False)
     else (out @ [arg], False))"

definition redact_argv :: "string list \<Rightarrow> string list" where
  "redact_argv argv = fst (fold redact_step argv ([], False))"

subsection \<open>The log filter\<close>

definition REDACTED :: string where
  "REDACTED = ''***''"

text \<open>\<open>text.replace(old, new)\<close> for a text \<open>old\<close> that is not empty.\<close>

function replace_text :: "string \<Rightarrow> string \<Rightarrow> string \<Rightarrow> string" where
  "replace_text old new [] = []"
| "replace_text old new (c # cs) =
     (if old \<noteq> [] \<and> prefix old (c # cs) then new @ replace_text old new (drop (length old) (c # cs))
      else c # replace_text old new cs)"
  by pat_completeness auto
termination by (relation "measure (\<lambda>(_, _, t). length t)") auto

definition lower_char :: "char \<Rightarrow> char" where
  "lower_char c = (let n = of_char c :: nat in if 65 \<le> n \<and> n \<le> 90 then char_of (n + 32) else c)"

text \<open>
  \<open>re.sub(r"(Bearer\s+)\S+", r"\1***")\<close>, case ignored: the blanks and the word after them are taken
  as far as they go, so the text after a match starts at the first blank after the word.
\<close>

function scrub_bearer :: "string \<Rightarrow> string" where
  "scrub_bearer [] = []"
| "scrub_bearer (c # cs) =
     (let whole = c # cs; blanks = takeWhile py_space (drop 6 whole); rest = dropWhile py_space (drop 6 whole)
      in if map lower_char (take 6 whole) = ''bearer'' \<and> blanks \<noteq> [] \<and> rest \<noteq> []
         then take 6 whole @ blanks @ REDACTED @ scrub_bearer (dropWhile (\<lambda>x. \<not> py_space x) rest)
         else c # scrub_bearer cs)"
  by pat_completeness auto
termination
proof (relation "measure length", goal_cases)
  case (2 c cs whole blanks rest)
  have "length (dropWhile (\<lambda>x. \<not> py_space x) rest) \<le> length rest" by (rule length_dropWhile_le)
  also have "\<dots> \<le> length (drop 6 whole)" unfolding 2 by (rule length_dropWhile_le)
  also have "\<dots> < length (c # cs)" unfolding 2 by simp
  finally show ?case by simp
qed simp_all

text \<open>The state of the filter is the list of its secrets.\<close>

definition filter_new :: "string list \<Rightarrow> string list" where
  "filter_new secrets = filter (\<lambda>s. s \<noteq> []) secrets"

definition add_secret :: "string \<Rightarrow> string list \<Rightarrow> string list" where
  "add_secret secret secrets = (if secret \<noteq> [] \<and> secret \<notin> set secrets then secrets @ [secret] else secrets)"

definition scrub :: "string list \<Rightarrow> string \<Rightarrow> string" where
  "scrub secrets text = fold (\<lambda>s t. replace_text s REDACTED t) secrets (scrub_bearer text)"

text \<open>A message that cannot be formatted passes as it is; the result is the message to be written.\<close>

definition filter_record :: "string list \<Rightarrow> string option \<Rightarrow> string option" where
  "filter_record secrets formatted = (case formatted of
     None \<Rightarrow> None
   | Some t \<Rightarrow> Some (if scrub secrets t \<noteq> t then scrub secrets t else t))"

subsection \<open>Nothing secret is left\<close>

text \<open>What replacing by any mark does; the filter's mark is \<open>***\<close>.\<close>

locale replacement =
  fixes new :: string
  assumes new: "new \<noteq> []"
begin

lemma disjoint_prefix: "set p \<inter> set new = {} \<Longrightarrow> prefix p (new @ r) \<Longrightarrow> p = []"
  using new by (cases p; cases new) auto

lemma disjoint_sublist:
  assumes "set p \<inter> set new = {}" and "p \<noteq> []" and "sublist p (new @ r)"
  shows "sublist p r"
proof -
  from assms(3) consider "sublist p new" | "sublist p r"
    | us vs where "p = us @ vs" "suffix us new" "prefix vs r" by (auto simp: sublist_append)
  then show ?thesis
  proof cases
    case 1
    with assms(1,2) set_mono_sublist have False by (cases p) fastforce+
    then show ?thesis ..
  next
    case 3
    with assms(1) set_mono_suffix have "us = []" by (cases us) fastforce+
    with 3 show ?thesis by (simp add: prefix_imp_sublist)
  qed
qed

lemma prefix_replace:
  "set p \<inter> set new = {} \<Longrightarrow> prefix p (replace_text old new t) \<Longrightarrow> prefix p t"
proof (induction t arbitrary: p rule: length_induct)
  case (1 t)
  show ?case
  proof (cases t)
    case (Cons c cs)
    show ?thesis
    proof (cases "old \<noteq> [] \<and> prefix old t")
      case True
      with 1 Cons have "prefix p (new @ replace_text old new (drop (length old) t))" by simp
      with disjoint_prefix 1 have "p = []" by blast
      then show ?thesis by simp
    next
      case False
      with 1 Cons show ?thesis by (cases p) auto
    qed
  qed (use 1 in simp)
qed

text \<open>Replacing brings in no occurrence of a text that shares no character with the replacement.\<close>

lemma sublist_replace:
  "set p \<inter> set new = {} \<Longrightarrow> p \<noteq> [] \<Longrightarrow> sublist p (replace_text old new t) \<Longrightarrow> sublist p t"
proof (induction t rule: length_induct)
  case (1 t)
  show ?case
  proof (cases t)
    case (Cons c cs)
    show ?thesis
    proof (cases "old \<noteq> [] \<and> prefix old t")
      case True
      then have "sublist p (new @ replace_text old new (drop (length old) t))" using 1 Cons by simp
      then have "sublist p (replace_text old new (drop (length old) t))" using disjoint_sublist 1 by blast
      moreover have "length (drop (length old) t) < length t" using True Cons by (cases old) auto
      ultimately have "sublist p (drop (length old) t)" using 1 by blast
      then show ?thesis by (meson sublist_drop sublist_order.order_trans)
    next
      case False
      with 1 Cons consider "prefix p (c # replace_text old new cs)" | "sublist p (replace_text old new cs)"
        by (auto simp: sublist_Cons_right)
      then show ?thesis
      proof cases
        case 1
        then have "prefix p (c # cs)" using prefix_replace \<open>set p \<inter> set new = {}\<close> by (cases p) auto
        with Cons show ?thesis by (simp add: prefix_imp_sublist)
      next
        case 2
        with 1 Cons have "sublist p cs" by simp
        with Cons show ?thesis by (simp add: sublist_Cons_right)
      qed
    qed
  qed (use 1 in simp)
qed

lemma replace_hides:
  "set s \<inter> set new = {} \<Longrightarrow> s \<noteq> [] \<Longrightarrow> \<not> sublist s (replace_text s new t)"
proof (induction t rule: length_induct)
  case (1 t)
  show ?case
  proof (cases t)
    case (Cons c cs)
    show ?thesis
    proof (cases "prefix s t")
      case True
      then have "length (drop (length s) t) < length t" using 1 Cons by (cases s) auto
      with 1 have "\<not> sublist s (replace_text s new (drop (length s) t))" by blast
      moreover have "replace_text s new t = new @ replace_text s new (drop (length s) t)" using True 1 Cons by simp
      ultimately show ?thesis using disjoint_sublist 1 by metis
    next
      case False
      have "\<not> prefix s (c # replace_text s new cs)"
        using False Cons prefix_replace [of "tl s" s cs] 1 by (cases s) auto
      moreover have "\<not> sublist s (replace_text s new cs)" using 1 Cons by simp
      ultimately show ?thesis using False Cons by (simp add: sublist_Cons_right)
    qed
  qed (use 1 in simp)
qed

end

interpretation red: replacement REDACTED
  by unfold_locales (simp add: REDACTED_def)

lemma scrub_keeps_hidden:
  assumes "set s \<inter> set REDACTED = {}" and "s \<noteq> []" and "\<not> sublist s t"
  shows "\<not> sublist s (fold (\<lambda>s t. replace_text s REDACTED t) secrets t)"
  using assms(3)
proof (induction secrets arbitrary: t)
  case (Cons s' secrets)
  then have "\<not> sublist s (replace_text s' REDACTED t)"
    using red.sublist_replace [of s s' t] assms(1,2) by auto
  then show ?case using Cons.IH by simp
qed simp

text \<open>C34: A secret without an asterisk never appears in a logged message, whatever the message, the
  other secrets and the order they were added in.\<close>

theorem logs_hide_secrets:
  assumes "filter_record (fold add_secret added (filter_new secrets)) (Some message) = Some logged"
    and "s \<in> set secrets \<union> set added" and "s \<noteq> []" and "CHR ''*'' \<notin> set s"
  shows "\<not> sublist s logged"
proof -
  let ?fs = "fold add_secret added (filter_new secrets)"
  have add: "set (fold add_secret xs fs) = set fs \<union> (set xs - {[]})" for xs fs
    by (induction xs arbitrary: fs) (auto simp: add_secret_def)
  have "s \<in> set ?fs" using assms(2,3) by (auto simp: add filter_new_def)
  then obtain xs ys where fs: "?fs = xs @ s # ys" by (meson split_list)
  have dis: "set s \<inter> set REDACTED = {}" using assms(4) by (auto simp: REDACTED_def)
  let ?t = "fold (\<lambda>s t. replace_text s REDACTED t) xs (scrub_bearer message)"
  have "\<not> sublist s (replace_text s REDACTED ?t)"
    using red.replace_hides [OF dis assms(3)] by simp
  then have "\<not> sublist s (scrub ?fs message)"
    using scrub_keeps_hidden [OF dis assms(3)] by (simp add: fs scrub_def)
  with assms(1) show ?thesis by (auto simp: filter_record_def split: if_splits)
qed

theorem logs_hide_secrets_witness:
  "filter_record (fold add_secret [''k9''] (filter_new [''tok-1''])) (Some ''sent tok-1 and Bearer abc k9!'')
     = Some ''sent *** and Bearer *** ***!'' \<and> \<not> sublist ''tok-1'' ''sent *** and Bearer *** ***!''"
proof -
  have "filter_record (fold add_secret [''k9''] (filter_new [''tok-1''])) (Some ''sent tok-1 and Bearer abc k9!'')
     = Some ''sent *** and Bearer *** ***!''" by code_simp
  from this logs_hide_secrets [OF this, of "''tok-1''"] show ?thesis by simp
qed

text \<open>The recorded command line does not depend on a token.\<close>

lemma fold_redact_out:
  "fold redact_step xs (out, h) = (out @ fst (fold redact_step xs ([], h)), snd (fold redact_step xs ([], h)))"
proof (induction xs arbitrary: out h)
  case (Cons x xs)
  obtain o1 h1 where 1: "redact_step x ([], h) = (o1, h1)" by (cases "redact_step x ([], h)")
  then have "redact_step x (out, h) = (out @ o1, h1)" by (auto simp: redact_step_def split: if_splits)
  with 1 Cons.IH [of "out @ o1" h1] Cons.IH [of o1 h1] show ?case by simp
qed simp

lemma redact_hides_token:
  assumes "pre = [] \<or> last pre \<noteq> ''--token''"
  shows "redact_argv (pre @ [''--token'', t] @ post) = redact_argv (pre @ [''--token'', t'] @ post)"
    and "redact_argv (pre @ (''--token='' @ t) # post) = redact_argv (pre @ (''--token='' @ t') # post)"
proof -
  have "snd (fold redact_step pre ([], False)) = False"
    using assms by (induction pre rule: rev_induct) (auto simp: redact_step_def SECRET_FLAGS_def split: prod.splits)
  then obtain o1 where pre: "fold redact_step pre ([], False) = (o1, False)" by (metis prod.collapse)
  show "redact_argv (pre @ [''--token'', t] @ post) = redact_argv (pre @ [''--token'', t'] @ post)"
    "redact_argv (pre @ (''--token='' @ t) # post) = redact_argv (pre @ (''--token='' @ t') # post)"
    using pre by (simp_all add: redact_argv_def redact_step_def SECRET_FLAGS_def prefix_def)
qed

text \<open>Other spellings are recorded as they are: \<open>argparse\<close> also takes \<open>--tok\<close> for the token, and the
  coordinator's key has a flag of its own.\<close>

lemma other_flags_recorded:
  "redact_argv [''--tok'', t] = (if t = ''--token'' then [''--tok'', ''--token''] else redact_argv [''--tok''] @ redact_argv [t])"
  "redact_argv [''--hivemind-key'', ''k''] = [''--hivemind-key'', ''k'']"
  by (auto simp: redact_argv_def redact_step_def SECRET_FLAGS_def prefix_def)

end
