(* ===== verification/Config.thy ===== *)
theory Config
  imports Secrets Strategy
begin

text \<open>
  \<open>bazaar_client/config.py\<close>, with the credentials file that \<open>BazaarServer.credentials\<close> writes and
  \<open>read_token_from_credentials\<close> reads. The arguments are what \<open>parse_args\<close> returns, the environment and
  the file system are given. A JSON object is a record of optional fields, as in \<open>Logbook\<close>.
\<close>

record player_entry =
  pl_station_id :: "string option"
  pl_token :: "string option"
  pl_display_name :: "string option"

datatype json_key = KeyText string | KeyOther

record credentials_document =
  cd_run_id :: "string option"
  cd_players :: "player_entry list option"
  cd_hivemind_key :: "json_key option"

text \<open>What \<open>json.loads(path.read_text())\<close> gives: an error of either call, a value without \<open>get\<close>, or an object.\<close>

datatype file_read = Unreadable string | NotAnObject | Document credentials_document

datatype config_error =
    MissingTokenError string
  | UnknownStrategy string
  | NegativeStatusEvery
  | UnreadableKey
  | BadKey
  | OtherError py_error

subsection \<open>Tokens\<close>

fun find_token :: "string \<Rightarrow> string \<Rightarrow> player_entry list \<Rightarrow> config_error + string" where
  "find_token path sid [] = Inl (MissingTokenError (path @ '' has no entry for station '' @ sid))"
| "find_token path sid (pl # players) =
     (if pl_station_id pl = Some sid then
        (case pl_token pl of
           Some (c # cs) \<Rightarrow> Inr (c # cs)
         | _ \<Rightarrow> Inl (MissingTokenError (path @ '' has no token for station '' @ sid)))
      else find_token path sid players)"

definition read_token_from_credentials :: "string \<Rightarrow> file_read \<Rightarrow> string \<Rightarrow> config_error + string" where
  "read_token_from_credentials path file sid = (case file of
     Unreadable e \<Rightarrow> Inl (MissingTokenError (''could not read credentials file '' @ path @ '': '' @ e))
   | NotAnObject \<Rightarrow> Inl (OtherError AttributeError)
   | Document doc \<Rightarrow> find_token path sid (case cd_players doc of None \<Rightarrow> [] | Some ps \<Rightarrow> ps))"

text \<open>\<open>file\<close> is absent when the path does not exist.\<close>

definition resolve_token :: "string option \<Rightarrow> string option \<Rightarrow> string \<Rightarrow> string \<Rightarrow> file_read option \<Rightarrow>
    config_error + secret" where
  "resolve_token cli_token env_token sid path file = (case cli_token of
     Some (c # cs) \<Rightarrow> Inr (Secret (c # cs))
   | _ \<Rightarrow> (case env_token of
       Some (c # cs) \<Rightarrow> Inr (Secret (c # cs))
     | _ \<Rightarrow> (case file of
         Some f \<Rightarrow> map_sum id Secret (read_token_from_credentials path f sid)
       | None \<Rightarrow> Inl (MissingTokenError
           (''no token supplied: pass --token, set BAZAAR_TOKEN, or run where '' @ path @ '' exists'')))))"

subsection \<open>Configuration\<close>

record client_config =
  cc_ws_url :: string
  cc_token :: secret
  cc_station_id :: string
  cc_run_id_file :: "string option"
  cc_log_level :: string
  cc_connect_timeout_s :: rat
  cc_reconnect_max_backoff_s :: rat
  cc_mode :: string
  cc_evidence_file :: "string option"
  cc_max_decisions :: "int option"
  cc_strategy :: string
  cc_status_every :: int
  cc_status_file :: "string option"
  cc_hivemind_endpoint :: string
  cc_hivemind_key :: "secret option"
  cc_hivemind_exit_on_finish :: bool

record cli_args =
  ca_ws_url :: string
  ca_token :: "string option"
  ca_station_id :: string
  ca_credentials_file :: string
  ca_run_id_file :: "string option"
  ca_log_level :: string
  ca_mode :: string
  ca_evidence_file :: "string option"
  ca_no_evidence :: bool
  ca_max_decisions :: "int option"
  ca_hivemind_endpoint :: string
  ca_hivemind_key :: "string option"
  ca_hivemind_exit_on_finish :: bool
  ca_strategy :: string
  ca_status_every :: int
  ca_status_file :: "string option"

definition evidence_path :: "string \<Rightarrow> cli_args \<Rightarrow> string option" where
  "evidence_path stamp args =
     (if ca_evidence_file args = None \<and> \<not> ca_no_evidence args \<and> ca_mode args \<in> {''trade'', ''walkthrough''}
      then Some (''logs/live/'' @ stamp @ ''/'' @ ca_mode args @ ''-'' @ ca_station_id args @ ''-evidence.jsonl'')
      else ca_evidence_file args)"

definition hive_key :: "cli_args \<Rightarrow> file_read option \<Rightarrow> config_error + json_key option" where
  "hive_key args file =
     (if ca_mode args = ''hivemind'' \<and> ca_hivemind_key args = None \<and> file \<noteq> None
      then (case the file of Document doc \<Rightarrow> Inr (cd_hivemind_key doc) | _ \<Rightarrow> Inl UnreadableKey)
      else Inr (map_option KeyText (ca_hivemind_key args)))"

text \<open>A key must be a text with something other than blanks in it.\<close>

definition checked_key :: "json_key option \<Rightarrow> config_error + secret option" where
  "checked_key k = (case k of
     None \<Rightarrow> Inr None
   | Some KeyOther \<Rightarrow> Inl BadKey
   | Some (KeyText t) \<Rightarrow> if strip t = [] then Inl BadKey else Inr (Some (Secret t)))"

definition config_from_args :: "string \<Rightarrow> string option \<Rightarrow> file_read option \<Rightarrow> cli_args \<Rightarrow> config_error + client_config" where
  "config_from_args stamp env_token file args =
     (if ca_strategy args \<notin> set (dict_keys STRATEGIES) then Inl (UnknownStrategy (ca_strategy args))
      else if ca_status_every args < 0 then Inl NegativeStatusEvery
      else case hive_key args file of Inl e \<Rightarrow> Inl e | Inr k \<Rightarrow>
           (case checked_key k of Inl e \<Rightarrow> Inl e | Inr hk \<Rightarrow>
             (case resolve_token (ca_token args) env_token (ca_station_id args) (ca_credentials_file args) file of
                Inl e \<Rightarrow> Inl e
              | Inr tok \<Rightarrow> Inr
                  \<lparr>cc_ws_url = ca_ws_url args, cc_token = tok, cc_station_id = ca_station_id args,
                   cc_run_id_file = ca_run_id_file args, cc_log_level = ca_log_level args,
                    cc_connect_timeout_s = 10, cc_reconnect_max_backoff_s = 30, cc_mode = ca_mode args,
                   cc_evidence_file = evidence_path stamp args, cc_max_decisions = ca_max_decisions args,
                   cc_strategy = ca_strategy args, cc_status_every = ca_status_every args,
                   cc_status_file = ca_status_file args, cc_hivemind_endpoint = ca_hivemind_endpoint args,
                   cc_hivemind_key = hk, cc_hivemind_exit_on_finish = ca_hivemind_exit_on_finish args\<rparr>)))"

text \<open>The header the client opens its connection with.\<close>

definition authorization :: "client_config \<Rightarrow> string" where
  "authorization config = ''Bearer '' @ reveal (cc_token config)"

subsection \<open>The server's credentials file\<close>

definition by_station :: "server \<Rightarrow> (string, string) pydict" where
  "by_station sv = fold (\<lambda>(token, sid) d. dict_set sid token d) (sv_tokens sv) []"

definition credentials :: "server \<Rightarrow> credentials_document" where
  "credentials sv = \<lparr>cd_run_id = Some (ec_run_id (sv_economy sv)),
     cd_players = Some (map (\<lambda>(sid, st). \<lparr>pl_station_id = Some sid,
        pl_token = Some (dict_get_or '''' (by_station sv) sid),
        pl_display_name = Some (st_display_name st)\<rparr>) (ec_stations (sv_economy sv))),
     cd_hivemind_key = None\<rparr>"

lemma by_station_fold:
  assumes "dict_get (fold (\<lambda>(token, sid) d. dict_set sid token d) ts d0) sid = Some tok"
  shows "(tok, sid) \<in> set ts \<or> dict_get d0 sid = Some tok"
  using assms
proof (induction ts arbitrary: d0)
  case (Cons x ts)
  obtain t k where "x = (t, k)" by (cases x)
  with Cons.IH [of "dict_set k t d0"] Cons.prems show ?case by (auto simp: dict_get_set split: if_splits)
qed simp

lemma find_token_entry:
  assumes "sid \<in> set (dict_keys sts)"
  shows "find_token path sid (map (\<lambda>(k, st). \<lparr>pl_station_id = Some k, pl_token = Some (tok k), pl_display_name = Some (n st)\<rparr>) sts)
     = (case tok sid of c # cs \<Rightarrow> Inr (c # cs) | [] \<Rightarrow> Inl (MissingTokenError (path @ '' has no token for station '' @ sid)))"
  using assms by (induction sts) (force split: list.splits)+

lemma find_token_missing:
  "sid \<notin> set (dict_keys sts) \<Longrightarrow>
   find_token path sid (map (\<lambda>(k, st). \<lparr>pl_station_id = Some k, pl_token = tok k, pl_display_name = n st\<rparr>) sts)
     = Inl (MissingTokenError (path @ '' has no entry for station '' @ sid))"
  by (induction sts) auto

text \<open>A client configured from the credentials file a server wrote, with no token of its own, is given
  the seat of its station, for every station the server has a token for.\<close>

theorem credentials_open_the_seat:
  assumes "config_from_args stamp None (Some (Document (credentials sv))) args = Inr config"
    and "ca_token args = None" and "dict_ok (sv_tokens sv)" and "\<not> sv_open_auth sv"
  shows "authenticate SUBPROTOCOL (authorization config) sv = (Seated (ca_station_id args), sv)"
proof -
  let ?sid = "ca_station_id args"
  have "cc_token config = t" if "resolve_token None None ?sid (ca_credentials_file args) (Some (Document (credentials sv))) = Inr t" for t
    using assms(1,2) that by (auto simp: config_from_args_def split: if_splits sum.splits)
  moreover have "\<exists>t. resolve_token None None ?sid (ca_credentials_file args) (Some (Document (credentials sv))) = Inr t"
    using assms(1,2) by (auto simp: config_from_args_def split: if_splits sum.splits)
  ultimately have tok: "find_token (ca_credentials_file args) ?sid (the (cd_players (credentials sv))) = Inr (reveal (cc_token config))"
    by (auto simp: resolve_token_def read_token_from_credentials_def credentials_def map_sum_def split: sum.splits)
  have sid: "?sid \<in> set (dict_keys (ec_stations (sv_economy sv)))"
  proof (rule ccontr)
    assume "?sid \<notin> set (dict_keys (ec_stations (sv_economy sv)))"
    with tok show False by (simp add: credentials_def find_token_missing)
  qed
  have "dict_get_or '''' (by_station sv) ?sid = reveal (cc_token config)" "reveal (cc_token config) \<noteq> []"
    using tok unfolding credentials_def by (auto simp: find_token_entry [OF sid] split: list.splits)
  then have "dict_get (by_station sv) ?sid = Some (reveal (cc_token config))"
    by (auto simp: dict_get_or_def split: option.splits)
  then have "(reveal (cc_token config), ?sid) \<in> set (sv_tokens sv)"
    using by_station_fold [of "sv_tokens sv" "[]"] by (auto simp: by_station_def)
  with assms(3) have "dict_get (sv_tokens sv) (reveal (cc_token config)) = Some ?sid" by (simp add: dict_mem_get)
  moreover have "SUBPROTOCOL \<in> set (map strip (split_commas SUBPROTOCOL))" by code_simp
  ultimately show ?thesis using assms(4) by (simp add: authenticate_def authorization_def)
qed

definition demo_args :: cli_args where
  "demo_args = \<lparr>ca_ws_url = ''ws://127.0.0.1:3100/ws'', ca_token = None, ca_station_id = ''P02'',
     ca_credentials_file = ''sim-credentials.json'', ca_run_id_file = None, ca_log_level = ''INFO'',
     ca_mode = ''trade'', ca_evidence_file = None, ca_no_evidence = False, ca_max_decisions = None,
     ca_hivemind_endpoint = ''ws://127.0.0.1:8765'', ca_hivemind_key = None, ca_hivemind_exit_on_finish = False,
     ca_strategy = ''reserve-trader'', ca_status_every = 10, ca_status_file = None\<rparr>"

definition demo_keys :: server where
  "demo_keys = server_init (build_economy 2 demo_rules 30 ''sim-1'') [(''key-a'', ''P01''), (''key-b'', ''P02'')] False None None"

lemma demo_configured:
  "\<exists>config. config_from_args ''20250101T000000Z'' None (Some (Document (credentials demo_keys))) demo_args = Inr config
     \<and> reveal (cc_token config) = ''key-b''"
proof -
  have "hive_key demo_args (Some (Document (credentials demo_keys))) = Inr None" by code_simp
  moreover have "resolve_token None None ''P02'' ''sim-credentials.json'' (Some (Document (credentials demo_keys)))
     = Inr (Secret ''key-b'')" by code_simp
  moreover have "''reserve-trader'' \<in> set (dict_keys STRATEGIES)" by code_simp
  ultimately show ?thesis by (simp add: config_from_args_def checked_key_def) (simp add: demo_args_def)
qed

theorem credentials_open_the_seat_witness:
  "authenticate SUBPROTOCOL ''Bearer key-b'' demo_keys = (Seated ''P02'', demo_keys)"
proof -
  obtain config where c: "config_from_args ''20250101T000000Z'' None (Some (Document (credentials demo_keys))) demo_args = Inr config"
    and k: "reveal (cc_token config) = ''key-b''" using demo_configured by blast
  have "dict_ok (sv_tokens demo_keys)" "\<not> sv_open_auth demo_keys" by code_simp+
  from credentials_open_the_seat [OF c _ this] k show ?thesis by (simp add: authorization_def demo_args_def)
qed

end
