(* ===== verification/Arguments.thy ===== *)
theory Arguments
  imports Config "HOL-Library.Sublist"
begin

text \<open>
  Command lines. The first part is what the programs use of \<open>argparse\<close>: long options, spelled out or as an
  unambiguous beginning, with their value behind \<open>=\<close> or as the next argument, switches, \<open>int\<close> as a type. The
  second part is the parser of \<open>bazaar_client/config.py\<close> with its defaults from the environment, the third the
  one of \<open>bazaar_sim/server.py\<close>.
\<close>

subsection \<open>Integers as text\<close>

definition digit_value :: "char \<Rightarrow> int option" where
  "digit_value c = (let n = int (of_char c) in if 48 \<le> n \<and> n \<le> 57 then Some (n - 48) else None)"

text \<open>Digits, with single underscores between two of them.\<close>

fun read_digits :: "int \<Rightarrow> bool \<Rightarrow> string \<Rightarrow> int option" where
  "read_digits n after_digit [] = (if after_digit then Some n else None)"
| "read_digits n after_digit (c # cs) = (case digit_value c of
     Some v \<Rightarrow> read_digits (10 * n + v) True cs
   | None \<Rightarrow> if c = CHR ''_'' \<and> after_digit then read_digits n False cs else None)"

text \<open>\<open>int(text)\<close>, \<open>None\<close> where it raises.\<close>

definition py_int :: "string \<Rightarrow> int option" where
  "py_int t = (case strip t of
     [] \<Rightarrow> None
   | c # cs \<Rightarrow> if c = CHR ''-'' then map_option uminus (read_digits 0 False cs)
       else if c = CHR ''+'' then read_digits 0 False cs
       else read_digits 0 False (c # cs))"

subsection \<open>The arguments as options\<close>

datatype arg_item = Opt string string | Extra string | Broken

datatype arg_exit = HelpShown | UsageError

text \<open>The options of a parser: their names, and whether they take a value.\<close>

type_synonym options = "(string \<times> bool) list"

text \<open>\<open>option_string, sep, explicit_arg = arg_string.partition("=")\<close>.\<close>

fun split_eq :: "string \<Rightarrow> string \<times> string option" where
  "split_eq [] = ([], None)"
| "split_eq (c # cs) = (if c = CHR ''='' then ([], Some cs)
     else case split_eq cs of (name, v) \<Rightarrow> (c # name, v))"

text \<open>The options an argument may mean, with the value it gives itself.\<close>

definition meanings :: "options \<Rightarrow> string \<Rightarrow> (string \<times> bool \<times> string option) list" where
  "meanings os tok =
     (if take 1 tok \<noteq> ''-'' then []
      else case map_of os tok of
        Some takes \<Rightarrow> [(tok, takes, None)]
      | None \<Rightarrow> if take 2 tok \<noteq> ''--'' then []
          else (case split_eq tok of (name, explicit) \<Rightarrow> (case map_of os name of
              Some takes \<Rightarrow> [(name, takes, explicit)]
            | None \<Rightarrow> map (\<lambda>(n, takes). (n, takes, explicit)) (filter (\<lambda>(n, _). prefix name n) os))))"

definition negative_number :: "string \<Rightarrow> bool" where
  "negative_number tok = (case tok of
     [] \<Rightarrow> False
   | c # cs \<Rightarrow> c = CHR ''-''
       \<and> ((cs \<noteq> [] \<and> list_all (\<lambda>d. digit_value d \<noteq> None) cs)
          \<or> (let rest = dropWhile (\<lambda>d. digit_value d \<noteq> None) cs
             in take 1 rest = ''.'' \<and> drop 1 rest \<noteq> [] \<and> list_all (\<lambda>d. digit_value d \<noteq> None) (drop 1 rest))))"

text \<open>An argument that can be the value of an option.\<close>

definition is_value :: "options \<Rightarrow> string \<Rightarrow> bool" where
  "is_value os tok \<longleftrightarrow> take 1 tok \<noteq> ''-'' \<or> tok = ''-''
     \<or> (meanings os tok = [] \<and> (negative_number tok \<or> CHR '' '' \<in> set tok))"

fun arg_items :: "options \<Rightarrow> string list \<Rightarrow> arg_item list" where
  "arg_items os [] = []"
| "arg_items os (tok # toks) =
     (if tok = ''--'' then map Extra (tok # toks)
      else case meanings os tok of
        [] \<Rightarrow> Extra tok # arg_items os toks
      | [(name, True, Some v)] \<Rightarrow> Opt name v # arg_items os toks
      | [(name, True, None)] \<Rightarrow> (case toks of
            v # toks' \<Rightarrow> if is_value os v then Opt name v # arg_items os toks' else [Broken]
          | [] \<Rightarrow> [Broken])
      | [(name, False, None)] \<Rightarrow> Opt name [] # arg_items os toks
      | _ \<Rightarrow> [Broken])"

text \<open>The actions in order: help ends the program, a value that does not fit the option's type or choices is
  an error, and so is, at the end, an argument no option took.\<close>

fun run_items :: "(string \<Rightarrow> string \<Rightarrow> 'a \<Rightarrow> 'a option) \<Rightarrow> arg_item list \<Rightarrow> 'a \<Rightarrow> arg_exit + 'a" where
  "run_items act [] a = Inr a"
| "run_items act (Broken # items) a = Inl UsageError"
| "run_items act (Extra t # items) a = (case run_items act items a of Inl e \<Rightarrow> Inl e | Inr _ \<Rightarrow> Inl UsageError)"
| "run_items act (Opt name v # items) a =
     (if name \<in> {''-h'', ''--help''} then Inl HelpShown
      else case act name v a of None \<Rightarrow> Inl UsageError | Some a' \<Rightarrow> run_items act items a')"

definition exit_status :: "arg_exit \<Rightarrow> int" where
  "exit_status e = (case e of HelpShown \<Rightarrow> 0 | UsageError \<Rightarrow> 2)"

definition help_options :: options where
  "help_options = [(''-h'', False), (''--help'', False)]"

subsection \<open>The client's parser\<close>

definition DEFAULT_WS_URL :: string where "DEFAULT_WS_URL = ''ws://127.0.0.1:3001/ws''"
definition DEFAULT_CREDENTIALS_FILE :: string where "DEFAULT_CREDENTIALS_FILE = ''validation-credentials.json''"
definition DEFAULT_STATION_ID :: string where "DEFAULT_STATION_ID = ''P01''"

type_synonym environ = "(string, string) pydict"

text \<open>\<open>str(Path(text))\<close>, up to the slashes \<open>Path\<close> folds; and a path from a variable that may be empty.\<close>

definition path_text :: "string \<Rightarrow> string" where
  "path_text t = (if t = [] then ''.'' else t)"

definition path_from :: "string option \<Rightarrow> string option" where
  "path_from v = (case v of Some (c # cs) \<Rightarrow> Some (c # cs) | _ \<Rightarrow> None)"

text \<open>The default of \<open>--status-every\<close> is a text, which is read only when the option is not given.\<close>

record cli_draft = cli_args +
  dr_status_every :: "int option"

definition client_options :: options where
  "client_options = help_options @ [(''--ws-url'', True), (''--token'', True), (''--station-id'', True),
     (''--credentials-file'', True), (''--run-id-file'', True), (''--log-level'', True), (''--mode'', True),
     (''--evidence-file'', True), (''--no-evidence'', False), (''--max-decisions'', True),
     (''--hivemind-endpoint'', True), (''--hivemind-key'', True), (''--hivemind-exit-on-finish'', False),
     (''--strategy'', True), (''--status-every'', True), (''--status-file'', True)]"

definition MODES :: "string list" where
  "MODES = [''trade'', ''check'', ''handshake'', ''walkthrough'', ''hivemind'']"

definition client_defaults :: "environ \<Rightarrow> cli_draft" where
  "client_defaults env =
     \<lparr>ca_ws_url = dict_get_or DEFAULT_WS_URL env ''BAZAAR_WS_URL'', ca_token = None,
      ca_station_id = dict_get_or DEFAULT_STATION_ID env ''BAZAAR_STATION_ID'',
      ca_credentials_file = path_text (dict_get_or DEFAULT_CREDENTIALS_FILE env ''BAZAAR_CREDENTIALS_FILE''),
      ca_run_id_file = path_from (dict_get env ''BAZAAR_RUN_ID_FILE''),
      ca_log_level = dict_get_or ''INFO'' env ''BAZAAR_LOG_LEVEL'',
      ca_mode = dict_get_or ''trade'' env ''BAZAAR_MODE'',
      ca_evidence_file = path_from (dict_get env ''BAZAAR_EVIDENCE_FILE''), ca_no_evidence = False,
      ca_max_decisions = None,
      ca_hivemind_endpoint = dict_get_or ''ws://127.0.0.1:8765'' env ''BAZAAR_HIVEMIND_ENDPOINT'',
      ca_hivemind_key = dict_get env ''BAZAAR_HIVEMIND_KEY'', ca_hivemind_exit_on_finish = False,
      ca_strategy = dict_get_or ''reserve-trader'' env ''BAZAAR_STRATEGY'', ca_status_every = 10,
      ca_status_file = map_option path_text (dict_get env ''BAZAAR_STATUS_FILE''),
      dr_status_every = None\<rparr>"

definition set_client :: "string \<Rightarrow> string \<Rightarrow> cli_draft \<Rightarrow> cli_draft option" where
  "set_client name v a =
     (if name = ''--ws-url'' then Some (a\<lparr>ca_ws_url := v\<rparr>)
      else if name = ''--token'' then Some (a\<lparr>ca_token := Some v\<rparr>)
      else if name = ''--station-id'' then Some (a\<lparr>ca_station_id := v\<rparr>)
      else if name = ''--credentials-file'' then Some (a\<lparr>ca_credentials_file := path_text v\<rparr>)
      else if name = ''--run-id-file'' then Some (a\<lparr>ca_run_id_file := Some (path_text v)\<rparr>)
      else if name = ''--log-level'' then Some (a\<lparr>ca_log_level := v\<rparr>)
      else if name = ''--mode'' then (if v \<in> set MODES then Some (a\<lparr>ca_mode := v\<rparr>) else None)
      else if name = ''--evidence-file'' then Some (a\<lparr>ca_evidence_file := Some (path_text v)\<rparr>)
      else if name = ''--no-evidence'' then Some (a\<lparr>ca_no_evidence := True\<rparr>)
      else if name = ''--max-decisions'' then map_option (\<lambda>n. a\<lparr>ca_max_decisions := Some n\<rparr>) (py_int v)
      else if name = ''--hivemind-endpoint'' then Some (a\<lparr>ca_hivemind_endpoint := v\<rparr>)
      else if name = ''--hivemind-key'' then Some (a\<lparr>ca_hivemind_key := Some v\<rparr>)
      else if name = ''--hivemind-exit-on-finish'' then Some (a\<lparr>ca_hivemind_exit_on_finish := True\<rparr>)
      else if name = ''--strategy'' then Some (a\<lparr>ca_strategy := v\<rparr>)
      else if name = ''--status-every'' then map_option (\<lambda>n. a\<lparr>dr_status_every := Some n\<rparr>) (py_int v)
      else if name = ''--status-file'' then Some (a\<lparr>ca_status_file := Some (path_text v)\<rparr>)
      else None)"

definition parse_client :: "environ \<Rightarrow> string list \<Rightarrow> arg_exit + cli_args" where
  "parse_client env argv = (case run_items set_client (arg_items client_options argv) (client_defaults env) of
     Inl e \<Rightarrow> Inl e
   | Inr a \<Rightarrow> (case (case dr_status_every a of
         Some n \<Rightarrow> Some n | None \<Rightarrow> py_int (dict_get_or ''10'' env ''BAZAAR_STATUS_EVERY'')) of
       None \<Rightarrow> Inl UsageError
     | Some n \<Rightarrow> Inr (cli_args.truncate (a\<lparr>ca_status_every := n\<rparr>))))"

end
