(* ===== verification/Server_Report.thy ===== *)
theory Server_Report
  imports Server Monitor
begin

text \<open>
  \<open>BazaarServer.report\<close>: what the server writes to its report file, when a run finishes and at the
  end. \<open>started\<close> and \<open>now\<close> are readings of the clock; the build information is left out.
\<close>

record planet_report =
  rp_station_id :: string
  rp_display_name :: string
  rp_specialty :: string
  rp_failed :: bool
  rp_first_failure_tick :: "int option"
  rp_health :: int
  rp_inventory :: "(string \<times> int) list"
  rp_produced :: "(string \<times> int) list"
  rp_consumed :: "(string \<times> int) list"
  rp_unmet :: "(string \<times> int) list"
  rp_imported :: "(string \<times> int) list"
  rp_exported :: "(string \<times> int) list"
  rp_shortage_ticks :: int

record server_report =
  rt_run_id :: string
  rt_phase :: string
  rt_tick :: int
  rt_duration_ticks :: int
  rt_wall_seconds :: "rat option"
  rt_score :: score
  rt_planets :: "planet_report list"
  rt_transactions :: nat
  rt_commands :: "(string, int) pydict"
  rt_results :: "(string, int) pydict"
  rt_protocol_errors :: "(string, int) pydict"
  rt_connections :: int

definition planet_of :: "string \<Rightarrow> sim_station \<Rightarrow> planet_report" where
  "planet_of sid st = \<lparr>rp_station_id = sid, rp_display_name = st_display_name st,
     rp_specialty = resource_name (st_specialty st), rp_failed = st_failed_once st,
     rp_first_failure_tick = st_first_failure_tick st, rp_health = st_health st,
     rp_inventory = as_dict (st_inventory st), rp_produced = as_dict (st_produced_total st),
     rp_consumed = as_dict (st_consumed_total st), rp_unmet = as_dict (st_unmet_total st),
     rp_imported = as_dict (st_imported st), rp_exported = as_dict (st_exported st),
     rp_shortage_ticks = st_shortage_ticks st\<rparr>"

definition report :: "rat option \<Rightarrow> rat \<Rightarrow> server \<Rightarrow> server_report result" where
  "report started now sv =
     (let e = sv_economy sv
      in bindE (score_economy e (duration_ticks (ec_rules e)) None None) (\<lambda>score.
         Inr \<lparr>rt_run_id = ec_run_id e, rt_phase = phase_name (sv_phase sv), rt_tick = ec_tick e,
              rt_duration_ticks = duration_ticks (ec_rules e),
              rt_wall_seconds = map_option (\<lambda>t. round3 (fsub now t)) started, rt_score = score,
              rt_planets = map (\<lambda>(sid, st). planet_of sid st) (ec_stations e),
              rt_transactions = length (ec_transactions e), rt_commands = ss_commands (sv_stats sv),
              rt_results = ss_results (sv_stats sv), rt_protocol_errors = ss_protocol_errors (sv_stats sv),
              rt_connections = ss_connections (sv_stats sv)\<rparr>))"

end
