(* ===== verification/Server_Main.thy ===== *)
theory Server_Main
  imports Arguments Server_Report
begin

text \<open>
  The command line of \<open>bazaar_sim/server.py\<close> and what it makes of it: economy, production schedule and server of
  a run, and the exit code. \<open>read_float\<close> stands for \<open>float(text)\<close>, \<open>fresh\<close> for the random run id and \<open>token\<close> for
  the random token of the n-th planet.
\<close>

record server_args =
  sa_host :: string
  sa_port :: int
  sa_planets :: int
  sa_ticks :: int
  sa_tick_ms :: int
  sa_starting_stock :: int
  sa_production :: string
  sa_variation :: int
  sa_surplus :: rat
  sa_start_when :: "int option"
  sa_open_auth :: bool
  sa_run_id :: "string option"
  sa_credentials_file :: string
  sa_report :: string
  sa_log_level :: string

definition server_options :: options where
  "server_options = help_options @ [(''--host'', True), (''--port'', True), (''--planets'', True),
     (''--ticks'', True), (''--tick-ms'', True), (''--starting-stock'', True), (''--production'', True),
     (''--variation'', True), (''--surplus'', True), (''--start-when'', True), (''--open-auth'', False),
     (''--run-id'', True), (''--credentials-file'', True), (''--report'', True), (''--log-level'', True)]"

definition server_defaults :: server_args where
  "server_defaults = \<lparr>sa_host = ''127.0.0.1'', sa_port = 3100, sa_planets = 3, sa_ticks = 120, sa_tick_ms = 1000,
     sa_starting_stock = 30, sa_production = ''balanced'', sa_variation = 0, sa_surplus = 0, sa_start_when = None,
     sa_open_auth = False, sa_run_id = None, sa_credentials_file = ''sim-credentials.json'',
     sa_report = ''sim-report.json'', sa_log_level = ''INFO''\<rparr>"

definition set_server :: "(string \<Rightarrow> rat option) \<Rightarrow> string \<Rightarrow> string \<Rightarrow> server_args \<Rightarrow> server_args option" where
  "set_server read_float name v a =
     (if name = ''--host'' then Some (a\<lparr>sa_host := v\<rparr>)
      else if name = ''--port'' then map_option (\<lambda>n. a\<lparr>sa_port := n\<rparr>) (py_int v)
      else if name = ''--planets'' then map_option (\<lambda>n. a\<lparr>sa_planets := n\<rparr>) (py_int v)
      else if name = ''--ticks'' then map_option (\<lambda>n. a\<lparr>sa_ticks := n\<rparr>) (py_int v)
      else if name = ''--tick-ms'' then map_option (\<lambda>n. a\<lparr>sa_tick_ms := n\<rparr>) (py_int v)
      else if name = ''--starting-stock'' then map_option (\<lambda>n. a\<lparr>sa_starting_stock := n\<rparr>) (py_int v)
      else if name = ''--production'' then
        (if v \<in> {''balanced'', ''run2''} then Some (a\<lparr>sa_production := v\<rparr>) else None)
      else if name = ''--variation'' then map_option (\<lambda>n. a\<lparr>sa_variation := n\<rparr>) (py_int v)
      else if name = ''--surplus'' then map_option (\<lambda>x. a\<lparr>sa_surplus := x\<rparr>) (read_float v)
      else if name = ''--start-when'' then map_option (\<lambda>n. a\<lparr>sa_start_when := Some n\<rparr>) (py_int v)
      else if name = ''--open-auth'' then Some (a\<lparr>sa_open_auth := True\<rparr>)
      else if name = ''--run-id'' then Some (a\<lparr>sa_run_id := Some v\<rparr>)
      else if name = ''--credentials-file'' then Some (a\<lparr>sa_credentials_file := path_text v\<rparr>)
      else if name = ''--report'' then Some (a\<lparr>sa_report := path_text v\<rparr>)
      else if name = ''--log-level'' then Some (a\<lparr>sa_log_level := v\<rparr>)
      else None)"

definition parse_server :: "(string \<Rightarrow> rat option) \<Rightarrow> string list \<Rightarrow> arg_exit + server_args" where
  "parse_server read_float argv = run_items (set_server read_float) (arg_items server_options argv) server_defaults"

subsection \<open>The server of a run\<close>

text \<open>A negative number of planets gives none; a planet cannot hold a negative stock.\<close>

definition economy_of :: "string \<Rightarrow> server_args \<Rightarrow> economy result" where
  "economy_of fresh a =
     (if 0 < sa_planets a \<and> sa_starting_stock a < 0
      then Inl NegativeBundleError
      else Inr (build_economy (nat (sa_planets a))
        (DEFAULT_RULES\<lparr>duration_ticks := sa_ticks a, tick_duration_ms := sa_tick_ms a\<rparr>)
        (nat (sa_starting_stock a))
        (case sa_run_id a of Some (c # cs) \<Rightarrow> c # cs | _ \<Rightarrow> ''sim-'' @ fresh)))"

definition production_of :: "server_args \<Rightarrow> (int \<Rightarrow> int \<Rightarrow> int) result" where
  "production_of a = (if sa_production a = ''balanced''
     then balanced_production (nat (sa_planets a)) 1 (sa_variation a) (sa_surplus a)
     else Inr (run_two_production 0))"

text \<open>\<open>{secrets.token_urlsafe(16): sid for sid in economy.stations}\<close>.\<close>

definition fresh_tokens :: "(nat \<Rightarrow> string) \<Rightarrow> economy \<Rightarrow> (string, string) pydict" where
  "fresh_tokens token e = fold (\<lambda>(i, sid). dict_set (token i) sid) (enumerate 0 (dict_keys (ec_stations e))) []"

definition server_of_args :: "string \<Rightarrow> (nat \<Rightarrow> string) \<Rightarrow> server_args \<Rightarrow> server result" where
  "server_of_args fresh token a =
     bindE (economy_of fresh a) (\<lambda>e.
     bindE (production_of a) (\<lambda>production.
     Inr (server_init e (fresh_tokens token e) (sa_open_auth a) (sa_start_when a) (Some production))))"

end
