(* ===== verification/Orchestrate.thy ===== *)
theory Orchestrate
  imports Server_Main Requests
begin

text \<open>
  \<open>bazaar_sim/orchestrate.py\<close>: one server process, a client process per planet (and a coordinator), supervised to
  the end of the run. A process is its command, its environment and its return code. What the operating system
  and the other processes do is a record of answers, \<open>surroundings\<close>; interrupts and printing are left out.
\<close>

subsection \<open>Which planet runs what\<close>

datatype spec_error = UnknownName string | BadCount string | WrongTotal int int

text \<open>\<open>part.partition(":")\<close>.\<close>

fun partition_colon :: "string \<Rightarrow> string \<times> string" where
  "partition_colon [] = ([], [])"
| "partition_colon (c # cs) = (if c = CHR '':'' then ([], cs)
     else case partition_colon cs of (a, b) \<Rightarrow> (c # a, b))"

fun assign_parts :: "string list \<Rightarrow> spec_error + string list" where
  "assign_parts [] = Inr []"
| "assign_parts (p # ps) = (case partition_colon p of (name, n_text) \<Rightarrow>
     if name \<notin> set (dict_keys STRATEGIES) then Inl (UnknownName name)
     else case (if n_text = [] then Some 1 else py_int n_text) of
            None \<Rightarrow> Inl (BadCount n_text)
          | Some n \<Rightarrow> (case assign_parts ps of
                Inl e \<Rightarrow> Inl e
              | Inr rest \<Rightarrow> Inr (replicate (nat n) name @ rest)))"

definition assign_strategies :: "string \<Rightarrow> int \<Rightarrow> spec_error + string list" where
  "assign_strategies spec planets =
     (let parts = filter (\<lambda>p. p \<noteq> []) (map strip (split_commas spec));
          parts = (if length parts = 1 \<and> CHR '':'' \<notin> set (hd parts)
                   then [hd parts @ '':'' @ show_int planets] else parts)
      in case assign_parts parts of
           Inl e \<Rightarrow> Inl e
         | Inr assigned \<Rightarrow> if int (length assigned) \<noteq> planets
             then Inl (WrongTotal (int (length assigned)) planets) else Inr assigned)"

subsection \<open>Commands\<close>

record orch_args =
  oa_mode :: string
  oa_planets :: int
  oa_strategies :: string
  oa_ticks :: int
  oa_tick_ms :: int
  oa_production :: string
  oa_variation :: int
  oa_surplus :: rat
  oa_starting_stock :: int
  oa_port :: int
  oa_grace :: rat
  oa_out :: "string option"
  oa_client_log_level :: string
  oa_dashboards :: bool
  oa_live :: bool
  oa_dashboard_port :: int

definition orch_options :: options where
  "orch_options = help_options @ [(''--mode'', True), (''--planets'', True), (''--strategies'', True),
     (''--ticks'', True), (''--tick-ms'', True), (''--production'', True), (''--variation'', True),
     (''--surplus'', True), (''--starting-stock'', True), (''--port'', True), (''--grace'', True),
     (''--out'', True), (''--client-log-level'', True), (''--no-dashboards'', False), (''--live'', False),
     (''--dashboard-port'', True)]"

definition orch_defaults :: orch_args where
  "orch_defaults = \<lparr>oa_mode = ''trade'', oa_planets = 3, oa_strategies = ''reserve-trader'', oa_ticks = 30,
     oa_tick_ms = 300, oa_production = ''balanced'', oa_variation = 0, oa_surplus = 0, oa_starting_stock = 30,
     oa_port = 0, oa_grace = 60, oa_out = None, oa_client_log_level = ''INFO'', oa_dashboards = True,
     oa_live = False, oa_dashboard_port = 8766\<rparr>"

definition set_orch :: "(string \<Rightarrow> rat option) \<Rightarrow> string \<Rightarrow> string \<Rightarrow> orch_args \<Rightarrow> orch_args option" where
  "set_orch read_float name v a =
     (if name = ''--mode'' then (if v \<in> {''trade'', ''hivemind''} then Some (a\<lparr>oa_mode := v\<rparr>) else None)
      else if name = ''--planets'' then map_option (\<lambda>n. a\<lparr>oa_planets := n\<rparr>) (py_int v)
      else if name = ''--strategies'' then Some (a\<lparr>oa_strategies := v\<rparr>)
      else if name = ''--ticks'' then map_option (\<lambda>n. a\<lparr>oa_ticks := n\<rparr>) (py_int v)
      else if name = ''--tick-ms'' then map_option (\<lambda>n. a\<lparr>oa_tick_ms := n\<rparr>) (py_int v)
      else if name = ''--production'' then
        (if v \<in> {''balanced'', ''run2''} then Some (a\<lparr>oa_production := v\<rparr>) else None)
      else if name = ''--variation'' then map_option (\<lambda>n. a\<lparr>oa_variation := n\<rparr>) (py_int v)
      else if name = ''--surplus'' then map_option (\<lambda>x. a\<lparr>oa_surplus := x\<rparr>) (read_float v)
      else if name = ''--starting-stock'' then map_option (\<lambda>n. a\<lparr>oa_starting_stock := n\<rparr>) (py_int v)
      else if name = ''--port'' then map_option (\<lambda>n. a\<lparr>oa_port := n\<rparr>) (py_int v)
      else if name = ''--grace'' then map_option (\<lambda>x. a\<lparr>oa_grace := x\<rparr>) (read_float v)
      else if name = ''--out'' then Some (a\<lparr>oa_out := Some (path_text v)\<rparr>)
      else if name = ''--client-log-level'' then Some (a\<lparr>oa_client_log_level := v\<rparr>)
      else if name = ''--no-dashboards'' then Some (a\<lparr>oa_dashboards := False\<rparr>)
      else if name = ''--live'' then Some (a\<lparr>oa_live := True\<rparr>)
      else if name = ''--dashboard-port'' then map_option (\<lambda>n. a\<lparr>oa_dashboard_port := n\<rparr>) (py_int v)
      else None)"

definition parse_orch :: "(string \<Rightarrow> rat option) \<Rightarrow> string list \<Rightarrow> arg_exit + orch_args" where
  "parse_orch read_float argv = run_items (set_orch read_float) (arg_items orch_options argv) orch_defaults"

text \<open>No inherited settings of the client.\<close>

definition client_environment :: "string \<Rightarrow> environ \<Rightarrow> environ" where
  "client_environment repo env =
     (let env = filter (\<lambda>(k, _). \<not> starts_with ''BAZAAR_'' k) env
      in dict_set ''PYTHONPATH'' (py_join '':'' (filter (\<lambda>p. p \<noteq> [])
           [repo, dict_get_or [] env ''PYTHONPATH''])) env)"

definition server_url :: "int \<Rightarrow> string" where
  "server_url port = ''ws://127.0.0.1:'' @ show_int port @ ''/ws''"

text \<open>\<open>exe\<close> is \<open>sys.executable\<close> and \<open>show_float\<close> is \<open>str\<close> of a float.\<close>

definition server_argv :: "string \<Rightarrow> (rat \<Rightarrow> string) \<Rightarrow> orch_args \<Rightarrow> string \<Rightarrow> int \<Rightarrow> string list" where
  "server_argv exe show_float a out port =
     [exe, ''-m'', ''bazaar_sim.server'', ''--port'', show_int port,
      ''--planets'', show_int (oa_planets a), ''--ticks'', show_int (oa_ticks a),
      ''--tick-ms'', show_int (oa_tick_ms a), ''--production'', oa_production a,
      ''--variation'', show_int (oa_variation a), ''--surplus'', show_float (oa_surplus a),
      ''--starting-stock'', show_int (oa_starting_stock a),
      ''--credentials-file'', out @ ''/credentials.json'', ''--report'', out @ ''/server-report.json'']"

definition client_argv :: "string \<Rightarrow> orch_args \<Rightarrow> string \<Rightarrow> int \<Rightarrow> string option \<Rightarrow> string \<Rightarrow> string \<Rightarrow> string list" where
  "client_argv exe a out port hive_url sid chosen =
     [exe, ''-m'', ''bazaar_client.cli'', ''--mode'', oa_mode a, ''--ws-url'', server_url port,
      ''--credentials-file'', out @ ''/credentials.json'', ''--station-id'', sid,
      ''--evidence-file'', out @ ''/'' @ sid @ ''-evidence.jsonl'',
      ''--status-every'', ''0'', ''--log-level'', oa_client_log_level a]
     @ (if oa_mode a = ''hivemind''
        then [''--hivemind-endpoint'', (case hive_url of None \<Rightarrow> [] | Some u \<Rightarrow> u), ''--hivemind-exit-on-finish'']
        else [''--strategy'', chosen])"

definition coordinator_argv :: "string \<Rightarrow> orch_args \<Rightarrow> int \<Rightarrow> string list" where
  "coordinator_argv exe a hive_port =
     [exe, ''-c'', ''from spaceport_hivemind.server import main; main()'', ''--host'', ''127.0.0.1'',
      ''--port'', show_int hive_port, ''--station-count'', show_int (oa_planets a)]"

subsection \<open>Supervision\<close>

record process =
  pr_argv :: "string list"
  pr_env :: environ
  pr_returncode :: "int option"

datatype role = ServerRole | CoordinatorRole | ClientRole string | DashboardRole

type_synonym processes = "(role \<times> process) list"

datatype file_wait = Appeared | ExitedEarly int | FileLate
datatype peer_wait = PeerUp | PeerGone int | PeerLate

record surroundings =
  sr_exe :: string
  sr_root :: string
  sr_environ :: environ
  sr_stamp :: string
  sr_live_stamp :: string
  sr_show_float :: "rat \<Rightarrow> string"
  sr_installed :: bool
  sr_used :: "string \<Rightarrow> bool"
  sr_free_port :: int
  sr_hive_port :: int
  sr_coordinator :: peer_wait
  sr_file :: file_wait
  sr_server_exit :: "int option"
  sr_client_exit :: "string \<Rightarrow> int option"
  sr_stopped :: "role \<Rightarrow> int"
  sr_report :: "server_report option"
  sr_page :: "string \<Rightarrow> string option"
  sr_dashboard :: peer_wait
  sr_dashboard_exit :: int

datatype orch_error =
    NotInstalled
  | BadSpec spec_error
  | UsedDirectory string
  | DashboardGone
  | DashboardLate
  | CoordinatorGone
  | CoordinatorLate
  | ServerGone int
  | NoCredentials
  | ServerLate

datatype client_exit = Exited int | TimedOutExit

record orch_summary =
  su_out :: string
  su_url :: string
  su_mode :: string
  su_hivemind_url :: "string option"
  su_strategies :: "(string, string) pydict"
  su_client_exit_codes :: "(string, client_exit) pydict"
  su_server_report :: "server_report option"
  su_summaries :: "(string, string) pydict"

definition spawn :: "environ \<Rightarrow> string list \<Rightarrow> process" where
  "spawn env argv = \<lparr>pr_argv = argv, pr_env = env, pr_returncode = None\<rparr>"

definition exited :: "int \<Rightarrow> process \<Rightarrow> process" where
  "exited n p = p\<lparr>pr_returncode := Some n\<rparr>"

text \<open>\<open>_terminate\<close>: asked, and killed if it does not end within five seconds; \<open>sr_stopped\<close> is the code it has then.\<close>

definition stop_process :: "surroundings \<Rightarrow> role \<times> process \<Rightarrow> role \<times> process" where
  "stop_process sr rp = (case rp of (r, p) \<Rightarrow>
     (r, if pr_returncode p = None then exited (sr_stopped sr r) p else p))"

text \<open>The \<open>finally\<close>: whatever is still running is stopped.\<close>

definition stop_all :: "surroundings \<Rightarrow> processes \<Rightarrow> processes" where
  "stop_all sr ps = map (stop_process sr) ps"

definition on_process :: "role \<Rightarrow> (process \<Rightarrow> process) \<Rightarrow> processes \<Rightarrow> processes" where
  "on_process r f ps = map (\<lambda>(r', p). (r', if r' = r then f p else p)) ps"

text \<open>The coordinator of hivemind mode and the wait for the server's credentials: what has been started by then,
  and what went wrong, if anything did.\<close>

definition start_up :: "surroundings \<Rightarrow> orch_args \<Rightarrow> string \<Rightarrow> int \<Rightarrow> environ \<Rightarrow> processes \<times> orch_error option" where
  "start_up sr a out port env =
     (let ps = [(ServerRole, spawn env (server_argv (sr_exe sr) (sr_show_float sr) a out port))];
          hive = (oa_mode a = ''hivemind'');
          ps = (if hive then ps @ [(CoordinatorRole, spawn env (coordinator_argv (sr_exe sr) a (sr_hive_port sr)))]
                else ps)
      in if hive \<and> sr_coordinator sr = PeerLate then (ps, Some CoordinatorLate)
         else case (if hive then sr_coordinator sr else PeerUp) of
           PeerGone c \<Rightarrow> (on_process CoordinatorRole (exited c) ps, Some CoordinatorGone)
         | _ \<Rightarrow> (case sr_file sr of
               ExitedEarly c \<Rightarrow> (on_process ServerRole (exited c) ps, Some (ServerGone c))
             | FileLate \<Rightarrow> (ps, Some NoCredentials)
             | Appeared \<Rightarrow> (ps, None)))"

definition hive_address :: "surroundings \<Rightarrow> orch_args \<Rightarrow> string option" where
  "hive_address sr a = (if oa_mode a = ''hivemind'' then Some (''ws://127.0.0.1:'' @ show_int (sr_hive_port sr)) else None)"

definition start_clients :: "surroundings \<Rightarrow> orch_args \<Rightarrow> string \<Rightarrow> int \<Rightarrow> environ \<Rightarrow> string list \<Rightarrow> processes" where
  "start_clients sr a out port env strategies =
     map (\<lambda>(i, s). (ClientRole (planet_id i),
       spawn env (client_argv (sr_exe sr) a out port (hive_address sr a) (planet_id i) s))) (enumerate 0 strategies)"

text \<open>A client that is not done within the grace period is stopped.\<close>

definition await_client :: "surroundings \<Rightarrow> role \<times> process \<Rightarrow> role \<times> process" where
  "await_client sr rp = (case rp of
     (ClientRole sid, p) \<Rightarrow> (case sr_client_exit sr sid of
         Some c \<Rightarrow> (ClientRole sid, exited c p)
       | None \<Rightarrow> stop_process sr rp)
   | _ \<Rightarrow> rp)"

definition exit_code_of :: "surroundings \<Rightarrow> string \<Rightarrow> client_exit" where
  "exit_code_of sr sid = (case sr_client_exit sr sid of Some c \<Rightarrow> Exited c | None \<Rightarrow> TimedOutExit)"

definition orch_summary_of :: "surroundings \<Rightarrow> orch_args \<Rightarrow> string \<Rightarrow> int \<Rightarrow> string list \<Rightarrow> orch_summary" where
  "orch_summary_of sr a out port strategies =
     (let sids = map planet_id [0..<length strategies]
      in \<lparr>su_out = out, su_url = server_url port, su_mode = oa_mode a, su_hivemind_url = hive_address sr a,
          su_strategies = zip (map planet_id [0..<nat (oa_planets a)]) strategies,
          su_client_exit_codes = map (\<lambda>sid. (sid, exit_code_of sr sid)) sids,
          su_server_report = sr_report sr,
          su_summaries = concat (map (\<lambda>sid. case sr_page sr sid of None \<Rightarrow> [] | Some p \<Rightarrow> [(sid, p)]) sids)\<rparr>)"

definition strategies_of :: "orch_args \<Rightarrow> spec_error + string list" where
  "strategies_of a = (if oa_mode a = ''hivemind'' then Inr (replicate (nat (oa_planets a)) ''hivemind'')
     else assign_strategies (oa_strategies a) (oa_planets a))"

definition out_directory :: "surroundings \<Rightarrow> orch_args \<Rightarrow> string" where
  "out_directory sr a = (case oa_out a of Some p \<Rightarrow> p | None \<Rightarrow> sr_root sr @ ''/logs/sim/'' @ sr_stamp sr)"

definition orchestrate :: "surroundings \<Rightarrow> orch_args \<Rightarrow> (orch_error + orch_summary) \<times> processes" where
  "orchestrate sr a =
     (if oa_mode a = ''hivemind'' \<and> \<not> sr_installed sr then (Inl NotInstalled, [])
      else case strategies_of a of
        Inl e \<Rightarrow> (Inl (BadSpec e), [])
      | Inr strategies \<Rightarrow>
          let out = out_directory sr a;
              port = (if oa_port a = 0 then sr_free_port sr else oa_port a);
              env = client_environment (sr_root sr) (sr_environ sr)
          in if sr_used sr out then (Inl (UsedDirectory out), [])
             else (case start_up sr a out port env of
               (ps, Some e) \<Rightarrow> (Inl e, stop_all sr ps)
             | (ps, None) \<Rightarrow>
                 let ps = ps @ start_clients sr a out port env strategies
                 in (case sr_server_exit sr of
                   None \<Rightarrow> (Inl ServerLate, stop_all sr ps)
                 | Some c \<Rightarrow> (Inr (orch_summary_of sr a out port strategies),
                     stop_all sr (map (await_client sr) (on_process ServerRole (exited c) ps))))))"

subsection \<open>The program\<close>

text \<open>\<open>ValueError\<close>s are reported with status 2, others end the program; an uncaught exception exits with 1.\<close>

definition is_value_error :: "orch_error \<Rightarrow> bool" where
  "is_value_error e = (case e of NotInstalled \<Rightarrow> True | BadSpec _ \<Rightarrow> True | UsedDirectory _ \<Rightarrow> True
     | DashboardGone \<Rightarrow> True | DashboardLate \<Rightarrow> True | _ \<Rightarrow> False)"

definition run_clean :: "orch_summary \<Rightarrow> bool" where
  "run_clean s = (case su_server_report s of None \<Rightarrow> False
     | Some r \<Rightarrow> rt_phase r = ''FINISHED'' \<and> list_all (\<lambda>c. c = Exited 0) (dict_values (su_client_exit_codes s)))"

datatype program_end = Status int | Escaped orch_error

definition end_status :: "program_end \<Rightarrow> int" where
  "end_status e = (case e of Status n \<Rightarrow> n | Escaped _ \<Rightarrow> 1)"

definition judged :: "orch_error + orch_summary \<Rightarrow> program_end" where
  "judged r = (case r of
     Inl e \<Rightarrow> if is_value_error e then Status 2 else Escaped e
   | Inr s \<Rightarrow> Status (if run_clean s then 0 else 1))"

definition dashboard_argv :: "string \<Rightarrow> string \<Rightarrow> orch_args \<Rightarrow> string list" where
  "dashboard_argv exe out a = [exe, ''-m'', ''bazaar_client.live_dashboard'', out, ''--port'',
     show_int (oa_dashboard_port a), ''--open'', ''--ready-file'', out @ ''/dashboard-url.txt'']"

text \<open>With \<open>--live\<close> the dashboard comes first and, after a run, is waited for.\<close>

definition run_live :: "surroundings \<Rightarrow> orch_args \<Rightarrow> program_end \<times> processes" where
  "run_live sr a =
     (let out = (case oa_out a of Some p \<Rightarrow> p | None \<Rightarrow> sr_root sr @ ''/logs/sim/'' @ sr_live_stamp sr);
          a = a\<lparr>oa_out := Some out\<rparr>;
          page = spawn (sr_environ sr) (dashboard_argv (sr_exe sr) out a)
      in if sr_used sr out then (Status 2, [])
         else case sr_dashboard sr of
           PeerGone c \<Rightarrow> (judged (Inl DashboardGone), [(DashboardRole, exited c page)])
         | PeerLate \<Rightarrow> (judged (Inl DashboardLate), stop_all sr [(DashboardRole, page)])
         | PeerUp \<Rightarrow> (case orchestrate sr a of
               (Inl e, ps) \<Rightarrow> (judged (Inl e), ps @ stop_all sr [(DashboardRole, page)])
             | (Inr s, ps) \<Rightarrow> (judged (Inr s), ps @ [(DashboardRole, exited (sr_dashboard_exit sr) page)])))"

definition orchestrate_main :: "(string \<Rightarrow> rat option) \<Rightarrow> surroundings \<Rightarrow> string list \<Rightarrow> program_end \<times> processes" where
  "orchestrate_main read_float sr argv = (case parse_orch read_float argv of
     Inl e \<Rightarrow> (Status (exit_status e), [])
   | Inr a \<Rightarrow> if oa_live a then run_live sr a
       else (case orchestrate sr a of (r, ps) \<Rightarrow> (judged r, ps)))"

end
