(* ===== verification/Orchestrate_Facts.thy ===== *)
theory Orchestrate_Facts
  imports Orchestrate
begin

text \<open>
  What the processes of \<open>bazaar_sim/orchestrate.py\<close> get from their command lines, and what its exit status says.
\<close>

subsection \<open>Numbers on a command line\<close>

lemma digit_value_digit: "d < 10 \<Longrightarrow> digit_value (char_of (48 + d :: nat)) = Some (int d)"
  by (simp add: digit_value_def Let_def)

lemma digits_plain: "c \<in> set (digits_of n) \<Longrightarrow> digit_value c \<noteq> None \<and> \<not> py_space c \<and> c \<noteq> CHR ''-'' \<and> c \<noteq> CHR ''+''"
proof -
  assume "c \<in> set (digits_of n)"
  then obtain d :: nat where d: "d < 10" "c = char_of (48 + d)" using digits_of_range by blast
  then have "d \<in> {0, 1, 2, 3, 4, 5, 6, 7, 8, 9}" by auto
  then have "\<not> py_space c \<and> c \<noteq> CHR ''-'' \<and> c \<noteq> CHR ''+''" unfolding d(2) by (elim insertE) (simp_all add: py_space_def char_of_def)
  with d show ?thesis by (simp add: digit_value_digit)
qed

lemma read_digits_of:
  "read_digits a b (digits_of n @ cs) = read_digits (a * 10 ^ length (digits_of n) + int n) True cs"
proof (induction n arbitrary: cs rule: digits_of.induct)
  case (1 n)
  show ?case
  proof (cases "n < 10")
    case True
    then show ?thesis by (subst (1 2) digits_of.simps) (simp add: digit_value_digit mult.commute)
  next
    case False
    have "digit_value (char_of (48 + n mod 10)) = Some (int (n mod 10))" by (rule digit_value_digit) simp
    moreover have "int n = int (n div 10) * 10 + int (n mod 10)" by presburger
    ultimately show ?thesis using 1 [OF False] False by (subst (1 2) digits_of.simps) (simp add: algebra_simps)
  qed
qed

lemma strip_plain: "\<forall>c \<in> set t. \<not> py_space c \<Longrightarrow> strip t = t"
proof -
  assume plain: "\<forall>c \<in> set t. \<not> py_space c"
  then have "dropWhile py_space t = t" by (auto simp: dropWhile_eq_self_iff)
  moreover from plain have "dropWhile py_space (rev t) = rev t" by (auto simp: dropWhile_eq_self_iff hd_rev)
  ultimately show ?thesis by (simp only: strip_def rev_rev_ident)
qed

lemma show_int_plain: "\<forall>c \<in> set (show_int n). \<not> py_space c"
  by (auto simp: show_int_def dest: digits_plain) (simp add: py_space_def)

lemma py_int_show [simp]: "py_int (show_int n) = Some n"
proof (cases "n < 0")
  case True
  then show ?thesis
    using read_digits_of [of 0 False "nat (- n)" "[]"] show_int_plain [of n]
    by (simp add: py_int_def strip_plain show_int_def)
next
  case False
  obtain c cs where d: "digits_of (nat n) = c # cs" by (meson digits_of_not_Nil list.exhaust)
  with digits_plain [of c "nat n"] have "c \<noteq> CHR ''-''" "c \<noteq> CHR ''+''" by auto
  with False d show ?thesis
    using read_digits_of [of 0 False "nat n" "[]"] show_int_plain [of n]
    by (simp add: py_int_def strip_plain show_int_def)
qed

lemma is_value_number: "is_value server_options (show_int n)"
proof (cases "n < 0")
  case True
  obtain c cs where d: "digits_of (nat (- n)) = c # cs" by (meson digits_of_not_Nil list.exhaust)
  have ds: "\<forall>x \<in> set (c # cs). digit_value x \<noteq> None \<and> x \<noteq> CHR ''-''"
    using digits_plain [of _ "nat (- n)", unfolded d] by blast
  have "digit_value (CHR ''h'') = None" by (simp add: digit_value_def)
  moreover have "digit_value c \<noteq> None" and minus: "c \<noteq> CHR ''-''" using ds by simp_all
  ultimately have "c \<noteq> CHR ''h''" by metis
  with minus have "meanings server_options (show_int n) = []"
    using True d by (simp add: meanings_def server_options_def help_options_def show_int_def)
  moreover have "negative_number (show_int n)"
    using True d ds by (auto simp: negative_number_def show_int_def list_all_iff)
  ultimately show ?thesis by (simp add: is_value_def)
next
  case False
  obtain c cs where d: "digits_of (nat n) = c # cs" by (meson digits_of_not_Nil list.exhaust)
  with digits_plain [of c "nat n"] False show ?thesis by (simp add: is_value_def show_int_def)
qed

lemma is_value_plain: "take 1 t \<noteq> ''-'' \<Longrightarrow> is_value os t"
  by (simp add: is_value_def)

subsection \<open>The server's command line\<close>

lemma server_argv_read:
  assumes "read_float (sf x) = Some x" and "is_value server_options (sf x)"
    and "x = oa_surplus a" and "oa_production a \<in> {''balanced'', ''run2''}" and "take 1 out \<noteq> ''-''" and "out \<noteq> []"
  shows "parse_server read_float (drop 3 (server_argv exe sf a out port))
    = Inr (server_defaults\<lparr>sa_port := port, sa_planets := oa_planets a, sa_ticks := oa_ticks a,
        sa_tick_ms := oa_tick_ms a, sa_production := oa_production a, sa_variation := oa_variation a,
        sa_surplus := oa_surplus a, sa_starting_stock := oa_starting_stock a,
        sa_credentials_file := out @ ''/credentials.json'', sa_report := out @ ''/server-report.json''\<rparr>)"
proof -
  have paths: "is_value server_options (out @ t)" for t using assms(5,6) by (cases out) (simp_all add: is_value_def)
  have prod: "is_value server_options (oa_production a)" using assms(4) by (auto simp: is_value_def)
  have meant: "meanings server_options ''--port'' = [(''--port'', True, None)]"
    "meanings server_options ''--planets'' = [(''--planets'', True, None)]"
    "meanings server_options ''--ticks'' = [(''--ticks'', True, None)]"
    "meanings server_options ''--tick-ms'' = [(''--tick-ms'', True, None)]"
    "meanings server_options ''--production'' = [(''--production'', True, None)]"
    "meanings server_options ''--variation'' = [(''--variation'', True, None)]"
    "meanings server_options ''--surplus'' = [(''--surplus'', True, None)]"
    "meanings server_options ''--starting-stock'' = [(''--starting-stock'', True, None)]"
    "meanings server_options ''--credentials-file'' = [(''--credentials-file'', True, None)]"
    "meanings server_options ''--report'' = [(''--report'', True, None)]"
    by (simp_all add: meanings_def server_options_def help_options_def)
  have "arg_items server_options (drop 3 (server_argv exe sf a out port)) =
     [Opt ''--port'' (show_int port), Opt ''--planets'' (show_int (oa_planets a)),
      Opt ''--ticks'' (show_int (oa_ticks a)), Opt ''--tick-ms'' (show_int (oa_tick_ms a)),
      Opt ''--production'' (oa_production a), Opt ''--variation'' (show_int (oa_variation a)),
      Opt ''--surplus'' (sf (oa_surplus a)), Opt ''--starting-stock'' (show_int (oa_starting_stock a)),
      Opt ''--credentials-file'' (out @ ''/credentials.json''), Opt ''--report'' (out @ ''/server-report.json'')]"
    using assms(2,3) by (simp add: server_argv_def meant is_value_number paths prod)
  then show ?thesis
    using assms(1,3,4,6) by (auto simp: parse_server_def set_server_def server_defaults_def path_text_def)
qed

subsection \<open>The server it starts\<close>

lemma fold_set_new:
  assumes "distinct (map f xs)" and "\<And>x. x \<in> set xs \<Longrightarrow> f x \<notin> fst ` set d"
  shows "fold (\<lambda>x. dict_set (f x) (g x)) xs d = d @ map (\<lambda>x. (f x, g x)) xs"
  using assms
proof (induction xs arbitrary: d)
  case (Cons x xs)
  have "dict_set (f x) (g x) d = d @ [(f x, g x)]"
    using Cons.prems(2) [of x] by (induction d) auto
  moreover have "f y \<notin> fst ` set (d @ [(f x, g x)])" if "y \<in> set xs" for y
  proof -
    have "f y \<noteq> f x" using Cons.prems(1) that by (auto simp: image_iff)
    with Cons.prems(2) [of y] that show ?thesis by auto
  qed
  ultimately show ?case using Cons.IH [of "d @ [(f x, g x)]"] Cons.prems(1) by simp
qed simp

lemma planet_id_inj: "planet_id i = planet_id j \<longleftrightarrow> i = j"
proof
  have number: "undigits (drop 1 (planet_id k)) = k + 1" for k
  proof -
    have "undigits (CHR ''0'' # t) = undigits t" for t by (simp add: undigits_def)
    then show ?thesis by (simp add: planet_id_def show_int_def nat_add_distrib)
  qed
  assume "planet_id i = planet_id j"
  then have "undigits (drop 1 (planet_id i)) = undigits (drop 1 (planet_id j))" by simp
  then show "i = j" unfolding number by simp
qed simp

lemma planets_distinct: "distinct (map planet_id xs) \<longleftrightarrow> distinct xs"
  by (simp add: distinct_map inj_on_def planet_id_inj)

lemma built_stations: "dict_keys (ec_stations (build_economy n rs stock rid)) = map planet_id [0..<n]"
proof -
  let ?st = "\<lambda>i. (sim_station_new (planet_id i) (specialty_of i) (Bundle stock stock stock) 3)\<lparr>st_display_name := planet_name i\<rparr>"
  have name: "st_station_id (?st i) = planet_id i" for i by (simp add: sim_station_new_def)
  have "distinct (map st_station_id (map ?st [0..<n]))" by (simp add: comp_def name planets_distinct)
  from fold_set_new [OF this, of "[]" "\<lambda>st. st"] show ?thesis
    by (simp add: build_economy_def economy_init_def comp_def name)
qed

lemma enumerate_planets: "enumerate 0 (map planet_id [0..<n]) = map (\<lambda>i. (i, planet_id i)) [0..<n]"
  by (rule nth_equalityI) (simp_all add: nth_enumerate_eq)

lemma fresh_tokens_built:
  assumes "inj_on token {..<n}"
  shows "fresh_tokens token (build_economy n rs stock rid) = map (\<lambda>i. (token i, planet_id i)) [0..<n]"
proof -
  have "distinct (map fst (map (\<lambda>i. (token i, planet_id i)) [0..<n]))"
    using assms by (simp add: comp_def distinct_map lessThan_atLeast0)
  moreover have "distinct (map (\<lambda>x. token (fst x)) (map (\<lambda>i. (i, planet_id i)) [0..<n]))"
    using assms by (simp add: comp_def distinct_map lessThan_atLeast0)
  from fold_set_new [OF this, of "[]" snd] show ?thesis
    by (simp add: fresh_tokens_def built_stations enumerate_planets comp_def split_def)
qed

lemma get_listed:
  assumes "distinct (map f xs)" and "x \<in> set xs"
  shows "dict_get (map (\<lambda>x. (f x, g x)) xs) (f x) = Some (g x)"
  using assms by (intro map_of_is_SomeI) (auto simp: comp_def)

subsection \<open>The client's command line\<close>

lemma client_environment_clean: "starts_with ''BAZAAR_'' k \<Longrightarrow> dict_get (client_environment repo env) k = None"
  by (auto simp: client_environment_def Let_def dict_get_set map_of_eq_None_iff starts_with_def)

lemma environment_empty:
  "dict_get_or d (client_environment repo env) ''BAZAAR_WS_URL'' = d"
  "dict_get_or d (client_environment repo env) ''BAZAAR_STATION_ID'' = d"
  "dict_get_or d (client_environment repo env) ''BAZAAR_CREDENTIALS_FILE'' = d"
  "dict_get_or d (client_environment repo env) ''BAZAAR_LOG_LEVEL'' = d"
  "dict_get_or d (client_environment repo env) ''BAZAAR_MODE'' = d"
  "dict_get_or d (client_environment repo env) ''BAZAAR_HIVEMIND_ENDPOINT'' = d"
  "dict_get_or d (client_environment repo env) ''BAZAAR_STRATEGY'' = d"
  "dict_get (client_environment repo env) ''BAZAAR_RUN_ID_FILE'' = None"
  "dict_get (client_environment repo env) ''BAZAAR_EVIDENCE_FILE'' = None"
  "dict_get (client_environment repo env) ''BAZAAR_HIVEMIND_KEY'' = None"
  "dict_get (client_environment repo env) ''BAZAAR_STATUS_FILE'' = None"
  "dict_get (client_environment repo env) ''BAZAAR_TOKEN'' = None"
  by (simp_all add: dict_get_or_def client_environment_clean starts_with_def)

text \<open>What a client of the orchestrator is told.\<close>

definition told :: "orch_args \<Rightarrow> string \<Rightarrow> int \<Rightarrow> string \<Rightarrow> string \<Rightarrow> cli_args" where
  "told a out port sid chosen =
     \<lparr>ca_ws_url = server_url port, ca_token = None, ca_station_id = sid,
      ca_credentials_file = out @ ''/credentials.json'', ca_run_id_file = None,
      ca_log_level = oa_client_log_level a, ca_mode = ''trade'',
      ca_evidence_file = Some (out @ ''/'' @ sid @ ''-evidence.jsonl''), ca_no_evidence = False,
      ca_max_decisions = None, ca_hivemind_endpoint = ''ws://127.0.0.1:8765'', ca_hivemind_key = None,
      ca_hivemind_exit_on_finish = False, ca_strategy = chosen, ca_status_every = 0, ca_status_file = None\<rparr>"

lemma client_options_named:
  "meanings client_options ''--mode'' = [(''--mode'', True, None)]"
  "meanings client_options ''--ws-url'' = [(''--ws-url'', True, None)]"
  "meanings client_options ''--credentials-file'' = [(''--credentials-file'', True, None)]"
  "meanings client_options ''--station-id'' = [(''--station-id'', True, None)]"
  "meanings client_options ''--evidence-file'' = [(''--evidence-file'', True, None)]"
  "meanings client_options ''--status-every'' = [(''--status-every'', True, None)]"
  "meanings client_options ''--log-level'' = [(''--log-level'', True, None)]"
  "meanings client_options ''--strategy'' = [(''--strategy'', True, None)]"
  by (simp_all add: meanings_def client_options_def help_options_def)

lemma client_argv_read:
  assumes "oa_mode a = ''trade''" and "out \<noteq> []" and "take 1 out \<noteq> ''-''"
    and "take 1 (oa_client_log_level a) \<noteq> ''-''" and "take 1 sid \<noteq> ''-''" and "take 1 chosen \<noteq> ''-''"
  shows "parse_client (client_environment repo env) (drop 3 (client_argv exe a out port hive_url sid chosen))
    = Inr (told a out port sid chosen)"
proof -
  have paths: "is_value client_options (out @ t)" for t using assms(2,3) by (cases out) (simp_all add: is_value_def)
  have zero: "py_int ''0'' = Some 0" by code_simp
  have vals: "is_value client_options ''trade''" "is_value client_options (server_url port)"
    "is_value client_options sid" "is_value client_options ''0''" "is_value client_options (oa_client_log_level a)"
    "is_value client_options chosen"
    using assms(4-6) by (auto intro!: is_value_plain simp: server_url_def)
  have "arg_items client_options (drop 3 (client_argv exe a out port hive_url sid chosen)) =
     [Opt ''--mode'' ''trade'', Opt ''--ws-url'' (server_url port),
      Opt ''--credentials-file'' (out @ ''/credentials.json''), Opt ''--station-id'' sid,
      Opt ''--evidence-file'' (out @ ''/'' @ sid @ ''-evidence.jsonl''), Opt ''--status-every'' ''0'',
      Opt ''--log-level'' (oa_client_log_level a), Opt ''--strategy'' chosen]"
    using assms(1) by (simp add: client_argv_def client_options_named paths vals)
  then show ?thesis
    using assms(2) by (simp add: parse_client_def set_client_def client_defaults_def environment_empty path_text_def
      path_from_def MODES_def zero told_def cli_args.defs)
qed

subsection \<open>Seats\<close>

lemma enumerate_pairs: "(i, s) \<in> set (enumerate 0 xs) \<longleftrightarrow> i < length xs \<and> s = xs ! i"
  by (auto simp: in_set_enumerate_eq)

lemma assigned_strategies:
  assumes "assign_strategies spec planets = Inr strategies"
  shows "int (length strategies) = planets" and "set strategies \<subseteq> set (dict_keys STRATEGIES)"
proof -
  have parts: "set xs \<subseteq> set (dict_keys STRATEGIES)" if "assign_parts ps = Inr xs" for ps xs
    using that
  proof (induction ps arbitrary: xs)
    case (Cons p ps)
    obtain name t where p: "partition_colon p = (name, t)" by (cases "partition_colon p")
    with Cons.prems obtain rest where rest: "name \<in> set (dict_keys STRATEGIES)" "assign_parts ps = Inr rest"
      "set xs \<subseteq> insert name (set rest)"
      by (fastforce split: if_splits option.splits sum.splits)
    from Cons.IH [OF rest(2)] rest(1,3) show ?case by blast
  qed simp
  from assms obtain ps where "assign_parts ps = Inr strategies" "int (length strategies) = planets"
    by (auto simp: assign_strategies_def Let_def simp del: assign_parts.simps split: sum.splits if_splits)
  with parts show "int (length strategies) = planets" "set strategies \<subseteq> set (dict_keys STRATEGIES)" by blast+
qed

lemma strategy_named_plainly: "s \<in> set (dict_keys STRATEGIES) \<Longrightarrow> take 1 s \<noteq> ''-''"
  by (auto simp: STRATEGIES_def DEFAULT_STRATEGY_def)

lemma planet_id_plain: "take 1 (planet_id i) \<noteq> ''-''"
  by (simp add: planet_id_def)

text \<open>A server of the orchestrator lists every planet with its own token.\<close>

lemma listed_planets:
  assumes "inj_on token {..<n}"
    and "sv = server_init (build_economy n rs stock rid) (fresh_tokens token (build_economy n rs stock rid)) oa sw production"
    and "i < n"
  shows "dict_get (sv_tokens sv) (token i) = Some (planet_id i)"
    and "token i \<noteq> [] \<Longrightarrow>
      find_token path (planet_id i) (the (cd_players (credentials sv))) = Inr (token i)"
    and "sv_open_auth sv = oa"
proof -
  have fields: "sv_tokens sv = map (\<lambda>i. (token i, planet_id i)) [0..<n]" "sv_open_auth sv = oa"
    "dict_keys (ec_stations (sv_economy sv)) = map planet_id [0..<n]"
    unfolding assms(2) fresh_tokens_built [OF assms(1)]
    by (cases production; simp add: server_init_def apply_production_def built_stations)+
  have once: "distinct (map token [0..<n])" using assms(1) by (simp add: distinct_map lessThan_atLeast0)
  have here: "i \<in> set [0..<n]" using assms(3) by simp
  show "dict_get (sv_tokens sv) (token i) = Some (planet_id i)"
    unfolding fields(1) by (rule get_listed [OF once here])
  show "sv_open_auth sv = oa" by (rule fields(2))
  have "by_station sv = fold (\<lambda>i. dict_set (planet_id i) (token i)) [0..<n] []"
    by (simp add: by_station_def fields(1) fold_map comp_def)
  also have "\<dots> = map (\<lambda>i. (planet_id i, token i)) [0..<n]"
    using fold_set_new [of planet_id "[0..<n]" "[]"] by (simp add: planets_distinct)
  finally have "dict_get (by_station sv) (planet_id i) = Some (token i)"
    using get_listed [OF _ here, of planet_id] by (simp add: planets_distinct)
  then have "dict_get_or '''' (by_station sv) (planet_id i) = token i" by (simp add: dict_get_or_def)
  moreover have "planet_id i \<in> set (dict_keys (ec_stations (sv_economy sv)))" unfolding fields(3) using here by auto
  ultimately show "find_token path (planet_id i) (the (cd_players (credentials sv))) = Inr (token i)"
    if "token i \<noteq> []"
    using that unfolding credentials_def by (cases "token i") (simp_all add: find_token_entry)
qed

lemma told_config:
  assumes "chosen \<in> set (dict_keys STRATEGIES)" and "tok \<noteq> []"
    and "find_token (out @ ''/credentials.json'') sid (the (cd_players doc)) = Inr tok" and "cd_players doc \<noteq> None"
  shows "\<exists>config. config_from_args stamp None (Some (Document doc)) (told a out port sid chosen) = Inr config
    \<and> cc_token config = Secret tok \<and> cc_station_id config = sid \<and> cc_strategy config = chosen
    \<and> cc_mode config = ''trade'' \<and> cc_ws_url config = server_url port
    \<and> cc_evidence_file config = Some (out @ ''/'' @ sid @ ''-evidence.jsonl'')"
proof -
  have "resolve_token None None sid (out @ ''/credentials.json'') (Some (Document doc)) = Inr (Secret tok)"
    using assms(3,4) by (auto simp: resolve_token_def read_token_from_credentials_def)
  with assms(1) show ?thesis
    by (simp add: config_from_args_def told_def hive_key_def checked_key_def evidence_path_def)
qed

subsection \<open>The processes of a run\<close>

definition orders :: "processes \<Rightarrow> (role \<times> string list \<times> environ) list" where
  "orders ps = map (\<lambda>(r, p). (r, pr_argv p, pr_env p)) ps"

lemma orders_member: "(r, p) \<in> set ps \<Longrightarrow> (r, pr_argv p, pr_env p) \<in> set (orders ps)"
  by (force simp: orders_def)

lemma orders_kept [simp]:
  "orders (stop_all sr ps) = orders ps" "orders (on_process r (exited n) ps) = orders ps"
  "orders (map (await_client sr) ps) = orders ps" "orders (ps @ qs) = orders ps @ orders qs"
  by (auto simp: orders_def stop_all_def stop_process_def on_process_def exited_def await_client_def
      split: prod.splits role.splits option.splits)

lemma orders_start_up:
  "orders (fst (start_up sr a out port env)) =
     (ServerRole, server_argv (sr_exe sr) (sr_show_float sr) a out port, env)
     # (if oa_mode a = ''hivemind'' then [(CoordinatorRole, coordinator_argv (sr_exe sr) a (sr_hive_port sr), env)] else [])"
  by (auto simp: start_up_def Let_def orders_def spawn_def on_process_def exited_def
      split: peer_wait.splits file_wait.splits)

lemma orders_clients:
  "orders (start_clients sr a out port env strategies) =
     map (\<lambda>(i, s). (ClientRole (planet_id i), client_argv (sr_exe sr) a out port (hive_address sr a) (planet_id i) s, env))
       (enumerate 0 strategies)"
  by (auto simp: start_clients_def orders_def spawn_def)

lemma orchestrated:
  assumes "orchestrate sr a = (r, ps)" and "(ServerRole, q) \<in> set ps"
  obtains strategies port where "strategies_of a = Inr strategies"
    "pr_argv q = server_argv (sr_exe sr) (sr_show_float sr) a (out_directory sr a) port"
    "\<And>sid p. (ClientRole sid, p) \<in> set ps \<Longrightarrow> \<exists>i<length strategies. sid = planet_id i
       \<and> pr_argv p = client_argv (sr_exe sr) a (out_directory sr a) port (hive_address sr a) sid (strategies ! i)
       \<and> pr_env p = client_environment (sr_root sr) (sr_environ sr)"
proof -
  let ?out = "out_directory sr a" and ?env = "client_environment (sr_root sr) (sr_environ sr)"
  define port where "port = (if oa_port a = 0 then sr_free_port sr else oa_port a)"
  obtain strategies where s: "strategies_of a = Inr strategies"
    using assms by (cases "strategies_of a") (auto simp: orchestrate_def split: if_splits)
  have all: "set (orders ps) \<subseteq> set (orders (fst (start_up sr a ?out port ?env)))
      \<union> set (orders (start_clients sr a ?out port ?env strategies))"
    using assms s by (auto simp: orchestrate_def Let_def port_def split: if_splits prod.splits option.splits)
  have "pr_argv q = server_argv (sr_exe sr) (sr_show_float sr) a ?out port"
    using orders_member [OF assms(2)] all by (auto simp: orders_start_up orders_clients)
  moreover have "\<exists>i<length strategies. sid = planet_id i
       \<and> pr_argv p = client_argv (sr_exe sr) a ?out port (hive_address sr a) sid (strategies ! i) \<and> pr_env p = ?env"
    if "(ClientRole sid, p) \<in> set ps" for sid p
    using orders_member [OF that] all by (force simp: orders_start_up orders_clients enumerate_pairs)
  ultimately show ?thesis by (rule that [OF s])
qed

text \<open>C26: In trade mode the orchestrator's processes fit together. Its server command line is understood by the
  server's parser as the run that was asked for (planets, ticks, tick length, production, variation, surplus and
  starting stock, the files it writes), and builds a server; every client command line, under the
  environment the client gets, is understood by the client's parser, and with the credentials file that server
  writes it is configured for its own planet, the strategy assigned to it and the server's address, with a token
  for which the server gives it that planet's seat.\<close>

theorem orchestrated_clients_seated:
  assumes "orchestrate sr a = (r, ps)" and "(ServerRole, q) \<in> set ps" and "oa_mode a = ''trade''"
    and "read_float (sr_show_float sr (oa_surplus a)) = Some (oa_surplus a)"
    and "is_value server_options (sr_show_float sr (oa_surplus a))"
    and "oa_production a = ''run2'' \<or> oa_production a = ''balanced'' \<and> 3 \<le> oa_planets a" and "0 \<le> oa_starting_stock a"
    and "out_directory sr a \<noteq> []" and "take 1 (out_directory sr a) \<noteq> ''-''" and "take 1 (oa_client_log_level a) \<noteq> ''-''"
    and "inj_on token {..<nat (oa_planets a)}" and "\<forall>i<nat (oa_planets a). token i \<noteq> []"
  shows "\<exists>sa sv. parse_server read_float (drop 3 (pr_argv q)) = Inr sa \<and> server_of_args fresh token sa = Inr sv
    \<and> sa_planets sa = oa_planets a \<and> sa_ticks sa = oa_ticks a \<and> sa_tick_ms sa = oa_tick_ms a
    \<and> sa_production sa = oa_production a \<and> sa_variation sa = oa_variation a \<and> sa_surplus sa = oa_surplus a
    \<and> sa_starting_stock sa = oa_starting_stock a
    \<and> sa_credentials_file sa = out_directory sr a @ ''/credentials.json''
    \<and> sa_report sa = out_directory sr a @ ''/server-report.json''
    \<and> (\<forall>sid p. (ClientRole sid, p) \<in> set ps \<longrightarrow>
        (\<exists>i ca config. sid = planet_id i \<and> i < nat (oa_planets a)
          \<and> parse_client (pr_env p) (drop 3 (pr_argv p)) = Inr ca
          \<and> config_from_args stamp (dict_get (pr_env p) ''BAZAAR_TOKEN'') (Some (Document (credentials sv))) ca = Inr config
          \<and> map_sum id (\<lambda>xs. xs ! i) (assign_strategies (oa_strategies a) (oa_planets a)) = Inr (cc_strategy config)
          \<and> cc_station_id config = sid \<and> cc_ws_url config = server_url (sa_port sa)
          \<and> authenticate SUBPROTOCOL (authorization config) sv = (Seated sid, sv)))"
proof -
  obtain strategies port where run: "strategies_of a = Inr strategies"
    "pr_argv q = server_argv (sr_exe sr) (sr_show_float sr) a (out_directory sr a) port"
    and clients: "\<And>sid p. (ClientRole sid, p) \<in> set ps \<Longrightarrow> \<exists>i<length strategies. sid = planet_id i
       \<and> pr_argv p = client_argv (sr_exe sr) a (out_directory sr a) port (hive_address sr a) sid (strategies ! i)
       \<and> pr_env p = client_environment (sr_root sr) (sr_environ sr)"
    using orchestrated [OF assms(1,2)] by metis
  let ?out = "out_directory sr a" and ?n = "nat (oa_planets a)"
  have assigned: "assign_strategies (oa_strategies a) (oa_planets a) = Inr strategies"
    using run(1) assms(3) by (simp add: strategies_of_def)
  note names = assigned_strategies [OF this]
  define sa where "sa = server_defaults\<lparr>sa_port := port, sa_planets := oa_planets a, sa_ticks := oa_ticks a,
        sa_tick_ms := oa_tick_ms a, sa_production := oa_production a, sa_variation := oa_variation a,
        sa_surplus := oa_surplus a, sa_starting_stock := oa_starting_stock a,
        sa_credentials_file := ?out @ ''/credentials.json'', sa_report := ?out @ ''/server-report.json''\<rparr>"
  have read: "parse_server read_float (drop 3 (pr_argv q)) = Inr sa"
    unfolding run(2) sa_def using assms(4-9) by (intro server_argv_read) auto
  obtain production where "production_of sa = Inr production"
  proof -
    have "\<not> nat (oa_planets a) < 3" if "3 \<le> oa_planets a" using that by linarith
    with assms(6) that show ?thesis by (auto simp: production_of_def sa_def balanced_production_def)
  qed
  then obtain rs stock rid sv where sv: "server_of_args fresh token sa = Inr sv"
    "sv = server_init (build_economy ?n rs stock rid) (fresh_tokens token (build_economy ?n rs stock rid)) False None (Some production)"
    using assms(7) by (auto simp: server_of_args_def economy_of_def sa_def server_defaults_def)
  have "\<exists>i ca config. sid = planet_id i \<and> i < ?n
          \<and> parse_client (pr_env p) (drop 3 (pr_argv p)) = Inr ca
          \<and> config_from_args stamp (dict_get (pr_env p) ''BAZAAR_TOKEN'') (Some (Document (credentials sv))) ca = Inr config
          \<and> map_sum id (\<lambda>xs. xs ! i) (assign_strategies (oa_strategies a) (oa_planets a)) = Inr (cc_strategy config)
          \<and> cc_station_id config = sid \<and> cc_ws_url config = server_url (sa_port sa)
          \<and> authenticate SUBPROTOCOL (authorization config) sv = (Seated sid, sv)"
    if client: "(ClientRole sid, p) \<in> set ps" for sid p
  proof -
    obtain i where i: "i < length strategies" "sid = planet_id i"
      "pr_argv p = client_argv (sr_exe sr) a ?out port (hive_address sr a) sid (strategies ! i)"
      "pr_env p = client_environment (sr_root sr) (sr_environ sr)" using clients [OF client] by blast
    then have here: "i < ?n" and chosen: "strategies ! i \<in> set (dict_keys STRATEGIES)"
      using names nth_mem [of i strategies] by auto
    note listed = listed_planets [OF assms(11) sv(2) here]
    have tok: "token i \<noteq> []" using assms(12) here by blast
    have ca: "parse_client (pr_env p) (drop 3 (pr_argv p)) = Inr (told a ?out port sid (strategies ! i))"
      unfolding i(3,4) using assms(3,8,9,10) planet_id_plain strategy_named_plainly [OF chosen]
      by (intro client_argv_read) (simp_all add: i(2) del: One_nat_def)
    have "cd_players (credentials sv) \<noteq> None" by (simp add: credentials_def)
    from told_config [OF chosen tok listed(2) [OF tok] this, where out = ?out and stamp = stamp and a = a and port = port]
    obtain config where config: "config_from_args stamp None (Some (Document (credentials sv)))
        (told a ?out port sid (strategies ! i)) = Inr config"
      "cc_token config = Secret (token i)" "cc_station_id config = sid" "cc_strategy config = strategies ! i"
      "cc_ws_url config = server_url port"
      unfolding i(2) by blast
    have "SUBPROTOCOL \<in> set (map strip (split_commas SUBPROTOCOL))" by code_simp
    with listed(1,3) have "authenticate SUBPROTOCOL (authorization config) sv = (Seated sid, sv)"
      by (simp add: authenticate_def authorization_def config(2) i(2))
    with ca config i(2) here show ?thesis
      by (intro exI [of _ i] exI [of _ "told a ?out port sid (strategies ! i)"] exI [of _ config])
        (simp add: assigned i(4) environment_empty sa_def)
  qed
  with read sv(1) show ?thesis
    by (intro exI [of _ sa] exI [of _ sv]) (simp add: sa_def server_defaults_def)
qed

definition demo_surroundings :: surroundings where
  "demo_surroundings = \<lparr>sr_exe = ''python'', sr_root = ''/repo'', sr_environ = [(''BAZAAR_TOKEN'', ''old-key'')],
     sr_stamp = ''20250101T000000Z'', sr_live_stamp = ''20250101T000000000000Z'', sr_show_float = (\<lambda>_. ''0.0''),
     sr_installed = False, sr_used = (\<lambda>_. False), sr_free_port = 4000, sr_hive_port = 4001,
     sr_coordinator = PeerUp, sr_file = Appeared, sr_server_exit = Some 0, sr_client_exit = (\<lambda>_. Some 0),
     sr_stopped = (\<lambda>_. - 15), sr_report = None, sr_page = (\<lambda>_. None), sr_dashboard = PeerUp, sr_dashboard_exit = 0\<rparr>"

definition demo_orch :: orch_args where
  "demo_orch = orch_defaults\<lparr>oa_strategies := ''reserve-trader:2,passive:1''\<rparr>"

definition demo_token :: "nat \<Rightarrow> string" where
  "demo_token i = replicate (i + 1) (CHR ''k'')"

lemma demo_assigned:
  "assign_strategies (oa_strategies demo_orch) 3 = Inr [''reserve-trader'', ''reserve-trader'', ''passive'']"
  by code_simp

lemma demo_roles:
  "map fst (snd (orchestrate demo_surroundings demo_orch))
     = [ServerRole, ClientRole (planet_id 0), ClientRole (planet_id 1), ClientRole (planet_id 2)]"
proof -
  have "oa_planets demo_orch = 3" "oa_mode demo_orch = ''trade''" by (simp_all add: demo_orch_def orch_defaults_def)
  with demo_assigned have "strategies_of demo_orch = Inr [''reserve-trader'', ''reserve-trader'', ''passive'']"
    by (simp add: strategies_of_def)
  with \<open>oa_mode demo_orch = _\<close> show ?thesis
    by (simp add: orchestrate_def demo_surroundings_def Let_def start_up_def start_clients_def stop_all_def stop_process_def
      on_process_def await_client_def numeral_2_eq_2)
qed

theorem orchestrated_clients_seated_witness:
  "\<exists>p sa sv ca config. (ClientRole (planet_id 2), p) \<in> set (snd (orchestrate demo_surroundings demo_orch))
    \<and> server_of_args ''fresh'' demo_token sa = Inr sv \<and> sa_planets sa = 3
    \<and> parse_client (pr_env p) (drop 3 (pr_argv p)) = Inr ca
    \<and> config_from_args ''now'' (dict_get (pr_env p) ''BAZAAR_TOKEN'') (Some (Document (credentials sv))) ca = Inr config
    \<and> cc_strategy config = ''passive'' \<and> authenticate SUBPROTOCOL (authorization config) sv = (Seated (planet_id 2), sv)"
proof -
  obtain r ps where run: "orchestrate demo_surroundings demo_orch = (r, ps)" by (cases "orchestrate demo_surroundings demo_orch")
  then have "ServerRole \<in> fst ` set ps" "ClientRole (planet_id 2) \<in> fst ` set ps"
    using demo_roles unfolding set_map [symmetric] by simp_all
  then obtain q p where q: "(ServerRole, q) \<in> set ps" and p: "(ClientRole (planet_id 2), p) \<in> set ps" by force
  have demo: "oa_mode demo_orch = ''trade''" "oa_surplus demo_orch = 0" "sr_show_float demo_surroundings 0 = ''0.0''"
    "oa_production demo_orch = ''balanced''" "oa_planets demo_orch = 3" "oa_starting_stock demo_orch = 30"
    "oa_client_log_level demo_orch = ''INFO''"
    "out_directory demo_surroundings demo_orch = ''/repo/logs/sim/20250101T000000Z''"
    by (simp_all add: demo_orch_def orch_defaults_def demo_surroundings_def out_directory_def)
  have "inj_on demo_token {..<nat 3}" by (simp add: inj_on_def demo_token_def)
  then obtain sa sv where sv: "server_of_args ''fresh'' demo_token sa = Inr sv" "sa_planets sa = 3"
    and all: "\<forall>sid p. (ClientRole sid, p) \<in> set ps \<longrightarrow>
        (\<exists>i ca config. sid = planet_id i \<and> i < nat 3 \<and> parse_client (pr_env p) (drop 3 (pr_argv p)) = Inr ca
          \<and> config_from_args ''now'' (dict_get (pr_env p) ''BAZAAR_TOKEN'') (Some (Document (credentials sv))) ca = Inr config
          \<and> map_sum id (\<lambda>xs. xs ! i) (assign_strategies (oa_strategies demo_orch) 3) = Inr (cc_strategy config)
          \<and> cc_station_id config = sid \<and> cc_ws_url config = server_url (sa_port sa)
          \<and> authenticate SUBPROTOCOL (authorization config) sv = (Seated sid, sv))"
    using orchestrated_clients_seated [OF run q, of "\<lambda>_. Some 0" demo_token "''fresh''" "''now''", unfolded demo]
    by (simp add: is_value_def demo_token_def) blast
  from all p obtain i ca config where seated: "planet_id 2 = planet_id i" "parse_client (pr_env p) (drop 3 (pr_argv p)) = Inr ca"
    "config_from_args ''now'' (dict_get (pr_env p) ''BAZAAR_TOKEN'') (Some (Document (credentials sv))) ca = Inr config"
    "map_sum id (\<lambda>xs. xs ! i) (assign_strategies (oa_strategies demo_orch) 3) = Inr (cc_strategy config)"
    "authenticate SUBPROTOCOL (authorization config) sv = (Seated (planet_id 2), sv)" by blast
  from seated(1,4) have "cc_strategy config = ''passive''" by (auto simp: planet_id_inj demo_assigned numeral_2_eq_2)
  with seated sv p show ?thesis unfolding run snd_conv
    by (intro exI [of _ p] exI [of _ sa] exI [of _ sv] exI [of _ ca] exI [of _ config] conjI)
qed

subsection \<open>The end of the program\<close>

abbreviation ended :: "processes \<Rightarrow> bool" where
  "ended ps \<equiv> \<forall>rp \<in> set ps. pr_returncode (snd rp) \<noteq> None"

lemma stop_all_ends: "ended (stop_all sr ps)"
  by (auto simp: stop_all_def stop_process_def exited_def)

lemma orchestrate_ends: "orchestrate sr a = (r, ps) \<Longrightarrow> ended ps"
  using stop_all_ends by (auto simp: orchestrate_def Let_def split: if_splits sum.splits prod.splits option.splits)

lemma member_ends:
  "orchestrate sr a = (r, ps) \<Longrightarrow> (role, p) \<in> set ps \<Longrightarrow> \<exists>n. pr_returncode p = Some n"
  "(role, p) \<in> set (stop_all sr ps) \<Longrightarrow> \<exists>n. pr_returncode p = Some n"
  using orchestrate_ends stop_all_ends [of sr ps] by fastforce+

lemma run_live_ends: "run_live sr a = (e, ps) \<Longrightarrow> ended ps"
  by (auto simp: run_live_def Let_def exited_def dest: member_ends
      split: if_splits prod.splits sum.splits peer_wait.splits)

lemma orchestrate_complete:
  assumes "orchestrate sr a = (Inr s, ps)"
  obtains strategies where "strategies_of a = Inr strategies"
    "su_client_exit_codes s = map (\<lambda>sid. (sid, exit_code_of sr sid)) (map planet_id [0..<length strategies])"
    "su_server_report s = sr_report sr"
    "\<And>sid. (\<exists>p. (ClientRole sid, p) \<in> set ps) \<longleftrightarrow> sid \<in> planet_id ` {..<length strategies}"
    "\<And>sid p. (ClientRole sid, p) \<in> set ps \<Longrightarrow> exit_code_of sr sid = Exited 0 \<Longrightarrow> pr_returncode p = Some 0"
proof -
  define out where "out = out_directory sr a"
  define port where "port = (if oa_port a = 0 then sr_free_port sr else oa_port a)"
  define env where "env = client_environment (sr_root sr) (sr_environ sr)"
  obtain strategies started c where s: "strategies_of a = Inr strategies" "start_up sr a out port env = (started, None)"
    "sr_server_exit sr = Some c" "s = orch_summary_of sr a out port strategies"
    "ps = stop_all sr (map (await_client sr) (on_process ServerRole (exited c)
       (started @ start_clients sr a out port env strategies)))"
    using assms
    by (auto simp: orchestrate_def Let_def out_def port_def env_def split: if_splits sum.splits prod.splits option.splits)
  have roles: "map fst (stop_all sr (map (await_client sr) (on_process ServerRole (exited c) qs))) = map fst qs" for qs
    by (auto simp: stop_all_def stop_process_def on_process_def await_client_def split: prod.splits role.splits option.splits)
  have started: "ClientRole sid \<notin> fst ` set started" for sid
    using s(2) by (auto simp: start_up_def Let_def on_process_def split: if_splits peer_wait.splits file_wait.splits)
  have "fst ` set ps = fst ` set started \<union> (\<lambda>i. ClientRole (planet_id i)) ` {..<length strategies}"
    unfolding s(5) set_map [symmetric] roles
    by (auto simp: start_clients_def image_iff enumerate_pairs split: prod.splits) (metis enumerate_pairs fst_conv)
  moreover have "(\<exists>p. (ClientRole sid, p) \<in> set ps) \<longleftrightarrow> ClientRole sid \<in> fst ` set ps" for sid by force
  ultimately have members: "(\<exists>p. (ClientRole sid, p) \<in> set ps) \<longleftrightarrow> sid \<in> planet_id ` {..<length strategies}" for sid
    using started by auto
  have "pr_returncode p = Some 0" if "(ClientRole sid, p) \<in> set ps" "exit_code_of sr sid = Exited 0" for sid p
    using that unfolding s(5)
    by (auto simp: stop_all_def stop_process_def await_client_def exit_code_of_def exited_def
        split: prod.splits role.splits option.splits if_splits)
  with s members show ?thesis by (intro that [of strategies]) (simp_all add: orch_summary_of_def Let_def)
qed

lemma strategies_length: "strategies_of a = Inr strategies \<Longrightarrow> length strategies = nat (oa_planets a)"
  using assigned_strategies(1) [of "oa_strategies a" "oa_planets a" strategies]
  by (auto simp: strategies_of_def split: if_splits)

text \<open>C27: Whatever happens, no process the orchestrator started is still running when it ends. Status 0 means that
  only help was asked for, or that the server's report says FINISHED and there was a client for every planet,
  each of which ended with 0.\<close>

theorem clean_exit_is_complete:
  assumes "orchestrate_main read_float sr argv = (e, ps)"
  shows "(\<forall>(role, p) \<in> set ps. pr_returncode p \<noteq> None)
    \<and> (end_status e = 0 \<longrightarrow> parse_orch read_float argv = Inl HelpShown
        \<or> (\<exists>a rp. parse_orch read_float argv = Inr a \<and> sr_report sr = Some rp \<and> rt_phase rp = ''FINISHED''
          \<and> (\<forall>i<nat (oa_planets a). \<exists>p. (ClientRole (planet_id i), p) \<in> set ps)
          \<and> (\<forall>sid p. (ClientRole sid, p) \<in> set ps \<longrightarrow> pr_returncode p = Some 0)))"
proof (cases "parse_orch read_float argv")
  case (Inl x)
  with assms show ?thesis by (cases x) (auto simp: orchestrate_main_def end_status_def exit_status_def)
next
  case (Inr a)
  have complete: "sr_report sr \<noteq> None \<and> rt_phase (the (sr_report sr)) = ''FINISHED''
      \<and> (\<forall>i<nat (oa_planets a). \<exists>p. (ClientRole (planet_id i), p) \<in> set qs)
      \<and> (\<forall>sid p. (ClientRole sid, p) \<in> set qs \<longrightarrow> pr_returncode p = Some 0)"
    if "orchestrate sr a' = (r, qs)" "end_status (judged r) = 0" "oa_planets a' = oa_planets a" for a' r qs
  proof -
    from that(2) obtain s where s: "r = Inr s" "run_clean s"
      by (auto simp: judged_def end_status_def split: sum.splits if_splits)
    from orchestrate_complete [OF that(1) [unfolded s(1)]] obtain strategies where
      run: "strategies_of a' = Inr strategies"
        "su_client_exit_codes s = map (\<lambda>sid. (sid, exit_code_of sr sid)) (map planet_id [0..<length strategies])"
        "su_server_report s = sr_report sr"
        "\<And>sid. (\<exists>p. (ClientRole sid, p) \<in> set qs) \<longleftrightarrow> sid \<in> planet_id ` {..<length strategies}"
        "\<And>sid p. (ClientRole sid, p) \<in> set qs \<Longrightarrow> exit_code_of sr sid = Exited 0 \<Longrightarrow> pr_returncode p = Some 0"
      by blast
    have "\<forall>i<length strategies. exit_code_of sr (planet_id i) = Exited 0"
      using s(2) run(2) by (auto simp: run_clean_def list_all_iff split: option.splits)
    then have "pr_returncode p = Some 0" if "(ClientRole sid, p) \<in> set qs" for sid p
      using run(4) [of sid] run(5) [OF that] that by blast
    moreover have "\<exists>p. (ClientRole (planet_id i), p) \<in> set qs" if "i < nat (oa_planets a)" for i
      unfolding run(4) using strategies_length [OF run(1)] that \<open>oa_planets a' = _\<close> by simp
    ultimately show ?thesis using s(2) run(3) by (auto simp: run_clean_def split: option.splits)
  qed
  have "ended ps" using assms Inr orchestrate_ends run_live_ends
    by (cases "oa_live a") (simp_all add: orchestrate_main_def split: prod.splits)
  show ?thesis
  proof (cases "oa_live a")
    case False
    then obtain r where "orchestrate sr a = (r, ps)" "e = judged r"
      using assms Inr by (auto simp: orchestrate_main_def split: prod.splits)
    with complete [of a r ps] \<open>ended ps\<close> Inr show ?thesis by auto
  next
    case True
    then have live: "run_live sr a = (e, ps)" using assms Inr by (simp add: orchestrate_main_def)
    show ?thesis
    proof (cases "end_status e = 0")
      case clean: True
      define a' where "a' = a\<lparr>oa_out := Some (case oa_out a of Some p \<Rightarrow> p | None \<Rightarrow> sr_root sr @ ''/logs/sim/'' @ sr_live_stamp sr)\<rparr>"
      from live clean obtain r qs d where "orchestrate sr a' = (r, qs)" "e = judged r" "ps = qs @ [(DashboardRole, d)]"
        by (auto simp: run_live_def Let_def a'_def judged_def is_value_error_def end_status_def stop_all_def stop_process_def
            split: if_splits prod.splits sum.splits peer_wait.splits)
      with complete [of a' r qs] \<open>ended ps\<close> Inr clean show ?thesis by (auto simp: a'_def)
    qed (use \<open>ended ps\<close> in auto)
  qed
qed

definition demo_finished :: surroundings where
  "demo_finished = demo_surroundings\<lparr>sr_report := Some
     \<lparr>rt_run_id = ''sim-1'', rt_phase = ''FINISHED'', rt_tick = 30, rt_duration_ticks = 30, rt_wall_seconds = Some 9,
      rt_score = \<lparr>sc_planets = 3, sc_collective_success = True, sc_survivors = 3, sc_world_alive_ticks = 90,
        sc_shortage_ticks = 0, sc_unmet_units = 0, sc_subject_survived = None, sc_subject_health = None\<rparr>,
      rt_planets = [], rt_transactions = 0, rt_commands = [], rt_results = [], rt_protocol_errors = [],
      rt_connections = 3\<rparr>\<rparr>"

theorem clean_exit_is_complete_witness:
  "\<exists>e ps. orchestrate_main (\<lambda>_. None) demo_finished [''--strategies'', ''reserve-trader:2,passive:1''] = (e, ps)
    \<and> end_status e = 0 \<and> (\<exists>p. (ClientRole (planet_id 2), p) \<in> set ps \<and> pr_returncode p = Some 0)"
proof -
  have parsed: "parse_orch (\<lambda>_. None) [''--strategies'', ''reserve-trader:2,passive:1''] = Inr demo_orch"
    by (simp add: parse_orch_def meanings_def orch_options_def help_options_def is_value_def set_orch_def demo_orch_def)
  have demo: "oa_planets demo_orch = 3" "oa_mode demo_orch = ''trade''" "\<not> oa_live demo_orch"
    by (simp_all add: demo_orch_def orch_defaults_def)
  with demo_assigned have "strategies_of demo_orch = Inr [''reserve-trader'', ''reserve-trader'', ''passive'']"
    by (simp add: strategies_of_def)
  with demo(2) obtain s ps where run: "orchestrate demo_finished demo_orch = (Inr s, ps)" "run_clean s"
    by (simp add: orchestrate_def demo_finished_def demo_surroundings_def Let_def start_up_def orch_summary_of_def run_clean_def
        exit_code_of_def)
  then have main: "orchestrate_main (\<lambda>_. None) demo_finished [''--strategies'', ''reserve-trader:2,passive:1''] = (Status 0, ps)"
    using demo(3) by (simp add: orchestrate_main_def parsed judged_def)
  have "\<exists>p. (ClientRole (planet_id 2), p) \<in> set ps" "\<And>sid p. (ClientRole sid, p) \<in> set ps \<Longrightarrow> pr_returncode p = Some 0"
    using clean_exit_is_complete [OF main] demo(1) by (auto simp: parsed end_status_def)
  then show ?thesis using main by (auto simp: end_status_def)
qed

end
