(* ===== verification/Walkthrough.thy ===== *)
theory Walkthrough
  imports Executor World_Model
begin

text \<open>
  \<open>bazaar_client/scripted_walkthrough.py\<close>: the fixed ten-step exchange with the practice server and the
  checks made on the way. The session is given by what its calls answer: \<open>ex\<close> is \<open>Executor.execute\<close>, \<open>aw\<close> is
  \<open>wait_for_sequence\<close>, \<open>hs\<close> the handshake and \<open>sy\<close> the sync; each may raise. The details a check prints are
  left out.
\<close>

record walk_check =
  ck_step :: string
  ck_description :: string
  ck_passed :: bool

record walk_result =
  wr_checks :: "walk_check list"
  wr_messages_sent :: int
  wr_final_inventory :: "Bundle option"
  wr_transaction_count :: nat
  wr_stored_results :: nat

definition walk_result_new :: walk_result where
  "walk_result_new = \<lparr>wr_checks = [], wr_messages_sent = 0, wr_final_inventory = None, wr_transaction_count = 0,
     wr_stored_results = 0\<rparr>"

definition walk_ok :: "walk_result \<Rightarrow> bool" where
  "walk_ok r \<longleftrightarrow> (\<forall>c \<in> set (wr_checks r). ck_passed c)"

definition walk_failures :: "walk_result \<Rightarrow> walk_check list" where
  "walk_failures r = filter (\<lambda>c. \<not> ck_passed c) (wr_checks r)"

record walker =
  wk_trader :: trader
  wk_world :: world_model
  wk_result :: walk_result
  wk_sent :: int

subsection \<open>Steps that may raise\<close>

type_synonym 'a walk = "walker \<Rightarrow> (session_error + 'a) \<times> walker"

definition bindW :: "'a walk \<Rightarrow> ('a \<Rightarrow> 'b walk) \<Rightarrow> 'b walk" where
  "bindW m f w = (case m w of (Inl e, w) \<Rightarrow> (Inl e, w) | (Inr x, w) \<Rightarrow> f x w)"

definition returnW :: "'a \<Rightarrow> 'a walk" where
  "returnW x w = (Inr x, w)"

definition raiseW :: "session_error \<Rightarrow> 'a walk" where
  "raiseW e w = (Inl e, w)"

definition on_traderW :: "(trader \<Rightarrow> (session_error + 'a) \<times> trader) \<Rightarrow> 'a walk" where
  "on_traderW f w = (case f (wk_trader w) of (r, tr) \<Rightarrow> (r, w\<lparr>wk_trader := tr\<rparr>))"

definition record_check :: "string \<Rightarrow> string \<Rightarrow> bool \<Rightarrow> unit walk" where
  "record_check step description passed w =
     (Inr (), w\<lparr>wk_result := (wk_result w)\<lparr>wr_checks := wr_checks (wk_result w)
        @ [\<lparr>ck_step = step, ck_description = description, ck_passed = passed\<rparr>]\<rparr>\<rparr>)"

definition expect :: "string \<Rightarrow> string \<Rightarrow> 'a \<Rightarrow> 'a \<Rightarrow> unit walk" where
  "expect step description actual expected = record_check step description (actual = expected)"

fun in_turn :: "unit walk list \<Rightarrow> unit walk" where
  "in_turn [] = returnW ()"
| "in_turn (m # ms) = bindW m (\<lambda>_. in_turn ms)"

text \<open>\<open>self._sent += 1\<close>.\<close>

definition count_message :: "unit walk" where
  "count_message w = (Inr (), w\<lparr>wk_sent := wk_sent w + 1\<rparr>)"

definition observe_state :: "snapshot \<Rightarrow> snapshot walk" where
  "observe_state s w = (Inr s, w\<lparr>wk_world := snd (apply_snapshot s (wk_world w)),
     wk_trader := (wk_trader w)\<lparr>tr_memory := (tr_memory (wk_trader w))
        \<lparr>counterparties := cp_update s (counterparties (tr_memory (wk_trader w)))\<rparr>\<rparr>\<rparr>)"

definition confirm_record :: "snapshot option \<Rightarrow> unit walk" where
  "confirm_record s w = (Inr (), w\<lparr>wk_trader := confirm_last s (wk_trader w)\<rparr>)"

text \<open>\<open>outcome.result.x\<close> raises when there is no result.\<close>

definition the_result :: "session_outcome \<Rightarrow> command_result walk" where
  "the_result x = (case so_result x of None \<Rightarrow> raiseW (Raised AttributeError) | Some r \<Rightarrow> returnW r)"

definition available :: "snapshot \<Rightarrow> Bundle walk" where
  "available s w = (Inr (available_to_commit (tr_commitments (wk_trader w)) s), w)"

subsection \<open>The script\<close>

definition PEER :: string where "PEER = ''P02''"
definition TTL :: int where "TTL = 6"
definition ADVERTISE_1 :: string where "ADVERTISE_1 = ''student-advertise-1''"
definition ADVERTISE_SEEKING :: string where "ADVERTISE_SEEKING = ''student-advertise-seeking-1''"
definition OFFER_1 :: string where "OFFER_1 = ''student-offer-1''"
definition ACCEPT_1 :: string where "ACCEPT_1 = ''student-accept-1''"
definition WITHDRAW_1 :: string where "WITHDRAW_1 = ''student-withdraw-1''"
definition ADVERTISE_2 :: string where "ADVERTISE_2 = ''student-advertise-2''"
definition EXPECTED_MESSAGES_SENT :: int where "EXPECTED_MESSAGES_SENT = 8"
definition EXPECTED_FINAL_INVENTORY :: Bundle where "EXPECTED_FINAL_INVENTORY = Bundle 28 31 31"

type_synonym execute_call = "action \<Rightarrow> string \<Rightarrow> string \<Rightarrow> trader \<Rightarrow> (session_error + session_outcome) \<times> trader"
type_synonym await_call = "int \<Rightarrow> trader \<Rightarrow> (session_error + snapshot) \<times> trader"
type_synonym handshake_call = "trader \<Rightarrow> (session_error + snapshot \<times> readiness_ack) \<times> trader"
type_synonym no_id_call = "trader \<Rightarrow> (session_error + session_outcome) \<times> trader"
type_synonym sync_call = "trader \<Rightarrow> (session_error + unit) \<times> trader"

definition await_state :: "await_call \<Rightarrow> int \<Rightarrow> snapshot walk" where
  "await_state aw n = bindW (on_traderW (aw n)) observe_state"

text \<open>\<open>outcome = await self._executor.execute(...); self._sent += 1\<close>.\<close>

definition perform :: "execute_call \<Rightarrow> string \<Rightarrow> action \<Rightarrow> string \<Rightarrow> session_outcome walk" where
  "perform ex step a rid = bindW (on_traderW (ex a rid step)) (\<lambda>x. bindW count_message (\<lambda>_. returnW x))"

definition step_1_ready :: "handshake_call \<Rightarrow> unit walk" where
  "step_1_ready hs = bindW (on_traderW hs) (\<lambda>(s, ack). bindW (observe_state s) (\<lambda>_.
     let peer_ads = filter (\<lambda>a. ad_station_id a = PEER) (advertisements s)
     in in_turn [count_message,
       expect ''1'' ''opening world_version'' (world_version s) 2,
       expect ''1'' ''opening snapshot_sequence'' (snapshot_sequence s) 1,
       expect ''1'' ''station is P01'' (self_station_id s) ''P01'',
       expect ''1'' ''opening inventory'' (inventory (me s)) (Bundle 30 30 30),
       expect ''1'' ''specialty'' (specialty (me s)) WATER,
       expect ''1'' ''readiness acknowledged'' (ack_ready ack, ack_snapshot_sequence ack) (True, 1),
       expect ''1'' ''readiness run id matches'' (ack_run_id ack) (run_id s),
       record_check ''1'' ''P02 advertises selling food, seeking water''
         (length peer_ads = 1 \<and> selling (hd peer_ads) = {FOOD} \<and> seeking (hd peer_ads) = {WATER})]))"

definition step_2_advertise :: "execute_call \<Rightarrow> await_call \<Rightarrow> unit walk" where
  "step_2_advertise ex aw =
     bindW (perform ex ''2'' (AdvertiseAction {WATER} {FOOD} TTL) ADVERTISE_1) (\<lambda>x.
     bindW (record_check ''2'' ''advertise succeeded'' (so_ok x)) (\<lambda>_.
     bindW (the_result x) (\<lambda>r.
     bindW (expect ''2'' ''result request_id echoes ours'' (request_id r) ADVERTISE_1) (\<lambda>_.
     bindW (await_state aw 2) (\<lambda>s.
     in_turn [confirm_record (Some s),
       expect ''2'' ''world_version'' (world_version s) 3,
       expect ''2'' ''snapshot_sequence'' (snapshot_sequence s) 2,
       record_check ''2'' ''our advertisement is published'' (own_advertisement s \<noteq> None),
       expect ''2'' ''advertising moves no resources'' (inventory (me s)) (Bundle 30 30 30)])))))"

definition step_3_replace_advertisement :: "execute_call \<Rightarrow> await_call \<Rightarrow> string option walk" where
  "step_3_replace_advertisement ex aw =
     bindW (perform ex ''3'' (AdvertiseAction {} {COMPONENTS} TTL) ADVERTISE_SEEKING) (\<lambda>x.
     bindW (record_check ''3'' ''replacement advertise succeeded'' (so_ok x)) (\<lambda>_.
     bindW (await_state aw 3) (\<lambda>s.
     bindW (in_turn [confirm_record (Some s),
       expect ''3'' ''world_version'' (world_version s) 4,
       expect ''3'' ''snapshot_sequence'' (snapshot_sequence s) 3,
       record_check ''3'' ''replacement sells nothing and seeks components'' (case own_advertisement s of
           None \<Rightarrow> False | Some own \<Rightarrow> selling own = {} \<and> seeking own = {COMPONENTS}),
       record_check ''3'' ''at most one active advertisement per station''
         (length (filter (\<lambda>a. ad_station_id a = ''P01'') (advertisements s)) = 1),
       expect ''3'' ''inventory unchanged'' (inventory (me s)) (Bundle 30 30 30)]) (\<lambda>_.
     bindW (the_result x) (\<lambda>r.
     bindW (record_check ''3'' ''result carries the advertisement id'' (object_id r \<noteq> None)) (\<lambda>_.
     returnW (object_id r)))))))"

definition our_offers :: "snapshot \<Rightarrow> offer list" where
  "our_offers s = filter (\<lambda>o'. proposer_id o' = ''P01'') (offers s)"

definition step_4_offer :: "execute_call \<Rightarrow> await_call \<Rightarrow> unit walk" where
  "step_4_offer ex aw =
     bindW (perform ex ''4'' (OfferAction PEER (Bundle 2 0 0) (Bundle 0 1 0) TTL) OFFER_1) (\<lambda>x.
     bindW (record_check ''4'' ''offer succeeded'' (so_ok x)) (\<lambda>_.
     bindW (await_state aw 4) (\<lambda>s.
     bindW (in_turn [confirm_record (Some s),
       expect ''4'' ''world_version'' (world_version s) 5,
       expect ''4'' ''snapshot_sequence'' (snapshot_sequence s) 4,
       record_check ''4'' ''our offer is open''
         (length (our_offers s) = 1 \<and> offer_status (hd (our_offers s)) = OPEN),
       expect ''4'' ''proposing transfers nothing'' (inventory (me s)) (Bundle 30 30 30)]) (\<lambda>_.
     bindW (available s) (\<lambda>b.
     expect ''4'' ''two water are committed, not spent'' b (Bundle 28 30 30))))))"

definition step_5_observe_acceptance :: "await_call \<Rightarrow> unit walk" where
  "step_5_observe_acceptance aw =
     bindW (await_state aw 5) (\<lambda>s.
     bindW (in_turn [
       expect ''5'' ''world_version'' (world_version s) 6,
       expect ''5'' ''snapshot_sequence'' (snapshot_sequence s) 5,
       record_check ''5'' ''our offer was accepted''
         (length (our_offers s) = 1 \<and> offer_status (hd (our_offers s)) = ACCEPTED),
       expect ''5'' ''one transaction recorded'' (length (transactions s)) 1,
       expect ''5'' ''inventory after the trade'' (inventory (me s)) (Bundle 28 31 30)]) (\<lambda>_.
     bindW (available s) (\<lambda>b.
     record_check ''5'' ''a settled offer no longer commits stock'' (b = Bundle 28 31 30))))"

definition gifts_in :: "snapshot \<Rightarrow> offer list" where
  "gifts_in s = filter (\<lambda>o'. is_gift_to o' ''P01'') (incoming_open_offers s)"

definition checks_6 :: "snapshot \<Rightarrow> unit walk list" where
  "checks_6 s = [
       expect ''6'' ''world_version'' (world_version s) 7,
       expect ''6'' ''snapshot_sequence'' (snapshot_sequence s) 6,
       record_check ''6'' ''P02 offered a gift of one component''
         (length (gifts_in s) = 1 \<and> give (hd (gifts_in s)) = Bundle 0 0 1 \<and> is_zero (receive (hd (gifts_in s)))),
       expect ''6'' ''a gift moves nothing until accepted'' (inventory (me s)) (Bundle 28 31 30)]"

definition step_6_observe_gift :: "await_call \<Rightarrow> string walk" where
  "step_6_observe_gift aw =
     bindW (await_state aw 6) (\<lambda>s.
     bindW (in_turn (checks_6 s)) (\<lambda>_.
     returnW (case gifts_in s of [] \<Rightarrow> '''' | g # _ \<Rightarrow> offer_id g)))"

definition step_7_accept_gift :: "execute_call \<Rightarrow> await_call \<Rightarrow> string \<Rightarrow> unit walk" where
  "step_7_accept_gift ex aw oid =
     bindW (perform ex ''7'' (AcceptAction oid) ACCEPT_1) (\<lambda>x.
     bindW (in_turn [record_check ''7'' ''accept succeeded'' (so_ok x),
       record_check ''7'' ''a successful accept creates a transaction''
         (case so_result x of None \<Rightarrow> False | Some r \<Rightarrow> res_transaction_id r \<noteq> None)]) (\<lambda>_.
     bindW (await_state aw 7) (\<lambda>s.
     in_turn [confirm_record (Some s),
       expect ''7'' ''world_version'' (world_version s) 8,
       expect ''7'' ''snapshot_sequence'' (snapshot_sequence s) 7,
       expect ''7'' ''two transactions recorded'' (length (transactions s)) 2,
       expect ''7'' ''inventory after the gift'' (inventory (me s)) (Bundle 28 31 31),
       record_check ''7'' ''receiving a gift does not clear our advertisement'' (own_advertisement s \<noteq> None)])))"

text \<open>The advertisement's id may be missing; \<open>xn\<close> is what executing a withdrawal of \<open>None\<close> then does.\<close>

definition step_8_withdraw :: "execute_call \<Rightarrow> no_id_call \<Rightarrow> await_call \<Rightarrow> string option \<Rightarrow> unit walk" where
  "step_8_withdraw ex xn aw aid =
     bindW (perform (case aid of None \<Rightarrow> (\<lambda>_ _ _. xn) | Some i \<Rightarrow> ex) ''8''
              (WithdrawAction (case aid of None \<Rightarrow> '''' | Some i \<Rightarrow> i)) WITHDRAW_1) (\<lambda>x.
     bindW (record_check ''8'' ''withdraw succeeded'' (so_ok x)) (\<lambda>_.
     bindW (await_state aw 8) (\<lambda>s.
     in_turn [confirm_record (Some s),
       expect ''8'' ''world_version'' (world_version s) 9,
       expect ''8'' ''snapshot_sequence'' (snapshot_sequence s) 8,
       record_check ''8'' ''our advertisement is gone'' (own_advertisement s = None),
       expect ''8'' ''completed trades remain'' (length (transactions s)) 2,
       expect ''8'' ''inventory unchanged'' (inventory (me s)) (Bundle 28 31 31)])))"

definition step_9_request_limit :: "execute_call \<Rightarrow> unit walk" where
  "step_9_request_limit ex =
     bindW (perform ex ''9'' (AdvertiseAction {WATER} {FOOD} TTL) ADVERTISE_2) (\<lambda>x.
     bindW (record_check ''9'' ''answered by a protocol_error rather than a result''
              (so_result x = None \<and> so_error x \<noteq> None)) (\<lambda>_.
     bindW (case so_error x of None \<Rightarrow> returnW () | Some ev \<Rightarrow> in_turn [
       expect ''9'' ''control code'' (err_code ev) REQUEST_CAPACITY_EXCEEDED,
       expect ''9'' ''session stays open'' (close_session ev) False,
       expect ''9'' ''error echoes our request id'' (err_request_id ev) (Some ADVERTISE_2)]) (\<lambda>_.
     confirm_record None)))"

definition checks_10 :: "snapshot \<Rightarrow> unit walk list" where
  "checks_10 s = [confirm_record (Some s),
       expect ''10'' ''snapshot_sequence advances'' (snapshot_sequence s) 9,
       expect ''10'' ''world_version does not'' (world_version s) 9,
       expect ''10'' ''final inventory'' (inventory (me s)) EXPECTED_FINAL_INVENTORY,
       expect ''10'' ''two transactions'' (length (transactions s)) 2,
       expect ''10'' ''five stored command results'' (length (request_results s)) 5,
       expect ''10'' ''imported total'' (imported_total (me s)) (Bundle 0 1 1),
       expect ''10'' ''exported total'' (exported_total (me s)) (Bundle 2 0 0),
       record_check ''10'' ''the rejected command created no advertisement'' (own_advertisement s = None)]"

definition step_10_sync :: "sync_call \<Rightarrow> await_call \<Rightarrow> unit walk" where
  "step_10_sync sy aw =
     bindW (on_traderW sy) (\<lambda>_. bindW count_message (\<lambda>_.
     bindW (await_state aw 9) (\<lambda>s.
     bindW (in_turn (checks_10 s)) (\<lambda>_ w.
     (Inr (), w\<lparr>wk_result := (wk_result w)\<lparr>wr_final_inventory := Some (inventory (me s)),
        wr_transaction_count := length (transactions s), wr_stored_results := length (request_results s)\<rparr>\<rparr>)))))"

definition report_messages :: "unit walk" where
  "report_messages w = (Inr (), w\<lparr>wk_result := (wk_result w)\<lparr>wr_messages_sent := wk_sent w\<rparr>\<rparr>)"

definition expect_messages :: "unit walk" where
  "expect_messages w = expect ''totals'' ''messages sent'' (wk_sent w) EXPECTED_MESSAGES_SENT w"

definition run_script :: "handshake_call \<Rightarrow> execute_call \<Rightarrow> no_id_call \<Rightarrow> await_call \<Rightarrow> sync_call \<Rightarrow> walk_result walk" where
  "run_script hs ex xn aw sy =
     bindW (step_1_ready hs) (\<lambda>_.
     bindW (step_2_advertise ex aw) (\<lambda>_.
     bindW (step_3_replace_advertisement ex aw) (\<lambda>aid.
     bindW (step_4_offer ex aw) (\<lambda>_.
     bindW (step_5_observe_acceptance aw) (\<lambda>_.
     bindW (step_6_observe_gift aw) (\<lambda>oid.
     bindW (if oid = '''' then report_messages
            else in_turn [step_7_accept_gift ex aw oid, step_8_withdraw ex xn aw aid, step_9_request_limit ex,
                          step_10_sync sy aw, report_messages, expect_messages]) (\<lambda>_ w.
     (Inr (wk_result w), w))))))))"

definition walker_new :: "session \<Rightarrow> walker" where
  "walker_new ss = \<lparr>wk_trader = executor_new ss evidence_init memory_init latency_init, wk_world = world_model_init,
     wk_result = walk_result_new, wk_sent = 0\<rparr>"

end
