(* ===== verification/Cli.thy ===== *)
theory Cli
  imports Arguments Diagnostics Walkthrough Reconnect Server
begin

text \<open>
  \<open>bazaar_client/cli.py\<close>: the program of the client, from its command line to its exit status. The calls of a
  session are given by what they answer, as in \<open>Walkthrough\<close>: \<open>ws\<close> is \<open>wait_for_snapshot\<close>, \<open>wr\<close>
  \<open>wait_for_readiness\<close> and \<open>sc\<close> \<open>send_command\<close>; each may raise. What the modes only log is left out.
\<close>

subsection \<open>A visit to the server\<close>

text \<open>A session, what was written to the run id file, and the commands handed to the session.\<close>

record visit =
  vi_session :: session
  vi_run_id_file :: "string option"
  vi_commands :: "(string \<times> client_message) list"

type_synonym 'a call = "session \<Rightarrow> (session_error + 'a) \<times> session"
type_synonym 'a visiting = "visit \<Rightarrow> (session_error + 'a) \<times> visit"

definition bindV :: "'a visiting \<Rightarrow> ('a \<Rightarrow> 'b visiting) \<Rightarrow> 'b visiting" where
  "bindV m f v = (case m v of (Inl e, v) \<Rightarrow> (Inl e, v) | (Inr x, v) \<Rightarrow> f x v)"

definition returnV :: "'a \<Rightarrow> 'a visiting" where
  "returnV x v = (Inr x, v)"

definition given :: "(session_error + 'a) \<Rightarrow> 'a visiting" where
  "given r v = (r, v)"

definition on_session :: "'a call \<Rightarrow> 'a visiting" where
  "on_session f v = (case f (vi_session v) of (r, ss) \<Rightarrow> (r, v\<lparr>vi_session := ss\<rparr>))"

definition reading :: "(session \<Rightarrow> 'a) \<Rightarrow> 'a visiting" where
  "reading f v = (Inr (f (vi_session v)), v)"

definition record_run_id :: "string option \<Rightarrow> string \<Rightarrow> unit visiting" where
  "record_run_id path r v = (Inr (), if path = None then v else v\<lparr>vi_run_id_file := Some r\<rparr>)"

text \<open>\<open>session.request_ids.next(kind)\<close>.\<close>

definition next_request_id :: "string \<Rightarrow> string visiting" where
  "next_request_id kd v = (case session_request_ids (vi_session v) of
     Inl e \<Rightarrow> (Inl e, v)
   | Inr g \<Rightarrow> (case next_id kd g of
         Inl e \<Rightarrow> (Inl (Raised e), v)
       | Inr (rid, g') \<Rightarrow> (Inr rid, v\<lparr>vi_session := (vi_session v)\<lparr>ss_ids := Some g'\<rparr>\<rparr>)))"

type_synonym send_call = "client_message \<Rightarrow> string \<Rightarrow> string \<Rightarrow> session_outcome call"

definition send_counted :: "send_call \<Rightarrow> client_message \<Rightarrow> string \<Rightarrow> string \<Rightarrow> session_outcome visiting" where
  "send_counted sc m kd rid v =
     on_session (sc m kd rid) (v\<lparr>vi_commands := vi_commands v @ [(rid, m)]\<rparr>)"

text \<open>\<open>handshake\<close>: the first state, then the acknowledgement of readiness.\<close>

definition handshake :: "(int \<Rightarrow> snapshot call) \<Rightarrow> readiness_ack call \<Rightarrow> (snapshot \<times> readiness_ack) visiting" where
  "handshake ws wr = bindV (on_session (ws 1)) (\<lambda>s. bindV (on_session wr) (\<lambda>ack. returnV (s, ack)))"

definition acknowledged :: "snapshot \<Rightarrow> readiness_ack \<Rightarrow> bool" where
  "acknowledged s ack \<longleftrightarrow> ack_ready ack \<and> ack_snapshot_sequence ack = snapshot_sequence s"

definition advert_expiry :: "snapshot \<Rightarrow> int" where
  "advert_expiry s = snap_tick s + min (min 6 (max_publication_ttl_ticks (snap_rules s)))
     (duration_ticks (snap_rules s) - snap_tick s)"

text \<open>\<open>run\<close>: connect, declare readiness, advertise once and look for the advertisement.\<close>

definition advertise_once :: "(int \<Rightarrow> snapshot call) \<Rightarrow> send_call \<Rightarrow> snapshot \<Rightarrow> int visiting" where
  "advertise_once ws sc s =
     bindV (next_request_id ''advertise'') (\<lambda>rid.
     bindV (\<lambda>v. given (session_run_id (vi_session v)) v) (\<lambda>r.
     bindV (given (map_sum Raised id (build_advertise r rid [WATER] [FOOD] (advert_expiry s)))) (\<lambda>m.
     bindV (send_counted sc m ''advertise'' rid) (\<lambda>x.
     if \<not> so_ok x then returnV 1
     else bindV (on_session (ws (snapshot_sequence s + 1))) (\<lambda>s'.
       returnV (if own_advertisement s' = None then 1 else 0))))))"

definition run_handshake :: "(int \<Rightarrow> snapshot call) \<Rightarrow> readiness_ack call \<Rightarrow> send_call \<Rightarrow> string option \<Rightarrow> int visiting" where
  "run_handshake ws wr sc path =
     bindV (handshake ws wr) (\<lambda>(s, ack).
     if \<not> acknowledged s ack then returnV 1
     else bindV (record_run_id path (run_id s)) (\<lambda>_.
          bindV (reading (can_send_trading_commands \<circ> ss_lifecycle)) (\<lambda>may.
          if \<not> may then returnV 0 else advertise_once ws sc s)))"

text \<open>\<open>run_check_mode\<close>: no command is sent.\<close>

definition run_check_mode :: "(int \<Rightarrow> snapshot call) \<Rightarrow> readiness_ack call \<Rightarrow> int visiting" where
  "run_check_mode ws wr = bindV (handshake ws wr) (\<lambda>(s, ack). returnV (if acknowledged s ack then 0 else 1))"

text \<open>\<open>async with BazaarSession(config) as session\<close>.\<close>

definition with_session :: "session_error option \<Rightarrow> 'a visiting \<Rightarrow> (session_error + 'a) \<times> visit" where
  "with_session failed body =
     (let v = \<lparr>vi_session = session_init None, vi_run_id_file = None, vi_commands = []\<rparr>
      in case bindV (on_session (session_start failed)) (\<lambda>_. body) v of
           (r, v') \<Rightarrow> if fst (session_start failed (vi_session v)) \<noteq> Inr () then (r, v')
             else (r, v'\<lparr>vi_session := session_stop (vi_session v')\<rparr>))"

subsection \<open>Exit status\<close>

text \<open>The reports are written in a \<open>finally\<close>, whose exception replaces that of the run.\<close>

definition run_trade_mode :: "failure option \<Rightarrow> (failure + trading_stats) \<Rightarrow> failure + int" where
  "run_trade_mode reports r = (case reports of
     Some f \<Rightarrow> Inl f
   | None \<Rightarrow> (case r of Inl f \<Rightarrow> Inl f
       | Inr stats \<Rightarrow> Inr (if ts_final_snapshot stats = None then 1 else 0)))"

definition run_walkthrough_mode :: "failure option \<Rightarrow> (failure + walk_result) \<Rightarrow> failure + int" where
  "run_walkthrough_mode reports r = (case reports of
     Some f \<Rightarrow> Inl f
   | None \<Rightarrow> (case r of Inl f \<Rightarrow> Inl f | Inr w \<Rightarrow> Inr (if walk_ok w then 0 else 1)))"

datatype mode_end = EndedWith int | Interrupted | RaisedBy failure

text \<open>
  \<open>connect\<close> of \<open>bazaar_client/connection/ws_client.py\<close>. \<open>opened\<close> is what the socket library did: the
  exception it raised (a refused connection, a name that did not resolve, an HTTP status, a bad URL), or the
  subprotocol the server selected. A name is shown in quotes, as \<open>repr\<close> shows one without quotes in it.
\<close>

definition subprotocol_failure :: "string option \<Rightarrow> failure" where
  "subprotocol_failure selected =
     (let quoted = \<lambda>n. [CHR 0x27] @ n @ [CHR 0x27]
      in \<lparr>fl_class = SubprotocolNotSelected,
          fl_text = ''server selected subprotocol '' @ (case selected of None \<Rightarrow> ''None'' | Some n \<Rightarrow> quoted n)
            @ '', expected '' @ quoted SUBPROTOCOL,
          fl_type = ''SubprotocolNotSelected'', fl_code = None\<rparr>)"

definition connect_failure :: "failure + string option \<Rightarrow> failure option" where
  "connect_failure opened = (case opened of
     Inl f \<Rightarrow> Some f
   | Inr selected \<Rightarrow> if selected \<noteq> Some SUBPROTOCOL then Some (subprotocol_failure selected) else None)"

text \<open>The check mode: the connection, then the calls of the session, whose exceptions reach \<open>main\<close>.\<close>

definition check_run :: "failure + string option \<Rightarrow> (int \<Rightarrow> snapshot call) \<Rightarrow> readiness_ack call \<Rightarrow> mode_end" where
  "check_run opened ws wr = (case connect_failure opened of
     Some f \<Rightarrow> RaisedBy f
   | None \<Rightarrow> (case fst (with_session None (run_check_mode ws wr)) of
         Inr n \<Rightarrow> EndedWith n | Inl e \<Rightarrow> RaisedBy (session_failure e)))"

text \<open>How the client program ends: with a status, or with an exception nobody catches.\<close>

datatype cli_end = CliStatus int | Uncaught

definition config_failure :: "string \<Rightarrow> failure" where
  "config_failure t = \<lparr>fl_class = ConfigurationError, fl_text = t, fl_type = ''ConfigurationError'', fl_code = None\<rparr>"

definition upper_char :: "char \<Rightarrow> char" where
  "upper_char c = (let n = of_char c :: nat in if 97 \<le> n \<and> n \<le> 122 then char_of (n - 32) else c)"

definition LEVELS :: "string list" where
  "LEVELS = [''CRITICAL'', ''FATAL'', ''ERROR'', ''WARN'', ''WARNING'', ''INFO'', ''DEBUG'', ''NOTSET'']"

text \<open>\<open>main\<close>. The mode runs as \<open>runs mode config\<close>; a mode that is not in the table raises \<open>KeyError\<close> where it is
  looked up, and a log level that \<open>logging\<close> does not know raises before anything is caught.\<close>

definition cli_main :: "environ \<Rightarrow> string \<Rightarrow> (string \<Rightarrow> file_read option) \<Rightarrow> (string \<Rightarrow> client_config \<Rightarrow> mode_end) \<Rightarrow>
    string list \<Rightarrow> cli_end" where
  "cli_main env stamp files runs argv =
     (if ''--version'' \<in> set argv then CliStatus 0
      else case parse_client env argv of
        Inl e \<Rightarrow> CliStatus (exit_status e)
      | Inr args \<Rightarrow> (case config_from_args stamp (dict_get env ''BAZAAR_TOKEN'') (files (ca_credentials_file args)) args of
          Inl (OtherError _) \<Rightarrow> Uncaught
        | Inl _ \<Rightarrow> CliStatus (exit_code (diagnose (config_failure []) None))
        | Inr config \<Rightarrow>
            if map upper_char (cc_log_level config) \<notin> set LEVELS then Uncaught
            else (case (if cc_mode config \<in> set MODES then runs (cc_mode config) config
                        else RaisedBy \<lparr>fl_class = OtherClass, fl_text = cc_mode config, fl_type = ''KeyError'', fl_code = None\<rparr>) of
                EndedWith n \<Rightarrow> CliStatus n
              | Interrupted \<Rightarrow> CliStatus 130
              | RaisedBy f \<Rightarrow> if cc_mode config = ''hivemind'' then CliStatus 1
                  else CliStatus (exit_code (diagnose f None)))))"

end
