(* ===== verification/Cli_Facts.thy ===== *)
theory Cli_Facts
  imports Cli
begin

text \<open>What the exit status of the client program certifies.\<close>

lemma bindV_Inr:
  "bindV m f v = (Inr y, v') \<longleftrightarrow> (\<exists>x v1. m v = (Inr x, v1) \<and> f x v1 = (Inr y, v'))"
  by (auto simp: bindV_def split: prod.splits sum.splits)

lemma visiting_Inr [simp]:
  "returnV x v = (Inr y, v') \<longleftrightarrow> y = x \<and> v' = v"
  "given r v = (Inr y, v') \<longleftrightarrow> r = Inr y \<and> v' = v"
  "reading f v = (Inr y, v') \<longleftrightarrow> y = f (vi_session v) \<and> v' = v"
  by (auto simp: returnV_def given_def reading_def)

lemma on_session_frame:
  "on_session f v = (r, v') \<Longrightarrow> vi_commands v' = vi_commands v \<and> vi_run_id_file v' = vi_run_id_file v"
  by (auto simp: on_session_def split: prod.splits)

lemma handshake_frame:
  "handshake ws wr v = (r, v') \<Longrightarrow> vi_commands v' = vi_commands v \<and> vi_run_id_file v' = vi_run_id_file v"
  by (auto simp: handshake_def bindV_def returnV_def dest!: on_session_frame split: prod.splits sum.splits)

lemma next_request_id_frame:
  "next_request_id kd v = (r, v') \<Longrightarrow> vi_commands v' = vi_commands v \<and> vi_run_id_file v' = vi_run_id_file v
     \<and> (\<forall>rid. r = Inr rid \<longrightarrow> is_valid_request_id rid)
     \<and> ss_lifecycle (vi_session v') = ss_lifecycle (vi_session v)"
  by (auto simp: next_request_id_def next_id_def Let_def split: sum.splits prod.splits if_splits)

lemma advertise_once_counts:
  "advertise_once ws sc s v = (r, v') \<Longrightarrow> vi_run_id_file v' = vi_run_id_file v
     \<and> (vi_commands v' = vi_commands v \<or> (\<exists>c. vi_commands v' = vi_commands v @ [c]))"
  by (auto simp: advertise_once_def bindV_def given_def returnV_def send_counted_def
      dest!: next_request_id_frame on_session_frame split: prod.splits sum.splits if_splits)

lemma advertise_once_certifies:
  assumes "advertise_once ws sc s v = (Inr 0, v')"
  obtains rid r m where "vi_commands v' = vi_commands v @ [(rid, m)]" "is_valid_request_id rid"
    "lc_run_id (ss_lifecycle (vi_session v)) = Some r"
    "build_advertise r rid [WATER] [FOOD] (advert_expiry s) = Inr m"
    "\<exists>x ss. fst (sc m ''advertise'' rid ss) = Inr x \<and> so_ok x"
    "\<exists>s' ss. fst (ws (snapshot_sequence s + 1) ss) = Inr s' \<and> own_advertisement s' \<noteq> None"
proof -
  from assms obtain rid v1 r m x v2 s' v3 where
    steps: "next_request_id ''advertise'' v = (Inr rid, v1)" "session_run_id (vi_session v1) = Inr r"
      "build_advertise r rid [WATER] [FOOD] (advert_expiry s) = Inr m"
      "send_counted sc m ''advertise'' rid v1 = (Inr x, v2)" "so_ok x"
      "on_session (ws (snapshot_sequence s + 1)) v2 = (Inr s', v')" "own_advertisement s' \<noteq> None"
    by (auto simp: advertise_once_def bindV_Inr map_sum_def split: if_splits sum.splits)
  note first = next_request_id_frame [OF steps(1)]
  have "vi_commands v' = vi_commands v @ [(rid, m)]"
    using first on_session_frame [OF steps(6)] on_session_frame [OF steps(4) [unfolded send_counted_def]] by simp
  moreover have "is_valid_request_id rid" using first by blast
  moreover have "lc_run_id (ss_lifecycle (vi_session v)) = Some r"
    using steps(2) first by (simp add: session_run_id_def split: option.splits)
  moreover have "\<exists>x ss. fst (sc m ''advertise'' rid ss) = Inr x \<and> so_ok x"
    using steps(4,5) by (auto simp: send_counted_def on_session_def split: prod.splits intro!: exI [of _ x])
      (metis fst_conv)
  moreover have "\<exists>s' ss. fst (ws (snapshot_sequence s + 1) ss) = Inr s' \<and> own_advertisement s' \<noteq> None"
    using steps(6,7) by (auto simp: on_session_def split: prod.splits intro!: exI [of _ s']) (metis fst_conv)
  ultimately show ?thesis using that steps(3) by blast
qed
subsection \<open>The handshake mode\<close>

text \<open>C28: The handshake mode hands the session at most one command. It ends with status 0 only if the server
  acknowledged readiness for the very snapshot it was declared for, the run's id was recorded where asked, and
  then either trading commands may not be sent and none was, or one advertisement of this run left under a valid
  request id, was answered with success, and a later state shows our advertisement.\<close>

theorem handshake_certifies:
  assumes "run_handshake ws wr sc path v = (r, v')"
  shows "(vi_commands v' = vi_commands v \<or> (\<exists>c. vi_commands v' = vi_commands v @ [c]))
    \<and> (r = Inr 0 \<longrightarrow> (\<exists>s ack v1. handshake ws wr v = (Inr (s, ack), v1) \<and> acknowledged s ack
        \<and> (path \<noteq> None \<longrightarrow> vi_run_id_file v' = Some (run_id s))
        \<and> (if \<not> can_send_trading_commands (ss_lifecycle (vi_session v1)) then vi_commands v' = vi_commands v
           else \<exists>rid run m. vi_commands v' = vi_commands v @ [(rid, m)] \<and> is_valid_request_id rid
             \<and> lc_run_id (ss_lifecycle (vi_session v1)) = Some run
             \<and> build_advertise run rid [WATER] [FOOD] (advert_expiry s) = Inr m
             \<and> (\<exists>x ss. fst (sc m ''advertise'' rid ss) = Inr x \<and> so_ok x)
             \<and> (\<exists>s' ss. fst (ws (snapshot_sequence s + 1) ss) = Inr s' \<and> own_advertisement s' \<noteq> None))))"
    (is "?once \<and> (_ \<longrightarrow> ?certified)")
proof
  show ?once
    using assms
    by (auto simp: run_handshake_def bindV_def returnV_def reading_def record_run_id_def
        dest!: handshake_frame advertise_once_counts split: prod.splits sum.splits if_splits)
  show "r = Inr 0 \<longrightarrow> ?certified"
  proof
    assume "r = Inr 0"
    with assms obtain s ack v1 v2 where
      steps: "handshake ws wr v = (Inr (s, ack), v1)" "acknowledged s ack"
        "record_run_id path (run_id s) v1 = (Inr (), v2)"
        "if \<not> can_send_trading_commands (ss_lifecycle (vi_session v2)) then v' = v2
         else advertise_once ws sc s v2 = (Inr 0, v')"
      by (auto simp: run_handshake_def bindV_Inr split: if_splits)
    note first = handshake_frame [OF steps(1)]
    have v2: "vi_session v2 = vi_session v1" "vi_commands v2 = vi_commands v"
      "path \<noteq> None \<longrightarrow> vi_run_id_file v2 = Some (run_id s)"
      using steps(3) first by (auto simp: record_run_id_def split: if_splits)
    show ?certified
    proof (cases "can_send_trading_commands (ss_lifecycle (vi_session v1))")
      case False
      with steps v2 show ?thesis by (intro exI [of _ s] exI [of _ ack] exI [of _ v1]) simp
    next
      case True
      with steps(4) v2(1) have adv: "advertise_once ws sc s v2 = (Inr 0, v')" by simp
      note kept = advertise_once_counts [OF adv]
      from adv show ?thesis
        by (rule advertise_once_certifies)
          (use True steps(1,2) v2 kept in \<open>intro exI [of _ s] exI [of _ ack] exI [of _ v1], auto\<close>)
    qed
  qed
qed

definition demo_visit :: visit where
  "demo_visit = \<lparr>vi_session = (session_init None)\<lparr>ss_lifecycle := demo_active, ss_ids := Some (id_generator_init ''P01'' ''s1'')\<rparr>,
     vi_run_id_file = None, vi_commands = []\<rparr>"

definition advertised :: snapshot where
  "advertised = demo_tick\<lparr>advertisements := [demo_ad ''P01'' {WATER} {FOOD}]\<rparr>"

definition demo_answer :: "client_message \<Rightarrow> string \<Rightarrow> string \<Rightarrow> session_outcome call" where
  "demo_answer m kd rid ss = (Inr \<lparr>so_request_id = rid, so_result = Some
     \<lparr>request_id = rid, ok = True, code = RES_OK, processed_tick = 3, processed_version = 9, object_id = Some ''ad-1'',
      res_transaction_id = None, retry_after_tick = None\<rparr>, so_error = None\<rparr>, ss)"

theorem handshake_certifies_witness:
  "\<exists>v' rid m. run_handshake (\<lambda>_ ss. (Inr advertised, ss)) (\<lambda>ss. (Inr demo_ack, ss)) demo_answer (Some ''run-id.txt'') demo_visit
      = (Inr 0, v')
    \<and> vi_commands v' = [(rid, m)] \<and> is_valid_request_id rid \<and> vi_run_id_file v' = Some ''run-1''"
proof -
  let ?ws = "(\<lambda>_ ss. (Inr advertised, ss)) :: int \<Rightarrow> snapshot call" and ?wr = "(\<lambda>ss. (Inr demo_ack, ss)) :: readiness_ack call"
  have "fst (run_handshake ?ws ?wr demo_answer (Some ''run-id.txt'') demo_visit) = Inr 0" by code_simp
  then obtain v' where run: "run_handshake ?ws ?wr demo_answer (Some ''run-id.txt'') demo_visit = (Inr 0, v')"
    by (metis prod.collapse)
  have shaken: "handshake ?ws ?wr demo_visit = (Inr (advertised, demo_ack), demo_visit)"
    by (simp add: handshake_def bindV_def on_session_def returnV_def)
  have "can_send_trading_commands (ss_lifecycle (vi_session demo_visit))" "vi_commands demo_visit = []" by code_simp+
  moreover have "run_id advertised = ''run-1''" by (simp add: advertised_def demo_tick_def demo_defs)
  ultimately show ?thesis using handshake_certifies [OF run] run by (auto simp: shaken)
qed

subsection \<open>The status of the check mode\<close>

text \<open>The status a session's exception ends the program with.\<close>

definition session_status :: "session_error \<Rightarrow> int" where
  "session_status e = (case e of
     SessionClosedError _ \<Rightarrow> 5 | TimeoutError \<Rightarrow> 5 | ConnectionLost \<Rightarrow> 5
   | SessionAbortedError _ (Some c) \<Rightarrow> if c = INVALID_AUTHENTICATION then 3 else 4
   | Raised x \<Rightarrow> if x \<in> {UninitializedMessageError, MessageTooLargeError, WireFormatError,
        UnknownServerMessageError, RunIdChanged} then 4 else 1
   | _ \<Rightarrow> 1)"

lemma session_status_diagnosed: "exit_code (diagnose (session_failure e) None) = session_status e"
  by (cases e) (auto simp: session_status_def exit_code_def diagnose_def Let_def is_handshake_def is_os_error_def
      split: option.splits)

lemma with_session_result:
  "fst (with_session failed (run_check_mode ws wr)) =
     map_sum id (\<lambda>(s, ack). if acknowledged s ack then 0 else 1) (fst (with_session failed (handshake ws wr)))"
  by (auto simp: with_session_def run_check_mode_def bindV_def returnV_def Let_def split: prod.splits sum.splits)

lemma with_session_sends_nothing: "vi_commands (snd (with_session failed (run_check_mode ws wr))) = []"
  by (auto simp: with_session_def run_check_mode_def bindV_def returnV_def Let_def
      dest!: handshake_frame on_session_frame split: prod.splits sum.splits)

text \<open>The status a connection that could not be opened ends the program with.\<close>

fun connect_status :: "exc_class \<Rightarrow> int" where
  "connect_status InvalidURI = 2"
| "connect_status (InvalidStatus n) =
     (if n = 401 \<or> n = 403 then 3 else if n = 404 then 2 else if 500 \<le> n then 5 else 4)"
| "connect_status InvalidHandshake = 4"
| "connect_status ConnectionRefusedError = 5"
| "connect_status GaiError = 5"
| "connect_status TimedOut = 5"
| "connect_status OtherOSError = 5"
| "connect_status ConnectionClosed = 5"
| "connect_status ConfigurationError = 2"
| "connect_status SubprotocolNotSelected = 4"
| "connect_status MessageFormat = 4"
| "connect_status SessionClosed = 5"
| "connect_status OtherClass = 1"

lemma connect_status_diagnosed:
  "fl_code f = None \<Longrightarrow> exit_code (diagnose f None) = connect_status (fl_class f)"
  by (cases "fl_class f") (auto simp: exit_code_def diagnose_def diagnose_http_def Let_def is_handshake_def is_os_error_def)

lemma subprotocol_status: "exit_code (diagnose (subprotocol_failure selected) None) = 4"
  by (subst connect_status_diagnosed) (simp_all add: subprotocol_failure_def Let_def)

text \<open>C29: The check mode never hands the session a command, and its exit status says what happened. A
  connection that was not opened: 2 for a bad URL or path (HTTP 404), 3 for a rejected token (HTTP 401 or 403), 4
  for a failed handshake, any other HTTP status or a subprotocol that was not confirmed, 5 for an endpoint that
  refuses, does not resolve, fails (HTTP 500 and more) or is silent. A session: 0 that the server acknowledged
  readiness for the state it was declared for, 1 that it acknowledged something else, 3 that it rejected the
  token, 4 that it refused the session or spoke another protocol, 5 that the connection failed. The socket
  library's own exceptions carry no control code.\<close>

theorem check_status_tells:
  assumes "''--version'' \<notin> set argv" and "parse_client env argv = Inr args"
    and "config_from_args stamp (dict_get env ''BAZAAR_TOKEN'') (files (ca_credentials_file args)) args = Inr config"
    and "map upper_char (cc_log_level config) \<in> set LEVELS" and "cc_mode config = ''check''"
    and "runs ''check'' config = check_run opened ws wr"
    and "\<forall>f. opened = Inl f \<longrightarrow> fl_code f = None"
  shows "vi_commands (snd (with_session None (run_check_mode ws wr))) = []
    \<and> cli_main env stamp files runs argv = CliStatus (case opened of
        Inl f \<Rightarrow> connect_status (fl_class f)
      | Inr selected \<Rightarrow> if selected \<noteq> Some SUBPROTOCOL then 4
          else (case fst (with_session None (handshake ws wr)) of
              Inl e \<Rightarrow> session_status e
            | Inr (s, ack) \<Rightarrow> if acknowledged s ack then 0 else 1))"
proof -
  have "''check'' \<in> set MODES" by (simp add: MODES_def)
  with assms have main: "cli_main env stamp files runs argv = (case check_run opened ws wr of
      EndedWith n \<Rightarrow> CliStatus n | Interrupted \<Rightarrow> CliStatus 130 | RaisedBy f \<Rightarrow> CliStatus (exit_code (diagnose f None)))"
    by (simp add: cli_main_def split: mode_end.splits)
  show ?thesis
  proof (cases "connect_failure opened")
    case None
    then have "opened = Inr (Some SUBPROTOCOL)" by (auto simp: connect_failure_def split: sum.splits if_splits)
    then show ?thesis
      unfolding main check_run_def None option.case with_session_result
      by (auto simp: with_session_sends_nothing session_status_diagnosed split: sum.splits)
  next
    case (Some f)
    have "cli_main env stamp files runs argv = CliStatus (exit_code (diagnose f None))"
      by (simp add: main check_run_def Some)
    moreover from Some assms(7) have "(\<exists>x. opened = Inl x \<and> exit_code (diagnose f None) = connect_status (fl_class x))
        \<or> (\<exists>selected. opened = Inr selected \<and> selected \<noteq> Some SUBPROTOCOL \<and> exit_code (diagnose f None) = 4)"
      by (auto simp: connect_failure_def connect_status_diagnosed subprotocol_status split: sum.splits if_splits)
    ultimately show ?thesis by (auto simp: with_session_sends_nothing)
  qed
qed

lemma demo_checked:
  "\<exists>args config. parse_client [(''BAZAAR_TOKEN'', ''key-a'')] [''--mode'', ''check''] = Inr args
    \<and> config_from_args ''now'' (Some ''key-a'') None args = Inr config
    \<and> cc_mode config = ''check'' \<and> map upper_char (cc_log_level config) \<in> set LEVELS"
proof -
  let ?args = "cli_args.truncate ((client_defaults [(''BAZAAR_TOKEN'', ''key-a'')])\<lparr>ca_mode := ''check'', ca_status_every := 10\<rparr>)"
  have "py_int ''10'' = Some 10" by code_simp
  then have "parse_client [(''BAZAAR_TOKEN'', ''key-a'')] [''--mode'', ''check''] = Inr ?args"
    by (simp add: parse_client_def meanings_def client_options_def help_options_def is_value_def set_client_def
        client_defaults_def MODES_def dict_get_or_def)
  moreover have "map upper_char ''INFO'' = ''INFO''" by code_simp
  moreover have "''reserve-trader'' \<in> set (dict_keys STRATEGIES)" by code_simp
  ultimately show ?thesis
    by (intro exI [of _ ?args]) (simp add: config_from_args_def client_defaults_def dict_get_or_def cli_args.defs
        hive_key_def checked_key_def resolve_token_def LEVELS_def)
qed

text \<open>What the socket library raises for an HTTP status, as the practice server answers a token it does not know.\<close>

definition http_refusal :: "int \<Rightarrow> failure" where
  "http_refusal n = \<lparr>fl_class = InvalidStatus n, fl_text = ''server rejected WebSocket connection: HTTP '' @ show_int n,
     fl_type = ''InvalidStatus'', fl_code = None\<rparr>"

theorem check_status_tells_witness:
  "cli_main [(''BAZAAR_TOKEN'', ''key-a'')] ''now'' (\<lambda>_. None)
      (\<lambda>_ _. check_run (Inr (Some SUBPROTOCOL)) (\<lambda>_ ss. (Inr advertised, ss)) (\<lambda>ss. (Inr demo_ack, ss))) [''--mode'', ''check''] = CliStatus 0
   \<and> cli_main [(''BAZAAR_TOKEN'', ''key-a'')] ''now'' (\<lambda>_. None)
      (\<lambda>_ _. check_run (Inl (http_refusal 401)) (\<lambda>_ ss. (Inr advertised, ss)) (\<lambda>ss. (Inr demo_ack, ss))) [''--mode'', ''check''] = CliStatus 3
   \<and> cli_main [(''BAZAAR_TOKEN'', ''key-a'')] ''now'' (\<lambda>_. None)
      (\<lambda>_ _. check_run (Inl refusal) (\<lambda>_ ss. (Inr advertised, ss)) (\<lambda>ss. (Inr demo_ack, ss))) [''--mode'', ''check''] = CliStatus 5"
proof -
  obtain args config where c: "parse_client [(''BAZAAR_TOKEN'', ''key-a'')] [''--mode'', ''check''] = Inr args"
    "config_from_args ''now'' (Some ''key-a'') None args = Inr config"
    "cc_mode config = ''check''" "map upper_char (cc_log_level config) \<in> set LEVELS"
    using demo_checked by blast
  have shaken: "fst (with_session None (handshake (\<lambda>_ ss. (Inr advertised, ss)) (\<lambda>ss. (Inr demo_ack, ss)))) = Inr (advertised, demo_ack)"
    by (simp add: with_session_def handshake_def bindV_def on_session_def returnV_def session_start_def)
  have status: "cli_main [(''BAZAAR_TOKEN'', ''key-a'')] ''now'' (\<lambda>_. None)
      (\<lambda>_ _. check_run opened (\<lambda>_ ss. (Inr advertised, ss)) (\<lambda>ss. (Inr demo_ack, ss))) [''--mode'', ''check'']
    = CliStatus (case opened of Inl f \<Rightarrow> connect_status (fl_class f)
        | Inr selected \<Rightarrow> if selected \<noteq> Some SUBPROTOCOL then 4 else if acknowledged advertised demo_ack then 0 else 1)"
    if "\<forall>f. opened = Inl f \<longrightarrow> fl_code f = None" for opened
    using check_status_tells [OF _ c(1) _ c(4,3) _ that, where files = "\<lambda>_. None" and stamp = "''now''"
          and runs = "\<lambda>_ _. check_run opened (\<lambda>_ ss. (Inr advertised, ss)) (\<lambda>ss. (Inr demo_ack, ss))"
          and ws = "\<lambda>_ ss. (Inr advertised, ss)" and wr = "\<lambda>ss. (Inr demo_ack, ss)"] c(2)
    by (cases opened) (simp_all add: shaken)
  have "acknowledged advertised demo_ack" by code_simp
  then show ?thesis by (simp add: status http_refusal_def refusal_def)
qed

text \<open>In the last tick of a run the advertisement of the handshake mode expires at once; and a log level that
  does not exist, like a mode from the environment, is not reported as a configuration error.\<close>

lemma last_tick_expiry:
  "snap_tick s = duration_ticks (snap_rules s) \<Longrightarrow> 0 \<le> max_publication_ttl_ticks (snap_rules s) \<Longrightarrow> advert_expiry s = snap_tick s"
  by (simp add: advert_expiry_def)

lemma unknown_level_uncaught:
  assumes "''--version'' \<notin> set argv" and "parse_client env argv = Inr args"
    and "config_from_args stamp (dict_get env ''BAZAAR_TOKEN'') (files (ca_credentials_file args)) args = Inr config"
    and "map upper_char (cc_log_level config) \<notin> set LEVELS"
  shows "cli_main env stamp files runs argv = Uncaught"
  using assms by (simp add: cli_main_def)

lemma unknown_mode_is_no_configuration_error:
  assumes "''--version'' \<notin> set argv" and "parse_client env argv = Inr args"
    and "config_from_args stamp (dict_get env ''BAZAAR_TOKEN'') (files (ca_credentials_file args)) args = Inr config"
    and "map upper_char (cc_log_level config) \<in> set LEVELS" and "cc_mode config \<notin> set MODES"
  shows "cli_main env stamp files runs argv = CliStatus 1"
proof -
  have "cc_mode config \<noteq> ''hivemind''" using assms(5) by (auto simp: MODES_def)
  with assms show ?thesis
    by (simp add: cli_main_def exit_code_def diagnose_def Let_def is_handshake_def is_os_error_def)
qed

end
