(* ===== verification/Dashboard.thy ===== *)
theory Dashboard
  imports Logbook Server_Report "HOL-Library.Sublist"
begin

text \<open>
  \<open>bazaar_client/live_dashboard.py\<close>: a separate process that tails the evidence files of a directory and
  shows them to browsers. Bytes of a file are numbers; \<open>loads\<close> stands for \<open>json.loads\<close> of a line, absent
  when it raises \<open>ValueError\<close> or gives no object.
\<close>

subsection \<open>Stations\<close>

record history_point =
  hp_tick :: int
  hp_health :: int
  hp_stock :: "(string \<times> int) list"

record command_event =
  ce_action :: string
  ce_ok :: "bool option"
  ce_code :: string
  ce_tick :: "int option"

record station_view =
  vw_id :: string
  vw_status :: string
  vw_tick :: "int option"
  vw_health :: "int option"
  vw_inventory :: "(string \<times> int) list"
  vw_reserve :: "(string \<times> int) list"
  vw_available :: "(string \<times> int) list option"
  vw_actions :: "(string \<times> (string \<times> json_value) list) list"
  vw_reasons :: "string list"
  vw_phase :: "string option"
  vw_offers :: "offer_sight list option"
  vw_events :: "command_event list"
  vw_trades :: "trade_sight list"
  vw_history :: "history_point list"
  vw_confirmed :: int
  vw_rejected :: int
  vw_strategy :: "string option"
  vw_connection :: "string option"
  vw_ended :: bool
  vw_updated_ms :: "rat option"

definition view_new :: "string \<Rightarrow> station_view" where
  "view_new sid = \<lparr>vw_id = sid, vw_status = ''connecting'', vw_tick = None, vw_health = None, vw_inventory = [],
     vw_reserve = [], vw_available = None, vw_actions = [], vw_reasons = [], vw_phase = None, vw_offers = None,
     vw_events = [], vw_trades = [], vw_history = [], vw_confirmed = 0, vw_rejected = 0, vw_strategy = None,
     vw_connection = None, vw_ended = False, vw_updated_ms = None\<rparr>"

text \<open>\<open>xs[-n:]\<close>.\<close>

definition last_n :: "nat \<Rightarrow> 'a list \<Rightarrow> 'a list" where
  "last_n n xs = drop (length xs - n) xs"

definition or_else :: "'a option \<Rightarrow> 'a \<Rightarrow> 'a" where
  "or_else x d = (case x of None \<Rightarrow> d | Some v \<Rightarrow> v)"

text \<open>The keys a decision overwrites when it has them.\<close>

definition copy_decision :: "log_record \<Rightarrow> station_view \<Rightarrow> station_view" where
  "copy_decision r v = v\<lparr>
     vw_tick := (if lg_tick r = None then vw_tick v else lg_tick r),
     vw_health := (if lg_health r = None then vw_health v else lg_health r),
     vw_inventory := or_else (lg_inventory r) (vw_inventory v),
     vw_reserve := or_else (lg_reserve r) (vw_reserve v),
     vw_available := (if lg_available r = None then vw_available v else lg_available r),
     vw_actions := or_else (lg_actions r) (vw_actions v),
     vw_reasons := or_else (lg_reasons r) (vw_reasons v),
     vw_phase := (if lg_phase r = None then vw_phase v else lg_phase r),
     vw_offers := Some (last_n 20 (get_list (lg_open_offers r)))\<rparr>"

definition add_point :: "history_point \<Rightarrow> station_view \<Rightarrow> station_view" where
  "add_point p v = v\<lparr>vw_history :=
     (if vw_history v \<noteq> [] \<and> hp_tick (last (vw_history v)) = hp_tick p then butlast (vw_history v) @ [p]
      else last_n 120 (vw_history v @ [p]))\<rparr>"

definition point_of :: "log_record \<Rightarrow> history_point result" where
  "point_of r = bindE (key ''tick'' (lg_tick r)) (\<lambda>t. bindE (key ''health'' (lg_health r)) (\<lambda>h.
     bindE (key ''inventory'' (lg_inventory r)) (\<lambda>stock. Inr \<lparr>hp_tick = t, hp_health = h, hp_stock = stock\<rparr>)))"

definition add_trade :: "trade_sight \<Rightarrow> station_view \<Rightarrow> station_view" where
  "add_trade t v = v\<lparr>vw_trades := take 12 (t # vw_trades v)\<rparr>"

definition add_command :: "log_record \<Rightarrow> string \<Rightarrow> station_view \<Rightarrow> station_view" where
  "add_command r action v =
     (let v = (case lg_result_ok r of
            Some True \<Rightarrow> v\<lparr>vw_confirmed := vw_confirmed v + 1\<rparr>
          | Some False \<Rightarrow> v\<lparr>vw_rejected := vw_rejected v + 1\<rparr>
          | None \<Rightarrow> v)
      in v\<lparr>vw_events := take 12 (\<lparr>ce_action = action, ce_ok = lg_result_ok r,
           ce_code = or_else (lg_result_code r) ''No confirmation'',
           ce_tick = (if lg_processed_tick r = None then lg_observed_tick r else lg_processed_tick r)\<rparr> # vw_events v)\<rparr>)"

text \<open>The view after one record, and the exception that ended it early if there was one.\<close>

definition view_record :: "log_record \<Rightarrow> station_view \<Rightarrow> py_error option \<times> station_view" where
  "view_record r v =
     (if lg_kind r = Some ''run_start'' then (None, v\<lparr>vw_strategy := Some (or_else (lg_strategy r) ''unknown'')\<rparr>)
      else if lg_kind r = Some ''decision'' then
        (let v = copy_decision r v
         in case point_of r of
              Inl e \<Rightarrow> (Some e, v)
            | Inr p \<Rightarrow> (None, fold add_trade (get_list (lg_new_transactions r)) (add_point p v)))
      else if lg_kind r = Some ''status'' then (None, v\<lparr>vw_status := or_else (lg_status r) ''unknown''\<rparr>)
      else if lg_kind r = Some ''connection'' then (None, v\<lparr>vw_connection := lg_event r\<rparr>)
      else if lg_kind r = Some ''run_end'' then (None, v\<lparr>vw_ended := True\<rparr>)
      else (case lg_action_kind r of
          None \<Rightarrow> (None, v)
        | Some action \<Rightarrow> (None, add_command r action v)))"

subsection \<open>The feed\<close>

record tail_cursor =
  cu_offset :: nat
  cu_partial :: "nat list"
  cu_inode :: "int option"

record feed =
  fd_files :: "(string, tail_cursor) pydict"
  fd_stations :: "(string, station_view) pydict"
  fd_revision :: int
  fd_next_scan :: rat
  fd_report_stamp :: "int option"
  fd_finished :: bool
  fd_final_report :: "server_report option"

definition feed_new :: feed where
  "feed_new = \<lparr>fd_files = [], fd_stations = [], fd_revision = 0, fd_next_scan = 0, fd_report_stamp = None,
     fd_finished = False, fd_final_report = None\<rparr>"

text \<open>\<open>ms\<close> is the wall clock in milliseconds.\<close>

definition ingest :: "rat \<Rightarrow> string \<Rightarrow> log_record \<Rightarrow> feed \<Rightarrow> py_error option \<times> feed" where
  "ingest ms sid r fd =
     (let fd = (if lg_kind r = Some ''run_start''
                then fd\<lparr>fd_stations := dict_pop sid (fd_stations fd), fd_finished := False\<rparr> else fd);
          v = (or_else (dict_get (fd_stations fd) sid) (view_new sid))\<lparr>vw_updated_ms := Some ms\<rparr>
      in case view_record r v of (e, v) \<Rightarrow>
         let fd = fd\<lparr>fd_stations := dict_set sid v (fd_stations fd)\<rparr>
         in (e, if e = None then fd\<lparr>fd_revision := fd_revision fd + 1\<rparr> else fd))"

definition ingest_line :: "(nat list \<Rightarrow> log_record option) \<Rightarrow> rat \<Rightarrow> string \<Rightarrow> nat list \<Rightarrow> feed \<Rightarrow> feed" where
  "ingest_line loads ms sid line fd = (case loads line of None \<Rightarrow> fd | Some r \<Rightarrow> snd (ingest ms sid r fd))"

definition CHUNK :: nat where
  "CHUNK = 262144"

definition MAX_PARTIAL :: nat where
  "MAX_PARTIAL = 2 ^ 20"

text \<open>\<open>data.split(b"\n")\<close>: one piece more than there are line ends.\<close>

fun split_lines :: "nat list \<Rightarrow> nat list list" where
  "split_lines [] = [[]]"
| "split_lines (b # bs) = (if b = 10 then [] # split_lines bs
     else (case split_lines bs of [] \<Rightarrow> [[b]] | l # ls \<Rightarrow> (b # l) # ls))"

text \<open>
  One file in one poll: \<open>sz\<close> and \<open>inode\<close> are what \<open>stat\<close> said, \<open>content\<close> is what the file holds when it
  is read. The result has the lines that were read.
\<close>

definition tail_file :: "int \<Rightarrow> nat \<Rightarrow> nat list \<Rightarrow> tail_cursor \<Rightarrow> nat list list \<times> tail_cursor" where
  "tail_file inode sz content cu =
     (let cu = (if cu_inode cu \<noteq> Some inode \<or> sz < cu_offset cu
                then \<lparr>cu_offset = 0, cu_partial = [], cu_inode = Some inode\<rparr> else cu)
      in if sz = cu_offset cu then ([], cu)
         else let chunk = take CHUNK (drop (cu_offset cu) content);
                  pieces = split_lines (cu_partial cu @ chunk);
                  rest = last pieces
              in (butlast pieces, cu\<lparr>cu_offset := cu_offset cu + length chunk,
                   cu_partial := (if MAX_PARTIAL < length rest then [] else rest)\<rparr>))"

definition restarted :: "int \<Rightarrow> nat \<Rightarrow> tail_cursor \<Rightarrow> bool" where
  "restarted inode sz cu \<longleftrightarrow> cu_inode cu \<noteq> Some inode \<or> sz < cu_offset cu"

record disk_file =
  df_inode :: int
  df_size :: nat
  df_content :: "nat list"

text \<open>The station of a file: its name without the suffix.\<close>

definition EVIDENCE_SUFFIX :: string where
  "EVIDENCE_SUFFIX = ''-evidence.jsonl''"

definition station_of_file :: "string \<Rightarrow> string" where
  "station_of_file name = (if suffix EVIDENCE_SUFFIX name then take (length name - length EVIDENCE_SUFFIX) name else name)"

definition poll_file :: "(nat list \<Rightarrow> log_record option) \<Rightarrow> rat \<Rightarrow> (string \<Rightarrow> disk_file option) \<Rightarrow> string \<Rightarrow> feed \<Rightarrow> feed" where
  "poll_file loads ms disk name fd = (case (disk name, dict_get (fd_files fd) name) of
     (Some f, Some cu) \<Rightarrow>
       let sid = station_of_file name;
           fd = (if restarted (df_inode f) (df_size f) cu then fd\<lparr>fd_stations := dict_pop sid (fd_stations fd)\<rparr> else fd)
       in (case tail_file (df_inode f) (df_size f) (df_content f) cu of (ls, cu) \<Rightarrow>
           fold (ingest_line loads ms sid) ls (fd\<lparr>fd_files := dict_set name cu (fd_files fd)\<rparr>))
   | _ \<Rightarrow> fd)"

definition scan_files :: "rat \<Rightarrow> string list \<Rightarrow> feed \<Rightarrow> feed" where
  "scan_files now names fd =
     (if fd_next_scan fd \<le> now then
        (fold (\<lambda>name fd. if dict_get (fd_files fd) name = None
             then fd\<lparr>fd_files := dict_set name \<lparr>cu_offset = 0, cu_partial = [], cu_inode = None\<rparr> (fd_files fd)\<rparr> else fd)
           (filter (suffix EVIDENCE_SUFFIX) names) fd)\<lparr>fd_next_scan := fadd now (1 / 4)\<rparr>
      else fd)"

text \<open>\<open>report\<close> is the report file: its time stamp, and what it holds unless it cannot be read.\<close>

definition read_report :: "(int \<times> server_report option) option \<Rightarrow> feed \<Rightarrow> feed" where
  "read_report file fd = (case file of
     Some (stamp, Some data) \<Rightarrow>
       if Some stamp \<noteq> fd_report_stamp fd then
         let over = (rt_phase data = ''FINISHED'')
         in fd\<lparr>fd_finished := over, fd_final_report := (if over then Some data else None),
               fd_report_stamp := Some stamp, fd_revision := fd_revision fd + 1\<rparr>
       else fd
   | _ \<Rightarrow> fd)"

definition show_final :: "server_report \<Rightarrow> planet_report \<Rightarrow> feed \<Rightarrow> feed" where
  "show_final rt p fd = (case dict_get (fd_stations fd) (rp_station_id p) of
     None \<Rightarrow> fd
   | Some v \<Rightarrow> fd\<lparr>fd_stations := dict_set (rp_station_id p) (v\<lparr>vw_health := Some (rp_health p),
        vw_inventory := rp_inventory p, vw_tick := Some (rt_tick rt), vw_status := ''finished'', vw_ended := True,
        vw_offers := Some [], vw_actions := []\<rparr>) (fd_stations fd)\<rparr>)"

definition poll :: "(nat list \<Rightarrow> log_record option) \<Rightarrow> rat \<Rightarrow> rat \<Rightarrow> string list \<Rightarrow> (string \<Rightarrow> disk_file option) \<Rightarrow>
    (int \<times> server_report option) option \<Rightarrow> feed \<Rightarrow> feed" where
  "poll loads now ms names disk file fd0 =
     (let fd = scan_files now names fd0;
          fd = fold (poll_file loads ms disk) (dict_keys (fd_files fd)) fd;
          fd = read_report file fd
      in case fd_final_report fd of
           None \<Rightarrow> fd
         | Some rt \<Rightarrow> if fd_revision fd0 \<noteq> fd_revision fd then fold (show_final rt) (rt_planets rt) fd else fd)"

subsection \<open>Viewers\<close>

text \<open>A frame is the feed it was made from; a queue holds at most one.\<close>

record dashboard =
  db_feed :: feed
  db_viewers :: "(nat, feed option) pydict"
  db_revision :: int
  db_next_frame :: rat

definition replace_pending :: "'a \<Rightarrow> 'a option \<Rightarrow> 'a option" where
  "replace_pending value queue = (let queue = (if queue \<noteq> None then None else queue) in Some value)"

definition add_viewer :: "nat \<Rightarrow> dashboard \<Rightarrow> dashboard" where
  "add_viewer n db = db\<lparr>db_viewers := dict_set n (Some (db_feed db)) (db_viewers db)\<rparr>"

definition drop_viewer :: "nat \<Rightarrow> dashboard \<Rightarrow> dashboard" where
  "drop_viewer n db = db\<lparr>db_viewers := dict_pop n (db_viewers db)\<rparr>"

text \<open>\<open>queue.get()\<close> of a viewer's sender.\<close>

definition take_frame :: "nat \<Rightarrow> dashboard \<Rightarrow> feed option \<times> dashboard" where
  "take_frame n db = (case dict_get (db_viewers db) n of
     Some (Some f) \<Rightarrow> (Some f, db\<lparr>db_viewers := dict_set n None (db_viewers db)\<rparr>)
   | _ \<Rightarrow> (None, db))"

text \<open>One round of \<open>publish\<close>, after its poll.\<close>

definition publish_round :: "rat \<Rightarrow> rat \<Rightarrow> dashboard \<Rightarrow> dashboard" where
  "publish_round frame_s now db =
     (if db_revision db \<noteq> fd_revision (db_feed db) \<and> db_next_frame db \<le> now then
        db\<lparr>db_viewers := map (\<lambda>(n, q). (n, replace_pending (db_feed db) q)) (db_viewers db),
           db_revision := fd_revision (db_feed db), db_next_frame := fadd now frame_s\<rparr>
      else db)"

datatype http_reply = Page | SummaryFile string | SummaryPending | NotFound | OriginRefused | Upgrade

definition name_char :: "char \<Rightarrow> bool" where
  "name_char c \<longleftrightarrow> (let n = of_char c :: nat in (48 \<le> n \<and> n \<le> 57) \<or> (65 \<le> n \<and> n \<le> 90) \<or> (97 \<le> n \<and> n \<le> 122)
     \<or> n = 95 \<or> n = 45)"

text \<open>\<open>re.fullmatch(r"/summary/([A-Za-z0-9_-]+)", path)\<close>.\<close>

definition summary_of :: "string \<Rightarrow> string option" where
  "summary_of path = (let sid = drop 9 path
     in if take 9 path = ''/summary/'' \<and> sid \<noteq> [] \<and> list_all name_char sid then Some sid else None)"

definition http :: "string \<Rightarrow> string option \<Rightarrow> string option \<Rightarrow> (string \<Rightarrow> bool) \<Rightarrow> feed \<Rightarrow> http_reply" where
  "http path origin host exists fd =
     (if path = ''/'' then Page
      else case summary_of path of
        Some sid \<Rightarrow>
          if dict_get (fd_stations fd) sid \<noteq> None
          then if exists (sid @ ''-summary.md'') then SummaryFile (sid @ ''-summary.md'') else SummaryPending
          else NotFound
      | None \<Rightarrow>
          if path \<noteq> ''/events'' then NotFound
          else (case origin of
              Some (c # cs) \<Rightarrow> if c # cs \<noteq> ''http://'' @ or_else host '''' then OriginRefused else Upgrade
            | _ \<Rightarrow> Upgrade))"

end
