(* ===== verification/Dashboard_Facts.thy ===== *)
theory Dashboard_Facts
  imports Dashboard Demo
begin

text \<open>
  The dashboard reads every complete line of a growing file exactly once, however the reads fall, keeps a
  bounded amount per station, shows every viewer the newest state, and turns away pages of other origins.
\<close>

subsection \<open>Splitting into lines\<close>

lemma split_lines_not_Nil [simp]: "split_lines xs \<noteq> []"
  by (cases xs) (auto split: list.splits)

lemma split_lines_no_end: "10 \<notin> set xs \<Longrightarrow> split_lines (xs @ ys) = (xs @ hd (split_lines ys)) # tl (split_lines ys)"
  by (induction xs) auto

lemma last_split_lines: "10 \<notin> set (last (split_lines xs))"
  by (induction xs) (auto split: list.splits if_splits)

text \<open>Reading on: what is left of the last piece goes before what comes next.\<close>

lemma split_lines_append:
  "split_lines (xs @ ys) = butlast (split_lines xs) @ split_lines (last (split_lines xs) @ ys)"
proof (induction xs)
  case (Cons b xs)
  show ?case
  proof (cases "split_lines xs")
    case (Cons l ls)
    with Cons.IH show ?thesis
      by (cases ls) (auto split: list.splits)
  qed simp
qed simp

subsection \<open>Tailing a file\<close>

text \<open>What is read of a line: all of it, unless it is longer than the reader remembers, whose beginning it may drop.\<close>

definition kept_of :: "nat list \<Rightarrow> nat list \<Rightarrow> bool" where
  "kept_of l l' \<longleftrightarrow> suffix l' l \<and> (length l \<le> MAX_PARTIAL \<longrightarrow> l' = l)"

lemma kept_of_refl [simp]: "kept_of l l"
  by (simp add: kept_of_def)

lemma kept_of_append: "kept_of l l' \<Longrightarrow> kept_of (l @ r) (l' @ r)"
  by (auto simp: kept_of_def suffix_def)

lemma kept_of_dropped: "kept_of l l' \<Longrightarrow> kept_of l (if MAX_PARTIAL < length l' then [] else l')"
  by (auto simp: kept_of_def suffix_length_le dest: suffix_length_le)

lemma kept_of_pieces:
  assumes "kept_of l l'" and "10 \<notin> set l"
  shows "list_all2 kept_of (split_lines (l @ ys)) (split_lines (l' @ ys))"
proof -
  have "10 \<notin> set l'" using assms by (auto simp: kept_of_def suffix_def)
  with assms split_lines_no_end [of l ys] split_lines_no_end [of l' ys] show ?thesis
    by (simp add: kept_of_append list_all2_refl)
qed

definition tailing :: "nat list \<Rightarrow> tail_cursor \<Rightarrow> bool" where
  "tailing content cu \<longleftrightarrow> cu_offset cu \<le> length content
     \<and> kept_of (last (split_lines (take (cu_offset cu) content))) (cu_partial cu)"

lemma tailing_grows: "tailing c cu \<Longrightarrow> prefix c c' \<Longrightarrow> tailing c' cu"
  by (auto simp: tailing_def prefix_def)

lemma list_all2_ends:
  assumes "list_all2 P xs ys" and "xs \<noteq> []"
  shows "list_all2 P (butlast xs) (butlast ys)" and "P (last xs) (last ys)"
proof -
  have "ys \<noteq> []" using assms by auto
  with assms show "list_all2 P (butlast xs) (butlast ys)" and "P (last xs) (last ys)"
    by (auto simp: list_all2_conv_all_nth nth_butlast last_conv_nth)
qed

text \<open>One read: the lines it gives are those completed by the bytes it took.\<close>

lemma tail_file_step:
  assumes "tailing c cu" and "\<not> restarted inode sz cu" and "sz \<le> length c"
    and "tail_file inode sz c cu = (ls, cu')"
  shows "tailing c cu'" and "cu_inode cu' = cu_inode cu"
    and "\<exists>xs. butlast (split_lines (take (cu_offset cu) c)) @ xs = butlast (split_lines (take (cu_offset cu') c)) \<and> list_all2 kept_of xs ls"
    and "cu_offset cu' = (if sz = cu_offset cu then sz else min (length c) (cu_offset cu + CHUNK))"
proof -
  let ?k = "cu_offset cu" and ?chunk = "take CHUNK (drop (cu_offset cu) c)"
  let ?p = "last (split_lines (take ?k c))"
  have k: "?k \<le> length c" and part: "kept_of ?p (cu_partial cu)" using assms(1) by (simp_all add: tailing_def)
  have "tailing c cu' \<and> cu_inode cu' = cu_inode cu
    \<and> (\<exists>xs. butlast (split_lines (take ?k c)) @ xs = butlast (split_lines (take (cu_offset cu') c)) \<and> list_all2 kept_of xs ls)
    \<and> cu_offset cu' = (if sz = ?k then sz else min (length c) (?k + CHUNK))"
  proof (cases "sz = ?k")
    case True
    with assms(1,2,4) show ?thesis by (auto simp: tail_file_def restarted_def Let_def)
  next
    case False
    let ?k' = "?k + length ?chunk" and ?read = "split_lines (cu_partial cu @ ?chunk)"
    have take: "take ?k' c = take ?k c @ ?chunk" by (simp add: take_add min_def)
    have pieces: "split_lines (take ?k' c) = butlast (split_lines (take ?k c)) @ split_lines (?p @ ?chunk)"
      unfolding take by (rule split_lines_append)
    have all: "list_all2 kept_of (split_lines (?p @ ?chunk)) ?read" by (rule kept_of_pieces [OF part last_split_lines])
    note ends = list_all2_ends [OF all split_lines_not_Nil]
    from assms(2,4) False have ls: "ls = butlast ?read"
      and cu': "cu' = cu\<lparr>cu_offset := ?k', cu_partial := if MAX_PARTIAL < length (last ?read) then [] else last ?read\<rparr>"
      by (auto simp: tail_file_def restarted_def Let_def)
    have "last (split_lines (take ?k' c)) = last (split_lines (?p @ ?chunk))" unfolding pieces by simp
    with kept_of_dropped [OF ends(2)]
    have "kept_of (last (split_lines (take ?k' c))) (if MAX_PARTIAL < length (last ?read) then [] else last ?read)" by simp
    moreover have "?k' \<le> length c" using k by simp
    ultimately have "tailing c cu'" by (simp add: cu' tailing_def)
    moreover have "butlast (split_lines (take ?k c)) @ butlast (split_lines (?p @ ?chunk)) = butlast (split_lines (take ?k' c))"
      unfolding pieces by (simp add: butlast_append)
    moreover have "?k' = min (length c) (?k + CHUNK)" using k by auto
    ultimately show ?thesis using False ends(1) by (auto simp: cu' ls)
  qed
  then show "tailing c cu'" and "cu_inode cu' = cu_inode cu"
    and "\<exists>xs. butlast (split_lines (take ?k c)) @ xs = butlast (split_lines (take (cu_offset cu') c)) \<and> list_all2 kept_of xs ls"
    and "cu_offset cu' = (if sz = ?k then sz else min (length c) (?k + CHUNK))" by blast+
qed

text \<open>Successive polls of a file: the size \<open>stat\<close> reported and the bytes the file held when it was read.\<close>

fun tail_all :: "int \<Rightarrow> (nat \<times> nat list) list \<Rightarrow> tail_cursor \<Rightarrow> nat list list \<times> tail_cursor" where
  "tail_all inode [] cu = ([], cu)"
| "tail_all inode ((sz, content) # reads) cu =
     (case tail_file inode sz content cu of (ls, cu) \<Rightarrow> (case tail_all inode reads cu of (ls', cu) \<Rightarrow> (ls @ ls', cu)))"

text \<open>The file only grows, also between \<open>stat\<close> and the read.\<close>

fun growing :: "nat list \<Rightarrow> (nat \<times> nat list) list \<Rightarrow> bool" where
  "growing before [] \<longleftrightarrow> True"
| "growing before ((sz, content) # reads) \<longleftrightarrow>
     length before \<le> sz \<and> sz \<le> length content \<and> prefix before content \<and> growing content reads"

lemma growing_last: "growing c reads \<Longrightarrow> prefix c (if reads = [] then c else snd (last reads))"
  by (induction c reads rule: growing.induct) (auto intro: prefix_order.trans split: if_splits)

lemma tail_all_step:
  assumes "growing c reads" and "tailing c cu" and "cu_inode cu = Some inode" and "tail_all inode reads cu = (ls, cu')"
  defines "end_content \<equiv> (if reads = [] then c else snd (last reads))"
  shows "tailing end_content cu' \<and> cu_inode cu' = Some inode
    \<and> (\<exists>xs. butlast (split_lines (take (cu_offset cu) c)) @ xs = butlast (split_lines (take (cu_offset cu') end_content))
        \<and> list_all2 kept_of xs ls)"
  using assms(1-4) unfolding end_content_def
proof (induction reads arbitrary: c cu ls cu')
  case (Cons x reads)
  obtain sz c1 where x: "x = (sz, c1)" by (cases x)
  obtain ls1 cu1 where 1: "tail_file inode sz c1 cu = (ls1, cu1)" by (cases "tail_file inode sz c1 cu")
  obtain ls2 cu2 where 2: "tail_all inode reads cu1 = (ls2, cu2)" by (cases "tail_all inode reads cu1")
  have ls: "ls = ls1 @ ls2" "cu' = cu2" using Cons.prems(4) 1 2 by (simp_all add: x)
  have g: "length c \<le> sz" "sz \<le> length c1" "prefix c c1" "growing c1 reads" using Cons.prems(1) by (simp_all add: x)
  have final: "(if reads = [] then c1 else snd (last reads)) = snd (last (x # reads))" by (simp add: x)
  have t1: "tailing c1 cu" using tailing_grows Cons.prems(2) g(3) by blast
  have "cu_offset cu \<le> sz" using Cons.prems(2) g(1) by (simp add: tailing_def)
  with Cons.prems(3) have "\<not> restarted inode sz cu" by (simp add: restarted_def)
  note step = tail_file_step [OF t1 this g(2) 1]
  have take: "take (cu_offset cu) c1 = take (cu_offset cu) c" using g(3) Cons.prems(2) by (auto simp: tailing_def prefix_def)
  obtain xs1 where xs1: "butlast (split_lines (take (cu_offset cu) c)) @ xs1 = butlast (split_lines (take (cu_offset cu1) c1))"
    "list_all2 kept_of xs1 ls1" using step(3) by (auto simp: take)
  from Cons.IH [OF g(4) step(1) _ 2] step(2) Cons.prems(3) obtain xs2 where
    two: "tailing (snd (last (x # reads))) cu2" "cu_inode cu2 = Some inode"
      "butlast (split_lines (take (cu_offset cu1) c1)) @ xs2 = butlast (split_lines (take (cu_offset cu2) (snd (last (x # reads)))))"
      "list_all2 kept_of xs2 ls2"
    unfolding final by auto
  have "butlast (split_lines (take (cu_offset cu) c)) @ (xs1 @ xs2)
      = butlast (split_lines (take (cu_offset cu2) (snd (last (x # reads)))))"
    using xs1(1) two(3) by (simp only: append_assoc [symmetric])
  moreover have "list_all2 kept_of (xs1 @ xs2) (ls1 @ ls2)" using xs1(2) two(4) by (rule list_all2_appendI)
  ultimately show ?case unfolding ls using two(1,2) by (simp only: list.distinct(2) if_False simp_thms) blast
qed auto

lemma tail_all_append:
  "tail_all inode (xs @ ys) cu = (case tail_all inode xs cu of (ls, cu) \<Rightarrow>
     (case tail_all inode ys cu of (ls', cu) \<Rightarrow> (ls @ ls', cu)))"
  by (induction xs arbitrary: cu) (auto split: prod.splits)

text \<open>A file that no longer grows is read to its end after as many polls as it has chunks.\<close>

lemma tail_all_reaches_end:
  assumes "tailing c cu" and "cu_inode cu = Some inode" and "tail_all inode (replicate n (length c, c)) cu = (ls, cu')"
  shows "min (length c) (cu_offset cu + n * CHUNK) \<le> cu_offset cu'"
  using assms
proof (induction n arbitrary: cu ls)
  case (Suc n)
  obtain ls1 cu1 where 1: "tail_file inode (length c) c cu = (ls1, cu1)" by (cases "tail_file inode (length c) c cu")
  obtain ls2 cu2 where 2: "tail_all inode (replicate n (length c, c)) cu1 = (ls2, cu2)"
    by (cases "tail_all inode (replicate n (length c, c)) cu1")
  have "\<not> restarted inode (length c) cu" using Suc.prems(1,2) by (simp add: restarted_def tailing_def)
  note step = tail_file_step [OF Suc.prems(1) this order_refl 1]
  have cu': "cu' = cu2" using Suc.prems(3) 1 2 by simp
  from Suc.IH [OF step(1) _ 2 [folded cu']] step(2) Suc.prems(2)
  have "min (length c) (cu_offset cu1 + n * CHUNK) \<le> cu_offset cu'" by simp
  with step(4) show ?case by (auto split: if_splits)
qed (simp add: tailing_def)

text \<open>C21: However the polls fall, a file that grows and then stays is read line by line: one line read for
  each complete line of the file, in order. A line of up to 2^20 bytes is read as it is, nothing lost or split at
  the edge of a read; of a longer one the beginning may be missing. The unfinished last line waits.\<close>

theorem dashboard_reads_every_line:
  assumes "growing [] reads" and "reads \<noteq> []" and "snd (last reads) = content" and "length content \<le> n * CHUNK"
    and "tail_all inode (reads @ replicate n (length content, content))
           \<lparr>cu_offset = 0, cu_partial = [], cu_inode = None\<rparr> = (ls, cu)"
  shows "list_all2 (\<lambda>l l'. suffix l' l \<and> (length l \<le> 2 ^ 20 \<longrightarrow> l' = l)) (butlast (split_lines content)) ls
    \<and> (length (last (split_lines content)) \<le> 2 ^ 20 \<longrightarrow> cu_partial cu = last (split_lines content))
    \<and> cu_offset cu = length content"
proof -
  let ?new = "\<lparr>cu_offset = 0, cu_partial = [], cu_inode = Some inode\<rparr>"
  have kept: "kept_of = (\<lambda>l l'. suffix l' l \<and> (length l \<le> 2 ^ 20 \<longrightarrow> l' = l))"
    by (simp add: fun_eq_iff kept_of_def MAX_PARTIAL_def)
  obtain x reads' where reads: "reads = x # reads'" using assms(2) by (metis neq_Nil_conv)
  have "tail_file inode sz c \<lparr>cu_offset = 0, cu_partial = [], cu_inode = None\<rparr> = tail_file inode sz c ?new" for sz c
    by (simp add: tail_file_def)
  then have start: "tail_all inode (reads @ replicate n (length content, content)) ?new = (ls, cu)"
    using assms(5) by (cases x) (simp add: reads)
  obtain ls1 cu1 where 1: "tail_all inode reads ?new = (ls1, cu1)" by (cases "tail_all inode reads ?new")
  obtain ls2 where 2: "tail_all inode (replicate n (length content, content)) cu1 = (ls2, cu)" "ls = ls1 @ ls2"
    using start 1 by (auto simp: tail_all_append split: prod.splits)
  have "tailing [] ?new" by (simp add: tailing_def)
  from tail_all_step [OF assms(1) this _ 1] assms(2,3) obtain xs1 where
    one: "tailing content cu1" "cu_inode cu1 = Some inode" "xs1 = butlast (split_lines (take (cu_offset cu1) content))"
      "list_all2 kept_of xs1 ls1" by auto
  have "growing content (replicate n (length content, content))" by (induction n) simp_all
  moreover have "(if replicate n (length content, content) = [] then content
      else snd (last (replicate n (length content, content)))) = content" by (simp add: last_replicate)
  ultimately obtain xs2 where two: "tailing content cu" "xs1 @ xs2 = butlast (split_lines (take (cu_offset cu) content))"
    "list_all2 kept_of xs2 ls2"
    using tail_all_step [OF _ one(1,2) 2(1)] one(3) by auto
  have "length content \<le> cu_offset cu"
    using tail_all_reaches_end [OF one(1,2) 2(1)] assms(4) by simp
  with two(1) have offset: "cu_offset cu = length content" by (simp add: tailing_def)
  have "list_all2 kept_of (xs1 @ xs2) ls" unfolding 2(2) using one(4) two(3) by (rule list_all2_appendI)
  then have "list_all2 kept_of (butlast (split_lines content)) ls" using two(2) offset by simp
  moreover have "kept_of (last (split_lines content)) (cu_partial cu)" using two(1) offset by (simp add: tailing_def)
  ultimately show ?thesis using offset unfolding kept by simp
qed

theorem dashboard_reads_every_line_witness:
  "fst (tail_all 7 ([(3, [97, 98, 10]), (4, [97, 98, 10, 99, 100])] @ replicate 1 (7, [97, 98, 10, 99, 100, 10, 101]))
     \<lparr>cu_offset = 0, cu_partial = [], cu_inode = None\<rparr>) = [[97, 98], [99, 100]]"
proof -
  let ?content = "[97, 98, 10, 99, 100, 10, 101] :: nat list"
  let ?reads = "[(3, [97, 98, 10]), (4, [97, 98, 10, 99, 100]), (7, ?content)]"
  obtain ls cu where r: "tail_all 7 (?reads @ replicate 1 (length ?content, ?content))
      \<lparr>cu_offset = 0, cu_partial = [], cu_inode = None\<rparr> = (ls, cu)"
    by (cases "tail_all 7 (?reads @ replicate 1 (length ?content, ?content))
      \<lparr>cu_offset = 0, cu_partial = [], cu_inode = None\<rparr>")
  have "growing [] ?reads" "length ?content \<le> 1 * CHUNK" by (simp_all add: CHUNK_def)
  from dashboard_reads_every_line [OF this(1) _ _ this(2) r]
  have "ls = [[97, 98], [99, 100]]" by (simp add: list_all2_Cons1)
  with r show ?thesis by (simp add: tail_file_def Let_def CHUNK_def MAX_PARTIAL_def)
qed

subsection \<open>What is kept\<close>

definition view_bounded :: "station_view \<Rightarrow> bool" where
  "view_bounded v \<longleftrightarrow> length (vw_history v) \<le> 120 \<and> length (vw_trades v) \<le> 12 \<and> length (vw_events v) \<le> 12
     \<and> (case vw_offers v of None \<Rightarrow> True | Some os \<Rightarrow> length os \<le> 20)"

definition feed_bounded :: "feed \<Rightarrow> bool" where
  "feed_bounded fd \<longleftrightarrow> (\<forall>sid v. dict_get (fd_stations fd) sid = Some v \<longrightarrow> view_bounded v)"

lemma view_bounded_frames [simp]:
  "view_bounded (v\<lparr>vw_strategy := a\<rparr>) = view_bounded v" "view_bounded (v\<lparr>vw_status := b\<rparr>) = view_bounded v"
  "view_bounded (v\<lparr>vw_connection := a\<rparr>) = view_bounded v" "view_bounded (v\<lparr>vw_ended := c\<rparr>) = view_bounded v"
  "view_bounded (v\<lparr>vw_updated_ms := t\<rparr>) = view_bounded v"
  by (simp_all add: view_bounded_def)

lemma view_bounded_new: "view_bounded (view_new sid)"
  by (simp add: view_bounded_def view_new_def)

lemma view_bounded_trades: "view_bounded v \<Longrightarrow> view_bounded (fold add_trade ts v)"
  by (induction ts arbitrary: v) (auto simp: add_trade_def view_bounded_def)

lemma view_bounded_point: "view_bounded v \<Longrightarrow> view_bounded (add_point p v)"
  by (auto simp: add_point_def view_bounded_def last_n_def)

lemma view_bounded_record:
  assumes "view_bounded v" and "view_record r v = (e, v')"
  shows "view_bounded v'"
proof -
  have "view_bounded (copy_decision r v)" using assms(1) by (auto simp: view_bounded_def copy_decision_def last_n_def)
  then have "view_bounded (fold add_trade ts (add_point p (copy_decision r v)))" for ts p
    by (intro view_bounded_trades view_bounded_point)
  moreover have "view_bounded (add_command r a v)" for a
    using assms(1) by (auto simp: view_bounded_def add_command_def Let_def split: option.splits bool.splits)
  ultimately show ?thesis using assms \<open>view_bounded (copy_decision r v)\<close>
    by (auto simp: view_record_def Let_def split: if_splits option.splits sum.splits)
qed

lemma feed_bounded_ingest:
  assumes "feed_bounded fd"
  shows "feed_bounded (snd (ingest ms sid r fd))"
proof -
  let ?fd = "if lg_kind r = Some ''run_start''
    then fd\<lparr>fd_stations := dict_pop sid (fd_stations fd), fd_finished := False\<rparr> else fd"
  let ?v = "(or_else (dict_get (fd_stations ?fd) sid) (view_new sid))\<lparr>vw_updated_ms := Some ms\<rparr>"
  have fd: "feed_bounded ?fd" using assms by (auto simp: feed_bounded_def dict_get_pop)
  have v: "view_bounded ?v" using fd view_bounded_new by (auto simp: feed_bounded_def or_else_def split: option.splits)
  obtain e v' where r: "view_record r ?v = (e, v')" by (cases "view_record r ?v")
  from view_bounded_record [OF v r] fd r show ?thesis
    by (auto simp: ingest_def Let_def feed_bounded_def dict_get_set dict_get_pop split: if_splits)
qed

lemma feed_bounded_lines: "feed_bounded fd \<Longrightarrow> feed_bounded (fold (ingest_line loads ms sid) ls fd)"
  by (induction ls arbitrary: fd) (auto simp: ingest_line_def feed_bounded_ingest split: option.splits)

lemma feed_bounded_files [simp]: "feed_bounded (fd\<lparr>fd_files := fs\<rparr>) = feed_bounded fd"
  by (simp add: feed_bounded_def)

lemma feed_bounded_pop: "feed_bounded fd \<Longrightarrow> feed_bounded (fd\<lparr>fd_stations := dict_pop sid (fd_stations fd)\<rparr>)"
  by (simp add: feed_bounded_def dict_get_pop)

lemma feed_bounded_file: "feed_bounded fd \<Longrightarrow> feed_bounded (poll_file loads ms disk name fd)"
  by (auto simp: poll_file_def Let_def feed_bounded_lines feed_bounded_pop split: option.splits prod.splits)

lemma feed_bounded_final: "feed_bounded fd \<Longrightarrow> feed_bounded (show_final rt p fd)"
  by (auto simp: show_final_def feed_bounded_def view_bounded_def dict_get_set split: option.splits)

lemma fold_keeps: "(\<And>x s. P s \<Longrightarrow> P (f x s)) \<Longrightarrow> P s \<Longrightarrow> P (fold f xs s)"
  by (induction xs arbitrary: s) auto

text \<open>However long it runs, the dashboard keeps at most 120 points and 12 trades and commands of a station.\<close>

lemma feed_bounded_poll:
  assumes "feed_bounded fd"
  shows "feed_bounded (poll loads now ms names disk file fd)"
proof -
  have "feed_bounded (scan_files now names fd)"
    using assms by (auto simp: scan_files_def feed_bounded_def [of "_\<lparr>fd_next_scan := _\<rparr>"] feed_bounded_def [symmetric]
        intro!: fold_keeps [where P = feed_bounded])
  then have "feed_bounded (fold (poll_file loads ms disk) ks (scan_files now names fd))" for ks
    by (intro fold_keeps [where P = feed_bounded] feed_bounded_file)
  moreover have "feed_bounded (read_report file s)" if "feed_bounded s" for s
    using that by (auto simp: read_report_def feed_bounded_def Let_def split: option.splits)
  ultimately have "feed_bounded (read_report file (fold (poll_file loads ms disk) ks (scan_files now names fd)))" for ks
    by blast
  moreover from this have "feed_bounded (fold (show_final rt) ps (read_report file
      (fold (poll_file loads ms disk) ks (scan_files now names fd))))" for rt ps ks
    by (intro fold_keeps [where P = feed_bounded] feed_bounded_final)
  ultimately show ?thesis by (simp add: poll_def Let_def split: option.splits)
qed

text \<open>Only the page itself, or a program that sends no origin, may follow the events.\<close>

lemma foreign_pages_refused:
  assumes "http path (Some site) (Some host) exists fd = Upgrade"
  shows "path = ''/events'' \<and> (site = '''' \<or> site = ''http://'' @ host)"
  using assms by (auto simp: http_def or_else_def split: if_splits option.splits list.splits)

end
