(* ===== verification/Opponents.thy ===== *)
theory Opponents
  imports Strategy
begin

text \<open>
  \<open>bazaar_sim/opponents.py\<close>: the players of a simulated world. A player is a value; \<open>act\<close> returns its
  actions for a snapshot and the player as the object is afterwards (its rotation or memory).
\<close>

definition imports_of :: "snapshot \<Rightarrow> resource list" where
  "imports_of s = filter (\<lambda>r. r \<noteq> specialty (me s)) resources"

definition others_of :: "snapshot \<Rightarrow> string list" where
  "others_of s = filter (\<lambda>k. k \<noteq> self_station_id s) (map dir_station_id (directory s))"

definition expiry :: "snapshot \<Rightarrow> int \<Rightarrow> int" where
  "expiry s ttl = min (snap_tick s + ttl) (duration_ticks (snap_rules s))"

text \<open>Accept offers that give at least what they cost, while the stock left can pay.\<close>

fun accept_while :: "snapshot \<Rightarrow> bool \<Rightarrow> nat \<Rightarrow> offer list \<Rightarrow> string list \<Rightarrow> Bundle \<Rightarrow> string list result" where
  "accept_while s only_specialty limit [] acc stock = Inr acc"
| "accept_while s only_specialty limit (o' # os) acc stock =
     (let cost = receive o'; gain = give o' in
      if total gain < total cost \<or> \<not> dominates stock cost then accept_while s only_specialty limit os acc stock
      else if only_specialty \<and> list_ex (\<lambda>r. get cost r \<noteq> 0) (imports_of s)
      then accept_while s only_specialty limit os acc stock
      else bindE (bundle_sub stock cost) (\<lambda>stock.
        let acc = acc @ [offer_id o'] in
        if length acc \<ge> limit then Inr acc else accept_while s only_specialty limit os acc stock))"

definition accept_if_not_worse :: "snapshot \<Rightarrow> bool \<Rightarrow> nat \<Rightarrow> action list result" where
  "accept_if_not_worse s only_specialty limit =
     bindE (accept_while s only_specialty limit (incoming_open_offers s) [] (inventory (me s))) (\<lambda>ids.
     Inr (map AcceptAction ids))"

text \<open>\<open>_RoundRobin.next\<close>; taking the remainder by the length of an empty list raises.\<close>

definition rr_next :: "nat \<Rightarrow> string list \<Rightarrow> (string \<times> nat) result" where
  "rr_next pos choices =
     (if choices = [] then Inl ZeroDivisionError else Inr (choices ! (pos mod length choices), pos + 1))"

subsection \<open>Greedy\<close>

text \<open>Up to two offers for one import: 2 of the specialty for 4.\<close>

fun greedy_offers :: "nat \<Rightarrow> snapshot \<Rightarrow> resource \<Rightarrow> action list \<Rightarrow> int \<Rightarrow> nat \<Rightarrow> (action list \<times> int \<times> nat) result" where
  "greedy_offers 0 s want acts spare pos = Inr (acts, spare, pos)"
| "greedy_offers (Suc n) s want acts spare pos =
     (if int (length acts) \<ge> new_commands_per_station_per_tick (snap_rules s) \<or> spare < 2
      then Inr (acts, spare, pos)
      else bindE (rr_next pos (others_of s)) (\<lambda>(sid, pos).
           bindE (single (specialty (me s)) 2) (\<lambda>g.
           bindE (single want 4) (\<lambda>w.
           greedy_offers n s want (acts @ [OfferAction sid g w (expiry s 5)]) (spare - 2) pos))))"

definition greedy_act :: "nat \<Rightarrow> snapshot \<Rightarrow> (action list \<times> nat) result" where
  "greedy_act pos s =
     bindE (accept_if_not_worse s False 2) (\<lambda>acts.
     bindE (foldE (\<lambda>want (acts, spare, pos).
         if get (inventory (me s)) want \<ge> 25 \<or> spare < 2 then Inr (acts, spare, pos)
         else greedy_offers 2 s want acts spare pos)
       (imports_of s) (acts, qty (inventory (me s)) (specialty (me s)), pos)) (\<lambda>(acts, spare, pos).
     Inr (acts, pos)))"

subsection \<open>SmallFair and Quitter\<close>

record small_fair =
  sf_size :: int
  sf_target :: int
  sf_quit_at :: "int option"
  sf_name :: string
  sf_position :: nat

definition small_fair_new :: "int \<Rightarrow> small_fair" where
  "small_fair_new n = \<lparr>sf_size = n, sf_target = 15, sf_quit_at = None, sf_name = ''small-fair'', sf_position = 0\<rparr>"

fun fair_offers :: "small_fair \<Rightarrow> snapshot \<Rightarrow> resource list \<Rightarrow> action list \<Rightarrow> int \<Rightarrow> (action list \<times> small_fair) result" where
  "fair_offers p s [] acts spare = Inr (acts, p)"
| "fair_offers p s (want # ws) acts spare =
     (if qty (inventory (me s)) want \<ge> sf_target p \<or> spare < sf_size p then fair_offers p s ws acts spare
      else if int (length acts) \<ge> new_commands_per_station_per_tick (snap_rules s) then Inr (acts, p)
      else bindE (rr_next (sf_position p) (others_of s)) (\<lambda>(sid, pos).
           bindE (single (specialty (me s)) (sf_size p)) (\<lambda>g.
           bindE (single want (sf_size p)) (\<lambda>w.
           fair_offers (p\<lparr>sf_position := pos\<rparr>) s ws (acts @ [OfferAction sid g w (expiry s 3)]) (spare - sf_size p)))))"

definition small_fair_act :: "small_fair \<Rightarrow> snapshot \<Rightarrow> (action list \<times> small_fair) result" where
  "small_fair_act p s =
     (if (case sf_quit_at p of None \<Rightarrow> False | Some t \<Rightarrow> snap_tick s \<ge> t) then Inr ([], p)
      else bindE (accept_if_not_worse s True 2) (\<lambda>acts.
        let acts = (if snap_tick s mod 5 = 0
            then acts @ [AdvertiseAction {specialty (me s)} (set (imports_of s)) (expiry s 8)] else acts)
        in fair_offers p s (imports_of s) acts (qty (inventory (me s)) (specialty (me s)) - 3)))"

definition quitter_new :: small_fair where
  "quitter_new = (small_fair_new 3)\<lparr>sf_quit_at := Some 45, sf_name := ''quitter''\<rparr>"

subsection \<open>Gifter\<close>

definition gifter_act :: "nat \<Rightarrow> snapshot \<Rightarrow> (action list \<times> nat) result" where
  "gifter_act pos s =
     bindE (accept_if_not_worse s False 2) (\<lambda>acts.
     if get (inventory (me s)) (specialty (me s)) > 5
     then bindE (rr_next pos (others_of s)) (\<lambda>(sid, pos).
          bindE (single (specialty (me s)) 2) (\<lambda>g.
          Inr (acts @ [OfferAction sid g zero_bundle (expiry s 2)], pos)))
     else Inr (acts, pos))"

subsection \<open>Players\<close>

record strategy_player =
  sp_strategy :: strategy
  sp_memory :: policy_memory
  sp_commitments :: commitment_tracker

definition strategy_player_new :: "strategy \<Rightarrow> strategy_player" where
  "strategy_player_new st = \<lparr>sp_strategy = st, sp_memory = memory_init, sp_commitments = tracker_init\<rparr>"

definition strategy_player_act :: "strategy_player \<Rightarrow> snapshot \<Rightarrow> (action list \<times> strategy_player) result" where
  "strategy_player_act p s =
     bindE (strategy_decide (sp_strategy p) s (sp_memory p) (Some (sp_commitments p)) None) (\<lambda>(d, m).
     Inr (d_actions d, p\<lparr>sp_memory := m\<rparr>))"

datatype player =
    StrategyPlayer strategy_player
  | PassivePlayer
  | Greedy nat
  | SmallFair small_fair
  | Gifter nat

fun act :: "player \<Rightarrow> snapshot \<Rightarrow> (action list \<times> player) result" where
  "act (StrategyPlayer p) s = bindE (strategy_player_act p s) (\<lambda>(acts, p). Inr (acts, StrategyPlayer p))"
| "act PassivePlayer s = Inr ([], PassivePlayer)"
| "act (Greedy pos) s = bindE (greedy_act pos s) (\<lambda>(acts, pos). Inr (acts, Greedy pos))"
| "act (SmallFair p) s = bindE (small_fair_act p s) (\<lambda>(acts, p). Inr (acts, SmallFair p))"
| "act (Gifter pos) s = bindE (gifter_act pos s) (\<lambda>(acts, pos). Inr (acts, Gifter pos))"

definition our_policy :: player where
  "our_policy = StrategyPlayer (strategy_player_new ReserveTrader)"

definition run_two_opponents :: "player list" where
  "run_two_opponents = [PassivePlayer, SmallFair (small_fair_new 5), Gifter 0, SmallFair quitter_new,
     SmallFair (small_fair_new 3), SmallFair (small_fair_new 1), SmallFair (small_fair_new 1), Greedy 0]"

text \<open>\<open>roster.insert(slot, subject)\<close> for a slot of at least 0.\<close>

definition lineup :: "player \<Rightarrow> player list \<Rightarrow> nat \<Rightarrow> player list" where
  "lineup subject opponents slot = take slot opponents @ subject # drop slot opponents"

subsection \<open>Players always answer\<close>

fun player_ok :: "player \<Rightarrow> bool" where
  "player_ok (StrategyPlayer p) = memory_ok (sp_memory p)"
| "player_ok (SmallFair p) = (0 \<le> sf_size p)"
| "player_ok _ = True"

lemma dominates_sub: "dominates a b \<Longrightarrow> bundle_sub a b = Inr (a - b)"
  by (simp add: bundle_folds bundle_sub_Inr)

lemma spent_Cons: "spent s (a # acts) = spend s a + spent s acts"
  by (simp add: spent_def)

lemma accept_while_total:
  assumes "snapshot_ok s" and "set os \<subseteq> set (incoming_open_offers s)" and "distinct os"
  shows "\<exists>ids. accept_while s only limit os acc stock = Inr (acc @ ids) \<and> set ids \<subseteq> offer_id ` set os
    \<and> spent s (map AcceptAction ids) \<le> stock"
  using assms(2,3)
proof (induction os arbitrary: acc stock)
  case (Cons o' os)
  note IH = Cons.IH [of acc stock]
  have rest: "set os \<subseteq> set (incoming_open_offers s)" "distinct os" using Cons.prems by auto
  have cost: "spend s (AcceptAction (offer_id o')) = receive o'"
    using find_offer [OF assms(1), of o'] Cons.prems(1) by simp
  show ?case
  proof (cases "(total (give o') < total (receive o') \<or> \<not> dominates stock (receive o'))
      \<or> (only \<and> list_ex (\<lambda>r. get (receive o') r \<noteq> 0) (imports_of s))")
    case True
    with IH [OF rest] show ?thesis by (auto simp: Let_def)
  next
    case False
    then have dom: "receive o' \<le> stock" by (simp add: bundle_folds)
    show ?thesis
    proof (cases "length (acc @ [offer_id o']) \<ge> limit")
      case True
      with False dom cost show ?thesis
        by (intro exI [of _ "[offer_id o']"]) (auto simp: Let_def dominates_sub spent_Cons)
    next
      case more: False
      from Cons.IH [OF rest, of "acc @ [offer_id o']" "stock - receive o'"] obtain ids where
        ids: "accept_while s only limit os (acc @ [offer_id o']) (stock - receive o') = Inr ((acc @ [offer_id o']) @ ids)"
          "set ids \<subseteq> offer_id ` set os" "spent s (map AcceptAction ids) \<le> stock - receive o'" by blast
      have "receive o' + spent s (map AcceptAction ids) \<le> stock"
        using ids(3) dom by (auto simp: bundle_le_iff le_diff_conv2 add.commute)
      with ids False more dom cost show ?thesis
        by (intro exI [of _ "offer_id o' # ids"]) (auto simp: Let_def dominates_sub spent_Cons)
    qed
  qed
qed simp

lemma accept_if_not_worse_total:
  assumes "snapshot_ok s"
  shows "\<exists>acts. accept_if_not_worse s only limit = Inr acts \<and> spent s acts \<le> inventory (me s)
    \<and> (\<forall>a \<in> set acts. \<exists>o' \<in> set (incoming_open_offers s). a = AcceptAction (offer_id o'))"
proof -
  have "distinct (incoming_open_offers s)"
    using assms by (simp add: snapshot_ok_def incoming_open_offers_def distinct_map)
  from accept_while_total [OF assms subset_refl this, of only limit "[]" "inventory (me s)"] obtain ids where
    ids: "accept_while s only limit (incoming_open_offers s) [] (inventory (me s)) = Inr ids"
      "set ids \<subseteq> offer_id ` set (incoming_open_offers s)"
      "spent s (map AcceptAction ids) \<le> inventory (me s)" by auto
  then have "spent s (map AcceptAction ids) \<le> inventory (me s)" by simp
  with ids show ?thesis by (auto simp: accept_if_not_worse_def)
qed

lemma rr_next_total: "choices \<noteq> [] \<Longrightarrow> \<exists>sid. rr_next pos choices = Inr (sid, pos + 1) \<and> sid \<in> set choices"
  by (simp add: rr_next_def)

lemma greedy_offers_total:
  assumes "others_of s \<noteq> []"
  shows "\<exists>x. greedy_offers n s want acts spare pos = Inr x"
proof (induction n arbitrary: acts spare pos)
  case (Suc n)
  obtain sid where "rr_next pos (others_of s) = Inr (sid, pos + 1)" using rr_next_total [OF assms] by blast
  moreover obtain g w where "single (specialty (me s)) 2 = Inr g" "single want 4 = Inr w"
    using single_nonneg [of 2 "specialty (me s)"] single_nonneg [of 4 want] by auto
  ultimately show ?case using Suc by simp
qed simp

lemma foldE_total: "(\<And>x y. x \<in> set xs \<Longrightarrow> \<exists>z. f x y = Inr z) \<Longrightarrow> \<exists>z. foldE f xs y = Inr z"
proof (induction xs arbitrary: y)
  case (Cons x xs)
  obtain z where "f x y = Inr z" using Cons.prems [of x y] by auto
  with Cons.IH [of z] Cons.prems show ?case by simp
qed simp

lemma greedy_act_total:
  assumes "snapshot_ok s" and "others_of s \<noteq> []"
  shows "\<exists>x. greedy_act pos s = Inr x"
proof -
  obtain acts where a: "accept_if_not_worse s False 2 = Inr acts" using accept_if_not_worse_total [OF assms(1)] by blast
  let ?f = "\<lambda>want (acts, spare, pos). if get (inventory (me s)) want \<ge> 25 \<or> spare < 2 then Inr (acts, spare, pos)
         else greedy_offers 2 s want acts spare pos"
  have "\<exists>z. ?f want y = Inr z" for want y
    using greedy_offers_total [OF assms(2)] by (cases y) auto
  then obtain acts' spare pos' where "foldE ?f (imports_of s) (acts, qty (inventory (me s)) (specialty (me s)), pos) = Inr (acts', spare, pos')"
    using foldE_total [of "imports_of s" ?f] by (metis prod_cases3)
  with a show ?thesis by (simp add: greedy_act_def)
qed

lemma fair_offers_total:
  assumes "others_of s \<noteq> []" and "0 \<le> sf_size p"
  shows "\<exists>acts' p'. fair_offers p s ws acts spare = Inr (acts', p') \<and> sf_size p' = sf_size p"
  using assms(2)
proof (induction ws arbitrary: p acts spare)
  case (Cons want ws)
  obtain sid where r: "rr_next (sf_position p) (others_of s) = Inr (sid, sf_position p + 1)"
    using rr_next_total [OF assms(1)] by blast
  obtain g w where "single (specialty (me s)) (sf_size p) = Inr g" "single want (sf_size p) = Inr w"
    using single_nonneg [OF Cons.prems] by blast
  with r Cons.IH [of p acts spare] Cons.prems
    Cons.IH [of "p\<lparr>sf_position := sf_position p + 1\<rparr>" "acts @ [OfferAction sid g w (expiry s 3)]" "spare - sf_size p"]
  show ?case by simp
qed simp

lemma act_total:
  assumes "player_ok p" and "snapshot_ok s" and "others_of s \<noteq> []"
  shows "\<exists>acts p'. act p s = Inr (acts, p') \<and> player_ok p'"
proof (cases p)
  case (StrategyPlayer x)
  obtain d m where "strategy_decide (sp_strategy x) s (sp_memory x) (Some (sp_commitments x)) None = Inr (d, m)" "memory_ok m"
    using reserve_trader.pick_total [OF _ assms(2), of "sp_memory x"] observer.pick_total [OF _ assms(2), of "sp_memory x"]
      assms(1) StrategyPlayer by (cases "sp_strategy x") (fastforce)+
  with StrategyPlayer show ?thesis by (simp add: strategy_player_act_def)
next
  case (Greedy pos)
  with greedy_act_total [OF assms(2,3), of pos] show ?thesis by auto
next
  case (SmallFair x)
  obtain acts where a: "accept_if_not_worse s True 2 = Inr acts" using accept_if_not_worse_total [OF assms(2)] by blast
  have "\<exists>acts p'. small_fair_act x s = Inr (acts, p') \<and> sf_size p' = sf_size x"
    using fair_offers_total [OF assms(3)] assms(1) SmallFair a by (auto simp: small_fair_act_def Let_def)
  with SmallFair assms(1) show ?thesis by auto
next
  case (Gifter pos)
  obtain acts where a: "accept_if_not_worse s False 2 = Inr acts" using accept_if_not_worse_total [OF assms(2)] by blast
  obtain sid where "rr_next pos (others_of s) = Inr (sid, pos + 1)" using rr_next_total [OF assms(3)] by blast
  moreover obtain g where "single (specialty (me s)) 2 = Inr g" using single_nonneg [of 2 "specialty (me s)"] by auto
  ultimately show ?thesis using Gifter a by (auto simp: gifter_act_def)
qed simp

end
