(* ===== verification/Sim_World.thy ===== *)
theory Sim_World
  imports World Opponents Demo
begin

text \<open>
  \<open>bazaar_sim/world.py\<close>, second half: a whole run of a roster of players on one economy. The players
  are whatever \<open>plays\<close> makes of them (interface \<open>players\<close>, provided by \<open>Opponents\<close>); the run keeps its own
  record of who failed when, which turns out to be the record the stations keep themselves.
\<close>

record 'p world_outcome =
  wo_economy :: economy
  wo_roster :: "(string, 'p) pydict"
  wo_failed_at :: "(string, int) pydict"
  wo_ticks :: int

definition alive_ticks :: "'p world_outcome \<Rightarrow> string \<Rightarrow> int" where
  "alive_ticks w sid = dict_get_or (wo_ticks w) (wo_failed_at w) sid"

definition world_alive_ticks :: "'p world_outcome \<Rightarrow> int" where
  "world_alive_ticks w = sum_list (map (alive_ticks w) (dict_keys (wo_roster w)))"

definition survivors :: "'p world_outcome \<Rightarrow> string set" where
  "survivors w = set (dict_keys (wo_roster w)) - set (dict_keys (wo_failed_at w))"

definition world_score :: "'p world_outcome \<Rightarrow> string option \<Rightarrow> score result" where
  "world_score w subject =
     score_economy (wo_economy w) (wo_ticks w) subject (Some (map (\<lambda>(k, t). (k, Some t)) (wo_failed_at w)))"

subsection \<open>A run\<close>

text \<open>Every station that has not failed acts on what it sees, in the order of the roster.\<close>

fun take_turns ::
  "('p \<Rightarrow> snapshot \<Rightarrow> (action list \<times> 'p) result) \<Rightarrow> (string, 'p) pydict \<Rightarrow> economy \<Rightarrow> ((string, 'p) pydict \<times> economy) result" where
  "take_turns plays [] e = Inr ([], e)"
| "take_turns plays ((sid, p) # ps) e =
     bindE (station_at e sid) (\<lambda>st.
     if st_failed_once st then bindE (take_turns plays ps e) (\<lambda>(ps, e). Inr ((sid, p) # ps, e))
     else bindE (observation_for sid None RUNNING [] None e) (\<lambda>(s, e).
          bindE (plays p s) (\<lambda>(acts, p).
          bindE (apply_batch sid acts e) (\<lambda>e.
          bindE (take_turns plays ps e) (\<lambda>(ps, e). Inr ((sid, p) # ps, e))))))"

definition note_failures :: "economy \<Rightarrow> (string, int) pydict \<Rightarrow> (string, int) pydict" where
  "note_failures e failed_at = fold (\<lambda>(sid, st) d.
     if st_failed_once st \<and> dict_get d sid = None then dict_set sid (ec_tick e) d else d) (ec_stations e) failed_at"

definition run_tick ::
  "('p \<Rightarrow> snapshot \<Rightarrow> (action list \<times> 'p) result) \<Rightarrow> (int \<Rightarrow> int \<Rightarrow> int) \<Rightarrow> nat \<Rightarrow>
     (string, 'p) pydict \<times> economy \<times> (string, int) pydict \<Rightarrow> ((string, 'p) pydict \<times> economy \<times> (string, int) pydict) result" where
  "run_tick plays produce tick w = (case w of (roster, e, failed_at) \<Rightarrow>
     bindE (take_turns plays roster (set_productions (produce (int tick)) e)) (\<lambda>(roster, e).
     bindE (advance_tick e) (\<lambda>e.
     Inr (roster, e, note_failures e failed_at))))"

definition opening_stations :: "string list \<Rightarrow> int list \<Rightarrow> sim_station list result" where
  "opening_stations ids stock =
     mapE (\<lambda>(i, sid). if i < length stock
        then bindE (bundle_of (\<lambda>_. stock ! i)) (\<lambda>b. Inr (sim_station_new sid (specialty_of i) b 3))
        else Inl IndexError) (enumerate 0 ids)"

definition run_world ::
  "('p \<Rightarrow> snapshot \<Rightarrow> (action list \<times> 'p) result) \<Rightarrow> 'p list \<Rightarrow> nat \<Rightarrow> int \<Rightarrow> (int \<Rightarrow> int \<Rightarrow> int) option \<Rightarrow>
     int list option \<Rightarrow> rules \<Rightarrow> 'p world_outcome result" where
  "run_world plays players ticks phase_offset production starting_stock rs =
     (let roster = fold (\<lambda>(i, p). dict_set (planet_id i) p) (enumerate 0 players) [];
          stock = (case starting_stock of None \<Rightarrow> replicate (length roster) 30
                   | Some xs \<Rightarrow> if xs = [] then replicate (length roster) 30 else xs);
          produce = (case production of None \<Rightarrow> run_two_production phase_offset | Some p \<Rightarrow> p)
      in bindE (opening_stations (dict_keys roster) stock) (\<lambda>stations.
         bindE (foldE (run_tick plays produce) [0..<ticks] (roster, economy_init stations rs ''sim'', [])) (\<lambda>(roster, e, failed_at).
         Inr \<lparr>wo_economy = e, wo_roster = roster, wo_failed_at = failed_at, wo_ticks = int ticks\<rparr>)))"

subsection \<open>Who failed when\<close>

definition failure_of :: "economy \<Rightarrow> string \<Rightarrow> int option" where
  "failure_of e k = (case dict_get (ec_stations e) k of
     Some st \<Rightarrow> if st_failed_once st then st_first_failure_tick st else None | None \<Rightarrow> None)"

definition recorded :: "economy \<Rightarrow> (string, int) pydict \<Rightarrow> bool" where
  "recorded e fa \<longleftrightarrow> dict_ok fa \<and> (\<forall>k. dict_get fa k = failure_of e k)"

lemma failure_of_frames [simp]:
  "failure_of (e\<lparr>ec_rejections := rj\<rparr>) = failure_of e" "failure_of (e\<lparr>ec_world_version := v\<rparr>) = failure_of e"
  "failure_of (e\<lparr>ec_sequence := n\<rparr>) = failure_of e"
  by (simp_all add: failure_of_def fun_eq_iff)

lemma failure_of_execute:
  assumes "economy_ok e" and "execute sid a e = Inr (c, e')"
  shows "failure_of e' = failure_of e"
proof -
  have "st_first_failure_tick (traded paid got st) = st_first_failure_tick st"
    "st_failed_once (traded paid got st) = st_failed_once st" for paid got st
    by (simp_all add: traded_def)
  with execute_cases [OF assms] show ?thesis
    by (auto simp: failure_of_def fun_eq_iff settled_step_def settled_by_def settled_as_def dict_get_set)
qed

lemma failure_of_apply:
  assumes "economy_ok e" and "known e sid" and "apply_batch sid acts e = Inr e'"
  shows "failure_of e' = failure_of e"
  using apply_batch_keeps [where P = "\<lambda>x. failure_of x = failure_of e", OF assms(1,2) refl assms(3)]
  by (simp add: failure_of_execute)

lemma failure_of_tick:
  assumes ok: "economy_ok e" and adv: "advance_tick e = Inr e'"
  shows "failure_of e' k = (if failure_of e k \<noteq> None then failure_of e k
    else if (\<exists>st. dict_get (ec_stations e') k = Some st \<and> st_failed_once st) then Some (ec_tick e') else None)"
proof -
  obtain d where m: "mapE (\<lambda>(k, st). bindE (settle_tick (ec_rules e) (ec_tick e + 1) st) (\<lambda>st. Inr (k, st))) (ec_stations e) = Inr d"
    and d: "ec_stations e' = d" "ec_tick e' = ec_tick e + 1" using advance_tick_eq [OF ok] adv by auto
  show ?thesis
  proof (cases "dict_get (ec_stations e) k")
    case None
    with mapE_dict(3) [OF m] d show ?thesis by (simp add: failure_of_def)
  next
    case (Some st)
    obtain st' where s: "settle_tick (ec_rules e) (ec_tick e + 1) st = Inr st'" and g: "dict_get d k = Some st'"
      using mapE_dict(2) [OF m Some] by blast
    have "station_ok (ec_rules e) k st" using ok Some by (simp add: economy_ok_def roster_ok_def)
    then have first: "st_failed_once st \<longleftrightarrow> st_first_failure_tick st \<noteq> None" by (simp add: station_ok_def)
    have f: "st_failed_once st \<Longrightarrow> st_failed_once st'" "st_first_failure_tick st' =
        (if st_failed_once st \<or> \<not> st_failed_once st' then st_first_failure_tick st else Some (ec_tick e + 1))"
      by (rule settle_tick_Inr [OF s]; blast)+
    show ?thesis using Some g d first f by (auto simp: failure_of_def)
  qed
qed

lemma note_failures_get:
  assumes "dict_ok (ec_stations e)"
  shows "dict_get (note_failures e fa) k = (if dict_get fa k = None
      \<and> (\<exists>st. dict_get (ec_stations e) k = Some st \<and> st_failed_once st) then Some (ec_tick e) else dict_get fa k)"
proof -
  have "dict_ok d \<Longrightarrow> dict_get (fold (\<lambda>(sid, st) d. if st_failed_once st \<and> dict_get d sid = None
        then dict_set sid t d else d) d fa) k
      = (if dict_get fa k = None \<and> (\<exists>st. dict_get d k = Some st \<and> st_failed_once st) then Some t else dict_get fa k)" for d t
  proof (induction d arbitrary: fa)
    case (Cons x d)
    obtain k0 st where x: "x = (k0, st)" by (cases x)
    have "dict_ok d" "dict_get d k0 = None" using Cons.prems x by (auto simp: dict_ok_def map_of_eq_None_iff)
    with Cons.IH x show ?case by (auto simp: dict_get_set)
  qed simp
  from this [OF assms] show ?thesis by (simp add: note_failures_def)
qed

lemma note_failures_ok: "dict_ok fa \<Longrightarrow> dict_ok (note_failures e fa)"
  unfolding note_failures_def
  by (rule fold_invariant [where Q = "\<lambda>_. True"]) (auto simp: pyd.ok_put)

lemma recorded_tick:
  assumes "economy_ok e" and "advance_tick e = Inr e'" and "recorded e fa" and "economy_ok e'"
  shows "recorded e' (note_failures e' fa)"
proof -
  have "dict_ok (ec_stations e')" using assms(4) by (simp add: economy_ok_def roster_ok_def)
  then show ?thesis
    using assms(3) failure_of_tick [OF assms(1,2)] by (auto simp: recorded_def note_failures_ok note_failures_get)
qed

subsection \<open>Every player can look and move\<close>

definition company :: "economy \<Rightarrow> bool" where
  "company e \<longleftrightarrow> (\<exists>k k'. k \<noteq> k' \<and> known e k \<and> known e k')"

lemma observation_view:
  assumes ok: "economy_ok e" and k: "known e sid" and co: "company e"
  shows "\<exists>s. observation_for sid None RUNNING [] None e = Inr (s, e\<lparr>ec_sequence := ec_sequence e + 1\<rparr>)
    \<and> snapshot_ok s \<and> others_of s \<noteq> []"
proof -
  let ?e = "e\<lparr>ec_sequence := ec_sequence e + 1\<rparr>"
  obtain st where st: "station_at ?e sid = Inr st" using k by (auto simp: known_def station_at_def)
  obtain s where s: "observation_for sid None RUNNING [] None e = Inr (s, ?e)" "self_station_id s = sid"
      "offers s = filter (\<lambda>o'. visible_to sid (proposer_id o') (recipient_id o')) (ec_offers e)"
      "map dir_station_id (directory s) = map st_station_id (dict_values (ec_stations e))"
    using st by (simp add: observation_for_def comp_def)
  have view: "snapshot_ok s"
    using ok s(3) by (auto simp: snapshot_ok_def economy_ok_def offers_ok_def offer_ok_def distinct_map_filter)
  obtain k1 k2 where "k1 \<noteq> k2" "known e k1" "known e k2" using co by (auto simp: company_def)
  then obtain k' where "k' \<noteq> sid" "known e k'" by metis
  then obtain st' where k': "k' \<noteq> sid" "dict_get (ec_stations e) k' = Some st'" by (auto simp: known_def)
  have "st_station_id st' = k'" using ok k'(2) by (auto simp: economy_ok_def roster_ok_def station_ok_def)
  moreover have "st' \<in> set (dict_values (ec_stations e))" using k'(2) by (force dest: map_of_SomeD)
  ultimately have "k' \<in> set (map dir_station_id (directory s))" unfolding s(4) by auto
  then have "others_of s \<noteq> []" using k'(1) s(2) by (auto simp: others_of_def filter_empty_conv)
  with view s(1) show ?thesis by blast
qed

text \<open>What a turn leaves: the world stays well formed, with the same stations, tick and failures.\<close>

definition kept :: "economy \<Rightarrow> economy \<Rightarrow> bool" where
  "kept e e' \<longleftrightarrow> same_world e e' \<and> failure_of e' = failure_of e \<and> ec_tick e' = ec_tick e"

lemma kept_trans: "kept a b \<Longrightarrow> kept b c \<Longrightarrow> kept a c"
  by (simp add: kept_def same_world_def)

lemma kept_company: "kept e e' \<Longrightarrow> company e' = company e"
  by (simp add: kept_def same_world_def company_def)

lemma execute_kept:
  assumes "economy_ok e" and "execute sid a e = Inr (c, e')"
  shows "kept e e'"
proof -
  have "ec_tick e' = ec_tick e"
    using assms(2) by (auto simp: execute_def advertise_def post_offer_def withdraw_def accept_offer_def
        close_offer_def set_station_def count_command_def Let_def elim!: bindE_InrE
        split: option.splits action.splits if_splits)
  then show ?thesis using execute_same_world [OF assms] failure_of_execute [OF assms] by (simp add: kept_def)
qed

lemma apply_kept:
  assumes "economy_ok e" and "known e sid" and "apply_batch sid acts e = Inr e'"
  shows "kept e e'"
proof -
  have frames: "kept e x \<Longrightarrow> kept e (x\<lparr>ec_rejections := rj\<rparr>)" "kept e x \<Longrightarrow> kept e (x\<lparr>ec_world_version := v\<rparr>)" for x rj v
    by (simp_all add: kept_def same_world_def known_def)
  have "kept e e" by (simp add: kept_def)
  then show ?thesis
    by (rule apply_batch_keeps [where P = "kept e", OF assms(1,2) _ assms(3)])
       (auto intro: frames kept_trans execute_kept)
qed

locale players =
  fixes plays :: "'p \<Rightarrow> snapshot \<Rightarrow> (action list \<times> 'p) result" and fit :: "'p \<Rightarrow> bool"
  assumes plays_total: "fit p \<Longrightarrow> snapshot_ok s \<Longrightarrow> others_of s \<noteq> [] \<Longrightarrow> \<exists>acts p'. plays p s = Inr (acts, p') \<and> fit p'"
begin

lemma take_turns_ok:
  assumes "economy_ok e" and "company e" and "list_all (\<lambda>(k, p). known e k \<and> fit p) ps"
  shows "\<exists>ps' e'. take_turns plays ps e = Inr (ps', e') \<and> economy_ok e' \<and> kept e e'
    \<and> dict_keys ps' = dict_keys ps \<and> list_all (\<lambda>(k, p). fit p) ps'"
  using assms
proof (induction ps arbitrary: e)
  case Nil
  then show ?case by (simp add: kept_def)
next
  case (Cons x ps)
  obtain sid p where x: "x = (sid, p)" by (cases x)
  have k: "known e sid" and p: "fit p" using Cons.prems(3) x by auto
  then obtain st where st: "station_at e sid = Inr st" using station_at_known by blast
  have rest: "\<exists>ps' e'. take_turns plays ps e1 = Inr (ps', e') \<and> economy_ok e' \<and> kept e e'
      \<and> dict_keys ps' = dict_keys ps \<and> list_all (\<lambda>(k, p). fit p) ps'" if "economy_ok e1" "kept e e1" for e1
  proof -
    have "list_all (\<lambda>(k, p). known e1 k \<and> fit p) ps"
      using Cons.prems(3) that(2) by (auto simp: list_all_iff kept_def same_world_def)
    from Cons.IH [OF that(1) _ this] kept_company [OF that(2)] Cons.prems(2) kept_trans [OF that(2)] show ?thesis by blast
  qed
  show ?case
  proof (cases "st_failed_once st")
    case True
    from rest [OF Cons.prems(1)] obtain ps' e' where "take_turns plays ps e = Inr (ps', e')" "economy_ok e'" "kept e e'"
      "dict_keys ps' = dict_keys ps" "list_all (\<lambda>(k, p). fit p) ps'" by (auto simp: kept_def)
    with True x st p show ?thesis by simp
  next
    case False
    let ?e1 = "e\<lparr>ec_sequence := ec_sequence e + 1\<rparr>"
    obtain s where s: "observation_for sid None RUNNING [] None e = Inr (s, ?e1)" "snapshot_ok s" "others_of s \<noteq> []"
      using observation_view [OF Cons.prems(1) k Cons.prems(2)] by blast
    obtain acts p' where p': "plays p s = Inr (acts, p')" "fit p'" using plays_total [OF p s(2,3)] by blast
    have ok1: "economy_ok ?e1" "known ?e1 sid" "kept e ?e1"
      using Cons.prems(1) k by (simp_all add: known_def kept_def same_world_def)
    obtain e2 where e2: "apply_batch sid acts ?e1 = Inr e2" "economy_ok e2" using apply_batch_ok [OF ok1(1,2)] by blast
    have "kept e e2" by (rule kept_trans [OF ok1(3) apply_kept [OF ok1(1,2) e2(1)]])
    from rest [OF e2(2) this] obtain ps' e' where "take_turns plays ps e2 = Inr (ps', e')" "economy_ok e'" "kept e e'"
      "dict_keys ps' = dict_keys ps" "list_all (\<lambda>(k, p). fit p) ps'" by blast
    with False x st s(1) p' e2(1) show ?thesis by simp
  qed
qed

text \<open>The state between two ticks.\<close>

definition run_ok :: "string list \<Rightarrow> int \<Rightarrow> (string, 'p) pydict \<times> economy \<times> (string, int) pydict \<Rightarrow> bool" where
  "run_ok ids t w \<longleftrightarrow> (case w of (roster, e, fa) \<Rightarrow> economy_ok e \<and> company e \<and> recorded e fa \<and> ec_tick e = t
     \<and> dict_keys roster = ids \<and> list_all (\<lambda>(k, p). known e k \<and> fit p) roster)"

lemma run_tick_ok:
  assumes w: "run_ok ids t w" and pr: "\<And>t i. 0 \<le> produce t i"
  shows "\<exists>w'. run_tick plays produce n w = Inr w' \<and> run_ok ids (t + 1) w'"
proof -
  obtain roster e fa where split: "w = (roster, e, fa)" by (cases w)
  let ?e1 = "set_productions (produce (int n)) e"
  have ok: "economy_ok e" "company e" "recorded e fa" "ec_tick e = t" "dict_keys roster = ids"
      "list_all (\<lambda>(k, p). known e k \<and> fit p) roster" using w by (simp_all add: run_ok_def split)
  have ok1: "economy_ok ?e1" "same_world e ?e1" by (rule set_productions_ok [OF ok(1) pr])+
  have f1: "failure_of ?e1 k = failure_of e k" for k
    using set_productions_get(1) [of "produce (int n)" e k] set_productions_get(2) [of e k _ "produce (int n)"]
    by (cases "dict_get (ec_stations e) k") (auto simp: failure_of_def)
  have k1: "kept e ?e1" using ok1(2) f1 by (simp add: kept_def fun_eq_iff)
  have "list_all (\<lambda>(k, p). known ?e1 k \<and> fit p) roster" using ok(6) ok1(2) by (simp add: same_world_def)
  from take_turns_ok [OF ok1(1) _ this] kept_company [OF k1] ok(2) obtain roster' e2 where
    2: "take_turns plays roster ?e1 = Inr (roster', e2)" "economy_ok e2" "kept ?e1 e2" "dict_keys roster' = dict_keys roster"
      "list_all (\<lambda>(k, p). fit p) roster'" by blast
  have k2: "kept e e2" by (rule kept_trans [OF k1 2(3)])
  obtain e3 where 3: "advance_tick e2 = Inr e3" "economy_ok e3" using advance_tick_ok [OF 2(2)] by blast
  have sw: "same_world e2 e3" by (rule advance_tick_same_world [OF 2(2) 3(1)])
  have "ec_tick e3 = ec_tick e2 + 1" using advance_tick_eq [OF 2(2)] 3(1) by auto
  moreover have "recorded e2 fa" using ok(3) k2 by (simp add: recorded_def kept_def)
  from recorded_tick [OF 2(2) 3(1) this 3(2)] have "recorded e3 (note_failures e3 fa)" .
  moreover have known3: "known e3 k = known e k" for k using sw k2 by (simp add: kept_def same_world_def)
  then have "company e3" using ok(2) by (simp add: company_def)
  moreover have "list_all (\<lambda>(k, p). known e3 k \<and> fit p) roster'"
  proof -
    have "\<forall>k \<in> set (dict_keys roster'). known e3 k"
      using ok(6) known3 unfolding 2(4) by (auto simp: list_all_iff)
    with 2(5) show ?thesis by (auto simp: list_all_iff)
  qed
  ultimately show ?thesis
    using 2 3 ok k2 by (simp add: run_tick_def split run_ok_def kept_def)
qed

lemma run_ticks_ok:
  assumes "run_ok ids t w" and pr: "\<And>t i. 0 \<le> produce t i"
  shows "\<exists>w'. foldE (run_tick plays produce) ns w = Inr w' \<and> run_ok ids (t + int (length ns)) w'"
  using assms(1)
proof (induction ns arbitrary: t w)
  case (Cons n ns)
  obtain w1 where 1: "run_tick plays produce n w = Inr w1" "run_ok ids (t + 1) w1"
    using run_tick_ok [where produce = produce, OF Cons.prems pr] by blast
  have "t + 1 + int (length ns) = t + int (length (n # ns))" by simp
  with Cons.IH [OF 1(2)] 1(1) show ?case by auto
qed auto

end

interpretation sim: players act player_ok
  by unfold_locales (rule act_total)

subsection \<open>The two records of failure agree\<close>

lemma dict_same_keys:
  fixes d1 d2 :: "('k, 'v) pydict"
  assumes "dict_ok d1" and "dict_ok d2" and "\<And>k. dict_get d1 k = dict_get d2 k"
  shows "length d1 = length d2"
proof -
  have "set (dict_keys d) = {k. dict_get d k \<noteq> None}" for d :: "('k, 'v) pydict"
    by (auto simp: map_of_eq_None_iff)
  then have "set (dict_keys d1) = set (dict_keys d2)" using assms(3) by simp
  with distinct_card [of "dict_keys d1"] distinct_card [of "dict_keys d2"] assms(1,2) show ?thesis
    by (simp add: dict_ok_def)
qed

lemma score_economy_cong:
  assumes "dict_ok d1" and "dict_ok d2" and "\<And>k. dict_get d1 k = dict_get d2 k"
  shows "score_economy e ticks subject (Some d1) = score_economy e ticks subject (Some d2)"
proof -
  have "lived d1 ticks = lived d2 ticks" using assms(3) by (simp add: lived_def fun_eq_iff)
  moreover have len: "length d1 = length d2" by (rule dict_same_keys [OF assms])
  then have "d1 = [] \<longleftrightarrow> d2 = []" by (metis length_0_conv)
  ultimately show ?thesis using len assms(3) by (simp add: score_economy_def Let_def)
qed

lemma own_failures_ok: "dict_ok (ec_stations e) \<Longrightarrow> dict_ok (own_failures e)"
  by (simp add: own_failures_def dict_ok_def comp_def case_prod_unfold distinct_map_filter)

lemma recorded_score:
  assumes ok: "economy_ok (wo_economy w)" and "recorded (wo_economy w) (wo_failed_at w)"
  shows "world_score w subject = score_economy (wo_economy w) (wo_ticks w) subject None"
proof -
  let ?e = "wo_economy w" and ?fa = "map (\<lambda>(k, t). (k, Some t)) (wo_failed_at w)"
  have dok: "dict_ok (ec_stations ?e)" using ok by (simp add: economy_ok_def roster_ok_def)
  have "dict_get (map (\<lambda>(k, t). (k, Some t)) d) k = map_option Some (dict_get d k)" for d :: "(string, int) pydict" and k
    by (induction d) auto
  then have get: "dict_get ?fa k = map_option Some (failure_of ?e k)" for k
    using assms(2) by (simp add: recorded_def)
  have "dict_get ?fa k = dict_get (own_failures ?e) k" for k
  proof (cases "dict_get (ec_stations ?e) k")
    case (Some st)
    then have "station_ok (ec_rules ?e) k st" using ok by (simp add: economy_ok_def roster_ok_def)
    with Some show ?thesis unfolding get own_failures_get [OF dok] by (auto simp: failure_of_def station_ok_def)
  qed (simp add: get own_failures_get [OF dok] failure_of_def)
  moreover have "dict_ok ?fa" using assms(2) by (simp add: recorded_def dict_ok_def comp_def case_prod_unfold)
  ultimately have "world_score w subject = score_economy ?e (wo_ticks w) subject (Some (own_failures ?e))"
    unfolding world_score_def by (intro score_economy_cong own_failures_ok dok)
  then show ?thesis by (simp add: score_economy_def)
qed

subsection \<open>The opening\<close>

lemma opening_stations_ok:
  assumes "list_all (\<lambda>i. i < length stock) [n..<n + length ids]" and "\<forall>x \<in> set stock. 0 \<le> x" and "100 \<le> max_health rs"
  shows "\<exists>sts. mapE (\<lambda>(i, sid). if i < length stock
        then bindE (bundle_of (\<lambda>_. stock ! i)) (\<lambda>b. Inr (sim_station_new sid (specialty_of i) b 3))
        else Inl IndexError) (enumerate n ids) = Inr sts
    \<and> map st_station_id sts = ids \<and> (\<forall>st \<in> set sts. station_ok rs (st_station_id st) st \<and> \<not> st_failed_once st)"
  using assms(1)
proof (induction ids arbitrary: n)
  case (Cons sid ids)
  from Cons.prems have n: "n < length stock" and rest: "list_all (\<lambda>i. i < length stock) [Suc n..<Suc n + length ids]"
    by (simp_all add: upt_conv_Cons del: upt_Suc)
  then have "0 \<le> stock ! n" using assms(2) by simp
  then obtain b where "bundle_of (\<lambda>_. stock ! n) = Inr b" using bundle_of_nonneg [of "\<lambda>_. stock ! n"] by blast
  moreover have "station_ok rs sid (sim_station_new sid (specialty_of n) b 3)" "st_station_id (sim_station_new sid (specialty_of n) b 3) = sid"
      "\<not> st_failed_once (sim_station_new sid (specialty_of n) b 3)" for b
    using assms(3) by (simp_all add: sim_station_new_def station_ok_def)
  ultimately show ?case using Cons.IH [OF rest] n by auto
qed simp

lemma economy_init_known: "known (economy_init sts rs rid) k \<longleftrightarrow> k \<in> st_station_id ` set sts"
proof -
  have "dict_get (fold (\<lambda>st d. dict_set (st_station_id st) st d) sts []) k
      = (case find (\<lambda>x. st_station_id x = k) (rev sts) of None \<Rightarrow> None | Some x \<Rightarrow> Some x)"
    using pyd.get_fold_put [of st_station_id "\<lambda>x. x" sts "[]" k] by (simp split: option.splits)
  moreover have "find (\<lambda>x. st_station_id x = k) (rev sts) = None \<longleftrightarrow> k \<notin> st_station_id ` set sts"
    by (auto simp: find_None_iff)
  ultimately show ?thesis by (auto simp: known_def economy_init_def split: option.splits)
qed

lemma dict_set_subset: "set (dict_set k v d) \<subseteq> insert (k, v) (set d)" and dict_set_length: "length (dict_set k v d) \<le> Suc (length d)"
  by (induction d) auto

lemma roster_facts:
  assumes "list_all P xs" and "list_all (\<lambda>(k, p). P p) d"
  shows "list_all (\<lambda>(k, p). P p) (fold (\<lambda>(i, p). dict_set (f i) p) (enumerate n xs) d)
    \<and> length (fold (\<lambda>(i, p). dict_set (f i) p) (enumerate n xs) d) \<le> length d + length xs
    \<and> set (dict_keys (fold (\<lambda>(i, p). dict_set (f i) p) (enumerate n xs) d)) = set (dict_keys d) \<union> f ` {n..<n + length xs}"
  using assms
proof (induction xs arbitrary: n d)
  case (Cons x xs)
  have "list_all (\<lambda>(k, p). P p) (dict_set (f n) x d)"
    using Cons.prems dict_set_subset [of "f n" x d] by (auto simp: list_all_iff)
  moreover have "{n..<n + length (x # xs)} = insert n {Suc n..<Suc n + length xs}" by auto
  then have "f ` {n..<n + length (x # xs)} = insert (f n) (f ` {Suc n..<Suc n + length xs})" by (simp only: image_insert)
  ultimately show ?case
    using Cons.IH [of "dict_set (f n) x d" "Suc n"] Cons.prems(1) dict_set_length [of "f n" x d]
    by (auto simp: dict_keys_dict_set)
qed simp

lemma run_world_finishes:
  assumes "list_all player_ok ps" and "2 \<le> length ps" and "rules_ok rs" and "100 \<le> max_health rs"
    and "\<forall>p t i. production = Some p \<longrightarrow> 0 \<le> p t i"
    and "\<forall>xs. starting_stock = Some xs \<longrightarrow> length ps \<le> length xs \<and> (\<forall>x \<in> set xs. 0 \<le> x)"
  shows "\<exists>w. run_world act ps ticks phase_offset production starting_stock rs = Inr w
    \<and> economy_ok (wo_economy w) \<and> ec_tick (wo_economy w) = int ticks
    \<and> world_score w subject = score_economy (wo_economy w) (int ticks) subject None
    \<and> (\<forall>i<length ps. known (wo_economy w) (planet_id i))"
proof -
  define roster where "roster = fold (\<lambda>(i, p). dict_set (planet_id i) p) (enumerate 0 ps) []"
  define stock where "stock = (case starting_stock of None \<Rightarrow> replicate (length roster) 30
                   | Some xs \<Rightarrow> if xs = [] then replicate (length roster) 30 else xs)"
  define produce where "produce = (case production of None \<Rightarrow> run_two_production phase_offset | Some p \<Rightarrow> p)"
  have phases: "0 \<le> run_two_production phase_offset t i" for t i
  proof -
    have "nat ((t div PHASE_TICKS + i + phase_offset) mod 3) \<in> {0, 1, 2}" by auto
    then show ?thesis by (auto simp: run_two_production_def PHASES_def)
  qed
  have pr: "\<And>t i. 0 \<le> produce t i"
    using assms(5) phases by (auto simp: produce_def split: option.split)
  note rf = roster_facts [OF assms(1), of "[]" planet_id 0, folded roster_def, simplified]
  have fits: "list_all (\<lambda>(k, p). player_ok p) roster" and short: "length roster \<le> length ps" using rf by auto
  have "0 \<in> {0..<length ps}" "1 \<in> {0..<length ps}" using assms(2) by auto
  with rf have "planet_id 0 \<in> fst ` set roster" "planet_id 1 \<in> fst ` set roster" by (metis imageI)+
  moreover have "planet_id 0 \<noteq> planet_id 1" by code_simp
  ultimately have two: "\<exists>k k'. k \<noteq> k' \<and> k \<in> set (dict_keys roster) \<and> k' \<in> set (dict_keys roster)" by auto
  have "length roster \<le> length stock" "\<forall>x \<in> set stock. 0 \<le> x"
    using assms(2,6) short by (auto simp: stock_def split: option.split)
  then have "list_all (\<lambda>i. i < length stock) [0..<0 + length (dict_keys roster)]" by (simp add: list_all_iff)
  from opening_stations_ok [OF this \<open>\<forall>x \<in> set stock. 0 \<le> x\<close> assms(4)] obtain sts where
    sts: "opening_stations (dict_keys roster) stock = Inr sts" "map st_station_id sts = dict_keys roster"
      "\<forall>st \<in> set sts. station_ok rs (st_station_id st) st \<and> \<not> st_failed_once st"
    by (auto simp: opening_stations_def)
  let ?e = "economy_init sts rs ''sim''"
  have ok: "economy_ok ?e" using economy_init_ok assms(3) sts(3) by blast
  have known: "known ?e k \<longleftrightarrow> k \<in> set (dict_keys roster)" for k
    by (simp only: economy_init_known set_map flip: sts(2))
  have "failure_of ?e k = None" for k
    using sts(3) economy_init_station [of sts rs "''sim''" k] by (auto simp: failure_of_def split: option.split)
  then have "recorded ?e []" by (simp add: recorded_def)
  moreover have "list_all (\<lambda>(k, p). known ?e k \<and> player_ok p) roster"
    using fits by (force simp: known list_all_iff)
  moreover have "company ?e" using two by (simp add: company_def known)
  ultimately have "sim.run_ok (dict_keys roster) 0 (roster, ?e, [])"
    using ok by (simp add: sim.run_ok_def) (simp add: economy_init_def)
  from sim.run_ticks_ok [where ns = "[0..<ticks]" and produce = produce, OF this pr] obtain roster' e fa where
    f: "foldE (run_tick act produce) [0..<ticks] (roster, ?e, []) = Inr (roster', e, fa)"
      "sim.run_ok (dict_keys roster) (int ticks) (roster', e, fa)" by (auto simp: sim.run_ok_def)
  let ?w = "\<lparr>wo_economy = e, wo_roster = roster', wo_failed_at = fa, wo_ticks = int ticks\<rparr>"
  have "run_world act ps ticks phase_offset production starting_stock rs = Inr ?w"
    using sts(1) f(1) by (simp add: run_world_def Let_def flip: roster_def stock_def produce_def)
  moreover have "economy_ok e" "ec_tick e = int ticks" "recorded e fa" using f(2) by (simp_all add: sim.run_ok_def)
  moreover have "known e (planet_id i)" if "i < length ps" for i
  proof -
    have "planet_id i \<in> fst ` set roster" using rf that by (metis imageI atLeastLessThan_iff le0)
    then have "planet_id i \<in> set (dict_keys roster')" using f(2) by (simp add: sim.run_ok_def)
    then show ?thesis using f(2) by (auto simp: sim.run_ok_def list_all_iff)
  qed
  ultimately show ?thesis using recorded_score [of ?w subject] by auto
qed

lemma world_score_total:
  assumes "known (wo_economy w) sid"
  shows "\<exists>sc. world_score w (Some sid) = Inr sc"
proof -
  have "\<exists>t. lived (map (\<lambda>(k, t). (k, Some t)) (wo_failed_at w)) (wo_ticks w) k = Inr t" for k
  proof -
    have "dict_get (map (\<lambda>(k, t). (k, Some t)) fa) k = map_option Some (dict_get fa k)" for fa :: "(string, int) pydict"
      by (induction fa) auto
    then show ?thesis by (cases "dict_get (wo_failed_at w) k") (simp_all add: lived_def)
  qed
  then have "\<exists>ts. mapE (lived (map (\<lambda>(k, t). (k, Some t)) (wo_failed_at w)) (wo_ticks w))
      (dict_keys (ec_stations (wo_economy w))) = Inr ts" by (rule mapE_total)
  with assms show ?thesis by (auto simp: world_score_def score_economy_def Let_def station_at_def known_def)
qed

text \<open>
  C30: a simulated run always finishes. For two or more players, stock for each of them and production
  that is never negative, every tick of the run returns whatever the players do, the economy it ends in is
  well formed and has seen all its ticks, and the record of failures kept by the run gives the same score
  as the stations' own records.
\<close>

theorem world_runs_finish:
  assumes "list_all player_ok ps" and "2 \<le> length ps" and "rules_ok rs" and "100 \<le> max_health rs"
    and "\<forall>p t i. production = Some p \<longrightarrow> 0 \<le> p t i"
    and "\<forall>xs. starting_stock = Some xs \<longrightarrow> length ps \<le> length xs \<and> (\<forall>x \<in> set xs. 0 \<le> x)"
  shows "\<exists>w. run_world act ps ticks phase_offset production starting_stock rs = Inr w
    \<and> economy_ok (wo_economy w) \<and> ec_tick (wo_economy w) = int ticks
    \<and> world_score w subject = score_economy (wo_economy w) (int ticks) subject None"
  using run_world_finishes [OF assms] by blast

theorem world_runs_finish_witness:
  "\<exists>w. run_world act [our_policy, PassivePlayer] 5 0 None None DEFAULT_RULES = Inr w \<and> ec_tick (wo_economy w) = 5"
proof -
  have "list_all player_ok [our_policy, PassivePlayer]"
    by (simp add: our_policy_def strategy_player_new_def memory_ok_init)
  moreover have "rules_ok DEFAULT_RULES" "100 \<le> max_health DEFAULT_RULES" by (simp_all add: rules_ok_def DEFAULT_RULES_def)
  ultimately show ?thesis using world_runs_finish [of "[our_policy, PassivePlayer]" DEFAULT_RULES None None 5 0] by auto
qed

end
