(* ===== verification/Benchmark.thy ===== *)
theory Benchmark
  imports Sim_World Monitor
begin

text \<open>
  \<open>bazaar_sim/benchmark.py\<close>: strategies against baselines on matched cases. Python's generator
  \<open>random.Random\<close> is given; the conditions of a seed are \<open>seeded_conditions\<close> of \<open>bazaar_sim/world.py\<close>. The time a
  case took and the printed report are left out.
\<close>

text \<open>\<open>random.Random(seed)\<close>, \<open>randint\<close> (also \<open>randrange(n)\<close>, which is \<open>randint(0, n - 1)\<close>) with the state it
  leaves, and \<open>shuffle\<close>.\<close>

record 'g python_random =
  rg_seeded :: "int \<Rightarrow> 'g"
  rg_randint :: "int \<Rightarrow> int \<Rightarrow> 'g \<Rightarrow> int \<times> 'g"
  rg_shuffle :: "player list \<Rightarrow> 'g \<Rightarrow> player list"

fun draws :: "(int \<Rightarrow> int \<Rightarrow> 'g \<Rightarrow> int \<times> 'g) \<Rightarrow> int \<Rightarrow> int \<Rightarrow> nat \<Rightarrow> 'g \<Rightarrow> int list" where
  "draws randint low high 0 g = []"
| "draws randint low high (Suc n) g = (case randint low high g of (x, g) \<Rightarrow> x # draws randint low high n g)"

definition seeded_conditions :: "'g python_random \<Rightarrow> int \<Rightarrow> nat \<Rightarrow> int \<times> int list" where
  "seeded_conditions rng seed planets =
     (case rg_randint rng 0 (int (length PHASES) - 1) (rg_seeded rng seed) of
        (phase_offset, g) \<Rightarrow> (phase_offset, draws (rg_randint rng) 24 36 planets g))"

record bench_case =
  bc_scenario :: string
  bc_seed :: int
  bc_slot :: nat
  bc_planets :: nat
  bc_candidate :: string
  bc_ticks :: nat

definition FIELD_PLANETS :: nat where
  "FIELD_PLANETS = 9"

definition FIELDS :: "(string, player list) pydict" where
  "FIELDS = [(''run2-field'', run_two_opponents),
     (''fair-field'', replicate (FIELD_PLANETS - 1) (SmallFair (small_fair_new 3))),
     (''quitters'', replicate (FIELD_PLANETS - 1) (SmallFair quitter_new))]"

definition SELF_PLAY :: string where
  "SELF_PLAY = ''self-play-balanced''"

definition SCENARIOS :: "string list" where
  "SCENARIOS = dict_keys FIELDS @ [SELF_PLAY]"

definition CANDIDATES :: "(string, player) pydict" where
  "CANDIDATES = map (\<lambda>(name, st). (name, StrategyPlayer (strategy_player_new st))) STRATEGIES
     @ [(''small-fair'', SmallFair (small_fair_new 3)), (''greedy'', Greedy 0)]"

definition BASELINES :: "string list" where
  "BASELINES = [''passive'', ''small-fair'']"

definition build_cases :: "string list \<Rightarrow> int list \<Rightarrow> nat list \<Rightarrow> string list \<Rightarrow> nat list \<Rightarrow> nat \<Rightarrow> bench_case list" where
  "build_cases scenarios seeds slots candidates self_play_planets ticks =
     concat (map (\<lambda>scenario. concat (map (\<lambda>seed.
       if scenario = SELF_PLAY then
         concat (map (\<lambda>planets. map (\<lambda>c. \<lparr>bc_scenario = scenario, bc_seed = seed, bc_slot = 0, bc_planets = planets,
            bc_candidate = c, bc_ticks = ticks\<rparr>) candidates) self_play_planets)
       else
         concat (map (\<lambda>slot. map (\<lambda>c. \<lparr>bc_scenario = scenario, bc_seed = seed, bc_slot = slot,
            bc_planets = FIELD_PLANETS, bc_candidate = c, bc_ticks = ticks\<rparr>) candidates) slots)) seeds)) scenarios)"

record bench_row =
  br_case :: bench_case
  br_subject :: string
  br_score :: score
  br_failed :: "(string \<times> int) list"
  br_transactions :: nat

definition lookup :: "(string, 'a) pydict \<Rightarrow> string \<Rightarrow> 'a result" where
  "lookup d k = (case dict_get d k of None \<Rightarrow> Inl (KeyError k) | Some x \<Rightarrow> Inr x)"

definition case_setup :: "'g python_random \<Rightarrow> bench_case \<Rightarrow>
    (player list \<times> (int \<Rightarrow> int \<Rightarrow> int)) result" where
  "case_setup rng c =
     (if bc_scenario c = SELF_PLAY then
        bindE (lookup CANDIDATES (bc_candidate c)) (\<lambda>p.
        bindE (balanced_production (bc_planets c) 1 1 0) (\<lambda>production.
        Inr (replicate (bc_planets c) p, production)))
      else
        bindE (lookup FIELDS (bc_scenario c)) (\<lambda>opponents.
        bindE (lookup CANDIDATES (bc_candidate c)) (\<lambda>p.
        Inr (lineup p (rg_shuffle rng opponents (rg_seeded rng (bc_seed c))) (bc_slot c),
             run_two_production (fst (seeded_conditions rng (bc_seed c) (bc_planets c)))))))"

definition run_case :: "'g python_random \<Rightarrow> bench_case \<Rightarrow> bench_row result" where
  "run_case rng c =
     bindE (case_setup rng c) (\<lambda>(players, production).
     bindE (run_world act players (bc_ticks c) 0 (Some production) (Some (snd (seeded_conditions rng (bc_seed c) (bc_planets c))))
              DEFAULT_RULES) (\<lambda>w.
     let subject = planet_id (bc_slot c)
     in bindE (world_score w (Some subject)) (\<lambda>score.
        Inr \<lparr>br_case = c, br_subject = subject, br_score = score,
             br_failed = sort_key fst (wo_failed_at w),
             br_transactions = length (ec_transactions (wo_economy w))\<rparr>)))"

subsection \<open>The summary\<close>

record scenario_row =
  sr_scenario :: string
  sr_candidate :: string
  sr_runs :: nat
  sr_collective_successes :: nat
  sr_subject_survived :: nat
  sr_failed_runs :: nat
  sr_mean_survivors :: rat
  sr_mean_world_alive_ticks :: rat
  sr_min_world_alive_ticks :: int
  sr_mean_shortage_ticks :: rat

text \<open>\<open>round(statistics.mean(xs), d)\<close> of whole numbers.\<close>

definition round_to :: "nat \<Rightarrow> rat \<Rightarrow> rat" where
  "round_to d x = fl (of_int (round_half_even (x * 10 ^ d)) / 10 ^ d)"

definition mean_of :: "nat \<Rightarrow> int list \<Rightarrow> rat" where
  "mean_of d xs = round_to d (fl (of_int (sum_list xs) / of_nat (length xs)))"

definition append_to :: "'k \<Rightarrow> 'v \<Rightarrow> ('k, 'v list) pydict \<Rightarrow> ('k, 'v list) pydict" where
  "append_to k v d = dict_set k (dict_get_or [] d k @ [v]) d"

definition scenario_groups :: "bench_row list \<Rightarrow> (string \<times> string, bench_row list) pydict" where
  "scenario_groups rows = fold (\<lambda>r. append_to (bc_scenario (br_case r), bc_candidate (br_case r)) r) rows []"

definition summarize_group :: "(string \<times> string) \<times> bench_row list \<Rightarrow> scenario_row" where
  "summarize_group g = (case g of ((scenario, candidate), rows) \<Rightarrow>
     let scores = map br_score rows
     in \<lparr>sr_scenario = scenario, sr_candidate = candidate, sr_runs = length rows,
         sr_collective_successes = length (filter sc_collective_success scores),
         sr_subject_survived = length (filter (\<lambda>s. sc_subject_survived s = Some True) scores),
         sr_failed_runs = length (filter (\<lambda>s. \<not> sc_collective_success s) scores),
         sr_mean_survivors = mean_of 2 (map sc_survivors scores),
         sr_mean_world_alive_ticks = mean_of 1 (map sc_world_alive_ticks scores),
         sr_min_world_alive_ticks = Min (set (map sc_world_alive_ticks scores)),
         sr_mean_shortage_ticks = mean_of 1 (map sc_shortage_ticks scores)\<rparr>)"

type_synonym match_key = "string \<times> int \<times> nat \<times> nat"

definition matched_key :: "bench_case \<Rightarrow> match_key" where
  "matched_key c = (bc_scenario c, bc_seed c, bc_slot c, bc_planets c)"

definition rows_by_case :: "bench_row list \<Rightarrow> (match_key, (string, bench_row) pydict) pydict" where
  "rows_by_case rows = fold (\<lambda>r d.
     dict_set (matched_key (br_case r))
       (dict_set (bc_candidate (br_case r)) r (dict_get_or [] d (matched_key (br_case r)))) d) rows []"

record comparison =
  cp_candidate :: string
  cp_baseline :: string
  cp_wins :: nat
  cp_ties :: nat
  cp_losses :: nat

definition rank_pairs :: "string \<Rightarrow> string \<Rightarrow> (match_key, (string, bench_row) pydict) pydict \<Rightarrow> (score \<times> score) list" where
  "rank_pairs candidate baseline by_case = concat (map (\<lambda>matched.
     case (dict_get matched candidate, dict_get matched baseline) of
       (Some ours, Some theirs) \<Rightarrow> [(br_score ours, br_score theirs)]
     | _ \<Rightarrow> []) (dict_values by_case))"

definition compare_on :: "(match_key, (string, bench_row) pydict) pydict \<Rightarrow> string \<Rightarrow> string \<Rightarrow> comparison" where
  "compare_on by_case candidate baseline =
     (let ps = rank_pairs candidate baseline by_case
      in \<lparr>cp_candidate = candidate, cp_baseline = baseline,
          cp_wins = length (filter (\<lambda>(a, b). rank_key b < rank_key a) ps),
          cp_ties = length (filter (\<lambda>(a, b). rank_key a = rank_key b) ps),
          cp_losses = length (filter (\<lambda>(a, b). rank_key a < rank_key b) ps)\<rparr>)"

definition comparisons :: "bench_row list \<Rightarrow> comparison list" where
  "comparisons rows =
     (let by_case = rows_by_case rows;
          candidates = sorted_list_of_set (set (map (\<lambda>r. bc_candidate (br_case r)) rows))
      in concat (map (\<lambda>candidate. map (compare_on by_case candidate)
           (filter (\<lambda>baseline. baseline \<noteq> candidate \<and> baseline \<in> set candidates) BASELINES)) candidates))"

record bench_summary =
  bs_by_scenario :: "scenario_row list"
  bs_versus_baselines :: "comparison list"

definition summarize_rows :: "bench_row list \<Rightarrow> bench_summary" where
  "summarize_rows rows = \<lparr>bs_by_scenario = map summarize_group (sort_key fst (scenario_groups rows)),
     bs_versus_baselines = comparisons rows\<rparr>"

definition run_benchmark :: "'g python_random \<Rightarrow> bench_case list \<Rightarrow>
    (bench_row list \<times> bench_summary) result" where
  "run_benchmark rng cases =
     bindE (mapE (run_case rng) cases) (\<lambda>rows. Inr (rows, summarize_rows rows))"

text \<open>\<open>check\<close>: the fields of each recorded row that come out differently now.\<close>

definition row_problems :: "bench_row \<Rightarrow> bench_row \<Rightarrow> string list" where
  "row_problems row again =
     (if br_score again = br_score row then [] else [''score''])
     @ (if br_failed again = br_failed row then [] else [''failed''])
     @ (if br_transactions again = br_transactions row then [] else [''transactions''])"

definition check_rows :: "'g python_random \<Rightarrow> bench_row list \<Rightarrow>
    (nat \<times> (bench_case \<times> string) list) result" where
  "check_rows rng rows =
     bindE (mapE (\<lambda>row. bindE (run_case rng (br_case row)) (\<lambda>again.
       Inr (map (\<lambda>f. (br_case row, f)) (row_problems row again)))) rows) (\<lambda>pss. Inr (length rows, concat pss))"

end
