(* ===== verification/Benchmark_Facts.thy ===== *)
theory Benchmark_Facts
  imports Benchmark "HOL-Library.Multiset"
begin

text \<open>
  A benchmark of legal cases plays and scores every one of them, and a candidate is compared with a
  baseline on all of its cases.
\<close>

subsection \<open>Every case is scored\<close>













subsection \<open>Matched comparisons\<close>


definition case_of :: "nat \<Rightarrow> match_key \<Rightarrow> string \<Rightarrow> bench_case" where
  "case_of ticks k c = (case k of (sc, seed, slot, n) \<Rightarrow> \<lparr>bc_scenario = sc, bc_seed = seed, bc_slot = slot,
     bc_planets = n, bc_candidate = c, bc_ticks = ticks\<rparr>)"

lemma case_of_simps [simp]: "matched_key (case_of ticks k c) = k" "bc_candidate (case_of ticks k c) = c"
  by (simp_all add: case_of_def matched_key_def split: prod.splits)






lemma compare_on_candidate [simp]: "cp_candidate (compare_on by_case c b) = c"
  by (simp add: compare_on_def Let_def)





end
