(* ===== verification/Walkthrough_Facts.thy ===== *)
theory Walkthrough_Facts
  imports Walkthrough Demo
begin

text \<open>
  A walkthrough whose checks all passed certifies the documented exchange; without a gift it stops
  before its accept.
\<close>

subsection \<open>Checks are only added\<close>

definition checks_of :: "walker \<Rightarrow> walk_check set" where
  "checks_of w = set (wr_checks (wk_result w))"

definition adds_checks :: "'a walk \<Rightarrow> bool" where
  "adds_checks m \<longleftrightarrow> (\<forall>w. checks_of w \<subseteq> checks_of (snd (m w)))"

named_theorems adding \<open>operations of the walkthrough that keep the checks made so far\<close>

lemma adds_bind [adding]: "adds_checks m \<Longrightarrow> (\<And>x. adds_checks (f x)) \<Longrightarrow> adds_checks (bindW m f)"
  by (fastforce simp: adds_checks_def bindW_def split: prod.split sum.split)

lemma adds_basic [adding]:
  "adds_checks (returnW x)" "adds_checks (raiseW e)" "adds_checks (on_traderW g)" "adds_checks count_message"
  "adds_checks (observe_state s)" "adds_checks (confirm_record c)" "adds_checks (available s)"
  "adds_checks report_messages" "adds_checks (record_check st d p)"
  by (auto simp: adds_checks_def returnW_def raiseW_def on_traderW_def count_message_def observe_state_def
      confirm_record_def available_def report_messages_def record_check_def checks_of_def split: prod.split)

lemma adds_expect [adding]: "adds_checks (expect st d a b)"
  by (simp add: expect_def adding)

lemma adds_expect_messages [adding]: "adds_checks expect_messages"
  by (auto simp: expect_messages_def expect_def record_check_def adds_checks_def checks_of_def)

lemma adds_in_turn [adding]: "list_all adds_checks ms \<Longrightarrow> adds_checks (in_turn ms)"
  by (induction ms) (auto intro: adding)

lemma adds_the_result [adding]: "adds_checks (the_result x)"
  by (auto simp: the_result_def intro: adding split: option.split)

lemma adds_await [adding]: "adds_checks (await_state aw n)"
  by (simp add: await_state_def adding)

lemma adds_perform [adding]: "adds_checks (perform ex st a rid)"
  by (simp add: perform_def adding)

lemma adds_steps [adding]:
  "adds_checks (step_1_ready hs)" "adds_checks (step_2_advertise ex aw)"
  "adds_checks (step_3_replace_advertisement ex aw)" "adds_checks (step_4_offer ex aw)"
  "adds_checks (step_5_observe_acceptance aw)" "adds_checks (step_6_observe_gift aw)"
  "adds_checks (step_7_accept_gift ex aw oid)" "adds_checks (step_8_withdraw ex xn aw aid)"
  "adds_checks (step_9_request_limit ex)"
  by (auto simp: step_1_ready_def step_2_advertise_def step_3_replace_advertisement_def step_4_offer_def
      step_5_observe_acceptance_def step_6_observe_gift_def step_7_accept_gift_def step_8_withdraw_def
      step_9_request_limit_def checks_6_def Let_def split_beta intro!: adding split: option.split)

lemma adds_sync [adding]: "adds_checks (step_10_sync sy aw)"
proof -
  have "adds_checks (\<lambda>w. (Inr (), w\<lparr>wk_result := (wk_result w)\<lparr>wr_final_inventory := a,
        wr_transaction_count := b, wr_stored_results := c\<rparr>\<rparr>))" for a b c
    by (simp add: adds_checks_def checks_of_def)
  then show ?thesis by (auto simp: step_10_sync_def checks_10_def intro!: adding)
qed

subsection \<open>What a passed walkthrough says\<close>

lemma bindW_Inr:
  assumes "bindW m f w = (Inr y, w')"
  obtains x w1 where "m w = (Inr x, w1)" and "f x w1 = (Inr y, w')"
  using assms by (auto simp: bindW_def split: prod.splits sum.splits)

lemma adds_from: "adds_checks m \<Longrightarrow> m w = (r, w') \<Longrightarrow> c \<in> checks_of w \<Longrightarrow> c \<in> checks_of w'"
  unfolding adds_checks_def by fastforce

text \<open>Once a list of steps is through, each check among them has been made.\<close>

lemma check_made:
  assumes "in_turn ms w = (Inr (), w')" and "list_all adds_checks ms" and "record_check st d p \<in> set ms"
  shows "\<lparr>ck_step = st, ck_description = d, ck_passed = p\<rparr> \<in> checks_of w'"
  using assms
proof (induction ms arbitrary: w)
  case (Cons m ms)
  obtain w1 where 1: "m w = (Inr (), w1)" "in_turn ms w1 = (Inr (), w')"
    using Cons.prems(1) by (auto elim: bindW_Inr)
  show ?case
  proof (cases "m = record_check st d p")
    case True
    with 1(1) have "\<lparr>ck_step = st, ck_description = d, ck_passed = p\<rparr> \<in> checks_of w1"
      by (auto simp: record_check_def checks_of_def)
    moreover have "adds_checks (in_turn ms)" using Cons.prems(2) by (intro adding) simp
    ultimately show ?thesis using 1(2) adds_from by blast
  next
    case False
    with Cons.IH [OF 1(2)] Cons.prems show ?thesis by simp
  qed
qed simp

lemma step_6_state:
  assumes "step_6_observe_gift aw w = (Inr oid, w')"
  shows "\<exists>tr s tr'. aw 6 tr = (Inr s, tr') \<and> oid = (case gifts_in s of [] \<Rightarrow> '''' | g # _ \<Rightarrow> offer_id g)"
proof -
  obtain s w1 where "await_state aw 6 w = (Inr s, w1)" and oid: "oid = (case gifts_in s of [] \<Rightarrow> '''' | g # _ \<Rightarrow> offer_id g)"
    using assms unfolding step_6_observe_gift_def returnW_def by (elim bindW_Inr) auto
  then obtain tr' where "aw 6 (wk_trader w) = (Inr s, tr')"
    by (auto simp: await_state_def on_traderW_def observe_state_def elim!: bindW_Inr split: prod.splits)
  with oid show ?thesis by blast
qed

lemma step_6_gift:
  assumes "step_6_observe_gift aw w = (Inr oid, w')" and "\<forall>c \<in> checks_of w'. ck_passed c"
  shows "\<exists>tr s tr' g. aw 6 tr = (Inr s, tr') \<and> gifts_in s = [g] \<and> oid = offer_id g"
proof -
  obtain s w1 where 1: "await_state aw 6 w = (Inr s, w1)" "in_turn (checks_6 s) w1 = (Inr (), w')"
    and oid: "oid = (case gifts_in s of [] \<Rightarrow> '''' | g # _ \<Rightarrow> offer_id g)"
    using assms(1) unfolding step_6_observe_gift_def returnW_def by (elim bindW_Inr) auto
  have "list_all adds_checks (checks_6 s)" by (simp add: checks_6_def adding)
  from check_made [OF 1(2) this, of "''6''" "''P02 offered a gift of one component''"]
  have "\<lparr>ck_step = ''6'', ck_description = ''P02 offered a gift of one component'', ck_passed =
      length (gifts_in s) = 1 \<and> give (hd (gifts_in s)) = Bundle 0 0 1 \<and> is_zero (receive (hd (gifts_in s)))\<rparr> \<in> checks_of w'"
    by (simp add: checks_6_def)
  with assms(2) have "length (gifts_in s) = 1" by fastforce
  then obtain g where g: "gifts_in s = [g]" by (auto simp: length_Suc_conv)
  obtain tr' where "aw 6 (wk_trader w) = (Inr s, tr')"
    using 1(1) by (auto simp: await_state_def on_traderW_def observe_state_def elim!: bindW_Inr split: prod.splits)
  with g oid show ?thesis by auto
qed

lemma step_10_result:
  assumes "step_10_sync sy aw w = (Inr u, w')" and "\<forall>c \<in> checks_of w'. ck_passed c"
  shows "wr_final_inventory (wk_result w') = Some EXPECTED_FINAL_INVENTORY \<and> wr_transaction_count (wk_result w') = 2
    \<and> wr_stored_results (wk_result w') = 5"
proof -
  obtain s w3 w4 where 4: "in_turn (checks_10 s) w3 = (Inr (), w4)"
    and w': "w' = w4\<lparr>wk_result := (wk_result w4)\<lparr>wr_final_inventory := Some (inventory (me s)),
        wr_transaction_count := length (transactions s), wr_stored_results := length (request_results s)\<rparr>\<rparr>"
    using assms(1) unfolding step_10_sync_def by (elim bindW_Inr) auto
  have ms: "list_all adds_checks (checks_10 s)" by (simp add: checks_10_def adding)
  have passed: "p" if "record_check ''10'' d p \<in> set (checks_10 s)" for d p
    using check_made [OF 4 ms that] assms(2) w' by (fastforce simp: checks_of_def)
  have "inventory (me s) = EXPECTED_FINAL_INVENTORY"
    by (rule passed [of "''final inventory''"]) (simp add: checks_10_def expect_def)
  moreover have "length (transactions s) = 2"
    by (rule passed [of "''two transactions''"]) (simp add: checks_10_def expect_def)
  moreover have "length (request_results s) = 5"
    by (rule passed [of "''five stored command results''"]) (simp add: checks_10_def expect_def)
  ultimately show ?thesis using w' by simp
qed

subsection \<open>Messages\<close>

definition sends :: "int \<Rightarrow> 'a walk \<Rightarrow> bool" where
  "sends n m \<longleftrightarrow> (\<forall>w x w'. m w = (Inr x, w') \<longrightarrow> wk_sent w' = wk_sent w + n)"

named_theorems sending \<open>how many messages an operation of the walkthrough counts\<close>

lemma sends_bind: "sends n m \<Longrightarrow> (\<And>x. sends k (f x)) \<Longrightarrow> sends (n + k) (bindW m f)"
  by (fastforce simp: sends_def elim: bindW_Inr)

lemma sends_after: "sends 0 m \<Longrightarrow> (\<And>x. sends n (f x)) \<Longrightarrow> sends n (bindW m f)"
  using sends_bind [of 0 m n f] by simp

lemma sends_first: "sends 1 m \<Longrightarrow> (\<And>x. sends 0 (f x)) \<Longrightarrow> sends 1 (bindW m f)"
  using sends_bind [of 1 m 0 f] by simp

lemma sends_silent [sending]: "sends 0 m \<Longrightarrow> (\<And>x. sends 0 (f x)) \<Longrightarrow> sends 0 (bindW m f)"
  by (rule sends_after)

lemma sends_count: "sends 1 count_message"
  by (simp add: sends_def count_message_def)

lemma sends_none [sending]:
  "sends 0 (returnW x)" "sends 0 (raiseW e)" "sends 0 (on_traderW g)"
  "sends 0 (observe_state s)" "sends 0 (confirm_record c)" "sends 0 (available s)"
  "sends 0 report_messages" "sends 0 (record_check st d p)" "sends 0 (expect st d a b)" "sends 0 expect_messages"
  by (auto simp: sends_def returnW_def raiseW_def on_traderW_def observe_state_def expect_def
      confirm_record_def available_def report_messages_def record_check_def expect_messages_def split: prod.splits)

lemma sends_in_turn [sending]: "list_all (sends 0) ms \<Longrightarrow> sends 0 (in_turn ms)"
  by (induction ms) (auto intro: sending)

lemma sends_no_call [sending]: "sends 0 (the_result x)" "sends 0 (await_state aw n)"
  by (auto simp: the_result_def await_state_def intro!: sending split: option.split)

lemma sends_perform: "sends 1 (perform ex st a rid)"
  unfolding perform_def by (rule sends_after, rule sends_none, rule sends_first, rule sends_count, rule sends_none)

lemma sends_step_1: "sends 1 (step_1_ready hs)"
proof -
  have "sends 1 (in_turn (count_message # ms))" if "list_all (sends 0) ms" for ms
    unfolding in_turn.simps by (rule sends_first [OF sends_count]) (rule sends_in_turn [OF that])
  then show ?thesis unfolding step_1_ready_def Let_def split_beta
    by (intro sends_after sends_none) (simp add: sending del: in_turn.simps)
qed

lemma sends_steps:
  "sends 1 (step_2_advertise ex aw)" "sends 1 (step_3_replace_advertisement ex aw)"
  "sends 1 (step_4_offer ex aw)" "sends 1 (step_7_accept_gift ex aw oid)"
  "sends 1 (step_8_withdraw ex xn aw aid)" "sends 1 (step_9_request_limit ex)"
  unfolding step_2_advertise_def step_3_replace_advertisement_def step_4_offer_def step_7_accept_gift_def
    step_8_withdraw_def step_9_request_limit_def
  by (rule sends_first, rule sends_perform, auto intro!: sending split: option.split)+

lemma sends_looks: "sends 0 (step_5_observe_acceptance aw)" "sends 0 (step_6_observe_gift aw)"
  by (auto simp: step_5_observe_acceptance_def step_6_observe_gift_def checks_6_def intro!: sending)

lemma sends_sync: "sends 1 (step_10_sync sy aw)"
proof -
  have "sends 0 (\<lambda>w. (Inr (), w\<lparr>wk_result := (wk_result w)\<lparr>wr_final_inventory := a,
        wr_transaction_count := b, wr_stored_results := c\<rparr>\<rparr>))" for a b c
    by (simp add: sends_def)
  moreover have "list_all (sends 0) (checks_10 s)" for s by (simp add: checks_10_def sending)
  ultimately show ?thesis unfolding step_10_sync_def
    by (intro sends_after sends_none sends_first [OF sends_count] sends_silent sends_in_turn sends_no_call)
qed

lemma script_parts:
  assumes "run_script hs ex xn aw sy w0 = (Inr r, w)"
  shows "\<exists>oid w5 w6. step_6_observe_gift aw w5 = (Inr oid, w6) \<and> checks_of w6 \<subseteq> checks_of w \<and> r = wk_result w
    \<and> (oid \<noteq> '''' \<longrightarrow> (\<exists>w9 w10 u. step_10_sync sy aw w9 = (Inr u, w10) \<and> wk_sent w10 = wk_sent w0 + 8
         \<and> in_turn [report_messages, expect_messages] w10 = (Inr (), w)))"
proof -
  let ?rest = "\<lambda>oid aid. if oid = '''' then report_messages
            else in_turn [step_7_accept_gift ex aw oid, step_8_withdraw ex xn aw aid, step_9_request_limit ex,
                          step_10_sync sy aw, report_messages, expect_messages]"
  obtain u1 w1 u2 w2 aid w3 u4 w4 u5 w5 oid w6 u w' where
    s: "step_1_ready hs w0 = (Inr u1, w1)" "step_2_advertise ex aw w1 = (Inr u2, w2)"
      "step_3_replace_advertisement ex aw w2 = (Inr aid, w3)" "step_4_offer ex aw w3 = (Inr u4, w4)"
      "step_5_observe_acceptance aw w4 = (Inr u5, w5)" "step_6_observe_gift aw w5 = (Inr oid, w6)"
    and rest: "?rest oid aid w6 = (Inr u, w)" and r: "r = wk_result w"
    using assms unfolding run_script_def by (elim bindW_Inr) blast
  have sent: "wk_sent w6 = wk_sent w0 + 4"
    using s sends_step_1 sends_steps(1-3) sends_looks unfolding sends_def by fastforce
  have "adds_checks (?rest oid aid)" by (auto intro!: adding)
  then have more: "checks_of w6 \<subseteq> checks_of w" using rest unfolding adds_checks_def by fastforce
  have "\<exists>w9 w10 u. step_10_sync sy aw w9 = (Inr u, w10) \<and> wk_sent w10 = wk_sent w0 + 8
         \<and> in_turn [report_messages, expect_messages] w10 = (Inr (), w)" if "oid \<noteq> ''''"
  proof -
    from that rest have "bindW (step_7_accept_gift ex aw oid) (\<lambda>_. bindW (step_8_withdraw ex xn aw aid) (\<lambda>_.
        bindW (step_9_request_limit ex) (\<lambda>_. bindW (step_10_sync sy aw) (\<lambda>_.
        in_turn [report_messages, expect_messages])))) w6 = (Inr u, w)" by simp
    then obtain u7 w7 u8 w8 u9 w9 u10 w10 where
      t: "step_7_accept_gift ex aw oid w6 = (Inr u7, w7)" "step_8_withdraw ex xn aw aid w7 = (Inr u8, w8)"
        "step_9_request_limit ex w8 = (Inr u9, w9)" "step_10_sync sy aw w9 = (Inr u10, w10)"
      and last: "in_turn [report_messages, expect_messages] w10 = (Inr u, w)"
      by (elim bindW_Inr) blast
    have "wk_sent w10 = wk_sent w6 + 4"
      using t sends_steps(4-6) sends_sync unfolding sends_def by fastforce
    with sent have "wk_sent w10 = wk_sent w0 + 8" by simp
    with t(4) last show ?thesis by (intro exI conjI) (simp_all del: in_turn.simps)
  qed
  with s(6) more r show ?thesis by blast
qed

lemma final_check:
  assumes "in_turn [report_messages, expect_messages] w10 = (Inr (), w)"
  shows "wr_messages_sent (wk_result w) = wk_sent w10"
    and "wr_final_inventory (wk_result w) = wr_final_inventory (wk_result w10)"
    and "wr_transaction_count (wk_result w) = wr_transaction_count (wk_result w10)"
    and "wr_stored_results (wk_result w) = wr_stored_results (wk_result w10)"
    and "checks_of w = insert \<lparr>ck_step = ''totals'', ck_description = ''messages sent'',
      ck_passed = (wk_sent w10 = EXPECTED_MESSAGES_SENT)\<rparr> (checks_of w10)"
  using assms by (auto simp: bindW_def returnW_def report_messages_def expect_messages_def expect_def
      record_check_def checks_of_def)

text \<open>A script that gets to its end counts its own eight calls, so the check of the total cannot fail.\<close>

lemma total_check_passes:
  assumes "run_script hs ex xn aw sy w0 = (Inr r, w)" and "wk_sent w0 = 0"
    and "\<lparr>ck_step = ''totals'', ck_description = ''messages sent'', ck_passed = p\<rparr> \<in> set (wr_checks r)"
    and "\<forall>w5 oid w6. step_6_observe_gift aw w5 = (Inr oid, w6) \<longrightarrow> oid \<noteq> ''''"
  shows "wr_messages_sent r = 8"
proof -
  from script_parts [OF assms(1)] assms(4) obtain w10 where "wk_sent w10 = wk_sent w0 + 8"
    "in_turn [report_messages, expect_messages] w10 = (Inr (), w)" "r = wk_result w" by blast
  with assms(2) final_check(1) show ?thesis by simp
qed

text \<open>C23: A walkthrough whose checks all passed went through the whole exchange: it found the gift, counted
  eight messages and ended with the documented stock, trades and stored results. This holds whatever the
  session answers, if every offer in a state has an id.\<close>

theorem passed_walkthrough_certifies:
  assumes "run_script hs ex xn aw sy w0 = (Inr r, w)" and "walk_ok r" and "wk_sent w0 = 0"
    and "\<forall>n tr s tr'. aw n tr = (Inr s, tr') \<longrightarrow> (\<forall>o' \<in> set (offers s). offer_id o' \<noteq> '''')"
  shows "wr_final_inventory r = Some EXPECTED_FINAL_INVENTORY \<and> wr_transaction_count r = 2
    \<and> wr_stored_results r = 5 \<and> wr_messages_sent r = EXPECTED_MESSAGES_SENT"
proof -
  obtain oid w5 w6 where 6: "step_6_observe_gift aw w5 = (Inr oid, w6)" "checks_of w6 \<subseteq> checks_of w" "r = wk_result w"
    and rest: "oid \<noteq> '''' \<longrightarrow> (\<exists>w9 w10 u. step_10_sync sy aw w9 = (Inr u, w10) \<and> wk_sent w10 = wk_sent w0 + 8
         \<and> in_turn [report_messages, expect_messages] w10 = (Inr (), w))"
    using script_parts [OF assms(1)] by blast
  have all: "\<forall>c \<in> checks_of w. ck_passed c" using assms(2) 6(3) by (simp add: walk_ok_def checks_of_def)
  with 6(2) step_6_gift [OF 6(1)] obtain tr s tr' g where
    g: "aw 6 tr = (Inr s, tr')" "gifts_in s = [g]" "oid = offer_id g" by blast
  have "g \<in> set (gifts_in s)" using g(2) by simp
  then have "g \<in> set (offers s)" by (simp add: gifts_in_def incoming_open_offers_def)
  with assms(4) [rule_format, OF g(1)] g(3) have "oid \<noteq> ''''" by simp
  with rest obtain w9 w10 u where 10: "step_10_sync sy aw w9 = (Inr u, w10)" "wk_sent w10 = wk_sent w0 + 8"
    "in_turn [report_messages, expect_messages] w10 = (Inr (), w)" by blast
  have "checks_of w10 \<subseteq> checks_of w" using final_check(5) [OF 10(3)] by blast
  with all have "\<forall>c \<in> checks_of w10. ck_passed c" by blast
  from step_10_result [OF 10(1) this] final_check [OF 10(3)] 10(2) assms(3) 6(3)
  show ?thesis by (simp add: EXPECTED_MESSAGES_SENT_def)
qed

text \<open>Without a gift nothing is accepted: what executing an accept would do makes no difference.\<close>

lemma no_gift_no_accept:
  assumes "\<forall>tr s tr'. aw 6 tr = (Inr s, tr') \<longrightarrow> gifts_in s = []"
    and "\<forall>a rid step. (\<nexists>oid. a = AcceptAction oid) \<longrightarrow> ex' a rid step = ex a rid step"
  shows "run_script hs ex' xn aw sy w0 = run_script hs ex xn aw sy w0"
proof -
  have same: "perform ex' step a rid = perform ex step a rid" if "\<nexists>oid. a = AcceptAction oid" for step a rid
    using assms(2) that by (simp add: perform_def)
  have early: "step_2_advertise ex' aw = step_2_advertise ex aw"
    "step_3_replace_advertisement ex' aw = step_3_replace_advertisement ex aw" "step_4_offer ex' aw = step_4_offer ex aw"
    by (simp_all add: step_2_advertise_def step_3_replace_advertisement_def step_4_offer_def same)
  have "oid = ''''" if "step_6_observe_gift aw w = (Inr oid, w')" for w oid w'
  proof -
    from step_6_state [OF that] obtain tr s tr' where "aw 6 tr = (Inr s, tr')"
      "oid = (case gifts_in s of [] \<Rightarrow> '''' | g # _ \<Rightarrow> offer_id g)" by blast
    with assms(1) [rule_format, OF this(1)] show ?thesis by simp
  qed
  then have "bindW (step_6_observe_gift aw) (\<lambda>oid. bindW (if oid = '''' then report_messages else f oid) g)
      = bindW (step_6_observe_gift aw) (\<lambda>oid. bindW (if oid = '''' then report_messages else f' oid) g)"
    for f f' :: "string \<Rightarrow> unit walk" and g :: "unit \<Rightarrow> walk_result walk"
    by (auto simp: bindW_def fun_eq_iff split: prod.splits sum.splits)
  then have "bindW (step_6_observe_gift aw) (\<lambda>oid. bindW (if oid = '''' then report_messages
        else in_turn [step_7_accept_gift ex' aw oid, step_8_withdraw ex' xn aw aid, step_9_request_limit ex',
                      step_10_sync sy aw, report_messages, expect_messages]) (\<lambda>_ w. (Inr (wk_result w), w)))
    = bindW (step_6_observe_gift aw) (\<lambda>oid. bindW (if oid = '''' then report_messages
        else in_turn [step_7_accept_gift ex aw oid, step_8_withdraw ex xn aw aid, step_9_request_limit ex,
                      step_10_sync sy aw, report_messages, expect_messages]) (\<lambda>_ w. (Inr (wk_result w), w)))" for aid
    by this
  then show ?thesis unfolding run_script_def early by (simp only:)
qed

subsection \<open>A walkthrough that passes\<close>

definition practice_state :: "int \<Rightarrow> snapshot" where
  "practice_state n =
     (let ours = demo_offer ''offer-1'' ''P01'' ''P02'' (Bundle 2 0 0) (Bundle 0 1 0);
          gift = demo_offer ''offer-2'' ''P02'' ''P01'' (Bundle 0 0 1) (Bundle 0 0 0);
          peer = demo_ad ''P02'' {FOOD} {WATER};
          trade = \<lparr>transaction_id = ''t'', txn_offer_id = ''offer-1'', txn_proposer_id = ''P01'', txn_recipient_id = ''P02'',
             txn_give = Bundle 2 0 0, txn_receive = Bundle 0 1 0, settled_tick = 9, settled_version = 6\<rparr>;
          answer = \<lparr>request_id = ''r'', ok = True, code = RES_OK, processed_tick = 9, processed_version = 6,
             object_id = None, res_transaction_id = None, retry_after_tick = None\<rparr>;
          s = demo_snapshot demo_rules
            (if n \<le> 4 then Bundle 30 30 30 else if n \<le> 6 then Bundle 28 31 30 else Bundle 28 31 31)
            (if n = 4 then [ours] else if n = 5 then [ours\<lparr>offer_status := ACCEPTED\<rparr>]
             else if n = 6 then [ours\<lparr>offer_status := ACCEPTED\<rparr>, gift] else [])
            (if n = 2 then [demo_ad ''P01'' {WATER} {FOOD}, peer]
             else if 3 \<le> n \<and> n \<le> 7 then [demo_ad ''P01'' {} {COMPONENTS}, peer] else [peer])
      in s\<lparr>snapshot_sequence := n, world_version := (if n = 9 then 9 else n + 1),
           transactions := (if n \<le> 4 then [] else if n \<le> 6 then [trade] else [trade, trade]),
           request_results := (if n = 9 then replicate 5 answer else []),
           me := (me s)\<lparr>imported_total := Bundle 0 1 1, exported_total := Bundle 2 0 0\<rparr>\<rparr>)"

definition practice_answer :: "string \<Rightarrow> session_outcome" where
  "practice_answer rid =
     (if rid = ADVERTISE_2
      then \<lparr>so_request_id = rid, so_result = None, so_error = Some \<lparr>err_run_id = None, err_request_id = Some rid,
              err_code = REQUEST_CAPACITY_EXCEEDED, close_session = False\<rparr>\<rparr>
      else \<lparr>so_request_id = rid, so_result = Some \<lparr>request_id = rid, ok = True, code = RES_OK, processed_tick = 9,
              processed_version = 6, object_id = Some ''object-1'', res_transaction_id = Some ''t'',
              retry_after_tick = None\<rparr>, so_error = None\<rparr>)"

definition practice_ack :: readiness_ack where
  "practice_ack = \<lparr>ack_run_id = ''run-1'', ack_ready = True, ack_snapshot_sequence = 1\<rparr>"

definition practice_hs :: handshake_call where
  "practice_hs tr = (Inr (practice_state 1, practice_ack), tr)"

definition practice_ex :: execute_call where
  "practice_ex a rid step tr = (Inr (practice_answer rid), tr)"

definition practice_xn :: no_id_call where
  "practice_xn tr = (Inl (Raised AttributeError), tr)"

definition practice_aw :: await_call where
  "practice_aw n tr = (Inr (practice_state n), tr)"

definition practice_sy :: sync_call where
  "practice_sy tr = (Inr (), tr)"

text \<open>Nothing is in flight, and every check so far passed.\<close>

definition calm :: "walker \<Rightarrow> bool" where
  "calm w \<longleftrightarrow> walk_ok (wk_result w) \<and> tr_commitments (wk_trader w) = tracker_init
     \<and> tr_last_record (wk_trader w) = None"

definition passes :: "'a \<Rightarrow> 'a walk \<Rightarrow> bool" where
  "passes x m \<longleftrightarrow> (\<forall>w. calm w \<longrightarrow> (\<exists>w'. m w = (Inr x, w') \<and> calm w'))"

lemma passes_bind: "passes x m \<Longrightarrow> passes y (f x) \<Longrightarrow> passes y (bindW m f)"
  unfolding passes_def bindW_def by fastforce

lemma passes_basic:
  "passes x (returnW x)" "passes () count_message" "passes () (confirm_record c)" "passes () report_messages"
  "passes (practice_state n) (await_state practice_aw n)" "passes (practice_answer rid) (perform practice_ex st a rid)"
  "passes (practice_state 1, practice_ack) (on_traderW practice_hs)" "passes () (on_traderW practice_sy)"
  "passes s (observe_state s)"
  "passes (available_to_commit tracker_init s) (available s)"
  by (auto simp: passes_def calm_def returnW_def count_message_def confirm_record_def report_messages_def
      await_state_def perform_def on_traderW_def bindW_def practice_aw_def practice_ex_def practice_hs_def
      practice_sy_def observe_state_def available_def confirm_last_def walk_ok_def)

lemma passes_record: "p \<Longrightarrow> passes () (record_check st d p)"
  by (simp add: passes_def calm_def record_check_def walk_ok_def)

lemma passes_in_turn: "list_all (passes ()) ms \<Longrightarrow> passes () (in_turn ms)"
  by (induction ms) (auto intro: passes_basic passes_bind)

lemma passes_result: "rid \<noteq> ADVERTISE_2 \<Longrightarrow> so_result (practice_answer rid) = Some r \<Longrightarrow> passes r (the_result (practice_answer rid))"
  by (simp add: the_result_def passes_basic)

lemma passes_checks: "p \<Longrightarrow> passes () (in_turn ms) \<Longrightarrow> passes () (in_turn (record_check st d p # ms))"
  "a = b \<Longrightarrow> passes () (in_turn ms) \<Longrightarrow> passes () (in_turn (expect st d a b # ms))"
  "passes () (in_turn ms) \<Longrightarrow> passes () (in_turn (confirm_record c # ms))"
  "passes () (in_turn ms) \<Longrightarrow> passes () (in_turn (count_message # ms))"
  "passes () (in_turn [])"
  by (auto intro!: passes_bind passes_record passes_basic simp: expect_def)

lemmas passing = passes_bind [OF passes_basic(5)] passes_bind [OF passes_basic(6)] passes_bind [OF passes_basic(8)]
  passes_bind [OF passes_basic(2)] passes_bind [OF passes_basic(10)] passes_bind [OF passes_record] passes_checks

lemma passes_step_1: "passes () (step_1_ready practice_hs)"
  unfolding step_1_ready_def Let_def
  by (rule passes_bind [OF passes_basic(7)], simp only: prod.case, rule passes_bind [OF passes_basic(9)])
    (intro passing; code_simp)

lemma answered: "\<exists>r. so_result (practice_answer rid) = Some r \<and> request_id r = rid \<and> object_id r = Some ''object-1''
    \<and> passes r (the_result (practice_answer rid))" if "rid \<noteq> ADVERTISE_2"
  using that by (simp add: practice_answer_def the_result_def passes_basic)

lemma passes_step_2: "passes () (step_2_advertise practice_ex practice_aw)"
proof -
  obtain r where id: "request_id r = ADVERTISE_1" and r: "passes r (the_result (practice_answer ADVERTISE_1))"
    using answered [of ADVERTISE_1] by (auto simp: ADVERTISE_1_def ADVERTISE_2_def)
  show ?thesis unfolding step_2_advertise_def expect_def
    apply (intro passing(1-6) passes_bind [OF r])
    subgoal by code_simp
    subgoal by (fact id)
    by (intro passing; code_simp)
qed

lemma passes_step_3: "passes (Some ''object-1'') (step_3_replace_advertisement practice_ex practice_aw)"
proof -
  obtain r where id: "object_id r = Some ''object-1''" and r: "passes r (the_result (practice_answer ADVERTISE_SEEKING))"
    using answered [of ADVERTISE_SEEKING] by (auto simp: ADVERTISE_SEEKING_def ADVERTISE_2_def)
  show ?thesis unfolding step_3_replace_advertisement_def
    apply (intro passing(1-6))
    subgoal by code_simp
    apply (rule passes_bind [where x = "()"], (intro passing; code_simp))
    by (intro passing(6) passes_bind [OF r], simp add: id, simp only: id passes_basic(1))
qed

lemma passes_step_4: "passes () (step_4_offer practice_ex practice_aw)"
  unfolding step_4_offer_def
  apply (intro passing(1-6))
  subgoal by code_simp
  apply (rule passes_bind [where x = "()"], (intro passing; code_simp))
  unfolding expect_def by (intro passing(5) passes_record) code_simp

lemma passes_step_5: "passes () (step_5_observe_acceptance practice_aw)"
  unfolding step_5_observe_acceptance_def
  apply (intro passing(1))
  apply (rule passes_bind [where x = "()"], (intro passing; code_simp))
  by (intro passing(5) passes_record) code_simp

lemma passes_step_6: "passes ''offer-2'' (step_6_observe_gift practice_aw)"
proof -
  have "(case gifts_in (practice_state 6) of [] \<Rightarrow> '''' | g # _ \<Rightarrow> offer_id g) = ''offer-2''" by code_simp
  then have found: "passes ''offer-2'' (returnW (case gifts_in (practice_state 6) of [] \<Rightarrow> '''' | g # _ \<Rightarrow> offer_id g))"
    by (simp only: passes_basic)
  show ?thesis unfolding step_6_observe_gift_def checks_6_def
    apply (intro passing(1))
    by (rule passes_bind [where x = "()"], (intro passing; code_simp)) (rule found)
qed

lemma passes_step_7: "passes () (step_7_accept_gift practice_ex practice_aw ''offer-2'')"
  unfolding step_7_accept_gift_def
  apply (intro passing(2))
  apply (rule passes_bind [where x = "()"], (intro passing; code_simp))
  by (intro passing; code_simp)

lemma passes_step_8: "passes () (step_8_withdraw practice_ex practice_xn practice_aw (Some ''object-1''))"
  unfolding step_8_withdraw_def option.case
  by (intro passing; code_simp)

lemma passes_step_9: "passes () (step_9_request_limit practice_ex)"
proof -
  obtain ev where ev: "so_error (practice_answer ADVERTISE_2) = Some ev" "err_code ev = REQUEST_CAPACITY_EXCEEDED"
    "\<not> close_session ev" "err_request_id ev = Some ADVERTISE_2" by (simp add: practice_answer_def)
  show ?thesis unfolding step_9_request_limit_def
    apply (intro passing(2,6))
    subgoal by code_simp
    unfolding ev(1) option.case
    by (rule passes_bind [where x = "()"], (intro passing; simp add: ev)) (rule passes_basic)
qed

lemma passes_step_10: "passes () (step_10_sync practice_sy practice_aw)"
proof -
  have keep: "passes () (\<lambda>w. (Inr (), w\<lparr>wk_result := (wk_result w)\<lparr>wr_final_inventory := a,
        wr_transaction_count := b, wr_stored_results := c\<rparr>\<rparr>))" for a b c
    by (simp add: passes_def calm_def walk_ok_def)
  show ?thesis unfolding step_10_sync_def checks_10_def
    apply (intro passing(1-4))
    by (rule passes_bind [where x = "()"], (intro passing; code_simp)) (rule keep)
qed

text \<open>A walkthrough of calm steps that counts its messages on the way.\<close>

definition runs :: "int \<Rightarrow> int \<Rightarrow> 'a \<Rightarrow> 'a walk \<Rightarrow> bool" where
  "runs k l x m \<longleftrightarrow> (\<forall>w. calm w \<and> wk_sent w = k \<longrightarrow> (\<exists>w'. m w = (Inr x, w') \<and> calm w' \<and> wk_sent w' = l))"

definition ends_well :: "int \<Rightarrow> walk_result walk \<Rightarrow> bool" where
  "ends_well k m \<longleftrightarrow> (\<forall>w. calm w \<and> wk_sent w = k \<longrightarrow> (\<exists>r w'. m w = (Inr r, w') \<and> walk_ok r))"

lemma runs_of: "passes x m \<Longrightarrow> sends n m \<Longrightarrow> l = k + n \<Longrightarrow> runs k l x m"
  unfolding passes_def sends_def runs_def by blast

lemma runs_bind: "runs k l x m \<Longrightarrow> runs l j y (f x) \<Longrightarrow> runs k j y (bindW m f)"
  unfolding runs_def bindW_def by fastforce

lemma runs_turn: "runs k l () m \<Longrightarrow> runs l j () (in_turn ms) \<Longrightarrow> runs k j () (in_turn (m # ms))"
  by (simp add: runs_bind)

lemma ends_bind: "runs k l x m \<Longrightarrow> ends_well l (f x) \<Longrightarrow> ends_well k (bindW m f)"
  unfolding runs_def ends_well_def bindW_def by fastforce

lemma runs_messages: "runs 8 8 () (in_turn [report_messages, expect_messages])"
  by (auto simp: runs_def bindW_def report_messages_def expect_messages_def expect_def record_check_def
      returnW_def calm_def walk_ok_def EXPECTED_MESSAGES_SENT_def)

lemma runs_tail: "runs 4 8 () (in_turn [step_7_accept_gift practice_ex practice_aw ''offer-2'',
    step_8_withdraw practice_ex practice_xn practice_aw (Some ''object-1''), step_9_request_limit practice_ex,
    step_10_sync practice_sy practice_aw, report_messages, expect_messages])"
proof -
  have "runs 4 5 () (step_7_accept_gift practice_ex practice_aw ''offer-2'')"
    by (rule runs_of [OF passes_step_7 sends_steps(4)]) simp
  moreover have "runs 5 6 () (step_8_withdraw practice_ex practice_xn practice_aw (Some ''object-1''))"
    by (rule runs_of [OF passes_step_8 sends_steps(5)]) simp
  moreover have "runs 6 7 () (step_9_request_limit practice_ex)"
    by (rule runs_of [OF passes_step_9 sends_steps(6)]) simp
  moreover have "runs 7 8 () (step_10_sync practice_sy practice_aw)"
    by (rule runs_of [OF passes_step_10 sends_sync]) simp
  moreover note runs_messages
  ultimately show ?thesis by (blast intro: runs_turn)
qed

lemma practice_ends_well: "ends_well 0 (run_script practice_hs practice_ex practice_xn practice_aw practice_sy)"
proof -
  have "runs 0 1 () (step_1_ready practice_hs)" by (rule runs_of [OF passes_step_1 sends_step_1]) simp
  moreover have "runs 1 2 () (step_2_advertise practice_ex practice_aw)"
    by (rule runs_of [OF passes_step_2 sends_steps(1)]) simp
  moreover have "runs 2 3 (Some ''object-1'') (step_3_replace_advertisement practice_ex practice_aw)"
    by (rule runs_of [OF passes_step_3 sends_steps(2)]) simp
  moreover have "runs 3 4 () (step_4_offer practice_ex practice_aw)"
    by (rule runs_of [OF passes_step_4 sends_steps(3)]) simp
  moreover have "runs 4 4 () (step_5_observe_acceptance practice_aw)"
    by (rule runs_of [OF passes_step_5 sends_looks(1)]) simp
  moreover have "runs 4 4 ''offer-2'' (step_6_observe_gift practice_aw)"
    by (rule runs_of [OF passes_step_6 sends_looks(2)]) simp
  moreover have "runs 4 8 () (if ''offer-2'' = '''' then report_messages else in_turn
      [step_7_accept_gift practice_ex practice_aw ''offer-2'',
       step_8_withdraw practice_ex practice_xn practice_aw (Some ''object-1''), step_9_request_limit practice_ex,
       step_10_sync practice_sy practice_aw, report_messages, expect_messages])"
    using runs_tail by (simp del: in_turn.simps)
  moreover have "ends_well 8 (\<lambda>w. (Inr (wk_result w), w))" by (simp add: ends_well_def calm_def)
  ultimately show ?thesis unfolding run_script_def by (blast intro: ends_bind)
qed

lemma practice_offers: "o' \<in> set (offers (practice_state n)) \<Longrightarrow> offer_id o' \<noteq> ''''"
  by (auto simp: practice_state_def demo_snapshot_def demo_offer_def Let_def split: if_splits)

theorem passed_walkthrough_certifies_witness:
  "\<exists>r w. run_script practice_hs practice_ex practice_xn practice_aw practice_sy (walker_new (session_init None)) = (Inr r, w)
    \<and> wr_final_inventory r = Some EXPECTED_FINAL_INVENTORY \<and> wr_transaction_count r = 2
    \<and> wr_stored_results r = 5 \<and> wr_messages_sent r = EXPECTED_MESSAGES_SENT"
proof -
  let ?w0 = "walker_new (session_init None)"
  have "calm ?w0 \<and> wk_sent ?w0 = 0"
    by (simp add: calm_def walker_new_def walk_result_new_def walk_ok_def executor_new_def)
  with practice_ends_well obtain r w where
    run: "run_script practice_hs practice_ex practice_xn practice_aw practice_sy ?w0 = (Inr r, w)" and all: "walk_ok r"
    unfolding ends_well_def by blast
  have "wr_final_inventory r = Some EXPECTED_FINAL_INVENTORY \<and> wr_transaction_count r = 2
    \<and> wr_stored_results r = 5 \<and> wr_messages_sent r = EXPECTED_MESSAGES_SENT"
    by (rule passed_walkthrough_certifies [OF run all])
      (auto simp: walker_new_def practice_aw_def practice_offers)
  with run show ?thesis by blast
qed

end
