(* ===== verification/Hivemind.thy ===== *)
theory Hivemind
  imports Evidence Commitments
begin

text \<open>
  \<open>bazaar_client/hivemind.py\<close>: the bridge that lets an external coordinator trade for a station, watched for
  the evidence log. The coordinator's package is not part of the repository: \<open>super()\<close>'s methods are given by
  whether they raise and by what they return. Of a state it passes on the dictionary that \<open>_to_dict\<close> makes;
  its numbers are read with \<open>int\<close>.
\<close>

subsection \<open>The dictionary of a state\<close>

type_synonym goods = "(string, int) pydict"

record hive_transaction =
  ht_transaction_id :: string
  ht_offer_id :: string
  ht_proposer_id :: string
  ht_recipient_id :: string
  ht_give :: goods
  ht_receive :: goods
  ht_settled_tick :: int

record hive_offer =
  ho_offer_id :: string
  ho_proposer_id :: string
  ho_recipient_id :: string
  ho_give :: goods
  ho_receive :: goods
  ho_status :: string
  ho_expires_tick :: int

record hive_state =
  hs_run_id :: string
  hs_tick :: int
  hs_snapshot_sequence :: int
  hs_phase :: string
  hs_health :: int
  hs_inventory :: goods
  hs_transactions :: "hive_transaction list"
  hs_offers :: "hive_offer list"

subsection \<open>The bridge\<close>

text \<open>An action of the coordinator is kept as it came.\<close>

record 'a hive_entry =
  he_run_id :: string
  he_tick :: int
  he_snapshot_sequence :: int
  he_phase :: string
  he_health :: int
  he_inventory :: goods
  he_available :: goods
  he_open_offers :: "offer_sight list"
  he_open_outgoing_offers :: nat
  he_new_transactions :: "trade_sight list"
  he_actions :: "'a list"
  he_reasons :: "string list"

datatype 'a hive_line =
    HiveDecision "'a hive_entry"
  | HiveStatus string
  | HiveResult "string option" "bool option" "string option" "int option" int

record 'a bridge =
  hb_seen_trades :: "string set"
  hb_latest :: "'a hive_entry option"
  hb_observed_run :: "string option"
  hb_lines :: "'a hive_line list"
  hb_finished :: bool

definition bridge_new :: "'a bridge" where
  "bridge_new = \<lparr>hb_seen_trades = {}, hb_latest = None, hb_observed_run = None, hb_lines = [], hb_finished = False\<rparr>"

text \<open>\<open>{r: int(b.get(r, 0)) for r in ("water", "food", "components")}\<close>.\<close>

definition hive_bundle :: "goods \<Rightarrow> goods" where
  "hive_bundle b = map (\<lambda>r. (r, dict_get_or 0 b r)) [''water'', ''food'', ''components'']"

definition hive_trade :: "string \<Rightarrow> hive_transaction \<Rightarrow> trade_sight" where
  "hive_trade sid t =
     (let outgoing = ht_proposer_id t = sid
      in \<lparr>tv_transaction_id = ht_transaction_id t, tv_offer_id = ht_offer_id t,
          tv_counterparty = (if outgoing then ht_recipient_id t else ht_proposer_id t),
          tv_we_paid = hive_bundle (if outgoing then ht_give t else ht_receive t),
          tv_we_got = hive_bundle (if outgoing then ht_receive t else ht_give t),
          tv_settled_tick = ht_settled_tick t\<rparr>)"

text \<open>The loop over the transactions adds to the set it tests.\<close>

definition hive_trade_step :: "string \<Rightarrow> hive_transaction \<Rightarrow> string set \<times> trade_sight list \<Rightarrow> string set \<times> trade_sight list" where
  "hive_trade_step sid t acc = (case acc of (seen, trades) \<Rightarrow>
     if ht_transaction_id t \<in> seen then (seen, trades)
     else (insert (ht_transaction_id t) seen, trades @ [hive_trade sid t]))"

definition hive_paid :: "string \<Rightarrow> hive_offer \<Rightarrow> goods" where
  "hive_paid sid o' = hive_bundle (if ho_proposer_id o' = sid then ho_give o' else ho_receive o')"

definition hive_sight :: "string \<Rightarrow> hive_offer \<Rightarrow> offer_sight" where
  "hive_sight sid o' =
     (let outgoing = ho_proposer_id o' = sid
      in \<lparr>ov_offer_id = ho_offer_id o', ov_direction = (if outgoing then ''outgoing'' else ''incoming''),
          ov_counterparty = (if outgoing then ho_recipient_id o' else ho_proposer_id o'),
          ov_we_pay = hive_paid sid o',
          ov_we_get = hive_bundle (if outgoing then ho_receive o' else ho_give o'),
          ov_expires_tick = ho_expires_tick o'\<rparr>)"

text \<open>\<open>{r: max(0, available[r] - paid[r]) for r in available}\<close>, both with the same keys.\<close>

definition hive_spend :: "goods \<Rightarrow> goods \<Rightarrow> goods" where
  "hive_spend available paid = map (\<lambda>(r, n). (r, max 0 (n - dict_get_or 0 paid r))) available"

definition hive_offer_step :: "string \<Rightarrow> hive_offer \<Rightarrow> offer_sight list \<times> goods \<Rightarrow> offer_sight list \<times> goods" where
  "hive_offer_step sid o' acc = (case acc of (views, available) \<Rightarrow>
     if ho_status o' \<noteq> ''OFFER_STATUS_OPEN'' then (views, available)
     else (views @ [hive_sight sid o'],
           if ho_proposer_id o' = sid then hive_spend available (hive_paid sid o') else available))"

definition bare_phase :: "string \<Rightarrow> string" where
  "bare_phase p = (if take 6 p = ''PHASE_'' then drop 6 p else p)"

definition hive_status :: "string \<Rightarrow> string" where
  "hive_status p = (if p \<in> {''FINISHED'', ''ABORTED''} then ''finished''
     else if p = ''RUNNING'' then ''participating'' else ''waiting'')"

text \<open>\<open>_send_observation\<close>; \<open>failed\<close> is the exception of \<open>super()\<close>, if it raised, and \<open>logging\<close> whether there is an evidence log.\<close>

definition send_observation :: "py_error option \<Rightarrow> bool \<Rightarrow> string \<Rightarrow> hive_state \<Rightarrow> 'a bridge \<Rightarrow> py_error option \<times> 'a bridge" where
  "send_observation failed logging sid data br =
     (if failed \<noteq> None then (failed, br)
      else let seen = (if hb_observed_run br \<noteq> Some (hs_run_id data) then {} else hb_seen_trades br);
               (seen, trades) = fold (hive_trade_step sid) (hs_transactions data) (seen, []);
               (views, available) = fold (hive_offer_step sid) (hs_offers data) ([], hive_bundle (hs_inventory data));
               ph = bare_phase (hs_phase data);
               entry = \<lparr>he_run_id = hs_run_id data, he_tick = hs_tick data,
                 he_snapshot_sequence = hs_snapshot_sequence data, he_phase = ph, he_health = hs_health data,
                 he_inventory = hive_bundle (hs_inventory data), he_available = available,
                 he_open_offers = views,
                 he_open_outgoing_offers = length (filter (\<lambda>v. ov_direction v = ''outgoing'') views),
                 he_new_transactions = trades, he_actions = [],
                 he_reasons = [''Hivemind coordinator chooses all trades.'']\<rparr>
           in (None, br\<lparr>hb_seen_trades := seen, hb_observed_run := Some (hs_run_id data), hb_latest := Some entry,
                hb_lines := hb_lines br @ (if logging then [HiveDecision entry, HiveStatus (hive_status ph)] else []),
                hb_finished := hb_finished br \<or> ph \<in> {''FINISHED'', ''ABORTED''}\<rparr>))"

text \<open>A message of the coordinator: its type, and the action or the result it carries.\<close>

record 'a hive_message =
  hm_type :: "string option"
  hm_action :: 'a

definition receive_hive :: "bool \<Rightarrow> 'a hive_message \<Rightarrow> 'a bridge \<Rightarrow> 'a bridge" where
  "receive_hive logging msg br = (case hb_latest br of
     Some entry \<Rightarrow> if logging \<and> hm_type msg = Some ''command''
       then br\<lparr>hb_lines := hb_lines br @ [HiveDecision (entry\<lparr>he_new_transactions := [], he_actions := [hm_action msg],
              he_reasons := [''Command received from Hivemind; awaiting game result.'']\<rparr>)]\<rparr>
       else br
   | None \<Rightarrow> br)"

record game_result =
  gr_request_id :: "string option"
  gr_ok :: "bool option"
  gr_code :: "string option"
  gr_processed_tick :: "int option"

definition send_hive :: "py_error option \<Rightarrow> bool \<Rightarrow> game_result option \<Rightarrow> 'a bridge \<Rightarrow> py_error option \<times> 'a bridge" where
  "send_hive failed logging result br =
     (if failed \<noteq> None then (failed, br)
      else case result of
        Some r \<Rightarrow> if logging
          then (None, br\<lparr>hb_lines := hb_lines br @ [HiveResult (gr_request_id r) (gr_ok r) (gr_code r)
                  (map_option he_tick (hb_latest br)) (case gr_processed_tick r of None \<Rightarrow> 0 | Some n \<Rightarrow> n)]\<rparr>)
          else (None, br)
      | None \<Rightarrow> (None, br))"

subsection \<open>What the client itself would have seen\<close>

text \<open>The dictionary of a state, as \<open>MessageToDict\<close> makes it from a snapshot's message.\<close>

definition offer_status_text :: "offer_status \<Rightarrow> string" where
  "offer_status_text st = ''OFFER_STATUS_'' @ (case st of OPEN \<Rightarrow> ''OPEN'' | ACCEPTED \<Rightarrow> ''ACCEPTED''
     | WITHDRAWN \<Rightarrow> ''WITHDRAWN'' | EXPIRED \<Rightarrow> ''EXPIRED'' | RUN_ENDED \<Rightarrow> ''RUN_ENDED'')"

definition state_dict :: "snapshot \<Rightarrow> hive_state" where
  "state_dict s = \<lparr>hs_run_id = run_id s, hs_tick = snap_tick s, hs_snapshot_sequence = snapshot_sequence s,
     hs_phase = ''PHASE_'' @ phase_name (snap_phase s), hs_health = health (me s),
     hs_inventory = as_dict (inventory (me s)),
     hs_transactions = map (\<lambda>t. \<lparr>ht_transaction_id = transaction_id t, ht_offer_id = txn_offer_id t,
        ht_proposer_id = txn_proposer_id t, ht_recipient_id = txn_recipient_id t, ht_give = as_dict (txn_give t),
        ht_receive = as_dict (txn_receive t), ht_settled_tick = settled_tick t\<rparr>) (transactions s),
     hs_offers = map (\<lambda>o'. \<lparr>ho_offer_id = offer_id o', ho_proposer_id = proposer_id o',
        ho_recipient_id = recipient_id o', ho_give = as_dict (give o'), ho_receive = as_dict (receive o'),
        ho_status = offer_status_text (offer_status o'), ho_expires_tick = expires_tick o'\<rparr>) (offers s)\<rparr>"

lemma hive_bundle_dict: "hive_bundle (as_dict b) = as_dict b"
  by (cases b) (simp add: hive_bundle_def as_dict_def dict_get_or_def)

lemma hive_spend_dict: "hive_spend (as_dict a) (as_dict b) = as_dict (saturating_sub a b)"
  by (cases a; cases b) (auto simp: hive_spend_def as_dict_def saturating_sub_def dict_get_or_def)

end
