(* ===== verification/Hivemind_Facts.thy ===== *)
theory Hivemind_Facts
  imports Hivemind Demo
begin

text \<open>
  The bridge logs of a state what the client's own decision record says of it: the two logs can be read by
  the same reader.
\<close>

lemma hive_trade_dict:
  "hive_trade sid \<lparr>ht_transaction_id = transaction_id t, ht_offer_id = txn_offer_id t,
        ht_proposer_id = txn_proposer_id t, ht_recipient_id = txn_recipient_id t, ht_give = as_dict (txn_give t),
        ht_receive = as_dict (txn_receive t), ht_settled_tick = settled_tick t\<rparr> = trade_view t sid"
  by (simp add: hive_trade_def trade_view_def hive_bundle_dict Let_def)

lemma hive_trades:
  assumes "distinct (map ht_transaction_id ts)"
  shows "fold (hive_trade_step sid) ts (seen, trades) =
    (seen \<union> ht_transaction_id ` set ts,
     trades @ map (hive_trade sid) (filter (\<lambda>t. ht_transaction_id t \<notin> seen) ts))"
  using assms
proof (induction ts arbitrary: seen trades)
  case (Cons t ts)
  have "filter (\<lambda>t'. ht_transaction_id t' \<notin> insert (ht_transaction_id t) seen) ts
      = filter (\<lambda>t'. ht_transaction_id t' \<notin> seen) ts"
    using Cons.prems by (intro filter_cong refl) (auto simp: rev_image_eqI)
  with Cons show ?case by (auto simp: hive_trade_step_def)
qed simp

lemma state_dict_trades:
  assumes "distinct (map transaction_id (transactions s))"
  shows "fold (hive_trade_step sid) (hs_transactions (state_dict s)) (seen, []) =
    (seen \<union> transaction_id ` set (transactions s),
     map (\<lambda>t. trade_view t sid) (filter (\<lambda>t. transaction_id t \<notin> seen) (transactions s)))"
proof -
  have "distinct (map ht_transaction_id (hs_transactions (state_dict s)))"
    using assms by (simp add: state_dict_def comp_def)
  from hive_trades [OF this, of sid seen "[]"] show ?thesis
    by (simp add: state_dict_def filter_map comp_def hive_trade_dict image_image)
qed

definition hive_offer_of :: "offer \<Rightarrow> hive_offer" where
  "hive_offer_of o' = \<lparr>ho_offer_id = offer_id o', ho_proposer_id = proposer_id o',
        ho_recipient_id = recipient_id o', ho_give = as_dict (give o'), ho_receive = as_dict (receive o'),
        ho_status = offer_status_text (offer_status o'), ho_expires_tick = expires_tick o'\<rparr>"

lemma state_dict_offers: "hs_offers (state_dict s) = map hive_offer_of (offers s)"
  by (simp add: state_dict_def hive_offer_of_def)

lemma open_text: "offer_status_text st = ''OFFER_STATUS_OPEN'' \<longleftrightarrow> st = OPEN"
  by (cases st) (simp_all add: offer_status_text_def)

lemma hive_sight_view:
  assumes "proposer_id o' = sid \<or> recipient_id o' = sid"
  shows "offer_view o' sid = Inr (hive_sight sid (hive_offer_of o'))"
  using assms by (auto simp: offer_view_def hive_sight_def hive_paid_def hive_offer_of_def hive_bundle_dict
      what_station_pays_def what_station_receives_def)

lemma hive_offers:
  "fold (hive_offer_step sid) (map hive_offer_of os) (views, as_dict b) =
    (views @ map (\<lambda>o'. hive_sight sid (hive_offer_of o')) (filter (\<lambda>o'. offer_status o' = OPEN) os),
     as_dict (fold (\<lambda>o' b. saturating_sub b (give o')) (filter (\<lambda>o'. proposer_id o' = sid \<and> offer_status o' = OPEN) os) b))"
  by (induction os arbitrary: views b)
    (auto simp: hive_offer_step_def hive_offer_of_def open_text hive_paid_def hive_bundle_dict hive_spend_dict)


lemma fold_saturating:
  "fold (\<lambda>o' b. saturating_sub b (give o')) os b = saturating_sub b (sum_list (map give os))"
  unfolding bundle_folds by (induction os arbitrary: b) (simp_all add: diff_diff_add)

text \<open>The open offers of a state whose deadlines lie ahead.\<close>

lemma open_ahead:
  assumes "\<forall>o' \<in> set (offers s). offer_status o' = OPEN \<longrightarrow> snap_tick s < expires_tick o'"
  shows "outgoing_open_offers s = filter (\<lambda>o'. proposer_id o' = self_station_id s \<and> offer_status o' = OPEN) (offers s)"
    and "incoming_open_offers s = filter (\<lambda>o'. recipient_id o' = self_station_id s \<and> offer_status o' = OPEN) (offers s)"
  unfolding outgoing_open_offers_def incoming_open_offers_def
  using assms by (auto simp: is_open_at_def is_expired_at_def not_le intro!: filter_cong)

lemma open_split:
  assumes "\<forall>o' \<in> set os. (proposer_id o' = sid) \<noteq> (recipient_id o' = sid)"
  shows "mset (filter (\<lambda>o'. offer_status o' = OPEN) os)
    = mset (filter (\<lambda>o'. proposer_id o' = sid \<and> offer_status o' = OPEN) os
        @ filter (\<lambda>o'. recipient_id o' = sid \<and> offer_status o' = OPEN) os)"
  using assms by (induction os) auto

lemma outgoing_sight: "ov_direction (hive_sight sid (hive_offer_of o')) = ''outgoing'' \<longleftrightarrow> proposer_id o' = sid"
  by (simp add: hive_sight_def hive_offer_of_def Let_def)

lemma sent_observation:
  assumes "\<forall>o' \<in> set (offers s). offer_status o' = OPEN \<longrightarrow> snap_tick s < expires_tick o'"
    and "distinct (map transaction_id (transactions s))"
    and "hb_observed_run br = Some (run_id s)"
  shows "\<exists>br' he. send_observation None True (self_station_id s) (state_dict s) br = (None, br')
    \<and> hb_latest br' = Some he \<and> he_tick he = snap_tick s \<and> he_phase he = phase_name (snap_phase s)
    \<and> he_health he = health (me s) \<and> he_inventory he = as_dict (inventory (me s))
    \<and> he_available he = as_dict (available_to_commit tracker_init s)
    \<and> he_new_transactions he = map (\<lambda>t. trade_view t (self_station_id s))
         (filter (\<lambda>t. transaction_id t \<notin> hb_seen_trades br) (transactions s))
    \<and> he_open_offers he = map (\<lambda>o'. hive_sight (self_station_id s) (hive_offer_of o'))
         (filter (\<lambda>o'. offer_status o' = OPEN) (offers s))
    \<and> he_open_outgoing_offers he = length (outgoing_open_offers s)
    \<and> hb_seen_trades br' = hb_seen_trades br \<union> transaction_id ` set (transactions s)"
proof -
  have run: "hs_run_id (state_dict s) = run_id s" by (simp add: state_dict_def)
  have goods: "hive_bundle (hs_inventory (state_dict s)) = as_dict (inventory (me s))"
    by (simp add: state_dict_def hive_bundle_dict)
  have phase: "bare_phase (hs_phase (state_dict s)) = phase_name (snap_phase s)"
    by (simp add: state_dict_def bare_phase_def)
  have left: "saturating_sub (inventory (me s)) (sum_list (map give
      (filter (\<lambda>o'. proposer_id o' = self_station_id s \<and> offer_status o' = OPEN) (offers s))))
    = available_to_commit tracker_init s"
    by (simp add: available_alt promised_def outstanding_sum open_ahead(1) [OF assms(1)] bundle_folds
        inflight_total_sum tracker_init_def)
  have count: "length (filter (\<lambda>v. ov_direction v = ''outgoing'')
      (map (\<lambda>o'. hive_sight (self_station_id s) (hive_offer_of o')) (filter (\<lambda>o'. offer_status o' = OPEN) (offers s))))
    = length (outgoing_open_offers s)"
    by (simp add: open_ahead(1) [OF assms(1)] filter_map comp_def outgoing_sight conj_commute)
  show ?thesis
    unfolding send_observation_def run goods phase state_dict_offers hive_offers state_dict_trades [OF assms(2)]
      fold_saturating left
    using assms(3) count by (simp add: Let_def state_dict_def)
qed

lemma mapE_views:
  assumes "\<forall>o' \<in> set os. proposer_id o' = sid \<or> recipient_id o' = sid"
  shows "mapE (\<lambda>o'. offer_view o' sid) os = Inr (map (\<lambda>o'. hive_sight sid (hive_offer_of o')) os)"
  using assms by (induction os) (simp_all add: hive_sight_view)

text \<open>C24: The bridge logs of a state what the client's own decision record would say of it: stock, what is
  left of it after our open offers, new trades and open offers, and it remembers the same trades. An open
  offer past its deadline is still open for the bridge, so deadlines must lie ahead. \<open>to_dict\<close> is the
  coordinator package's \<open>_to_dict\<close>: the JSON mapping of protobuf messages.\<close>

theorem bridge_matches_client:
  assumes "\<forall>o' \<in> set (offers s). (proposer_id o' = self_station_id s) \<noteq> (recipient_id o' = self_station_id s)"
    and "\<forall>o' \<in> set (offers s). offer_status o' = OPEN \<longrightarrow> snap_tick s < expires_tick o'"
    and "distinct (map transaction_id (transactions s))"
    and "hb_observed_run br = Some (run_id s)" and "hb_seen_trades br = ev_seen_transactions ev"
    and "d_available d = available_to_commit tracker_init s"
    and "evidence_decision now s d ctx passes ev = Inr (did, ev')"
    and "to_dict s = state_dict s"
  shows "\<exists>br' he de. send_observation None True (self_station_id s) (to_dict s) br = (None, br')
    \<and> hb_latest br' = Some he \<and> ev_decisions ev' = ev_decisions ev @ [de]
    \<and> he_tick he = de_tick de \<and> he_phase he = de_phase de \<and> he_health he = de_health de
    \<and> he_inventory he = de_inventory de \<and> he_available he = de_available de
    \<and> he_new_transactions he = de_new_transactions de \<and> mset (he_open_offers he) = mset (de_open_offers de)
    \<and> he_open_outgoing_offers he = de_open_outgoing_offers de
    \<and> hb_seen_trades br' = ev_seen_transactions ev'"
proof -
  let ?sid = "self_station_id s"
  let ?out = "filter (\<lambda>o'. proposer_id o' = ?sid \<and> offer_status o' = OPEN) (offers s)"
  let ?inc = "filter (\<lambda>o'. recipient_id o' = ?sid \<and> offer_status o' = OPEN) (offers s)"
  obtain br' he where sent: "send_observation None True ?sid (state_dict s) br = (None, br')" "hb_latest br' = Some he"
    "he_tick he = snap_tick s" "he_phase he = phase_name (snap_phase s)" "he_health he = health (me s)"
    "he_inventory he = as_dict (inventory (me s))" "he_available he = as_dict (available_to_commit tracker_init s)"
    "he_new_transactions he = map (\<lambda>t. trade_view t ?sid)
       (filter (\<lambda>t. transaction_id t \<notin> hb_seen_trades br) (transactions s))"
    "he_open_offers he = map (\<lambda>o'. hive_sight ?sid (hive_offer_of o')) (filter (\<lambda>o'. offer_status o' = OPEN) (offers s))"
    "he_open_outgoing_offers he = length (outgoing_open_offers s)"
    "hb_seen_trades br' = hb_seen_trades br \<union> transaction_id ` set (transactions s)"
    using sent_observation [OF assms(2,3,4)] by blast
  have views: "mapE (\<lambda>o'. offer_view o' ?sid) (outgoing_open_offers s @ incoming_open_offers s)
      = Inr (map (\<lambda>o'. hive_sight ?sid (hive_offer_of o')) (?out @ ?inc))"
    unfolding open_ahead [OF assms(2)] by (rule mapE_views) auto
  have same: "mset (he_open_offers he) = mset (map (\<lambda>o'. hive_sight ?sid (hive_offer_of o')) (?out @ ?inc))"
    unfolding sent(9) mset_map open_split [OF assms(1)] ..
  have seen: "tv_transaction_id ` set (new_trades s ev) \<union> ev_seen_transactions ev
      = ev_seen_transactions ev \<union> transaction_id ` set (transactions s)"
    by (auto simp: new_trades_def trade_view_def Let_def image_iff)
  from assms(7) views obtain de where de: "ev_decisions ev' = ev_decisions ev @ [de]"
    "de_tick de = snap_tick s" "de_phase de = phase_name (snap_phase s)" "de_health de = health (me s)"
    "de_inventory de = as_dict (inventory (me s))" "de_available de = as_dict (d_available d)"
    "de_open_offers de = map (\<lambda>o'. hive_sight ?sid (hive_offer_of o')) (?out @ ?inc)"
    "de_new_transactions de = new_trades s ev" "de_open_outgoing_offers de = length (outgoing_open_offers s)"
    "ev_seen_transactions ev' = ev_seen_transactions ev \<union> tv_transaction_id ` set (new_trades s ev)"
    by (auto simp: evidence_decision_def Let_def write_line_def)
  show ?thesis
    using sent same seen de assms(5,6) unfolding assms(8) 
    by (intro exI [of _ br'] exI [of _ he] exI [of _ de] conjI) (simp_all only: new_trades_def Un_commute)
qed

theorem bridge_matches_client_witness:
  "\<exists>br' he de. send_observation None True ''P01'' (state_dict demo_tick)
      ((bridge_new :: unit bridge)\<lparr>hb_observed_run := Some ''run-1''\<rparr>) = (None, br')
    \<and> hb_latest br' = Some he \<and> length (he_open_offers he) = 1
    \<and> mset (he_open_offers he) = mset (de_open_offers (de :: decision_entry))"
proof -
  let ?d = "decision_new\<lparr>d_available := available_to_commit tracker_init demo_tick\<rparr>"
  let ?ctx = "\<lparr>dx_session = 1, dx_strategy = ''hivemind'', dx_command_budget = 0, dx_queue_ms = None, dx_decide_ms = 0,
     dx_states_during_decision = 0, dx_wait_reason = None, dx_ticks_skipped = None\<rparr>"
  let ?br = "(bridge_new :: unit bridge)\<lparr>hb_observed_run := Some ''run-1''\<rparr>"
  obtain did ev' where ev: "evidence_decision ''now'' demo_tick ?d ?ctx [] evidence_init = Inr (did, ev')"
    using evidence_decision_total by blast
  have self: "self_station_id demo_tick = ''P01''" by (simp add: demo_tick_def demo_defs)
  have "\<exists>br' he de. send_observation None True (self_station_id demo_tick) (state_dict demo_tick) ?br = (None, br')
    \<and> hb_latest br' = Some he \<and> ev_decisions ev' = ev_decisions evidence_init @ [de]
    \<and> he_tick he = de_tick de \<and> he_phase he = de_phase de \<and> he_health he = de_health de
    \<and> he_inventory he = de_inventory de \<and> he_available he = de_available de
    \<and> he_new_transactions he = de_new_transactions de \<and> mset (he_open_offers he) = mset (de_open_offers de)
    \<and> he_open_outgoing_offers he = de_open_outgoing_offers de
    \<and> hb_seen_trades br' = ev_seen_transactions ev'"
    by (rule bridge_matches_client [OF _ _ _ _ _ _ ev, where to_dict = state_dict])
      (auto simp: demo_tick_def demo_defs bridge_new_def evidence_init_def)
  then obtain br' :: "unit bridge" and he :: "unit hive_entry" and de :: decision_entry
    where sent: "send_observation None True ''P01'' (state_dict demo_tick) ?br = (None, br')"
    "hb_latest br' = Some he" "mset (he_open_offers he) = mset (de_open_offers de)"
    unfolding self by blast
  have "(case send_observation None True ''P01'' (state_dict demo_tick) ?br of (_, br') \<Rightarrow>
      (case hb_latest br' of Some he \<Rightarrow> length (he_open_offers he) = 1 | None \<Rightarrow> False))" by code_simp
  then have "length (he_open_offers he) = 1" unfolding sent(1) by (simp add: sent(2))
  with sent show ?thesis by blast
qed

end
