(* ===== verification/Scenario.thy ===== *)
theory Scenario
  imports Economy Strategy "HOL-Library.Sublist" "HOL-Library.List_Lexorder" "HOL-Library.Char_ord"
begin

text \<open>
  \<open>scripts/decide_once.py\<close>: what a strategy would do in one hand-written situation, and whether that is what
  the situation's author expects. A JSON object is a record of optional fields, as in \<open>Logbook\<close>; numbers in
  it are integers. An unmet expectation is a constructor that carries what its sentence names.
\<close>

subsection \<open>The document\<close>

record incoming_doc =
  id_offer_id :: "string option"
  id_from :: "string option"
  id_they_give :: "(string, int) pydict option"
  id_they_want :: "(string, int) pydict option"
  id_expires_tick :: "int option"

record ad_doc =
  xd_station :: "string option"
  xd_selling :: "string list option"
  xd_seeking :: "string list option"
  xd_expires_tick :: "int option"

record expectations =
  xp_accepts :: "string list option"
  xp_passes :: "(string, string) pydict option"
  xp_offers_to :: "string list option"
  xp_pays_only_with :: "string option"
  xp_no_actions :: bool

record scenario =
  sn_station :: "string option"
  sn_tick :: "int option"
  sn_incoming_offers :: "incoming_doc list option"
  sn_advertisements :: "ad_doc list option"
  sn_inventory :: "(string, int) pydict option"
  sn_health :: "int option"
  sn_upkeep :: "(string, int) pydict option"
  sn_specialty :: "string option"
  sn_phase :: "string option"
  sn_command_budget :: "int option"
  sn_expect :: "expectations option"

text \<open>\<open>d.get(k, default)\<close> and \<open>d[k]\<close>.\<close>

definition get_or :: "'a \<Rightarrow> 'a option \<Rightarrow> 'a" where
  "get_or d f = (case f of None \<Rightarrow> d | Some x \<Rightarrow> x)"

definition need :: "string \<Rightarrow> 'a option \<Rightarrow> 'a result" where
  "need k f = (case f of None \<Rightarrow> Inl (KeyError k) | Some x \<Rightarrow> Inr x)"

text \<open>\<open>Resource[name]\<close> and \<open>Phase[name]\<close>.\<close>

definition named_resource :: "string \<Rightarrow> resource result" where
  "named_resource n = (case find (\<lambda>r. resource_name r = n) [WATER, FOOD, COMPONENTS] of
     None \<Rightarrow> Inl (KeyError n) | Some r \<Rightarrow> Inr r)"

definition named_phase :: "string \<Rightarrow> phase result" where
  "named_phase n = (case find (\<lambda>p. phase_name p = n) [READY, RUNNING, PAUSED, FINISHED, ABORTED] of
     None \<Rightarrow> Inl (KeyError n) | Some p \<Rightarrow> Inr p)"

text \<open>\<open>Bundle(**(values or {}))\<close> raises on an argument the class does not have.\<close>

definition bundle_from :: "(string, int) pydict option \<Rightarrow> Bundle result" where
  "bundle_from values =
     (let d = get_or [] values
      in if \<exists>k \<in> set (dict_keys d). k \<notin> {''water'', ''food'', ''components''} then Inl TypeError
         else bundle_new (dict_get_or 0 d ''water'') (dict_get_or 0 d ''food'') (dict_get_or 0 d ''components''))"

subsection \<open>The snapshot of a scenario\<close>

definition scenario_peers :: "scenario \<Rightarrow> string list result" where
  "scenario_peers doc =
     bindE (mapE (\<lambda>o'. need ''from'' (id_from o')) (get_or [] (sn_incoming_offers doc))) (\<lambda>froms.
     bindE (mapE (\<lambda>a. need ''station'' (xd_station a)) (get_or [] (sn_advertisements doc))) (\<lambda>stations.
     Inr (sorted_list_of_set (set froms \<union> set stations \<union> {''P02''}))))"

definition scenario_offer :: "string \<Rightarrow> int \<Rightarrow> incoming_doc \<Rightarrow> offer result" where
  "scenario_offer me' tick o' =
     bindE (need ''offer_id'' (id_offer_id o')) (\<lambda>oid.
     bindE (need ''from'' (id_from o')) (\<lambda>p.
     bindE (bundle_from (id_they_give o')) (\<lambda>g.
     bindE (bundle_from (id_they_want o')) (\<lambda>w.
     Inr \<lparr>offer_id = oid, proposer_id = p, recipient_id = me', give = g, receive = w, created_tick = tick,
          created_version = 1, expires_tick = get_or (tick + 5) (id_expires_tick o'), offer_status = OPEN,
          closed_tick = None, offer_transaction_id = None\<rparr>))))"

definition scenario_ad :: "int \<Rightarrow> ad_doc \<Rightarrow> advertisement result" where
  "scenario_ad tick a =
     bindE (need ''station'' (xd_station a)) (\<lambda>sid.
     bindE (mapE named_resource (get_or [] (xd_selling a))) (\<lambda>sell.
     bindE (mapE named_resource (get_or [] (xd_seeking a))) (\<lambda>seek.
     Inr \<lparr>advertisement_id = ''ad-'' @ sid, ad_station_id = sid, selling = set sell, seeking = set seek,
          ad_created_tick = tick, ad_expires_tick = get_or (tick + 10) (xd_expires_tick a),
          ad_created_version = 1, ad_status = PUB_ACTIVE\<rparr>)))"

definition scenario_station :: "string \<Rightarrow> scenario \<Rightarrow> station_observation result" where
  "scenario_station me' doc =
     bindE (need ''inventory'' (sn_inventory doc)) (\<lambda>stock.
     bindE (bundle_from (Some stock)) (\<lambda>inven.
     bindE (bundle_from (Some (get_or [(''water'', 1), (''food'', 1), (''components'', 1)] (sn_upkeep doc)))) (\<lambda>upkeep.
     bindE (named_resource (get_or ''WATER'' (sn_specialty doc))) (\<lambda>spec.
     Inr \<lparr>obs_station_id = me', inventory = inven, health = get_or 100 (sn_health doc), failed_once = False,
          first_failure_tick = None, last_production = zero_bundle, last_unmet_upkeep = zero_bundle,
          fully_supplied_ticks = 0, shortage_ticks = 0, current_shortage_streak = 0,
          longest_shortage_streak = 0, produced_total = zero_bundle, consumed_total = zero_bundle,
          unmet_total = zero_bundle, imported_total = zero_bundle, exported_total = zero_bundle,
          upkeep_per_tick = upkeep, specialty = spec\<rparr>))))"

definition load_scenario :: "scenario \<Rightarrow> snapshot result" where
  "load_scenario doc =
     (let me' = get_or ''P01'' (sn_station doc); tick = get_or 0 (sn_tick doc)
      in bindE (scenario_peers doc) (\<lambda>peers.
         bindE (mapE (scenario_offer me' tick) (get_or [] (sn_incoming_offers doc))) (\<lambda>os.
         bindE (mapE (scenario_ad tick) (get_or [] (sn_advertisements doc))) (\<lambda>ads.
         bindE (scenario_station me' doc) (\<lambda>station.
         bindE (named_phase (get_or ''RUNNING'' (sn_phase doc))) (\<lambda>ph.
         Inr \<lparr>run_id = ''scenario'', snapshot_sequence = 1, world_version = 1, snap_tick = tick, snap_phase = ph,
              self_station_id = me', snap_rules = DEFAULT_RULES,
              directory = map (\<lambda>s. \<lparr>dir_station_id = s, display_name = s\<rparr>) (me' # peers), me = station,
              offers = os, advertisements = ads, transactions = [], request_results = [], outcome = None\<rparr>))))))"

subsection \<open>Expectations\<close>

datatype unmet =
    AcceptsDiffer "string list"
  | PassDiffers string "string option"
  | OffersDiffer "string list"
  | PaysMore string
  | ActsAnyway "string list"

fun accepted_offer :: "action \<Rightarrow> string list" where
  "accepted_offer (AcceptAction oid) = [oid]"
| "accepted_offer _ = []"

fun made_offer :: "action \<Rightarrow> (string \<times> Bundle) list" where
  "made_offer (OfferAction to g _ _) = [(to, g)]"
| "made_offer _ = []"

definition check_expectations :: "decision \<Rightarrow> (string, string) pydict \<Rightarrow> expectations \<Rightarrow> unmet list result" where
  "check_expectations d passes expected =
     (let taken = concat (map accepted_offer (d_actions d));
          offered' = concat (map made_offer (d_actions d));
          p1 = (case xp_accepts expected of
              None \<Rightarrow> [] | Some xs \<Rightarrow> if sort taken \<noteq> sort xs then [AcceptsDiffer taken] else []);
          p2 = concat (map (\<lambda>(oid, why). if sublist why (dict_get_or '''' passes oid) then []
                 else [PassDiffers oid (dict_get passes oid)]) (get_or [] (xp_passes expected)));
          p3 = (case xp_offers_to expected of
              None \<Rightarrow> []
            | Some xs \<Rightarrow> if sorted_list_of_set (set (map fst offered')) \<noteq> sort xs
                         then [OffersDiffer (map fst offered')] else []);
          p5 = (if xp_no_actions expected \<and> d_actions d \<noteq> [] then [ActsAnyway (map kind (d_actions d))] else [])
      in bindE (case xp_pays_only_with expected of
             None \<Rightarrow> Inr []
           | Some n \<Rightarrow> bindE (named_resource n) (\<lambda>allowed.
               Inr (concat (map (\<lambda>(to, g). if \<exists>r \<in> set resources. r \<noteq> allowed \<and> get g r \<noteq> 0
                      then [PaysMore to] else []) offered')))) (\<lambda>p4.
         Inr (p1 @ p2 @ p3 @ p4 @ p5)))"

definition no_expectations :: expectations where
  "no_expectations = \<lparr>xp_accepts = None, xp_passes = None, xp_offers_to = None, xp_pays_only_with = None,
     xp_no_actions = False\<rparr>"

definition evaluate :: "scenario \<Rightarrow> string \<Rightarrow> (decision \<times> (string, string) pydict \<times> unmet list) result" where
  "evaluate doc chosen =
     bindE (load_scenario doc) (\<lambda>s.
     bindE (get_strategy chosen) (\<lambda>st.
     bindE (strategy_decide st s memory_init None (sn_command_budget doc)) (\<lambda>(d, _).
     bindE (explain_passes st s d) (\<lambda>passes.
     bindE (check_expectations d passes (get_or no_expectations (sn_expect doc))) (\<lambda>problems.
     Inr (d, passes, problems))))))"

text \<open>The exit code.\<close>

definition decide_once :: "scenario \<Rightarrow> string \<Rightarrow> int result" where
  "decide_once doc chosen = bindE (evaluate doc chosen) (\<lambda>(_, _, problems).
     Inr (if problems \<noteq> [] then 1 else 0))"

end
