(* ===== verification/Scenario_Facts.thy ===== *)
theory Scenario_Facts
  imports Scenario
begin

text \<open>
  A scenario that can be loaded is always decided, and the exit code says whether the decision is the
  expected one.
\<close>

text \<open>The expectations, without the order in which they are checked.\<close>

definition as_expected :: "decision \<Rightarrow> (string, string) pydict \<Rightarrow> expectations \<Rightarrow> bool" where
  "as_expected d passes x \<longleftrightarrow>
     (\<forall>xs. xp_accepts x = Some xs \<longrightarrow> mset (concat (map accepted_offer (d_actions d))) = mset xs)
     \<and> (\<forall>(oid, why) \<in> set (get_or [] (xp_passes x)). sublist why (dict_get_or '''' passes oid))
     \<and> (\<forall>xs. xp_offers_to x = Some xs \<longrightarrow> distinct xs \<and> set xs = fst ` set (concat (map made_offer (d_actions d))))
     \<and> (\<forall>n. xp_pays_only_with x = Some n \<longrightarrow>
          (\<forall>to g r. (to, g) \<in> set (concat (map made_offer (d_actions d))) \<and> 0 < get g r \<longrightarrow> resource_name r = n))
     \<and> (xp_no_actions x \<longrightarrow> d_actions d = [])"

lemma sort_eq_iff: "sort xs = sort ys \<longleftrightarrow> mset xs = mset ys"
  by (metis mset_sort sorted_list_of_multiset_mset)

lemma sorted_set_sort: "sorted_list_of_set A = sort xs \<longleftrightarrow> distinct xs \<and> set xs = A" if "finite A"
proof
  assume s: "sorted_list_of_set A = sort xs"
  then have "distinct (sort xs)" "set (sort xs) = A" using that by (metis distinct_sorted_list_of_set, metis set_sorted_list_of_set)
  then show "distinct xs \<and> set xs = A" by simp
next
  assume "distinct xs \<and> set xs = A"
  then show "sorted_list_of_set A = sort xs" using that
    by (metis sorted_list_of_set_sort_remdups distinct_remdups_id)
qed

lemma named_resource_Inr: "named_resource n = Inr r \<longleftrightarrow> resource_name r = n"
  by (cases r) (auto simp: named_resource_def split: if_splits)

lemma check_expectations_verdict:
  assumes "\<forall>n. xp_pays_only_with x = Some n \<longrightarrow> (\<exists>r. resource_name r = n)"
  shows "\<exists>problems. check_expectations d passes x = Inr problems \<and> (problems = [] \<longleftrightarrow> as_expected d passes x)"
proof -
  let ?made = "concat (map made_offer (d_actions d))" and ?taken = "concat (map accepted_offer (d_actions d))"
  have accepts: "(case xp_accepts x of None \<Rightarrow> [] | Some xs \<Rightarrow> if sort ?taken \<noteq> sort xs then [AcceptsDiffer ?taken] else []) = []
      \<longleftrightarrow> (\<forall>xs. xp_accepts x = Some xs \<longrightarrow> mset ?taken = mset xs)"
    by (auto simp: sort_eq_iff split: option.split)
  have passed: "concat (map (\<lambda>(oid, why). if sublist why (dict_get_or '''' passes oid) then []
                 else [PassDiffers oid (dict_get passes oid)]) ps) = []
      \<longleftrightarrow> (\<forall>(oid, why) \<in> set ps. sublist why (dict_get_or '''' passes oid))" for ps
    by (auto split: if_splits)
  have made: "(case xp_offers_to x of None \<Rightarrow> [] | Some xs \<Rightarrow>
        if sorted_list_of_set (set (map fst ?made)) \<noteq> sort xs then [OffersDiffer (map fst ?made)] else []) = []
      \<longleftrightarrow> (\<forall>xs. xp_offers_to x = Some xs \<longrightarrow> distinct xs \<and> set xs = fst ` set ?made)"
    by (auto simp: sorted_set_sort split: option.split)
  have silent: "(if xp_no_actions x \<and> d_actions d \<noteq> [] then [ActsAnyway (map kind (d_actions d))] else []) = []
      \<longleftrightarrow> (xp_no_actions x \<longrightarrow> d_actions d = [])"
    by auto
  have pays: "\<exists>ps. (case xp_pays_only_with x of
             None \<Rightarrow> Inr []
           | Some n \<Rightarrow> bindE (named_resource n) (\<lambda>allowed.
               Inr (concat (map (\<lambda>(to, g). if \<exists>r \<in> set resources. r \<noteq> allowed \<and> get g r \<noteq> 0
                      then [PaysMore to] else []) ?made)))) = Inr ps
      \<and> (ps = [] \<longleftrightarrow> (\<forall>n. xp_pays_only_with x = Some n \<longrightarrow>
          (\<forall>to g r. (to, g) \<in> set ?made \<and> 0 < get g r \<longrightarrow> resource_name r = n)))"
  proof (cases "xp_pays_only_with x")
    case (Some n)
    with assms obtain r where r: "resource_name r = n" by blast
    then have "named_resource n = Inr r" by (simp add: named_resource_Inr)
    moreover have "resource_name r' = n \<longleftrightarrow> r' = r" for r' using r by (cases r; cases r') auto
    moreover have "r' \<in> set resources" for r' by (cases r') (simp_all add: resources_def)
    moreover have "concat (map (\<lambda>(to, g). if \<exists>r' \<in> set resources. r' \<noteq> r \<and> get g r' \<noteq> 0 then [PaysMore to] else []) os) = []
        \<longleftrightarrow> (\<forall>(to, g) \<in> set os. \<forall>r' \<in> set resources. 0 < get g r' \<longrightarrow> r' = r)" for os
    proof -
      have "(case x of (to, g) \<Rightarrow> if \<exists>r' \<in> set resources. r' \<noteq> r \<and> get g r' \<noteq> 0 then [PaysMore to] else []) = []
          \<longleftrightarrow> (case x of (to, g) \<Rightarrow> \<forall>r' \<in> set resources. 0 < get g r' \<longrightarrow> r' = r)" for x
        by (cases x) auto
      then show ?thesis by (simp only: concat_eq_Nil_conv set_map ball_simps)
    qed
    ultimately show ?thesis using Some by (auto simp del: set_concat)
  qed simp
  from pays obtain ps where ps: "(case xp_pays_only_with x of
             None \<Rightarrow> Inr []
           | Some n \<Rightarrow> bindE (named_resource n) (\<lambda>allowed.
               Inr (concat (map (\<lambda>(to, g). if \<exists>r \<in> set resources. r \<noteq> allowed \<and> get g r \<noteq> 0
                      then [PaysMore to] else []) ?made)))) = Inr ps"
    "ps = [] \<longleftrightarrow> (\<forall>n. xp_pays_only_with x = Some n \<longrightarrow>
          (\<forall>to g r. (to, g) \<in> set ?made \<and> 0 < get g r \<longrightarrow> resource_name r = n))" by blast
  show ?thesis
    unfolding check_expectations_def Let_def ps(1) bindE_simps as_expected_def
    by (intro exI conjI, rule refl) (simp only: append_is_Nil_conv accepts passed made silent ps(2) conj_assoc)
qed

lemma mapE_InrD: "mapE f xs = Inr ys \<Longrightarrow> y \<in> set ys \<Longrightarrow> \<exists>x \<in> set xs. f x = Inr y"
  by (induction xs arbitrary: ys) (auto elim!: bindE_InrE)

lemma mapE_map:
  assumes "mapE f xs = Inr ys" and "\<And>x y. f x = Inr y \<Longrightarrow> g y = h x"
  shows "map g ys = map h xs"
  using assms(1) by (induction xs arbitrary: ys) (auto elim!: bindE_InrE simp: assms(2))

lemma loaded_snapshot_ok:
  assumes "load_scenario doc = Inr s"
    and "distinct (map id_offer_id (get_or [] (sn_incoming_offers doc)))"
    and "\<forall>o' \<in> set (get_or [] (sn_incoming_offers doc)). id_from o' \<noteq> Some (get_or ''P01'' (sn_station doc))"
  shows "snapshot_ok s"
proof -
  let ?me = "get_or ''P01'' (sn_station doc)" and ?tick = "get_or 0 (sn_tick doc)"
  obtain os where os: "mapE (scenario_offer ?me ?tick) (get_or [] (sn_incoming_offers doc)) = Inr os" "offers s = os"
    using assms(1) by (auto simp: load_scenario_def Let_def elim!: bindE_InrE)
  have made: "id_offer_id o' = Some (offer_id x) \<and> id_from o' = Some (proposer_id x) \<and> recipient_id x = ?me"
    if "scenario_offer ?me ?tick o' = Inr x" for o' x
    using that by (auto simp: scenario_offer_def need_def elim!: bindE_InrE split: option.splits)
  have "map (Some \<circ> offer_id) os = map id_offer_id (get_or [] (sn_incoming_offers doc))"
    by (rule mapE_map [OF os(1)]) (simp add: made)
  with assms(2) have "distinct (map (Some \<circ> offer_id) os)" by simp
  then have "distinct (map offer_id os)" by (simp add: distinct_map comp_def inj_on_def)
  moreover have "proposer_id x \<noteq> recipient_id x" if "x \<in> set os" for x
    using mapE_InrD [OF os(1) that] made assms(3) by force
  ultimately show ?thesis by (simp add: snapshot_ok_def os(2))
qed

text \<open>C25: A scenario that loads, with distinct offer ids, no offer of our own and expectations that name
  resources only, gives a well-formed snapshot that every registered strategy decides and explains; each open
  incoming offer is accepted or has a reason, and the exit code is 0 exactly when the decision is the expected
  one.\<close>

theorem scenario_verdict:
  assumes "load_scenario doc = Inr s" and "get_strategy chosen = Inr st"
    and "distinct (map id_offer_id (get_or [] (sn_incoming_offers doc)))"
    and "\<forall>o' \<in> set (get_or [] (sn_incoming_offers doc)). id_from o' \<noteq> Some (get_or ''P01'' (sn_station doc))"
    and "\<forall>n. xp_pays_only_with (get_or no_expectations (sn_expect doc)) = Some n \<longrightarrow> (\<exists>r. resource_name r = n)"
  shows "snapshot_ok s \<and> (\<exists>d passes problems. evaluate doc chosen = Inr (d, passes, problems)
    \<and> set (dict_keys passes) = offer_id ` set (not_accepted s d)
    \<and> decide_once doc chosen = Inr (if as_expected d passes (get_or no_expectations (sn_expect doc)) then 0 else 1))"
proof -
  note ok = loaded_snapshot_ok [OF assms(1,3,4)]
  obtain d m' passes where d: "strategy_decide st s memory_init None (sn_command_budget doc) = Inr (d, m')"
    and passes: "explain_passes st s d = Inr passes" "set (dict_keys passes) = offer_id ` set (not_accepted s d)"
  proof (cases st)
    case ReserveTrader
    obtain d m' where d: "decide s memory_init None (sn_command_budget doc) = Inr (d, m')"
      using reserve_trader.pick_total [OF memory_ok_init ok] by blast
    with reserve_trader.why_total [OF memory_ok_init ok d] that ReserveTrader show ?thesis by auto
  next
    case Passive
    obtain d m' where d: "decide_passive s memory_init None (sn_command_budget doc) = Inr (d, m')"
      using observer.pick_total [OF memory_ok_init ok] by blast
    with observer.why_total [OF memory_ok_init ok d] that Passive show ?thesis by auto
  qed
  obtain problems where "check_expectations d passes (get_or no_expectations (sn_expect doc)) = Inr problems"
    "problems = [] \<longleftrightarrow> as_expected d passes (get_or no_expectations (sn_expect doc))"
    using check_expectations_verdict [OF assms(5)] by blast
  with passes(2) show ?thesis
    by (intro conjI [OF ok] exI [of _ d] exI [of _ passes] exI [of _ problems])
      (simp add: decide_once_def evaluate_def assms(1,2) d passes(1))
qed

text \<open>\<open>scenarios/incoming-gift.json\<close>.\<close>

definition incoming_gift :: scenario where
  "incoming_gift = \<lparr>sn_station = None, sn_tick = Some 12,
     sn_incoming_offers = Some [\<lparr>id_offer_id = Some ''offer-7'', id_from = Some ''P02'',
       id_they_give = Some [(''components'', 3)], id_they_want = Some [], id_expires_tick = None\<rparr>],
     sn_advertisements = None, sn_inventory = Some [(''water'', 30), (''food'', 30), (''components'', 30)],
     sn_health = None, sn_upkeep = None, sn_specialty = Some ''WATER'', sn_phase = None, sn_command_budget = None,
     sn_expect = Some (no_expectations\<lparr>xp_accepts := Some [''offer-7'']\<rparr>)\<rparr>"

theorem scenario_verdict_witness:
  "\<exists>d passes problems. evaluate incoming_gift DEFAULT_STRATEGY = Inr (d, passes, problems)
    \<and> decide_once incoming_gift DEFAULT_STRATEGY = Inr 0
    \<and> as_expected d passes (no_expectations\<lparr>xp_accepts := Some [''offer-7'']\<rparr>)"
proof -
  have "(case load_scenario incoming_gift of Inl _ \<Rightarrow> False | Inr _ \<Rightarrow> True)" by code_simp
  then obtain s where s: "load_scenario incoming_gift = Inr s" by (auto split: sum.splits)
  have st: "get_strategy DEFAULT_STRATEGY = Inr ReserveTrader"
    by (simp add: get_strategy_def STRATEGIES_def)
  have hyps: "distinct (map id_offer_id (get_or [] (sn_incoming_offers incoming_gift)))"
    "\<forall>o' \<in> set (get_or [] (sn_incoming_offers incoming_gift)). id_from o' \<noteq> Some (get_or ''P01'' (sn_station incoming_gift))"
    "\<forall>n. xp_pays_only_with (get_or no_expectations (sn_expect incoming_gift)) = Some n \<longrightarrow> (\<exists>r. resource_name r = n)"
    by (simp_all add: incoming_gift_def get_or_def no_expectations_def)
  have expected: "get_or no_expectations (sn_expect incoming_gift) = no_expectations\<lparr>xp_accepts := Some [''offer-7'']\<rparr>"
    by (simp add: incoming_gift_def get_or_def)
  have "(case load_scenario incoming_gift of Inl _ \<Rightarrow> False | Inr s \<Rightarrow>
      (case decide s memory_init None None of Inl _ \<Rightarrow> False
       | Inr d \<Rightarrow> concat (map accepted_offer (d_actions (fst d))) = [''offer-7'']))" by code_simp
  then obtain dm where dm: "decide s memory_init None None = Inr dm"
    "concat (map accepted_offer (d_actions (fst dm))) = [''offer-7'']"
    unfolding s by (auto split: sum.splits)
  obtain d passes problems where 1: "evaluate incoming_gift DEFAULT_STRATEGY = Inr (d, passes, problems)"
    "decide_once incoming_gift DEFAULT_STRATEGY
      = Inr (if as_expected d passes (no_expectations\<lparr>xp_accepts := Some [''offer-7'']\<rparr>) then 0 else 1)"
    using scenario_verdict [OF s st hyps, unfolded expected] by (elim exE conjE)
  have "sn_command_budget incoming_gift = None" by (simp add: incoming_gift_def)
  with 1(1) dm(1) have "d = fst dm"
    by (auto simp: evaluate_def s st elim!: bindE_InrE split: prod.splits)
  with dm(2) have "as_expected d passes (no_expectations\<lparr>xp_accepts := Some [''offer-7'']\<rparr>)"
    by (simp add: as_expected_def no_expectations_def get_or_def)
  with 1 show ?thesis by (intro exI conjI) simp_all
qed

end
