(* ===== verification/Report.thy ===== *)
theory Report
  imports Analysis Monitor Requests "HOL-Library.Sublist" "HOL-Library.List_Lexorder" "HOL-Library.Char_ord"
begin

text \<open>
  The texts \<open>scripts/analyze_evidence.py\<close> makes of a log: the story of one offer, the summary on the terminal, the
  Markdown summary and the rows of a trace. \<open>show_float\<close> is \<open>str\<close> of a float, \<open>show_json\<close> is \<open>json.dumps\<close> and
  \<open>show_time\<close> is \<open>isoformat\<close> of a time.
\<close>

definition str_int :: "int option \<Rightarrow> string" where
  "str_int v = (case v of None \<Rightarrow> ''None'' | Some n \<Rightarrow> show_int n)"

definition str_text :: "string option \<Rightarrow> string" where
  "str_text v = (case v of None \<Rightarrow> ''None'' | Some t \<Rightarrow> t)"

text \<open>\<open>f"{text:>n}"\<close>.\<close>

definition rjust :: "nat \<Rightarrow> string \<Rightarrow> string" where
  "rjust n t = replicate (n - length t) (CHR '' '') @ t"

definition get_bundle :: "(string \<times> int) list option \<Rightarrow> (string \<times> int) list" where
  "get_bundle b = (case b of None \<Rightarrow> [] | Some d \<Rightarrow> d)"

definition fmt_bundle :: "(string \<times> int) list option \<Rightarrow> string" where
  "fmt_bundle b = py_join '','' (map (\<lambda>r. show_int (dict_get_or 0 (get_bundle b) r)) RESOURCES)"

definition show_duration :: "rat \<Rightarrow> string" where
  "show_duration seconds =
     (let n = round_half_even seconds; minutes = n div 60; secs = n mod 60
      in if minutes \<noteq> 0 then show_int minutes @ ''m'' @ (if secs < 10 then ''0'' else []) @ show_int secs @ ''s''
         else show_int secs @ ''s'')"

subsection \<open>The story of an offer\<close>

definition made_by :: "log_record list \<Rightarrow> string option \<Rightarrow> log_record option" where
  "made_by records did = find (\<lambda>d. is_decision d \<and> lg_decision_id d = did) records"

definition offer_of_action :: "log_record \<Rightarrow> string option" where
  "offer_of_action r = (case dict_get (get_list (lg_action r)) ''offer_id'' of Some (JStr x) \<Rightarrow> Some x | _ \<Rightarrow> None)"

definition our_offer_lines :: "(rat \<Rightarrow> string) \<Rightarrow> ((string \<times> json_value) list \<Rightarrow> string) \<Rightarrow> log_record list \<Rightarrow> log_record \<Rightarrow>
    string list result" where
  "our_offer_lines show_float show_json records ours =
     bindE (case made_by records (lg_decision_id ours) of
         None \<Rightarrow> Inr []
       | Some d \<Rightarrow>
           bindE (key ''tick'' (lg_tick d)) (\<lambda>tick. bindE (key ''health'' (lg_health d)) (\<lambda>h.
           bindE (key ''inventory'' (lg_inventory d)) (\<lambda>stock. bindE (key ''decision_id'' (lg_decision_id d)) (\<lambda>did.
           Inr [''knew    tick '' @ show_int tick @ '': health '' @ show_int h @ '', stock '' @ fmt_bundle (Some stock)
                  @ '', targets '' @ fmt_bundle (lg_import_targets d) @ '', spendable ''
                  @ str_int (lg_specialty_spendable d),
                ''decided '' @ did @ '': '' @ py_join ''; '' (get_list (lg_reasons d))]))))) (\<lambda>known.
     bindE (key ''request_id'' (lg_request_id ours)) (\<lambda>rid. bindE (key ''action'' (lg_action ours)) (\<lambda>action.
     Inr (known @ [''sent    '' @ rid @ '': '' @ show_json action,
       ''server  '' @ str_text (lg_result_code ours) @ '' at tick '' @ str_int (lg_processed_tick ours) @ '' in ''
         @ (case lg_response_ms ours of None \<Rightarrow> ''None'' | Some x \<Rightarrow> show_float x) @ ''ms, confirmed by state ''
         @ str_int (lg_confirmed_snapshot_sequence ours)]))))"

definition their_offer_line :: "string \<Rightarrow> log_record \<Rightarrow> string list result" where
  "their_offer_line oid d = (case find (\<lambda>o'. ov_offer_id o' = oid) (get_list (lg_open_offers d)) of
     None \<Rightarrow> Inr []
   | Some view \<Rightarrow> bindE (key ''tick'' (lg_tick d)) (\<lambda>tick. bindE (key ''inventory'' (lg_inventory d)) (\<lambda>stock.
       Inr [''knew    tick '' @ show_int tick @ '': '' @ ov_counterparty view @ '' offers us ''
         @ fmt_bundle (Some (ov_we_get view)) @ '' for '' @ fmt_bundle (Some (ov_we_pay view))
         @ '' (water,food,components), expires t'' @ show_int (ov_expires_tick view) @ ''; our stock ''
         @ fmt_bundle (Some stock)])))"

definition passed_reason :: "string \<Rightarrow> log_record \<Rightarrow> string" where
  "passed_reason oid d = (case lg_passed_offers d of None \<Rightarrow> [] | Some ps \<Rightarrow> dict_get_or [] ps oid)"

definition passed_lines :: "string \<Rightarrow> log_record list \<Rightarrow> string list result" where
  "passed_lines oid ds = (case find (\<lambda>d. passed_reason oid d \<noteq> []) ds of
     None \<Rightarrow> Inr []
   | Some d \<Rightarrow> bindE (key ''tick'' (lg_tick d)) (\<lambda>tick. bindE (key ''decision_id'' (lg_decision_id d)) (\<lambda>did.
       Inr [''passed  tick '' @ show_int tick @ '' ('' @ did @ ''): '' @ passed_reason oid d])))"

definition accept_lines :: "log_record list \<Rightarrow> string \<Rightarrow> string list result" where
  "accept_lines records oid =
     (case find (\<lambda>r. is_command r \<and> lg_action_kind r = Some ''accept'' \<and> offer_of_action r = Some oid) records of
        None \<Rightarrow> Inr []
      | Some acc \<Rightarrow>
          let reasons = (case made_by records (lg_decision_id acc) of None \<Rightarrow> [] | Some d \<Rightarrow> get_list (lg_reasons d));
              why = (case find (sublist oid) reasons of None \<Rightarrow> [] | Some t \<Rightarrow> t)
          in bindE (key ''request_id'' (lg_request_id acc)) (\<lambda>rid.
             Inr [''decided '' @ str_text (lg_decision_id acc) @ '' at tick '' @ str_int (lg_observed_tick acc) @ '': '' @ why,
                  ''sent    '' @ rid @ '': accept'',
                  ''server  '' @ str_text (lg_result_code acc) @ '', transaction '' @ str_text (lg_transaction_id acc)
                    @ '', stock afterwards '' @ fmt_bundle (lg_inventory_after acc)]))"

definition settled_line :: "trade_sight \<Rightarrow> string" where
  "settled_line t = ''settled '' @ tv_transaction_id t @ '' at tick '' @ show_int (tv_settled_tick t) @ '' with ''
     @ tv_counterparty t @ '': paid '' @ fmt_bundle (Some (tv_we_paid t)) @ '', got '' @ fmt_bundle (Some (tv_we_got t))"

definition offer_story :: "(rat \<Rightarrow> string) \<Rightarrow> ((string \<times> json_value) list \<Rightarrow> string) \<Rightarrow> log_record list \<Rightarrow> string \<Rightarrow>
    string list result" where
  "offer_story show_float show_json records oid =
     bindE (decisions records) (\<lambda>ds.
     let first_seen = find (\<lambda>d. \<exists>o' \<in> set (get_list (lg_open_offers d)). ov_offer_id o' = oid) ds;
         ours = find (\<lambda>r. is_command r \<and> lg_object_id r = Some oid \<and> lg_action_kind r = Some ''offer'') records
     in bindE (case ours of Some r \<Rightarrow> our_offer_lines show_float show_json records r
          | None \<Rightarrow> (case first_seen of Some d \<Rightarrow> their_offer_line oid d | None \<Rightarrow> Inr [])) (\<lambda>known.
        bindE (passed_lines oid ds) (\<lambda>passed.
        bindE (accept_lines records oid) (\<lambda>accepted.
        let lines = known @ passed @ accepted;
            lines = (case find (\<lambda>t. tv_offer_id t = oid) (completed_trades records) of
              Some t \<Rightarrow> lines @ [settled_line t]
            | None \<Rightarrow> if lines = [] then lines
                else lines @ [''settled no: never became a trade we were party to in this log''])
        in Inr (if lines = [] then [oid @ '' does not appear in this log''] else lines)))))"

subsection \<open>Findings in words\<close>

definition show_signed :: "int \<Rightarrow> string" where
  "show_signed n = (if 0 \<le> n then ''+'' else []) @ show_int n"

fun describe_finding :: "(rat \<Rightarrow> string) \<Rightarrow> finding \<Rightarrow> string" where
  "describe_finding sf (DominantRejection _ c n whole) =
     ''most failed commands were '' @ c @ '' ('' @ show_int n @ '' of '' @ show_int whole @ '' rejections)''"
| "describe_finding sf (ShortageStreak _ s) =
     ''ran out of '' @ py_join '', '' (sk_empty s) @ '' for '' @ show_int (sk_length s) @ '' tick(s) straight (''
     @ (if sk_start s = sk_end s then ''tick '' @ show_int (sk_start s)
        else ''ticks '' @ show_int (sk_start s) @ ''-'' @ show_int (sk_end s))
     @ ''), losing '' @ show_int (sk_health_lost s) @ '' health''"
| "describe_finding sf (SlowStage _ name g) =
     ''slowest stage was '' @ name @ '' (p95 '' @ sf (sg_p95 g) @ ''ms over '' @ show_int (int (sg_count g)) @ '' samples)''"
| "describe_finding sf (HealthDrop _ tick h lost) =
     ''biggest single health drop was '' @ show_int lost @ '' at tick '' @ show_int tick @ '' (down to '' @ show_int h @ '')''"
| "describe_finding sf (TradeBalance _ n balance) =
     ''net across '' @ show_int (int n) @ '' trade(s): ''
     @ py_join '', '' (map (\<lambda>r. show_signed (dict_get_or 0 balance r) @ '' '' @ r) RESOURCES)"
| "describe_finding sf (DecisionGap _ a b n) =
     ''no decisions logged for ticks '' @ show_int a @ ''-'' @ show_int b @ '' ('' @ show_int n @ '' ticks)''"

subsection \<open>The Markdown summary\<close>

text \<open>\<open>str(value).replace("|", "\\|").replace("\n", " ")\<close>, and \<open>Unknown\<close> for \<open>None\<close>.\<close>

fun escape_cell :: "string \<Rightarrow> string" where
  "escape_cell [] = []"
| "escape_cell (c # cs) = (if c = CHR ''|'' then [CHR 0x5C, CHR ''|'']
     else if c = CHR 0x0A then '' '' else [c]) @ escape_cell cs"

definition cell :: "string option \<Rightarrow> string" where
  "cell v = escape_cell (case v of None \<Rightarrow> ''Unknown'' | Some t \<Rightarrow> t)"

text \<open>A row \<open>| a | b |\<close> of cells that are already escaped.\<close>

definition table_row :: "string list \<Rightarrow> string" where
  "table_row cells = ''|'' @ concat (map (\<lambda>c. '' '' @ c @ '' |'') cells)"

definition quantities :: "(string \<times> int) list \<Rightarrow> string" where
  "quantities b = (case filter (\<lambda>r. dict_get_or 0 b r \<noteq> 0) RESOURCES of
     [] \<Rightarrow> ''Nothing''
   | rs \<Rightarrow> py_join '', '' (map (\<lambda>r. show_int (dict_get_or 0 b r) @ '' '' @ r) rs))"

definition transfer_row :: "trade_sight \<Rightarrow> string" where
  "transfer_row t = table_row [cell (Some (show_int (tv_settled_tick t))), cell (Some (tv_counterparty t)),
     cell (Some (quantities (tv_we_got t))), cell (Some (quantities (tv_we_paid t)))]"

definition title_word :: "string \<Rightarrow> string" where
  "title_word r = (if r = ''water'' then ''Water'' else if r = ''food'' then ''Food''
     else if r = ''components'' then ''Components'' else r)"

definition outcome_rows :: "run_overview \<Rightarrow> nat \<Rightarrow> string list" where
  "outcome_rows o' short = map (\<lambda>(label, v). table_row [label, cell (map_option show_int v)])
     [(''Last observed tick'', ow_last_tick o'), (''Last observed health'', ow_final_health o'),
      (''Completed trades'', map_option int (ow_trades_completed o')),
      (''Commands confirmed'', Some (int (ow_commands_ok o'))),
      (''Commands rejected or unconfirmed'', Some (int (ow_commands_rejected o'))),
      (''Ticks with shortages'', Some (int short))]"

definition identity_lines :: "log_record \<Rightarrow> string list" where
  "identity_lines header = concat (map (\<lambda>(label, v). case v of None \<Rightarrow> []
       | Some t \<Rightarrow> [''- **'' @ label @ '':** '' @ cell (Some t)])
     [(''Station Id'', lg_station_id header), (''Strategy'', lg_strategy header), (''Build'', lg_build header),
      (''Mode'', lg_mode header)])"

definition opening_lines :: "(rat \<Rightarrow> string) \<Rightarrow> string \<Rightarrow> run_overview \<Rightarrow> nat \<Rightarrow> finding list \<Rightarrow> string list" where
  "opening_lines sf title o' short findings =
     [''# '' @ cell (Some title), [], ''Generated deterministically from the recorded evidence. No AI is used.'', [],
      ''## Outcome'', [], ''| Measure | Observed value |'', ''| --- | --- |'']
     @ outcome_rows o' short
     @ [[], ''These are client observations, not a guarantee of the final game outcome.'', [],
        ''## Last observed inventory'', [], ''| Resource | Units |'', ''| --- | ---: |'']
     @ map (\<lambda>r. table_row [title_word r, cell (map_option show_int (dict_get (get_bundle (ow_final_inventory o')) r))]) RESOURCES
     @ [[], ''## Key findings'', []]
     @ (if findings = [] then [''No warning patterns were found in the recorded events.'']
        else map (\<lambda>f. ''- '' @ cell (Some (describe_finding sf f))) findings)
     @ [[]]"

definition transfer_lines :: "log_record list \<Rightarrow> string list" where
  "transfer_lines records =
     [''## Completed transfers'', [], ''| Tick | Counterparty | Received | Paid |'', ''| ---: | --- | --- | --- |'']
     @ map transfer_row (completed_trades records) @ [[]]"

definition closing_lines :: "(rat \<Rightarrow> string) \<Rightarrow> response_report \<Rightarrow> log_record \<Rightarrow> string list" where
  "closing_lines sf speed header =
     [''## Timing'', [], ''| Stage | Median (ms) | 95th percentile (ms) |'', ''| --- | ---: | ---: |'']
     @ map (\<lambda>(name, g). table_row [cell (Some name), sf (sg_p50 g), sf (sg_p95 g)]) (rp_series speed)
     @ [[], ''## Run identity'', []] @ identity_lines header"

definition markdown_lines :: "(rat \<Rightarrow> string) \<Rightarrow> (string \<Rightarrow> rat result) \<Rightarrow> log_record list \<Rightarrow> string \<Rightarrow> string list result" where
  "markdown_lines sf ts records title =
     bindE (overview ts records) (\<lambda>o'.
     bindE (shortages records) (\<lambda>short.
     bindE (key_findings records) (\<lambda>findings.
     bindE (responsiveness records) (\<lambda>speed.
     Inr (opening_lines sf title o' (length short) findings @ transfer_lines records
        @ closing_lines sf speed (run_header records))))))"

definition newline :: string where "newline = [CHR 0x0A]"

definition markdown_report :: "(rat \<Rightarrow> string) \<Rightarrow> (string \<Rightarrow> rat result) \<Rightarrow> log_record list \<Rightarrow> string \<Rightarrow> string result" where
  "markdown_report sf ts records title =
     bindE (markdown_lines sf ts records title) (\<lambda>lines. Inr (py_join newline lines @ newline))"

text \<open>\<open>write_reports\<close> without its HTML archive: nothing for a file that is missing or empty, otherwise the path and
  the text of the summary. The path of the log is its directory and its stem.\<close>

definition removesuffix :: "string \<Rightarrow> string \<Rightarrow> string" where
  "removesuffix t s = (if s \<noteq> [] \<and> drop (length t - length s) t = s \<and> length s \<le> length t
     then take (length t - length s) t else t)"

definition text_or :: "string \<Rightarrow> string option \<Rightarrow> string" where
  "text_or d v = (case v of Some (c # cs) \<Rightarrow> c # cs | _ \<Rightarrow> d)"

definition write_reports :: "(rat \<Rightarrow> string) \<Rightarrow> (string \<Rightarrow> rat result) \<Rightarrow> string \<Rightarrow> string \<Rightarrow> log_record list option \<Rightarrow>
    string option \<Rightarrow> string option \<Rightarrow> (string \<times> string) option result" where
  "write_reports sf ts parent stem records out_dir title = (case records of
     None \<Rightarrow> Inr None
   | Some rs \<Rightarrow>
       let stem = removesuffix stem ''-evidence''; dir = (case out_dir of None \<Rightarrow> parent | Some d \<Rightarrow> d)
       in bindE (markdown_report sf ts rs (text_or (stem @ '' run summary'') title)) (\<lambda>t.
          Inr (Some (dir @ ''/'' @ stem @ ''-summary.md'', t))))"

subsection \<open>The rows of a trace\<close>

record outcome_row =
  oc_kind :: string
  oc_ok :: "bool option"
  oc_code :: string
  oc_request_id :: "string option"
  oc_object_id :: "string option"
  oc_inventory_after :: "(string \<times> int) list option"
  oc_notes :: "string list"

definition outcome_row_of :: "log_record \<Rightarrow> outcome_row result" where
  "outcome_row_of a = bindE (key ''action_kind'' (lg_action_kind a)) (\<lambda>kd.
     Inr \<lparr>oc_kind = kd, oc_ok = (if kd = ''sync'' then Some True else lg_result_ok a),
          oc_code = (if kd = ''sync'' then ''SENT'' else answer_code a), oc_request_id = lg_request_id a,
          oc_object_id = lg_object_id a, oc_inventory_after = lg_inventory_after a, oc_notes = get_list (lg_notes a)\<rparr>)"

record trace_row =
  tw_tick :: "int option"
  tw_timestamp :: "string option"
  tw_health :: "int option"
  tw_inventory :: "(string \<times> int) list option"
  tw_targets :: "(string \<times> int) list option"
  tw_spendable :: "int option"
  tw_open_offers :: "int option"
  tw_scripted :: bool
  tw_actions :: "(string \<times> (string \<times> json_value) list) list"
  tw_reasons :: "string list"
  tw_outcomes :: "outcome_row list"
  tw_decision_id :: "string option"
  tw_wait_reason :: "string option"
  tw_passed :: "(string, string) pydict"
  tw_timing :: "(rat option \<times> rat option) option"
  tw_skipped :: "int option"

definition trace_row_of :: "decision_trace \<Rightarrow> trace_row result" where
  "trace_row_of t = bindE (mapE outcome_row_of (dt_outcomes t)) (\<lambda>outcomes.
     case dt_decision t of
       None \<Rightarrow> (case dt_outcomes t of
           [] \<Rightarrow> Inl IndexError
         | a # _ \<Rightarrow> bindE (key ''action_kind'' (lg_action_kind a)) (\<lambda>kd.
             Inr \<lparr>tw_tick = lg_observed_tick a, tw_timestamp = lg_timestamp a, tw_health = None, tw_inventory = None,
                  tw_targets = None, tw_spendable = None, tw_open_offers = None, tw_scripted = True,
                  tw_actions = [(kd, get_list (lg_action a))],
                  tw_reasons = [''scripted step '' @ (case lg_step a of None \<Rightarrow> ''?'' | Some s \<Rightarrow> s) @ '' (no policy decision)''],
                  tw_outcomes = outcomes, tw_decision_id = None, tw_wait_reason = None, tw_passed = [],
                  tw_timing = None, tw_skipped = None\<rparr>))
     | Some d \<Rightarrow>
         bindE (key ''tick'' (lg_tick d)) (\<lambda>tick. bindE (key ''health'' (lg_health d)) (\<lambda>h.
         bindE (key ''inventory'' (lg_inventory d)) (\<lambda>stock.
         Inr \<lparr>tw_tick = Some tick, tw_timestamp = lg_timestamp d, tw_health = Some h, tw_inventory = Some stock,
              tw_targets = lg_import_targets d, tw_spendable = lg_specialty_spendable d,
              tw_open_offers = lg_open_outgoing_offers d, tw_scripted = False, tw_actions = get_list (lg_actions d),
              tw_reasons = get_list (lg_reasons d), tw_outcomes = outcomes, tw_decision_id = lg_decision_id d,
              tw_wait_reason = lg_wait_reason d,
              tw_passed = (case lg_passed_offers d of None \<Rightarrow> [] | Some ps \<Rightarrow> ps), tw_timing = lg_timing d,
              tw_skipped = lg_ticks_skipped d\<rparr>))))"

subsection \<open>The summary on the terminal\<close>

definition header_line :: "log_record \<Rightarrow> string" where
  "header_line h = ''build '' @ str_text (lg_build h)
     @ (case lg_dirty h of None \<Rightarrow> [] | Some True \<Rightarrow> '', uncommitted changes'' | Some False \<Rightarrow> '', clean'')
     @ ''; strategy '' @ str_text (lg_strategy h) @ ''; python '' @ str_text (lg_python h)"

definition connection_lines :: "(rat \<Rightarrow> string) \<Rightarrow> run_overview \<Rightarrow> period list \<Rightarrow> string list" where
  "connection_lines show_time o' periods =
     (if periods = [] then [''connection: no connection events in this log (recorded by newer clients)'']
      else (''connection: '' @ show_int (int (ow_connections o')) @ '' connects, total downtime ''
             @ show_duration (ow_downtime_s o'))
        # map (\<lambda>p. ''  down '' @ show_time (pe_start p) @ '' for '' @ show_duration (pe_seconds p)
              @ (case pe_detail p of Some (c # cs) \<Rightarrow> '' ('' @ (c # cs) @ '')'' | _ \<Rightarrow> []))
            (filter (\<lambda>p. pe_state p = Down \<and> 1 / 2 \<le> pe_seconds p) periods))"

definition shortage_lines :: "run_overview \<Rightarrow> shortage_row list \<Rightarrow> string list" where
  "shortage_lines o' short =
     (if short = [] then [''shortages: none'']
      else (''shortages: first at tick '' @ str_int (ow_first_shortage_tick o') @ '', '' @ show_int (int (length short))
             @ '' ticks affected, '' @ show_int (ow_health_lost o') @ '' health lost'')
        # map (\<lambda>s. ''  tick '' @ rjust 4 (show_int (sh_tick s)) @ ''  health '' @ rjust 3 (show_int (sh_health s))
              @ '' (-'' @ show_int (sh_health_lost s) @ '')''
              @ (if sh_empty s = [] then [] else '' out of '' @ py_join '','' (sh_empty s))) (take 10 short)
        @ (if 10 < length short then [''  ... '' @ show_int (int (length short) - 10) @ '' more''] else []))"

definition speed_lines :: "(rat \<Rightarrow> string) \<Rightarrow> response_report \<Rightarrow> string list" where
  "speed_lines sf speed =
     (if rp_series speed = [] then []
      else [[], ''responsiveness (ms):'']
        @ map (\<lambda>(name, g). ''  '' @ ljust 9 name @ '' n='' @ ljust 5 (show_int (int (sg_count g))) @ '' p50=''
              @ ljust 8 (sf (sg_p50 g)) @ '' p95='' @ ljust 8 (sf (sg_p95 g)) @ '' max='' @ sf (sg_max g)) (rp_series speed)
        @ (if rp_deadline_checks speed = 0 then []
           else [''  missed deadlines: '' @ show_int (int (rp_missed_deadlines speed)) @ '' of ''
                   @ show_int (int (rp_deadline_checks speed)) @ '' commands processed in a later tick than decided''])
        @ [''  decisions made while a newer state was arriving: '' @ show_int (int (rp_superseded speed))])"

definition participation_lines :: "participation_report \<Rightarrow> string list" where
  "participation_lines active =
     (if pt_acted active = 0 \<and> pt_waited active = 0 then []
      else [[], ''participation: acted on '' @ show_int (int (pt_acted active)) @ '' decisions, waited on ''
                  @ show_int (pt_waited active) @ '' by choice'']
        @ map (\<lambda>(reason, n). ''  wait '' @ rjust 4 (show_int n) @ ''x  '' @ reason) (pt_wait_reasons active)
        @ map (\<lambda>(tick, n). ''  stalled? '' @ show_int n @ '' tick(s) passed with no decision before tick '' @ show_int tick)
            (pt_skipped_ticks active)
        @ (if pt_stale_events active = [] then []
           else [''  state went stale '' @ show_int (int (length (pt_stale_events active))) @ '' time(s)''])
        @ (if pt_status_seconds active = [] then []
           else [''  time by status: '' @ py_join '', '' (map (\<lambda>(k, v). k @ '' '' @ show_fixed1 v @ ''s'')
                   (filter (\<lambda>(_, v). v \<noteq> 0) (pt_status_seconds active)))]))"

definition report_text_lines :: "(rat \<Rightarrow> string) \<Rightarrow> (rat \<Rightarrow> string) \<Rightarrow> (string \<Rightarrow> rat result) \<Rightarrow> log_record list \<Rightarrow> int \<Rightarrow>
    string list result" where
  "report_text_lines sf show_time ts records every =
     bindE (overview ts records) (\<lambda>o'.
     bindE (key_findings records) (\<lambda>findings.
     bindE (decision_gaps records 3) (\<lambda>gaps.
     bindE (connection_periods ts records) (\<lambda>periods.
     bindE (shortages records) (\<lambda>short.
     bindE (responsiveness records) (\<lambda>speed.
     bindE (participation records) (\<lambda>active.
     bindE (resource_timeline records every) (\<lambda>timeline.
     let header = find (\<lambda>r. lg_kind r = Some ''run_start'') records;
         trades = (case ow_trades_completed o' of
             Some n \<Rightarrow> show_int (int n) @ '' trades completed''
           | None \<Rightarrow> show_int (int (ow_trades_settled o')) @ '' trades settled by our accepts'');
         rejections = rejection_summary records
     in Inr ((case header of None \<Rightarrow> [] | Some h \<Rightarrow> [header_line h])
        @ (if findings = [] then [] else [[], ''key findings:''] @ map (\<lambda>f. ''  '' @ describe_finding sf f) findings)
        @ (if ow_decisions o' = 0 then [''no policy decisions logged (a scripted run records its commands only)'']
           else [''ticks '' @ str_int (ow_first_tick o') @ ''..'' @ str_int (ow_last_tick o') @ '': ''
                   @ show_int (int (ow_decisions o')) @ '' decisions logged, '' @ show_int (int (ow_acting_decisions o')) @ '' acted'',
                 ''final health '' @ str_int (ow_final_health o') @ ''  stock (water,food,components) ''
                   @ fmt_bundle (ow_final_inventory o')]
             @ map (\<lambda>(a, b). ''no decisions logged for ticks '' @ show_int a @ ''..'' @ show_int b @ '' (down or stalled)'') gaps)
        @ [''commands: '' @ show_int (int (ow_commands_sent o')) @ '' sent, '' @ show_int (int (ow_commands_ok o')) @ '' ok, ''
             @ show_int (int (ow_commands_rejected o')) @ '' rejected; '' @ trades, [], ''commands by kind:'']
        @ map (\<lambda>(k, n). ''  '' @ ljust 12 k @ '' '' @ rjust 4 (show_int n)) (sort_key fst (action_summary records))
        @ [if rejections = [] then ''rejections by code: none'' else ''rejections by code:'']
        @ map (\<lambda>(c, n). ''  '' @ ljust 24 c @ '' '' @ rjust 4 (show_int n)) (most_common rejections)
        @ [[]] @ connection_lines show_time o' periods
        @ [[]] @ shortage_lines o' short
        @ speed_lines sf speed
        @ participation_lines active
        @ (if timeline = [] then []
           else [[], ''over time (water,food,components):'']
             @ map (\<lambda>(tick, h, b). ''  tick '' @ rjust 4 (show_int tick) @ ''  health '' @ rjust 3 (show_int h)
                 @ ''  stock '' @ fmt_bundle (Some b)) timeline))))))))))"

definition report_text :: "(rat \<Rightarrow> string) \<Rightarrow> (rat \<Rightarrow> string) \<Rightarrow> (string \<Rightarrow> rat result) \<Rightarrow> log_record list \<Rightarrow> int \<Rightarrow> string result" where
  "report_text sf show_time ts records every =
     bindE (report_text_lines sf show_time ts records every) (\<lambda>lines. Inr (py_join newline lines))"

end
