(* ===== verification/Report_Facts.thy ===== *)
theory Report_Facts
  imports Report Analysis_Facts
begin

text \<open>The tables of the Markdown summary can be read back, whatever the log contains.\<close>

abbreviation NL :: char where "NL \<equiv> CHR 0x0A"
abbreviation BACKSLASH :: char where "BACKSLASH \<equiv> CHR 0x5C"

subsection \<open>A reader of Markdown\<close>

text \<open>The lines of a text, and the cells of a row: a bar ends a cell unless a backslash stands before it, which is
  then dropped.\<close>

fun lines_of :: "string \<Rightarrow> string list" where
  "lines_of [] = [[]]"
| "lines_of (c # cs) = (if c = NL then [] # lines_of cs
     else (c # hd (lines_of cs)) # tl (lines_of cs))"

definition onto_first :: "string \<Rightarrow> string list \<Rightarrow> string list" where
  "onto_first t xs = (t @ hd xs) # tl xs"

fun read_cells :: "string \<Rightarrow> string list" where
  "read_cells [] = [[]]"
| "read_cells (c # cs) =
     (if c = CHR ''|'' then [] # read_cells cs
      else if c = BACKSLASH \<and> take 1 cs = ''|'' then onto_first ''|'' (read_cells (tl cs))
      else onto_first [c] (read_cells cs))"

text \<open>A value as a cell shows it: line ends are blanks, with a blank around it.\<close>

definition flat :: "string \<Rightarrow> string" where
  "flat t = map (\<lambda>c. if c = NL then CHR '' '' else c) t"

definition padded :: "string \<Rightarrow> string" where
  "padded t = '' '' @ t @ '' ''"

lemma onto_first_simps [simp]:
  "onto_first a (onto_first b xs) = onto_first (a @ b) xs" "onto_first a ([] # xs) = a # xs"
  "onto_first a (b # xs) = (a @ b) # xs"
  by (simp_all add: onto_first_def)

lemma escape_cell_first: "take 1 (escape_cell t @ r) = ''|'' \<Longrightarrow> t = [] \<and> take 1 r = ''|''"
  by (cases t) (auto split: if_splits)

lemma read_escaped:
  "take 1 r \<noteq> ''|'' \<Longrightarrow> read_cells (escape_cell t @ r) = onto_first (flat t) (read_cells r)"
proof (induction t)
  case Nil
  have "read_cells r \<noteq> []" by (induction r rule: read_cells.induct) (simp_all add: onto_first_def)
  then show ?case by (simp add: flat_def onto_first_def)
next
  case (Cons c cs)
  have "take 1 (escape_cell cs @ r) \<noteq> ''|''" using escape_cell_first Cons.prems by blast
  with Cons show ?case by (auto simp: flat_def)
qed

lemma read_blank: "read_cells (CHR '' '' # r) = onto_first '' '' (read_cells r)"
  by simp

lemma read_row: "read_cells (concat (map (\<lambda>x. '' '' @ cell (Some x) @ '' |'') xs)) = map (\<lambda>x. padded (flat x)) xs @ [[]]"
proof (induction xs)
  case (Cons x xs)
  have "read_cells (escape_cell x @ '' |'' @ r) = onto_first (flat x) (read_cells ('' |'' @ r))" for r
    by (rule read_escaped) simp
  with Cons show ?case by (simp add: cell_def padded_def)
qed simp

lemma row_read_back: "read_cells (table_row (map (cell \<circ> Some) xs)) = [] # map (\<lambda>x. padded (flat x)) xs @ [[]]"
  using read_row [of xs] by (simp add: table_row_def comp_def)

subsection \<open>Lines\<close>

lemma lines_of_Cons: "lines_of (c # cs) \<noteq> []" "lines_of t \<noteq> []"
  by (cases t; simp)+

lemma lines_of_line: "NL \<notin> set l \<Longrightarrow> lines_of (l @ newline @ t) = l # lines_of t"
  by (induction l) (auto simp: newline_def)

lemma lines_of_joined:
  assumes "\<forall>l \<in> set ls. NL \<notin> set l" and "ls \<noteq> []"
  shows "lines_of (py_join newline ls @ newline) = ls @ [[]]"
  using assms
proof (induction newline ls rule: py_join.induct)
  case (2 x)
  then show ?case using lines_of_line [of x "[]"] by simp
next
  case (3 x y ys)
  then show ?case using lines_of_line [of x] by simp
qed simp

lemma cell_line: "NL \<notin> set (cell v)"
proof -
  have "NL \<notin> set (escape_cell t)" for t by (induction t) auto
  then show ?thesis by (simp add: cell_def)
qed

lemma row_line: "(\<forall>c \<in> set cs. NL \<notin> set c) \<Longrightarrow> NL \<notin> set (table_row cs)"
  by (auto simp: table_row_def)

lemma markdown_lines_plain:
  assumes "markdown_lines sf ts records title = Inr ls" and "\<And>x. NL \<notin> set (sf x)"
  shows "\<forall>l \<in> set ls. NL \<notin> set l"
proof -
  have "\<forall>l \<in> set (outcome_rows o' n). NL \<notin> set l" for o' n
    by (auto simp: outcome_rows_def cell_line intro!: row_line)
  moreover have "NL \<notin> set (transfer_row t)" for t
    by (auto simp: transfer_row_def cell_line intro!: row_line)
  moreover have "\<forall>l \<in> set (identity_lines h). NL \<notin> set l" for h
    by (auto simp: identity_lines_def cell_line split: option.splits)
  moreover have "NL \<notin> set (table_row [title_word r, cell v])" if "r \<in> set RESOURCES" for r v
    using that by (auto simp: RESOURCES_def title_word_def cell_line intro!: row_line)
  moreover have "NL \<notin> set (table_row [cell v, sf x, sf y])" for v x y
    using assms(2) by (auto simp: cell_line intro!: row_line)
  ultimately show ?thesis
    using assms(1) cell_line
    by (auto simp: markdown_lines_def opening_lines_def transfer_lines_def closing_lines_def elim!: bindE_InrE split: if_splits)
qed

subsection \<open>The transfers\<close>

lemma flat_plain: "NL \<notin> set t \<Longrightarrow> flat t = t"
  by (induction t) (auto simp: flat_def)

lemma show_int_line: "NL \<notin> set (show_int n)"
proof
  assume "NL \<in> set (show_int n)"
  then have "NL \<in> set (digits_of (nat (- n))) \<or> NL \<in> set (digits_of (nat n))"
    by (auto simp: show_int_def split: if_splits)
  then obtain d :: nat where "d < 10" "NL = char_of (48 + d)" using digits_of_range by blast
  moreover from this have "d \<in> {0, 1, 2, 3, 4, 5, 6, 7, 8, 9}" by auto
  ultimately show False by (elim insertE) (simp_all add: char_of_def)
qed

lemma joined_line: "NL \<notin> set sep \<Longrightarrow> \<forall>x \<in> set xs. NL \<notin> set x \<Longrightarrow> NL \<notin> set (py_join sep xs)"
  by (induction sep xs rule: py_join.induct) auto

lemma quantities_line: "NL \<notin> set (quantities b)"
proof -
  have "\<forall>r \<in> set RESOURCES. NL \<notin> set r" by (simp add: RESOURCES_def)
  then have "\<forall>x \<in> set (map (\<lambda>r. show_int (dict_get_or 0 b r) @ '' '' @ r) (filter (\<lambda>r. dict_get_or 0 b r \<noteq> 0) RESOURCES)).
      NL \<notin> set x" by (auto simp: show_int_line)
  then have "NL \<notin> set (py_join '', '' (map (\<lambda>r. show_int (dict_get_or 0 b r) @ '' '' @ r) (filter (\<lambda>r. dict_get_or 0 b r \<noteq> 0) RESOURCES)))"
    by (intro joined_line) auto
  then show ?thesis by (auto simp: quantities_def split: list.splits)
qed

text \<open>What a reader finds in the row of a trade.\<close>

definition shown_transfer :: "trade_sight \<Rightarrow> string list" where
  "shown_transfer t = [[], padded (show_int (tv_settled_tick t)), padded (flat (tv_counterparty t)),
     padded (quantities (tv_we_got t)), padded (quantities (tv_we_paid t)), []]"

lemma transfer_row_shown: "read_cells (transfer_row t) = shown_transfer t"
  using row_read_back [of "[show_int (tv_settled_tick t), tv_counterparty t, quantities (tv_we_got t), quantities (tv_we_paid t)]"]
  by (simp add: transfer_row_def shown_transfer_def flat_plain show_int_line quantities_line)

text \<open>C35: Reading the Markdown summary back, line by line and cell by cell, gives under the heading of the transfers
  one row for each completed trade of the log, in order, with its tick, counterparty and goods, whatever characters
  the texts of the log contain.\<close>

theorem transfers_read_back:
  assumes "write_reports sf ts parent stem (Some records) out_dir title = Inr written"
    and "\<forall>x. NL \<notin> set (sf x)"
  shows "\<exists>path summary before rows after. written = Some (path, summary)
    \<and> lines_of summary = before
        @ [''## Completed transfers'', [], ''| Tick | Counterparty | Received | Paid |'', ''| ---: | --- | --- | --- |'']
        @ rows @ [[]] @ after
    \<and> map read_cells rows = map shown_transfer (completed_trades records)"
proof -
  obtain path summary title' lines where w: "written = Some (path, summary)"
    "markdown_lines sf ts records title' = Inr lines" "summary = py_join newline lines @ newline"
    using assms(1) by (auto simp: write_reports_def markdown_report_def Let_def elim!: bindE_InrE)
  obtain before after where l: "lines = before @ transfer_lines records @ after"
    using w(2) by (auto simp: markdown_lines_def elim!: bindE_InrE)
  have "lines_of summary = lines @ [[]]"
    unfolding w(3) using markdown_lines_plain [OF w(2)] assms(2) l by (intro lines_of_joined) (auto simp: transfer_lines_def)
  then have "lines_of summary = before
        @ [''## Completed transfers'', [], ''| Tick | Counterparty | Received | Paid |'', ''| ---: | --- | --- | --- |'']
        @ map transfer_row (completed_trades records) @ [[]] @ (after @ [[]])" by (simp add: l transfer_lines_def)
  moreover have "map read_cells (map transfer_row (completed_trades records)) = map shown_transfer (completed_trades records)"
    by (simp add: transfer_row_shown)
  ultimately show ?thesis using w(1) by blast
qed

text \<open>A counterparty whose name would break the table.\<close>

definition demo_transfer :: trade_sight where
  "demo_transfer = \<lparr>tv_transaction_id = ''transaction-1'', tv_offer_id = ''offer-1'', tv_counterparty = ''P|2'',
     tv_we_paid = [(''water'', 2), (''food'', 0), (''components'', 0)],
     tv_we_got = [(''water'', 0), (''food'', 1), (''components'', 0)], tv_settled_tick = 3\<rparr>"

definition demo_records :: "log_record list" where
  "demo_records = [no_fields\<lparr>lg_kind := Some ''decision'', lg_tick := Some 4, lg_health := Some 100,
     lg_inventory := Some [(''water'', 5), (''food'', 6), (''components'', 7)],
     lg_new_transactions := Some [demo_transfer]\<rparr>]"

lemma demo_summary: "\<exists>w. write_reports (\<lambda>_. ''0.0'') demo_times ''logs'' ''P01-evidence'' (Some demo_records) None None = Inr w"
proof -
  have "(case overview demo_times demo_records of Inl _ \<Rightarrow> False | Inr _ \<Rightarrow> True)" by code_simp
  moreover have "(case shortages demo_records of Inl _ \<Rightarrow> False | Inr _ \<Rightarrow> True)" by code_simp
  moreover have "(case key_findings demo_records of Inl _ \<Rightarrow> False | Inr _ \<Rightarrow> True)" by code_simp
  moreover have "(case responsiveness demo_records of Inl _ \<Rightarrow> False | Inr _ \<Rightarrow> True)" by code_simp
  ultimately show ?thesis
    by (auto simp: write_reports_def markdown_report_def markdown_lines_def Let_def split: sum.splits)
qed

theorem transfers_read_back_witness:
  "\<exists>path summary row. write_reports (\<lambda>_. ''0.0'') demo_times ''logs'' ''P01-evidence'' (Some demo_records) None None
      = Inr (Some (path, summary))
    \<and> row \<in> set (lines_of summary) \<and> read_cells row = [[], '' 3 '', '' P|2 '', '' 1 food '', '' 2 water '', []]"
proof -
  obtain w where w: "write_reports (\<lambda>_. ''0.0'') demo_times ''logs'' ''P01-evidence'' (Some demo_records) None None = Inr w"
    using demo_summary by blast
  have ct: "completed_trades demo_records = [demo_transfer]" by code_simp
  have plain: "\<forall>x :: rat. NL \<notin> set ''0.0''" by simp
  obtain path summary before rows after where r: "w = Some (path, summary)"
    "lines_of summary = before
        @ [''## Completed transfers'', [], ''| Tick | Counterparty | Received | Paid |'', ''| ---: | --- | --- | --- |'']
        @ rows @ [[]] @ after"
    "map read_cells rows = map shown_transfer (completed_trades demo_records)"
    using transfers_read_back [OF w plain] by blast
  then obtain row where "rows = [row]" "read_cells row = shown_transfer demo_transfer"
    unfolding ct by (cases rows) auto
  moreover have "shown_transfer demo_transfer = [[], '' 3 '', '' P|2 '', '' 1 food '', '' 2 water '', []]" by code_simp
  ultimately show ?thesis using w r by (intro exI [of _ path] exI [of _ summary] exI [of _ row]) simp
qed

end
