(* ===== verification/Version.thy ===== *)
theory Version
  imports Secrets Strategy
begin

text \<open>
  \<open>bazaar_client/version.py\<close>: which build runs. \<open>files\<close> is what reading a path below the repository gives, \<open>None\<close>
  where nothing is there; a path that is there may still be unreadable, which is the \<open>OSError\<close> of the source. The
  answer of \<open>git status\<close>, the interpreter, the platform and the arguments are given.
\<close>

datatype path_read = Content string | Unreadable

type_synonym files = "string \<Rightarrow> path_read option"

definition read_text :: "files \<Rightarrow> string \<Rightarrow> string option" where
  "read_text files p = (case files p of Some (Content t) \<Rightarrow> Some t | _ \<Rightarrow> None)"

text \<open>\<open>text.splitlines()\<close>, for texts whose only line ends are \<open>\n\<close>.\<close>

fun text_lines :: "string \<Rightarrow> string list" where
  "text_lines [] = []"
| "text_lines (c # cs) = (if c = CHR 0x0A then [] # text_lines cs
     else case text_lines cs of [] \<Rightarrow> [[c]] | l # ls \<Rightarrow> (c # l) # ls)"

text \<open>\<open>ref.rsplit("/", 1)[-1]\<close>: what follows the last slash.\<close>

definition last_part :: "string \<Rightarrow> string" where
  "last_part t = rev (takeWhile (\<lambda>c. c \<noteq> CHR ''/'') (rev t))"

definition build_id :: "files \<Rightarrow> string" where
  "build_id files = (case read_text files ''.git/HEAD'' of
     None \<Rightarrow> ''unknown''
   | Some t \<Rightarrow>
       let head = strip t
       in if \<not> starts_with ''ref: '' head then take 12 head
          else let ref = drop 5 head
            in if files (''.git/'' @ ref) \<noteq> None then
                 (case read_text files (''.git/'' @ ref) of
                    None \<Rightarrow> ''unknown''
                  | Some c \<Rightarrow> last_part ref @ ''@'' @ take 12 (strip c))
               else (case read_text files ''.git/packed-refs'' of
                    None \<Rightarrow> ''unknown''
                  | Some p \<Rightarrow> (case find (suffix ('' '' @ ref)) (text_lines p) of
                      None \<Rightarrow> ''unknown''
                    | Some line \<Rightarrow> last_part ref @ ''@'' @ take 12 line)))"

text \<open>What \<open>git status --porcelain\<close> printed, \<open>None\<close> where it could not be run or failed.\<close>

definition working_tree_dirty :: "string option \<Rightarrow> bool option" where
  "working_tree_dirty printed = map_option (\<lambda>t. strip t \<noteq> []) printed"

record build_record =
  bi_build :: string
  bi_dirty :: "bool option"
  bi_python :: string
  bi_platform :: string
  bi_hash_seed :: string
  bi_argv :: "string list"

definition build_info :: "files \<Rightarrow> string option \<Rightarrow> string \<Rightarrow> string \<Rightarrow> string option \<Rightarrow> string list \<Rightarrow> build_record" where
  "build_info files printed python platform hash_seed argv =
     \<lparr>bi_build = build_id files, bi_dirty = working_tree_dirty printed, bi_python = python, bi_platform = platform,
      bi_hash_seed = (case hash_seed of None \<Rightarrow> ''random'' | Some s \<Rightarrow> s), bi_argv = redact_argv (drop 1 argv)\<rparr>"

definition describe_build :: "build_record \<Rightarrow> string" where
  "describe_build b = bi_build b @ '' ('' @ (case bi_dirty b of
     Some True \<Rightarrow> ''with uncommitted changes'' | Some False \<Rightarrow> ''clean'' | None \<Rightarrow> ''tree state unknown'') @ '')''"

subsection \<open>What a checkout shows\<close>

lemma strip_line: "strip (t @ [CHR 0x0A]) = strip t"
proof -
  have space: "py_space (CHR 0x0A)" by (simp add: py_space_def)
  show ?thesis
  proof (cases "\<forall>c \<in> set t. py_space c")
    case True
    then have "dropWhile py_space t = []" by simp
    moreover from True space have "dropWhile py_space (t @ [CHR 0x0A]) = []" by simp
    ultimately show ?thesis by (simp only: strip_def)
  next
    case False
    then have "dropWhile py_space (t @ [CHR 0x0A]) = dropWhile py_space t @ [CHR 0x0A]"
      by (auto simp: dropWhile_append)
    with space show ?thesis by (simp add: strip_def)
  qed
qed

lemma text_lines_line: "CHR 0x0A \<notin> set l \<Longrightarrow> text_lines (l @ CHR 0x0A # rest) = l # text_lines rest"
  by (induction l) auto

lemma last_part_ref: "CHR ''/'' \<notin> set branch \<Longrightarrow> last_part (before @ ''/'' @ branch) = branch"
proof -
  have "takeWhile (\<lambda>c. c \<noteq> CHR ''/'') (rev branch @ CHR ''/'' # rev before) = rev branch"
    if "CHR ''/'' \<notin> set branch"
    using that by (subst takeWhile_append2) auto
  then show "CHR ''/'' \<notin> set branch \<Longrightarrow> last_part (before @ ''/'' @ branch) = branch" by (simp add: last_part_def)
qed

text \<open>A branch is named with the commit its own file holds, whatever the packed references say of it; without such a
  file it is named with the commit of its line among the packed references.\<close>

lemma build_of_branch:
  assumes "files ''.git/HEAD'' = Some (Content (''ref: refs/heads/'' @ branch @ [CHR 0x0A]))"
    and "strip (''ref: refs/heads/'' @ branch) = ''ref: refs/heads/'' @ branch" and "CHR ''/'' \<notin> set branch"
  shows "files (''.git/refs/heads/'' @ branch) = Some (Content commit) \<Longrightarrow> build_id files = branch @ ''@'' @ take 12 (strip commit)"
    and "\<lbrakk>files (''.git/refs/heads/'' @ branch) = None; files ''.git/packed-refs'' = Some (Content packed);
      find (suffix ('' refs/heads/'' @ branch)) (text_lines packed) = Some line\<rbrakk>
      \<Longrightarrow> build_id files = branch @ ''@'' @ take 12 line"
proof -
  have head: "strip (''ref: refs/heads/'' @ branch @ [CHR 0x0A]) = ''ref: refs/heads/'' @ branch"
    using assms(2) strip_line [of "''ref: refs/heads/'' @ branch"] by simp
  have name: "last_part (''refs/heads/'' @ branch) = branch"
    using last_part_ref [OF assms(3), of "''refs/heads''"] by simp
  show "build_id files = branch @ ''@'' @ take 12 (strip commit)" if "files (''.git/refs/heads/'' @ branch) = Some (Content commit)"
    using that assms(1) head name by (simp add: build_id_def read_text_def starts_with_def Let_def)
  show "build_id files = branch @ ''@'' @ take 12 line"
    if "files (''.git/refs/heads/'' @ branch) = None" "files ''.git/packed-refs'' = Some (Content packed)"
      "find (suffix ('' refs/heads/'' @ branch)) (text_lines packed) = Some line"
    using that assms(1) head name by (simp add: build_id_def read_text_def starts_with_def Let_def)
qed

end
