(* ===== verification/Fleet.thy ===== *)
theory Fleet
  imports Orchestrate Monitor Version "HOL-Library.Sublist"
begin

text \<open>
  \<open>scripts/fleet.py\<close>: one client process per listed player, and what their log files say. The regular expressions
  are the pieces of \<open>rx\<close> the script uses, matched as \<open>re\<close> does: leftmost, the first way in the order of
  backtracking.
\<close>

subsection \<open>Regular expressions\<close>

text \<open>One character, as many as possible (at least some), as few as possible, a group.\<close>

datatype rx = One "char \<Rightarrow> bool" | Greedy "char \<Rightarrow> bool" nat | Lazy "char \<Rightarrow> bool" | Group "rx list"

text \<open>All matches at the beginning of a text, the preferred first: the groups and what is left.\<close>

fun matches :: "rx list \<Rightarrow> string \<Rightarrow> (string list \<times> string) list" where
  "matches [] s = [([], s)]"
| "matches (One p # rs) s = (case s of [] \<Rightarrow> [] | c # cs \<Rightarrow> if p c then matches rs cs else [])"
| "matches (Greedy p k # rs) s = concat (map (\<lambda>n. matches rs (drop n s)) (rev [k..<length (takeWhile p s) + 1]))"
| "matches (Lazy p # rs) s = concat (map (\<lambda>n. matches rs (drop n s)) [0..<length (takeWhile p s) + 1])"
| "matches (Group gs # rs) s = concat (map (\<lambda>(inner, rest).
     map (\<lambda>(caps, left). (take (length s - length rest) s # inner @ caps, left)) (matches rs rest)) (matches gs s))"

text \<open>\<open>findall\<close> of an expression that matches no empty text.\<close>

function findall :: "rx list \<Rightarrow> string \<Rightarrow> string list list" where
  "findall r [] = []"
| "findall r (c # cs) = (case matches r (c # cs) of
     [] \<Rightarrow> findall r cs
   | (caps, rest) # _ \<Rightarrow> if length rest \<le> length cs then caps # findall r rest else findall r cs)"
  by pat_completeness auto
termination by (relation "measure (\<lambda>(_, s). length s)") auto

definition found :: "rx list \<Rightarrow> string \<Rightarrow> bool" where
  "found r s \<longleftrightarrow> (\<exists>n \<in> set [0..<length s + 1]. matches r (drop n s) \<noteq> [])"

definition text_rx :: "string \<Rightarrow> rx list" where
  "text_rx t = map (\<lambda>c. One (\<lambda>d. d = c)) t"

definition is_digit :: "char \<Rightarrow> bool" where
  "is_digit c \<longleftrightarrow> digit_value c \<noteq> None"

definition is_word :: "char \<Rightarrow> bool" where
  "is_word c \<longleftrightarrow> (let n = of_char c :: nat in is_digit c \<or> 65 \<le> n \<and> n \<le> 90 \<or> 97 \<le> n \<and> n \<le> 122 \<or> c = CHR ''_'')"

abbreviation no_space :: "char \<Rightarrow> bool" where "no_space c \<equiv> \<not> py_space c"
abbreviation in_line :: "char \<Rightarrow> bool" where "in_line c \<equiv> c \<noteq> CHR 0x0A"

definition number_rx :: rx where "number_rx = Group [Greedy is_digit 1]"

definition braces_rx :: rx where
  "braces_rx = Group (text_rx ''{'' @ [Lazy in_line] @ text_rx ''}'')"

definition JOINED :: "rx list" where
  "JOINED = text_rx ''joined run '' @ [Group [Greedy no_space 1]] @ text_rx '' as '' @ [Group [Greedy no_space 1], Lazy in_line]
     @ text_rx ''tick '' @ [number_rx] @ text_rx '' of '' @ [number_rx]"

definition READY :: string where
  "READY = ''readiness confirmed: this key and endpoint are ready to trade''"

definition FINAL :: "rx list" where
  "FINAL = text_rx ''final: health='' @ [number_rx] @ text_rx '' inventory='' @ [braces_rx]"

definition PROGRESS :: "rx list" where
  "PROGRESS = text_rx ''| tick '' @ [number_rx] @ text_rx '' health '' @ [number_rx] @ text_rx '' inventory '' @ [braces_rx]"

definition WAITING :: "rx list" where
  "WAITING = text_rx ''| '' @ [Group (text_rx ''P'' @ [Greedy is_digit 1])] @ text_rx '' | tick '' @ [number_rx] @ text_rx ''/''
     @ [number_rx] @ text_rx '' | '' @ [Group [Greedy is_word 1]]"

text \<open>\<open>FAILURE\<close> as its alternatives.\<close>

definition failure_found :: "string \<Rightarrow> bool" where
  "failure_found l \<longleftrightarrow> found (text_rx ''token rejected'') l \<or> found (text_rx ''auth'' @ [Greedy is_word 0] @ text_rx '' fail'') l
     \<or> found (text_rx ''HTTP '' @ [One (\<lambda>c. c \<in> {CHR ''4'', CHR ''5''}), One is_digit, One is_digit]) l
     \<or> found (text_rx ''Traceback'') l \<or> found (text_rx ''ERROR'') l"

subsection \<open>Reading the logs\<close>

definition last_found :: "rx list \<Rightarrow> string \<Rightarrow> string list option" where
  "last_found r s = (case rev (findall r s) of [] \<Rightarrow> None | x # _ \<Rightarrow> Some x)"

definition describe_log :: "string \<Rightarrow> string" where
  "describe_log t = (case last_found FINAL t of
     Some [h, stock] \<Rightarrow> ''finished  health '' @ h @ ''  '' @ stock
   | _ \<Rightarrow>
     let problem = filter failure_found (text_lines t);
         line = (case last_found PROGRESS t of
             Some [tick, h, stock] \<Rightarrow> ''tick '' @ tick @ ''  health '' @ h @ ''  '' @ stock
           | _ \<Rightarrow> (case last_found WAITING t of
               Some [_, tick, whole, ph] \<Rightarrow> ph @ '' at tick '' @ tick @ ''/'' @ whole @ '', waiting for the run to start''
             | _ \<Rightarrow> (case last_found JOINED t of
                 Some [run, _, tick, whole] \<Rightarrow> run @ '' tick '' @ tick @ ''/'' @ whole
               | _ \<Rightarrow> ''connecting...'')))
     in if problem = [] then line
        else line @ ''  !! '' @ (let l = last problem in drop (length l - 90) l))"

definition key_ready :: "string \<Rightarrow> string \<Rightarrow> bool" where
  "key_ready sid t \<longleftrightarrow> sublist READY t \<and> (case last_found JOINED t of Some [_, who, _, _] \<Rightarrow> who = sid | _ \<Rightarrow> False)"

text \<open>\<open>run_check\<close>: the exit status from the logs of the players; the wait for the processes is left out.\<close>

definition check_status :: "(string \<Rightarrow> string) \<Rightarrow> string list \<Rightarrow> int" where
  "check_status log_of sids = (if length (filter (\<lambda>sid. key_ready sid (log_of sid)) sids) = length sids then 0 else 1)"

definition trade_status :: "(string, int) pydict \<Rightarrow> int" where
  "trade_status codes = (if list_all (\<lambda>n. n = 0) (dict_values codes) then 0 else 1)"

subsection \<open>Starting the clients\<close>

text \<open>The environment without \<open>BAZAAR_TOKEN\<close>, since each planet must use its own key.\<close>

definition fleet_environment :: "environ \<Rightarrow> environ" where
  "fleet_environment env = dict_set ''PYTHONUNBUFFERED'' ''1'' (dict_pop ''BAZAAR_TOKEN'' env)"

definition fleet_argv :: "string \<Rightarrow> string \<Rightarrow> string \<Rightarrow> string \<Rightarrow> string \<Rightarrow> string \<Rightarrow> string list" where
  "fleet_argv exe mode url path out sid =
     [exe, ''-m'', ''bazaar_client.cli'', ''--mode'', mode, ''--ws-url'', url, ''--credentials-file'', path,
      ''--station-id'', sid]
     @ (if mode = ''trade''
        then [''--evidence-file'', out @ ''/'' @ sid @ ''-evidence.jsonl'', ''--status-file'', out @ ''/'' @ sid @ ''-status.html'']
        else [''--no-evidence''])"

definition launch :: "string \<Rightarrow> environ \<Rightarrow> string \<Rightarrow> string \<Rightarrow> string \<Rightarrow> string \<Rightarrow> string list \<Rightarrow> (string, process) pydict" where
  "launch exe env mode url path out sids =
     fold (\<lambda>sid. dict_set sid (spawn (fleet_environment env) (fleet_argv exe mode url path out sid))) sids []"

text \<open>\<open>load_credentials\<close> and the endpoint: an address given on the command line wins.\<close>

datatype fleet_end = NoPlayers | NoEndpoint

definition fleet_endpoint :: "string option \<Rightarrow> string option \<Rightarrow> fleet_end + string" where
  "fleet_endpoint given_url file_url = (case given_url of
     Some (c # cs) \<Rightarrow> Inr (c # cs)
   | _ \<Rightarrow> (case file_url of Some (c # cs) \<Rightarrow> Inr (c # cs) | _ \<Rightarrow> Inl NoEndpoint))"

definition listed_players :: "credentials_document \<Rightarrow> fleet_end + player_entry list" where
  "listed_players doc = (case cd_players doc of
     Some (pl # pls) \<Rightarrow> Inr (pl # pls)
   | _ \<Rightarrow> Inl NoPlayers)"

subsection \<open>What the client logs\<close>

text \<open>The message of the check mode once readiness is confirmed, and the line it becomes.\<close>

definition joined_message :: "string \<Rightarrow> string \<Rightarrow> string \<Rightarrow> string \<Rightarrow> int \<Rightarrow> int \<Rightarrow> string" where
  "joined_message run sid build ph tick whole =
     ''joined run '' @ run @ '' as '' @ sid @ '' (client build '' @ build @ ''): phase '' @ ph @ '', tick '' @ show_int tick
     @ '' of '' @ show_int whole"

definition log_line :: "string \<Rightarrow> string \<Rightarrow> string \<Rightarrow> string \<Rightarrow> string" where
  "log_line stamp level name message =
     stamp @ '' '' @ ljust 7 level @ '' '' @ name @ '' | '' @ message @ [CHR 0x0A]"

end
