(* ===== verification/Fleet_Facts.thy ===== *)
theory Fleet_Facts
  imports Fleet Orchestrate_Facts
begin

text \<open>
  The keys the clients of \<open>scripts/fleet.py\<close> use, and that the script recognises what the client logs.
\<close>

subsection \<open>Preferred matches\<close>

definition best :: "rx list \<Rightarrow> string \<Rightarrow> string list \<times> string \<Rightarrow> bool" where
  "best rs s x \<longleftrightarrow> (\<exists>ys. matches rs s = x # ys)"

lemma best_Nil: "best [] s ([], s)"
  by (simp add: best_def)

lemma best_text: "best rs s x \<Longrightarrow> best (text_rx a @ rs) (a @ s) x"
  by (induction a) (simp_all add: text_rx_def best_def)

lemma no_match_text: "\<not> prefix a s \<Longrightarrow> matches (text_rx a @ rs) s = []"
  by (induction a arbitrary: s) (auto simp: text_rx_def split: list.splits)

lemma takeWhile_run: "\<forall>c \<in> set w. p c \<Longrightarrow> s = [] \<or> \<not> p (hd s) \<Longrightarrow> takeWhile p (w @ s) = w"
  by (cases s) (simp_all add: takeWhile_append2)

lemma best_run:
  assumes "w \<noteq> []" and "\<forall>c \<in> set w. p c" and "s = [] \<or> \<not> p (hd s)" and "best rs s (caps, rest)"
  shows "best (Group [Greedy p 1] # rs) (w @ s) (w # caps, rest)"
proof -
  have "[1..<length w + 1] = [1..<length w] @ [length w]" using assms(1) by (cases w) simp_all
  then have "matches [Greedy p 1] (w @ s) = ([], s) # map (\<lambda>n. ([], drop n (w @ s))) (rev [1..<length w])"
    using takeWhile_run [OF assms(2,3)] by (simp add: comp_def)
  with assms(4) show ?thesis by (auto simp: best_def)
qed

lemma best_lazy:
  assumes "\<forall>c \<in> set mid. p c" and "\<forall>n<length mid. matches rs (drop n (mid @ s)) = []" and "best rs s x"
  shows "best (Lazy p # rs) (mid @ s) x"
proof -
  let ?k = "length (takeWhile p (mid @ s))"
  have "length mid \<le> ?k" using assms(1) by (simp add: takeWhile_append2)
  then obtain k where k: "?k + 1 = length mid + (k + 1)" using le_Suc_ex by force
  have "[0..<length mid + (k + 1)] = [0..<length mid] @ [length mid..<length mid + (k + 1)]"
    using upt_add_eq_append [of 0 "length mid" "k + 1"] by simp
  also have "[length mid..<length mid + (k + 1)] = length mid # [length mid + 1..<length mid + (k + 1)]"
    by (simp add: upt_conv_Cons)
  finally have split: "[0..<?k + 1] = [0..<length mid] @ length mid # [length mid + 1..<?k + 1]" unfolding k .
  have "concat (map (\<lambda>n. matches rs (drop n (mid @ s))) [0..<length mid]) = []"
    using assms(2) by (simp only: concat_eq_Nil_conv set_map set_upt) auto
  then have "matches (Lazy p # rs) (mid @ s)
      = matches rs s @ concat (map (\<lambda>n. matches rs (drop n (mid @ s))) [length mid + 1..<?k + 1])"
    by (simp only: matches.simps split map_append concat_append list.map concat.simps append_Nil) simp
  with assms(3) show ?thesis by (auto simp: best_def)
qed

lemma findall_first:
  assumes "\<forall>n<length pre. matches r (drop n (pre @ s)) = []" and "best r s (caps, rest)" and "length rest < length s"
  shows "findall r (pre @ s) = caps # findall r rest"
  using assms(1)
proof (induction pre)
  case Nil
  obtain c cs where "s = c # cs" using assms(3) by (cases s) auto
  with assms(2,3) show ?case by (auto simp: best_def)
next
  case (Cons c pre)
  have "matches r ((c # pre) @ s) = []" using Cons.prems by (metis drop0 length_greater_0_conv list.discI)
  moreover have "\<forall>n<length pre. matches r (drop n (pre @ s)) = []"
    using Cons.prems by (metis Suc_less_eq append_Cons drop_Suc_Cons length_Cons)
  ultimately show ?case using Cons.IH by simp
qed

subsection \<open>The line of a confirmed key\<close>

lemma digits_are_digits: "0 \<le> n \<Longrightarrow> show_int n \<noteq> [] \<and> (\<forall>c \<in> set (show_int n). is_digit c)"
  using digits_plain [of _ "nat n"] by (auto simp: show_int_def is_digit_def)

text \<open>What stands between the station and the tick.\<close>

definition between :: "string \<Rightarrow> string \<Rightarrow> string" where
  "between build ph = '' (client build '' @ build @ ''): phase '' @ ph @ '', ''"

lemma joined_message_shape:
  "joined_message run sid build ph tick whole = ''joined run '' @ run @ '' as '' @ sid @ between build ph
     @ ''tick '' @ show_int tick @ '' of '' @ show_int whole"
  by (simp add: joined_message_def between_def)

lemma best_joined:
  assumes "run \<noteq> []" and "\<forall>c \<in> set run. no_space c" and "sid \<noteq> []" and "\<forall>c \<in> set sid. no_space c"
    and "0 \<le> tick" and "0 \<le> whole" and "\<forall>c \<in> set (between build ph). in_line c"
    and "\<forall>n<length (between build ph). \<not> prefix ''tick '' (drop n (between build ph @ ''tick ''))"
    and "after = [] \<or> \<not> is_digit (hd after)"
  shows "best JOINED (joined_message run sid build ph tick whole @ after) ([run, sid, show_int tick, show_int whole], after)"
proof -
  let ?mid = "between build ph"
  have number: "best (number_rx # rs) (show_int n @ s) (show_int n # caps, rest)"
    if "0 \<le> n" "s = [] \<or> \<not> is_digit (hd s)" "best rs s (caps, rest)" for n s rs caps rest
    unfolding number_rx_def using digits_are_digits [OF that(1)] that(2,3) by (intro best_run) auto
  have blank: "\<not> is_digit (hd ('' of '' @ t))" "\<not> no_space (hd ('' as '' @ t))" "\<not> no_space (hd (?mid @ t))" for t
    by (simp_all add: is_digit_def digit_value_def py_space_def between_def)
  have "best [number_rx] (show_int whole @ after) ([show_int whole], after)"
    by (rule number [OF assms(6,9) best_Nil])
  then have "best (text_rx '' of '' @ [number_rx]) ('' of '' @ show_int whole @ after) ([show_int whole], after)"
    by (rule best_text)
  then have "best (number_rx # text_rx '' of '' @ [number_rx]) (show_int tick @ '' of '' @ show_int whole @ after)
      ([show_int tick, show_int whole], after)"
    by (rule number [OF assms(5) disjI2 [OF blank(1)]])
  then have tail: "best (text_rx ''tick '' @ [number_rx] @ text_rx '' of '' @ [number_rx])
      (''tick '' @ show_int tick @ '' of '' @ show_int whole @ after) ([show_int tick, show_int whole], after)"
    unfolding append_Cons append_Nil(1) by (simp only: best_text [of _ _ _ "''tick ''", simplified])
  have "matches (text_rx ''tick '' @ rs) (drop n (?mid @ ''tick '' @ t)) = []" if "n < length ?mid" for n rs t
  proof (rule no_match_text)
    have "drop n (?mid @ ''tick '' @ t) = drop n (?mid @ ''tick '') @ t" using that by simp
    moreover have "length ''tick '' \<le> length (drop n (?mid @ ''tick ''))" using that by simp
    moreover have "\<not> prefix ''tick '' (drop n (?mid @ ''tick ''))" using assms(8) that by blast
    ultimately show "\<not> prefix ''tick '' (drop n (?mid @ ''tick '' @ t))"
      using prefix_length_prefix [of "''tick ''" _ "drop n (?mid @ ''tick '')"] by (metis prefixI)
  qed
  then have "best (Lazy in_line # text_rx ''tick '' @ [number_rx] @ text_rx '' of '' @ [number_rx])
      (?mid @ ''tick '' @ show_int tick @ '' of '' @ show_int whole @ after) ([show_int tick, show_int whole], after)"
    using assms(7) tail by (intro best_lazy) auto
  then have "best (Group [Greedy no_space 1] # Lazy in_line # text_rx ''tick '' @ [number_rx] @ text_rx '' of '' @ [number_rx])
      (sid @ ?mid @ ''tick '' @ show_int tick @ '' of '' @ show_int whole @ after) ([sid, show_int tick, show_int whole], after)"
    by (rule best_run [OF assms(3,4) disjI2 [OF blank(3)]])
  then have "best (text_rx '' as '' @ Group [Greedy no_space 1] # Lazy in_line # text_rx ''tick '' @ [number_rx] @ text_rx '' of '' @ [number_rx])
      ('' as '' @ sid @ ?mid @ ''tick '' @ show_int tick @ '' of '' @ show_int whole @ after) ([sid, show_int tick, show_int whole], after)"
    by (rule best_text)
  then have "best (Group [Greedy no_space 1] # text_rx '' as '' @ Group [Greedy no_space 1] # Lazy in_line
      # text_rx ''tick '' @ [number_rx] @ text_rx '' of '' @ [number_rx])
      (run @ '' as '' @ sid @ ?mid @ ''tick '' @ show_int tick @ '' of '' @ show_int whole @ after)
      ([run, sid, show_int tick, show_int whole], after)"
    by (rule best_run [OF assms(1,2) disjI2 [OF blank(2)]])
  from best_text [OF this, of "''joined run ''"] show ?thesis
    by (simp only: JOINED_def joined_message_shape append_assoc append_Cons append_Nil)
qed

lemma no_start: "\<not> prefix ''joined run '' s \<Longrightarrow> matches JOINED s = []"
  unfolding JOINED_def by (rule no_match_text)

lemma unique_start:
  assumes "\<forall>n<length before. \<not> prefix ''joined run '' (drop n (before @ ''joined run ''))" and "n < length before"
  shows "matches JOINED (drop n (before @ ''joined run '' @ t)) = []"
proof (rule no_start)
  have "drop n (before @ ''joined run '' @ t) = drop n (before @ ''joined run '') @ t" using assms(2) by simp
  moreover have "length ''joined run '' \<le> length (drop n (before @ ''joined run ''))" using assms(2) by simp
  ultimately show "\<not> prefix ''joined run '' (drop n (before @ ''joined run '' @ t))"
    using prefix_length_prefix [of "''joined run ''" _ "drop n (before @ ''joined run '')"] assms by (metis prefixI)
qed

text \<open>The script recognises a confirmed key from what the client's check mode logs: if the log holds the line of
  a join once, in whatever surroundings, the expression for it finds the run, the station, the tick and the
  length of the run as they were logged, and the key is reported ready exactly for the station that joined and
  when the log also says so.\<close>

theorem joined_line_recognised:
  assumes "content = before @ joined_message run sid build ph tick whole @ [CHR 0x0A] @ after"
    and "run \<noteq> []" and "\<forall>c \<in> set run. no_space c" and "sid \<noteq> []" and "\<forall>c \<in> set sid. no_space c"
    and "0 \<le> tick" and "0 \<le> whole" and "\<forall>c \<in> set (between build ph). in_line c"
    and "\<forall>n<length (between build ph). \<not> prefix ''tick '' (drop n (between build ph @ ''tick ''))"
    and "\<forall>n<length before. \<not> prefix ''joined run '' (drop n (before @ ''joined run ''))"
    and "findall JOINED after = []"
  shows "findall JOINED content = [[run, sid, show_int tick, show_int whole]]
    \<and> (key_ready who content \<longleftrightarrow> sublist READY content \<and> who = sid)"
proof -
  let ?message = "joined_message run sid build ph tick whole" and ?rest = "[CHR 0x0A] @ after"
  have "\<not> is_digit (CHR 0x0A)" by (simp add: is_digit_def digit_value_def)
  then have first: "best JOINED (?message @ ?rest) ([run, sid, show_int tick, show_int whole], ?rest)"
    using assms(2-9) by (intro best_joined) auto
  have shape: "?message @ ?rest = ''joined run '' @ drop 11 ?message @ ?rest" by (simp add: joined_message_def)
  have "\<forall>n<length before. matches JOINED (drop n (before @ ?message @ ?rest)) = []"
    unfolding shape using unique_start [OF assms(10)] by blast
  then have "findall JOINED (before @ ?message @ ?rest) = [run, sid, show_int tick, show_int whole] # findall JOINED ?rest"
    using first by (rule findall_first) (simp add: joined_message_def)
  moreover have "matches JOINED (CHR 0x0A # after) = []" by (rule no_start) simp
  ultimately have "findall JOINED content = [[run, sid, show_int tick, show_int whole]]"
    using assms(1,11) by simp
  then show ?thesis by (auto simp: key_ready_def last_found_def)
qed

theorem joined_line_recognised_witness:
  "check_status (\<lambda>_. log_line ''10:00'' ''INFO'' ''bazaar_client.cli'' (joined_message ''sim-1'' ''P02'' ''main@abc'' ''READY'' 0 30)
       @ log_line ''10:01'' ''INFO'' ''bazaar_client.cli'' READY) [''P02''] = 0"
proof -
  let ?line = "log_line ''10:00'' ''INFO'' ''bazaar_client.cli'' (joined_message ''sim-1'' ''P02'' ''main@abc'' ''READY'' 0 30)"
  let ?before = "''10:00 INFO    bazaar_client.cli | ''" and ?after = "log_line ''10:01'' ''INFO'' ''bazaar_client.cli'' READY"
  let ?content = "log_line ''10:00'' ''INFO'' ''bazaar_client.cli'' (joined_message ''sim-1'' ''P02'' ''main@abc'' ''READY'' 0 30) @ ?after"
  have below: "\<forall>n<k. P n" if "list_all P [0..<k]" for P k using that by (simp add: list_all_iff)
  have each: "\<forall>c \<in> set t. P c" if "list_all P t" for P and t :: string using that by (simp add: list_all_iff)
  have shape: "?content = ?before @ joined_message ''sim-1'' ''P02'' ''main@abc'' ''READY'' 0 30 @ [CHR 0x0A] @ ?after"
    by (simp add: log_line_def ljust_def numeral_3_eq_3)
  have tick: "list_all (\<lambda>n. \<not> prefix ''tick '' (drop n (between ''main@abc'' ''READY'' @ ''tick '')))
      [0..<length (between ''main@abc'' ''READY'')]" by code_simp
  have once: "list_all (\<lambda>n. \<not> prefix ''joined run '' (drop n (?before @ ''joined run ''))) [0..<length ?before]" by code_simp
  have rest: "findall JOINED ?after = []" by code_simp
  have plain: "list_all no_space ''sim-1''" "list_all no_space ''P02''" "list_all in_line (between ''main@abc'' ''READY'')"
    by code_simp+
  have "key_ready ''P02'' ?content \<longleftrightarrow> sublist READY ?content \<and> ''P02'' = ''P02''"
    by (rule conjunct2 [OF joined_line_recognised [OF shape _ each [OF plain(1)] _ each [OF plain(2)] _ _
        each [OF plain(3)] below [OF tick] below [OF once] rest]]) simp_all
  moreover have "sublist READY ?content"
    unfolding sublist_def log_line_def
    by (intro exI [of _ "?line @ ''10:01'' @ '' '' @ ljust 7 ''INFO'' @ '' '' @ ''bazaar_client.cli'' @ '' | ''"] exI [of _ "[CHR 0x0A]"])
      (simp only: append_assoc log_line_def)
  ultimately show ?thesis by (simp add: check_status_def)
qed

subsection \<open>Own keys\<close>

lemma fleet_token_dropped: "dict_get (fleet_environment env) ''BAZAAR_TOKEN'' = None"
  by (simp add: fleet_environment_def dict_get_set dict_get_pop)

lemma launched:
  assumes "dict_get (launch exe env mode url path out sids) sid = Some p"
  shows "p = spawn (fleet_environment env) (fleet_argv exe mode url path out sid) \<and> sid \<in> set sids"
proof -
  have "p = f sid \<and> (sid \<in> K \<or> sid \<in> set sids)"
    if "dict_get (fold (\<lambda>sid. dict_set sid (f sid)) sids d) sid = Some p"
      "\<forall>x. dict_get d sid = Some x \<longrightarrow> x = f sid \<and> sid \<in> K" for f d K
    using that
  proof (induction sids arbitrary: d K)
    case (Cons s sids)
    have "\<forall>x. dict_get (dict_set s (f s) d) sid = Some x \<longrightarrow> x = f sid \<and> sid \<in> insert s K"
      using Cons.prems(2) by (simp add: dict_get_set)
    from Cons.IH [OF _ this] Cons.prems(1) show ?case by auto
  qed auto
  from this [of "\<lambda>sid. spawn (fleet_environment env) (fleet_argv exe mode url path out sid)" "[]" "{}"] assms
  show ?thesis by (simp add: launch_def)
qed

text \<open>C36: Every client the script starts uses the key listed for its own planet: whatever the environment holds, a
  token for all of them included, if the client gets past its configuration then it is configured for the station
  it was started for, the script's endpoint and the first token the credentials file lists for that station.\<close>

theorem fleet_uses_own_keys:
  assumes "dict_get (launch exe env mode url path out sids) sid = Some p" and "mode \<in> {''check'', ''trade''}"
    and "take 1 url \<noteq> ''-''" and "take 1 path \<noteq> ''-''" and "take 1 sid \<noteq> ''-''" and "take 1 out \<noteq> ''-''" and "out \<noteq> []"
    and "parse_client (pr_env p) (drop 3 (pr_argv p)) = Inr args"
    and "config_from_args stamp (dict_get (pr_env p) ''BAZAAR_TOKEN'') (Some (Document doc)) args = Inr config"
  shows "cc_mode config = mode \<and> cc_station_id config = sid \<and> cc_ws_url config = url
    \<and> ca_credentials_file args = path_text path
    \<and> find_token (path_text path) sid (case cd_players doc of None \<Rightarrow> [] | Some ps \<Rightarrow> ps) = Inr (reveal (cc_token config))"
proof -
  have p: "pr_env p = fleet_environment env" "pr_argv p = fleet_argv exe mode url path out sid"
    using launched [OF assms(1)] by (simp_all add: spawn_def)
  have paths: "is_value client_options (out @ t)" for t using assms(6,7) by (cases out) (simp_all add: is_value_def)
  have vals: "is_value client_options url" "is_value client_options path" "is_value client_options sid"
    "is_value client_options ''check''" "is_value client_options ''trade''"
    using assms(3-5) by (auto intro!: is_value_plain)
  have meant: "meanings client_options ''--no-evidence'' = [(''--no-evidence'', False, None)]"
    "meanings client_options ''--status-file'' = [(''--status-file'', True, None)]"
    by (simp_all add: meanings_def client_options_def help_options_def)
  have "arg_items client_options (drop 3 (fleet_argv exe mode url path out sid)) =
     [Opt ''--mode'' mode, Opt ''--ws-url'' url, Opt ''--credentials-file'' path, Opt ''--station-id'' sid]
     @ (if mode = ''trade''
        then [Opt ''--evidence-file'' (out @ ''/'' @ sid @ ''-evidence.jsonl''), Opt ''--status-file'' (out @ ''/'' @ sid @ ''-status.html'')]
        else [Opt ''--no-evidence'' []])"
    using assms(2) by (auto simp: fleet_argv_def client_options_named meant vals paths)
  with assms(2,8) have args: "ca_mode args = mode" "ca_ws_url args = url" "ca_credentials_file args = path_text path"
    "ca_station_id args = sid" "ca_token args = None"
    unfolding p by (auto simp: parse_client_def set_client_def client_defaults_def MODES_def cli_args.defs split: option.splits)
  have "resolve_token None None sid (path_text path) (Some (Document doc)) = Inr (cc_token config)"
    using assms(9) args unfolding p(1) fleet_token_dropped by (auto simp: config_from_args_def split: if_splits sum.splits)
  then have "find_token (path_text path) sid (case cd_players doc of None \<Rightarrow> [] | Some ps \<Rightarrow> ps) = Inr (reveal (cc_token config))"
    by (cases "cc_token config") (auto simp: resolve_token_def read_token_from_credentials_def map_sum_def split: sum.splits)
  moreover have "cc_mode config = mode" "cc_station_id config = sid" "cc_ws_url config = url"
    using assms(9) args by (auto simp: config_from_args_def split: if_splits sum.splits)
  ultimately show ?thesis using args(3) by blast
qed

definition demo_keys_file :: credentials_document where
  "demo_keys_file = \<lparr>cd_run_id = None, cd_players = Some [\<lparr>pl_station_id = Some ''P01'', pl_token = Some ''key-1'', pl_display_name = None\<rparr>,
     \<lparr>pl_station_id = Some ''P02'', pl_token = Some ''key-2'', pl_display_name = None\<rparr>], cd_hivemind_key = None\<rparr>"

theorem fleet_uses_own_keys_witness:
  "\<exists>p args config. dict_get (launch ''python'' [(''BAZAAR_TOKEN'', ''key-1'')] ''check'' ''wss://host/ws'' ''keys.json'' ''logs'' [''P01'', ''P02'']) ''P02''
      = Some p
    \<and> parse_client (pr_env p) (drop 3 (pr_argv p)) = Inr args
    \<and> config_from_args ''now'' (dict_get (pr_env p) ''BAZAAR_TOKEN'') (Some (Document demo_keys_file)) args = Inr config
    \<and> reveal (cc_token config) = ''key-2''"
proof -
  let ?p = "spawn (fleet_environment [(''BAZAAR_TOKEN'', ''key-1'')]) (fleet_argv ''python'' ''check'' ''wss://host/ws'' ''keys.json'' ''logs'' ''P02'')"
  have p: "dict_get (launch ''python'' [(''BAZAAR_TOKEN'', ''key-1'')] ''check'' ''wss://host/ws'' ''keys.json'' ''logs'' [''P01'', ''P02'']) ''P02'' = Some ?p"
    by (simp add: launch_def)
  have "(case parse_client (pr_env ?p) (drop 3 (pr_argv ?p)) of Inl _ \<Rightarrow> False
      | Inr args \<Rightarrow> (case config_from_args ''now'' (dict_get (pr_env ?p) ''BAZAAR_TOKEN'') (Some (Document demo_keys_file)) args of
          Inl _ \<Rightarrow> False | Inr _ \<Rightarrow> True))" by code_simp
  then obtain args config where c: "parse_client (pr_env ?p) (drop 3 (pr_argv ?p)) = Inr args"
    "config_from_args ''now'' (dict_get (pr_env ?p) ''BAZAAR_TOKEN'') (Some (Document demo_keys_file)) args = Inr config"
    by (auto split: sum.splits)
  from fleet_uses_own_keys [OF p _ _ _ _ _ _ c] have "reveal (cc_token config) = ''key-2''"
    by (simp add: demo_keys_file_def)
  with p c show ?thesis by blast
qed

end
