(* ===== verification/Run_Log.thy ===== *)
theory Run_Log
  imports Report Arguments
begin

text \<open>
  Two scripts for developers: \<open>scripts/analyze_run.py\<close>, which summarises the log of a whole run, and
  \<open>scripts/check.py\<close>, which runs every check. The run log is what \<open>json.loads\<close> gives of it, with all the fields
  the script requires.
\<close>

subsection \<open>A run log\<close>

type_synonym quantities_of = "(string, int) pydict"

record listed_station =
  rs_display_id :: string
  rs_station_id :: string
  rs_label :: "string option"

record galaxy_station =
  gs_display_id :: string
  gs_produced :: quantities_of
  gs_first_failure_tick :: "int option"
  gs_health :: int
  gs_inventory :: quantities_of
  gs_imported :: quantities_of
  gs_exported :: quantities_of
  gs_unmet :: quantities_of
  gs_shortage_ticks :: int

record run_offer =
  ro_proposer :: string
  ro_give :: quantities_of
  ro_receive :: quantities_of
  ro_status :: string

record history_entry =
  hi_tick :: int
  hi_stations :: "(string \<times> int \<times> quantities_of) list"

record run_log =
  rl_run_id :: "string option"
  rl_stations :: "listed_station list"
  rl_galaxy :: "galaxy_station list"
  rl_offers :: "run_offer list"
  rl_history :: "history_entry list"
  rl_produced :: quantities_of
  rl_consumed :: quantities_of
  rl_ending :: quantities_of

definition labels_of :: "run_log \<Rightarrow> (string, string \<times> string) pydict" where
  "labels_of log' = fold (\<lambda>s. dict_set (rs_display_id s)
     (rs_station_id s, case rs_label s of None \<Rightarrow> [] | Some l \<Rightarrow> l)) (rl_stations log') []"

definition display_id_of :: "run_log \<Rightarrow> string \<Rightarrow> string result" where
  "display_id_of log' sid = (case find (\<lambda>(_, s, _). s = sid) (labels_of log') of
     Some (d, _) \<Rightarrow> Inr d
   | None \<Rightarrow> Inl (KeyError (''no station '' @ sid @ '' in this log'')))"

record planet_outcome =
  po_station_id :: string
  po_label :: string
  po_specialty :: string
  po_first_failure_tick :: "int option"
  po_health :: int
  po_inventory :: quantities_of
  po_imported :: quantities_of
  po_exported :: quantities_of
  po_unmet :: quantities_of
  po_shortage_ticks :: int

definition planet_outcome_of :: "run_log \<Rightarrow> galaxy_station \<Rightarrow> planet_outcome result" where
  "planet_outcome_of log' g =
     (case (case dict_get (labels_of log') (gs_display_id g) of None \<Rightarrow> (''?'', []) | Some x \<Rightarrow> x) of (sid, label) \<Rightarrow>
      (case py_max snd (gs_produced g) of
         None \<Rightarrow> Inl (ValueError ''max() iterable argument is empty'')
       | Some (most, _) \<Rightarrow> Inr \<lparr>po_station_id = sid, po_label = label, po_specialty = most,
           po_first_failure_tick = gs_first_failure_tick g, po_health = gs_health g, po_inventory = gs_inventory g,
           po_imported = gs_imported g, po_exported = gs_exported g, po_unmet = gs_unmet g,
           po_shortage_ticks = gs_shortage_ticks g\<rparr>))"

definition planet_outcomes :: "run_log \<Rightarrow> planet_outcome list result" where
  "planet_outcomes log' = bindE (mapE (planet_outcome_of log') (rl_galaxy log')) (\<lambda>rows.
     Inr (sort_key po_station_id rows))"

definition terms_of :: "run_offer \<Rightarrow> string" where
  "terms_of o' =
     (let give = sum_list (map snd (ro_give o')); receive = sum_list (map snd (ro_receive o'))
      in if receive = 0 then ''gift''
         else if give = receive then ''1:1''
         else if give < receive then ''asks more than it gives'' else ''gives more than it asks'')"

definition count_terms :: "(string \<times> string, int) pydict \<Rightarrow> string \<times> string \<Rightarrow> (string \<times> string, int) pydict" where
  "count_terms t k = dict_set k (dict_get_or 0 t k + 1) t"

definition offer_breakdown :: "run_log \<Rightarrow> string \<Rightarrow> (string \<times> string, int) pydict result" where
  "offer_breakdown log' sid = bindE (display_id_of log' sid) (\<lambda>d.
     Inr (fold (\<lambda>o' t. count_terms t (terms_of o', ro_status o')) (filter (\<lambda>o'. ro_proposer o' = d) (rl_offers log')) []))"

definition run_timeline :: "run_log \<Rightarrow> string \<Rightarrow> int \<Rightarrow> (int \<times> int \<times> quantities_of) list result" where
  "run_timeline log' sid every = bindE (display_id_of log' sid) (\<lambda>d.
     bindE (foldE (\<lambda>e (points, seen).
         if every = 0 then Inl ZeroDivisionError
         else if hi_tick e mod every \<noteq> 0 \<or> hi_tick e \<in> seen then Inr (points, seen)
         else Inr (points @ map (\<lambda>(_, h, b). (hi_tick e, h, b)) (filter (\<lambda>(x, _). x = d) (hi_stations e)),
                   insert (hi_tick e) seen)) (rl_history log') ([], {}))
       (\<lambda>(points, _). Inr points))"

definition outcome_line :: "planet_outcome \<Rightarrow> string" where
  "outcome_line r = ljust 4 (po_station_id r) @ '' '' @ ljust 9 (po_label r) @ '' '' @ ljust 11 (po_specialty r) @ '' ''
     @ rjust 6 (case po_first_failure_tick r of None \<Rightarrow> ''-'' | Some n \<Rightarrow> show_int n) @ '' '' @ rjust 4 (show_int (po_health r))
     @ '' '' @ rjust 13 (fmt_bundle (Some (po_inventory r))) @ '' '' @ rjust 11 (fmt_bundle (Some (po_imported r)))
     @ '' '' @ rjust 11 (fmt_bundle (Some (po_exported r))) @ '' '' @ rjust 9 (fmt_bundle (Some (po_unmet r)))"

definition station_lines :: "run_log \<Rightarrow> string \<Rightarrow> int \<Rightarrow> string list result" where
  "station_lines log' sid every =
     bindE (offer_breakdown log' sid) (\<lambda>breakdown. bindE (run_timeline log' sid every) (\<lambda>points.
     Inr ([[], sid @ '' offers: '' @ show_int (sum_list (map snd breakdown)) @ '' proposed'']
       @ map (\<lambda>((terms, status), n). ''  '' @ ljust 24 terms @ '' '' @ ljust 10 status @ '' '' @ rjust 4 (show_int n))
           (sort_key (\<lambda>((terms, _), _). terms) (sort_key (\<lambda>((_, status), _). status) breakdown))
       @ [[], sid @ '' over time (water,food,components):'']
       @ map (\<lambda>(tick, h, b). ''  tick '' @ rjust 4 (show_int tick) @ ''  health '' @ rjust 3 (show_int h)
           @ ''  stock '' @ fmt_bundle (Some b)) points)))"

definition run_report_lines :: "run_log \<Rightarrow> string option \<Rightarrow> int \<Rightarrow> string list result" where
  "run_report_lines log' sid every =
     bindE (planet_outcomes log') (\<lambda>rows.
     bindE (case sid of Some (c # cs) \<Rightarrow> station_lines log' (c # cs) every | _ \<Rightarrow> Inr []) (\<lambda>details.
     Inr ([''run '' @ (case rl_run_id log' of None \<Rightarrow> ''?'' | Some r \<Rightarrow> r) @ '': ''
             @ show_int (int (length (filter (\<lambda>r. po_first_failure_tick r \<noteq> None) rows))) @ '' of ''
             @ show_int (int (length rows)) @ '' planets failed'',
           ''galaxy (water,food,components): produced '' @ fmt_bundle (Some (rl_produced log')) @ ''  consumed ''
             @ fmt_bundle (Some (rl_consumed log')) @ ''  left unused '' @ fmt_bundle (Some (rl_ending log')),
           [],
           ljust 4 ''id'' @ '' '' @ ljust 9 ''label'' @ '' '' @ ljust 11 ''specialty'' @ '' '' @ rjust 6 ''failed'' @ '' ''
             @ rjust 4 ''hp'' @ '' '' @ rjust 13 ''inventory'' @ '' '' @ rjust 11 ''imported'' @ '' ''
             @ rjust 11 ''exported'' @ '' '' @ rjust 9 ''unmet'']
        @ map outcome_line rows @ details)))"

text \<open>Every offer of the station is in the breakdown once.\<close>

lemma count_terms_total: "sum_list (map snd (count_terms t k)) = sum_list (map snd t) + (1 :: int)"
proof -
  have "sum_list (map snd (dict_set k v t)) = sum_list (map snd t) + v - dict_get_or 0 t k" if "v = dict_get_or 0 t k + 1" for v :: int
    unfolding that dict_get_or_def by (induction t) auto
  then show ?thesis by (simp add: count_terms_def)
qed

lemma offers_all_counted:
  assumes "offer_breakdown log' sid = Inr t" and "display_id_of log' sid = Inr d"
  shows "sum_list (map snd t) = int (length (filter (\<lambda>o'. ro_proposer o' = d) (rl_offers log')))"
proof -
  have total: "sum_list (map snd (fold (\<lambda>o' t. count_terms t (terms_of o', ro_status o')) os t)) = sum_list (map snd t) + int (length os)"
    for os and t :: "(string \<times> string, int) pydict"
    by (induction os arbitrary: t) (simp_all add: count_terms_total)
  have "t = fold (\<lambda>o' t. count_terms t (terms_of o', ro_status o')) (filter (\<lambda>o'. ro_proposer o' = d) (rl_offers log')) []"
    using assms by (simp add: offer_breakdown_def)
  then show ?thesis by (simp add: total)
qed

subsection \<open>Every check\<close>

record check_args =
  ka_integration :: bool
  ka_quick :: bool
  ka_report :: string

definition check_options :: options where
  "check_options = help_options @ [(''--integration'', False), (''--quick'', False), (''--report'', True)]"

definition set_check :: "string \<Rightarrow> string \<Rightarrow> check_args \<Rightarrow> check_args option" where
  "set_check name v a =
     (if name = ''--integration'' then Some (a\<lparr>ka_integration := True\<rparr>)
      else if name = ''--quick'' then Some (a\<lparr>ka_quick := True\<rparr>)
      else if name = ''--report'' then Some (a\<lparr>ka_report := path_text v\<rparr>)
      else None)"

definition COVERAGE_FLOOR :: int where "COVERAGE_FLOOR = 85"

text \<open>\<open>on_path\<close> says whether \<open>shutil.which\<close> finds the practice server.\<close>

definition check_steps :: "string \<Rightarrow> string \<Rightarrow> bool \<Rightarrow> check_args \<Rightarrow> (string \<times> string list) list" where
  "check_steps exe repo on_path a =
     (let out = repo @ ''/logs/check''
      in [(''bindings'', [exe, ''-c'', ''import bazaar_pb2, websockets; print('' @ [CHR 0x27] @ ''bindings import'' @ [CHR 0x27] @ '')'']),
          (''compile'', [exe, ''-m'', ''compileall'', ''-q'', ''bazaar_client'', ''bazaar_sim'', ''scripts'', ''tests'']),
          (''tests'', [exe, ''-m'', ''pytest'', ''-q'', ''-m'', ''not integration'', ''-p'', ''no:cacheprovider'',
             ''--cov=bazaar_client'', ''--cov=bazaar_sim'', ''--cov-branch'', ''--cov-report=term'',
             ''--cov-fail-under='' @ show_int COVERAGE_FLOOR])]
         @ (if ka_integration a \<or> on_path
            then [(''integration'', [exe, ''-m'', ''pytest'', ''-q'', ''-m'', ''integration'', ''-p'', ''no:cacheprovider''])]
            else [])
         @ (if ka_quick a then []
            else [(''simulation'', [exe, ''-m'', ''bazaar_sim.orchestrate'', ''--planets'', ''3'', ''--ticks'', ''10'',
                     ''--tick-ms'', ''150'', ''--out'', out @ ''/sim'', ''--no-dashboards'']),
                  (''benchmark'', [exe, ''-m'', ''bazaar_sim.benchmark'', ''--seeds'', ''1'', ''--slots'', ''0'',
                     ''--planets'', ''3'', ''--out'', out @ ''/benchmark.json'', ''--markdown'', out @ ''/benchmark.md'']),
                  (''reproduce'', [exe, ''-m'', ''bazaar_sim.benchmark'', ''--check'', out @ ''/benchmark.json''])]))"

text \<open>\<open>main\<close>: every step runs, whatever the others returned; \<open>exits\<close> is the return code of a command.\<close>

definition run_checks :: "(string list \<Rightarrow> int) \<Rightarrow> (string \<times> string list) list \<Rightarrow> (string \<times> string list \<times> int) list" where
  "run_checks exits plan = map (\<lambda>(name, command). (name, tl command, exits command)) plan"

definition checks_status :: "(string \<times> string list \<times> int) list \<Rightarrow> int" where
  "checks_status results = (if list_all (\<lambda>(_, _, n). n = 0) results then 0 else 1)"

end
