(* ===== verification/Benchmark_Main.thy ===== *)
theory Benchmark_Main
  imports Benchmark_Facts
begin

text \<open>
  \<open>main\<close> of \<open>bazaar_sim/benchmark.py\<close> on parsed arguments: the check of a recorded benchmark and a new one, with their
  exit status. The files it writes and the table it prints are left out.
\<close>

record bench_args =
  ba_scenarios :: "string list"
  ba_candidates :: "string list"
  ba_seeds :: int
  ba_slots :: "int list"
  ba_planets :: "nat list"
  ba_ticks :: nat
  ba_check :: "bench_row list option"

definition DEFAULT_CANDIDATES :: "string list" where
  "DEFAULT_CANDIDATES = [''reserve-trader'', ''passive'', ''small-fair'']"

definition bench_defaults :: bench_args where
  "bench_defaults = \<lparr>ba_scenarios = SCENARIOS, ba_candidates = DEFAULT_CANDIDATES, ba_seeds = 5, ba_slots = [0, 1, 2],
     ba_planets = [3, 5, 9], ba_ticks = RUN_TICKS, ba_check = None\<rparr>"

text \<open>The number the check prints as reproduced exactly.\<close>

definition reproduced :: "nat \<Rightarrow> (bench_case \<times> string) list \<Rightarrow> int" where
  "reproduced n mismatches = int n - int (length mismatches)"

definition bench_cases :: "bench_args \<Rightarrow> bench_case list" where
  "bench_cases a = build_cases (ba_scenarios a) [1..ba_seeds a] (map nat (ba_slots a)) (ba_candidates a) (ba_planets a) (ba_ticks a)"

definition bench_main :: "'g python_random \<Rightarrow> bench_args \<Rightarrow> int result" where
  "bench_main rng a = (case ba_check a of
     Some rs \<Rightarrow> bindE (check_rows rng rs) (\<lambda>(_, mismatches).
       Inr (if mismatches \<noteq> [] then 1 else 0))
   | None \<Rightarrow>
       if list_ex (\<lambda>s. \<not> (0 \<le> s \<and> s < int FIELD_PLANETS)) (ba_slots a) then Inr 2
       else bindE (run_benchmark rng (bench_cases a)) (\<lambda>_. Inr 0))"

subsection \<open>Recorded runs\<close>

text \<open>A benchmark that was recorded reproduces itself: \<open>run_case\<close> is a function of the case.\<close>

lemma mapE_no_problems:
  "mapE (\<lambda>row. bindE (run (case_of' row)) (\<lambda>again. Inr (probs row again))) rows = Inr (map (\<lambda>_. []) rows)"
  if "\<forall>row \<in> set rows. run (case_of' row) = Inr row" and "\<forall>row. probs row row = []"
  using that by (induction rows) auto

lemma mapE_rows_of: "mapE f cs = Inr rows \<Longrightarrow> \<forall>c r. f c = Inr r \<longrightarrow> g r = c \<Longrightarrow> \<forall>r \<in> set rows. f (g r) = Inr r"
  by (induction cs arbitrary: rows) (auto simp: bindE_Inr_iff)

lemma run_case_of: "run_case rng c = Inr r \<Longrightarrow> br_case r = c"
  by (auto simp: run_case_def Let_def elim!: bindE_InrE split: prod.splits)

lemma recorded_reproduces:
  assumes "run_benchmark rng cases = Inr (rows, summary)" and "ba_check a = Some rows"
  shows "check_rows rng rows = Inr (length rows, [])" and "bench_main rng a = Inr 0"
proof -
  have "mapE (run_case rng) cases = Inr rows"
    using assms(1) by (auto simp: run_benchmark_def elim!: bindE_InrE)
  then have "\<forall>r \<in> set rows. run_case rng (br_case r) = Inr r"
    by (rule mapE_rows_of) (blast dest: run_case_of)
  then have "mapE (\<lambda>row. bindE (run_case rng (br_case row)) (\<lambda>again.
      Inr (map (\<lambda>f. (br_case row, f)) (row_problems row again)))) rows = Inr (map (\<lambda>_. []) rows)"
    by (rule mapE_no_problems) (simp add: row_problems_def)
  moreover have "concat (map (\<lambda>_. []) rows) = ([] :: (bench_case \<times> string) list)" by simp
  ultimately show 1: "check_rows rng rows = Inr (length rows, [])" by (simp add: check_rows_def del: concat_map_singleton)
  show "bench_main rng a = Inr 0" by (simp add: bench_main_def assms(2) 1)
qed

text \<open>One run that comes out differently in every field takes three off the number of runs reproduced.\<close>

lemma reproduced_below_zero:
  assumes "run_case rng c = Inr again"
  shows "\<exists>row mismatches. check_rows rng [row] = Inr (1, mismatches) \<and> reproduced 1 mismatches = -2"
proof -
  let ?row = "again\<lparr>br_score := (br_score again)\<lparr>sc_survivors := sc_survivors (br_score again) + 1\<rparr>,
    br_failed := (''P99'', 0) # br_failed again, br_transactions := br_transactions again + 1\<rparr>"
  have "br_case ?row = c" using run_case_of [OF assms] by simp
  moreover have "row_problems ?row again = [''score'', ''failed'', ''transactions'']"
    by (cases again, cases "br_score again") (simp add: row_problems_def)
  ultimately have "check_rows rng [?row] = Inr (1, map (\<lambda>f. (c, f)) [''score'', ''failed'', ''transactions''])"
    using assms by (simp add: check_rows_def)
  then show ?thesis by (intro exI conjI) (assumption, simp add: reproduced_def)
qed

end
