(* ===== verification/Spec2Isabelle.thy ===== *)
theory Spec2Isabelle
  imports Reconnect Server_Safety Analysis_Facts Config Orchestrate_Facts Cli_Facts Dashboard_Facts Benchmark_Facts Walkthrough_Facts Hivemind_Facts Scenario_Facts
    Report_Facts Fleet_Facts Run_Log Version Benchmark_Main
begin

text \<open>
  Verification library of the Spaceport Bazaar client and of the simulator it is developed
  against.

  \<^bold>\<open>The program.\<close> A station of the bazaar produces one resource, consumes three every tick and
  trades the difference with the other stations. The client receives snapshots of the world over
  a websocket, decides once per tick what to accept, withdraw, offer, advertise or give away, and
  sends those commands under the server's limits. The repository also holds a simulated server.

  \<^bold>\<open>Values.\<close> \<open>Prelude\<close> has the exceptions and the sum type that carries them, Python's ordered
  dictionaries (with the interface \<open>py_mapping\<close>), \<open>max\<close>/\<open>min\<close> with keys and decimal printing;
  \<open>Floats\<close> has IEEE double arithmetic with round-to-even written out on rationals; \<open>Types\<close> and
  \<open>Actions\<close> are \<open>domain/types.py\<close> and \<open>execution/actions.py\<close>.

  \<^bold>\<open>The client's view of the world.\<close> \<open>World_Model\<close> (\<open>world/model.py\<close>, interface \<open>newest_view\<close>: the
  newest snapshot wins), \<open>Commitments\<close> (\<open>world/commitments.py\<close>), \<open>Counterparties\<close>
  (\<open>world/counterparties.py\<close>), \<open>Memory\<close> (\<open>policy/memory.py\<close>).

  \<^bold>\<open>The policy.\<close> \<open>Reserves\<close>, \<open>Pricing\<close>, \<open>Accept\<close>, \<open>Targeting\<close>, \<open>Altruism\<close>, \<open>Advertising\<close> are the
  modules of the same names under \<open>policy/\<close>; \<open>Decide\<close> composes them as \<open>policy/decide.py\<close> does,
  one definition per step, and \<open>Decide_Safety\<close> carries the invariant \<open>batch_ok\<close> through the steps:
  what a decision may promise, that it always returns, and that each action is allowed.

  \<^bold>\<open>The connection.\<close> \<open>Throttle\<close> (interface \<open>quota\<close>, provided again by the server's command counts),
  \<open>Requests\<close> and \<open>Lifecycle\<close> are the modules of \<open>connection/\<close>; the lifecycle is a state machine with
  a step relation \<open>lc_run\<close> over its inputs. \<open>Messages\<close> is the protobuf schema and \<open>Mappers\<close>
  \<open>domain/mappers.py\<close>: each message interprets \<open>wire_format\<close>, which says that encoding succeeds on
  values that fit 64 bits, that decoding inverts it and that no required field is missing.

  \<^bold>\<open>The session.\<close> \<open>Session\<close> is \<open>app.py\<close> with the socket operations of \<open>connection/ws_client.py\<close>: the
  state of one \<open>BazaarSession\<close> with its futures, cut at the awaits, and \<open>session_reach\<close>, in which the event
  loop takes receive task, pump task and callers in any order. \<open>Session_Inv\<close> proves what every
  reachable session keeps (the newest snapshots, waiters and their futures, registered commands),
  \<open>Session_Live\<close> that the pump leaves nobody waiting, whether its writes succeed or not, unless
  the write of the readiness declaration itself fails, and \<open>Session_Safety\<close> states the claims.

  \<^bold>\<open>The trading loop.\<close> \<open>Evidence\<close> (\<open>execution/evidence.py\<close>: the log as a list of lines, its records
  addressed by position, and the rotation of its file), \<open>Monitor\<close> (\<open>metrics.py\<close>, \<open>status.py\<close>) and
  \<open>Status_View\<close> (\<open>status_view.py\<close>) are what it reports with. \<open>Executor\<close> is \<open>execution/executor.py\<close>: one
  command through the stages of \<open>stage\<close>, where the relation \<open>execution\<close> lets the session change in any way
  between two stages; \<open>Executor_Safety\<close> states what a call promises. \<open>Trading\<close> is the \<open>TradingLoop\<close> of
  \<open>autonomous.py\<close>, with a step that decides through the strategies' interface and acts through the executor
  (\<open>step_run\<close>) and the loop of one connection (\<open>run_loop\<close>); \<open>Diagnostics\<close> (\<open>diagnostics.py\<close>) sorts failures
  and \<open>Reconnect\<close> is \<open>run_trading\<close> around it: which ends of a connection are retried, how long a RATE_LIMITED answer
  silences the client (\<open>loop_goes_on\<close>, the moves of all connections), and three lemmas on where the loop falls short.

  \<^bold>\<open>The simulated server.\<close> \<open>Economy\<close> is \<open>bazaar_sim/economy.py\<close>; \<open>Economy_Inv\<close> proves its state
  invariant for commands, ticks and the end of the run, \<open>Economy_Ledger\<close> its books, and
  \<open>Economy_Safety\<close> states what holds in every reachable world. \<open>Wire\<close> is \<open>codec/wire.py\<close>, the
  builders of commands and \<open>bazaar_sim/codec.py\<close>; \<open>Server\<close> is \<open>bazaar_sim/server.py\<close>, one step per
  received frame, connection, start or tick, with the encoding of what a step sends beside it (\<open>on_wire\<close>); \<open>Server_Inv\<close> has its invariant \<open>server_ok\<close> and the step
  relation \<open>server_step\<close>, and \<open>Server_Safety\<close> the claims, with the client's view at the other end.

  \<^bold>\<open>Strategies and simulated runs.\<close> \<open>Strategy\<close> (\<open>strategy.py\<close>, interface \<open>trading_strategy\<close>, provided by
  both registered strategies), \<open>Opponents\<close> (\<open>bazaar_sim/opponents.py\<close>: the players), \<open>World\<close> and
  \<open>Sim_World\<close> (\<open>bazaar_sim/world.py\<close>: production schedules, the score, and a whole run over the interface
  \<open>players\<close>). \<open>Benchmark\<close> (\<open>bazaar_sim/benchmark.py\<close>) plays matched cases of it and compares the
  candidates; \<open>Benchmark_Facts\<close> proves that every valid case is played and compared, \<open>Benchmark_Main\<close> is its
  program, with the check of a recorded benchmark.

  \<^bold>\<open>Around a run.\<close> \<open>Secrets\<close> (\<open>logging_setup.py\<close>, the \<open>Secret\<close> of \<open>config.py\<close>, the recorded command line
  of \<open>version.py\<close>; interface \<open>replacement\<close>) and \<open>Config\<close> (\<open>config.py\<close>, with the credentials file of the server)
  are how a client gets its settings; \<open>Version\<close> (\<open>version.py\<close>) names the build that runs. \<open>Server_Report\<close> is the report of \<open>bazaar_sim/server.py\<close>. \<open>Logbook\<close> gives
  the objects a reader of the evidence file sees; \<open>Analysis\<close> (\<open>scripts/analyze_evidence.py\<close>) and \<open>Dashboard\<close>
  (\<open>live_dashboard.py\<close>) are its two readers, and \<open>Analysis_Facts\<close> and \<open>Dashboard_Facts\<close> say what the
  readers get of what was logged: each trade of a logged decision once, each line of up to 2^20 bytes as it is. \<open>Report\<close> has the texts the analysis writes (the summary of a log, its Markdown
  form, the story of one offer), and \<open>Report_Facts\<close> reads the Markdown back. \<open>Walkthrough\<close> (\<open>scripted_walkthrough.py\<close>) is the fixed exchange with the
  practice server over any session; \<open>Walkthrough_Facts\<close> shows what a passed one certifies. \<open>Scenario\<close>
  (\<open>scripts/decide_once.py\<close>) plans one decision on a state written by hand, \<open>Scenario_Facts\<close> says when it
  exits with success. \<open>Hivemind\<close> (\<open>hivemind.py\<close>) is the log of a station that an external coordinator trades for,
  and \<open>Hivemind_Facts\<close> compares it with what the client itself would have logged.

  \<^bold>\<open>The programs.\<close> \<open>Arguments\<close> is what the programs use of \<open>argparse\<close>, with the parser of \<open>config.py\<close>;
  \<open>Server_Main\<close> is the command line of the simulated server and the server it builds. \<open>Cli\<close> (\<open>cli.py\<close>) has the
  modes of the client over what the socket library does with its connection and the calls of a session, and its exit status, \<open>Orchestrate\<close> (\<open>bazaar_sim/orchestrate.py\<close>)
  the processes of a local run, their command lines and environments, and how they are supervised. \<open>Cli_Facts\<close>
  and \<open>Orchestrate_Facts\<close> state what status 0 certifies, and that the command lines one program writes are read
  by the other as they were meant, down to the seat each client gets.
  \<open>Fleet\<close> (\<open>scripts/fleet.py\<close>) starts one client for each listed player and reads their logs with regular
  expressions, whose matching is written out; \<open>Fleet_Facts\<close> shows that every client trades with its own token and
  that the line a client logs is recognised. \<open>Run_Log\<close> has the summary of \<open>scripts/analyze_run.py\<close> and the plan and
  verdict of \<open>scripts/check.py\<close>.

  \<^bold>\<open>Bounds and termination.\<close> Loops over offers, candidates and gifts are recursions on lists, so
  every definition is total; no fuel is used. The search for a free log name is a partial function,
  proved to return; a connection's loop and a run are relations, since nothing bounds them. Python's integers are \<open>int\<close>; 64-bit fields of
  messages are words, and encoding an integer out of range raises.

  \<^bold>\<open>Not modelled.\<close> Socket I/O, log output and printed tables, JSON text, the HTML pages, interrupts, the tasks of the
  hivemind bridge, the waiting loops of the scripts and the loading of a module in \<open>execution/reporting.py\<close>. The methods of the coordinator's package, hash functions,
  protobuf serialisation, \<open>json.loads\<close> of a line, \<open>datetime.fromisoformat\<close>, floats as text, Python's random
  generator, clock readings, the jitter of the backoff, what other processes answer and the success of a write
  are parameters.
\<close>

end
